(* ===== verification/Prelude.thy ===== *)
theory Prelude
  imports Main "HOL-Library.List_Lexorder" "HOL-Library.Char_ord"
begin

text \<open>
  The shared prelude: the result type of the fallible Python functions, the
  keyed tables that stand for the SQL tables of the registry, the ordered
  de-duplication that \<open>dict.fromkeys\<close> performs, and the collections of simplification
  facts the component theories add to. Strings are ordered as lists of characters, by
  code point, which is the order Python's \<open>sorted\<close> uses.
\<close>

named_theorems table_simps \<open>facts on keyed tables\<close>
named_theorems model_defs \<open>definitions unfolded when a handler is analysed\<close>


section \<open>Results\<close>

text \<open>A function that may raise returns \<open>Inl\<close> the error or \<open>Inr\<close> the value.\<close>

definition res_bind :: "'e + 'a \<Rightarrow> ('a \<Rightarrow> 'e + 'b) \<Rightarrow> 'e + 'b" where
  "res_bind r f = (case r of Inl e \<Rightarrow> Inl e | Inr a \<Rightarrow> f a)"

lemma res_bind_Inl [simp]: "res_bind (Inl e) f = Inl e"
  by (simp add: res_bind_def)

lemma res_bind_Inr [simp]: "res_bind (Inr a) f = f a"
  by (simp add: res_bind_def)

lemma res_bind_eq_Inr: "res_bind r f = Inr b \<longleftrightarrow> (\<exists>a. r = Inr a \<and> f a = Inr b)"
  by (cases r) auto

lemma res_bind_eq_Inl: "res_bind r f = Inl e \<longleftrightarrow> r = Inl e \<or> (\<exists>a. r = Inr a \<and> f a = Inl e)"
  by (cases r) auto

text \<open>\<open>tuple(f(x) for x in xs)\<close>: stops at the first element that raises.\<close>

fun res_map :: "('a \<Rightarrow> 'e + 'b) \<Rightarrow> 'a list \<Rightarrow> 'e + 'b list" where
  "res_map f [] = Inr []"
| "res_map f (x # xs) = res_bind (f x) (\<lambda>y. res_bind (res_map f xs) (\<lambda>ys. Inr (y # ys)))"

lemma res_map_Inr_iff:
  "res_map f xs = Inr ys \<longleftrightarrow> list_all2 (\<lambda>x y. f x = Inr y) xs ys"
proof (induction xs arbitrary: ys)
  case Nil
  then show ?case by auto
next
  case (Cons x xs)
  then show ?case by (cases ys) (auto simp: res_bind_eq_Inr)
qed

lemma res_map_id:
  assumes "\<And>x. x \<in> set xs \<Longrightarrow> f x = Inr x"
  shows "res_map f xs = Inr xs"
  using assms by (induction xs) auto

lemma res_map_set:
  assumes "res_map f xs = Inr ys" and "y \<in> set ys"
  shows "\<exists>x \<in> set xs. f x = Inr y"
proof -
  from assms(1) have "list_all2 (\<lambda>x y. f x = Inr y) xs ys"
    by (simp add: res_map_Inr_iff)
  then show ?thesis
    using assms(2) by (auto simp: list_all2_conv_all_nth in_set_conv_nth) force
qed

definition res_ok :: "'e + 'a \<Rightarrow> bool" where
  "res_ok r = (case r of Inl _ \<Rightarrow> False | Inr _ \<Rightarrow> True)"

lemma res_ok_simps [simp]: "\<not> res_ok (Inl e)" "res_ok (Inr a)"
  by (simp_all add: res_ok_def)

lemma res_map_mem:
  "res_map f xs = Inr ys \<Longrightarrow> y \<in> set ys \<Longrightarrow> \<exists>x \<in> set xs. f x = Inr y"
  by (force simp: res_map_Inr_iff list_all2_conv_all_nth in_set_conv_nth)

lemma res_map_mem':
  "res_map f xs = Inr ys \<Longrightarrow> x \<in> set xs \<Longrightarrow> \<exists>y \<in> set ys. f x = Inr y"
  by (auto simp: res_map_Inr_iff list_all2_conv_all_nth in_set_conv_nth)

lemma res_map_total: "\<forall>x \<in> set xs. res_ok (f x) \<Longrightarrow> \<exists>ys. res_map f xs = Inr ys"
proof (induction xs)
  case (Cons x xs)
  then obtain y ys where "f x = Inr y" "res_map f xs = Inr ys" by (auto simp: res_ok_def split: sum.splits)
  then show ?case by simp
qed simp


section \<open>Ordered de-duplication and sorted sets\<close>

text \<open>\<open>tuple(dict.fromkeys(xs))\<close> keeps the first occurrence of each element, in order.\<close>

fun uniq_acc :: "'a list \<Rightarrow> 'a list \<Rightarrow> 'a list" where
  "uniq_acc seen [] = []"
| "uniq_acc seen (x # xs) =
     (if x \<in> set seen then uniq_acc seen xs else x # uniq_acc (x # seen) xs)"

definition uniq :: "'a list \<Rightarrow> 'a list" where
  "uniq xs = uniq_acc [] xs"

lemma set_uniq_acc: "set (uniq_acc seen xs) = set xs - set seen"
  by (induction xs arbitrary: seen) auto

lemma set_uniq [simp]: "set (uniq xs) = set xs"
  by (simp add: uniq_def set_uniq_acc)

lemma distinct_uniq_acc: "distinct (uniq_acc seen xs)"
  by (induction xs arbitrary: seen) (auto simp: set_uniq_acc)

lemma distinct_uniq [simp]: "distinct (uniq xs)"
  by (simp add: uniq_def distinct_uniq_acc)

lemma uniq_acc_distinct:
  "distinct xs \<Longrightarrow> set xs \<inter> set seen = {} \<Longrightarrow> uniq_acc seen xs = xs"
  by (induction xs arbitrary: seen) auto

lemma uniq_id [simp]: "distinct xs \<Longrightarrow> uniq xs = xs"
  by (simp add: uniq_def uniq_acc_distinct)

lemma uniq_idem: "uniq (uniq xs) = uniq xs"
  by simp

text \<open>\<open>sorted(set(xs))\<close> and \<open>sorted({...})\<close>.\<close>

definition sorted_set :: "'a::linorder list \<Rightarrow> 'a list" where
  "sorted_set xs = sort (remdups xs)"

lemma sorted_set_props [simp]:
  "set (sorted_set xs) = set xs" "distinct (sorted_set xs)" "sorted (sorted_set xs)"
  by (simp_all add: sorted_set_def)

lemma sorted_set_cong: "set xs = set ys \<Longrightarrow> sorted_set xs = sorted_set ys"
  by (rule sorted_distinct_set_unique) simp_all

lemma sorted_set_nil [simp]: "sorted_set xs = [] \<longleftrightarrow> xs = []"
  by (metis set_empty sorted_set_props(1))


section \<open>Keyed tables\<close>

text \<open>
  A table is the list of its rows in insertion order. \<open>find_row\<close> is the lookup by primary
  key, \<open>update_rows\<close> an UPDATE with a WHERE clause, \<open>delete_rows\<close> a DELETE.
\<close>

definition find_row :: "('r \<Rightarrow> 'k) \<Rightarrow> 'k \<Rightarrow> 'r list \<Rightarrow> 'r option" where
  "find_row key k rows = find (\<lambda>r. key r = k) rows"

definition update_rows :: "('r \<Rightarrow> bool) \<Rightarrow> ('r \<Rightarrow> 'r) \<Rightarrow> 'r list \<Rightarrow> 'r list" where
  "update_rows P f rows = map (\<lambda>r. if P r then f r else r) rows"

definition delete_rows :: "('r \<Rightarrow> bool) \<Rightarrow> 'r list \<Rightarrow> 'r list" where
  "delete_rows P rows = filter (\<lambda>r. \<not> P r) rows"

definition keys_unique :: "('r \<Rightarrow> 'k) \<Rightarrow> 'r list \<Rightarrow> bool" where
  "keys_unique key rows = distinct (map key rows)"

lemma find_row_None [table_simps]: "find_row key k rows = None \<longleftrightarrow> k \<notin> key ` set rows"
  by (auto simp: find_row_def find_None_iff)

lemma find_row_SomeD: "find_row key k rows = Some r \<Longrightarrow> r \<in> set rows \<and> key r = k"
  by (auto simp: find_row_def find_Some_iff)

lemma find_row_unique:
  assumes "keys_unique key rows" and "r \<in> set rows" and "key r = k"
  shows "find_row key k rows = Some r"
proof -
  from assms(2,3) have "find_row key k rows \<noteq> None"
    by (auto simp: find_row_None)
  then obtain r' where r': "find_row key k rows = Some r'" by auto
  then have "r' \<in> set rows" "key r' = k" by (auto dest: find_row_SomeD)
  with assms have "r' = r"
    by (auto simp: keys_unique_def distinct_map dest: inj_onD)
  with r' show ?thesis by simp
qed

lemma keys_unique_eqD:
  "keys_unique key rows \<Longrightarrow> r \<in> set rows \<Longrightarrow> r' \<in> set rows \<Longrightarrow> key r = key r' \<Longrightarrow> r = r'"
  by (auto simp: keys_unique_def distinct_map dest: inj_onD)

lemma map_key_update_rows:
  "(\<And>r. key (f r) = key r) \<Longrightarrow> map key (update_rows P f rows) = map key rows"
  by (induction rows) (auto simp: update_rows_def)

lemma keys_unique_update_rows [table_simps]:
  "(\<And>r. key (f r) = key r) \<Longrightarrow> keys_unique key (update_rows P f rows) = keys_unique key rows"
  by (simp add: keys_unique_def map_key_update_rows)

lemma keys_unique_delete_rows:
  "keys_unique key rows \<Longrightarrow> keys_unique key (delete_rows P rows)"
  by (auto simp: keys_unique_def delete_rows_def distinct_map inj_on_def)

lemma keys_unique_snoc [table_simps]:
  "keys_unique key (rows @ [r]) \<longleftrightarrow> keys_unique key rows \<and> key r \<notin> key ` set rows"
  by (auto simp: keys_unique_def)

lemma in_update_rows:
  "x \<in> set (update_rows P f rows) \<longleftrightarrow> (\<exists>r \<in> set rows. x = (if P r then f r else r))"
  by (auto simp: update_rows_def)

lemma update_rowsE:
  assumes "x \<in> set (update_rows P f rows)"
  obtains r where "r \<in> set rows" "P r" "x = f r" | "x \<in> set rows" "\<not> P x"
  using assms by (auto simp: update_rows_def split: if_split_asm)

lemma in_delete_rows [table_simps]: "x \<in> set (delete_rows P rows) \<longleftrightarrow> x \<in> set rows \<and> \<not> P x"
  by (auto simp: delete_rows_def)

lemma find_row_update_same:
  assumes "\<And>r. key (f r) = key r"
  shows "find_row key k (update_rows P f rows)
    = map_option (\<lambda>r. if P r then f r else r) (find_row key k rows)"
  using assms by (induction rows) (auto simp: find_row_def update_rows_def)

lemma find_row_snoc:
  "find_row key k (rows @ [r])
    = (case find_row key k rows of Some x \<Rightarrow> Some x | None \<Rightarrow> if key r = k then Some r else None)"
  by (induction rows) (auto simp: find_row_def)

lemma update_rows_False [simp]: "(\<And>r. r \<in> set rows \<Longrightarrow> \<not> P r) \<Longrightarrow> update_rows P f rows = rows"
  by (induction rows) (auto simp: update_rows_def)

end
