(* ===== verification/PyText.thy ===== *)
theory PyText
  imports Prelude
begin

text \<open>
  The string operations of the Python standard library that the modelled code calls, on
  ASCII text: \<open>str.strip\<close>, \<open>str.split\<close>, \<open>str.casefold\<close>, \<open>str.isalnum\<close>,
  \<open>str.replace\<close>, \<open>posixpath.normpath\<close>, \<open>fnmatch.fnmatchcase\<close>, \<open>str(int)\<close>, and the two
  line-region regular expressions. A string is a list of characters and a character is a
  code point below 128.
\<close>


section \<open>Characters\<close>

definition code :: "char \<Rightarrow> nat" where
  "code c = of_char c"

definition is_space :: "char \<Rightarrow> bool" where
  "is_space c = (let n = code c in (9 \<le> n \<and> n \<le> 13) \<or> (28 \<le> n \<and> n \<le> 32))"

definition is_digit :: "char \<Rightarrow> bool" where
  "is_digit c = (let n = code c in 48 \<le> n \<and> n \<le> 57)"

definition is_upper :: "char \<Rightarrow> bool" where
  "is_upper c = (let n = code c in 65 \<le> n \<and> n \<le> 90)"

definition is_lower :: "char \<Rightarrow> bool" where
  "is_lower c = (let n = code c in 97 \<le> n \<and> n \<le> 122)"

definition is_alnum :: "char \<Rightarrow> bool" where
  "is_alnum c = (is_digit c \<or> is_upper c \<or> is_lower c)"

definition to_lower :: "char \<Rightarrow> char" where
  "to_lower c = (if is_upper c then char_of (code c + 32) else c)"

text \<open>\<open>[0-9a-f]\<close>: the characters of a lower-case hexadecimal digest.\<close>

definition is_hex_lower :: "char \<Rightarrow> bool" where
  "is_hex_lower c = (is_digit c \<or> (let n = code c in 97 \<le> n \<and> n \<le> 102))"

text \<open>\<open>[0-9a-fA-F]\<close>.\<close>

definition is_hex :: "char \<Rightarrow> bool" where
  "is_hex c = (is_hex_lower c \<or> (let n = code c in 65 \<le> n \<and> n \<le> 70))"

lemma code_to_lower: "code (to_lower c) = (if is_upper c then code c + 32 else code c)"
  by (auto simp: to_lower_def code_def is_upper_def Let_def)

lemma is_upper_to_lower [simp]: "\<not> is_upper (to_lower c)"
  by (auto simp: code_to_lower is_upper_def Let_def split: if_splits)

lemma to_lower_idem [simp]: "to_lower (to_lower c) = to_lower c"
  by (simp add: to_lower_def [of "to_lower c"])

lemma is_alnum_to_lower [simp]: "is_alnum (to_lower c) = is_alnum c"
  by (auto simp: is_alnum_def is_digit_def is_lower_def is_upper_def code_to_lower Let_def)

lemma is_space_to_lower [simp]: "is_space (to_lower c) = is_space c"
  by (auto simp: is_space_def is_upper_def code_to_lower Let_def)

lemma is_hex_lower_to_lower [simp]: "is_hex_lower (to_lower c) = is_hex c"
  by (auto simp: is_hex_lower_def is_hex_def is_digit_def is_upper_def code_to_lower Let_def)


section \<open>Stripping, splitting and joining\<close>

definition lower :: "string \<Rightarrow> string" where
  "lower s = map to_lower s"

definition lstrip_by :: "(char \<Rightarrow> bool) \<Rightarrow> string \<Rightarrow> string" where
  "lstrip_by P s = dropWhile P s"

definition rstrip_by :: "(char \<Rightarrow> bool) \<Rightarrow> string \<Rightarrow> string" where
  "rstrip_by P s = rev (dropWhile P (rev s))"

definition strip :: "string \<Rightarrow> string" where
  "strip s = rstrip_by is_space (lstrip_by is_space s)"

lemma lower_idem [simp]: "lower (lower s) = lower s"
  by (simp add: lower_def)

lemma rstrip_by_idem [simp]: "rstrip_by P (rstrip_by P s) = rstrip_by P s"
proof -
  have "dropWhile P (dropWhile P t) = dropWhile P t" for t
    by (induction t) auto
  then show ?thesis by (simp add: rstrip_by_def)
qed

lemma lstrip_by_idem [simp]: "lstrip_by P (lstrip_by P s) = lstrip_by P s"
  by (induction s) (auto simp: lstrip_by_def)

lemma lstrip_by_id: "s = [] \<or> \<not> P (hd s) \<Longrightarrow> lstrip_by P s = s"
  by (cases s) (auto simp: lstrip_by_def)

lemma hd_lstrip_by: "lstrip_by P s \<noteq> [] \<Longrightarrow> \<not> P (hd (lstrip_by P s))"
  by (induction s) (auto simp: lstrip_by_def)

lemma rstrip_by_prefix: "\<exists>t. s = rstrip_by P s @ t"
proof -
  have "rev s = takeWhile P (rev s) @ dropWhile P (rev s)" by simp
  then have "s = rev (dropWhile P (rev s)) @ rev (takeWhile P (rev s))"
    by (metis rev_append rev_rev_ident)
  then show ?thesis by (auto simp: rstrip_by_def)
qed

lemma strip_idem [simp]: "strip (strip s) = strip s"
proof -
  let ?l = "lstrip_by is_space s"
  have "lstrip_by is_space (rstrip_by is_space ?l) = rstrip_by is_space ?l"
  proof (rule lstrip_by_id)
    obtain t where t: "?l = rstrip_by is_space ?l @ t"
      using rstrip_by_prefix by blast
    show "rstrip_by is_space ?l = [] \<or> \<not> is_space (hd (rstrip_by is_space ?l))"
    proof (cases "rstrip_by is_space ?l")
      case (Cons c cs)
      with t have "hd ?l = c" "?l \<noteq> []" by auto
      with hd_lstrip_by [of is_space s] Cons show ?thesis by auto
    qed simp
  qed
  then show ?thesis by (simp add: strip_def)
qed

lemma strip_Nil [simp]: "strip [] = []"
  by (simp add: strip_def lstrip_by_def rstrip_by_def)

lemma strip_no_space: "list_all (\<lambda>c. \<not> is_space c) s \<Longrightarrow> strip s = s"
proof -
  assume a: "list_all (\<lambda>c. \<not> is_space c) s"
  have "dropWhile is_space t = t" if "\<forall>c \<in> set t. \<not> is_space c" for t using that by (cases t) auto
  from this [of s] this [of "rev s"] a show ?thesis
    by (simp add: strip_def lstrip_by_def rstrip_by_def list_all_iff)
qed

lemma set_strip_subset: "set (strip s) \<subseteq> set s"
  by (auto simp: strip_def lstrip_by_def rstrip_by_def dest!: set_dropWhileD)

lemma strip_lower: "strip (lower s) = lower (strip s)"
  by (simp add: strip_def lstrip_by_def rstrip_by_def lower_def dropWhile_map rev_map comp_def)

text \<open>\<open>s.split(sep)\<close> for a one-character separator: one more part than separators.\<close>

fun split_on :: "char \<Rightarrow> string \<Rightarrow> string list" where
  "split_on d [] = [[]]"
| "split_on d (c # cs) =
     (if c = d then [] # split_on d cs
      else (case split_on d cs of [] \<Rightarrow> [[c]] | p # ps \<Rightarrow> (c # p) # ps))"

text \<open>\<open>s.split()\<close>: the maximal runs of non-space characters.\<close>

fun words_acc :: "string \<Rightarrow> string \<Rightarrow> string list" where
  "words_acc w [] = (if w = [] then [] else [rev w])"
| "words_acc w (c # cs) =
     (if is_space c then (if w = [] then words_acc [] cs else rev w # words_acc [] cs)
      else words_acc (c # w) cs)"

definition words :: "string \<Rightarrow> string list" where
  "words s = words_acc [] s"

text \<open>\<open>sep.join(parts)\<close>.\<close>

fun join :: "string \<Rightarrow> string list \<Rightarrow> string" where
  "join sep [] = []"
| "join sep [p] = p"
| "join sep (p # ps) = p @ sep @ join sep ps"

definition spaced :: "string \<Rightarrow> string" where
  "spaced s = join '' '' (words s)"

lemma words_acc_no_space:
  "\<forall>c \<in> set w. \<not> is_space c \<Longrightarrow> p \<in> set (words_acc w s) \<Longrightarrow> p \<noteq> [] \<and> (\<forall>c \<in> set p. \<not> is_space c)"
proof (induction s arbitrary: w)
  case Nil
  then show ?case by (simp split: if_splits)
next
  case (Cons c cs)
  show ?case
  proof (cases "is_space c")
    case True
    show ?thesis
    proof (cases "p \<in> set (words_acc [] cs)")
      case True
      then show ?thesis by (intro Cons.IH [of "[]"]) simp_all
    next
      case False
      with \<open>is_space c\<close> Cons.prems have "w \<noteq> [] \<and> p = rev w"
        by (simp split: if_splits)
      with Cons.prems(1) show ?thesis by simp
    qed
  next
    case False
    with Cons.prems show ?thesis by (intro Cons.IH [of "c # w"]) simp_all
  qed
qed

lemma words_no_space: "p \<in> set (words s) \<Longrightarrow> p \<noteq> [] \<and> (\<forall>c \<in> set p. \<not> is_space c)"
  unfolding words_def by (rule words_acc_no_space) auto

lemma words_acc_append:
  "\<forall>c \<in> set p. \<not> is_space c \<Longrightarrow> words_acc w (p @ s) = words_acc (rev p @ w) s"
  by (induction p arbitrary: w) auto

lemma is_space_blank [simp]: "is_space CHR '' ''"
  by (simp add: is_space_def code_def)

lemma words_join:
  "(\<forall>p \<in> set ps. p \<noteq> [] \<and> (\<forall>c \<in> set p. \<not> is_space c)) \<Longrightarrow> words (join '' '' ps) = ps"
proof (induction ps rule: induct_list012)
  case 1
  show ?case by (simp add: words_def)
next
  case (2 p)
  then have "words_acc [] (p @ []) = words_acc (rev p @ []) []"
    by (intro words_acc_append) simp
  with 2 show ?case by (simp add: words_def)
next
  case (3 p q qs)
  then have "words_acc [] (p @ '' '' @ join '' '' (q # qs))
      = words_acc (rev p @ []) ('' '' @ join '' '' (q # qs))"
    by (intro words_acc_append) simp
  with 3 show ?case by (simp add: words_def)
qed

lemma spaced_idem [simp]: "spaced (spaced s) = spaced s"
  by (simp add: spaced_def words_join words_no_space)

text \<open>\<open>a.startswith(b)\<close>, \<open>a.endswith(b)\<close> and \<open>a.replace(c, d)\<close> for characters.\<close>

definition starts_with :: "string \<Rightarrow> string \<Rightarrow> bool" where
  "starts_with s p = (take (length p) s = p)"

definition ends_with :: "string \<Rightarrow> string \<Rightarrow> bool" where
  "ends_with s p = (length p \<le> length s \<and> drop (length s - length p) s = p)"

definition replace_char :: "char \<Rightarrow> char \<Rightarrow> string \<Rightarrow> string" where
  "replace_char a b s = map (\<lambda>c. if c = a then b else c) s"

text \<open>\<open>value.replace("\\", "/")\<close>.\<close>

definition slashes :: "string \<Rightarrow> string" where
  "slashes s = replace_char (CHR 0x5C) (CHR ''/'') s"

lemma starts_with_append [simp]: "starts_with (p @ s) p"
  by (simp add: starts_with_def)

lemma starts_with_iff: "starts_with s p \<longleftrightarrow> (\<exists>t. s = p @ t)"
  by (metis append_eq_conv_conj append_take_drop_id starts_with_def)

lemma starts_with_comparable:
  "starts_with s p \<Longrightarrow> starts_with s q \<Longrightarrow> starts_with p q \<or> starts_with q p"
  by (auto simp: starts_with_iff append_eq_append_conv2)


section \<open>Decimal numbers\<close>

fun nat_str :: "nat \<Rightarrow> string" where
  "nat_str n = (if n < 10 then [char_of (48 + n)]
     else nat_str (n div 10) @ [char_of (48 + n mod 10)])"

declare nat_str.simps [simp del]

definition int_str :: "int \<Rightarrow> string" where
  "int_str i = (if i < 0 then CHR ''-'' # nat_str (nat (- i)) else nat_str (nat i))"

text \<open>\<open>int(digits)\<close> for a run of decimal digits.\<close>

definition digits_val :: "string \<Rightarrow> nat" where
  "digits_val ds = foldl (\<lambda>n c. 10 * n + (code c - 48)) 0 ds"

lemma digits_val_snoc: "digits_val (ds @ [c]) = 10 * digits_val ds + (code c - 48)"
  by (simp add: digits_val_def)

lemma code_digit: "n < 10 \<Longrightarrow> code (char_of (48 + n)) = 48 + n"
  by (simp add: code_def)

lemma digits_val_nat_str: "digits_val (nat_str n) = n"
proof (induction n rule: nat_str.induct)
  case (1 n)
  show ?case
  proof (cases "n < 10")
    case True
    then show ?thesis
      by (subst nat_str.simps) (simp add: digits_val_def code_digit)
  next
    case False
    have "code (char_of (48 + n mod 10)) = 48 + n mod 10"
      by (rule code_digit) simp
    with False 1 show ?thesis
      by (subst nat_str.simps) (simp add: digits_val_snoc)
  qed
qed

lemma nat_str_digits: "\<forall>c \<in> set (nat_str n). is_digit c"
proof (induction n rule: nat_str.induct)
  case (1 n)
  have d: "is_digit (char_of (48 + m))" if "m < 10" for m :: nat
    using that by (simp add: is_digit_def code_digit)
  show ?case
  proof (cases "n < 10")
    case True
    with d show ?thesis by (subst nat_str.simps) simp
  next
    case False
    with 1 d [of "n mod 10"] show ?thesis by (subst nat_str.simps) simp
  qed
qed

lemma nat_str_nonempty [simp]: "nat_str n \<noteq> []"
  by (subst nat_str.simps) simp


section \<open>Paths\<close>

text \<open>
  \<open>posixpath.normpath\<close>: one or two leading slashes are kept (three or more count as one),
  empty and \<open>.\<close> components go away, and \<open>..\<close> cancels the component before it.
\<close>

definition initial_slashes :: "string \<Rightarrow> nat" where
  "initial_slashes p =
     (if \<not> starts_with p ''/'' then 0
      else if starts_with p ''//'' \<and> \<not> starts_with p ''///'' then 2 else 1)"

fun norm_comps :: "bool \<Rightarrow> string list \<Rightarrow> string list \<Rightarrow> string list" where
  "norm_comps rooted acc [] = rev acc"
| "norm_comps rooted acc (c # cs) =
     (if c = [] \<or> c = ''.'' then norm_comps rooted acc cs
      else if c \<noteq> ''..'' \<or> (\<not> rooted \<and> acc = []) \<or> (acc \<noteq> [] \<and> hd acc = ''..'')
      then norm_comps rooted (c # acc) cs
      else norm_comps rooted (tl acc) cs)"

definition normpath :: "string \<Rightarrow> string" where
  "normpath p =
     (if p = [] then ''.''
      else let n = initial_slashes p;
               body = replicate n (CHR ''/'')
                 @ join ''/'' (norm_comps (0 < n) [] (split_on (CHR ''/'') p))
           in if body = [] then ''.'' else body)"

text \<open>\<open>while value.startswith("./"): value = value[2:]\<close>.\<close>

fun drop_dot_slash :: "string \<Rightarrow> string" where
  "drop_dot_slash (c # d # cs) =
     (if c = CHR ''.'' \<and> d = CHR ''/'' then drop_dot_slash cs else c # d # cs)"
| "drop_dot_slash cs = cs"

definition is_glob_char :: "char \<Rightarrow> bool" where
  "is_glob_char c = (c = CHR ''*'' \<or> c = CHR ''?'' \<or> c = CHR ''['')"

text \<open>\<open>any(ch in value for ch in "*?[")\<close>.\<close>

definition has_glob :: "string \<Rightarrow> bool" where
  "has_glob s = list_ex is_glob_char s"

definition rstrip_slash :: "string \<Rightarrow> string" where
  "rstrip_slash s = rstrip_by (\<lambda>c. c = CHR ''/'') s"


section \<open>Shell patterns\<close>

text \<open>
  \<open>fnmatch.fnmatchcase\<close>: \<open>*\<close> matches any run of characters (slashes and leading dots
  included), \<open>?\<close> any one character, \<open>[seq]\<close> and \<open>[!seq]\<close> a set with ranges; a \<open>[\<close>
  that is never closed stands for itself. A reversed range such as \<open>z-a\<close> is empty.
\<close>

datatype pat_item = PStar | PAny | PChar char | PSet bool "(char \<times> char) list"

fun set_ranges :: "string \<Rightarrow> (char \<times> char) list" where
  "set_ranges (a # m # b # cs) =
     (if m = CHR ''-'' then (a, b) # set_ranges cs else (a, a) # set_ranges (m # b # cs))"
| "set_ranges (a # cs) = (a, a) # set_ranges cs"
| "set_ranges [] = []"

text \<open>The text up to the closing bracket of a set, and what follows it.\<close>

definition close_set :: "string \<Rightarrow> (string \<times> string) option" where
  "close_set s =
     (let neg = takeWhile (\<lambda>c. c = CHR ''!'') (take 1 s);
          s1 = drop (length neg) s;
          lead = takeWhile (\<lambda>c. c = CHR '']'') (take 1 s1);
          s2 = drop (length lead) s1;
          body = takeWhile (\<lambda>c. c \<noteq> CHR '']'') s2;
          rest = drop (length body) s2
      in case rest of [] \<Rightarrow> None | _ # after \<Rightarrow> Some (neg @ lead @ body, after))"

definition set_item :: "string \<Rightarrow> pat_item" where
  "set_item stuff = (case stuff of
       [] \<Rightarrow> PSet True []
     | c # cs \<Rightarrow> if c = CHR ''!'' then PSet False (set_ranges cs) else PSet True (set_ranges stuff))"

lemma close_set_shorter:
  assumes "close_set s = Some (b, r)"
  shows "length r < length s"
proof -
  obtain u x where "x # r = drop u s"
    using assms by (simp add: close_set_def Let_def drop_drop split: list.splits) metis
  then have "Suc (length r) = length s - u"
    by (metis length_Cons length_drop)
  then show ?thesis by simp
qed

function pat_items :: "string \<Rightarrow> pat_item list" where
  "pat_items [] = []"
| "pat_items (c # cs) =
     (if c = CHR ''*'' then PStar # pat_items cs
      else if c = CHR ''?'' then PAny # pat_items cs
      else if c = CHR ''['' then
        (case close_set cs of
           None \<Rightarrow> PChar c # pat_items cs
         | Some (stuff, rest) \<Rightarrow> set_item stuff # pat_items rest)
      else PChar c # pat_items cs)"
  by pat_completeness auto
termination
  by (relation "measure length") (auto dest: close_set_shorter)

definition in_ranges :: "char \<Rightarrow> (char \<times> char) list \<Rightarrow> bool" where
  "in_ranges c rs = list_ex (\<lambda>(a, b). code a \<le> code c \<and> code c \<le> code b) rs"

fun item_matches :: "pat_item \<Rightarrow> char \<Rightarrow> bool" where
  "item_matches PStar c = False"
| "item_matches PAny c = True"
| "item_matches (PChar d) c = (c = d)"
| "item_matches (PSet pos rs) c = (in_ranges c rs = pos)"

fun match_items :: "pat_item list \<Rightarrow> string \<Rightarrow> bool" where
  "match_items [] s = (s = [])"
| "match_items (PStar # ps) [] = match_items ps []"
| "match_items (PStar # ps) (c # cs) = (match_items ps (c # cs) \<or> match_items (PStar # ps) cs)"
| "match_items (p # ps) [] = False"
| "match_items (p # ps) (c # cs) = (item_matches p c \<and> match_items ps cs)"

definition fnmatchcase :: "string \<Rightarrow> string \<Rightarrow> bool" where
  "fnmatchcase name pat = match_items (pat_items pat) name"

text \<open>The text before the first wildcard of a pattern.\<close>

definition glob_prefix :: "string \<Rightarrow> string" where
  "glob_prefix pat = takeWhile (\<lambda>c. \<not> is_glob_char c) pat"

text \<open>
  What the prefix test of the path comparison rests on: a name that matches a pattern
  begins with the pattern's literal prefix.
\<close>

lemma match_literal_prefix:
  "\<forall>c \<in> set p. \<not> is_glob_char c \<Longrightarrow> match_items (pat_items (p @ q)) s \<Longrightarrow> starts_with s p"
proof (induction p arbitrary: s)
  case Nil
  then show ?case by (simp add: starts_with_def)
next
  case (Cons c p)
  then have items: "pat_items ((c # p) @ q) = PChar c # pat_items (p @ q)"
    by (auto simp: is_glob_char_def)
  show ?case
  proof (cases s)
    case Nil
    with Cons.prems(2) items show ?thesis by simp
  next
    case (Cons d t)
    with Cons.prems items Cons.IH [of t] show ?thesis
      by (auto simp: starts_with_def)
  qed
qed

lemma fnmatch_prefix:
  assumes "fnmatchcase s pat"
  shows "starts_with s (glob_prefix pat)"
proof -
  have "pat = glob_prefix pat @ dropWhile (\<lambda>c. \<not> is_glob_char c) pat"
    by (simp add: glob_prefix_def)
  with assms have "match_items (pat_items (glob_prefix pat @ dropWhile (\<lambda>c. \<not> is_glob_char c) pat)) s"
    by (simp add: fnmatchcase_def)
  then show ?thesis
    by (rule match_literal_prefix [rotated]) (auto simp: glob_prefix_def dest: set_takeWhileD)
qed

lemma fnmatch_literal:
  "\<not> has_glob pat \<Longrightarrow> fnmatchcase s pat \<longleftrightarrow> s = pat"
proof (induction pat arbitrary: s)
  case Nil
  then show ?case by (simp add: fnmatchcase_def)
next
  case (Cons c pat)
  then have items: "pat_items (c # pat) = PChar c # pat_items pat"
    by (auto simp: has_glob_def is_glob_char_def)
  from Cons have "\<not> has_glob pat" by (simp add: has_glob_def)
  with Cons.IH items show ?case
    by (cases s) (auto simp: fnmatchcase_def)
qed


section \<open>Line regions\<close>

definition skip_spaces :: "string \<Rightarrow> string" where
  "skip_spaces s = dropWhile is_space s"

text \<open>\<open>(\d+)\s*[-:]\s*(\d+)\<close> at the start of the text, both digit runs maximal.\<close>

definition interval_at :: "string \<Rightarrow> ((nat \<times> nat) \<times> string) option" where
  "interval_at s =
     (let d1 = takeWhile is_digit s;
          r1 = skip_spaces (dropWhile is_digit s)
      in if d1 = [] then None
         else case r1 of
             [] \<Rightarrow> None
           | m # r2 \<Rightarrow>
               if m = CHR ''-'' \<or> m = CHR '':'' then
                 (let r3 = skip_spaces r2; d2 = takeWhile is_digit r3
                  in if d2 = [] then None
                     else Some ((digits_val d1, digits_val d2), dropWhile is_digit r3))
               else None)"

text \<open>
  \<open>re.search(r"(?:lines?\s*[:=]?\s*)?(\d+)\s*[-:]\s*(\d+)", value, re.IGNORECASE)\<close>: the
  prefix is optional and holds no digit, so the leftmost match is the leftmost position
  where the interval itself starts.
\<close>

fun search_interval :: "string \<Rightarrow> (nat \<times> nat) option" where
  "search_interval [] = None"
| "search_interval (c # cs) =
     (case interval_at (c # cs) of Some (i, _) \<Rightarrow> Some i | None \<Rightarrow> search_interval cs)"

text \<open>\<open>re.fullmatch(r"(?:lines?:)?\s*(\d+)\s*[-:]\s*(\d+)", value.strip())\<close>.\<close>

definition full_interval :: "string \<Rightarrow> (nat \<times> nat) option" where
  "full_interval s =
     (let t = (if starts_with s ''lines:'' then drop 6 s
               else if starts_with s ''line:'' then drop 5 s else s)
      in case interval_at (skip_spaces t) of
           Some (i, rest) \<Rightarrow> if rest = [] then Some i else None
         | None \<Rightarrow> None)"

end
