(* ===== verification/PyJson.thy ===== *)
theory PyJson
  imports PyText
begin

text \<open>
  The JSON values that travel in \<open>metadata\<close> mappings and in stored payloads: the value
  type, Python's truth value and \<open>str()\<close> of such a value, dictionary lookup and update, and
  the canonical form (object keys sorted at every level) that
  \<open>json.dumps(..., sort_keys=True)\<close> writes and that every fingerprint of the code hashes.
  Floating point numbers are not modelled.
\<close>

datatype json =
    JNull
  | JBool bool
  | JInt int
  | JStr string
  | JList "json list"
  | JObj "(string \<times> json) list"

type_synonym metadata = "(string \<times> json) list"

text \<open>\<open>bool(value)\<close>.\<close>

fun truthy :: "json \<Rightarrow> bool" where
  "truthy JNull = False"
| "truthy (JBool b) = b"
| "truthy (JInt i) = (i \<noteq> 0)"
| "truthy (JStr s) = (s \<noteq> [])"
| "truthy (JList xs) = (xs \<noteq> [])"
| "truthy (JObj kvs) = (kvs \<noteq> [])"

text \<open>\<open>d.get(key)\<close>, with \<open>JNull\<close> for a missing key.\<close>

definition jget :: "metadata \<Rightarrow> string \<Rightarrow> json" where
  "jget m k = (case map_of m k of None \<Rightarrow> JNull | Some v \<Rightarrow> v)"

text \<open>\<open>{**d, key: value}\<close>: replaces in place or appends.\<close>

fun jset :: "string \<Rightarrow> json \<Rightarrow> metadata \<Rightarrow> metadata" where
  "jset k v [] = [(k, v)]"
| "jset k v ((k', v') # m) = (if k' = k then (k, v) # m else (k', v') # jset k v m)"

lemma jget_jset [simp]: "jget (jset k v m) k' = (if k' = k then v else jget m k')"
  by (induction m) (auto simp: jget_def)

text \<open>\<open>repr\<close> of a string: the quote character Python picks, and its escapes.\<close>

definition hex_digit :: "nat \<Rightarrow> char" where
  "hex_digit n = (if n < 10 then char_of (48 + n) else char_of (87 + n))"

definition repr_char :: "char \<Rightarrow> char \<Rightarrow> string" where
  "repr_char q c =
     (let n = code c; bs = CHR 0x5C
      in if c = bs \<or> c = q then [bs, c]
         else if n = 10 then [bs, CHR ''n'']
         else if n = 13 then [bs, CHR ''r'']
         else if n = 9 then [bs, CHR ''t'']
         else if n < 32 \<or> n = 127 then [bs, CHR ''x'', hex_digit (n div 16), hex_digit (n mod 16)]
         else [c])"

definition repr_str :: "string \<Rightarrow> string" where
  "repr_str s =
     (let q = (if CHR 0x27 \<in> set s \<and> CHR 0x22 \<notin> set s then CHR 0x22 else CHR 0x27)
      in q # concat (map (repr_char q) s) @ [q])"

primrec py_repr :: "json \<Rightarrow> string" where
  "py_repr JNull = ''None''"
| "py_repr (JBool b) = (if b then ''True'' else ''False'')"
| "py_repr (JInt i) = int_str i"
| "py_repr (JStr s) = repr_str s"
| "py_repr (JList xs) = ''['' @ join '', '' (map py_repr xs) @ '']''"
| "py_repr (JObj kvs) = ''{'' @ join '', ''
     (map (\<lambda>(k, r). repr_str k @ '': '' @ r) (map (map_prod id py_repr) kvs)) @ ''}''"

text \<open>\<open>str(value)\<close>.\<close>

definition py_str :: "json \<Rightarrow> string" where
  "py_str v = (case v of JStr s \<Rightarrow> s | _ \<Rightarrow> py_repr v)"

primrec canon :: "json \<Rightarrow> json" where
  "canon JNull = JNull"
| "canon (JBool b) = JBool b"
| "canon (JInt i) = JInt i"
| "canon (JStr s) = JStr s"
| "canon (JList xs) = JList (map canon xs)"
| "canon (JObj kvs) = JObj (sort_key fst (map (map_prod id canon) kvs))"

lemma map_of_sort_key: "map_of (sort_key fst xs) k = map_of xs k"
proof -
  have first: "map_of ys k = (case filter (\<lambda>p. fst p = k) ys of [] \<Rightarrow> None | p # _ \<Rightarrow> Some (snd p))" for ys
    by (induction ys) auto
  show ?thesis by (simp only: first sort_key_stable)
qed

lemma map_of_map_canon: "map_of (map (map_prod id canon) m) k = map_option canon (map_of m k)"
  by (induction m) auto

text \<open>Sorting by key commutes with a change of the values, so the canonical form is a fixed point.\<close>

lemma sort_key_map_values: "sort_key fst (map (map_prod id f) xs) = map (map_prod id f) (sort_key fst xs)"
proof -
  have step: "insort_key fst (map_prod id f x) (map (map_prod id f) ys) = map (map_prod id f) (insort_key fst x ys)"
    for x ys by (induction ys) auto
  show ?thesis by (induction xs) (simp_all add: step step [unfolded id_def])
qed

lemma sort_key_twice: "sort_key f (sort_key f xs) = sort_key f xs"
  by (rule sort_key_id_if_sorted) simp

lemma canon_idem [simp]: "canon (canon v) = canon v"
proof (induction v)
  case (JObj kvs)
  have "map (map_prod id canon \<circ> map_prod id canon) kvs = map (map_prod id canon) kvs"
    by (rule map_cong [OF refl]) (use JObj in \<open>force intro: snds.intros\<close>)
  then have "map (map_prod id canon) (map (map_prod id canon) kvs) = map (map_prod id canon) kvs" by simp
  then show ?case by (simp add: sort_key_map_values [symmetric] sort_key_twice del: map_map)
qed simp_all

text \<open>
  \<open>==\<close> on dictionaries looks at no order of keys, and \<open>True == 1\<close>: two values are equal when their
  \<open>eq_form\<close> is the same.
\<close>

primrec eq_form :: "json \<Rightarrow> json" where
  "eq_form JNull = JNull"
| "eq_form (JBool b) = JInt (if b then 1 else 0)"
| "eq_form (JInt i) = JInt i"
| "eq_form (JStr s) = JStr s"
| "eq_form (JList xs) = JList (map eq_form xs)"
| "eq_form (JObj kvs) = JObj (sort_key fst (map (map_prod id eq_form) kvs))"

lemma eq_form_canon [simp]: "eq_form (canon v) = eq_form v"
proof (induction v)
  case (JObj kvs)
  have "map (map_prod id eq_form) (map (map_prod id canon) kvs) = map (map_prod id eq_form) kvs"
    unfolding map_map by (rule map_cong [OF refl]) (use JObj in \<open>force intro: snds.intros\<close>)
  then show ?case
    by (simp add: sort_key_map_values [symmetric] sort_key_twice del: map_map)
qed simp_all

text \<open>\<open>{**a, **b}\<close>.\<close>

definition dict_merge :: "metadata \<Rightarrow> metadata \<Rightarrow> metadata" where
  "dict_merge a b = fold (\<lambda>(k, v). jset k v) b a"

definition jopt :: "string option \<Rightarrow> json" where
  "jopt v = (case v of None \<Rightarrow> JNull | Some s \<Rightarrow> JStr s)"

definition jstrs :: "string list \<Rightarrow> json" where
  "jstrs xs = JList (map JStr xs)"

lemma jopt_inject [simp]: "jopt a = jopt b \<longleftrightarrow> a = b"
  by (auto simp: jopt_def split: option.splits)

lemma jstrs_inject [simp]: "jstrs a = jstrs b \<longleftrightarrow> a = b"
  by (auto simp: jstrs_def inj_map_eq_map inj_def)

end
