(* ===== verification/Models.thy ===== *)
theory Models
  imports PyJson
begin

text \<open>
  The protocol models of \<open>core/models.py\<close>: the enumerations, resource references, intent
  operations, change intents and admission decisions. Each \<open>_post_init\<close> definition is the
  class's \<open>__post_init__\<close>: it normalises the fields it is given or says why it raises.
  \<open>dataclasses.replace\<close> runs \<open>__post_init__\<close> again, so the lemmas on idempotence are what
  makes replacing fields of an accepted value keep the others.
\<close>


section \<open>Enumerations\<close>

datatype resource_kind =
  K_FILE | K_SYMBOL | K_CONCEPT | K_CONTRACT | K_DOCUMENT | K_CONFIG | K_ROUTE | K_SCHEMA

datatype access_mode =
  A_READ | A_WRITE | A_EXTEND | A_DELETE | A_RENAME | A_DOCUMENT | A_TEST

datatype scope_commitment = COMMITTED | CONTINGENT

datatype intent_state =
  S_REQUESTED | S_ADMITTED | S_BLOCKED | S_ACTIVE | S_COMPLETED | S_RELEASED | S_EXPIRED | S_STALE

datatype admission_kind =
    INDEPENDENT | COMPATIBLE_OVERLAP | CONTRACT_DEPENDENCY | PARALLEL_WITH_CONSTRAINT
  | REQUIRES_STUB | NOTIFY_ON_CHANGE | SERIALIZE | REPLAN | REJECT

datatype worker_tier = ECONOMY | STANDARD | FRONTIER

definition mode_mutating :: "access_mode \<Rightarrow> bool" where
  "mode_mutating m = (m \<noteq> A_READ)"

definition mode_destructive :: "access_mode \<Rightarrow> bool" where
  "mode_destructive m = (m \<in> {A_DELETE, A_RENAME})"

fun kind_value :: "resource_kind \<Rightarrow> string" where
  "kind_value K_FILE = ''file''"
| "kind_value K_SYMBOL = ''symbol''"
| "kind_value K_CONCEPT = ''concept''"
| "kind_value K_CONTRACT = ''contract''"
| "kind_value K_DOCUMENT = ''document''"
| "kind_value K_CONFIG = ''config''"
| "kind_value K_ROUTE = ''route''"
| "kind_value K_SCHEMA = ''schema''"

fun mode_value :: "access_mode \<Rightarrow> string" where
  "mode_value A_READ = ''read''"
| "mode_value A_WRITE = ''write''"
| "mode_value A_EXTEND = ''extend''"
| "mode_value A_DELETE = ''delete''"
| "mode_value A_RENAME = ''rename''"
| "mode_value A_DOCUMENT = ''document''"
| "mode_value A_TEST = ''test''"

fun commitment_value :: "scope_commitment \<Rightarrow> string" where
  "commitment_value COMMITTED = ''committed''"
| "commitment_value CONTINGENT = ''contingent''"

text \<open>The precedence table of \<open>highest_admission_kind\<close>.\<close>

fun kind_rank :: "admission_kind \<Rightarrow> nat" where
  "kind_rank INDEPENDENT = 0"
| "kind_rank COMPATIBLE_OVERLAP = 1"
| "kind_rank CONTRACT_DEPENDENCY = 2"
| "kind_rank NOTIFY_ON_CHANGE = 3"
| "kind_rank PARALLEL_WITH_CONSTRAINT = 4"
| "kind_rank REQUIRES_STUB = 5"
| "kind_rank SERIALIZE = 6"
| "kind_rank REPLAN = 7"
| "kind_rank REJECT = 8"

text \<open>\<open>max(kinds, key=order.__getitem__, default=INDEPENDENT)\<close>: the first maximum.\<close>

fun highest_from :: "admission_kind \<Rightarrow> admission_kind list \<Rightarrow> admission_kind" where
  "highest_from best [] = best"
| "highest_from best (k # ks) =
     highest_from (if kind_rank best < kind_rank k then k else best) ks"

definition highest_admission_kind :: "admission_kind list \<Rightarrow> admission_kind" where
  "highest_admission_kind ks =
     (case ks of [] \<Rightarrow> INDEPENDENT | k # ks' \<Rightarrow> highest_from k ks')"

lemma highest_from_props:
  "highest_from b ks \<in> set (b # ks) \<and> (\<forall>k \<in> set (b # ks). kind_rank k \<le> kind_rank (highest_from b ks))"
  by (induction ks arbitrary: b) (auto, (fastforce simp: not_less)+)

lemma highest_kind_in: "ks \<noteq> [] \<Longrightarrow> highest_admission_kind ks \<in> set ks"
  using highest_from_props by (cases ks) (auto simp: highest_admission_kind_def)

lemma highest_kind_ge: "k \<in> set ks \<Longrightarrow> kind_rank k \<le> kind_rank (highest_admission_kind ks)"
  using highest_from_props by (cases ks) (auto simp: highest_admission_kind_def)


section \<open>Cleaning and normalising\<close>

datatype model_error =
    EmptyField string
  | BadBaseCommit
  | NoOperations
  | SelfDependency
  | NonPositiveLease

definition clean :: "string \<Rightarrow> string \<Rightarrow> model_error + string" where
  "clean field_name v = (let c = strip v in if c = [] then Inl (EmptyField field_name) else Inr c)"

definition clean_opt :: "string \<Rightarrow> string option \<Rightarrow> model_error + string option" where
  "clean_opt field_name v = (case v of
       None \<Rightarrow> Inr None
     | Some s \<Rightarrow> res_bind (clean field_name s) (\<lambda>c. Inr (Some c)))"

definition norm_identifier :: "string \<Rightarrow> string" where
  "norm_identifier v = filter is_alnum (lower v)"

definition norm_path :: "string \<Rightarrow> string" where
  "norm_path v =
     (let s = drop_dot_slash (strip (slashes v))
      in if has_glob s then rstrip_slash s
         else let n = normpath s in if n = ''.'' then [] else rstrip_slash n)"

definition norm_signature :: "string option \<Rightarrow> string option" where
  "norm_signature v = map_option spaced v"

lemma clean_Inr: "clean f v = Inr c \<Longrightarrow> c \<noteq> [] \<and> strip c = c"
  by (auto simp: clean_def Let_def split: if_splits)

lemma clean_idem: "clean f v = Inr c \<Longrightarrow> clean g c = Inr c"
  by (auto simp: clean_def Let_def split: if_splits)

lemma clean_opt_idem: "clean_opt f v = Inr c \<Longrightarrow> clean_opt g c = Inr c"
  by (auto simp: clean_opt_def res_bind_eq_Inr clean_idem split: option.splits)

lemma norm_signature_idem [simp]: "norm_signature (norm_signature v) = norm_signature v"
  by (cases v) (simp_all add: norm_signature_def)

lemma norm_identifier_idem [simp]: "norm_identifier (norm_identifier v) = norm_identifier v"
  by (simp add: norm_identifier_def lower_def filter_map comp_def)


section \<open>Resource references\<close>

record resource_ref =
  rr_kind :: resource_kind
  rr_identifier :: string
  rr_signature :: "string option"
  rr_region :: "string option"
  rr_concept_id :: "string option"
  rr_subject_concept_id :: "string option"
  rr_metadata :: metadata

definition resource_post_init :: "resource_ref \<Rightarrow> model_error + resource_ref" where
  "resource_post_init r =
     res_bind (clean ''resource identifier'' (rr_identifier r)) (\<lambda>ident.
     res_bind (clean_opt ''region'' (rr_region r)) (\<lambda>region.
     res_bind (clean_opt ''concept_id'' (rr_concept_id r)) (\<lambda>concept.
     res_bind (clean_opt ''subject_concept_id'' (rr_subject_concept_id r)) (\<lambda>subject.
     Inr (r\<lparr>rr_identifier := ident, rr_signature := norm_signature (rr_signature r),
           rr_region := region, rr_concept_id := concept,
           rr_subject_concept_id := subject\<rparr>)))))"

text \<open>\<open>a or b\<close> for an optional string: an empty one counts as absent.\<close>

definition str_or :: "string option \<Rightarrow> string \<Rightarrow> string" where
  "str_or a b = (case a of Some s \<Rightarrow> if s = [] then b else s | None \<Rightarrow> b)"

definition path_kind :: "resource_kind \<Rightarrow> bool" where
  "path_kind k = (k \<in> {K_FILE, K_DOCUMENT})"

definition semantic_key :: "resource_ref \<Rightarrow> string" where
  "semantic_key r = norm_identifier (str_or (rr_concept_id r) (rr_identifier r))"

definition rr_key :: "resource_ref \<Rightarrow> string" where
  "rr_key r =
     (if path_kind (rr_kind r) then norm_path (rr_identifier r)
      else if rr_kind r = K_ROUTE then spaced (lower (rr_identifier r))
      else norm_identifier (str_or (rr_concept_id r) (rr_identifier r)))"

definition subject_key :: "resource_ref \<Rightarrow> string option" where
  "subject_key r =
     (let value = (case rr_subject_concept_id r of
           Some s \<Rightarrow> if s = [] then jget (rr_metadata r) ''subject_concept_id'' else JStr s
         | None \<Rightarrow> jget (rr_metadata r) ''subject_concept_id'')
      in if truthy value then Some (norm_identifier (py_str value)) else None)"

definition is_pattern :: "resource_ref \<Rightarrow> bool" where
  "is_pattern r = has_glob (rr_identifier r)"

definition covers_path :: "resource_ref \<Rightarrow> string \<Rightarrow> bool" where
  "covers_path r path =
     (if \<not> path_kind (rr_kind r) then False
      else let target = norm_path path; pattern = rr_key r
           in if is_pattern r then fnmatchcase target pattern else target = pattern)"

definition resource_dict :: "resource_ref \<Rightarrow> json" where
  "resource_dict r = JObj
     [(''kind'', JStr (kind_value (rr_kind r))),
      (''identifier'', JStr (rr_identifier r)),
      (''signature'', jopt (rr_signature r)),
      (''region'', jopt (rr_region r)),
      (''concept_id'', jopt (rr_concept_id r)),
      (''subject_concept_id'', jopt (rr_subject_concept_id r)),
      (''metadata'', JObj (rr_metadata r))]"

lemma resource_post_init_idem:
  "resource_post_init r = Inr r' \<Longrightarrow> resource_post_init r' = Inr r'"
  by (auto simp: resource_post_init_def res_bind_eq_Inr clean_opt_idem
      dest: clean_idem [where g = "''resource identifier''"])

lemma resource_post_init_fields:
  "resource_post_init r = Inr r' \<Longrightarrow>
     rr_kind r' = rr_kind r \<and> rr_metadata r' = rr_metadata r \<and> rr_identifier r' = strip (rr_identifier r)
     \<and> rr_identifier r' \<noteq> []"
  by (auto simp: resource_post_init_def res_bind_eq_Inr clean_def Let_def split: if_splits)


section \<open>Intent operations\<close>

record intent_operation =
  op_access :: access_mode
  op_resource :: resource_ref
  op_required :: bool
  op_metadata :: metadata
  op_commitment :: scope_commitment

definition op_mutating :: "intent_operation \<Rightarrow> bool" where
  "op_mutating op = mode_mutating (op_access op)"

definition op_committed :: "intent_operation \<Rightarrow> bool" where
  "op_committed op = (op_commitment op = COMMITTED)"

definition op_contingent :: "intent_operation \<Rightarrow> bool" where
  "op_contingent op = (op_commitment op = CONTINGENT)"

definition op_dict :: "intent_operation \<Rightarrow> json" where
  "op_dict op = JObj
     ([(''access'', JStr (mode_value (op_access op))),
       (''resource'', resource_dict (op_resource op)),
       (''required'', JBool (op_required op)),
       (''metadata'', JObj (op_metadata op))]
      @ (if op_contingent op
         then [(''commitment'', JStr (commitment_value (op_commitment op)))] else []))"

lemma op_contingent_iff: "op_contingent op \<longleftrightarrow> \<not> op_committed op"
  by (cases "op_commitment op") (auto simp: op_contingent_def op_committed_def)


section \<open>Change intents\<close>

record change_intent =
  ci_intent_id :: string
  ci_task_id :: string
  ci_owner :: string
  ci_base_revision :: string
  ci_operations :: "intent_operation list"
  ci_base_commit :: "string option"
  ci_preserves :: "string list"
  ci_acceptance :: "string list"
  ci_dependencies :: "string list"
  ci_lease_seconds :: int
  ci_metadata :: metadata

definition full_object_id :: "string \<Rightarrow> bool" where
  "full_object_id s = (list_all is_hex s \<and> 40 \<le> length s \<and> length s \<le> 64)"

definition clean_base_commit :: "string option \<Rightarrow> model_error + string option" where
  "clean_base_commit v = (case v of
       None \<Rightarrow> Inr None
     | Some s \<Rightarrow> res_bind (clean ''base_commit'' s) (\<lambda>pinned.
         if full_object_id pinned then Inr (Some (lower pinned)) else Inl BadBaseCommit))"

definition intent_post_init :: "change_intent \<Rightarrow> model_error + change_intent" where
  "intent_post_init i =
     res_bind (clean ''intent_id'' (ci_intent_id i)) (\<lambda>iid.
     res_bind (clean ''task_id'' (ci_task_id i)) (\<lambda>task.
     res_bind (clean ''owner'' (ci_owner i)) (\<lambda>owner.
     res_bind (clean ''base_revision'' (ci_base_revision i)) (\<lambda>rev.
     res_bind (clean_base_commit (ci_base_commit i)) (\<lambda>commit.
     if ci_operations i = [] then Inl NoOperations else
     res_bind (res_map (clean ''preserve'') (ci_preserves i)) (\<lambda>preserves.
     res_bind (res_map (clean ''acceptance'') (ci_acceptance i)) (\<lambda>acceptance.
     res_bind (res_map (clean ''dependency'') (ci_dependencies i)) (\<lambda>deps.
     if iid \<in> set (uniq deps) then Inl SelfDependency
     else if ci_lease_seconds i \<le> 0 then Inl NonPositiveLease
     else Inr (i\<lparr>ci_intent_id := iid, ci_task_id := task, ci_owner := owner,
                ci_base_revision := rev, ci_base_commit := commit,
                ci_preserves := preserves, ci_acceptance := acceptance,
                ci_dependencies := uniq deps\<rparr>)))))))))"

definition committed_operations :: "change_intent \<Rightarrow> intent_operation list" where
  "committed_operations i = filter op_committed (ci_operations i)"

definition contingent_operations :: "change_intent \<Rightarrow> intent_operation list" where
  "contingent_operations i = filter op_contingent (ci_operations i)"

definition mutating_operations :: "change_intent \<Rightarrow> intent_operation list" where
  "mutating_operations i = filter op_mutating (committed_operations i)"

definition admission_operation :: "intent_operation \<Rightarrow> intent_operation" where
  "admission_operation op =
     (if op_committed op \<or> \<not> op_mutating op then op
      else op\<lparr>op_access := A_READ, op_required := False,
              op_metadata := jset ''contingent_projection'' (JStr (mode_value (op_access op)))
                               (op_metadata op)\<rparr>)"

definition admission_operations :: "change_intent \<Rightarrow> intent_operation list" where
  "admission_operations i = map admission_operation (ci_operations i)"

definition intent_dict :: "change_intent \<Rightarrow> json" where
  "intent_dict i = JObj
     [(''intent_id'', JStr (ci_intent_id i)),
      (''task_id'', JStr (ci_task_id i)),
      (''owner'', JStr (ci_owner i)),
      (''base_revision'', JStr (ci_base_revision i)),
      (''base_commit'', jopt (ci_base_commit i)),
      (''operations'', JList (map op_dict (ci_operations i))),
      (''preserves'', jstrs (ci_preserves i)),
      (''acceptance'', jstrs (ci_acceptance i)),
      (''dependencies'', jstrs (ci_dependencies i)),
      (''lease_seconds'', JInt (ci_lease_seconds i)),
      (''metadata'', JObj (ci_metadata i))]"

text \<open>
  \<open>_json_fingerprint\<close>: the first twenty characters of the digest of the canonical text. The
  parameter \<open>sha\<close> stands for the SHA-256 hex digest of the canonical JSON text of a value.
\<close>

definition json_fingerprint :: "(json \<Rightarrow> string) \<Rightarrow> json \<Rightarrow> string" where
  "json_fingerprint sha payload = take 20 (sha (canon payload))"

definition intent_fingerprint :: "(json \<Rightarrow> string) \<Rightarrow> change_intent \<Rightarrow> string" where
  "intent_fingerprint sha i = json_fingerprint sha (intent_dict i)"

lemma clean_base_commit_idem:
  assumes "clean_base_commit v = Inr c"
  shows "clean_base_commit c = Inr c"
proof (cases v)
  case None
  with assms show ?thesis by (simp add: clean_base_commit_def)
next
  case (Some s)
  with assms obtain p where p: "clean ''base_commit'' s = Inr p" "full_object_id p"
    and c: "c = Some (lower p)"
    by (auto simp: clean_base_commit_def res_bind_eq_Inr split: if_splits)
  from clean_Inr [OF p(1)] have "strip (lower p) = lower p" "lower p \<noteq> []"
    by (auto simp: strip_lower) (simp add: lower_def)
  moreover have "full_object_id (lower p)"
    using p(2) by (auto simp: full_object_id_def lower_def list_all_iff is_hex_def)
  ultimately show ?thesis by (simp add: c clean_base_commit_def clean_def)
qed

lemma res_map_clean_idem: "res_map (clean f) xs = Inr ys \<Longrightarrow> res_map (clean f) ys = Inr ys"
  by (rule res_map_id) (auto dest!: res_map_set dest: clean_idem)

lemma res_map_clean_uniq:
  "res_map (clean f) xs = Inr ys \<Longrightarrow> res_map (clean f) (uniq ys) = Inr (uniq ys)"
  by (rule res_map_id) (auto dest!: res_map_set dest: clean_idem)


lemma intent_post_init_ok:
  assumes "intent_post_init i = Inr i'"
  shows "clean ''intent_id'' (ci_intent_id i') = Inr (ci_intent_id i')"
    and "clean ''task_id'' (ci_task_id i') = Inr (ci_task_id i')"
    and "clean ''owner'' (ci_owner i') = Inr (ci_owner i')"
    and "clean ''base_revision'' (ci_base_revision i') = Inr (ci_base_revision i')"
    and "clean_base_commit (ci_base_commit i') = Inr (ci_base_commit i')"
    and "ci_operations i' = ci_operations i" and "ci_operations i' \<noteq> []"
    and "res_map (clean ''preserve'') (ci_preserves i') = Inr (ci_preserves i')"
    and "res_map (clean ''acceptance'') (ci_acceptance i') = Inr (ci_acceptance i')"
    and "res_map (clean ''dependency'') (ci_dependencies i') = Inr (ci_dependencies i')"
    and "distinct (ci_dependencies i')"
    and "ci_intent_id i' \<notin> set (ci_dependencies i')"
    and "0 < ci_lease_seconds i'" and "ci_lease_seconds i' = ci_lease_seconds i"
    and "ci_metadata i' = ci_metadata i"
  using assms
  by (auto simp: intent_post_init_def res_bind_eq_Inr clean_idem clean_base_commit_idem
      intro: res_map_clean_idem res_map_clean_uniq split: if_splits)

text \<open>
  A value that came out of its constructor: what every intent the engine and the registry
  handle satisfies.
\<close>

definition valid_operation :: "intent_operation \<Rightarrow> bool" where
  "valid_operation op = (resource_post_init (op_resource op) = Inr (op_resource op))"

definition valid_intent :: "change_intent \<Rightarrow> bool" where
  "valid_intent i = (intent_post_init i = Inr i \<and> list_all valid_operation (ci_operations i))"

lemma valid_intentD:
  assumes "valid_intent i"
  shows "ci_operations i \<noteq> []" "0 < ci_lease_seconds i" "distinct (ci_dependencies i)"
    "ci_intent_id i \<notin> set (ci_dependencies i)" "ci_intent_id i \<noteq> []"
    "\<And>op. op \<in> set (ci_operations i) \<Longrightarrow> valid_operation op"
  using assms intent_post_init_ok [of i i]
  by (auto simp: valid_intent_def list_all_iff clean_def Let_def split: if_splits)


section \<open>Decisions\<close>

record admission_conflict =
  ac_existing_intent_id :: string
  ac_existing_owner :: string
  ac_kind :: admission_kind
  ac_incoming_operation :: intent_operation
  ac_existing_operation :: intent_operation
  ac_reason :: string
  ac_blocking :: bool

record admission_decision =
  ad_kind :: admission_kind
  ad_intent :: change_intent
  ad_allowed :: bool
  ad_conflicts :: "admission_conflict list"
  ad_constraints :: "string list"
  ad_notifications :: "string list"
  ad_guidance :: string

record route_recommendation =
  rt_tier :: worker_tier
  rt_risk_score :: int
  rt_reasons :: "string list"
  rt_fallback_tier :: "worker_tier option"



fun admission_value :: "admission_kind \<Rightarrow> string" where
  "admission_value INDEPENDENT = ''independent''"
| "admission_value COMPATIBLE_OVERLAP = ''compatible_overlap''"
| "admission_value CONTRACT_DEPENDENCY = ''contract_dependency''"
| "admission_value PARALLEL_WITH_CONSTRAINT = ''parallel_with_constraint''"
| "admission_value REQUIRES_STUB = ''requires_stub''"
| "admission_value NOTIFY_ON_CHANGE = ''notify_on_change''"
| "admission_value SERIALIZE = ''serialize''"
| "admission_value REPLAN = ''replan''"
| "admission_value REJECT = ''reject''"

fun state_value :: "intent_state \<Rightarrow> string" where
  "state_value S_REQUESTED = ''requested''"
| "state_value S_ADMITTED = ''admitted''"
| "state_value S_BLOCKED = ''blocked''"
| "state_value S_ACTIVE = ''active''"
| "state_value S_COMPLETED = ''completed''"
| "state_value S_RELEASED = ''released''"
| "state_value S_EXPIRED = ''expired''"
| "state_value S_STALE = ''stale''"

definition conflict_dict :: "admission_conflict \<Rightarrow> json" where
  "conflict_dict c = JObj
     [(''existing_intent_id'', JStr (ac_existing_intent_id c)),
      (''existing_owner'', JStr (ac_existing_owner c)),
      (''kind'', JStr (admission_value (ac_kind c))),
      (''incoming_operation'', op_dict (ac_incoming_operation c)),
      (''existing_operation'', op_dict (ac_existing_operation c)),
      (''reason'', JStr (ac_reason c)),
      (''blocking'', JBool (ac_blocking c))]"

definition decision_dict :: "admission_decision \<Rightarrow> json" where
  "decision_dict d = JObj
     [(''kind'', JStr (admission_value (ad_kind d))),
      (''allowed'', JBool (ad_allowed d)),
      (''intent'', intent_dict (ad_intent d)),
      (''conflicts'', JList (map conflict_dict (ad_conflicts d))),
      (''constraints'', jstrs (ad_constraints d)),
      (''notifications'', jstrs (ad_notifications d)),
      (''guidance'', JStr (ad_guidance d))]"


section \<open>Construction is a normal form\<close>

text \<open>
  Constructing a change intent from an already constructed one changes nothing: the
  constructor's cleaning, lower-casing and de-duplication are idempotent, so
  \<open>dataclasses.replace\<close> and a round trip through the store keep every other field.
\<close>
theorem intent_construction_idempotent:
  assumes "intent_post_init i = Inr i'"
  shows "intent_post_init i' = Inr i'"
  using intent_post_init_ok [OF assms] by (simp add: intent_post_init_def)


definition sample_resource :: resource_ref where
  "sample_resource = \<lparr>rr_kind = K_FILE, rr_identifier = '' src/a.py '', rr_signature = None,
     rr_region = Some '' 1-2'', rr_concept_id = None, rr_subject_concept_id = None, rr_metadata = []\<rparr>"

definition sample_change :: change_intent where
  "sample_change = \<lparr>ci_intent_id = '' i1'', ci_task_id = ''t'', ci_owner = ''o '', ci_base_revision = ''r'',
     ci_operations = [\<lparr>op_access = A_WRITE, op_resource = sample_resource, op_required = True,
       op_metadata = [], op_commitment = CONTINGENT\<rparr>],
     ci_base_commit = None, ci_preserves = ['' p''], ci_acceptance = [],
     ci_dependencies = [''d'', '' d''], ci_lease_seconds = 900, ci_metadata = []\<rparr>"

theorem intent_construction_idempotent_witness:
  "\<exists>i. intent_post_init sample_change = Inr i \<and> intent_post_init i = Inr i
     \<and> ci_intent_id i = ''i1'' \<and> ci_dependencies i = [''d'']"
proof -
  have "case intent_post_init sample_change of Inl _ \<Rightarrow> False
      | Inr i \<Rightarrow> ci_intent_id i = ''i1'' \<and> ci_dependencies i = [''d'']"
    by code_simp
  then obtain i where "intent_post_init sample_change = Inr i"
    "ci_intent_id i = ''i1'' \<and> ci_dependencies i = [''d'']"
    by (auto split: sum.splits)
  with intent_construction_idempotent [OF this(1)] show ?thesis by blast
qed

end
