(* ===== verification/Codec.thy ===== *)
theory Codec
  imports Models
begin

text \<open>
  The \<open>from_dict\<close> constructors of \<open>core/models.py\<close>: how a JSON value read from the store
  or from a caller becomes a resource, an operation or an intent, with every way it can be
  refused. The round trips say that what \<open>to_dict\<close> writes reads back unchanged.
\<close>


section \<open>Reading fields\<close>

text \<open>
  \<open>UnmodelledValue\<close> stands for a dictionary built from a list of pairs, which Python's
  \<open>dict\<close> accepts and which no caller of the code passes.
\<close>

datatype codec_error =
    ModelError model_error
  | MissingFields "string list"
  | BadEnumValue string
  | WrongType string
  | NullOperations
  | NotASequence
  | UnmodelledValue

definition lift_model :: "model_error + 'a \<Rightarrow> codec_error + 'a" where
  "lift_model r = (case r of Inl e \<Rightarrow> Inl (ModelError e) | Inr a \<Rightarrow> Inr a)"

fun as_object :: "json \<Rightarrow> codec_error + metadata" where
  "as_object (JObj kvs) = Inr kvs"
| "as_object _ = Inl (WrongType ''mapping'')"

definition require_fields :: "metadata \<Rightarrow> string list \<Rightarrow> codec_error + unit" where
  "require_fields data names =
     (let missing = filter (\<lambda>f. map_of data f = None) names
      in if missing = [] then Inr () else Inl (MissingFields (sort missing)))"

text \<open>\<open>dict(data.get(key) or {})\<close>.\<close>

definition get_dict :: "metadata \<Rightarrow> string \<Rightarrow> codec_error + metadata" where
  "get_dict data key =
     (let v = jget data key
      in if \<not> truthy v then Inr []
         else case v of JObj kvs \<Rightarrow> Inr kvs | JList _ \<Rightarrow> Inl UnmodelledValue
              | _ \<Rightarrow> Inl (WrongType key))"

text \<open>\<open>str(data.get(key) or "")\<close>.\<close>

definition get_str :: "metadata \<Rightarrow> string \<Rightarrow> string" where
  "get_str data key = (let v = jget data key in if truthy v then py_str v else [])"

text \<open>A field that is passed on as it is and that the constructor needs as text or null.\<close>

definition get_text :: "metadata \<Rightarrow> string \<Rightarrow> codec_error + string option" where
  "get_text data key = (case jget data key of
       JNull \<Rightarrow> Inr None | JStr s \<Rightarrow> Inr (Some s) | _ \<Rightarrow> Inl (WrongType key))"

definition text_item :: "json \<Rightarrow> codec_error + string" where
  "text_item v = (case v of JStr s \<Rightarrow> Inr s | _ \<Rightarrow> Inl (WrongType ''string''))"

text \<open>
  \<open>tuple(data.get(key) or ())\<close>, whose items the constructor needs as text: iterating a
  string gives its characters, iterating a mapping its keys.
\<close>

definition get_texts :: "metadata \<Rightarrow> string \<Rightarrow> codec_error + string list" where
  "get_texts data key =
     (let v = jget data key
      in if \<not> truthy v then Inr []
         else case v of
             JList xs \<Rightarrow> res_map text_item xs
           | JStr s \<Rightarrow> Inr (map (\<lambda>c. [c]) s)
           | JObj kvs \<Rightarrow> Inr (map fst kvs)
           | _ \<Rightarrow> Inl (WrongType key))"

text \<open>\<open>int(value)\<close>: text is stripped, may have a sign, and may group digits with \<open>_\<close>.\<close>

definition digit_groups :: "string \<Rightarrow> bool" where
  "digit_groups s = list_all (\<lambda>g. g \<noteq> [] \<and> list_all is_digit g) (split_on (CHR ''_'') s)"

definition parse_int :: "string \<Rightarrow> int option" where
  "parse_int s =
     (let t = strip s;
          neg = starts_with t ''-'';
          u = (if neg \<or> starts_with t ''+'' then drop 1 t else t)
      in if digit_groups u
         then Some ((if neg then - 1 else 1) * int (digits_val (filter is_digit u)))
         else None)"

fun py_int :: "json \<Rightarrow> codec_error + int" where
  "py_int (JInt i) = Inr i"
| "py_int (JBool b) = Inr (if b then 1 else 0)"
| "py_int (JStr s) = (case parse_int s of Some i \<Rightarrow> Inr i | None \<Rightarrow> Inl (WrongType ''int''))"
| "py_int _ = Inl (WrongType ''int'')"

definition get_default :: "metadata \<Rightarrow> string \<Rightarrow> json \<Rightarrow> json" where
  "get_default data key d = (case map_of data key of None \<Rightarrow> d | Some v \<Rightarrow> v)"

text \<open>\<open>Enum(value)\<close>: the member with that value, or an error.\<close>

definition enum_of :: "('a \<Rightarrow> string) \<Rightarrow> 'a list \<Rightarrow> json \<Rightarrow> codec_error + 'a" where
  "enum_of f members v = (case v of
       JStr s \<Rightarrow> (case find (\<lambda>m. f m = s) members of
           Some m \<Rightarrow> Inr m | None \<Rightarrow> Inl (BadEnumValue s))
     | _ \<Rightarrow> Inl (BadEnumValue []))"

definition all_kinds :: "resource_kind list" where
  "all_kinds = [K_FILE, K_SYMBOL, K_CONCEPT, K_CONTRACT, K_DOCUMENT, K_CONFIG, K_ROUTE, K_SCHEMA]"

definition all_modes :: "access_mode list" where
  "all_modes = [A_READ, A_WRITE, A_EXTEND, A_DELETE, A_RENAME, A_DOCUMENT, A_TEST]"

definition all_commitments :: "scope_commitment list" where
  "all_commitments = [COMMITTED, CONTINGENT]"


section \<open>The constructors\<close>

definition resource_of :: "metadata \<Rightarrow> string \<Rightarrow> codec_error + resource_ref" where
  "resource_of data metadata_key =
     res_bind (require_fields data [''kind'', ''identifier'']) (\<lambda>_.
     res_bind (enum_of kind_value all_kinds (jget data ''kind'')) (\<lambda>kind.
     res_bind (get_dict data metadata_key) (\<lambda>meta.
     res_bind (get_text data ''signature'') (\<lambda>sig.
     res_bind (get_text data ''region'') (\<lambda>region.
     res_bind (get_text data ''concept_id'') (\<lambda>concept.
     res_bind (get_text data ''subject_concept_id'') (\<lambda>subject.
     lift_model (resource_post_init
       \<lparr>rr_kind = kind, rr_identifier = py_str (jget data ''identifier''), rr_signature = sig,
        rr_region = region, rr_concept_id = concept, rr_subject_concept_id = subject,
        rr_metadata = meta\<rparr>))))))))"

definition resource_from_dict :: "json \<Rightarrow> codec_error + resource_ref" where
  "resource_from_dict v = res_bind (as_object v) (\<lambda>data. resource_of data ''metadata'')"

text \<open>
  An operation names its resource under \<open>resource\<close>, or spells the resource's fields inline,
  the resource's own metadata then being \<open>resource_metadata\<close>.
\<close>

definition operation_from_dict :: "json \<Rightarrow> codec_error + intent_operation" where
  "operation_from_dict v =
     res_bind (as_object v) (\<lambda>data.
     res_bind (require_fields data [''access'']) (\<lambda>_.
     res_bind (if map_of data ''resource'' \<noteq> None then resource_from_dict (jget data ''resource'')
               else resource_of data ''resource_metadata'') (\<lambda>resource.
     res_bind (enum_of mode_value all_modes (jget data ''access'')) (\<lambda>access.
     res_bind (enum_of commitment_value all_commitments
                 (get_default data ''commitment'' (JStr ''committed''))) (\<lambda>commitment.
     res_bind (get_dict data ''metadata'') (\<lambda>meta.
     Inr \<lparr>op_access = access, op_resource = resource,
          op_required = truthy (get_default data ''required'' (JBool True)),
          op_metadata = meta, op_commitment = commitment\<rparr>))))))"

definition raw_operations :: "json \<Rightarrow> codec_error + json list" where
  "raw_operations v = (case v of
       JNull \<Rightarrow> Inl NullOperations
     | JStr _ \<Rightarrow> Inl NotASequence
     | JObj _ \<Rightarrow> Inl NotASequence
     | JList xs \<Rightarrow> Inr xs
     | _ \<Rightarrow> Inl (WrongType ''operations''))"

definition intent_from_dict :: "json \<Rightarrow> codec_error + change_intent" where
  "intent_from_dict v =
     res_bind (as_object v) (\<lambda>data.
     res_bind (require_fields data [''intent_id'', ''owner'', ''base_revision'', ''operations'']) (\<lambda>_.
     res_bind (raw_operations (jget data ''operations'')) (\<lambda>raw.
     res_bind (res_map operation_from_dict raw) (\<lambda>operations.
     res_bind (get_texts data ''preserves'') (\<lambda>preserves.
     res_bind (get_texts data ''acceptance'') (\<lambda>acceptance.
     res_bind (get_texts data ''dependencies'') (\<lambda>deps.
     res_bind (py_int (get_default data ''lease_seconds'' (JInt 900))) (\<lambda>lease.
     res_bind (get_dict data ''metadata'') (\<lambda>meta.
     lift_model (intent_post_init
       \<lparr>ci_intent_id = py_str (jget data ''intent_id''),
        ci_task_id = py_str (if truthy (jget data ''task_id'') then jget data ''task_id''
                             else jget data ''intent_id''),
        ci_owner = py_str (jget data ''owner''),
        ci_base_revision = py_str (jget data ''base_revision''),
        ci_operations = operations,
        ci_base_commit = (if truthy (jget data ''base_commit'')
                          then Some (py_str (jget data ''base_commit'')) else None),
        ci_preserves = preserves, ci_acceptance = acceptance, ci_dependencies = deps,
        ci_lease_seconds = lease, ci_metadata = meta\<rparr>))))))))))"


section \<open>Round trips\<close>

lemma lift_model_Inr [simp]: "lift_model (Inr a) = Inr a"
  by (simp add: lift_model_def)

lemma enum_of_kind [simp]: "enum_of kind_value all_kinds (JStr (kind_value k)) = Inr k"
  by (cases k) (simp_all add: enum_of_def all_kinds_def)

lemma enum_of_mode [simp]: "enum_of mode_value all_modes (JStr (mode_value m)) = Inr m"
  by (cases m) (simp_all add: enum_of_def all_modes_def)

lemma enum_of_commitment [simp]:
  "enum_of commitment_value all_commitments (JStr (commitment_value c)) = Inr c"
  by (cases c) (simp_all add: enum_of_def all_commitments_def)

lemma get_text_jopt: "jget data key = jopt v \<Longrightarrow> get_text data key = Inr v"
  by (auto simp: get_text_def jopt_def split: option.splits)

lemma get_dict_obj: "jget data key = JObj m \<Longrightarrow> get_dict data key = Inr m"
  by (auto simp: get_dict_def)

lemma get_texts_jstrs:
  assumes "jget data key = jstrs xs"
  shows "get_texts data key = Inr xs"
proof -
  have "res_map text_item (map JStr xs) = Inr xs" for xs
    by (induction xs) (auto simp: text_item_def)
  with assms show ?thesis by (auto simp: get_texts_def jstrs_def)
qed

lemma py_str_JStr [simp]: "py_str (JStr s) = s"
  by (simp add: py_str_def)

lemma resource_dict_roundtrip:
  assumes "resource_post_init r = Inr r"
  shows "resource_from_dict (resource_dict r) = Inr r"
proof -
  let ?d = "[(''kind'', JStr (kind_value (rr_kind r))), (''identifier'', JStr (rr_identifier r)),
      (''signature'', jopt (rr_signature r)), (''region'', jopt (rr_region r)),
      (''concept_id'', jopt (rr_concept_id r)),
      (''subject_concept_id'', jopt (rr_subject_concept_id r)),
      (''metadata'', JObj (rr_metadata r))]"
  have "require_fields ?d [''kind'', ''identifier''] = Inr ()"
    by (simp add: require_fields_def)
  moreover have "get_text ?d ''signature'' = Inr (rr_signature r)"
    "get_text ?d ''region'' = Inr (rr_region r)"
    "get_text ?d ''concept_id'' = Inr (rr_concept_id r)"
    "get_text ?d ''subject_concept_id'' = Inr (rr_subject_concept_id r)"
    "get_dict ?d ''metadata'' = Inr (rr_metadata r)"
    by (rule get_text_jopt get_dict_obj, simp add: jget_def)+
  moreover have "jget ?d ''kind'' = JStr (kind_value (rr_kind r))"
    "jget ?d ''identifier'' = JStr (rr_identifier r)"
    by (simp_all add: jget_def)
  ultimately show ?thesis
    using assms by (cases r) (simp add: resource_from_dict_def resource_dict_def resource_of_def)
qed

lemma operation_dict_roundtrip:
  assumes "valid_operation op"
  shows "operation_from_dict (op_dict op) = Inr op"
proof -
  obtain kvs where kvs: "op_dict op = JObj kvs" by (simp add: op_dict_def)
  have get: "jget kvs ''access'' = JStr (mode_value (op_access op))"
    "jget kvs ''resource'' = resource_dict (op_resource op)" "map_of kvs ''resource'' \<noteq> None"
    "jget kvs ''metadata'' = JObj (op_metadata op)"
    "get_default kvs ''required'' (JBool True) = JBool (op_required op)"
    "require_fields kvs [''access''] = Inr ()"
    using kvs by (auto simp: op_dict_def jget_def get_default_def require_fields_def)
  have "get_default kvs ''commitment'' (JStr ''committed'')
      = JStr (commitment_value (op_commitment op))"
    using kvs by (cases "op_commitment op")
      (auto simp: op_dict_def get_default_def op_contingent_def)
  with kvs get get_dict_obj [OF get(4)] resource_dict_roundtrip [of "op_resource op"] assms show ?thesis
    by (cases op) (simp add: operation_from_dict_def valid_operation_def)
qed

text \<open>
  C36: an intent written with \<open>to_dict\<close> and read back with \<open>from_dict\<close> is the same intent:
  all eleven fields, the operations with their resources and the materialised or defaulted
  commitment included. The registry rebuilds every intent it compares from that form.
\<close>
theorem intent_dict_roundtrip:
  assumes "valid_intent i"
  shows "intent_from_dict (intent_dict i) = Inr i"
proof -
  obtain kvs where kvs: "intent_dict i = JObj kvs" by (simp add: intent_dict_def)
  have get: "jget kvs ''intent_id'' = JStr (ci_intent_id i)"
    "jget kvs ''task_id'' = JStr (ci_task_id i)" "jget kvs ''owner'' = JStr (ci_owner i)"
    "jget kvs ''base_revision'' = JStr (ci_base_revision i)"
    "jget kvs ''base_commit'' = jopt (ci_base_commit i)"
    "jget kvs ''operations'' = JList (map op_dict (ci_operations i))"
    "jget kvs ''preserves'' = jstrs (ci_preserves i)"
    "jget kvs ''acceptance'' = jstrs (ci_acceptance i)"
    "jget kvs ''dependencies'' = jstrs (ci_dependencies i)"
    "get_default kvs ''lease_seconds'' (JInt 900) = JInt (ci_lease_seconds i)"
    "jget kvs ''metadata'' = JObj (ci_metadata i)"
    using kvs by (auto simp: intent_dict_def jget_def get_default_def)
  have req: "require_fields kvs [''intent_id'', ''owner'', ''base_revision'', ''operations''] = Inr ()"
    using kvs by (auto simp: intent_dict_def require_fields_def)
  note fields = get_texts_jstrs [OF get(7)] get_texts_jstrs [OF get(8)] get_texts_jstrs [OF get(9)]
    get_dict_obj [OF get(11)]
  from assms have init: "intent_post_init i = Inr i" by (simp add: valid_intent_def)
  note ok = intent_post_init_ok [OF init]
  have nonempty: "ci_base_commit i \<noteq> Some []" "ci_task_id i \<noteq> []"
    using ok(2,5) by (auto simp: clean_base_commit_def clean_def split: if_splits)
  have ops: "res_map operation_from_dict (map op_dict (ci_operations i)) = Inr (ci_operations i)"
    using assms operation_dict_roundtrip
    by (auto simp: res_map_Inr_iff list_all2_conv_all_nth valid_intent_def list_all_iff)
  have eta': "ci_base_commit i = v \<Longrightarrow> \<lparr>ci_intent_id = ci_intent_id i, ci_task_id = ci_task_id i,
      ci_owner = ci_owner i,
      ci_base_revision = ci_base_revision i, ci_operations = ci_operations i,
      ci_base_commit = v, ci_preserves = ci_preserves i,
      ci_acceptance = ci_acceptance i, ci_dependencies = ci_dependencies i,
      ci_lease_seconds = ci_lease_seconds i, ci_metadata = ci_metadata i\<rparr> = i" for v
    by (cases i) simp
  show ?thesis
    using nonempty
    by (cases "ci_base_commit i")
      (simp_all add: intent_from_dict_def kvs req get fields ops raw_operations_def jopt_def eta' init)
qed


text \<open>The intent the model of the constructors makes of \<open>sample_change\<close>.\<close>

definition sample_built :: change_intent where
  "sample_built = (case intent_post_init (sample_change
       \<lparr>ci_operations := [\<lparr>op_access = A_WRITE,
          op_resource = (case resource_post_init sample_resource of Inr r \<Rightarrow> r | Inl _ \<Rightarrow> sample_resource),
          op_required = True, op_metadata = [], op_commitment = CONTINGENT\<rparr>]\<rparr>) of
     Inr i \<Rightarrow> i | Inl _ \<Rightarrow> sample_change)"

theorem intent_dict_roundtrip_witness:
  "valid_intent sample_built \<and> intent_from_dict (intent_dict sample_built) = Inr sample_built"
proof -
  have "valid_intent sample_built" by code_simp
  with intent_dict_roundtrip [OF this] show ?thesis by blast
qed

end
