(* ===== verification/AdmissionEngine.thy ===== *)
theory AdmissionEngine
  imports Models "HOL-Library.AList"
begin

text \<open>
  The pre-write admission engine of \<open>coordination/admission.py\<close>: the overlap test on two
  operations, the assessment of an overlapping pair, and \<open>evaluate\<close>, which folds the
  assessments of an incoming intent against the active ones into a decision. The texts of the
  engine's messages are definitions of their own because constraints and notifications are
  de-duplicated by their text.
\<close>


section \<open>Line regions and path patterns\<close>

definition parse_line_region :: "string \<Rightarrow> (nat \<times> nat) option" where
  "parse_line_region v = (case search_interval v of
       None \<Rightarrow> None | Some (a, b) \<Rightarrow> Some (min a b, max a b))"

text \<open>\<open>_regions_overlap\<close>: \<open>None\<close> when a region is missing, empty or not a line interval.\<close>

definition regions_overlap :: "string option \<Rightarrow> string option \<Rightarrow> bool option" where
  "regions_overlap a b =
     (if a = None \<or> a = Some [] \<or> b = None \<or> b = Some [] then None
      else case (parse_line_region (the a), parse_line_region (the b)) of
          (Some (a_start, a_end), Some (b_start, b_end)) \<Rightarrow>
            Some (\<not> (a_end < b_start \<or> b_end < a_start))
        | _ \<Rightarrow> None)"

datatype overlap_class = OV_none | OV_same | OV_disjoint | OV_scope_exact | OV_scope

text \<open>\<open>value.replace("\\", "/").lstrip("./").rstrip("/")\<close>.\<close>

definition path_text :: "string \<Rightarrow> string" where
  "path_text v = rstrip_slash (lstrip_by (\<lambda>c. c = CHR ''.'' \<or> c = CHR ''/'') (slashes v))"

definition path_overlap ::
  "string \<Rightarrow> string \<Rightarrow> string option \<Rightarrow> string option \<Rightarrow> overlap_class" where
  "path_overlap ra rb a_region b_region =
     (let a = path_text ra; b = path_text rb; a_pattern = has_glob a; b_pattern = has_glob b
      in if \<not> a_pattern \<and> \<not> b_pattern then
           (if a \<noteq> b then OV_none
            else if regions_overlap a_region b_region = Some False then OV_disjoint
            else OV_same)
         else if a_pattern \<and> \<not> b_pattern then
           (if fnmatchcase b a then OV_scope_exact else OV_none)
         else if b_pattern \<and> \<not> a_pattern then
           (if fnmatchcase a b then OV_scope_exact else OV_none)
         else let a_prefix = glob_prefix a; b_prefix = glob_prefix b
              in if a_prefix \<noteq> [] \<and> b_prefix \<noteq> []
                    \<and> \<not> (starts_with a_prefix b_prefix \<or> starts_with b_prefix a_prefix)
                 then OV_none else OV_scope)"


section \<open>Resource overlap\<close>

definition same_contract :: "intent_operation \<Rightarrow> intent_operation \<Rightarrow> bool" where
  "same_contract a b =
     (let ar = op_resource a; br = op_resource b
      in rr_kind ar = K_CONTRACT \<and> rr_kind br = K_CONTRACT
         \<and> semantic_key ar = semantic_key br
         \<and> subject_key ar \<noteq> None \<and> subject_key ar = subject_key br)"

definition semantic_kind :: "resource_kind \<Rightarrow> bool" where
  "semantic_kind k = (k \<in> {K_SYMBOL, K_CONCEPT, K_CONFIG, K_ROUTE, K_SCHEMA})"

definition resource_overlap :: "intent_operation \<Rightarrow> intent_operation \<Rightarrow> overlap_class" where
  "resource_overlap a b =
     (let ar = op_resource a; br = op_resource b
      in if path_kind (rr_kind ar) \<and> path_kind (rr_kind br)
         then path_overlap (rr_identifier ar) (rr_identifier br) (rr_region ar) (rr_region br)
         else if rr_kind ar = K_CONTRACT \<and> rr_kind br = K_CONTRACT
         then (if same_contract a b then OV_same else OV_none)
         else if semantic_kind (rr_kind ar) \<and> semantic_kind (rr_kind br)
         then (if semantic_key ar = semantic_key br then OV_same else OV_none)
         else OV_none)"

text \<open>
  \<open>_contract_entries\<close>: the signature declared for each contract bound to a concept, a later
  operation overwriting an earlier one.
\<close>

definition contract_entries :: "change_intent \<Rightarrow> string \<Rightarrow> (string \<times> string) list" where
  "contract_entries i concept_key =
     foldl (\<lambda>entries op.
         let r = op_resource op
         in if rr_kind r \<noteq> K_CONTRACT \<or> rr_signature r = None \<or> rr_signature r = Some []
            then entries
            else if subject_key r \<noteq> Some concept_key then entries
            else AList.update (semantic_key r) (the (rr_signature r)) entries)
       [] (admission_operations i)"

definition shared_contract_signature ::
  "change_intent \<Rightarrow> change_intent \<Rightarrow> string \<Rightarrow> string option" where
  "shared_contract_signature a b concept_key =
     (let ea = contract_entries a concept_key; eb = contract_entries b concept_key;
          common = sorted_set (filter (\<lambda>k. k \<in> set (map fst eb)) (map fst ea))
      in case find (\<lambda>k. map_of ea k = map_of eb k) common of
           None \<Rightarrow> None | Some k \<Rightarrow> map_of ea k)"


section \<open>Messages\<close>

definition tick :: "string \<Rightarrow> string" where
  "tick s = ''`'' @ s @ ''`''"

definition msg_bases :: "string \<Rightarrow> string \<Rightarrow> string" where
  "msg_bases a b = ''Overlapping intents use different base commits/revisions: '' @ a
     @ '' vs '' @ b @ ''.''"

definition msg_rebase :: string where
  "msg_rebase = ''Rebase both intents onto one common revision before parallel execution.''"

definition msg_destructive :: "string \<Rightarrow> string \<Rightarrow> string \<Rightarrow> string" where
  "msg_destructive other a b =
     ''Destructive operation overlaps '' @ other @ '': '' @ a @ '' / '' @ b @ ''.''"

definition msg_readmit :: string where
  "msg_readmit = ''A rename/delete invalidates dependents and requires re-admission.''"

definition msg_notify_destructive :: "string \<Rightarrow> string \<Rightarrow> string" where
  "msg_notify_destructive owner b =
     ''Notify '' @ owner @ '': destructive change targets '' @ b @ ''.''"

definition msg_reads :: "string \<Rightarrow> string \<Rightarrow> string" where
  "msg_reads reader writer = reader @ '' reads a resource mutated by '' @ writer @ ''.''"

definition msg_premise :: "string \<Rightarrow> string \<Rightarrow> string \<Rightarrow> string" where
  "msg_premise writer reader key =
     ''Record '' @ writer @ '' as a premise of '' @ reader @ '' for '' @ key @ ''.''"

definition msg_invalidate :: "string \<Rightarrow> string \<Rightarrow> string" where
  "msg_invalidate reader key = ''Invalidate '' @ reader @ '' if '' @ key @ '' changes.''"

definition msg_doc_shared :: "string \<Rightarrow> string" where
  "msg_doc_shared sig = ''Documentation/test work and implementation share concept-bound contract ''
     @ tick sig @ ''.''"

definition msg_outputs_preserve :: "string \<Rightarrow> string" where
  "msg_outputs_preserve sig = ''All outputs must preserve '' @ tick sig @ ''.''"

definition msg_notify_owners :: "string \<Rightarrow> string" where
  "msg_notify_owners sig = ''Notify both owners if '' @ tick sig @ '' changes.''"

definition msg_doc_unbound :: "string \<Rightarrow> string" where
  "msg_doc_unbound r = ''Documentation/test overlap for '' @ r @ '' has no concept-bound contract.''"

definition msg_bind_contract :: string where
  "msg_bind_contract = ''Bind a contract to the shared concept before parallel execution.''"

definition msg_concept_shared :: "string \<Rightarrow> string" where
  "msg_concept_shared sig = ''Both intents mutate one concept under concept-bound contract ''
     @ tick sig @ ''.''"

definition msg_workers_preserve :: "string \<Rightarrow> string" where
  "msg_workers_preserve sig = ''Both workers must preserve '' @ tick sig @ ''.''"

definition msg_invalidate_workers :: "string \<Rightarrow> string" where
  "msg_invalidate_workers sig = ''Invalidate both workers if '' @ tick sig @ '' changes.''"

definition msg_concept_unbound :: "string \<Rightarrow> string" where
  "msg_concept_unbound r = ''Both intents mutate concept '' @ r
     @ '' without a shared concept-bound contract.''"

definition msg_stub :: string where
  "msg_stub = ''Publish a contract stub bound to this concept or split the write surfaces.''"

definition msg_concurrent :: "string \<Rightarrow> string" where
  "msg_concurrent r = ''Concurrent writes overlap resource '' @ r @ ''.''"

definition msg_one_writer :: string where
  "msg_one_writer = ''Assign one writer or define provably disjoint bounded regions.''"

definition msg_unbound_contracts :: "string \<Rightarrow> string \<Rightarrow> string" where
  "msg_unbound_contracts a b =
     ''Contract declarations overlap semantically but are not bound to the same subject: ''
     @ a @ '' / '' @ b @ ''.''"

definition msg_set_subject :: string where
  "msg_set_subject = ''Set subject_concept_id on both contract declarations.''"

definition msg_versions :: "string \<Rightarrow> string \<Rightarrow> string \<Rightarrow> string" where
  "msg_versions r a b = ''Consumer and producer declare different contract versions for '' @ r
     @ '': '' @ tick a @ '' vs '' @ tick b @ ''.''"

definition msg_refresh_consumer :: string where
  "msg_refresh_consumer =
     ''Refresh the consumer premise or amend the producer with dependent invalidation.''"

definition msg_consumed_changed :: "string \<Rightarrow> string \<Rightarrow> string" where
  "msg_consumed_changed producer consumer =
     producer @ '' changes a consumed contract; '' @ consumer @ '' must become stale.''"

definition msg_consumes :: "string \<Rightarrow> string \<Rightarrow> string" where
  "msg_consumes consumer producer =
     consumer @ '' consumes contract produced or changed by '' @ producer @ ''.''"

definition msg_compile_against :: "string \<Rightarrow> string" where
  "msg_compile_against sig = ''Consumer must compile/test against '' @ tick sig @ ''.''"

definition msg_mismatch :: "string \<Rightarrow> string \<Rightarrow> string \<Rightarrow> string" where
  "msg_mismatch r a b = ''Contract mismatch for '' @ r @ '': '' @ tick a @ '' vs '' @ tick b @ ''.''"

definition msg_negotiate :: string where
  "msg_negotiate = ''Negotiate one signature before workers continue.''"

definition msg_matching :: "string \<Rightarrow> string" where
  "msg_matching sig = ''Both intents use matching concept-bound contract '' @ tick sig @ ''.''"

definition msg_no_change :: "string \<Rightarrow> string" where
  "msg_no_change sig =
     ''Neither worker may change '' @ tick sig @ '' without amendment and re-admission.''"

definition msg_broadcast :: "string \<Rightarrow> string \<Rightarrow> string" where
  "msg_broadcast a b = ''Contract updates must be broadcast to '' @ a @ '' and '' @ b @ ''.''"

definition msg_no_signature :: "string \<Rightarrow> string" where
  "msg_no_signature r = ''Concurrent contract work for '' @ r @ '' has no published signature.''"

definition msg_publish :: string where
  "msg_publish = ''Publish a signature/stub before admitting dependent workers.''"

definition msg_disjoint :: "string \<Rightarrow> string" where
  "msg_disjoint r = ''Both intents touch '' @ r @ '' in disjoint line regions.''"

definition opt_text :: "string option \<Rightarrow> string" where
  "opt_text v = (case v of None \<Rightarrow> ''None'' | Some s \<Rightarrow> s)"

definition msg_stay :: "string \<Rightarrow> string option \<Rightarrow> string \<Rightarrow> string option \<Rightarrow> string" where
  "msg_stay a ra b rb = a @ '' stays in '' @ opt_text ra @ ''; '' @ b @ '' stays in ''
     @ opt_text rb @ ''; Git hunks are verified.''"

definition msg_scopes :: "string \<Rightarrow> string \<Rightarrow> string" where
  "msg_scopes a b = ''Write scopes overlap and include at least one common path: '' @ a
     @ '' / '' @ b @ ''.''"

definition msg_narrow :: string where
  "msg_narrow = ''Narrow both intents to disjoint concrete files before parallel execution.''"

definition msg_two_writers :: "string \<Rightarrow> string" where
  "msg_two_writers r = ''Two writers target the same file/region: '' @ r @ ''.''"

definition msg_split :: string where
  "msg_split = ''Split into verified disjoint regions or assign one writer plus reviewer.''"


section \<open>Assessing a pair of operations\<close>

record pair_assessment =
  pa_kind :: admission_kind
  pa_reason :: string
  pa_blocking :: bool
  pa_constraint :: "string option"
  pa_notification :: "string option"

definition assess :: "admission_kind \<Rightarrow> string \<Rightarrow> bool \<Rightarrow> string \<Rightarrow> string option \<Rightarrow> pair_assessment" where
  "assess k reason blocking c n =
     \<lparr>pa_kind = k, pa_reason = reason, pa_blocking = blocking, pa_constraint = Some c,
      pa_notification = n\<rparr>"

definition has_sig :: "string option \<Rightarrow> bool" where
  "has_sig s = (s \<noteq> None \<and> s \<noteq> Some [])"

definition sigs_differ :: "string option \<Rightarrow> string option \<Rightarrow> bool" where
  "sigs_differ a b = (has_sig a \<and> has_sig b \<and> a \<noteq> b)"

definition assess_contract ::
  "change_intent \<Rightarrow> intent_operation \<Rightarrow> change_intent \<Rightarrow> intent_operation \<Rightarrow> pair_assessment" where
  "assess_contract inc_i inc ex_i ex =
     (let ir = op_resource inc; er = op_resource ex;
          isig = rr_signature ir; esig = rr_signature er
      in if \<not> same_contract inc ex then
           assess REQUIRES_STUB (msg_unbound_contracts (rr_identifier ir) (rr_identifier er)) True
             msg_set_subject None
         else if op_access inc = A_READ \<or> op_access ex = A_READ then
           (let producer = (if op_access inc = A_READ then ex_i else inc_i);
                consumer = (if op_access inc = A_READ then inc_i else ex_i);
                signature = str_or isig (str_or esig (rr_identifier ir));
                mismatch = sigs_differ isig esig;
                amendment = (op_mutating inc \<and> jget (ci_metadata inc_i) ''_amendment'' = JBool True
                             \<and> op_access ex = A_READ)
            in if mismatch \<and> \<not> amendment then
                 assess REPLAN (msg_versions (rr_identifier ir) (the isig) (the esig)) True
                   msg_refresh_consumer None
               else assess CONTRACT_DEPENDENCY
                   (if mismatch then msg_consumed_changed (ci_intent_id producer) (ci_intent_id consumer)
                    else msg_consumes (ci_intent_id consumer) (ci_intent_id producer))
                   False (msg_compile_against signature)
                   (Some (msg_invalidate (ci_intent_id consumer) (tick signature))))
         else if sigs_differ isig esig then
           assess REPLAN (msg_mismatch (rr_identifier ir) (the isig) (the esig)) True
             msg_negotiate None
         else if has_sig isig \<and> has_sig esig then
           assess PARALLEL_WITH_CONSTRAINT (msg_matching (the isig)) False
             (msg_no_change (the isig)) (Some (msg_broadcast (ci_owner inc_i) (ci_owner ex_i)))
         else assess REQUIRES_STUB (msg_no_signature (rr_identifier ir)) True msg_publish None)"

definition assess_path ::
  "change_intent \<Rightarrow> intent_operation \<Rightarrow> change_intent \<Rightarrow> intent_operation \<Rightarrow> overlap_class
   \<Rightarrow> pair_assessment" where
  "assess_path inc_i inc ex_i ex ov =
     (let ir = op_resource inc; er = op_resource ex
      in if ov = OV_disjoint then
           assess PARALLEL_WITH_CONSTRAINT (msg_disjoint (rr_identifier ir)) False
             (msg_stay (ci_intent_id inc_i) (rr_region ir) (ci_intent_id ex_i) (rr_region er)) None
         else if ov = OV_scope_exact \<or> ov = OV_scope then
           assess SERIALIZE (msg_scopes (rr_identifier ir) (rr_identifier er)) True msg_narrow None
         else assess SERIALIZE (msg_two_writers (rr_identifier ir)) True msg_split None)"

definition intent_base :: "change_intent \<Rightarrow> string" where
  "intent_base i = str_or (ci_base_commit i) (ci_base_revision i)"

definition doc_or_test :: "access_mode \<Rightarrow> bool" where
  "doc_or_test m = (m = A_DOCUMENT \<or> m = A_TEST)"

definition assess_pair ::
  "change_intent \<Rightarrow> intent_operation \<Rightarrow> change_intent \<Rightarrow> intent_operation
   \<Rightarrow> pair_assessment option" where
  "assess_pair inc_i inc ex_i ex =
     (let overlap = resource_overlap inc ex; ir = op_resource inc; er = op_resource ex;
          shared = shared_contract_signature inc_i ex_i (semantic_key ir)
      in if overlap = OV_none then None
         else if op_access inc = A_READ \<and> op_access ex = A_READ then None
         else if intent_base inc_i \<noteq> intent_base ex_i \<and> (op_mutating inc \<or> op_mutating ex) then
           Some (assess REPLAN (msg_bases (intent_base inc_i) (intent_base ex_i)) True msg_rebase None)
         else if mode_destructive (op_access inc) \<or> mode_destructive (op_access ex) then
           Some (assess REPLAN
             (msg_destructive (ci_intent_id ex_i) (rr_identifier ir) (rr_identifier er)) True
             msg_readmit (Some (msg_notify_destructive (ci_owner ex_i) (rr_identifier er))))
         else if rr_kind ir = K_CONTRACT \<or> rr_kind er = K_CONTRACT then
           Some (assess_contract inc_i inc ex_i ex)
         else if op_access inc = A_READ \<or> op_access ex = A_READ then
           (let reader = ci_intent_id (if op_access inc = A_READ then inc_i else ex_i);
                writer = ci_intent_id (if op_access inc = A_READ then ex_i else inc_i);
                key = (if semantic_key ir = [] then semantic_key er else semantic_key ir)
            in Some (assess NOTIFY_ON_CHANGE (msg_reads reader writer) False
                 (msg_premise writer reader key) (Some (msg_invalidate reader key))))
         else if path_kind (rr_kind ir) \<or> path_kind (rr_kind er) then
           Some (assess_path inc_i inc ex_i ex overlap)
         else if doc_or_test (op_access inc) \<or> doc_or_test (op_access ex) then
           Some (if has_sig shared then
               assess COMPATIBLE_OVERLAP (msg_doc_shared (the shared)) False
                 (msg_outputs_preserve (the shared)) (Some (msg_notify_owners (the shared)))
             else assess REQUIRES_STUB (msg_doc_unbound (rr_identifier ir)) True msg_bind_contract None)
         else if rr_kind ir = K_CONCEPT \<or> rr_kind er = K_CONCEPT then
           Some (if has_sig shared then
               assess COMPATIBLE_OVERLAP (msg_concept_shared (the shared)) False
                 (msg_workers_preserve (the shared)) (Some (msg_invalidate_workers (the shared)))
             else assess REQUIRES_STUB (msg_concept_unbound (rr_identifier ir)) True msg_stub None)
         else Some (assess SERIALIZE (msg_concurrent (rr_identifier ir)) True msg_one_writer None))"


section \<open>The decision\<close>

text \<open>\<open>AttributeError\<close>: a truthy \<open>semantic_resolution\<close> that is not a mapping has no \<open>get\<close>.\<close>

datatype eval_error = AttributeError

definition msg_declare_deps :: string where
  "msg_declare_deps = ''Declare dependencies only after their intents exist.''"

definition msg_missing :: "string list \<Rightarrow> string" where
  "msg_missing ids = ''Missing dependency intents: '' @ join '', '' ids"

definition msg_resolve_terms :: string where
  "msg_resolve_terms = ''Resolve ambiguous terminology before mutating shared state.''"

definition msg_ambiguous :: "string list \<Rightarrow> string" where
  "msg_ambiguous ids = ''Ambiguous semantic identity: '' @ join '', '' ids"

definition msg_restore_layer :: string where
  "msg_restore_layer = ''Restore the required semantic identity layer.''"

definition msg_lexicon :: string where
  "msg_lexicon = ''Semantic mode was requested but Agent Lexicon is unavailable.''"

definition msg_deprecated :: "string list \<Rightarrow> string" where
  "msg_deprecated ids = ''Replace deprecated surfaces with canonical terms: '' @ join '', '' ids"

definition msg_parallel :: "string \<Rightarrow> nat \<Rightarrow> string" where
  "msg_parallel iid n = ''Intent '' @ iid @ '' may run in parallel under '' @ nat_str n
     @ '' verified constraint(s).''"

definition msg_independent :: "string \<Rightarrow> string" where
  "msg_independent iid = ''Intent '' @ iid @ '' is independent of active work.''"

definition msg_not_admitted :: "string \<Rightarrow> string list \<Rightarrow> string" where
  "msg_not_admitted iid ids = ''Intent '' @ iid
     @ '' is not admitted. Replan or serialize against: '' @ join '', '' ids"

definition reject_decision :: "change_intent \<Rightarrow> string \<Rightarrow> string \<Rightarrow> admission_decision" where
  "reject_decision i c g =
     \<lparr>ad_kind = REJECT, ad_intent = i, ad_allowed = False, ad_conflicts = [],
      ad_constraints = [c], ad_notifications = [], ad_guidance = g\<rparr>"

definition missing_dependencies :: "change_intent \<Rightarrow> change_intent list \<Rightarrow> string list \<Rightarrow> string list" where
  "missing_dependencies inc active known =
     sorted_set (filter (\<lambda>d. d \<notin> set known \<union> set (map ci_intent_id active)) (ci_dependencies inc))"

definition ambiguous_surfaces :: "change_intent \<Rightarrow> string list" where
  "ambiguous_surfaces inc =
     map (rr_identifier \<circ> op_resource)
       (filter (\<lambda>op. op_mutating op
            \<and> jget (rr_metadata (op_resource op)) ''semantic_status'' = JStr ''ambiguous'')
          (admission_operations inc))"

definition deprecated_surfaces :: "change_intent \<Rightarrow> string list" where
  "deprecated_surfaces inc =
     map (rr_identifier \<circ> op_resource)
       (filter (\<lambda>op. op_mutating op \<and> truthy (jget (rr_metadata (op_resource op)) ''deprecated''))
          (admission_operations inc))"

text \<open>The \<open>semantic_resolution\<close> mapping, \<open>{}\<close> when it is absent or falsy.\<close>

definition semantic_resolution :: "change_intent \<Rightarrow> eval_error + metadata" where
  "semantic_resolution inc =
     (let v = jget (ci_metadata inc) ''semantic_resolution''
      in if \<not> truthy v then Inr []
         else case v of JObj m \<Rightarrow> Inr m | _ \<Rightarrow> Inl AttributeError)"

definition semantic_unavailable :: "metadata \<Rightarrow> bool" where
  "semantic_unavailable m = (truthy (jget m ''required'') \<and> \<not> truthy (jget m ''enabled''))"

text \<open>One conflict with the assessment it came from, in the order the three loops find it.\<close>

definition conflict_of ::
  "change_intent \<Rightarrow> intent_operation \<Rightarrow> intent_operation \<Rightarrow> pair_assessment \<Rightarrow> admission_conflict" where
  "conflict_of ex inc_op ex_op pa =
     \<lparr>ac_existing_intent_id = ci_intent_id ex, ac_existing_owner = ci_owner ex,
      ac_kind = pa_kind pa, ac_incoming_operation = inc_op, ac_existing_operation = ex_op,
      ac_reason = pa_reason pa, ac_blocking = pa_blocking pa\<rparr>"

definition pair_findings ::
  "change_intent \<Rightarrow> change_intent \<Rightarrow> (admission_conflict \<times> pair_assessment) list" where
  "pair_findings inc ex =
     concat (map (\<lambda>inc_op. concat (map (\<lambda>ex_op.
         (case assess_pair inc inc_op ex ex_op of
            None \<Rightarrow> [] | Some pa \<Rightarrow> [(conflict_of ex inc_op ex_op pa, pa)]))
       (admission_operations ex))) (admission_operations inc))"

definition all_findings ::
  "change_intent \<Rightarrow> change_intent list \<Rightarrow> (admission_conflict \<times> pair_assessment) list" where
  "all_findings inc active =
     concat (map (\<lambda>ex. if ci_intent_id ex = ci_intent_id inc then [] else pair_findings inc ex) active)"

definition texts :: "string option list \<Rightarrow> string list" where
  "texts vs = concat (map (\<lambda>v. case v of None \<Rightarrow> [] | Some s \<Rightarrow> if s = [] then [] else [s]) vs)"

definition blocking_ids :: "admission_conflict list \<Rightarrow> string list" where
  "blocking_ids cs = sorted_set (map ac_existing_intent_id (filter ac_blocking cs))"

definition evaluate ::
  "change_intent \<Rightarrow> change_intent list \<Rightarrow> string list \<Rightarrow> eval_error + admission_decision" where
  "evaluate inc active known =
     (let missing = missing_dependencies inc active known; ambiguous = ambiguous_surfaces inc
      in if missing \<noteq> [] then
           Inr (reject_decision inc msg_declare_deps (msg_missing missing))
         else if ambiguous \<noteq> [] then
           Inr (reject_decision inc msg_resolve_terms (msg_ambiguous (sorted_set ambiguous)))
         else res_bind (semantic_resolution inc) (\<lambda>sem.
           if semantic_unavailable sem then
             Inr (reject_decision inc msg_restore_layer msg_lexicon)
           else
             let deprecated = deprecated_surfaces inc;
                 findings = all_findings inc active;
                 conflicts = map fst findings;
                 constraints =
                   (if deprecated = [] then [] else [msg_deprecated (sorted_set deprecated)])
                   @ texts (map (pa_constraint \<circ> snd) findings);
                 notifications = texts (map (pa_notification \<circ> snd) findings);
                 allowed = (\<not> list_ex ac_blocking conflicts);
                 kind = highest_admission_kind (map ac_kind conflicts);
                 iid = ci_intent_id inc
             in Inr \<lparr>ad_kind = kind, ad_intent = inc, ad_allowed = allowed,
                     ad_conflicts = conflicts, ad_constraints = uniq constraints,
                     ad_notifications = uniq notifications,
                     ad_guidance =
                       (if allowed \<and> conflicts \<noteq> [] then
                          msg_parallel iid (length (uniq constraints))
                        else if allowed then msg_independent iid
                        else msg_not_admitted iid (blocking_ids conflicts))\<rparr>))"

end
