(* ===== verification/AdmissionLaws.thy ===== *)
theory AdmissionLaws
  imports AdmissionEngine
begin

text \<open>
  What the admission engine guarantees: when \<open>evaluate\<close> allows an intent, that its kind and
  its verdict agree, that admitted writers of one path are in disjoint line regions, and that
  the verdict on a pair does not depend on which side came first.
\<close>


section \<open>The verdict\<close>

text \<open>The gate \<open>evaluate\<close> passes before it looks at pairs of operations.\<close>

definition gate_open :: "change_intent \<Rightarrow> change_intent list \<Rightarrow> string list \<Rightarrow> bool" where
  "gate_open inc active known =
     (missing_dependencies inc active known = [] \<and> ambiguous_surfaces inc = []
      \<and> (case semantic_resolution inc of Inl _ \<Rightarrow> False | Inr m \<Rightarrow> \<not> semantic_unavailable m))"

definition pair_blocks ::
  "change_intent \<Rightarrow> intent_operation \<Rightarrow> change_intent \<Rightarrow> intent_operation \<Rightarrow> bool" where
  "pair_blocks inc a ex b =
     (case assess_pair inc a ex b of None \<Rightarrow> False | Some pa \<Rightarrow> pa_blocking pa)"

lemma in_pair_findings:
  "(c, pa) \<in> set (pair_findings inc ex) \<longleftrightarrow>
     (\<exists>a \<in> set (admission_operations inc). \<exists>b \<in> set (admission_operations ex).
        assess_pair inc a ex b = Some pa \<and> c = conflict_of ex a b pa)"
  by (auto simp: pair_findings_def split: option.splits) (metis, metis)

lemma in_all_findings:
  "(c, pa) \<in> set (all_findings inc active) \<longleftrightarrow>
     (\<exists>ex \<in> set active. ci_intent_id ex \<noteq> ci_intent_id inc \<and> (c, pa) \<in> set (pair_findings inc ex))"
  by (auto simp: all_findings_def)

lemma finding_fields:
  "(c, pa) \<in> set (all_findings inc active) \<Longrightarrow> ac_kind c = pa_kind pa \<and> ac_blocking c = pa_blocking pa"
  by (auto simp: in_all_findings in_pair_findings conflict_of_def)

lemma evaluate_open:
  assumes "gate_open inc active known"
  shows "\<exists>d. evaluate inc active known = Inr d
    \<and> ad_conflicts d = map fst (all_findings inc active)
    \<and> ad_allowed d = (\<not> list_ex ac_blocking (map fst (all_findings inc active)))
    \<and> ad_kind d = highest_admission_kind (map ac_kind (map fst (all_findings inc active)))
    \<and> ad_intent d = inc"
  using assms by (auto simp: gate_open_def evaluate_def Let_def split: sum.splits)

lemma evaluate_closed:
  assumes "\<not> gate_open inc active known" and "evaluate inc active known = Inr d"
  shows "\<not> ad_allowed d \<and> ad_kind d = REJECT \<and> ad_conflicts d = [] \<and> ad_intent d = inc"
  using assms
  by (auto simp: gate_open_def evaluate_def reject_decision_def Let_def res_bind_eq_Inr
      split: sum.splits if_splits)

lemma evaluate_cases [consumes 1, case_names opened closed]:
  assumes "evaluate inc active known = Inr d"
  obtains "gate_open inc active known" "ad_conflicts d = map fst (all_findings inc active)"
      "ad_allowed d = (\<not> list_ex ac_blocking (map fst (all_findings inc active)))"
      "ad_kind d = highest_admission_kind (map ac_kind (map fst (all_findings inc active)))"
      "ad_intent d = inc"
    | "\<not> gate_open inc active known" "\<not> ad_allowed d" "ad_kind d = REJECT" "ad_conflicts d = []"
      "ad_intent d = inc"
proof (cases "gate_open inc active known")
  case True
  from evaluate_open [OF this] assms show ?thesis
    by (elim exE conjE) (simp only: sum.inject(2), rule that(1) [OF True], simp_all)
next
  case False
  from evaluate_closed [OF this assms] show ?thesis
    by (elim conjE) (rule that(2) [OF False])
qed

lemma finding_blocks_iff:
  "list_ex ac_blocking (map fst (all_findings inc active)) \<longleftrightarrow>
     (\<exists>ex \<in> set active. ci_intent_id ex \<noteq> ci_intent_id inc
        \<and> (\<exists>a \<in> set (admission_operations inc). \<exists>b \<in> set (admission_operations ex).
             pair_blocks inc a ex b))" (is "?l \<longleftrightarrow> ?r")
proof
  assume ?l
  then obtain c pa where "(c, pa) \<in> set (all_findings inc active)" "ac_blocking c"
    by (auto simp: list_ex_iff)
  then obtain ex a b where "ex \<in> set active" "ci_intent_id ex \<noteq> ci_intent_id inc"
    "a \<in> set (admission_operations inc)" "b \<in> set (admission_operations ex)"
    "assess_pair inc a ex b = Some pa" "pa_blocking pa"
    by (auto simp: in_all_findings in_pair_findings conflict_of_def)
  moreover from this have "pair_blocks inc a ex b" by (simp add: pair_blocks_def)
  ultimately show ?r by blast
next
  assume ?r
  then obtain ex a b pa where "ex \<in> set active" "ci_intent_id ex \<noteq> ci_intent_id inc"
    "a \<in> set (admission_operations inc)" "b \<in> set (admission_operations ex)"
    "assess_pair inc a ex b = Some pa" "pa_blocking pa"
    by (auto simp: pair_blocks_def split: option.splits)
  then have "(conflict_of ex a b pa, pa) \<in> set (all_findings inc active)"
    "ac_blocking (conflict_of ex a b pa)"
    by (auto simp: in_all_findings in_pair_findings conflict_of_def)
  then show ?l by (force simp: list_ex_iff)
qed

text \<open>
  \<open>evaluate\<close> raises exactly when it reaches a malformed \<open>semantic_resolution\<close>; otherwise it
  allows the intent exactly when no declared dependency is unknown, no mutated surface is
  ambiguous, the required semantic layer is there, and no operation of it blocks against an
  operation of an active intent with another id.
\<close>
theorem evaluate_verdict:
  "case evaluate inc active known of
     Inl e \<Rightarrow> missing_dependencies inc active known = [] \<and> ambiguous_surfaces inc = []
        \<and> semantic_resolution inc = Inl e
   | Inr d \<Rightarrow> ad_intent d = inc
        \<and> (ad_allowed d \<longleftrightarrow> gate_open inc active known
             \<and> \<not> (\<exists>ex \<in> set active. ci_intent_id ex \<noteq> ci_intent_id inc
                    \<and> (\<exists>a \<in> set (admission_operations inc). \<exists>b \<in> set (admission_operations ex).
                         pair_blocks inc a ex b)))"
proof (cases "evaluate inc active known")
  case (Inl e)
  then show ?thesis
    by (auto simp: evaluate_def Let_def res_bind_eq_Inl split: if_splits)
next
  case (Inr d)
  from Inr show ?thesis
    by (cases rule: evaluate_cases) (simp_all add: Inr finding_blocks_iff)
qed


section \<open>Kind and verdict agree\<close>

lemma assess_contract_rank:
  "pa_blocking (assess_contract i a j b) \<longleftrightarrow> 5 \<le> kind_rank (pa_kind (assess_contract i a j b))"
  by (simp add: assess_contract_def assess_def Let_def)

lemma assess_path_rank:
  "pa_blocking (assess_path i a j b ov) \<longleftrightarrow> 5 \<le> kind_rank (pa_kind (assess_path i a j b ov))"
  by (simp add: assess_path_def assess_def Let_def)

lemma assess_pair_rank:
  "assess_pair i a j b = Some pa \<Longrightarrow> pa_blocking pa \<longleftrightarrow> 5 \<le> kind_rank (pa_kind pa)"
  by (auto simp: assess_pair_def Let_def assess_contract_rank assess_path_rank
      assess_def [of REPLAN] assess_def [of NOTIFY_ON_CHANGE] assess_def [of COMPATIBLE_OVERLAP]
      assess_def [of REQUIRES_STUB] assess_def [of SERIALIZE] split: if_splits)

text \<open>
  The kind of a decision and its verdict agree: an intent is allowed exactly when the
  kind ranks below \<open>REQUIRES_STUB\<close>, so a caller that looks at either one sees the same thing,
  and no conflict of the decision ranks above its kind.
\<close>
theorem kind_determines_verdict:
  assumes "evaluate inc active known = Inr d"
  shows "(ad_allowed d \<longleftrightarrow> kind_rank (ad_kind d) < kind_rank REQUIRES_STUB)
    \<and> list_all (\<lambda>c. kind_rank (ac_kind c) \<le> kind_rank (ad_kind d)) (ad_conflicts d)"
  using assms
proof (cases rule: evaluate_cases)
  case opened
  define cs where "cs = map fst (all_findings inc active)"
  let ?ks = "map ac_kind cs"
  have rank: "ac_blocking c \<longleftrightarrow> 5 \<le> kind_rank (ac_kind c)" if "c \<in> set cs" for c
    using that by (auto simp: cs_def in_all_findings in_pair_findings conflict_of_def assess_pair_rank)
  have ge: "kind_rank (ac_kind c) \<le> kind_rank (highest_admission_kind ?ks)"
    if "c \<in> set cs" for c
    by (rule highest_kind_ge) (use that in force)
  have "(\<exists>c \<in> set cs. ac_blocking c) \<longleftrightarrow> 5 \<le> kind_rank (highest_admission_kind ?ks)"
  proof (cases "?ks = []")
    case True
    then show ?thesis by (simp add: highest_admission_kind_def)
  next
    case False
    then have "highest_admission_kind ?ks \<in> set ?ks" by (rule highest_kind_in)
    then obtain c where "c \<in> set cs" "ac_kind c = highest_admission_kind ?ks"
      by auto
    then show ?thesis using rank ge by (metis le_trans)
  qed
  with ge opened [folded cs_def] show ?thesis
    by (auto simp: list_all_iff list_ex_iff not_less)
next
  case closed
  then show ?thesis by simp
qed


section \<open>Admitted writers of one path\<close>

lemma list_ex_dropWhile:
  "(\<And>c. P c \<Longrightarrow> \<not> Q c) \<Longrightarrow> list_ex P (dropWhile Q s) = list_ex P s"
  by (induction s) auto

lemma list_ex_rev [simp]: "list_ex P (rev s) = list_ex P s"
  by (simp add: list_ex_iff)

lemma has_glob_path_text [simp]: "has_glob (path_text v) = has_glob v"
proof -
  have "has_glob (slashes v) = has_glob v"
    by (induction v) (auto simp: has_glob_def slashes_def replace_char_def is_glob_char_def)
  moreover have "has_glob (path_text v) = has_glob (slashes v)"
    unfolding has_glob_def path_text_def rstrip_slash_def rstrip_by_def lstrip_by_def
    by (subst list_ex_rev, subst list_ex_dropWhile, force simp: is_glob_char_def,
        subst list_ex_rev, subst list_ex_dropWhile, auto simp: is_glob_char_def)
  ultimately show ?thesis by simp
qed

text \<open>
  The identifier is spelled the way the overlap test reads it: the key that the scope check
  compares with and the text that the overlap test compares with are the same. An identifier
  such as \<open>src/app.py\<close> or \<open>src/*.py\<close> is, \<open>.env\<close> or \<open>src//app.py\<close> is not.
\<close>

definition canonical_path :: "resource_ref \<Rightarrow> bool" where
  "canonical_path r = (rr_key r = path_text (rr_identifier r))"

lemma common_path_overlaps:
  assumes "covers_path r p" and "covers_path q p" and "canonical_path r" and "canonical_path q"
  shows "path_overlap (rr_identifier r) (rr_identifier q) ra rb \<noteq> OV_none"
proof -
  let ?a = "path_text (rr_identifier r)" and ?b = "path_text (rr_identifier q)"
  have a: "if has_glob ?a then fnmatchcase (norm_path p) ?a else norm_path p = ?a"
    using assms(1,3) by (auto simp: covers_path_def canonical_path_def is_pattern_def Let_def split: if_splits)
  have b: "if has_glob ?b then fnmatchcase (norm_path p) ?b else norm_path p = ?b"
    using assms(2,4) by (auto simp: covers_path_def canonical_path_def is_pattern_def Let_def split: if_splits)
  have "starts_with (glob_prefix ?a) (glob_prefix ?b) \<or> starts_with (glob_prefix ?b) (glob_prefix ?a)"
    if "has_glob ?a" "has_glob ?b"
    using a b that fnmatch_prefix starts_with_comparable by (metis (full_types))
  with a b show ?thesis
    by (auto simp: path_overlap_def Let_def simp del: has_glob_path_text)
qed

lemma path_overlap_disjoint:
  assumes "path_overlap a b ra rb = OV_disjoint"
  shows "\<exists>s s' a1 a2 b1 b2. ra = Some s \<and> rb = Some s' \<and> parse_line_region s = Some (a1, a2)
    \<and> parse_line_region s' = Some (b1, b2) \<and> (a2 < b1 \<or> b2 < a1)"
  using assms
  by (auto simp: path_overlap_def regions_overlap_def Let_def split: if_splits option.splits)

lemma committed_in_admission:
  "a \<in> set (committed_operations i) \<Longrightarrow> a \<in> set (admission_operations i)"
  by (force simp: committed_operations_def admission_operations_def admission_operation_def)

lemma unblocked_path_pair:
  assumes "\<not> pair_blocks inc a ex b" and "op_mutating a" and "op_mutating b"
    and "path_kind (rr_kind (op_resource a))" and "path_kind (rr_kind (op_resource b))"
    and "resource_overlap a b \<noteq> OV_none"
  shows "intent_base inc = intent_base ex \<and> \<not> mode_destructive (op_access a)
    \<and> \<not> mode_destructive (op_access b) \<and> resource_overlap a b = OV_disjoint"
proof -
  have kinds: "rr_kind (op_resource a) \<noteq> K_CONTRACT" "rr_kind (op_resource b) \<noteq> K_CONTRACT"
    and modes: "op_access a \<noteq> A_READ" "op_access b \<noteq> A_READ"
    using assms(2-5) by (auto simp: path_kind_def op_mutating_def mode_mutating_def)
  show ?thesis
    using assms kinds modes
    by (simp add: pair_blocks_def assess_pair_def Let_def assess_def assess_path_def split: if_splits)
qed

lemma writers_disjoint:
  assumes "evaluate inc active known = Inr d" and "ad_allowed d"
    and "ex \<in> set active" and "ci_intent_id ex \<noteq> ci_intent_id inc"
    and "a \<in> set (committed_operations inc)" and "op_mutating a"
    and "b \<in> set (committed_operations ex)" and "op_mutating b"
    and "covers_path (op_resource a) p" and "covers_path (op_resource b) p"
    and "canonical_path (op_resource a)" and "canonical_path (op_resource b)"
  shows "intent_base inc = intent_base ex
    \<and> \<not> mode_destructive (op_access a) \<and> \<not> mode_destructive (op_access b)
    \<and> (\<exists>s s' a1 a2 b1 b2. rr_region (op_resource a) = Some s \<and> rr_region (op_resource b) = Some s'
         \<and> parse_line_region s = Some (a1, a2) \<and> parse_line_region s' = Some (b1, b2)
         \<and> (a2 < b1 \<or> b2 < a1))"
proof -
  have kinds: "path_kind (rr_kind (op_resource a))" "path_kind (rr_kind (op_resource b))"
    using assms(9,10) by (auto simp: covers_path_def split: if_splits)
  have "\<not> pair_blocks inc a ex b"
    using evaluate_verdict [of inc active known] assms(1-5,7) committed_in_admission by auto
  moreover have ov: "resource_overlap a b = path_overlap (rr_identifier (op_resource a))
      (rr_identifier (op_resource b)) (rr_region (op_resource a)) (rr_region (op_resource b))"
    using kinds by (simp add: resource_overlap_def Let_def)
  moreover from ov have "resource_overlap a b \<noteq> OV_none"
    using common_path_overlaps assms(9-12) by simp
  ultimately show ?thesis
    using unblocked_path_pair [OF _ assms(6,8) kinds] path_overlap_disjoint by metis
qed

text \<open>
  C9: when the engine allows an intent, any committed write of it and any committed write of
  an active intent with another id that can reach one common path, through literal names or
  through patterns, and whose identifiers are both spelled in canonical form, start from the
  same base, neither deletes nor renames, and both declare line intervals that do not meet.
  Without the canonical form this fails: see \<open>dotfile_overlap_missed\<close>.
\<close>
theorem admitted_writers_disjoint:
  assumes "evaluate inc active known = Inr d" and "ad_allowed d"
    and "ex \<in> set active" and "ci_intent_id ex \<noteq> ci_intent_id inc"
    and "a \<in> set (committed_operations inc)" and "op_mutating a"
    and "b \<in> set (committed_operations ex)" and "op_mutating b"
    and "covers_path (op_resource a) p" and "covers_path (op_resource b) p"
    and "canonical_path (op_resource a)" and "canonical_path (op_resource b)"
  shows "intent_base inc = intent_base ex
    \<and> \<not> mode_destructive (op_access a) \<and> \<not> mode_destructive (op_access b)
    \<and> (\<exists>s s' a1 a2 b1 b2. rr_region (op_resource a) = Some s \<and> rr_region (op_resource b) = Some s'
         \<and> parse_line_region s = Some (a1, a2) \<and> parse_line_region s' = Some (b1, b2)
         \<and> (a2 < b1 \<or> b2 < a1))"
  by (rule writers_disjoint) (rule assms)+


section \<open>The verdict on a pair is symmetric\<close>

lemma regions_overlap_sym: "regions_overlap a b = regions_overlap b a"
  by (auto simp: regions_overlap_def split: option.splits)

lemma path_overlap_sym: "path_overlap a b ra rb = path_overlap b a rb ra"
  by (auto simp: path_overlap_def Let_def regions_overlap_sym)

lemma same_contract_sym: "same_contract a b = same_contract b a"
  unfolding same_contract_def Let_def by metis

lemma resource_overlap_sym: "resource_overlap a b = resource_overlap b a"
  by (auto simp: resource_overlap_def Let_def same_contract_sym intro: path_overlap_sym)

lemma sigs_differ_sym: "sigs_differ a b = sigs_differ b a"
  by (auto simp: sigs_differ_def)

lemma shared_contract_signature_sym:
  "shared_contract_signature i j k = shared_contract_signature j i k"
proof -
  let ?ei = "contract_entries i k" and ?ej = "contract_entries j k"
  let ?c = "sorted_set (filter (\<lambda>k. k \<in> set (map fst ?ej)) (map fst ?ei))"
  have common: "?c = sorted_set (filter (\<lambda>k. k \<in> set (map fst ?ei)) (map fst ?ej))"
    by (rule sorted_set_cong) auto
  have flip: "(\<lambda>k. map_of ?ej k = map_of ?ei k) = (\<lambda>k. map_of ?ei k = map_of ?ej k)"
    by (simp add: fun_eq_iff eq_commute)
  have "map_of ?ei x = map_of ?ej x" if "find (\<lambda>k. map_of ?ei k = map_of ?ej k) ?c = Some x" for x
    using that unfolding find_Some_iff by blast
  then show ?thesis
    unfolding shared_contract_signature_def Let_def common [symmetric] flip
    by (cases "find (\<lambda>k. map_of ?ei k = map_of ?ej k) ?c") simp_all
qed

lemma resource_overlap_semantic:
  assumes "resource_overlap a b \<noteq> OV_none"
    and "\<not> path_kind (rr_kind (op_resource a)) \<or> \<not> path_kind (rr_kind (op_resource b))"
  shows "semantic_key (op_resource a) = semantic_key (op_resource b)"
  using assms by (auto simp: resource_overlap_def same_contract_def Let_def split: if_splits)

definition verdict_of :: "pair_assessment option \<Rightarrow> (admission_kind \<times> bool) option" where
  "verdict_of = map_option (\<lambda>pa. (pa_kind pa, pa_blocking pa))"

lemma assess_contract_sym:
  assumes "jget (ci_metadata i) ''_amendment'' \<noteq> JBool True"
    and "jget (ci_metadata j) ''_amendment'' \<noteq> JBool True"
  shows "pa_kind (assess_contract i a j b) = pa_kind (assess_contract j b i a)
    \<and> pa_blocking (assess_contract i a j b) = pa_blocking (assess_contract j b i a)"
  using assms
  by (auto simp: assess_contract_def assess_def Let_def same_contract_sym [of b a]
      sigs_differ_sym [of "rr_signature (op_resource b)"])

text \<open>
  C37: leaving amendments aside, the kind and the blocking verdict on a pair of operations are
  the same whichever of the two intents arrives second, so comparing the incoming intent with
  the active ones, and never the other way round, loses nothing.
\<close>
theorem pair_verdict_symmetric:
  assumes "jget (ci_metadata i) ''_amendment'' \<noteq> JBool True"
    and "jget (ci_metadata j) ''_amendment'' \<noteq> JBool True"
  shows "verdict_of (assess_pair i a j b) = verdict_of (assess_pair j b i a)"
proof (cases "resource_overlap a b = OV_none")
  case True
  then show ?thesis
    by (simp add: assess_pair_def Let_def resource_overlap_sym [of b a])
next
  case False
  note sym = resource_overlap_sym [of b a] assess_contract_sym [OF assms]
    shared_contract_signature_sym [of j i]
  have path: "path_kind (rr_kind (op_resource a)) \<longleftrightarrow> path_kind (rr_kind (op_resource b))"
    using False by (auto simp: resource_overlap_def Let_def semantic_kind_def path_kind_def split: if_splits)
  show ?thesis
  proof (cases "path_kind (rr_kind (op_resource a))")
    case True
    with path False show ?thesis
      by (auto simp: assess_pair_def Let_def verdict_of_def assess_def assess_path_def sym path_kind_def)
  next
    case npath: False
    with path resource_overlap_semantic [OF False]
    have "semantic_key (op_resource a) = semantic_key (op_resource b)" by simp
    with npath path False show ?thesis
      by (auto simp: assess_pair_def Let_def verdict_of_def assess_def sym)
  qed
qed


section \<open>Instances\<close>

text \<open>Two writers of \<open>src/app.py\<close> in lines 1 to 10 and 20 to 30, and a third without a region.\<close>

definition sample_write :: "string \<Rightarrow> string option \<Rightarrow> intent_operation" where
  "sample_write path region =
     \<lparr>op_access = A_WRITE,
      op_resource = \<lparr>rr_kind = K_FILE, rr_identifier = path, rr_signature = None,
        rr_region = region, rr_concept_id = None, rr_subject_concept_id = None, rr_metadata = []\<rparr>,
      op_required = True, op_metadata = [], op_commitment = COMMITTED\<rparr>"

definition sample_intent :: "string \<Rightarrow> intent_operation list \<Rightarrow> change_intent" where
  "sample_intent iid ops =
     \<lparr>ci_intent_id = iid, ci_task_id = ''t'', ci_owner = ''o'', ci_base_revision = ''r'',
      ci_operations = ops, ci_base_commit = None, ci_preserves = [], ci_acceptance = [],
      ci_dependencies = [], ci_lease_seconds = 900, ci_metadata = []\<rparr>"

definition low_writer :: change_intent where
  "low_writer = sample_intent ''low'' [sample_write ''src/app.py'' (Some ''1-10'')]"

definition high_writer :: change_intent where
  "high_writer = sample_intent ''high'' [sample_write ''src/app.py'' (Some ''20-30'')]"

lemma sample_gate: "gate_open high_writer [low_writer] []"
  by code_simp

lemma sample_unblocked: "\<not> list_ex ac_blocking (map fst (all_findings high_writer [low_writer]))"
  by code_simp

lemma sample_writes:
  "sample_write ''src/app.py'' (Some ''1-10'') \<in> set (committed_operations low_writer)"
  "sample_write ''src/app.py'' (Some ''20-30'') \<in> set (committed_operations high_writer)"
  "op_mutating (sample_write ''src/app.py'' (Some ''1-10''))"
  "op_mutating (sample_write ''src/app.py'' (Some ''20-30''))"
  "ci_intent_id low_writer \<noteq> ci_intent_id high_writer"
  by code_simp+

lemma sample_paths:
  "covers_path (op_resource (sample_write ''src/app.py'' (Some ''1-10''))) ''src/app.py''"
  "covers_path (op_resource (sample_write ''src/app.py'' (Some ''20-30''))) ''src/app.py''"
  "canonical_path (op_resource (sample_write ''src/app.py'' (Some ''1-10'')))"
  "canonical_path (op_resource (sample_write ''src/app.py'' (Some ''20-30'')))"
  by code_simp+

theorem admitted_writers_disjoint_witness:
  "\<exists>d s s' a1 a2 b1 b2. evaluate high_writer [low_writer] [] = Inr d \<and> ad_allowed d
     \<and> rr_region (op_resource (sample_write ''src/app.py'' (Some ''20-30''))) = Some s
     \<and> rr_region (op_resource (sample_write ''src/app.py'' (Some ''1-10''))) = Some s'
     \<and> parse_line_region s = Some (a1, a2) \<and> parse_line_region s' = Some (b1, b2)
     \<and> (a2 < b1 \<or> b2 < a1)"
proof -
  obtain d where d: "evaluate high_writer [low_writer] [] = Inr d" "ad_allowed d"
    using evaluate_open [OF sample_gate] sample_unblocked by blast
  from admitted_writers_disjoint [OF d _ sample_writes(5,2,4,1,3) sample_paths(2,1,4,3)] d
  show ?thesis by auto
qed

theorem kind_determines_verdict_witness:
  "\<exists>d. evaluate high_writer [low_writer] [] = Inr d
     \<and> kind_rank (ad_kind d) < kind_rank REQUIRES_STUB"
proof -
  obtain d where "evaluate high_writer [low_writer] [] = Inr d" "ad_allowed d"
    using evaluate_open [OF sample_gate] sample_unblocked by blast
  with kind_determines_verdict [of high_writer "[low_writer]" "[]" d] show ?thesis by blast
qed

theorem pair_verdict_symmetric_witness:
  "verdict_of (assess_pair high_writer (hd (ci_operations high_writer)) low_writer (hd (ci_operations low_writer)))
   = verdict_of (assess_pair low_writer (hd (ci_operations low_writer)) high_writer (hd (ci_operations high_writer)))"
  by (rule pair_verdict_symmetric) code_simp+

text \<open>
  Why the spelling has to be canonical: \<open>lstrip("./")\<close> removes every leading dot and slash,
  so the pattern \<open>*.env\<close> is compared with \<open>env\<close> and the two writers of \<open>.env\<close> are both
  admitted, although the scope check lets both of them write the file.
\<close>

definition env_pattern :: intent_operation where
  "env_pattern = sample_write ''*.env'' None"

definition env_file :: intent_operation where
  "env_file = sample_write ''.env'' None"

text \<open>
  The overlap test misses a file whose name begins with a dot: both scopes cover \<open>.env\<close>,
  and the engine allows the second writer as independent work.
\<close>
theorem dotfile_overlap_missed:
  "covers_path (op_resource env_pattern) ''.env'' \<and> covers_path (op_resource env_file) ''.env''
   \<and> (\<exists>d. evaluate (sample_intent ''b'' [env_file]) [sample_intent ''a'' [env_pattern]] [] = Inr d
        \<and> ad_allowed d \<and> ad_conflicts d = [])"
proof -
  have "gate_open (sample_intent ''b'' [env_file]) [sample_intent ''a'' [env_pattern]] []"
    by code_simp
  moreover have "all_findings (sample_intent ''b'' [env_file]) [sample_intent ''a'' [env_pattern]] = []"
    by code_simp
  moreover have "covers_path (op_resource env_pattern) ''.env''" "covers_path (op_resource env_file) ''.env''"
    by code_simp+
  ultimately show ?thesis
    using evaluate_open [of "sample_intent ''b'' [env_file]" "[sample_intent ''a'' [env_pattern]]" "[]"]
    by auto
qed

end
