(* ===== verification/WriterLock.thy ===== *)
theory WriterLock
  imports Prelude
begin

text \<open>
  The abstract specification of the writer leases: a lock service with fencing tokens. For every
  worktree it keeps the last token given out and the current holder. The locale is the interface
  a state machine has to implement; its lemmas are what a client of the leases relies on.
\<close>

type_synonym lock = "string \<Rightarrow> int \<times> (string \<times> int) option"

definition free_lock :: lock where
  "free_lock = (\<lambda>_. (0, None))"

inductive lock_move :: "lock \<Rightarrow> lock \<Rightarrow> bool" where
  acquire: "snd (L r) = None \<Longrightarrow> lock_move L (L(r := (fst (L r) + 1, Some (i, fst (L r) + 1))))"
| drop: "lock_move L (L(r := (fst (L r), None)))"

inductive_cases lock_moveE: "lock_move L L'"

lemma lock_move_mono: "lock_move L L' \<Longrightarrow> fst (L r) \<le> fst (L' r)"
  by (auto elim!: lock_moveE)

lemma lock_moves_mono: "lock_move\<^sup>*\<^sup>* L L' \<Longrightarrow> fst (L r) \<le> fst (L' r)"
  by (induction rule: rtranclp_induct) (auto intro: order_trans lock_move_mono)

definition newest :: "lock \<Rightarrow> bool" where
  "newest L \<longleftrightarrow> (\<forall>r i t. snd (L r) = Some (i, t) \<longrightarrow> t = fst (L r))"

lemma newest_free: "newest free_lock"
  by (simp add: newest_def free_lock_def)

lemma lock_move_newest: "lock_move L L' \<Longrightarrow> newest L \<Longrightarrow> newest L'"
  by (auto simp: newest_def elim!: lock_moveE)

lemma lock_moves_newest: "lock_move\<^sup>*\<^sup>* L L' \<Longrightarrow> newest L \<Longrightarrow> newest L'"
  by (induction rule: rtranclp_induct) (auto intro: lock_move_newest)

text \<open>A holder was there before, or its token is new.\<close>

lemma lock_moves_holder:
  assumes "lock_move\<^sup>*\<^sup>* L L'" and "snd (L' r) = Some (i, t)"
  shows "snd (L r) = Some (i, t) \<or> fst (L r) < t"
  using assms
proof (induction arbitrary: i t rule: rtranclp_induct)
  case (step M N)
  from step(2,4) have "snd (M r) = Some (i, t) \<or> fst (M r) < t"
    by (auto elim!: lock_moveE split: if_splits)
  then show ?case using step.IH lock_moves_mono [OF step(1), of r] by fastforce
qed simp

lemma lock_drop_all:
  assumes "finite R"
  shows "lock_move\<^sup>*\<^sup>* L (\<lambda>r. if r \<in> R then (fst (L r), None) else L r)"
  using assms
proof (induction R)
  case (insert x R)
  let ?M = "\<lambda>r. if r \<in> R then (fst (L r), None) else L r"
  have "(\<lambda>r. if r \<in> insert x R then (fst (L r), None) else L r) = ?M(x := (fst (?M x), None))"
    by (auto simp: fun_eq_iff)
  then show ?case using insert.IH lock_move.drop [of ?M x] by (simp add: rtranclp.rtrancl_into_rtrancl)
qed simp


section \<open>The interface\<close>

locale lock_service =
  fixes init :: 's
    and step :: "'s \<Rightarrow> 's \<Rightarrow> bool"
    and view :: "'s \<Rightarrow> lock"
  assumes init_free: "view init = free_lock"
    and simulates: "step s s' \<Longrightarrow> lock_move\<^sup>*\<^sup>* (view s) (view s')"
begin

lemma run_moves: "step\<^sup>*\<^sup>* s s' \<Longrightarrow> lock_move\<^sup>*\<^sup>* (view s) (view s')"
  by (induction rule: rtranclp_induct) (auto intro: rtranclp_trans simulates)

lemma holder_newest: "step\<^sup>*\<^sup>* init s \<Longrightarrow> snd (view s r) = Some (i, t) \<Longrightarrow> t = fst (view s r)"
  using lock_moves_newest [OF run_moves] newest_free init_free unfolding newest_def by metis

lemma token_mono: "step\<^sup>*\<^sup>* s s' \<Longrightarrow> fst (view s r) \<le> fst (view s' r)"
  by (rule lock_moves_mono) (rule run_moves)

text \<open>A token, once held, is never held by another instance.\<close>

lemma token_once:
  assumes "step\<^sup>*\<^sup>* init s" and "snd (view s r) = Some (i, t)"
    and "step\<^sup>*\<^sup>* s s'" and "snd (view s' r) = Some (j, t)"
  shows "j = i"
  using lock_moves_holder [OF run_moves [OF assms(3)] assms(4)] holder_newest [OF assms(1,2)] assms(2) by auto

text \<open>Once another writer took the worktree, the old token is below every later one.\<close>

lemma token_retired:
  assumes "step\<^sup>*\<^sup>* init s" and "snd (view s r) = Some (i, t)" and "step\<^sup>*\<^sup>* s s'"
    and "snd (view s' r) = Some (j, u)" and "j \<noteq> i" and "step\<^sup>*\<^sup>* s' s''"
  shows "t < fst (view s'' r)"
proof -
  have "t < u" using lock_moves_holder [OF run_moves [OF assms(3)] assms(4)] holder_newest [OF assms(1,2)] assms(2,5)
    by auto
  moreover have "u = fst (view s' r)" using holder_newest assms(1,3,4) rtranclp_trans by metis
  ultimately show ?thesis using token_mono [OF assms(6), of r] by simp
qed

end

end
