(* ===== verification/TopoOrder.thy ===== *)
theory TopoOrder
  imports Prelude
begin

text \<open>
  What every ordering routine of the program promises: the registry's refresh order, the work
  graph's topological order, the admission order and the execution waves each scan a graph of
  (dependent, producer) edges and stop when no node is ready. The locale states that promise
  and derives, once, that a scan is complete exactly on an acyclic graph and that a complete
  scan puts all transitive producers first.
\<close>


section \<open>Positions in a list\<close>

text \<open>\<open>p\<close> stands before \<open>d\<close> in a list.\<close>

definition before_in :: "'a list \<Rightarrow> 'a \<Rightarrow> 'a \<Rightarrow> bool" where
  "before_in xs p d \<longleftrightarrow> (\<exists>us vs ws. xs = us @ p # vs @ d # ws)"

lemma before_in_snoc: "before_in xs p d \<Longrightarrow> before_in (xs @ [y]) p d"
  unfolding before_in_def by (metis append.assoc append_Cons)

lemma before_in_last: "p \<in> set xs \<Longrightarrow> before_in (xs @ [d]) p d"
  unfolding before_in_def by (metis append.assoc append_Cons in_set_conv_decomp)

lemma before_in_append: "before_in xs p d \<Longrightarrow> before_in (xs @ ys) p d"
  unfolding before_in_def by (metis append.assoc append_Cons)

lemma before_in_split: "p \<in> set xs \<Longrightarrow> d \<in> set ys \<Longrightarrow> before_in (xs @ ys) p d"
  unfolding before_in_def by (metis append.assoc append_Cons in_set_conv_decomp)

lemma before_in_mem: "before_in xs p d \<Longrightarrow> p \<in> set xs \<and> d \<in> set xs"
  by (auto simp: before_in_def)

lemma before_in_position:
  assumes "distinct xs" and "before_in xs p d"
  shows "length (takeWhile (\<lambda>x. x \<noteq> p) xs) < length (takeWhile (\<lambda>x. x \<noteq> d) xs)"
proof -
  obtain us vs ws where xs: "xs = us @ p # vs @ d # ws"
    using assms(2) by (auto simp: before_in_def)
  with assms(1) have "\<forall>x \<in> set us. x \<noteq> p" "\<forall>x \<in> set (us @ p # vs). x \<noteq> d" by auto
  then have "takeWhile (\<lambda>x. x \<noteq> p) xs = us" "takeWhile (\<lambda>x. x \<noteq> d) xs = us @ p # vs"
    using xs by (simp_all add: takeWhile_append2)
  then show ?thesis by simp
qed

lemma before_in_trans:
  assumes "distinct xs" and "before_in xs a b" and "before_in xs b c"
  shows "before_in xs a c"
proof -
  obtain us vs ws where xs: "xs = us @ b # vs @ c # ws" using assms(3) by (auto simp: before_in_def)
  obtain us' vs' ws' where xs': "xs = us' @ a # vs' @ b # ws'" using assms(2) by (auto simp: before_in_def)
  have "us = us' @ a # vs'"
  proof -
    have "distinct (us @ b # vs @ c # ws)" using assms(1) xs by simp
    then have "b \<notin> set us" "b \<notin> set (vs @ c # ws)" by auto
    moreover have "us @ b # (vs @ c # ws) = (us' @ a # vs') @ b # ws'" using xs xs' by simp
    ultimately show ?thesis by (metis append_Cons_eq_iff)
  qed
  then have "xs = us' @ a # (vs' @ b # vs) @ c # ws" using xs by simp
  then show ?thesis unfolding before_in_def by blast
qed

text \<open>A finite set in which every node has a producer in the set holds a cycle.\<close>

lemma no_source_cycle:
  assumes "finite R" and "R \<noteq> {}" and "\<And>r. r \<in> R \<Longrightarrow> \<exists>p \<in> R. (r, p) \<in> E"
  shows "\<not> acyclic E"
proof
  assume "acyclic E"
  then have "acyclic (E \<inter> R \<times> R)" by (rule acyclic_subset) auto
  moreover have "finite (E \<inter> R \<times> R)" using assms(1) by (simp add: finite_subset [of _ "R \<times> R"])
  ultimately have "wf ((E \<inter> R \<times> R)\<inverse>)" by (rule finite_acyclic_wf_converse [rotated])
  moreover obtain r0 where "r0 \<in> R" using assms(2) by blast
  ultimately have "\<exists>r \<in> R. \<forall>p. (p, r) \<in> (E \<inter> R \<times> R)\<inverse> \<longrightarrow> p \<notin> R"
    using wfE_min [of "(E \<inter> R \<times> R)\<inverse>" r0 R] by metis
  then obtain r where r: "r \<in> R" "\<And>p. (p, r) \<in> (E \<inter> R \<times> R)\<inverse> \<Longrightarrow> p \<notin> R"
    by blast
  obtain p where "p \<in> R" "(r, p) \<in> E" using assms(3) [OF r(1)] by blast
  with r show False by blast
qed


section \<open>The promise of a scan\<close>

locale producer_scan =
  fixes good :: "'g \<Rightarrow> bool" and nodes :: "'g \<Rightarrow> 'a set" and deps :: "'g \<Rightarrow> ('a \<times> 'a) set"
    and scan :: "'g \<Rightarrow> 'a list"
  assumes finite_nodes: "good g \<Longrightarrow> finite (nodes g)"
    and inside: "good g \<Longrightarrow> set (scan g) \<subseteq> nodes g"
    and edges_inside: "good g \<Longrightarrow> (d, p) \<in> deps g \<Longrightarrow> d \<in> nodes g \<and> p \<in> nodes g"
    and once: "good g \<Longrightarrow> distinct (scan g)"
    and first: "good g \<Longrightarrow> (d, p) \<in> deps g \<Longrightarrow> d \<in> set (scan g) \<Longrightarrow> before_in (scan g) p d"
    and stuck: "good g \<Longrightarrow> n \<in> nodes g \<Longrightarrow> n \<notin> set (scan g)
      \<Longrightarrow> \<exists>p. (n, p) \<in> deps g \<and> p \<notin> set (scan g)"
begin

lemma all_producers_first:
  assumes "good g" and "(d, p) \<in> (deps g)\<^sup>+" and "d \<in> set (scan g)"
  shows "before_in (scan g) p d"
  using assms(2,3)
proof (induction rule: converse_trancl_induct)
  case (base y)
  with first [OF assms(1)] show ?case by blast
next
  case (step y z)
  have "before_in (scan g) z y" using first [OF assms(1) step(1) step.prems] .
  moreover have "before_in (scan g) p z"
    using step.IH before_in_mem [OF \<open>before_in (scan g) z y\<close>] by blast
  ultimately show ?case using before_in_trans [OF once [OF assms(1)]] by blast
qed

lemma acyclic_of_complete:
  assumes "good g" and "set (scan g) = nodes g"
  shows "acyclic (deps g)"
  unfolding acyclic_def
proof (intro allI notI)
  fix x
  assume c: "(x, x) \<in> (deps g)\<^sup>+"
  then have "x \<in> set (scan g)"
    using edges_inside [OF assms(1)] assms(2) by (auto dest: tranclD)
  from before_in_position [OF once [OF assms(1)] all_producers_first [OF assms(1) c this]]
  show False by simp
qed

lemma complete_iff: "good g \<Longrightarrow> set (scan g) = nodes g \<longleftrightarrow> acyclic (deps g)"
proof
  assume good: "good g" and ac: "acyclic (deps g)"
  show "set (scan g) = nodes g"
  proof (rule ccontr)
    assume ne: "set (scan g) \<noteq> nodes g"
    let ?R = "nodes g - set (scan g)"
    have "\<not> acyclic (deps g)"
    proof (rule no_source_cycle [of ?R])
      show "finite ?R" using finite_nodes [OF good] by simp
      show "?R \<noteq> {}" using ne inside [OF good] by blast
      show "\<exists>p \<in> ?R. (r, p) \<in> deps g" if "r \<in> ?R" for r
        using that stuck [OF good, of r] edges_inside [OF good] by blast
    qed
    with ac show False by simp
  qed
qed (rule acyclic_of_complete)

lemma length_iff: "good g \<Longrightarrow> length (scan g) = card (nodes g) \<longleftrightarrow> acyclic (deps g)"
  by (metis card_subset_eq complete_iff distinct_card finite_nodes inside once)

end

end
