(* ===== verification/DepGraph.thy ===== *)
theory DepGraph
  imports TopoOrder
begin

text \<open>
  The two graph routines at the end of \<open>core/registry.py\<close>: the depth-first search that looks
  for a dependency cycle and the topological order that runs producers before dependents. An
  edge is a pair (dependent, producer). The search recurses at most once per node on the
  stack, so one more than the number of nodes is enough fuel, and the queue loop appends each
  node at most once, so the number of nodes plus one bounds its rounds; both bounds are
  proved to be enough. Python's own recursion limit is not modelled.
\<close>


section \<open>Looking for a cycle\<close>

definition edge_nodes :: "('a \<times> 'a) list \<Rightarrow> 'a list" where
  "edge_nodes edges = concat (map (\<lambda>(d, p). [d, p]) edges)"

definition producers_of :: "('a::linorder \<times> 'a) list \<Rightarrow> 'a \<Rightarrow> 'a list" where
  "producers_of edges n = sorted_set (map snd (filter (\<lambda>(d, p). d = n) edges))"

record 'a dfs_state =
  visiting :: "'a list"
  visited :: "'a list"
  dfs_stack :: "'a list"

datatype 'a dfs_result = OutOfFuel | Cycle "'a list" | Done "'a dfs_state"

text \<open>\<open>for neighbor in ...: cycle = visit(neighbor); if cycle: return cycle\<close>.\<close>

primrec each :: "('a \<Rightarrow> 'a dfs_state \<Rightarrow> 'a dfs_result) \<Rightarrow> 'a list \<Rightarrow> 'a dfs_state \<Rightarrow> 'a dfs_result" where
  "each f [] st = Done st"
| "each f (x # xs) st = (case f x st of Done st' \<Rightarrow> each f xs st' | r \<Rightarrow> r)"

primrec visit :: "nat \<Rightarrow> ('a::linorder \<times> 'a) list \<Rightarrow> 'a \<Rightarrow> 'a dfs_state \<Rightarrow> 'a dfs_result" where
  "visit 0 edges node st = OutOfFuel"
| "visit (Suc n) edges node st =
     (if node \<in> set (visited st) then Done st
      else if node \<in> set (visiting st)
      then Cycle (dropWhile (\<lambda>x. x \<noteq> node) (dfs_stack st) @ [node])
      else case each (visit n edges) (producers_of edges node)
               (st\<lparr>visiting := node # visiting st, dfs_stack := dfs_stack st @ [node]\<rparr>) of
          Done st' \<Rightarrow> Done (st'\<lparr>dfs_stack := butlast (dfs_stack st'),
                              visiting := removeAll node (visiting st'),
                              visited := node # visited st'\<rparr>)
        | r \<Rightarrow> r)"

definition dfs_start :: "'a dfs_state" where
  "dfs_start = \<lparr>visiting = [], visited = [], dfs_stack = []\<rparr>"

definition search_cycle :: "('a::linorder \<times> 'a) list \<Rightarrow> 'a dfs_result" where
  "search_cycle edges =
     (let nodes = sorted_set (edge_nodes edges)
      in each (visit (Suc (length nodes)) edges) nodes dfs_start)"

definition find_dependency_cycle :: "('a::linorder \<times> 'a) list \<Rightarrow> 'a list option" where
  "find_dependency_cycle edges = (case search_cycle edges of Cycle c \<Rightarrow> Some c | _ \<Rightarrow> None)"

text \<open>Consecutive nodes of a path are joined by edges.\<close>

fun edge_path :: "('a \<times> 'a) list \<Rightarrow> 'a list \<Rightarrow> bool" where
  "edge_path edges (x # y # xs) = ((x, y) \<in> set edges \<and> edge_path edges (y # xs))"
| "edge_path edges _ = True"

definition is_cycle :: "('a \<times> 'a) list \<Rightarrow> 'a list \<Rightarrow> bool" where
  "is_cycle edges c = (2 \<le> length c \<and> hd c = last c \<and> edge_path edges c)"

definition acyclic_edges :: "('a \<times> 'a) list \<Rightarrow> bool" where
  "acyclic_edges edges = acyclic (set edges)"

lemma set_edge_nodes [simp]: "set (edge_nodes edges) = fst ` set edges \<union> snd ` set edges"
  by (force simp: edge_nodes_def)

lemma set_producers_of [simp]: "set (producers_of edges n) = {p. (n, p) \<in> set edges}"
  by (force simp: producers_of_def)

lemma edge_path_append:
  "edge_path edges (xs @ [x]) \<Longrightarrow> edge_path edges (x # ys) \<Longrightarrow> edge_path edges (xs @ x # ys)"
  by (induction xs rule: edge_path.induct [of _ edges]) auto

lemma edge_path_dropWhile: "edge_path edges xs \<Longrightarrow> edge_path edges (dropWhile P xs)"
proof (induction xs)
  case (Cons x xs)
  then show ?case by (cases xs) auto
qed simp

lemma edge_path_snoc:
  "xs \<noteq> [] \<Longrightarrow> edge_path edges (xs @ [y]) \<longleftrightarrow> edge_path edges xs \<and> (last xs, y) \<in> set edges"
proof (induction xs)
  case (Cons x xs)
  then show ?case by (cases xs) auto
qed simp

lemma edge_path_trancl: "edge_path edges xs \<Longrightarrow> 2 \<le> length xs \<Longrightarrow> (hd xs, last xs) \<in> (set edges)\<^sup>+"
proof (induction xs)
  case (Cons x xs)
  show ?case
  proof (cases xs)
    case (Cons y ys)
    show ?thesis
    proof (cases ys)
      case Nil
      with Cons Cons.prems show ?thesis by auto
    next
      case (Cons z zs)
      with \<open>xs = y # ys\<close> Cons.IH Cons.prems have "(y, last xs) \<in> (set edges)\<^sup>+" by simp
      moreover have "(x, y) \<in> set edges" using \<open>xs = y # ys\<close> Cons.prems by simp
      ultimately show ?thesis using \<open>xs = y # ys\<close> by (auto intro: trancl_into_trancl2)
    qed
  qed (use Cons.prems in simp)
qed simp

lemma is_cycle_not_acyclic: "is_cycle edges c \<Longrightarrow> \<not> acyclic_edges edges"
  using edge_path_trancl by (fastforce simp: is_cycle_def acyclic_edges_def acyclic_def)

text \<open>The invariant of the search; \<open>closed\<close> nodes are finished and on no cycle.\<close>

definition dfs_inv :: "('a \<times> 'a) list \<Rightarrow> 'a dfs_state \<Rightarrow> bool" where
  "dfs_inv edges st \<longleftrightarrow>
     set (visiting st) = set (dfs_stack st) \<and> distinct (dfs_stack st)
     \<and> set (visited st) \<inter> set (dfs_stack st) = {}
     \<and> edge_path edges (dfs_stack st)
     \<and> (\<forall>x \<in> set (visited st). \<forall>y. (x, y) \<in> set edges \<longrightarrow> y \<in> set (visited st))
     \<and> (\<forall>x \<in> set (visited st). (x, x) \<notin> (set edges)\<^sup>+)"

text \<open>What a call leaves: the same stack, a larger finished set, or a real cycle.\<close>

definition dfs_post :: "('a \<times> 'a) list \<Rightarrow> 'a list \<Rightarrow> 'a dfs_state \<Rightarrow> 'a dfs_result \<Rightarrow> bool" where
  "dfs_post edges xs st r \<longleftrightarrow> (case r of
       OutOfFuel \<Rightarrow> False
     | Cycle c \<Rightarrow> is_cycle edges c
     | Done st' \<Rightarrow> dfs_inv edges st' \<and> dfs_stack st' = dfs_stack st
         \<and> set (visited st) \<union> set xs \<subseteq> set (visited st'))"

lemma dfs_post_simps [simp]:
  "\<not> dfs_post edges xs st OutOfFuel"
  "dfs_post edges xs st (Cycle c) \<longleftrightarrow> is_cycle edges c"
  "dfs_post edges xs st (Done st') \<longleftrightarrow> dfs_inv edges st' \<and> dfs_stack st' = dfs_stack st
         \<and> set (visited st) \<union> set xs \<subseteq> set (visited st')"
  by (simp_all add: dfs_post_def)

lemma each_post:
  assumes "\<And>x st. x \<in> set xs \<Longrightarrow> dfs_inv edges st \<Longrightarrow> dfs_stack st = s
      \<Longrightarrow> dfs_post edges [x] st (f x st)"
    and "dfs_inv edges st" and "dfs_stack st = s"
  shows "dfs_post edges xs st (each f xs st)"
  using assms
proof (induction xs arbitrary: st)
  case (Cons x xs)
  have x: "dfs_post edges [x] st (f x st)" using Cons.prems by simp
  show ?case
  proof (cases "f x st")
    case (Done st')
    with x Cons.prems have "dfs_post edges xs st' (each f xs st')"
      by (intro Cons.IH) auto
    with Done x show ?thesis by (cases "each f xs st'") auto
  qed (use x in auto)
qed simp

lemma closed_reach:
  assumes "(x, y) \<in> E\<^sup>*" and "x \<in> V" and "\<And>a b. a \<in> V \<Longrightarrow> (a, b) \<in> E \<Longrightarrow> b \<in> V"
  shows "y \<in> V"
  using assms by (induction rule: rtrancl_induct) auto

lemma visit_post:
  assumes "dfs_inv edges st" and "node \<in> set nodes" and "set (edge_nodes edges) \<subseteq> set nodes"
    and "edge_path edges (dfs_stack st @ [node])"
    and "card (set nodes - set (dfs_stack st)) < n"
  shows "dfs_post edges [node] st (visit n edges node st)"
  using assms
proof (induction n arbitrary: node st)
  case (Suc n)
  show ?case
  proof (cases "node \<in> set (visited st)")
    case True
    with Suc.prems show ?thesis by simp
  next
    case unvisited: False
    show ?thesis
    proof (cases "node \<in> set (visiting st)")
      case True
      let ?c = "dropWhile (\<lambda>x. x \<noteq> node) (dfs_stack st)"
      from True Suc.prems(1) have "node \<in> set (dfs_stack st)" by (auto simp: dfs_inv_def)
      then have c: "?c \<noteq> []" "hd ?c = node"
        by (auto simp: dropWhile_eq_Nil_conv intro: hd_dropWhile [where P = "\<lambda>x. x \<noteq> node", simplified])
      have "edge_path edges (?c @ [node])"
        using edge_path_dropWhile [OF Suc.prems(4), of "\<lambda>x. x \<noteq> node"] \<open>node \<in> set (dfs_stack st)\<close>
        by (simp add: dropWhile_append1)
      with c have "is_cycle edges (?c @ [node])"
        by (cases ?c) (auto simp: is_cycle_def)
      with True unvisited show ?thesis by simp
    next
      case False
      let ?st = "st\<lparr>visiting := node # visiting st, dfs_stack := dfs_stack st @ [node]\<rparr>"
      let ?r = "each (visit n edges) (producers_of edges node) ?st"
      from False Suc.prems(1) have fresh: "node \<notin> set (dfs_stack st)" by (auto simp: dfs_inv_def)
      have inv: "dfs_inv edges ?st"
        using Suc.prems(1,4) fresh unvisited by (auto simp: dfs_inv_def)
      have "set nodes - set (dfs_stack ?st) \<subset> set nodes - set (dfs_stack st)"
        using fresh Suc.prems(2) by auto
      then have fuel: "card (set nodes - set (dfs_stack ?st)) < n"
        using Suc.prems(5) psubset_card_mono [of "set nodes - set (dfs_stack st)"] by fastforce
      have post: "dfs_post edges (producers_of edges node) ?st ?r"
      proof (rule each_post [OF _ inv refl])
        fix y s assume y: "y \<in> set (producers_of edges node)" and s: "dfs_inv edges s"
          and st: "dfs_stack s = dfs_stack ?st"
        from y have edge: "(node, y) \<in> set edges" by simp
        then have "y \<in> set nodes" using Suc.prems(3) by force
        moreover have "edge_path edges (dfs_stack s @ [y])"
          using st edge Suc.prems(4) by (simp add: edge_path_snoc [of "dfs_stack st @ [node]", simplified])
        ultimately show "dfs_post edges [y] s (visit n edges y s)"
          using Suc.IH [OF s _ Suc.prems(3)] fuel st by simp
      qed
      show ?thesis
      proof (cases ?r)
        case (Done st')
        with post have st': "dfs_inv edges st'" "dfs_stack st' = dfs_stack st @ [node]"
          "set (visited st) \<subseteq> set (visited st')" "{p. (node, p) \<in> set edges} \<subseteq> set (visited st')"
          by auto
        have out: "node \<notin> set (visited st')" using st'(1,2) by (auto simp: dfs_inv_def)
        have "(node, node) \<notin> (set edges)\<^sup>+"
        proof
          assume "(node, node) \<in> (set edges)\<^sup>+"
          then obtain y where y: "(node, y) \<in> set edges" "(y, node) \<in> (set edges)\<^sup>*"
            by (meson tranclD)
          then have "node \<in> set (visited st')"
            using st'(1,4) by (intro closed_reach [OF y(2)]) (auto simp: dfs_inv_def)
          with out show False by simp
        qed
        with st' fresh out Suc.prems(1) show ?thesis
          using False unvisited Done by (auto simp: dfs_inv_def)
      qed (use post False unvisited in auto)
    qed
  qed
qed simp

lemma search_cycle_post: "dfs_post edges (sorted_set (edge_nodes edges)) dfs_start (search_cycle edges)"
proof -
  let ?nodes = "sorted_set (edge_nodes edges)"
  have "dfs_post edges ?nodes dfs_start (each (visit (Suc (length ?nodes)) edges) ?nodes dfs_start)"
  proof (rule each_post [where s = "[]"])
    fix x and st :: "'a dfs_state"
    assume x: "x \<in> set ?nodes" and st: "dfs_inv edges st" "dfs_stack st = []"
    have "card (set ?nodes - set (dfs_stack st)) < Suc (length ?nodes)"
      using st(2) by (simp add: card_length less_Suc_eq_le del: sorted_set_props(1))
    with x st show "dfs_post edges [x] st (visit (Suc (length ?nodes)) edges x st)"
      by (intro visit_post [where nodes = ?nodes]) auto
  qed (simp_all add: dfs_inv_def dfs_start_def)
  then show ?thesis by (simp add: search_cycle_def Let_def)
qed

lemma cycle_search_verdict:
  "search_cycle edges \<noteq> OutOfFuel
   \<and> (case find_dependency_cycle edges of
        Some c \<Rightarrow> is_cycle edges c \<and> \<not> acyclic_edges edges
      | None \<Rightarrow> acyclic_edges edges)"
proof (cases "search_cycle edges")
  case OutOfFuel
  with search_cycle_post [of edges] show ?thesis by simp
next
  case (Cycle c)
  with search_cycle_post [of edges] is_cycle_not_acyclic show ?thesis
    by (auto simp: find_dependency_cycle_def)
next
  case (Done st)
  with search_cycle_post [of edges]
  have inv: "dfs_inv edges st" and all: "fst ` set edges \<union> snd ` set edges \<subseteq> set (visited st)"
    by auto
  have "(x, x) \<notin> (set edges)\<^sup>+" for x
  proof
    assume x: "(x, x) \<in> (set edges)\<^sup>+"
    then obtain y where "(x, y) \<in> set edges" by (meson tranclD)
    with all have "x \<in> set (visited st)" by force
    with x inv show False by (auto simp: dfs_inv_def)
  qed
  then show ?thesis using Done by (simp add: find_dependency_cycle_def acyclic_edges_def acyclic_def)
qed

lemma find_cycle_None_iff: "find_dependency_cycle edges = None \<longleftrightarrow> acyclic_edges edges"
  using cycle_search_verdict [of edges] by (cases "find_dependency_cycle edges") auto

lemma find_cycle_Some: "find_dependency_cycle edges = Some c \<Longrightarrow> is_cycle edges c"
  using cycle_search_verdict [of edges] by auto

text \<open>
  C28: the search never runs out of fuel, returns a real cycle of the edges when it returns
  one, and returns none exactly when the dependency graph is acyclic.
\<close>
theorem find_dependency_cycle_correct:
  "search_cycle edges \<noteq> OutOfFuel
   \<and> (case find_dependency_cycle edges of
        Some c \<Rightarrow> is_cycle edges c \<and> \<not> acyclic_edges edges
      | None \<Rightarrow> acyclic_edges edges)"
  by (rule cycle_search_verdict)


section \<open>Producers before dependents\<close>

record 'a kahn_state =
  kahn_ready :: "'a list"
  kahn_order :: "'a list"
  kahn_indegree :: "'a \<Rightarrow> int"

definition consumers_of :: "('a::linorder \<times> 'a) list \<Rightarrow> 'a \<Rightarrow> 'a list" where
  "consumers_of edges n = sorted_set (map fst (filter (\<lambda>(d, p). p = n) edges))"

definition kahn_nodes :: "'a::linorder list \<Rightarrow> ('a \<times> 'a) list \<Rightarrow> 'a list" where
  "kahn_nodes nodes edges = sorted_set (nodes @ edge_nodes edges)"

text \<open>Parallel edges count once: the code only counts a dependent it has not yet recorded.\<close>

definition indegree :: "('a::linorder \<times> 'a) list \<Rightarrow> 'a \<Rightarrow> int" where
  "indegree edges n = int (length (producers_of edges n))"

definition release :: "'a \<Rightarrow> 'a kahn_state \<Rightarrow> 'a kahn_state" where
  "release c st =
     (let d = kahn_indegree st c - 1
      in st\<lparr>kahn_indegree := (kahn_indegree st)(c := d),
            kahn_ready := kahn_ready st @ (if d = 0 then [c] else [])\<rparr>)"

text \<open>One round of \<open>while ready\<close>, and the loop with a bound on its rounds.\<close>

definition kahn_round :: "('a::linorder \<times> 'a) list \<Rightarrow> 'a kahn_state \<Rightarrow> 'a kahn_state" where
  "kahn_round edges st = (case kahn_ready st of
       [] \<Rightarrow> st
     | n # rest \<Rightarrow> fold release (consumers_of edges n)
                  (st\<lparr>kahn_ready := rest, kahn_order := kahn_order st @ [n]\<rparr>))"

primrec kahn_loop :: "nat \<Rightarrow> ('a::linorder \<times> 'a) list \<Rightarrow> 'a kahn_state \<Rightarrow> 'a kahn_state option" where
  "kahn_loop 0 edges st = None"
| "kahn_loop (Suc k) edges st =
     (if kahn_ready st = [] then Some st else kahn_loop k edges (kahn_round edges st))"

definition kahn_start :: "'a::linorder list \<Rightarrow> ('a \<times> 'a) list \<Rightarrow> 'a kahn_state" where
  "kahn_start nodes edges =
     \<lparr>kahn_ready = filter (\<lambda>n. indegree edges n = 0) (kahn_nodes nodes edges),
      kahn_order = [], kahn_indegree = indegree edges\<rparr>"

definition topological_dependency_order ::
  "'a::linorder list \<Rightarrow> ('a \<times> 'a) list \<Rightarrow> 'a list option" where
  "topological_dependency_order nodes edges =
     (let all_nodes = kahn_nodes nodes edges
      in map_option (\<lambda>st. if length (kahn_order st) = length all_nodes then kahn_order st else [])
           (kahn_loop (Suc (length all_nodes)) edges (kahn_start nodes edges)))"

definition producers_first :: "('a \<times> 'a) list \<Rightarrow> 'a list \<Rightarrow> bool" where
  "producers_first edges xs \<longleftrightarrow>
     (\<forall>d p. (d, p) \<in> set edges \<longrightarrow> d \<in> set xs \<longrightarrow> before_in xs p d)"

lemma set_consumers_of [simp]: "set (consumers_of edges n) = {d. (d, n) \<in> set edges}"
  by (force simp: consumers_of_def)

lemma distinct_consumers_of [simp]: "distinct (consumers_of edges n)"
  by (simp add: consumers_of_def)

lemma set_kahn_nodes [simp]:
  "set (kahn_nodes nodes edges) = set nodes \<union> fst ` set edges \<union> snd ` set edges"
  by (auto simp: kahn_nodes_def)

lemma indegree_card: "indegree edges n = int (card {p. (n, p) \<in> set edges})"
proof -
  have "distinct (producers_of edges n)" by (simp add: producers_of_def)
  then show ?thesis
    unfolding indegree_def by (metis distinct_card set_producers_of)
qed

lemma fold_release:
  assumes "distinct cs"
  shows "kahn_indegree (fold release cs st)
      = (\<lambda>c. if c \<in> set cs then kahn_indegree st c - 1 else kahn_indegree st c)"
    and "kahn_ready (fold release cs st)
      = kahn_ready st @ filter (\<lambda>c. kahn_indegree st c = 1) cs"
    and "kahn_order (fold release cs st) = kahn_order st"
  using assms
proof (induction cs arbitrary: st)
  case (Cons c cs)
  {
    case 1
    with Cons.IH(1) show ?case by (auto simp: release_def Let_def fun_eq_iff)
  next
    case 2
    then have "filter (\<lambda>x. kahn_indegree (release c st) x = 1) cs
        = filter (\<lambda>x. kahn_indegree st x = 1) cs"
      by (intro filter_cong) (auto simp: release_def Let_def)
    with 2 Cons.IH(2) [of "release c st"] show ?case by (simp add: release_def Let_def)
  next
    case 3
    with Cons.IH(3) show ?case by (simp add: release_def Let_def)
  }
qed simp_all

definition kahn_inv :: "'a set \<Rightarrow> ('a \<times> 'a) set \<Rightarrow> 'a kahn_state \<Rightarrow> bool" where
  "kahn_inv N E st \<longleftrightarrow>
     (\<forall>n. kahn_indegree st n = int (card {p. (n, p) \<in> E \<and> p \<notin> set (kahn_order st)}))
     \<and> distinct (kahn_order st @ kahn_ready st)
     \<and> set (kahn_order st @ kahn_ready st) = {n \<in> N. kahn_indegree st n = 0}
     \<and> (\<forall>d p. (d, p) \<in> E \<longrightarrow> d \<in> set (kahn_order st) \<longrightarrow> before_in (kahn_order st) p d)"

lemma kahn_invD:
  assumes "kahn_inv N E st"
  shows "kahn_indegree st n = int (card {p. (n, p) \<in> E \<and> p \<notin> set (kahn_order st)})"
    and "set (kahn_order st @ kahn_ready st) = {n \<in> N. kahn_indegree st n = 0}"
  using assms unfolding kahn_inv_def by blast+

lemma kahn_start_inv:
  "kahn_inv (set (kahn_nodes nodes edges)) (set edges) (kahn_start nodes edges)"
  by (auto simp: kahn_inv_def kahn_start_def indegree_card) (simp add: kahn_nodes_def)

lemma kahn_round_inv:
  assumes inv: "kahn_inv N (set edges) st" and ne: "kahn_ready st = n # rest"
    and N: "fst ` set edges \<union> snd ` set edges \<subseteq> N"
  shows "kahn_inv N (set edges) (kahn_round edges st)"
    and "length (kahn_order (kahn_round edges st)) = Suc (length (kahn_order st))"
proof -
  let ?E = "set edges" and ?cs = "consumers_of edges n"
  let ?st = "st\<lparr>kahn_ready := rest, kahn_order := kahn_order st @ [n]\<rparr>"
  let ?deg = "\<lambda>m. card {p. (m, p) \<in> ?E \<and> p \<notin> set (kahn_order st)}"
  have fin: "finite {p. (m, p) \<in> ?E \<and> P p}" for m P
    by (rule finite_subset [of _ "snd ` ?E"]) force+
  have deg: "kahn_indegree st m = int (?deg m)" for m using inv by (simp add: kahn_inv_def)
  have fresh: "n \<notin> set (kahn_order st)" using inv ne by (simp add: kahn_inv_def)
  have round: "kahn_round edges st = fold release ?cs ?st" by (simp add: kahn_round_def ne)
  note fold = fold_release [OF distinct_consumers_of [of edges n], of ?st]
  have split: "{p. (m, p) \<in> ?E \<and> p \<notin> set (kahn_order st)}
      = (if (m, n) \<in> ?E then insert n {p. (m, p) \<in> ?E \<and> p \<notin> set (kahn_order st @ [n])}
         else {p. (m, p) \<in> ?E \<and> p \<notin> set (kahn_order st @ [n])})" for m
    using fresh by auto
  have deg': "kahn_indegree (kahn_round edges st) m
      = int (card {p. (m, p) \<in> ?E \<and> p \<notin> set (kahn_order st @ [n])})" for m
  proof (cases "(m, n) \<in> ?E")
    case True
    have "?deg m = Suc (card {p. (m, p) \<in> ?E \<and> p \<notin> set (kahn_order st @ [n])})"
      using True by (subst split) (simp add: fin)
    with True deg [of m] show ?thesis by (simp add: round fold(1))
  next
    case False
    with deg [of m] split [of m] show ?thesis by (simp add: round fold(1))
  qed
  have zero: "kahn_indegree st m = 0 \<longleftrightarrow> (\<forall>p. (m, p) \<in> ?E \<longrightarrow> p \<in> set (kahn_order st))" for m
    using deg [of m] fin [of m] by auto
  have old: "m \<in> set (kahn_order st @ n # rest) \<longleftrightarrow> m \<in> N \<and> kahn_indegree st m = 0" for m
    using inv ne by (auto simp: kahn_inv_def)
  have ready: "kahn_ready (kahn_round edges st) = rest @ filter (\<lambda>c. kahn_indegree st c = 1) ?cs"
    and order: "kahn_order (kahn_round edges st) = kahn_order st @ [n]"
    by (simp_all add: round fold)
  have indeg: "kahn_indegree (kahn_round edges st) m
      = (if (m, n) \<in> ?E then kahn_indegree st m - 1 else kahn_indegree st m)" for m
    by (simp add: round fold)
  have no_edge: "(m, n) \<notin> ?E" if "kahn_indegree st m = 0" for m
    using zero [of m] that fresh by blast
  have set': "set (kahn_order st @ [n] @ rest @ filter (\<lambda>c. kahn_indegree st c = 1) ?cs)
      = {m \<in> N. kahn_indegree (kahn_round edges st) m = 0}"
  proof (rule set_eqI)
    fix m
    show "m \<in> set (kahn_order st @ [n] @ rest @ filter (\<lambda>c. kahn_indegree st c = 1) ?cs)
        \<longleftrightarrow> m \<in> {m \<in> N. kahn_indegree (kahn_round edges st) m = 0}"
      using old [of m] no_edge [of m] N by (auto simp: indeg)
  qed
  have dist: "distinct (kahn_order st @ [n] @ rest @ filter (\<lambda>c. kahn_indegree st c = 1) ?cs)"
    using inv ne old by (fastforce simp: kahn_inv_def)
  have before: "before_in (kahn_order st @ [n]) p d"
    if "(d, p) \<in> ?E" "d \<in> set (kahn_order st @ [n])" for d p
  proof (cases "d \<in> set (kahn_order st)")
    case True
    with inv that(1) show ?thesis by (auto simp: kahn_inv_def intro: before_in_snoc)
  next
    case False
    with that(2) have "d = n" by simp
    moreover have "kahn_indegree st n = 0" using old [of n] by simp
    ultimately show ?thesis using zero [of n] that(1) by (auto intro: before_in_last)
  qed
  show "kahn_inv N ?E (kahn_round edges st)"
    unfolding kahn_inv_def using deg' set' dist before by (simp add: ready order)
  show "length (kahn_order (kahn_round edges st)) = Suc (length (kahn_order st))"
    by (simp add: order)
qed

lemma kahn_loop_inv:
  assumes "kahn_inv (set nodes) (set edges) st" and "fst ` set edges \<union> snd ` set edges \<subseteq> set nodes"
    and "distinct nodes" and "length nodes < k + length (kahn_order st)"
  shows "\<exists>st'. kahn_loop k edges st = Some st' \<and> kahn_inv (set nodes) (set edges) st'
    \<and> kahn_ready st' = []"
  using assms
proof (induction k arbitrary: st)
  case 0
  have "distinct (kahn_order st)" "set (kahn_order st) \<subseteq> set nodes"
    using 0(1) by (auto simp: kahn_inv_def)
  then have "length (kahn_order st) \<le> length nodes"
    using \<open>distinct nodes\<close> by (metis card_mono distinct_card finite_set)
  with 0 show ?case by simp
next
  case (Suc k)
  show ?case
  proof (cases "kahn_ready st")
    case Nil
    with Suc.prems show ?thesis by simp
  next
    case (Cons n rest)
    note step = kahn_round_inv [OF Suc.prems(1) Cons Suc.prems(2)]
    from Suc.prems Cons step show ?thesis
      using Suc.IH [OF step(1)] by simp
  qed
qed

text \<open>The list the queue loop leaves behind, for the contract of \<^theory_text>\<open>producer_scan\<close>.\<close>

definition kahn_scan :: "'a::linorder list \<times> ('a \<times> 'a) list \<Rightarrow> 'a list" where
  "kahn_scan g = (case kahn_loop (Suc (length (kahn_nodes (fst g) (snd g)))) (snd g) (kahn_start (fst g) (snd g)) of
       None \<Rightarrow> [] | Some st \<Rightarrow> kahn_order st)"

lemma kahn_finishes:
  obtains st where "kahn_loop (Suc (length (kahn_nodes nodes edges))) edges (kahn_start nodes edges) = Some st"
    "kahn_scan (nodes, edges) = kahn_order st"
    "kahn_inv (set (kahn_nodes nodes edges)) (set edges) st" "kahn_ready st = []"
proof -
  let ?N = "kahn_nodes nodes edges"
  have dN: "distinct ?N" by (simp add: kahn_nodes_def)
  have sub: "fst ` set edges \<union> snd ` set edges \<subseteq> set ?N" by auto
  have bound: "length ?N < Suc (length ?N) + length (kahn_order (kahn_start nodes edges))" by simp
  obtain st where st: "kahn_loop (Suc (length ?N)) edges (kahn_start nodes edges) = Some st"
    "kahn_inv (set ?N) (set edges) st" "kahn_ready st = []"
    using kahn_loop_inv [OF kahn_start_inv sub dN bound] by blast
  moreover have "kahn_scan (nodes, edges) = kahn_order st"
    using st(1) unfolding kahn_scan_def fst_conv snd_conv by simp
  ultimately show thesis using that by blast
qed

lemma kahn_scan_facts:
  assumes "N = set (kahn_nodes nodes edges)" and "xs = kahn_scan (nodes, edges)"
  shows "distinct xs" and "set xs \<subseteq> N"
    and "(d, p) \<in> set edges \<Longrightarrow> d \<in> set xs \<Longrightarrow> before_in xs p d"
    and "n \<in> N \<Longrightarrow> n \<notin> set xs \<Longrightarrow> \<exists>p. (n, p) \<in> set edges \<and> p \<notin> set xs"
proof -
  obtain st where st: "kahn_scan (nodes, edges) = kahn_order st"
    "kahn_inv (set (kahn_nodes nodes edges)) (set edges) st" "kahn_ready st = []"
    by (rule kahn_finishes)
  have inv: "kahn_inv N (set edges) st" and xs: "xs = kahn_order st" using assms st by simp_all
  note deg = kahn_invD(1) [OF inv]
  have mem: "set xs = {n \<in> N. kahn_indegree st n = 0}"
    using kahn_invD(2) [OF inv] by (simp add: st(3) xs)
  show "distinct xs" using inv by (simp add: kahn_inv_def xs)
  show "set xs \<subseteq> N" using mem by blast
  show "(d, p) \<in> set edges \<Longrightarrow> d \<in> set xs \<Longrightarrow> before_in xs p d" using inv by (simp add: kahn_inv_def xs)
  assume n: "n \<in> N" "n \<notin> set xs"
  then have "kahn_indegree st n \<noteq> 0" using mem by blast
  with deg [of n] have "{p. (n, p) \<in> set edges \<and> p \<notin> set (kahn_order st)} \<noteq> {}" by force
  then show "\<exists>p. (n, p) \<in> set edges \<and> p \<notin> set xs" by (auto simp: xs)
qed

interpretation refresh: producer_scan "\<lambda>_. True" "\<lambda>g. set (kahn_nodes (fst g) (snd g))" "\<lambda>g. set (snd g)" kahn_scan
proof (unfold_locales, goal_cases)
  case (2 g)
  show ?case using kahn_scan_facts(2) [OF refl refl, of "fst g" "snd g"] by simp
next
  case (3 g d p)
  then show ?case by force
next
  case (4 g)
  show ?case using kahn_scan_facts(1) [OF refl refl, of "fst g" "snd g"] by simp
next
  case (5 g d p)
  then show ?case using kahn_scan_facts(3) [OF refl refl, of d p "snd g" "fst g"] by simp
next
  case (6 g n)
  then show ?case using kahn_scan_facts(4) [OF refl refl, of n "fst g" "snd g"] by simp
qed simp

lemma topological_order_cases:
  obtains ord where "topological_dependency_order nodes edges = Some ord"
    "distinct ord" "set ord = set (kahn_nodes nodes edges)" "producers_first edges ord"
    "acyclic_edges edges"
  | "topological_dependency_order nodes edges = Some []" "\<not> acyclic_edges edges"
proof -
  let ?g = "(nodes, edges)" and ?N = "kahn_nodes nodes edges"
  obtain st where st: "kahn_loop (Suc (length ?N)) edges (kahn_start nodes edges) = Some st"
    "kahn_scan ?g = kahn_order st"
    by (rule kahn_finishes)
  then have run: "topological_dependency_order nodes edges
      = Some (if length (kahn_scan ?g) = length ?N then kahn_scan ?g else [])"
    by (simp add: topological_dependency_order_def Let_def)
  have "distinct ?N" by (simp add: kahn_nodes_def)
  then have "length ?N = card (set ?N)" by (rule distinct_card [symmetric])
  then have len: "length (kahn_scan ?g) = length ?N \<longleftrightarrow> acyclic_edges edges"
    using refresh.length_iff [where g = ?g] by (simp only: fst_conv snd_conv acyclic_edges_def)
  show thesis
  proof (cases "acyclic_edges edges")
    case True
    then have "set (kahn_scan ?g) = set ?N"
      using refresh.complete_iff [where g = ?g] by (simp only: fst_conv snd_conv acyclic_edges_def)
    moreover have "producers_first edges (kahn_scan ?g)"
      using refresh.first [where g = ?g] by (simp add: producers_first_def)
    ultimately show thesis using True len run refresh.once [where g = ?g] by (intro that(1)) simp_all
  next
    case False
    with len run show thesis by (intro that(2)) simp_all
  qed
qed

text \<open>
  C29: the refresh order never runs out of rounds; on an acyclic graph it lists every node once
  with each producer before its dependents, and on a cyclic one it is empty.
\<close>
theorem topological_order_correct:
  "\<exists>ord. topological_dependency_order nodes edges = Some ord
     \<and> (if acyclic_edges edges
        then distinct ord \<and> set ord = set nodes \<union> fst ` set edges \<union> snd ` set edges
             \<and> producers_first edges ord
        else ord = [])"
  by (rule topological_order_cases [of nodes edges]) auto

end
