(* ===== verification/RegState.thy ===== *)
theory RegState
  imports Models DepGraph
begin

text \<open>
  The state of \<open>core/registry.py\<close>: one record field per SQL table, a table being the list of
  its rows in insertion order. Rows hold the values their JSON columns decode to. A handler
  is one \<open>BEGIN IMMEDIATE\<close> transaction: it returns the committed state, or an error and then
  the state it started from stays, as the ROLLBACK does.

  Times are numbers of microseconds, in JSON too: the ISO texts the code compares are ordered
  like the instants. Every clock reading is an argument, so that two readings of one
  transaction may differ. The \<open>occurred_at\<close> column of the event log, which nothing reads, is
  left out.
\<close>


section \<open>Runtime fences and recoveries\<close>

record runtime_fence =
  fn_id :: string
  fn_intent :: string
  fn_producer :: "string option"
  fn_reason :: string
  fn_keys :: "string list"
  fn_chain :: "string list"
  fn_instance :: "string option"
  fn_root :: "string option"
  fn_token :: "int option"
  fn_status :: string
  fn_created :: int
  fn_metadata :: metadata

datatype registry_error =
    ModelErr model_error
  | EvaluatorRaised string
  | UnknownIntent string
  | ContentDiffers string
  | StaleVersion int int
  | BadState intent_state
  | OwnerChanged
  | BadArgument string
  | NoMatch string
  | IntegrityError string
  | RuntimeRefused string
  | UnknownSession string
  | UnknownBroker string
  | UnknownOperation string
  | UnknownNotice nat
  | BrokerRefused string
  | LoopBound

definition clean_list :: "string list \<Rightarrow> string list" where
  "clean_list xs = filter (\<lambda>s. s \<noteq> []) (map strip xs)"

definition strip_opt :: "string option \<Rightarrow> string option" where
  "strip_opt v = (case v of None \<Rightarrow> None
     | Some s \<Rightarrow> if strip s = [] then None else Some (strip s))"

definition fence_post_init :: "runtime_fence \<Rightarrow> registry_error + runtime_fence" where
  "fence_post_init f =
     (if strip (fn_id f) = [] then Inl (ModelErr (EmptyField ''fence_id''))
      else if strip (fn_intent f) = [] then Inl (ModelErr (EmptyField ''intent_id''))
      else if strip (fn_reason f) = [] then Inl (ModelErr (EmptyField ''reason''))
      else if strip (fn_status f) = [] then Inl (ModelErr (EmptyField ''status''))
      else if (case fn_token f of Some t \<Rightarrow> t \<le> 0 | None \<Rightarrow> False)
      then Inl (BadArgument ''fencing_token must be positive when present'')
      else Inr (f\<lparr>fn_id := strip (fn_id f), fn_intent := strip (fn_intent f),
                 fn_producer := strip_opt (fn_producer f), fn_reason := strip (fn_reason f),
                 fn_keys := sorted_set (clean_list (fn_keys f)),
                 fn_chain := clean_list (fn_chain f), fn_status := strip (fn_status f)\<rparr>))"

definition jint_opt :: "int option \<Rightarrow> json" where
  "jint_opt v = (case v of None \<Rightarrow> JNull | Some i \<Rightarrow> JInt i)"

definition fence_dict :: "runtime_fence \<Rightarrow> json" where
  "fence_dict f = JObj
     [(''protocol'', JStr ''claim-plane.runtime-fence.v1''),
      (''fence_id'', JStr (fn_id f)), (''intent_id'', JStr (fn_intent f)),
      (''producer_intent_id'', jopt (fn_producer f)), (''reason'', JStr (fn_reason f)),
      (''resource_keys'', jstrs (fn_keys f)), (''dependency_chain'', jstrs (fn_chain f)),
      (''broker_instance_id'', jopt (fn_instance f)), (''root_path'', jopt (fn_root f)),
      (''fencing_token'', jint_opt (fn_token f)), (''status'', JStr (fn_status f)),
      (''created_at'', JInt (fn_created f)), (''metadata'', JObj (fn_metadata f))]"

datatype recovery_state = RC_REFRESHED | RC_RESUMED

record runtime_recovery =
  rc_id :: string
  rc_intent :: string
  rc_state :: recovery_state
  rc_from_base :: "string option"
  rc_to_base :: string
  rc_old_content :: int
  rc_new_content :: int
  rc_old_fingerprint :: string
  rc_new_fingerprint :: string
  rc_fences :: "string list"
  rc_producers :: "(string \<times> int) list"
  rc_created :: int
  rc_resumed :: "int option"
  rc_metadata :: metadata

definition recovery_post_init :: "runtime_recovery \<Rightarrow> registry_error + runtime_recovery" where
  "recovery_post_init r =
     (if strip (rc_id r) = [] then Inl (ModelErr (EmptyField ''recovery_id''))
      else if strip (rc_intent r) = [] then Inl (ModelErr (EmptyField ''intent_id''))
      else if strip (rc_to_base r) = [] then Inl (ModelErr (EmptyField ''to_base_commit''))
      else if strip (rc_old_fingerprint r) = [] then Inl (ModelErr (EmptyField ''old_fingerprint''))
      else if strip (rc_new_fingerprint r) = [] then Inl (ModelErr (EmptyField ''new_fingerprint''))
      else if rc_old_content r \<le> 0 \<or> rc_new_content r \<le> 0
      then Inl (BadArgument ''content versions must be positive'')
      else if rc_new_content r \<le> rc_old_content r
      then Inl (BadArgument ''new_content_version must advance old_content_version'')
      else
        let producers = sort_key fst (filter (\<lambda>(k, _). k \<noteq> [])
              (map (\<lambda>(k, v). (strip k, v)) (rc_producers r)))
        in if list_ex (\<lambda>(_, v). v \<le> 0) producers
           then Inl (BadArgument ''producer versions must be positive'')
           else if rc_state r = RC_RESUMED \<and> rc_resumed r = None
           then Inl (BadArgument ''resumed recovery requires resumed_at'')
           else Inr (r\<lparr>rc_id := strip (rc_id r), rc_intent := strip (rc_intent r),
                      rc_from_base := strip_opt (rc_from_base r), rc_to_base := strip (rc_to_base r),
                      rc_old_fingerprint := strip (rc_old_fingerprint r),
                      rc_new_fingerprint := strip (rc_new_fingerprint r),
                      rc_fences := sorted_set (clean_list (rc_fences r)),
                      rc_producers := producers\<rparr>))"

fun recovery_value :: "recovery_state \<Rightarrow> string" where
  "recovery_value RC_REFRESHED = ''refreshed''"
| "recovery_value RC_RESUMED = ''resumed''"

definition recovery_dict :: "runtime_recovery \<Rightarrow> json" where
  "recovery_dict r = JObj
     [(''protocol'', JStr ''claim-plane.runtime-recovery.v1''),
      (''recovery_id'', JStr (rc_id r)), (''intent_id'', JStr (rc_intent r)),
      (''state'', JStr (recovery_value (rc_state r))),
      (''from_base_commit'', jopt (rc_from_base r)), (''to_base_commit'', JStr (rc_to_base r)),
      (''old_content_version'', JInt (rc_old_content r)),
      (''new_content_version'', JInt (rc_new_content r)),
      (''old_fingerprint'', JStr (rc_old_fingerprint r)),
      (''new_fingerprint'', JStr (rc_new_fingerprint r)),
      (''fence_ids'', jstrs (rc_fences r)),
      (''producer_versions'', JObj (map (\<lambda>(k, v). (k, JInt v)) (rc_producers r))),
      (''created_at'', JInt (rc_created r)), (''resumed_at'', jint_opt (rc_resumed r)),
      (''metadata'', JObj (rc_metadata r))]"


section \<open>Rows\<close>

record intent_row =
  ir_id :: string
  ir_task :: string
  ir_owner :: string
  ir_base_revision :: string
  ir_state :: intent_state
  ir_fingerprint :: string
  ir_payload :: change_intent
  ir_admission :: admission_decision
  ir_created :: int
  ir_updated :: int
  ir_lease :: int
  ir_version :: int
  ir_content :: int

datatype dep_kind = DK_EXPLICIT | DK_PREMISE
datatype dep_status = DS_ACTIVE | DS_STALE | DS_MISSING

record dep_row =
  dr_intent :: string
  dr_producer :: string
  dr_kind :: dep_kind
  dr_key :: string
  dr_status :: dep_status
  dr_created :: int
  dr_updated :: int

record notice_row =
  nr_id :: nat
  nr_recipient :: string
  nr_producer :: string
  nr_type :: string
  nr_key :: string
  nr_pending :: bool
  nr_payload :: json
  nr_created :: int
  nr_acknowledged :: "int option"

record event_row =
  ev_type :: string
  ev_intent :: "string option"
  ev_owner :: "string option"
  ev_payload :: json

datatype session_state = SS_OPEN | SS_SEALED

record session_row =
  sn_id :: string
  sn_intent :: string
  sn_monitor :: string
  sn_key_id :: string
  sn_coverage :: string
  sn_tools :: "string list"
  sn_state :: session_state
  sn_complete :: bool
  sn_count :: nat
  sn_head :: string
  sn_started :: int
  sn_sealed :: "int option"
  sn_attestation :: "metadata option"
  sn_broker :: "string option"
  sn_broker_attestation :: "metadata option"

record obs_row =
  ob_session :: string
  ob_seq :: nat
  ob_at :: json
  ob_access :: json
  ob_prev :: string
  ob_hash :: string
  ob_hmac :: string

datatype broker_state = BK_ACTIVE | BK_FENCED | BK_EXPIRED | BK_STOPPED

record broker_row =
  bk_id :: string
  bk_intent :: string
  bk_content :: int
  bk_fingerprint :: string
  bk_session :: string
  bk_monitor :: string
  bk_key_id :: string
  bk_root :: string
  bk_repo :: string
  bk_base :: string
  bk_initial_tree :: string
  bk_tree :: string
  bk_lease_seconds :: int
  bk_token :: int
  bk_policy :: metadata
  bk_policy_digest :: string
  bk_binary :: string
  bk_state :: broker_state
  bk_started :: int
  bk_seen :: int
  bk_stopped :: "int option"
  bk_attestation :: metadata

record lease_row =
  ls_root :: string
  ls_repo :: string
  ls_intent :: string
  ls_instance :: string
  ls_acquired :: int
  ls_renewed :: int
  ls_expires :: int
  ls_token :: int

datatype op_state = OP_PENDING | OP_COMMITTED | OP_FAILED | OP_ROLLED_BACK

record op_row =
  po_id :: string
  po_instance :: string
  po_request :: string
  po_operation :: string
  po_mode :: access_mode
  po_path :: string
  po_target :: "string option"
  po_state :: op_state
  po_payload :: metadata
  po_response :: "metadata option"
  po_prepared :: int
  po_committed :: "int option"
  po_error :: "string option"
  po_start_seq :: "nat option"
  po_end_seq :: "nat option"
  po_pre_tree :: "string option"
  po_post_tree :: "string option"
  po_prepare_hmac :: string
  po_commit_hmac :: "string option"
  po_token :: int

record registry =
  rg_intents :: "intent_row list"
  rg_deps :: "dep_row list"
  rg_notices :: "notice_row list"
  rg_events :: "event_row list"
  rg_fences :: "runtime_fence list"
  rg_recoveries :: "runtime_recovery list"
  rg_sessions :: "session_row list"
  rg_observations :: "obs_row list"
  rg_brokers :: "broker_row list"
  rg_leases :: "lease_row list"
  rg_counters :: "(string \<times> int) list"
  rg_ops :: "op_row list"

definition empty_registry :: registry where
  "empty_registry = \<lparr>rg_intents = [], rg_deps = [], rg_notices = [], rg_events = [],
     rg_fences = [], rg_recoveries = [], rg_sessions = [], rg_observations = [],
     rg_brokers = [], rg_leases = [], rg_counters = [], rg_ops = []\<rparr>"


section \<open>Clock readings\<close>

text \<open>
  The readings one transaction takes, in order: the stamp and the cut-off of the expiry
  sweep, the cut-off of the query for active intents, the time of the write, the base of the
  new lease, the stamp of the dependency rows, the stamp of an invalidation and, for each
  intent it fences, the time of its fence.
\<close>

record readings =
  rd_stamp :: int
  rd_sweep :: int
  rd_query :: int
  rd_now :: int
  rd_future :: int
  rd_edges :: int
  rd_invalidate :: int
  rd_fence :: "string \<Rightarrow> int"

definition lease_until :: "int \<Rightarrow> int \<Rightarrow> int" where
  "lease_until t seconds = t + seconds * 1000000"


section \<open>Intent rows\<close>

definition live_state :: "intent_state \<Rightarrow> bool" where
  "live_state s = (s = S_ADMITTED \<or> s = S_ACTIVE)"

definition known_state :: "intent_state \<Rightarrow> bool" where
  "known_state s = (s = S_ADMITTED \<or> s = S_ACTIVE \<or> s = S_COMPLETED)"

definition find_intent :: "registry \<Rightarrow> string \<Rightarrow> intent_row option" where
  "find_intent st iid = find_row ir_id iid (rg_intents st)"

definition intent_row_update ::
  "string \<Rightarrow> (intent_row \<Rightarrow> intent_row) \<Rightarrow> registry \<Rightarrow> registry" where
  "intent_row_update iid f st =
     st\<lparr>rg_intents := update_rows (\<lambda>r. ir_id r = iid) f (rg_intents st)\<rparr>"

text \<open>\<open>UPDATE intents SET state=?,updated_at=?,version=version+1\<close>.\<close>

definition set_state :: "intent_state \<Rightarrow> int \<Rightarrow> intent_row \<Rightarrow> intent_row" where
  "set_state s now r = r\<lparr>ir_state := s, ir_updated := now, ir_version := ir_version r + 1\<rparr>"

lemma set_state_simps [simp]:
  "ir_id (set_state s t r) = ir_id r" "ir_state (set_state s t r) = s"
  "ir_payload (set_state s t r) = ir_payload r" "ir_owner (set_state s t r) = ir_owner r"
  "ir_fingerprint (set_state s t r) = ir_fingerprint r" "ir_content (set_state s t r) = ir_content r"
  "ir_version (set_state s t r) = ir_version r + 1" "ir_lease (set_state s t r) = ir_lease r"
  "ir_created (set_state s t r) = ir_created r" "ir_admission (set_state s t r) = ir_admission r"
  by (simp_all add: set_state_def)

definition log_event :: "string \<Rightarrow> string option \<Rightarrow> string option \<Rightarrow> json \<Rightarrow> registry \<Rightarrow> registry" where
  "log_event ty iid owner payload st = st\<lparr>rg_events := rg_events st
     @ [\<lparr>ev_type = ty, ev_intent = iid, ev_owner = owner, ev_payload = payload\<rparr>]\<rparr>"

definition expire_intents :: "readings \<Rightarrow> registry \<Rightarrow> registry" where
  "expire_intents rd st = st\<lparr>rg_intents :=
     update_rows (\<lambda>r. live_state (ir_state r) \<and> ir_lease r \<le> rd_sweep rd)
       (set_state S_EXPIRED (rd_stamp rd)) (rg_intents st)\<rparr>"

definition known_intent_ids :: "registry \<Rightarrow> string list" where
  "known_intent_ids st = map ir_id (filter (known_state \<circ> ir_state) (rg_intents st))"

definition active_rows :: "readings \<Rightarrow> string option \<Rightarrow> registry \<Rightarrow> intent_row list" where
  "active_rows rd exclude st =
     sort_key ir_created
       (filter (\<lambda>r. live_state (ir_state r) \<and> rd_query rd < ir_lease r
                   \<and> (case exclude of None \<Rightarrow> True | Some x \<Rightarrow> x = [] \<or> ir_id r \<noteq> x))
         (rg_intents st))"

definition active_intents :: "readings \<Rightarrow> string option \<Rightarrow> registry \<Rightarrow> change_intent list" where
  "active_intents rd exclude st = map ir_payload (active_rows rd exclude st)"

end
