(* ===== verification/RegDeps.thy ===== *)
theory RegDeps
  imports RegState
begin

text \<open>
  The dependency edges of \<open>core/registry.py\<close>: which edges an admission proposes, the cycle
  check on the graph they would give, their replacement in the table, and the resource keys an
  amendment changes. The set of proposed edges is iterated in the order of first insertion.
\<close>


section \<open>Resource keys\<close>

text \<open>\<open>resource.subject_key or resource.semantic_key\<close>.\<close>

definition premise_key :: "resource_ref \<Rightarrow> string" where
  "premise_key r = str_or (subject_key r) (semantic_key r)"

definition operation_resource_key :: "intent_operation \<Rightarrow> string" where
  "operation_resource_key op =
     (let r = op_resource op
      in if path_kind (rr_kind r)
         then kind_value (rr_kind r) @ '':'' @ rr_key r @ '':'' @ str_or (rr_region r) []
         else if rr_kind r = K_CONTRACT
         then ''contract:'' @ str_or (subject_key r) [] @ '':'' @ semantic_key r @ '':''
              @ str_or (rr_signature r) []
         else kind_value (rr_kind r) @ '':'' @ semantic_key r @ '':'' @ str_or (rr_signature r) [])"

definition changed_resource_keys :: "change_intent \<Rightarrow> change_intent \<Rightarrow> string list" where
  "changed_resource_keys old new =
     (let old_keys = set (map operation_resource_key (ci_operations old));
          new_keys = set (map operation_resource_key (ci_operations new));
          changed = (\<lambda>op. (operation_resource_key op \<in> old_keys) \<noteq> (operation_resource_key op \<in> new_keys))
      in sorted_set (filter (\<lambda>k. k \<noteq> [])
           (map (premise_key \<circ> op_resource)
              (filter changed (ci_operations old @ ci_operations new)))))"


section \<open>Proposed edges\<close>

type_synonym dep_edge = "string \<times> string \<times> dep_kind \<times> string"

definition premise_edge :: "change_intent \<Rightarrow> admission_conflict \<Rightarrow> dep_edge" where
  "premise_edge i c =
     (let inc = ac_incoming_operation c; ex = ac_existing_operation c;
          me = ci_intent_id i; other = ac_existing_intent_id c
      in if op_access inc = A_READ \<and> op_mutating ex
         then (me, other, DK_PREMISE, premise_key (op_resource inc))
         else if op_access ex = A_READ \<and> op_mutating inc
         then (other, me, DK_PREMISE, premise_key (op_resource ex))
         else (me, other, DK_PREMISE, premise_key (op_resource inc)))"

definition dependency_candidates :: "change_intent \<Rightarrow> admission_decision \<Rightarrow> dep_edge list" where
  "dependency_candidates i d =
     uniq (map (\<lambda>p. (ci_intent_id i, p, DK_EXPLICIT, [])) (ci_dependencies i)
       @ map (premise_edge i)
           (filter (\<lambda>c. ac_kind c = NOTIFY_ON_CHANGE \<or> ac_kind c = CONTRACT_DEPENDENCY)
             (ad_conflicts d)))"

definition edge_pair :: "dep_edge \<Rightarrow> string \<times> string" where
  "edge_pair e = (fst e, fst (snd e))"

definition row_pair :: "dep_row \<Rightarrow> string \<times> string" where
  "row_pair r = (dr_intent r, dr_producer r)"

text \<open>The edges of the active rows.\<close>

definition active_edges :: "dep_row list \<Rightarrow> (string \<times> string) list" where
  "active_edges rows = map row_pair (filter (\<lambda>r. dr_status r = DS_ACTIVE) rows)"

definition dependency_cycle :: "registry \<Rightarrow> change_intent \<Rightarrow> admission_decision \<Rightarrow> string list option" where
  "dependency_cycle st i d =
     find_dependency_cycle
       (active_edges (filter (\<lambda>r. dr_intent r \<noteq> ci_intent_id i) (rg_deps st))
        @ map edge_pair (dependency_candidates i d))"

definition msg_cycle :: "string list \<Rightarrow> string" where
  "msg_cycle c = ''Dependency cycle rejected: '' @ join '' -> '' c"

definition msg_acyclic :: string where
  "msg_acyclic = ''Dependency graph must remain acyclic.''"

definition cycle_rejection :: "change_intent \<Rightarrow> admission_decision \<Rightarrow> string list \<Rightarrow> admission_decision" where
  "cycle_rejection i d c =
     \<lparr>ad_kind = REJECT, ad_intent = i, ad_allowed = False, ad_conflicts = ad_conflicts d,
      ad_constraints = uniq (ad_constraints d @ [msg_acyclic]),
      ad_notifications = ad_notifications d, ad_guidance = msg_cycle c\<rparr>"

text \<open>
  The three lines every admission shares: evaluate, and when the verdict is positive look for
  a cycle and turn it into a rejection.
\<close>

type_synonym evaluator =
  "change_intent \<Rightarrow> change_intent list \<Rightarrow> string list \<Rightarrow> registry_error + admission_decision"

definition decide ::
  "evaluator \<Rightarrow> change_intent \<Rightarrow> change_intent list \<Rightarrow> string list \<Rightarrow> registry
   \<Rightarrow> registry_error + admission_decision" where
  "decide ev i active known st =
     res_bind (ev i active known) (\<lambda>d.
       if ad_allowed d
       then (case dependency_cycle st i d of None \<Rightarrow> Inr d | Some c \<Rightarrow> Inr (cycle_rejection i d c))
       else Inr d)"


section \<open>Replacing the edges\<close>

definition dep_key :: "dep_row \<Rightarrow> dep_edge" where
  "dep_key r = (dr_intent r, dr_producer r, dr_kind r, dr_key r)"

text \<open>\<open>INSERT ... ON CONFLICT DO UPDATE\<close>.\<close>

definition upsert_dependency :: "int \<Rightarrow> dep_edge \<times> dep_status \<Rightarrow> dep_row list \<Rightarrow> dep_row list" where
  "upsert_dependency now es rows =
     (case es of (e, status) \<Rightarrow>
       if e \<in> set (map dep_key rows)
       then update_rows (\<lambda>r. dep_key r = e) (\<lambda>r. r\<lparr>dr_status := status, dr_updated := now\<rparr>) rows
       else rows @ [\<lparr>dr_intent = fst e, dr_producer = fst (snd e), dr_kind = fst (snd (snd e)),
                     dr_key = snd (snd (snd e)), dr_status = status, dr_created = now,
                     dr_updated = now\<rparr>])"

definition candidate_status :: "registry \<Rightarrow> dep_edge \<Rightarrow> dep_status" where
  "candidate_status st e =
     (if fst (snd (snd e)) = DK_EXPLICIT
      then (case find_intent st (fst (snd e)) of
              None \<Rightarrow> DS_MISSING
            | Some r \<Rightarrow> if ir_state r = S_STALE then DS_STALE
                        else if known_state (ir_state r) then DS_ACTIVE else DS_MISSING)
      else DS_ACTIVE)"

definition replace_edges :: "int \<Rightarrow> change_intent \<Rightarrow> admission_decision \<Rightarrow> registry \<Rightarrow> registry" where
  "replace_edges now i d st =
     st\<lparr>rg_deps := fold (\<lambda>e. upsert_dependency now (e, candidate_status st e))
          (dependency_candidates i d)
          (delete_rows (\<lambda>r. dr_intent r = ci_intent_id i) (rg_deps st))\<rparr>"


section \<open>The graph stays acyclic\<close>

lemma acyclic_edges_subset: "acyclic_edges E \<Longrightarrow> set F \<subseteq> set E \<Longrightarrow> acyclic_edges F"
  unfolding acyclic_edges_def by (rule acyclic_subset)

lemma in_active_edges:
  "p \<in> set (active_edges rows) \<longleftrightarrow> (\<exists>r \<in> set rows. dr_status r = DS_ACTIVE \<and> row_pair r = p)"
  by (auto simp: active_edges_def)

lemma row_pair_dep_key: "row_pair r = edge_pair (dep_key r)"
  by (simp add: row_pair_def edge_pair_def dep_key_def)

lemma in_upsert_dependency:
  assumes "r \<in> set (upsert_dependency now (e, s) rows)"
  shows "r \<in> set rows \<or> (dep_key r = e \<and> dr_status r = s)"
  using assms
  by (auto simp: upsert_dependency_def in_update_rows dep_key_def split: if_splits)

lemma upsert_active:
  "set (active_edges (upsert_dependency now (e, s) rows))
     \<subseteq> set (active_edges rows) \<union> (if s = DS_ACTIVE then {edge_pair e} else {})"
proof
  fix p assume "p \<in> set (active_edges (upsert_dependency now (e, s) rows))"
  then obtain r where r: "r \<in> set (upsert_dependency now (e, s) rows)" "dr_status r = DS_ACTIVE"
    "row_pair r = p"
    by (auto simp: in_active_edges)
  show "p \<in> set (active_edges rows) \<union> (if s = DS_ACTIVE then {edge_pair e} else {})"
    using in_upsert_dependency [OF r(1)] r(2,3) row_pair_dep_key [of r]
    by (auto simp: in_active_edges)
qed

lemma fold_upsert_active:
  "set (active_edges (fold (\<lambda>e. upsert_dependency now (e, f e)) es rows))
     \<subseteq> set (active_edges rows) \<union> edge_pair ` set es"
proof (induction es arbitrary: rows)
  case (Cons e es)
  show ?case
    using Cons.IH [of "upsert_dependency now (e, f e) rows"] upsert_active [of now e "f e" rows]
    by (fastforce split: if_splits)
qed simp

text \<open>What a positive decision leaves: no cycle in the graph the replacement gives.\<close>

lemma replace_edges_acyclic:
  assumes "dependency_cycle st i d = None" and "rg_deps st' = rg_deps st"
  shows "acyclic_edges (active_edges (rg_deps (replace_edges now i d st')))"
proof -
  let ?old = "filter (\<lambda>r. dr_intent r \<noteq> ci_intent_id i) (rg_deps st)"
  have "acyclic_edges (active_edges ?old @ map edge_pair (dependency_candidates i d))"
    using assms(1) by (simp add: dependency_cycle_def find_cycle_None_iff)
  moreover have "set (active_edges (rg_deps (replace_edges now i d st')))
      \<subseteq> set (active_edges ?old @ map edge_pair (dependency_candidates i d))"
    using fold_upsert_active [of now "candidate_status st'" "dependency_candidates i d"
        "delete_rows (\<lambda>r. dr_intent r = ci_intent_id i) (rg_deps st)"]
    by (simp add: replace_edges_def assms(2) delete_rows_def)
  ultimately show ?thesis by (rule acyclic_edges_subset)
qed

lemma decide_allowed:
  assumes "decide ev i active known st = Inr d" and "ad_allowed d"
  shows "ev i active known = Inr d \<and> dependency_cycle st i d = None"
proof -
  from assms(1) obtain d' where d': "ev i active known = Inr d'"
    and d: "(if ad_allowed d' then (case dependency_cycle st i d' of None \<Rightarrow> Inr d'
        | Some c \<Rightarrow> Inr (cycle_rejection i d' c)) else Inr d') = (Inr d :: registry_error + _)"
    by (auto simp: decide_def res_bind_eq_Inr)
  have "\<not> ad_allowed (cycle_rejection i d' c)" for c by (simp add: cycle_rejection_def)
  with d assms(2) have "d' = d \<and> dependency_cycle st i d' = None"
    by (cases "dependency_cycle st i d'") (auto split: if_splits)
  then have "d' = d" and "dependency_cycle st i d' = None" by blast+
  with d' show ?thesis by blast
qed

end
