(* ===== verification/Fencing.thy ===== *)
theory Fencing
  imports RegDeps
begin

text \<open>
  Premise invalidation and runtime fencing of \<open>core/registry.py\<close>: marking the dependents of a
  changed producer stale, hop by hop, and revoking the live broker capabilities of each of
  them in the same transaction. The parameter \<open>sha\<close> is the SHA-256 hex digest of a JSON
  value's canonical text.
\<close>


section \<open>Recording a fence\<close>

definition nonempty :: "string list \<Rightarrow> string list" where
  "nonempty xs = filter (\<lambda>s. s \<noteq> []) xs"

definition fence_seed ::
  "string \<Rightarrow> string option \<Rightarrow> string \<Rightarrow> string list \<Rightarrow> string list \<Rightarrow> string option \<Rightarrow> int \<Rightarrow> json" where
  "fence_seed iid producer reason keys chain instance now = JObj
     [(''intent_id'', JStr iid), (''producer_intent_id'', jopt producer),
      (''reason'', JStr reason), (''resource_keys'', jstrs keys),
      (''dependency_chain'', jstrs chain), (''broker_instance_id'', jopt instance),
      (''created_at'', JInt now)]"

definition fence_metadata :: "bool \<Rightarrow> metadata" where
  "fence_metadata revoked = [(''live_writer_revoked'', JBool revoked),
     (''resume_requires_fresh_authority'', JBool True)]"

definition fence_id_of :: "(json \<Rightarrow> string) \<Rightarrow> json \<Rightarrow> string" where
  "fence_id_of sha seed = ''fence-'' @ take 24 (sha (canon seed))"

definition record_fence ::
  "(json \<Rightarrow> string) \<Rightarrow> string \<Rightarrow> string option \<Rightarrow> string \<Rightarrow> string list \<Rightarrow> string list
   \<Rightarrow> broker_row option \<Rightarrow> int \<Rightarrow> registry \<Rightarrow> registry_error + runtime_fence \<times> registry" where
  "record_fence sha iid producer reason resource_keys dependency_chain broker now st =
     (let keys = sorted_set (nonempty resource_keys);
          chain = nonempty dependency_chain;
          instance = map_option bk_id broker
      in res_bind (fence_post_init
           \<lparr>fn_id = fence_id_of sha (fence_seed iid producer reason keys chain instance now),
            fn_intent = iid, fn_producer = producer, fn_reason = reason, fn_keys = keys,
            fn_chain = chain, fn_instance = instance, fn_root = map_option bk_root broker,
            fn_token = map_option bk_token broker, fn_status = ''fenced'', fn_created = now,
            fn_metadata = fence_metadata (broker \<noteq> None)\<rparr>) (\<lambda>f.
         if fn_id f \<in> set (map fn_id (rg_fences st)) then Inl (IntegrityError (fn_id f))
         else Inr (f, st\<lparr>rg_fences := rg_fences st @ [f]\<rparr>)))"


section \<open>Revoking the brokers of one intent\<close>

definition msg_fenced :: "string option \<Rightarrow> string" where
  "msg_fenced producer =
     ''runtime authority fenced because an execution premise became stale''
     @ (case producer of None \<Rightarrow> [] | Some p \<Rightarrow> if p = [] then [] else '' after producer '' @ p)"

definition revoke_broker :: "string \<Rightarrow> int \<Rightarrow> broker_row \<Rightarrow> registry \<Rightarrow> registry" where
  "revoke_broker error now b st =
     st\<lparr>rg_ops := update_rows (\<lambda>q. po_instance q = bk_id b \<and> po_state q = OP_PENDING)
          (\<lambda>q. q\<lparr>po_state := OP_FAILED, po_error := Some error\<rparr>) (rg_ops st),
        rg_leases := delete_rows (\<lambda>l. ls_instance l = bk_id b) (rg_leases st),
        rg_brokers := update_rows (\<lambda>x. bk_id x = bk_id b \<and> bk_state x = BK_ACTIVE)
          (\<lambda>x. x\<lparr>bk_state := BK_FENCED,
               bk_stopped := (case bk_stopped x of None \<Rightarrow> Some now | s \<Rightarrow> s), bk_seen := now\<rparr>)
          (rg_brokers st)\<rparr>"

definition failed_with :: "string \<Rightarrow> string \<Rightarrow> registry \<Rightarrow> nat" where
  "failed_with instance error st =
     length (filter (\<lambda>q. po_instance q = instance \<and> po_state q = OP_FAILED \<and> po_error q = Some error)
       (rg_ops st))"

definition fence_event :: "runtime_fence \<Rightarrow> nat \<Rightarrow> json" where
  "fence_event f n = JObj [(''fence'', fence_dict f), (''failed_pending_operations'', JInt (int n))]"

definition fence_broker ::
  "(json \<Rightarrow> string) \<Rightarrow> string \<Rightarrow> string option \<Rightarrow> string \<Rightarrow> string list \<Rightarrow> string list \<Rightarrow> int
   \<Rightarrow> broker_row \<Rightarrow> registry \<Rightarrow> registry_error + runtime_fence \<times> registry" where
  "fence_broker sha iid producer reason keys chain now b st =
     (let error = msg_fenced producer
      in res_bind (record_fence sha iid producer reason keys chain (Some b) now
                     (revoke_broker error now b st)) (\<lambda>(f, st').
         Inr (f, log_event ''runtime_authority_fenced'' (Some iid)
                   (map_option ir_owner (find_intent st' iid))
                   (fence_event f (failed_with (bk_id b) error st')) st')))"

fun fence_brokers ::
  "(json \<Rightarrow> string) \<Rightarrow> string \<Rightarrow> string option \<Rightarrow> string \<Rightarrow> string list \<Rightarrow> string list \<Rightarrow> int
   \<Rightarrow> broker_row list \<Rightarrow> registry \<Rightarrow> registry_error + runtime_fence list \<times> registry" where
  "fence_brokers sha iid producer reason keys chain now [] st = Inr ([], st)"
| "fence_brokers sha iid producer reason keys chain now (b # bs) st =
     res_bind (fence_broker sha iid producer reason keys chain now b st) (\<lambda>(f, st1).
     res_bind (fence_brokers sha iid producer reason keys chain now bs st1) (\<lambda>(fs, st2).
     Inr (f # fs, st2)))"

definition active_brokers :: "string \<Rightarrow> registry \<Rightarrow> broker_row list" where
  "active_brokers iid st =
     sort_key bk_id (filter (\<lambda>b. bk_intent b = iid \<and> bk_state b = BK_ACTIVE) (rg_brokers st))"

definition fence_intent_runtime ::
  "(json \<Rightarrow> string) \<Rightarrow> string \<Rightarrow> string option \<Rightarrow> string \<Rightarrow> string list \<Rightarrow> string list \<Rightarrow> int
   \<Rightarrow> registry \<Rightarrow> registry_error + runtime_fence list \<times> registry" where
  "fence_intent_runtime sha iid producer reason keys chain now st =
     (if active_brokers iid st = []
      then res_bind (record_fence sha iid producer reason keys chain None now st)
             (\<lambda>(f, st'). Inr ([f], st'))
      else fence_brokers sha iid producer reason keys chain now (active_brokers iid st) st)"


section \<open>Notices\<close>

definition next_id :: "nat list \<Rightarrow> nat" where
  "next_id ids = Suc (foldr max ids 0)"

definition insert_notice ::
  "string \<Rightarrow> string \<Rightarrow> string \<Rightarrow> string \<Rightarrow> json \<Rightarrow> int \<Rightarrow> registry \<Rightarrow> registry" where
  "insert_notice recipient producer ty key payload now st =
     (case find (\<lambda>n. nr_recipient n = recipient \<and> nr_producer n = producer \<and> nr_type n = ty
                   \<and> nr_key n = key \<and> nr_pending n) (rg_notices st) of
        Some n \<Rightarrow> st\<lparr>rg_notices := update_rows (\<lambda>m. nr_id m = nr_id n)
                     (\<lambda>m. m\<lparr>nr_payload := payload\<rparr>) (rg_notices st)\<rparr>
      | None \<Rightarrow> st\<lparr>rg_notices := rg_notices st
          @ [\<lparr>nr_id = next_id (map nr_id (rg_notices st)), nr_recipient = recipient,
              nr_producer = producer, nr_type = ty, nr_key = key, nr_pending = True,
              nr_payload = payload, nr_created = now, nr_acknowledged = None\<rparr>]\<rparr>)"

definition acknowledge_notice :: "int \<Rightarrow> nat \<Rightarrow> registry \<Rightarrow> registry_error + unit \<times> registry" where
  "acknowledge_notice now nid st =
     (if list_ex (\<lambda>n. nr_id n = nid \<and> nr_pending n) (rg_notices st)
      then Inr ((), st\<lparr>rg_notices := update_rows (\<lambda>n. nr_id n = nid \<and> nr_pending n)
             (\<lambda>n. n\<lparr>nr_pending := False, nr_acknowledged := Some now\<rparr>) (rg_notices st)\<rparr>)
      else Inl (UnknownNotice nid))"


section \<open>Invalidation\<close>

text \<open>One queue entry: the producer, the keys of the first hop, the depth and the chain.\<close>

record inval_item =
  iv_producer :: string
  iv_keys :: "string list"
  iv_depth :: nat
  iv_chain :: "string list"

record inval_state =
  is_queue :: "inval_item list"
  is_seen :: "string list"
  is_stale :: "string list"

definition affected_rows :: "inval_item \<Rightarrow> registry \<Rightarrow> (string \<times> string) list" where
  "affected_rows it st =
     uniq (map (\<lambda>r. (dr_intent r, dr_key r))
       (filter (\<lambda>r. dr_producer r = iv_producer it \<and> dr_status r = DS_ACTIVE
            \<and> (iv_depth it = 0 \<and> iv_keys it \<noteq> [] \<longrightarrow> dr_key r = [] \<or> dr_key r \<in> set (iv_keys it)))
          (rg_deps st)))"

definition inval_payload ::
  "string \<Rightarrow> string \<Rightarrow> inval_item \<Rightarrow> string list \<Rightarrow> runtime_fence list \<Rightarrow> metadata" where
  "inval_payload reason root it chain fences =
     [(''reason'', JStr reason), (''resource_keys'', jstrs (iv_keys it)),
      (''root_producer'', JStr root), (''direct_producer'', JStr (iv_producer it)),
      (''depth'', JInt (int (iv_depth it) + 1)), (''dependency_chain'', jstrs chain),
      (''runtime_fence_ids'', jstrs (map fn_id fences)),
      (''runtime_writer_fenced'', JBool (list_ex (\<lambda>f. fn_instance f \<noteq> None) fences))]"

text \<open>\<open>UPDATE intents SET state='stale'\<close> and \<open>UPDATE intent_dependencies SET status='stale'\<close>.\<close>

definition mark_stale :: "int \<Rightarrow> string \<Rightarrow> string \<Rightarrow> registry \<Rightarrow> registry" where
  "mark_stale now dependent producer st =
     (intent_row_update dependent (set_state S_STALE now) st)
       \<lparr>rg_deps := update_rows (\<lambda>r. dr_intent r = dependent \<and> dr_producer r = producer)
          (\<lambda>r. r\<lparr>dr_status := DS_STALE, dr_updated := now\<rparr>) (rg_deps st)\<rparr>"

definition stale_one ::
  "(json \<Rightarrow> string) \<Rightarrow> readings \<Rightarrow> string \<Rightarrow> string \<Rightarrow> inval_item \<Rightarrow> string \<times> string
   \<Rightarrow> intent_row \<Rightarrow> registry \<Rightarrow> registry_error + registry" where
  "stale_one sha rd root reason it row current st =
     (let dependent = fst row; chain = iv_chain it @ [dependent]
      in res_bind (fence_intent_runtime sha dependent (Some (iv_producer it)) reason (iv_keys it)
             chain (rd_fence rd dependent) (mark_stale (rd_invalidate rd) dependent (iv_producer it) st))
           (\<lambda>(fences, st').
         let payload = inval_payload reason root it chain fences
         in Inr (log_event ''intent_stale'' (Some dependent) (Some (ir_owner current))
                  (JObj ((''producer'', JStr (iv_producer it)) # payload))
                  (insert_notice dependent (iv_producer it) ''premise_invalidated'' (snd row)
                     (JObj payload) (rd_invalidate rd) st'))))"

fun inval_rows ::
  "(json \<Rightarrow> string) \<Rightarrow> readings \<Rightarrow> string \<Rightarrow> string \<Rightarrow> inval_item \<Rightarrow> (string \<times> string) list
   \<Rightarrow> inval_state \<Rightarrow> registry \<Rightarrow> registry_error + inval_state \<times> registry" where
  "inval_rows sha rd root reason it [] s st = Inr (s, st)"
| "inval_rows sha rd root reason it (row # rows) s st =
     (case find_intent st (fst row) of
        None \<Rightarrow> inval_rows sha rd root reason it rows s st
      | Some current \<Rightarrow>
          if \<not> known_state (ir_state current) then inval_rows sha rd root reason it rows s st
          else res_bind (stale_one sha rd root reason it row current st) (\<lambda>st'.
            let dependent = fst row;
                s' = s\<lparr>is_stale := is_stale s @ [dependent]\<rparr>;
                s'' = (if dependent \<in> set (is_seen s) then s'
                       else s'\<lparr>is_seen := dependent # is_seen s,
                              is_queue := is_queue s @ [\<lparr>iv_producer = dependent, iv_keys = [],
                                iv_depth = iv_depth it + 1, iv_chain = iv_chain it @ [dependent]\<rparr>]\<rparr>)
            in inval_rows sha rd root reason it rows s'' st'))"

primrec inval_loop ::
  "nat \<Rightarrow> (json \<Rightarrow> string) \<Rightarrow> readings \<Rightarrow> string \<Rightarrow> string \<Rightarrow> inval_state \<Rightarrow> registry
   \<Rightarrow> registry_error + string list \<times> registry" where
  "inval_loop 0 sha rd root reason s st = Inl LoopBound"
| "inval_loop (Suc n) sha rd root reason s st =
     (case is_queue s of
        [] \<Rightarrow> Inr (sorted_set (is_stale s), st)
      | it # rest \<Rightarrow>
          res_bind (inval_rows sha rd root reason it (affected_rows it st) (s\<lparr>is_queue := rest\<rparr>) st)
            (\<lambda>(s', st'). inval_loop n sha rd root reason s' st'))"

text \<open>
  A dependent is queued at most once and has a row, so two more rounds than there are intents
  is enough.
\<close>

definition invalidate_dependents ::
  "(json \<Rightarrow> string) \<Rightarrow> readings \<Rightarrow> string \<Rightarrow> string list \<Rightarrow> string \<Rightarrow> registry
   \<Rightarrow> registry_error + string list \<times> registry" where
  "invalidate_dependents sha rd producer keys reason st =
     inval_loop (length (rg_intents st) + 2) sha rd producer reason
       \<lparr>is_queue = [\<lparr>iv_producer = producer, iv_keys = keys, iv_depth = 0, iv_chain = [producer]\<rparr>],
        is_seen = [producer], is_stale = []\<rparr> st"


section \<open>Pausing an intent\<close>

definition pause_event :: "string \<Rightarrow> string list \<Rightarrow> runtime_fence list \<Rightarrow> json" where
  "pause_event reason keys fences = JObj [(''reason'', JStr reason),
     (''resource_keys'', jstrs keys), (''runtime_fence_ids'', jstrs (map fn_id fences))]"

definition pause_intent_runtime ::
  "(json \<Rightarrow> string) \<Rightarrow> readings \<Rightarrow> string \<Rightarrow> string \<Rightarrow> string list \<Rightarrow> registry
   \<Rightarrow> registry_error + runtime_fence list \<times> registry" where
  "pause_intent_runtime sha rd iid raw_reason resource_keys st =
     (let reason = strip raw_reason; keys = sorted_set (clean_list resource_keys)
      in if reason = [] then Inl (BadArgument ''runtime pause reason must not be empty'')
         else case find_intent st iid of
             None \<Rightarrow> Inl (UnknownIntent iid)
           | Some row \<Rightarrow>
               if ir_state row = S_STALE
               then Inr (sort_key (\<lambda>f. (fn_created f)) (sort_key fn_id
                      (filter (\<lambda>f. fn_intent f = iid) (rg_fences st))), st)
               else if \<not> live_state (ir_state row) then Inl (BadState (ir_state row))
               else res_bind (fence_intent_runtime sha iid None reason keys [iid] (rd_fence rd iid)
                        (intent_row_update iid (set_state S_STALE (rd_now rd)) st))
                      (\<lambda>(fences, st').
                    Inr (fences, log_event ''intent_runtime_paused'' (Some iid) (Some (ir_owner row))
                           (pause_event reason keys fences) st')))"

end
