(* ===== verification/FencingLaws.thy ===== *)
theory FencingLaws
  imports Fencing
begin

text \<open>
  What fencing and invalidation do to the tables: fencing an intent leaves no active broker of
  it, fails the pending operations of the revoked brokers and drops their writer leases, and
  touches nothing else; invalidation ends, reaches every dependent of the changed producer
  and, transitively, of every intent it marks stale.
\<close>


section \<open>Rows that evolve in place\<close>

lemma list_all2_update_rows:
  assumes "\<And>r. R r r" and "\<And>r. P r \<Longrightarrow> R r (f r)"
  shows "list_all2 R rows (update_rows P f rows)"
  using assms by (induction rows) (auto simp: update_rows_def)

lemma list_all2_refl_rows: "(\<And>r. R r r) \<Longrightarrow> list_all2 R rows rows"
  by (simp add: list_all2_same)

lemma list_all2_right:
  "list_all2 R xs ys \<Longrightarrow> y \<in> set ys \<Longrightarrow> \<exists>x \<in> set xs. R x y"
  by (induction rule: list_all2_induct) auto

lemma list_all2_left:
  "list_all2 R xs ys \<Longrightarrow> x \<in> set xs \<Longrightarrow> \<exists>y \<in> set ys. R x y"
  by (induction rule: list_all2_induct) auto

lemma list_all2_map_eq:
  "list_all2 R xs ys \<Longrightarrow> (\<And>x y. R x y \<Longrightarrow> f x = f y) \<Longrightarrow> map f xs = map f ys"
  by (induction rule: list_all2_induct) auto

text \<open>A broker row after fencing, and an operation row after fencing.\<close>

definition broker_le :: "broker_row \<Rightarrow> broker_row \<Rightarrow> bool" where
  "broker_le b b' \<longleftrightarrow> b' = b \<or> (bk_state b = BK_ACTIVE
     \<and> (\<exists>s t. b' = b\<lparr>bk_state := BK_FENCED, bk_stopped := s, bk_seen := t\<rparr>))"

definition op_le :: "op_row \<Rightarrow> op_row \<Rightarrow> bool" where
  "op_le q q' \<longleftrightarrow> q' = q \<or> (po_state q = OP_PENDING
     \<and> (\<exists>e. q' = q\<lparr>po_state := OP_FAILED, po_error := e\<rparr>))"

lemma broker_le_refl [simp]: "broker_le b b" by (simp add: broker_le_def)
lemma op_le_refl [simp]: "op_le q q" by (simp add: op_le_def)

lemma broker_le_trans: "broker_le a b \<Longrightarrow> broker_le b c \<Longrightarrow> broker_le a c"
  by (auto simp: broker_le_def)

lemma op_le_trans: "op_le a b \<Longrightarrow> op_le b c \<Longrightarrow> op_le a c"
  by (auto simp: op_le_def)

lemma broker_le_fields:
  "broker_le b b' \<Longrightarrow> bk_id b' = bk_id b \<and> bk_intent b' = bk_intent b \<and> bk_root b' = bk_root b
     \<and> bk_token b' = bk_token b \<and> bk_session b' = bk_session b \<and> bk_tree b' = bk_tree b
     \<and> bk_repo b' = bk_repo b"
  by (auto simp: broker_le_def)

lemma broker_le_active: "broker_le b b' \<Longrightarrow> bk_state b' = BK_ACTIVE \<Longrightarrow> b' = b"
  by (auto simp: broker_le_def)

lemma op_le_fields:
  "op_le q q' \<Longrightarrow> po_id q' = po_id q \<and> po_instance q' = po_instance q \<and> po_request q' = po_request q
     \<and> po_token q' = po_token q"
  by (auto simp: op_le_def)


section \<open>The effect of fencing\<close>

text \<open>
  What every step of fencing leaves alone, and how it moves the broker tables. \<open>X\<close> are the
  intents whose brokers it may touch.
\<close>

definition fence_frame :: "registry \<Rightarrow> registry \<Rightarrow> bool" where
  "fence_frame st st' \<longleftrightarrow>
     rg_intents st' = rg_intents st \<and> rg_deps st' = rg_deps st
     \<and> rg_notices st' = rg_notices st \<and> rg_recoveries st' = rg_recoveries st
     \<and> rg_sessions st' = rg_sessions st \<and> rg_observations st' = rg_observations st
     \<and> rg_counters st' = rg_counters st"

text \<open>A lease only goes when its instance has no live broker any more.\<close>

definition leases_kept :: "registry \<Rightarrow> registry \<Rightarrow> bool" where
  "leases_kept st st' \<longleftrightarrow> (\<forall>l \<in> set (rg_leases st). l \<in> set (rg_leases st')
     \<or> (\<forall>b \<in> set (rg_brokers st'). bk_id b = ls_instance l \<longrightarrow> bk_state b \<noteq> BK_ACTIVE))"

lemma leases_kept_same: "rg_leases st' = rg_leases st \<Longrightarrow> leases_kept st st'"
  by (simp add: leases_kept_def)

lemma leases_kept_trans:
  assumes "leases_kept a b" and "leases_kept b c" and "list_all2 broker_le (rg_brokers b) (rg_brokers c)"
  shows "leases_kept a c"
proof -
  have "\<exists>x \<in> set (rg_brokers b). bk_id x = bk_id y \<and> bk_state x = BK_ACTIVE"
    if y: "y \<in> set (rg_brokers c)" "bk_state y = BK_ACTIVE" for y
    using list_all2_right [OF assms(3) y(1)] y(2) broker_le_active by blast
  with assms(1,2) show ?thesis unfolding leases_kept_def by metis
qed

definition broker_effect :: "registry \<Rightarrow> registry \<Rightarrow> bool" where
  "broker_effect st st' \<longleftrightarrow>
     list_all2 broker_le (rg_brokers st) (rg_brokers st')
     \<and> list_all2 op_le (rg_ops st) (rg_ops st')
     \<and> set (rg_leases st') \<subseteq> set (rg_leases st)
     \<and> leases_kept st st'
     \<and> (keys_unique ls_root (rg_leases st) \<longrightarrow> keys_unique ls_root (rg_leases st'))
     \<and> (\<forall>b' \<in> set (rg_brokers st'). bk_state b' = BK_FENCED \<longrightarrow> b' \<notin> set (rg_brokers st)
          \<longrightarrow> (\<forall>l \<in> set (rg_leases st'). ls_instance l \<noteq> bk_id b')
            \<and> (\<forall>q \<in> set (rg_ops st'). po_instance q = bk_id b' \<longrightarrow> po_state q \<noteq> OP_PENDING))"

lemma fence_frame_refl [simp]: "fence_frame st st"
  by (simp add: fence_frame_def)

lemma fence_frame_trans: "fence_frame a b \<Longrightarrow> fence_frame b c \<Longrightarrow> fence_frame a c"
  by (simp add: fence_frame_def)

lemma broker_effect_refl [simp]: "broker_effect st st"
  by (simp add: broker_effect_def list_all2_refl_rows leases_kept_same)

lemma broker_effect_trans:
  assumes "broker_effect a b" and "broker_effect b c"
  shows "broker_effect a c"
proof -
  have bk: "list_all2 broker_le (rg_brokers a) (rg_brokers c)"
    using assms by (auto simp: broker_effect_def intro: list_all2_trans [OF broker_le_trans])
  have op: "list_all2 op_le (rg_ops a) (rg_ops c)"
    using assms by (auto simp: broker_effect_def intro: list_all2_trans [OF op_le_trans])
  have "(\<forall>l \<in> set (rg_leases c). ls_instance l \<noteq> bk_id x)
      \<and> (\<forall>q \<in> set (rg_ops c). po_instance q = bk_id x \<longrightarrow> po_state q \<noteq> OP_PENDING)"
    if x: "x \<in> set (rg_brokers c)" "bk_state x = BK_FENCED" "x \<notin> set (rg_brokers a)" for x
  proof (cases "x \<in> set (rg_brokers b)")
    case True
    with assms(1) x have "(\<forall>l \<in> set (rg_leases b). ls_instance l \<noteq> bk_id x)
        \<and> (\<forall>q \<in> set (rg_ops b). po_instance q = bk_id x \<longrightarrow> po_state q \<noteq> OP_PENDING)"
      by (simp add: broker_effect_def)
    moreover have "\<exists>q \<in> set (rg_ops b). po_instance q = po_instance q'
        \<and> (po_state q' = OP_PENDING \<longrightarrow> po_state q = OP_PENDING)"
      if "q' \<in> set (rg_ops c)" for q'
      using assms(2) that list_all2_right [of op_le "rg_ops b" "rg_ops c" q']
      by (fastforce simp: broker_effect_def op_le_def)
    ultimately show ?thesis using assms(2) by (fastforce simp: broker_effect_def)
  next
    case False
    with assms(2) x show ?thesis by (simp add: broker_effect_def)
  qed
  moreover have "leases_kept a c"
    using assms by (auto simp: broker_effect_def intro: leases_kept_trans)
  ultimately show ?thesis using assms bk op by (auto simp: broker_effect_def)
qed

lemma record_fence_frame:
  assumes "record_fence sha iid p reason keys chain bk now st = Inr (f, st')"
  shows "fence_frame st st'" and "rg_brokers st' = rg_brokers st" and "rg_ops st' = rg_ops st"
    and "rg_leases st' = rg_leases st" and "rg_fences st' = rg_fences st @ [f]"
  using assms
  by (auto simp: record_fence_def Let_def res_bind_eq_Inr fence_frame_def split: if_splits)

lemma record_fence_fields:
  assumes "record_fence sha iid p reason keys chain bk now st = Inr (f, st')"
  shows "fn_intent f = strip iid" and "fn_instance f = map_option bk_id bk"
  using assms
  by (auto simp: record_fence_def Let_def res_bind_eq_Inr fence_post_init_def split: if_splits)

lemma log_event_simps [simp]:
  "rg_intents (log_event t i w p st) = rg_intents st" "rg_deps (log_event t i w p st) = rg_deps st"
  "rg_notices (log_event t i w p st) = rg_notices st" "rg_fences (log_event t i w p st) = rg_fences st"
  "rg_recoveries (log_event t i w p st) = rg_recoveries st"
  "rg_sessions (log_event t i w p st) = rg_sessions st"
  "rg_observations (log_event t i w p st) = rg_observations st"
  "rg_brokers (log_event t i w p st) = rg_brokers st" "rg_leases (log_event t i w p st) = rg_leases st"
  "rg_counters (log_event t i w p st) = rg_counters st" "rg_ops (log_event t i w p st) = rg_ops st"
  by (simp_all add: log_event_def)

lemma revoke_broker_inactive:
  assumes "x \<in> set (rg_brokers (revoke_broker error now b st))" and "bk_id x = bk_id b"
  shows "bk_state x \<noteq> BK_ACTIVE"
proof -
  obtain y where "x = (if bk_id y = bk_id b \<and> bk_state y = BK_ACTIVE
      then y\<lparr>bk_state := BK_FENCED, bk_stopped := (case bk_stopped y of None \<Rightarrow> Some now | s \<Rightarrow> s),
             bk_seen := now\<rparr> else y)"
    using assms(1) by (auto simp: revoke_broker_def in_update_rows)
  with assms(2) show ?thesis by (cases "bk_id y = bk_id b \<and> bk_state y = BK_ACTIVE") auto
qed

lemma revoke_broker_effect: "broker_effect st (revoke_broker error now b st)"
proof -
  let ?r = "revoke_broker error now b st"
  have "broker_le x (x\<lparr>bk_state := BK_FENCED, bk_stopped := s, bk_seen := t\<rparr>)"
    if "bk_state x = BK_ACTIVE" for x s t
    using that by (auto simp: broker_le_def)
  then have bk: "list_all2 broker_le (rg_brokers st) (rg_brokers (revoke_broker error now b st))"
    unfolding revoke_broker_def by (auto intro!: list_all2_update_rows)
  have "op_le q (q\<lparr>po_state := OP_FAILED, po_error := e\<rparr>)" if "po_state q = OP_PENDING" for q e
    using that by (auto simp: op_le_def)
  then have op: "list_all2 op_le (rg_ops st) (rg_ops (revoke_broker error now b st))"
    unfolding revoke_broker_def by (auto intro!: list_all2_update_rows)
  have new: "bk_id x = bk_id b"
    if "x \<in> set (rg_brokers (revoke_broker error now b st))" "x \<notin> set (rg_brokers st)" for x
    using that by (auto simp: revoke_broker_def in_update_rows split: if_splits)
  have sub: "set (rg_leases (revoke_broker error now b st)) \<subseteq> set (rg_leases st)"
    by (auto simp: revoke_broker_def in_delete_rows)
  have uniq: "keys_unique ls_root (rg_leases st)
      \<longrightarrow> keys_unique ls_root (rg_leases (revoke_broker error now b st))"
    by (simp add: revoke_broker_def keys_unique_delete_rows)
  have gone: "ls_instance l \<noteq> bk_id b" if "l \<in> set (rg_leases (revoke_broker error now b st))" for l
    using that by (simp add: revoke_broker_def in_delete_rows)
  have failed: "po_state q \<noteq> OP_PENDING"
    if "q \<in> set (rg_ops (revoke_broker error now b st))" "po_instance q = bk_id b" for q
    using that by (auto simp: revoke_broker_def elim!: update_rowsE)
  have "l \<in> set (rg_leases ?r)" if "l \<in> set (rg_leases st)" "ls_instance l \<noteq> bk_id b" for l
    using that by (simp add: revoke_broker_def in_delete_rows)
  then have kept: "leases_kept st ?r"
    unfolding leases_kept_def using revoke_broker_inactive by metis
  have "(\<forall>l \<in> set (rg_leases ?r). ls_instance l \<noteq> bk_id b')
      \<and> (\<forall>q \<in> set (rg_ops ?r). po_instance q = bk_id b' \<longrightarrow> po_state q \<noteq> OP_PENDING)"
    if "b' \<in> set (rg_brokers ?r)" "b' \<notin> set (rg_brokers st)" for b'
    using new [OF that] gone failed by simp
  with bk op sub uniq kept show ?thesis by (simp add: broker_effect_def)
qed

lemma fence_broker_effect:
  assumes "fence_broker sha iid p reason keys chain now b st = Inr (f, st')"
  shows "fence_frame st st'" and "broker_effect st st'"
    and "x \<in> set (rg_brokers st') \<Longrightarrow> bk_id x = bk_id b \<Longrightarrow> bk_state x \<noteq> BK_ACTIVE"
proof -
  obtain s where g: "record_fence sha iid p reason keys chain (Some b) now
      (revoke_broker (msg_fenced p) now b st) = Inr (f, s)"
    and st': "st' = log_event ''runtime_authority_fenced'' (Some iid)
      (map_option ir_owner (find_intent s iid)) (fence_event f (failed_with (bk_id b) (msg_fenced p) s)) s"
    using assms by (auto simp: fence_broker_def Let_def res_bind_eq_Inr)
  note rec = record_fence_frame [OF g]
  show "fence_frame st st'"
    using rec(1) st' by (auto simp: fence_frame_def revoke_broker_def)
  have "rg_brokers st' = rg_brokers (revoke_broker (msg_fenced p) now b st)"
    "rg_ops st' = rg_ops (revoke_broker (msg_fenced p) now b st)"
    "rg_leases st' = rg_leases (revoke_broker (msg_fenced p) now b st)"
    using rec st' by auto
  then show "broker_effect st st'"
    and "x \<in> set (rg_brokers st') \<Longrightarrow> bk_id x = bk_id b \<Longrightarrow> bk_state x \<noteq> BK_ACTIVE"
    using revoke_broker_effect [of st "msg_fenced p" now b] revoke_broker_inactive
    by (auto simp: broker_effect_def leases_kept_def)
qed

lemma fence_brokers_effect:
  assumes "fence_brokers sha iid p reason keys chain now bs st = Inr (fs, st')"
  shows "fence_frame st st' \<and> broker_effect st st'
    \<and> (\<forall>x \<in> set (rg_brokers st'). bk_id x \<in> bk_id ` set bs \<longrightarrow> bk_state x \<noteq> BK_ACTIVE)"
  using assms
proof (induction bs arbitrary: st fs)
  case (Cons b bs)
  then obtain f s gs where f: "fence_broker sha iid p reason keys chain now b st = Inr (f, s)"
    and gs: "fence_brokers sha iid p reason keys chain now bs s = Inr (gs, st')"
    by (auto simp: res_bind_eq_Inr)
  note one = fence_broker_effect [OF f] and rest = Cons.IH [OF gs]
  have "bk_state x \<noteq> BK_ACTIVE" if x: "x \<in> set (rg_brokers st')" "bk_id x = bk_id b" for x
  proof -
    obtain y where y: "y \<in> set (rg_brokers s)" "broker_le y x"
      using rest x(1) list_all2_right [of broker_le "rg_brokers s" "rg_brokers st'" x]
      by (auto simp: broker_effect_def)
    with one(3) [of y] x(2) show ?thesis by (auto simp: broker_le_def)
  qed
  with one rest show ?case
    by (auto intro: fence_frame_trans broker_effect_trans)
qed simp

lemma fence_intent_runtime_effect:
  assumes "fence_intent_runtime sha iid p reason keys chain now st = Inr (fs, st')"
  shows "fence_frame st st'" and "broker_effect st st'"
    and "\<And>x. x \<in> set (rg_brokers st') \<Longrightarrow> bk_intent x = iid \<Longrightarrow> bk_state x \<noteq> BK_ACTIVE"
proof -
  have eff: "fence_frame st st' \<and> broker_effect st st'
      \<and> (\<forall>x \<in> set (rg_brokers st'). bk_id x \<in> bk_id ` set (active_brokers iid st) \<longrightarrow> bk_state x \<noteq> BK_ACTIVE)"
  proof (cases "active_brokers iid st = []")
    case True
    with assms obtain f where "record_fence sha iid p reason keys chain None now st = Inr (f, st')"
      by (auto simp: fence_intent_runtime_def res_bind_eq_Inr)
    from record_fence_frame [OF this] True show ?thesis
      by (simp add: broker_effect_def list_all2_refl_rows leases_kept_same)
  next
    case False
    with assms fence_brokers_effect show ?thesis
      by (auto simp: fence_intent_runtime_def)
  qed
  then show "fence_frame st st'" "broker_effect st st'" by blast+
  fix x assume x: "x \<in> set (rg_brokers st')" "bk_intent x = iid"
  show "bk_state x \<noteq> BK_ACTIVE"
  proof
    assume a: "bk_state x = BK_ACTIVE"
    obtain y where y: "y \<in> set (rg_brokers st)" "broker_le y x"
      using eff x(1) list_all2_right [of broker_le "rg_brokers st" "rg_brokers st'" x]
      by (auto simp: broker_effect_def)
    with a broker_le_active have "x = y" by blast
    with y x a have "x \<in> set (active_brokers iid st)" by (simp add: active_brokers_def)
    with eff x(1) a show False by blast
  qed
qed


section \<open>The effect of invalidation\<close>

definition intent_le :: "intent_row \<Rightarrow> intent_row \<Rightarrow> bool" where
  "intent_le r r' \<longleftrightarrow> r' = r \<or> (known_state (ir_state r) \<and> (\<exists>t. r' = set_state S_STALE t r))"

definition dep_le :: "dep_row \<Rightarrow> dep_row \<Rightarrow> bool" where
  "dep_le d d' \<longleftrightarrow> d' = d \<or> (\<exists>t. d' = d\<lparr>dr_status := DS_STALE, dr_updated := t\<rparr>)"

lemma known_state_stale [simp]: "\<not> known_state S_STALE"
  by (simp add: known_state_def)

lemma intent_le_refl [simp]: "intent_le r r" by (simp add: intent_le_def)
lemma dep_le_refl [simp]: "dep_le d d" by (simp add: dep_le_def)

lemma intent_le_trans: "intent_le a b \<Longrightarrow> intent_le b c \<Longrightarrow> intent_le a c"
  by (auto simp: intent_le_def set_state_def)

lemma dep_le_trans: "dep_le a b \<Longrightarrow> dep_le b c \<Longrightarrow> dep_le a c"
  by (auto simp: dep_le_def)

lemma intent_le_id: "intent_le r r' \<Longrightarrow> ir_id r = ir_id r'"
  by (auto simp: intent_le_def set_state_def)

lemma dep_le_fields: "dep_le d d' \<Longrightarrow> dep_key d' = dep_key d \<and> (dr_status d' = DS_ACTIVE \<longrightarrow> d' = d)"
  by (auto simp: dep_le_def dep_key_def)

lemma intent_le_known: "intent_le r r' \<Longrightarrow> known_state (ir_state r') \<Longrightarrow> r' = r"
  by (auto simp: intent_le_def set_state_def)

definition inval_frame :: "registry \<Rightarrow> registry \<Rightarrow> bool" where
  "inval_frame st st' \<longleftrightarrow>
     list_all2 intent_le (rg_intents st) (rg_intents st')
     \<and> list_all2 dep_le (rg_deps st) (rg_deps st')
     \<and> broker_effect st st'
     \<and> rg_recoveries st' = rg_recoveries st \<and> rg_sessions st' = rg_sessions st
     \<and> rg_observations st' = rg_observations st \<and> rg_counters st' = rg_counters st"

lemma inval_frame_refl [simp]: "inval_frame st st"
  by (simp add: inval_frame_def list_all2_refl_rows)

lemma inval_frame_trans:
  assumes "inval_frame a b" and "inval_frame b c"
  shows "inval_frame a c"
proof -
  have "list_all2 intent_le (rg_intents a) (rg_intents c)"
    using assms by (auto simp: inval_frame_def intro: list_all2_trans [OF intent_le_trans])
  moreover have "list_all2 dep_le (rg_deps a) (rg_deps c)"
    using assms by (auto simp: inval_frame_def intro: list_all2_trans [OF dep_le_trans])
  moreover have "broker_effect a c"
    using assms by (auto simp: inval_frame_def intro: broker_effect_trans)
  ultimately show ?thesis using assms by (simp add: inval_frame_def)
qed

text \<open>The states of an intent's rows; \<open>revoked\<close>: stale, and no live broker.\<close>

definition known_in :: "registry \<Rightarrow> string \<Rightarrow> bool" where
  "known_in st iid \<longleftrightarrow> (\<exists>r \<in> set (rg_intents st). ir_id r = iid \<and> known_state (ir_state r))"

definition revoked :: "registry \<Rightarrow> string \<Rightarrow> bool" where
  "revoked st iid \<longleftrightarrow>
     (\<exists>r \<in> set (rg_intents st). ir_id r = iid)
     \<and> (\<forall>r \<in> set (rg_intents st). ir_id r = iid \<longrightarrow> ir_state r = S_STALE)
     \<and> (\<forall>b \<in> set (rg_brokers st). bk_intent b = iid \<longrightarrow> bk_state b \<noteq> BK_ACTIVE)"

lemma known_in_antimono: "inval_frame st st' \<Longrightarrow> known_in st' iid \<Longrightarrow> known_in st iid"
  unfolding known_in_def inval_frame_def
  by (metis intent_le_known list_all2_right)

lemma revoked_mono:
  assumes "inval_frame st st'" and "revoked st iid"
  shows "revoked st' iid"
proof -
  have i: "list_all2 intent_le (rg_intents st) (rg_intents st')"
    and b: "list_all2 broker_le (rg_brokers st) (rg_brokers st')"
    using assms(1) by (auto simp: inval_frame_def broker_effect_def)
  obtain r where "r \<in> set (rg_intents st)" "ir_id r = iid" using assms(2) by (auto simp: revoked_def)
  then have ex: "\<exists>r' \<in> set (rg_intents st'). ir_id r' = iid"
    using list_all2_left [OF i] intent_le_id by metis
  have st: "ir_state r' = S_STALE" if "r' \<in> set (rg_intents st')" "ir_id r' = iid" for r'
  proof -
    obtain r where "r \<in> set (rg_intents st)" "intent_le r r'"
      using list_all2_right [OF i \<open>r' \<in> _\<close>] by blast
    with that assms(2) show ?thesis by (auto simp: revoked_def intent_le_def set_state_def)
  qed
  have bk: "bk_state x \<noteq> BK_ACTIVE" if "x \<in> set (rg_brokers st')" "bk_intent x = iid" for x
  proof -
    obtain y where "y \<in> set (rg_brokers st)" "broker_le y x"
      using list_all2_right [OF b \<open>x \<in> _\<close>] by blast
    with that assms(2) show ?thesis by (auto simp: revoked_def broker_le_def)
  qed
  from ex st bk show ?thesis unfolding revoked_def by blast
qed

lemma inval_frame_ids: "inval_frame st st' \<Longrightarrow> map ir_id (rg_intents st') = map ir_id (rg_intents st)"
  unfolding inval_frame_def by (metis intent_le_id list_all2_map_eq)

lemma fence_frame_inval:
  "fence_frame st st' \<Longrightarrow> broker_effect st st' \<Longrightarrow> inval_frame st st'"
  by (simp add: fence_frame_def inval_frame_def list_all2_refl_rows)

lemma insert_notice_simps [simp]:
  "rg_intents (insert_notice r p t k pl n st) = rg_intents st"
  "rg_deps (insert_notice r p t k pl n st) = rg_deps st"
  "rg_recoveries (insert_notice r p t k pl n st) = rg_recoveries st"
  "rg_sessions (insert_notice r p t k pl n st) = rg_sessions st"
  "rg_observations (insert_notice r p t k pl n st) = rg_observations st"
  "rg_brokers (insert_notice r p t k pl n st) = rg_brokers st"
  "rg_leases (insert_notice r p t k pl n st) = rg_leases st"
  "rg_counters (insert_notice r p t k pl n st) = rg_counters st"
  "rg_ops (insert_notice r p t k pl n st) = rg_ops st"
  "rg_fences (insert_notice r p t k pl n st) = rg_fences st"
  by (simp_all add: insert_notice_def split: option.split)

lemma mark_stale_frame:
  assumes "keys_unique ir_id (rg_intents st)" and "find_intent st d = Some r"
    and "known_state (ir_state r)"
  shows "inval_frame st (mark_stale now d p st)"
    and "\<And>x. x \<in> set (rg_intents (mark_stale now d p st)) \<Longrightarrow> ir_id x = d \<Longrightarrow> ir_state x = S_STALE"
proof -
  have "x = r" if "x \<in> set (rg_intents st)" "ir_id x = d" for x
    using assms(1,2) that by (auto simp: find_intent_def dest!: find_row_SomeD intro: keys_unique_eqD)
  then have "intent_le x (if ir_id x = d then set_state S_STALE now x else x)"
    if "x \<in> set (rg_intents st)" for x
    using that assms(3) by (auto simp: intent_le_def)
  then have "list_all2 intent_le (rg_intents st) (rg_intents (mark_stale now d p st))"
    by (simp add: mark_stale_def intent_row_update_def update_rows_def list_all2_conv_all_nth)
  moreover have "list_all2 dep_le (rg_deps st) (rg_deps (mark_stale now d p st))"
    unfolding mark_stale_def by (auto intro!: list_all2_update_rows simp: dep_le_def)
  ultimately show "inval_frame st (mark_stale now d p st)"
    by (simp add: inval_frame_def mark_stale_def intent_row_update_def broker_effect_def
        list_all2_refl_rows leases_kept_def)
  show "ir_state x = S_STALE" if "x \<in> set (rg_intents (mark_stale now d p st))" "ir_id x = d" for x
  proof -
    have "x \<in> set (update_rows (\<lambda>r. ir_id r = d) (set_state S_STALE now) (rg_intents st))"
      using that(1) by (simp add: mark_stale_def intent_row_update_def)
    then show ?thesis using that(2) by (elim update_rowsE) simp_all
  qed
qed

lemma stale_one_effect:
  assumes "stale_one sha rd root reason it row current st = Inr st'"
    and "keys_unique ir_id (rg_intents st)" and "find_intent st (fst row) = Some current"
    and "known_state (ir_state current)"
  shows "inval_frame st st'" and "revoked st' (fst row)"
proof -
  let ?m = "mark_stale (rd_invalidate rd) (fst row) (iv_producer it) st"
  obtain fs s where f: "fence_intent_runtime sha (fst row) (Some (iv_producer it)) reason (iv_keys it)
      (iv_chain it @ [fst row]) (rd_fence rd (fst row)) ?m = Inr (fs, s)"
    and tables: "rg_intents st' = rg_intents s" "rg_deps st' = rg_deps s" "rg_brokers st' = rg_brokers s"
      "rg_ops st' = rg_ops s" "rg_leases st' = rg_leases s" "rg_recoveries st' = rg_recoveries s"
      "rg_sessions st' = rg_sessions s" "rg_observations st' = rg_observations s"
      "rg_counters st' = rg_counters s"
    using assms(1) by (auto simp: stale_one_def Let_def res_bind_eq_Inr)
  note mark = mark_stale_frame [OF assms(2-4), where now = "rd_invalidate rd" and p = "iv_producer it"]
    and eff = fence_intent_runtime_effect [OF f]
  have "inval_frame ?m s" by (rule fence_frame_inval [OF eff(1,2)])
  with mark(1) have "inval_frame st s" by (rule inval_frame_trans)
  with tables show "inval_frame st st'" by (simp add: inval_frame_def broker_effect_def leases_kept_def)
  have ids: "map ir_id (rg_intents s) = map ir_id (rg_intents st)"
    by (rule inval_frame_ids) fact
  have "fst row \<in> set (map ir_id (rg_intents st))"
    using assms(3) by (force simp: find_intent_def dest!: find_row_SomeD)
  then have "\<exists>r \<in> set (rg_intents s). ir_id r = fst row" by (simp only: ids [symmetric]) auto
  moreover have "rg_intents s = rg_intents ?m" using eff(1) by (simp add: fence_frame_def)
  ultimately show "revoked st' (fst row)"
    unfolding revoked_def tables using mark(2) eff(3) by auto
qed


section \<open>The worklist\<close>

text \<open>
  The row is one the round for \<open>it\<close> looks at; \<open>settled\<close> says that no dependent of an active row
  it looks at is still known.
\<close>

definition looks_at :: "inval_item \<Rightarrow> dep_row \<Rightarrow> bool" where
  "looks_at it d \<longleftrightarrow> dr_producer d = iv_producer it \<and> dr_status d = DS_ACTIVE
     \<and> (iv_depth it = 0 \<and> iv_keys it \<noteq> [] \<longrightarrow> dr_key d = [] \<or> dr_key d \<in> set (iv_keys it))"

definition settled :: "registry \<Rightarrow> inval_item \<Rightarrow> bool" where
  "settled st it \<longleftrightarrow> (\<forall>d \<in> set (rg_deps st). looks_at it d \<longrightarrow> \<not> known_in st (dr_intent d))"

lemma set_affected_rows:
  "set (affected_rows it st) = {(dr_intent d, dr_key d) | d. d \<in> set (rg_deps st) \<and> looks_at it d}"
  by (auto simp: affected_rows_def looks_at_def)

lemma settled_mono:
  assumes "inval_frame st st'" and "settled st it"
  shows "settled st' it"
  unfolding settled_def
proof (intro ballI impI)
  fix d assume d: "d \<in> set (rg_deps st')" "looks_at it d"
  have "list_all2 dep_le (rg_deps st) (rg_deps st')" using assms(1) by (simp add: inval_frame_def)
  then obtain c where c: "c \<in> set (rg_deps st)" "dep_le c d" using d(1) list_all2_right by metis
  with d(2) have "d = c" using dep_le_fields by (auto simp: looks_at_def)
  with c(1) d(2) assms(2) have "\<not> known_in st (dr_intent d)" by (auto simp: settled_def)
  with assms(1) show "\<not> known_in st' (dr_intent d)" using known_in_antimono by blast
qed

text \<open>An item of any later hop of the intent.\<close>

definition hop_item :: "string \<Rightarrow> inval_item \<Rightarrow> bool" where
  "hop_item x it \<longleftrightarrow> iv_producer it = x \<and> iv_keys it = []"

definition inval_inv :: "registry \<Rightarrow> inval_item \<Rightarrow> inval_state \<Rightarrow> registry \<Rightarrow> bool" where
  "inval_inv st0 first s st \<longleftrightarrow>
     inval_frame st0 st \<and> keys_unique ir_id (rg_intents st)
     \<and> set (is_stale s) \<subseteq> set (is_seen s)
     \<and> (\<forall>x \<in> set (is_stale s). revoked st x)
     \<and> (\<forall>it \<in> set (is_queue s). it = first \<or> iv_keys it = [])"

definition covered :: "inval_item \<Rightarrow> inval_state \<Rightarrow> registry \<Rightarrow> bool" where
  "covered first s st \<longleftrightarrow>
     (first \<in> set (is_queue s) \<or> settled st first)
     \<and> (\<forall>x \<in> set (is_seen s). x = iv_producer first
          \<or> (\<exists>it \<in> set (is_queue s). hop_item x it) \<or> (\<forall>it. hop_item x it \<longrightarrow> settled st it))"

lemma settled_hop:
  assumes "settled st it" and "iv_keys it = []" and "hop_item (iv_producer it) it'"
  shows "settled st it'"
  using assms by (auto simp: settled_def looks_at_def hop_item_def)

lemma inval_rows_inv:
  assumes "inval_rows sha rd root reason it rows s st = Inr (s', st')"
    and "inval_inv st0 first s st"
    and "\<forall>d \<in> set (rg_deps st). looks_at it d \<longrightarrow>
        (dr_intent d, dr_key d) \<in> set rows \<or> \<not> known_in st (dr_intent d)"
  shows "inval_inv st0 first s' st' \<and> settled st' it \<and> inval_frame st st'
    \<and> (\<exists>new. is_queue s' = is_queue s @ new
         \<and> (\<forall>x \<in> set (is_seen s'). x \<in> set (is_seen s) \<or> (\<exists>n \<in> set new. hop_item x n)))"
  using assms
proof (induction rows arbitrary: s st)
  case Nil
  then show ?case by (auto simp: settled_def)
next
  case (Cons row rows)
  show ?case
  proof (cases "\<exists>r. find_intent st (fst row) = Some r \<and> known_state (ir_state r)")
    case False
    have un: "\<not> known_in st (fst row)"
    proof
      assume "known_in st (fst row)"
      then obtain r where "r \<in> set (rg_intents st)" "ir_id r = fst row" "known_state (ir_state r)"
        by (auto simp: known_in_def)
      with Cons.prems(2) False show False
        by (auto simp: inval_inv_def find_intent_def dest: find_row_unique)
    qed
    have "inval_rows sha rd root reason it rows s st = Inr (s', st')"
      using Cons.prems(1) False by (auto split: option.splits if_splits)
    moreover have "\<forall>d \<in> set (rg_deps st). looks_at it d \<longrightarrow>
        (dr_intent d, dr_key d) \<in> set rows \<or> \<not> known_in st (dr_intent d)"
      using Cons.prems(3) un by force
    ultimately show ?thesis using Cons.IH Cons.prems(2) by blast
  next
    case True
    then obtain r where r: "find_intent st (fst row) = Some r" "known_state (ir_state r)" by blast
    let ?s = "s\<lparr>is_stale := is_stale s @ [fst row]\<rparr>"
    let ?new = "if fst row \<in> set (is_seen s) then []
        else [\<lparr>iv_producer = fst row, iv_keys = [], iv_depth = iv_depth it + 1,
              iv_chain = iv_chain it @ [fst row]\<rparr>]"
    let ?s2 = "?s\<lparr>is_seen := (if fst row \<in> set (is_seen s) then is_seen s else fst row # is_seen s),
        is_queue := is_queue s @ ?new\<rparr>"
    obtain st2 where st2: "stale_one sha rd root reason it row r st = Inr st2"
      and rest: "inval_rows sha rd root reason it rows ?s2 st2 = Inr (s', st')"
      using Cons.prems(1) r by (auto simp: res_bind_eq_Inr Let_def split: if_splits)
    have uq: "keys_unique ir_id (rg_intents st)" using Cons.prems(2) by (simp add: inval_inv_def)
    note eff = stale_one_effect [OF st2 uq r]
    have uq2: "keys_unique ir_id (rg_intents st2)"
      using uq inval_frame_ids [OF eff(1)] by (simp add: keys_unique_def)
    have inv2: "inval_inv st0 first ?s2 st2"
      using Cons.prems(2) uq2 eff revoked_mono [OF eff(1)]
      by (auto simp: inval_inv_def intro: inval_frame_trans)
    have gone: "\<not> known_in st2 (fst row)"
      using eff(2) by (auto simp: revoked_def known_in_def)
    have pre: "\<forall>d \<in> set (rg_deps st2). looks_at it d \<longrightarrow>
        (dr_intent d, dr_key d) \<in> set rows \<or> \<not> known_in st2 (dr_intent d)"
    proof (intro ballI impI)
      fix d assume d: "d \<in> set (rg_deps st2)" "looks_at it d"
      have "list_all2 dep_le (rg_deps st) (rg_deps st2)" using eff(1) by (simp add: inval_frame_def)
      then obtain c where c: "c \<in> set (rg_deps st)" "dep_le c d" using d(1) list_all2_right by metis
      with d(2) have "d = c" using dep_le_fields by (auto simp: looks_at_def)
      with c d(2) Cons.prems(3) have "(dr_intent d, dr_key d) \<in> set (row # rows) \<or> \<not> known_in st (dr_intent d)"
        by blast
      then show "(dr_intent d, dr_key d) \<in> set rows \<or> \<not> known_in st2 (dr_intent d)"
        using gone known_in_antimono [OF eff(1)] by force
    qed
    from Cons.IH [OF rest inv2 pre] obtain new where new:
      "inval_inv st0 first s' st'" "settled st' it" "inval_frame st2 st'"
      "is_queue s' = is_queue ?s2 @ new"
      "\<forall>x \<in> set (is_seen s'). x \<in> set (is_seen ?s2) \<or> (\<exists>n \<in> set new. hop_item x n)"
      by blast
    have "is_queue s' = is_queue s @ (?new @ new)" using new(4) by simp
    moreover have "\<forall>x \<in> set (is_seen s'). x \<in> set (is_seen s) \<or> (\<exists>n \<in> set (?new @ new). hop_item x n)"
    proof
      fix x assume "x \<in> set (is_seen s')"
      with new(5) have "x \<in> set (is_seen s) \<or> (x = fst row \<and> fst row \<notin> set (is_seen s))
          \<or> (\<exists>n \<in> set new. hop_item x n)"
        by (auto split: if_split_asm)
      then show "x \<in> set (is_seen s) \<or> (\<exists>n \<in> set (?new @ new). hop_item x n)"
        by (auto simp: hop_item_def)
    qed
    ultimately show ?thesis
      using new(1-3) eff(1) inval_frame_trans by blast
  qed
qed


lemma card_seen_drop:
  assumes "finite A" and "x \<in> A" and "x \<notin> S"
  shows "card (A - S) = Suc (card (A - insert x S))"
proof -
  have "A - S = insert x (A - insert x S)" using assms by blast
  then show ?thesis using assms(1) by (metis card_insert_disjoint Diff_iff finite_Diff insertI1)
qed

lemma inval_rows_measure:
  assumes "inval_rows sha rd root reason it rows s st = Inr (s', st')"
    and "keys_unique ir_id (rg_intents st)"
  shows "length (is_queue s') + card (ir_id ` set (rg_intents st') - set (is_seen s'))
      \<le> length (is_queue s) + card (ir_id ` set (rg_intents st) - set (is_seen s))
    \<and> keys_unique ir_id (rg_intents st')"
  using assms
proof (induction rows arbitrary: s st)
  case (Cons row rows)
  show ?case
  proof (cases "\<exists>r. find_intent st (fst row) = Some r \<and> known_state (ir_state r)")
    case False
    then have "inval_rows sha rd root reason it rows s st = Inr (s', st')"
      using Cons.prems(1) by (auto split: option.splits if_splits)
    then show ?thesis by (rule Cons.IH [OF _ Cons.prems(2)])
  next
    case True
    then obtain r where r: "find_intent st (fst row) = Some r" "known_state (ir_state r)" by blast
    let ?s2 = "s\<lparr>is_stale := is_stale s @ [fst row],
        is_seen := (if fst row \<in> set (is_seen s) then is_seen s else fst row # is_seen s),
        is_queue := is_queue s @ (if fst row \<in> set (is_seen s) then []
          else [\<lparr>iv_producer = fst row, iv_keys = [], iv_depth = iv_depth it + 1,
                iv_chain = iv_chain it @ [fst row]\<rparr>])\<rparr>"
    obtain st2 where st2: "stale_one sha rd root reason it row r st = Inr st2"
      and rest: "inval_rows sha rd root reason it rows ?s2 st2 = Inr (s', st')"
      using Cons.prems(1) r by (auto simp: res_bind_eq_Inr Let_def split: if_splits)
    have ids: "map ir_id (rg_intents st2) = map ir_id (rg_intents st)"
      by (rule inval_frame_ids [OF stale_one_effect(1) [OF st2 Cons.prems(2) r]])
    then have uq2: "keys_unique ir_id (rg_intents st2)"
      using Cons.prems(2) by (simp add: keys_unique_def)
    have ids': "ir_id ` set (rg_intents st2) = ir_id ` set (rg_intents st)"
      using ids by (metis set_map)
    have mem: "fst row \<in> ir_id ` set (rg_intents st)"
      using r(1) by (force simp: find_intent_def dest!: find_row_SomeD)
    have "length (is_queue ?s2) + card (ir_id ` set (rg_intents st) - set (is_seen ?s2))
        \<le> length (is_queue s) + card (ir_id ` set (rg_intents st) - set (is_seen s))"
    proof (cases "fst row \<in> set (is_seen s)")
      case False
      have "card (ir_id ` set (rg_intents st) - set (is_seen s))
          = Suc (card (ir_id ` set (rg_intents st) - insert (fst row) (set (is_seen s))))"
        by (rule card_seen_drop) (use False mem in simp_all)
      with False show ?thesis by simp
    qed simp
    with Cons.IH [OF rest uq2] ids' show ?thesis by simp
  qed
qed simp

text \<open>None of the refusals below is the loop's own bound.\<close>

lemma record_fence_bound: "record_fence sha iid p reason keys chain bk now st \<noteq> Inl LoopBound"
  by (auto simp: record_fence_def fence_post_init_def Let_def split: if_splits)

lemma fence_broker_bound: "fence_broker sha iid p reason keys chain now b st \<noteq> Inl LoopBound"
  using record_fence_bound by (auto simp: fence_broker_def Let_def res_bind_eq_Inl)

lemma fence_brokers_bound: "fence_brokers sha iid p reason keys chain now bs st \<noteq> Inl LoopBound"
  by (induction bs arbitrary: st) (auto simp: res_bind_eq_Inl fence_broker_bound)

lemma fence_runtime_bound: "fence_intent_runtime sha iid p reason keys chain now st \<noteq> Inl LoopBound"
  by (auto simp: fence_intent_runtime_def res_bind_eq_Inl fence_brokers_bound record_fence_bound)

lemma stale_one_bound: "stale_one sha rd root reason it row r st \<noteq> Inl LoopBound"
  by (auto simp: stale_one_def Let_def res_bind_eq_Inl fence_runtime_bound)

lemma inval_rows_bound: "inval_rows sha rd root reason it rows s st \<noteq> Inl LoopBound"
  by (induction rows arbitrary: s st)
    (auto simp: res_bind_eq_Inl stale_one_bound Let_def split: option.split)

lemma inval_loop_bound:
  assumes "length (is_queue s) + card (ir_id ` set (rg_intents st) - set (is_seen s)) < n"
    and "keys_unique ir_id (rg_intents st)"
  shows "inval_loop n sha rd root reason s st \<noteq> Inl LoopBound"
  using assms
proof (induction n arbitrary: s st)
  case (Suc n)
  show ?case
  proof (cases "is_queue s")
    case (Cons it rest)
    let ?s = "s\<lparr>is_queue := rest\<rparr>"
    show ?thesis
    proof (cases "inval_rows sha rd root reason it (affected_rows it st) ?s st")
      case (Inl e)
      with Cons inval_rows_bound show ?thesis by auto
    next
      case (Inr p)
      obtain s2 st2 where p: "p = (s2, st2)" by (cases p)
      from inval_rows_measure [OF Inr [unfolded p] Suc.prems(2)] Suc.prems(1) Cons
      have "inval_loop n sha rd root reason s2 st2 \<noteq> Inl LoopBound"
        by (intro Suc.IH) auto
      with Cons Inr p show ?thesis by simp
    qed
  qed simp
qed simp

lemma inval_loop_inv:
  assumes "inval_loop n sha rd root reason s st = Inr (stale, st')"
    and "inval_inv st0 first s st" and "covered first s st"
  shows "inval_frame st0 st' \<and> settled st' first
    \<and> (\<forall>x \<in> set stale. revoked st' x
         \<and> (x = iv_producer first \<or> (\<forall>it. hop_item x it \<longrightarrow> settled st' it)))"
  using assms
proof (induction n arbitrary: s st)
  case (Suc n)
  show ?case
  proof (cases "is_queue s")
    case Nil
    with Suc.prems(1) have st: "st' = st" "stale = sorted_set (is_stale s)" by simp_all
    from Suc.prems(2) have "set (is_stale s) \<subseteq> set (is_seen s)" "inval_frame st0 st"
      "\<forall>x \<in> set (is_stale s). revoked st x"
      by (simp_all add: inval_inv_def)
    moreover from Suc.prems(3) Nil have "settled st first"
      "\<forall>x \<in> set (is_seen s). x = iv_producer first \<or> (\<forall>it. hop_item x it \<longrightarrow> settled st it)"
      by (simp_all add: covered_def)
    ultimately show ?thesis unfolding st by (simp add: subset_iff)
  next
    case (Cons it rest)
    let ?s = "s\<lparr>is_queue := rest\<rparr>"
    obtain s2 st2 where rows: "inval_rows sha rd root reason it (affected_rows it st) ?s st = Inr (s2, st2)"
      and loop: "inval_loop n sha rd root reason s2 st2 = Inr (stale, st')"
      using Suc.prems(1) Cons by (auto simp: res_bind_eq_Inr)
    have inv: "inval_inv st0 first ?s st" using Suc.prems(2) Cons by (simp add: inval_inv_def)
    have pre: "\<forall>d \<in> set (rg_deps st). looks_at it d \<longrightarrow>
        (dr_intent d, dr_key d) \<in> set (affected_rows it st) \<or> \<not> known_in st (dr_intent d)"
      by (auto simp: set_affected_rows)
    from inval_rows_inv [OF rows inv pre] obtain new where new:
      "inval_inv st0 first s2 st2" "settled st2 it" "inval_frame st st2"
      "is_queue s2 = rest @ new"
      "\<forall>x \<in> set (is_seen s2). x \<in> set (is_seen s) \<or> (\<exists>n \<in> set new. hop_item x n)"
      by auto
    have "covered first s2 st2"
      unfolding covered_def
    proof (intro conjI ballI)
      show "first \<in> set (is_queue s2) \<or> settled st2 first"
        using Suc.prems(3) Cons new(2-4) settled_mono [OF new(3)] by (auto simp: covered_def)
      fix x assume "x \<in> set (is_seen s2)"
      with new(5) consider "x \<in> set (is_seen s)" | "\<exists>n \<in> set new. hop_item x n" by blast
      then show "x = iv_producer first \<or> (\<exists>it \<in> set (is_queue s2). hop_item x it)
          \<or> (\<forall>it. hop_item x it \<longrightarrow> settled st2 it)"
      proof cases
        case 1
        with Suc.prems(3) Cons have "x = iv_producer first \<or> hop_item x it
            \<or> (\<exists>it \<in> set rest. hop_item x it) \<or> (\<forall>it. hop_item x it \<longrightarrow> settled st it)"
          by (auto simp: covered_def)
        then show ?thesis
          using new(2,4) settled_mono [OF new(3)] settled_hop
          by (auto simp: hop_item_def)
      next
        case 2
        then show ?thesis using new(4) by auto
      qed
    qed
    with Suc.IH [OF loop new(1)] show ?thesis by blast
  qed
qed simp

lemma invalidate_dependents_bound:
  assumes "keys_unique ir_id (rg_intents st)"
  shows "invalidate_dependents sha rd producer keys reason st \<noteq> Inl LoopBound"
proof -
  have "card (ir_id ` set (rg_intents st) - {producer}) \<le> card (ir_id ` set (rg_intents st))"
    by (rule card_mono) auto
  also have "\<dots> \<le> length (rg_intents st)"
    by (metis card_length length_map set_map)
  finally show ?thesis
    unfolding invalidate_dependents_def by (intro inval_loop_bound [OF _ assms]) simp
qed

definition first_item :: "string \<Rightarrow> string list \<Rightarrow> inval_item" where
  "first_item producer keys =
     \<lparr>iv_producer = producer, iv_keys = keys, iv_depth = 0, iv_chain = [producer]\<rparr>"

lemma invalidate_dependents_effect:
  assumes "invalidate_dependents sha rd producer keys reason st = Inr (stale, st')"
    and "keys_unique ir_id (rg_intents st)"
  shows "inval_frame st st'" and "settled st' (first_item producer keys)"
    and "\<And>x. x \<in> set stale \<Longrightarrow> revoked st' x"
    and "\<And>x it. x \<in> set stale \<Longrightarrow> x \<noteq> producer \<Longrightarrow> hop_item x it \<Longrightarrow> settled st' it"
proof -
  let ?s = "\<lparr>is_queue = [first_item producer keys], is_seen = [producer], is_stale = []\<rparr>"
  have "inval_inv st (first_item producer keys) ?s st"
    using assms(2) by (simp add: inval_inv_def)
  moreover have "covered (first_item producer keys) ?s st"
    by (simp add: covered_def first_item_def)
  ultimately have "inval_frame st st' \<and> settled st' (first_item producer keys)
    \<and> (\<forall>x \<in> set stale. revoked st' x
         \<and> (x = iv_producer (first_item producer keys) \<or> (\<forall>it. hop_item x it \<longrightarrow> settled st' it)))"
    using assms(1) unfolding invalidate_dependents_def first_item_def by (intro inval_loop_inv)
  then show "inval_frame st st'" "settled st' (first_item producer keys)"
    "\<And>x. x \<in> set stale \<Longrightarrow> revoked st' x"
    "\<And>x it. x \<in> set stale \<Longrightarrow> x \<noteq> producer \<Longrightarrow> hop_item x it \<Longrightarrow> settled st' it"
    by (auto simp: first_item_def)
qed


section \<open>No edge is dropped silently\<close>

text \<open>
  A dependency row stays as it was, or its dependent has been revoked; an intent row that is
  stale was there before, or its intent has been revoked.
\<close>

definition edges_kept :: "registry \<Rightarrow> registry \<Rightarrow> bool" where
  "edges_kept st st' \<longleftrightarrow> (\<forall>d \<in> set (rg_deps st). d \<in> set (rg_deps st') \<or> revoked st' (dr_intent d))
     \<and> (\<forall>r \<in> set (rg_intents st'). ir_state r = S_STALE \<longrightarrow> r \<in> set (rg_intents st) \<or> revoked st' (ir_id r))"

lemma edges_kept_refl [simp]: "edges_kept st st"
  by (simp add: edges_kept_def)

lemma edges_kept_trans:
  "edges_kept a b \<Longrightarrow> edges_kept b c \<Longrightarrow> inval_frame b c \<Longrightarrow> edges_kept a c"
  unfolding edges_kept_def using revoked_mono by blast

lemma stale_one_edges:
  assumes "stale_one sha rd root reason it row current st = Inr st'"
    and "keys_unique ir_id (rg_intents st)" and "find_intent st (fst row) = Some current"
    and "known_state (ir_state current)"
  shows "edges_kept st st'"
proof -
  let ?m = "mark_stale (rd_invalidate rd) (fst row) (iv_producer it) st"
  obtain fs s where f: "fence_intent_runtime sha (fst row) (Some (iv_producer it)) reason (iv_keys it)
      (iv_chain it @ [fst row]) (rd_fence rd (fst row)) ?m = Inr (fs, s)"
    and tables: "rg_deps st' = rg_deps s" "rg_intents st' = rg_intents s"
    using assms(1) by (auto simp: stale_one_def Let_def res_bind_eq_Inr)
  have "rg_deps s = rg_deps ?m" and ints: "rg_intents s = rg_intents ?m"
    using fence_intent_runtime_effect(1) [OF f] by (simp_all add: fence_frame_def)
  have rows: "r \<in> set (rg_intents st) \<or> ir_id r = fst row" if "r \<in> set (rg_intents ?m)" for r
    using that by (auto simp: mark_stale_def intent_row_update_def elim!: update_rowsE)
  note \<open>rg_deps s = rg_deps ?m\<close>
  moreover have "d \<in> set (rg_deps ?m)" if "d \<in> set (rg_deps st)" "dr_intent d \<noteq> fst row" for d
    using that by (force simp: mark_stale_def in_update_rows)
  moreover have "revoked st' (fst row)" by (rule stale_one_effect(2) [OF assms])
  ultimately show ?thesis unfolding edges_kept_def tables ints using rows by metis
qed

lemma inval_rows_edges:
  assumes "inval_rows sha rd root reason it rows s st = Inr (s', st')"
    and "keys_unique ir_id (rg_intents st)"
  shows "edges_kept st st' \<and> inval_frame st st'"
  using assms
proof (induction rows arbitrary: s st)
  case Nil
  then show ?case by simp
next
  case (Cons row rows)
  show ?case
  proof (cases "\<exists>r. find_intent st (fst row) = Some r \<and> known_state (ir_state r)")
    case False
    then have "inval_rows sha rd root reason it rows s st = Inr (s', st')"
      using Cons.prems(1) by (auto split: option.splits if_splits)
    then show ?thesis by (rule Cons.IH [OF _ Cons.prems(2)])
  next
    case True
    then obtain r where r: "find_intent st (fst row) = Some r" "known_state (ir_state r)" by blast
    then obtain s2 st2 where st2: "stale_one sha rd root reason it row r st = Inr st2"
      and rest: "inval_rows sha rd root reason it rows s2 st2 = Inr (s', st')"
      using Cons.prems(1) by (auto simp: res_bind_eq_Inr Let_def split: if_splits)
    note one = stale_one_effect(1) [OF st2 Cons.prems(2) r] stale_one_edges [OF st2 Cons.prems(2) r]
    have "keys_unique ir_id (rg_intents st2)"
      using Cons.prems(2) inval_frame_ids [OF one(1)] by (simp add: keys_unique_def)
    from Cons.IH [OF rest this] one show ?thesis
      using edges_kept_trans inval_frame_trans by blast
  qed
qed

lemma inval_loop_edges:
  assumes "inval_loop n sha rd root reason s st = Inr (stale, st')"
    and "keys_unique ir_id (rg_intents st)"
  shows "edges_kept st st' \<and> inval_frame st st'"
  using assms
proof (induction n arbitrary: s st)
  case (Suc n)
  show ?case
  proof (cases "is_queue s")
    case Nil
    with Suc.prems show ?thesis by simp
  next
    case (Cons it rest)
    obtain s2 st2 where rows: "inval_rows sha rd root reason it (affected_rows it st)
        (s\<lparr>is_queue := rest\<rparr>) st = Inr (s2, st2)"
      and loop: "inval_loop n sha rd root reason s2 st2 = Inr (stale, st')"
      using Suc.prems(1) Cons by (auto simp: res_bind_eq_Inr)
    note one = inval_rows_edges [OF rows Suc.prems(2)]
    have "keys_unique ir_id (rg_intents st2)"
      using Suc.prems(2) inval_frame_ids one by (metis keys_unique_def)
    from Suc.IH [OF loop this] one show ?thesis
      using edges_kept_trans inval_frame_trans by blast
  qed
qed simp

lemma revoked_not_known: "revoked st x \<Longrightarrow> \<not> known_in st x"
  by (auto simp: revoked_def known_in_def)

lemma settled_before:
  assumes "edges_kept st st'" and "settled st' it" and "d \<in> set (rg_deps st)" and "looks_at it d"
  shows "\<not> known_in st' (dr_intent d)"
  using assms revoked_not_known unfolding edges_kept_def settled_def by blast

lemma invalidation_complete:
  assumes "invalidate_dependents sha rd producer keys reason st = Inr (stale, st')"
    and "keys_unique ir_id (rg_intents st)" and "d \<in> set (rg_deps st)" and "dr_status d = DS_ACTIVE"
    and "dr_producer d = producer \<and> (keys = [] \<or> dr_key d = [] \<or> dr_key d \<in> set keys)
      \<or> dr_producer d \<in> set stale \<and> dr_producer d \<noteq> producer"
  shows "\<not> known_in st' (dr_intent d)"
proof -
  note eff = invalidate_dependents_effect [OF assms(1,2)]
  have kept: "edges_kept st st'"
    using assms(1,2) inval_loop_edges unfolding invalidate_dependents_def by blast
  from assms(5) show ?thesis
  proof
    assume "dr_producer d = producer \<and> (keys = [] \<or> dr_key d = [] \<or> dr_key d \<in> set keys)"
    with assms(4) have "looks_at (first_item producer keys) d"
      by (auto simp: looks_at_def first_item_def)
    then show ?thesis by (rule settled_before [OF kept eff(2) assms(3)])
  next
    assume a: "dr_producer d \<in> set stale \<and> dr_producer d \<noteq> producer"
    let ?it = "\<lparr>iv_producer = dr_producer d, iv_keys = [], iv_depth = 1, iv_chain = []\<rparr>"
    have "hop_item (dr_producer d) ?it" "looks_at ?it d"
      using assms(4) by (auto simp: hop_item_def looks_at_def)
    with a show ?thesis using settled_before [OF kept eff(4) assms(3)] by blast
  qed
qed


section \<open>Exactly the chain is revoked\<close>

text \<open>
  What rests on the changed intent: the dependents of its active edges with a changed key, and,
  hop by hop, the dependents of the active edges of those. Only an intent that is admitted,
  active or completed is a link.
\<close>

inductive premise_chain :: "registry \<Rightarrow> string \<Rightarrow> string list \<Rightarrow> string \<Rightarrow> bool"
  for st :: registry and producer :: string and keys :: "string list" where
  direct: "d \<in> set (rg_deps st) \<Longrightarrow> dr_status d = DS_ACTIVE \<Longrightarrow> dr_producer d = producer
    \<Longrightarrow> keys = [] \<or> dr_key d = [] \<or> dr_key d \<in> set keys \<Longrightarrow> known_in st (dr_intent d)
    \<Longrightarrow> premise_chain st producer keys (dr_intent d)"
| further: "premise_chain st producer keys (dr_producer d) \<Longrightarrow> dr_producer d \<noteq> producer
    \<Longrightarrow> d \<in> set (rg_deps st) \<Longrightarrow> dr_status d = DS_ACTIVE \<Longrightarrow> known_in st (dr_intent d)
    \<Longrightarrow> premise_chain st producer keys (dr_intent d)"

lemma stale_one_others:
  assumes "stale_one sha rd root reason it row current st = Inr st'" and "known_in st x" and "x \<noteq> fst row"
  shows "known_in st' x"
proof -
  let ?m = "mark_stale (rd_invalidate rd) (fst row) (iv_producer it) st"
  obtain fs s where f: "fence_intent_runtime sha (fst row) (Some (iv_producer it)) reason (iv_keys it)
      (iv_chain it @ [fst row]) (rd_fence rd (fst row)) ?m = Inr (fs, s)" and "rg_intents st' = rg_intents s"
    using assms(1) by (auto simp: stale_one_def Let_def res_bind_eq_Inr)
  moreover have "rg_intents s = rg_intents ?m"
    using fence_intent_runtime_effect(1) [OF f] by (simp add: fence_frame_def)
  moreover have "\<exists>r \<in> set (rg_intents ?m). ir_id r = x \<and> known_state (ir_state r)"
    using assms(2,3) by (force simp: known_in_def mark_stale_def intent_row_update_def in_update_rows)
  ultimately show ?thesis by (simp add: known_in_def)
qed

text \<open>
  The invariant of the worklist for any predicate \<open>C\<close> of the links: only links are collected and
  queued, and what was known is collected or still known.
\<close>

definition chain_inv ::
  "(string \<Rightarrow> bool) \<Rightarrow> inval_item \<Rightarrow> registry \<Rightarrow> inval_state \<Rightarrow> registry \<Rightarrow> bool" where
  "chain_inv C first st0 s st \<longleftrightarrow> keys_unique ir_id (rg_intents st) \<and> inval_frame st0 st
     \<and> (\<forall>x \<in> set (is_stale s). C x) \<and> iv_producer first \<in> set (is_seen s)
     \<and> (\<forall>it \<in> set (is_queue s). it = first \<or> C (iv_producer it) \<and> iv_producer it \<noteq> iv_producer first)
     \<and> (\<forall>x. known_in st0 x \<longrightarrow> x \<in> set (is_stale s) \<or> known_in st x)"

lemma inval_rows_chain:
  assumes "inval_rows sha rd root reason it rows s st = Inr (s', st')" and "chain_inv C first st0 s st"
    and "\<forall>row \<in> set rows. known_in st0 (fst row) \<longrightarrow> C (fst row)"
  shows "chain_inv C first st0 s' st'"
  using assms
proof (induction rows arbitrary: s st)
  case (Cons row rows)
  show ?case
  proof (cases "\<exists>r. find_intent st (fst row) = Some r \<and> known_state (ir_state r)")
    case False
    then have "inval_rows sha rd root reason it rows s st = Inr (s', st')"
      using Cons.prems(1) by (auto split: option.splits if_splits)
    from Cons.IH [OF this Cons.prems(2)] Cons.prems(3) show ?thesis by simp
  next
    case True
    then obtain r where r: "find_intent st (fst row) = Some r" "known_state (ir_state r)" by blast
    let ?s2 = "s\<lparr>is_stale := is_stale s @ [fst row],
        is_seen := (if fst row \<in> set (is_seen s) then is_seen s else fst row # is_seen s),
        is_queue := is_queue s @ (if fst row \<in> set (is_seen s) then []
          else [\<lparr>iv_producer = fst row, iv_keys = [], iv_depth = iv_depth it + 1,
                iv_chain = iv_chain it @ [fst row]\<rparr>])\<rparr>"
    obtain st2 where st2: "stale_one sha rd root reason it row r st = Inr st2"
      and rest: "inval_rows sha rd root reason it rows ?s2 st2 = Inr (s', st')"
      using Cons.prems(1) r by (auto simp: res_bind_eq_Inr Let_def split: if_splits)
    have uq: "keys_unique ir_id (rg_intents st)" and frame: "inval_frame st0 st"
      using Cons.prems(2) by (simp_all add: chain_inv_def)
    note one = stale_one_effect(1) [OF st2 uq r]
    have "known_in st (fst row)"
      using r by (auto simp: known_in_def find_intent_def dest!: find_row_SomeD)
    then have "C (fst row)" using known_in_antimono [OF frame] Cons.prems(3) by simp
    moreover have "keys_unique ir_id (rg_intents st2)"
      using uq inval_frame_ids [OF one] by (simp add: keys_unique_def)
    moreover have "inval_frame st0 st2" using frame one by (rule inval_frame_trans)
    moreover have "x \<in> set (is_stale ?s2) \<or> known_in st2 x" if "known_in st0 x" for x
      using that Cons.prems(2) stale_one_others [OF st2] by (auto simp: chain_inv_def)
    ultimately have "chain_inv C first st0 ?s2 st2"
      using Cons.prems(2) by (auto simp: chain_inv_def)
    from Cons.IH [OF rest this] Cons.prems(3) show ?thesis by simp
  qed
qed simp

lemma inval_loop_chain:
  assumes "inval_loop n sha rd root reason s st = Inr (stale, st')"
    and "chain_inv (premise_chain st0 producer keys) (first_item producer keys) st0 s st"
  shows "(\<forall>x \<in> set stale. premise_chain st0 producer keys x)
    \<and> (\<forall>x. known_in st0 x \<longrightarrow> x \<in> set stale \<or> known_in st' x)"
  using assms
proof (induction n arbitrary: s st)
  case (Suc n)
  show ?case
  proof (cases "is_queue s")
    case Nil
    with Suc.prems show ?thesis by (auto simp: chain_inv_def)
  next
    case (Cons it rest)
    obtain s2 st2 where rows: "inval_rows sha rd root reason it (affected_rows it st)
        (s\<lparr>is_queue := rest\<rparr>) st = Inr (s2, st2)"
      and loop: "inval_loop n sha rd root reason s2 st2 = Inr (stale, st')"
      using Suc.prems(1) Cons by (auto simp: res_bind_eq_Inr)
    have inv: "chain_inv (premise_chain st0 producer keys) (first_item producer keys) st0 (s\<lparr>is_queue := rest\<rparr>) st"
      using Suc.prems(2) Cons by (simp add: chain_inv_def)
    have "premise_chain st0 producer keys (fst row)"
      if row: "row \<in> set (affected_rows it st)" "known_in st0 (fst row)" for row
    proof -
      obtain d where d: "d \<in> set (rg_deps st)" "looks_at it d" "fst row = dr_intent d"
        using row(1) by (auto simp: set_affected_rows)
      have "list_all2 dep_le (rg_deps st0) (rg_deps st)" using inv by (simp add: chain_inv_def inval_frame_def)
      then obtain c where "c \<in> set (rg_deps st0)" "dep_le c d" using d(1) list_all2_right by metis
      with d(2) have mem: "d \<in> set (rg_deps st0)" using dep_le_fields by (auto simp: looks_at_def)
      have "it = first_item producer keys \<or> premise_chain st0 producer keys (iv_producer it) \<and> iv_producer it \<noteq> producer"
        using Suc.prems(2) Cons by (auto simp: chain_inv_def first_item_def)
      then show ?thesis
      proof
        assume "it = first_item producer keys"
        with d(2) have "dr_status d = DS_ACTIVE" "dr_producer d = producer" "keys = [] \<or> dr_key d = [] \<or> dr_key d \<in> set keys"
          by (auto simp: looks_at_def first_item_def)
        from premise_chain.direct [OF mem this] row(2) d(3) show ?thesis by simp
      next
        assume "premise_chain st0 producer keys (iv_producer it) \<and> iv_producer it \<noteq> producer"
        with d(2) mem row(2) d(3) show ?thesis by (auto simp: looks_at_def intro: premise_chain.further)
      qed
    qed
    with inval_rows_chain [OF rows inv] have "chain_inv (premise_chain st0 producer keys) (first_item producer keys) st0 s2 st2"
      by blast
    from Suc.IH [OF loop this] show ?thesis .
  qed
qed simp

lemma invalidation_exact:
  assumes "invalidate_dependents sha rd producer keys reason st = Inr (stale, st')"
    and "keys_unique ir_id (rg_intents st)"
  shows "x \<in> set stale \<longleftrightarrow> premise_chain st producer keys x"
    and "known_in st x \<Longrightarrow> x \<notin> set stale \<Longrightarrow> known_in st' x"
proof -
  let ?s = "\<lparr>is_queue = [first_item producer keys], is_seen = [producer], is_stale = []\<rparr>"
  have "chain_inv (premise_chain st producer keys) (first_item producer keys) st ?s st"
    using assms(2) by (simp add: chain_inv_def first_item_def)
  from inval_loop_chain [OF _ this] assms(1)
  have sound: "\<forall>x \<in> set stale. premise_chain st producer keys x"
    and kept: "\<forall>x. known_in st x \<longrightarrow> x \<in> set stale \<or> known_in st' x"
    unfolding invalidate_dependents_def first_item_def by blast+
  have "y \<in> set stale" if "premise_chain st producer keys y" for y
    using that
  proof (induction rule: premise_chain.induct)
    case (direct d)
    then show ?case using invalidation_complete [OF assms direct(1,2)] kept by blast
  next
    case (further d)
    then show ?case using invalidation_complete [OF assms further(3,4)] kept by blast
  qed
  with sound show "x \<in> set stale \<longleftrightarrow> premise_chain st producer keys x" by blast
  show "known_in st x \<Longrightarrow> x \<notin> set stale \<Longrightarrow> known_in st' x" using kept by blast
qed


section \<open>The guarantee\<close>

text \<open>
  C8: in a registry with unique intent ids invalidation always ends within its bound. When it
  succeeds, its list holds exactly the intents that rest on the changed one: the admitted,
  active or completed dependents of its active edges with a changed key and, hop by hop through
  such dependents, of their active edges. Each of them is stale afterwards and has no live broker; every other intent that was
  admitted, active or completed still is; and no dependent of an active edge of a listed intent,
  or of a changed key of the changed one, is admitted, active or completed any more.
\<close>
theorem invalidation_revokes_dependents:
  assumes "keys_unique ir_id (rg_intents st)"
  shows "(case invalidate_dependents sha rd producer keys reason st of
      Inl e \<Rightarrow> e \<noteq> LoopBound
    | Inr (stale, st') \<Rightarrow>
        (\<forall>x. x \<in> set stale \<longleftrightarrow> premise_chain st producer keys x)
        \<and> (\<forall>x \<in> set stale. revoked st' x)
        \<and> (\<forall>x. known_in st x \<and> x \<notin> set stale \<longrightarrow> known_in st' x)
        \<and> (\<forall>d \<in> set (rg_deps st). dr_status d = DS_ACTIVE
             \<and> (dr_producer d = producer \<and> (keys = [] \<or> dr_key d = [] \<or> dr_key d \<in> set keys)
                \<or> dr_producer d \<in> set stale \<and> dr_producer d \<noteq> producer)
             \<longrightarrow> \<not> known_in st' (dr_intent d)))"
proof (cases "invalidate_dependents sha rd producer keys reason st")
  case (Inl e)
  then show ?thesis using invalidate_dependents_bound [OF assms] by auto
next
  case (Inr p)
  obtain stale st' where p: "p = (stale, st')" by (cases p)
  note eff = invalidate_dependents_effect [OF Inr [unfolded p] assms]
    and all = invalidation_complete [OF Inr [unfolded p] assms]
    and exact = invalidation_exact [OF Inr [unfolded p] assms]
  show ?thesis unfolding Inr p sum.case prod.case using eff(3) all exact by blast
qed

end
