(* ===== verification/BrokerAuth.thy ===== *)
theory BrokerAuth
  imports RegState
begin

text \<open>
  The signed binding of a broker instance to one intent content: the payload that is signed,
  the check of the stored attestation against the current row, and the rebinding that scope
  promotion does. The parameter \<open>mac\<close> is HMAC-SHA256 of a value's canonical JSON text, as a
  hex digest; a raw text is passed as the JSON string.
\<close>

definition broker_payload :: "broker_row \<Rightarrow> metadata" where
  "broker_payload b =
     [(''protocol'', JStr ''claim-plane.broker-instance.v2''),
      (''instance_id'', JStr (bk_id b)), (''intent_id'', JStr (bk_intent b)),
      (''intent_content_version'', JInt (bk_content b)),
      (''intent_fingerprint'', JStr (bk_fingerprint b)), (''session_id'', JStr (bk_session b)),
      (''monitor_id'', JStr (bk_monitor b)), (''key_id'', JStr (bk_key_id b)),
      (''root_path'', JStr (bk_root b)), (''repo_identity'', JStr (bk_repo b)),
      (''base_commit'', JStr (bk_base b)), (''initial_tree_hash'', JStr (bk_initial_tree b)),
      (''writer_lease_seconds'', JInt (bk_lease_seconds b)), (''fencing_token'', JInt (bk_token b)),
      (''policy_digest'', JStr (bk_policy_digest b)), (''binary_digest'', JStr (bk_binary b)),
      (''started_at'', JInt (bk_started b))]"

definition sign :: "(string \<Rightarrow> json \<Rightarrow> string) \<Rightarrow> string \<Rightarrow> metadata \<Rightarrow> string" where
  "sign mac key payload = mac key (canon (JObj payload))"

text \<open>\<open>{**payload, "algorithm": ..., "signature": ...}\<close>.\<close>

definition attest :: "(string \<Rightarrow> json \<Rightarrow> string) \<Rightarrow> string \<Rightarrow> metadata \<Rightarrow> metadata" where
  "attest mac key payload =
     payload @ [(''algorithm'', JStr ''hmac-sha256''), (''signature'', JStr (sign mac key payload))]"

definition find_broker :: "registry \<Rightarrow> string \<Rightarrow> broker_row option" where
  "find_broker st iid = find_row bk_id iid (rg_brokers st)"

definition or_empty :: "json \<Rightarrow> string" where
  "or_empty v = (if truthy v then py_str v else [])"

definition verify_broker_attestation ::
  "(string \<Rightarrow> json \<Rightarrow> string) \<Rightarrow> string \<Rightarrow> string \<Rightarrow> registry \<Rightarrow> registry_error + broker_row" where
  "verify_broker_attestation mac broker_key instance_id st =
     (if broker_key = [] then Inl (BadArgument ''broker signing key must not be empty'')
      else case find_broker st instance_id of
          None \<Rightarrow> Inl (UnknownBroker instance_id)
        | Some b \<Rightarrow>
            let expected = sign mac broker_key (broker_payload b)
            in if jget (bk_attestation b) ''algorithm'' \<noteq> JStr ''hmac-sha256''
                  \<or> or_empty (jget (bk_attestation b) ''signature'') \<noteq> expected
               then Inl (BrokerRefused ''broker instance attestation is invalid'')
               else Inr b)"

definition refresh_broker_binding ::
  "(string \<Rightarrow> json \<Rightarrow> string) \<Rightarrow> int \<Rightarrow> string \<Rightarrow> string \<Rightarrow> int \<Rightarrow> string \<Rightarrow> string \<Rightarrow> registry
   \<Rightarrow> registry_error + registry" where
  "refresh_broker_binding mac now instance_id iid content fingerprint broker_key st =
     res_bind (verify_broker_attestation mac broker_key instance_id st) (\<lambda>b.
       if bk_state b \<noteq> BK_ACTIVE then Inl (BrokerRefused ''broker instance is not active'')
       else if bk_intent b \<noteq> iid then Inl (BrokerRefused ''broker instance belongs to another intent'')
       else
         let rebound = b\<lparr>bk_content := content, bk_fingerprint := fingerprint\<rparr>;
             attestation = attest mac broker_key (broker_payload rebound)
         in Inr (st\<lparr>rg_brokers := update_rows (\<lambda>x. bk_id x = instance_id)
                   (\<lambda>x. x\<lparr>bk_content := content, bk_fingerprint := fingerprint,
                        bk_attestation := attestation, bk_seen := now\<rparr>) (rg_brokers st),
                 rg_sessions := update_rows (\<lambda>s. sn_broker s = Some instance_id)
                   (\<lambda>s. s\<lparr>sn_broker_attestation := Some attestation\<rparr>) (rg_sessions st)\<rparr>))"

text \<open>An attestation verifies under the key that signed it, for the payload it was made for.\<close>

lemma jget_append: "jget (a @ b) k = (if k \<in> fst ` set a then jget a k else jget b k)"
  by (force simp: jget_def map_of_eq_None_iff map_add_def map_of_append split: option.split
      dest: map_of_SomeD)

lemma payload_keys:
  "''algorithm'' \<notin> fst ` set (broker_payload b)" "''signature'' \<notin> fst ` set (broker_payload b)"
  by (simp_all add: broker_payload_def)

lemma attest_verifies:
  assumes "sign mac key (broker_payload b) \<noteq> []"
  shows "jget (attest mac key (broker_payload b)) ''algorithm'' = JStr ''hmac-sha256''"
    and "or_empty (jget (attest mac key (broker_payload b)) ''signature'')
      = sign mac key (broker_payload b)"
  using assms by (simp_all add: attest_def jget_append payload_keys) (simp_all add: jget_def or_empty_def py_str_def)

lemma verify_broker_attestation_Inr:
  "verify_broker_attestation mac key iid st = Inr b \<Longrightarrow> find_broker st iid = Some b"
  by (auto simp: verify_broker_attestation_def Let_def split: if_splits option.splits)

lemma refresh_binding_fields:
  assumes "refresh_broker_binding mac now inst iid content fp key st = Inr st'"
  shows "rg_intents st' = rg_intents st" "rg_deps st' = rg_deps st" "rg_leases st' = rg_leases st"
    "rg_ops st' = rg_ops st" "rg_counters st' = rg_counters st" "rg_recoveries st' = rg_recoveries st"
    "rg_fences st' = rg_fences st" "rg_observations st' = rg_observations st"
    "map bk_id (rg_brokers st') = map bk_id (rg_brokers st)"
    "map bk_intent (rg_brokers st') = map bk_intent (rg_brokers st)"
    "map bk_state (rg_brokers st') = map bk_state (rg_brokers st)"
    "map bk_token (rg_brokers st') = map bk_token (rg_brokers st)"
    "map bk_root (rg_brokers st') = map bk_root (rg_brokers st)"
  using assms
  by (auto simp: refresh_broker_binding_def Let_def res_bind_eq_Inr map_key_update_rows
      split: if_splits)

end
