(* ===== verification/Intents.thy ===== *)
theory Intents
  imports Fencing BrokerAuth
begin

text \<open>
  The intent lifecycle of \<open>core/registry.py\<close>: admission and re-admission, promotion of
  contingent scope, amendment, activation, completion, release, heartbeats and expiry. The
  evaluator is the argument the callers pass in; \<open>sha\<close> and \<open>mac\<close> are the digest and the HMAC
  of a canonical JSON value.
\<close>


section \<open>Admission\<close>

definition admission_state :: "admission_decision \<Rightarrow> intent_state" where
  "admission_state d = (if ad_allowed d then S_ADMITTED else S_BLOCKED)"

definition new_intent_row ::
  "(json \<Rightarrow> string) \<Rightarrow> readings \<Rightarrow> change_intent \<Rightarrow> admission_decision \<Rightarrow> intent_row" where
  "new_intent_row sha rd i d =
     \<lparr>ir_id = ci_intent_id i, ir_task = ci_task_id i, ir_owner = ci_owner i,
      ir_base_revision = ci_base_revision i, ir_state = admission_state d,
      ir_fingerprint = intent_fingerprint sha i, ir_payload = i, ir_admission = d,
      ir_created = rd_now rd, ir_updated = rd_now rd,
      ir_lease = lease_until (rd_future rd) (ci_lease_seconds i), ir_version = 1, ir_content = 1\<rparr>"

definition readmit_row :: "readings \<Rightarrow> change_intent \<Rightarrow> admission_decision \<Rightarrow> intent_row \<Rightarrow> intent_row" where
  "readmit_row rd i d r =
     r\<lparr>ir_state := admission_state d, ir_admission := d, ir_updated := rd_now rd,
       ir_lease := lease_until (rd_future rd) (ci_lease_seconds i), ir_version := ir_version r + 1\<rparr>"

text \<open>What both branches of \<open>admit_intent\<close> do once the intent row is written.\<close>

definition finish_admission ::
  "readings \<Rightarrow> string \<Rightarrow> string \<Rightarrow> change_intent \<Rightarrow> admission_decision \<Rightarrow> registry \<Rightarrow> registry" where
  "finish_admission rd yes no i d st =
     log_event (if ad_allowed d then yes else no) (Some (ci_intent_id i)) (Some (ci_owner i))
       (decision_dict d)
       (if ad_allowed d then replace_edges (rd_edges rd) i d st else st)"

definition admit_intent ::
  "(json \<Rightarrow> string) \<Rightarrow> evaluator \<Rightarrow> readings \<Rightarrow> change_intent \<Rightarrow> registry
   \<Rightarrow> registry_error + admission_decision \<times> registry" where
  "admit_intent sha ev rd i st0 =
     (let st = expire_intents rd st0
      in case find_intent st (ci_intent_id i) of
          Some row \<Rightarrow>
            if ir_fingerprint row \<noteq> intent_fingerprint sha i
            then Inl (ContentDiffers (ci_intent_id i))
            else if ir_state row \<noteq> S_BLOCKED then Inr (ir_admission row, st)
            else res_bind (decide ev i (active_intents rd (Some (ci_intent_id i)) st)
                             (known_intent_ids st) st) (\<lambda>d.
              Inr (d, finish_admission rd ''intent_readmitted'' ''intent_reblocked'' i d
                        (intent_row_update (ci_intent_id i) (readmit_row rd i d) st)))
        | None \<Rightarrow>
            res_bind (decide ev i (active_intents rd None st) (known_intent_ids st) st) (\<lambda>d.
              Inr (d, finish_admission rd ''intent_admitted'' ''intent_blocked'' i d
                        (st\<lparr>rg_intents := rg_intents st @ [new_intent_row sha rd i d]\<rparr>))))"


section \<open>Promotion of contingent scope\<close>

text \<open>The registry's own reading of a line region: a full match with positive, ordered ends.\<close>

definition parse_region :: "string option \<Rightarrow> (nat \<times> nat) option" where
  "parse_region v = (case v of None \<Rightarrow> None
     | Some s \<Rightarrow> (case full_interval (strip s) of None \<Rightarrow> None
         | Some (a, b) \<Rightarrow> if a = 0 \<or> b < a then None else Some (a, b)))"

definition region_covers :: "string option \<Rightarrow> (nat \<times> nat) option \<Rightarrow> bool" where
  "region_covers declared requested = (case requested of
       None \<Rightarrow> declared = None
     | Some (x, y) \<Rightarrow> (case declared of None \<Rightarrow> True
         | Some _ \<Rightarrow> (case parse_region declared of None \<Rightarrow> False
             | Some (a, b) \<Rightarrow> a \<le> x \<and> x \<le> y \<and> y \<le> b)))"

definition region_text :: "nat \<times> nat \<Rightarrow> string" where
  "region_text p = ''lines:'' @ nat_str (fst p) @ ''-'' @ nat_str (snd p)"

text \<open>The path argument: inside the repository, no leading \<open>./\<close>, no trailing slash.\<close>

definition promotion_path :: "string \<Rightarrow> registry_error + string" where
  "promotion_path raw =
     (let p = strip (slashes raw)
      in if starts_with p ''/'' \<or> ''..'' \<in> set (split_on (CHR ''/'') p)
         then Inl (BadArgument ''scope promotion path must stay inside the repository'')
         else let q = rstrip_slash (drop_dot_slash p)
              in if q = [] then Inl (BadArgument ''scope promotion path must not be empty'') else Inr q)"

definition promotion_region :: "string option \<Rightarrow> registry_error + (nat \<times> nat) option" where
  "promotion_region region = (case region of
       None \<Rightarrow> Inr None
     | Some s \<Rightarrow> (case parse_region (Some s) of
           None \<Rightarrow> Inl (BadArgument ''scope promotion region must be a positive line interval'')
         | Some p \<Rightarrow> Inr (Some p)))"

text \<open>The contingent operations that cover the request, by position.\<close>

definition is_candidate ::
  "access_mode list \<Rightarrow> string \<Rightarrow> (nat \<times> nat) option \<Rightarrow> intent_operation \<Rightarrow> bool" where
  "is_candidate modes path requested op =
     (op_contingent op \<and> op_access op \<in> set modes \<and> path_kind (rr_kind (op_resource op))
      \<and> covers_path (op_resource op) path \<and> region_covers (rr_region (op_resource op)) requested)"

definition candidate_indexes ::
  "access_mode list \<Rightarrow> string \<Rightarrow> (nat \<times> nat) option \<Rightarrow> intent_operation list \<Rightarrow> nat list" where
  "candidate_indexes modes path requested ops =
     map fst (filter (\<lambda>(i, op). is_candidate modes path requested op) (enumerate 0 ops))"

definition bounded_candidates ::
  "access_mode list \<Rightarrow> string \<Rightarrow> (nat \<times> nat) option \<Rightarrow> intent_operation list \<Rightarrow> (nat \<times> nat) list" where
  "bounded_candidates modes path requested ops =
     concat (map (\<lambda>(i, op). if is_candidate modes path requested op
         then (case parse_region (rr_region (op_resource op)) of
                 None \<Rightarrow> [] | Some (a, b) \<Rightarrow> [(b - a, i)]) else [])
       (enumerate 0 ops))"

definition exact_candidates ::
  "access_mode list \<Rightarrow> string \<Rightarrow> (nat \<times> nat) option \<Rightarrow> intent_operation list \<Rightarrow> nat list" where
  "exact_candidates modes path requested ops =
     map fst (filter (\<lambda>(i, op). is_candidate modes path requested op \<and> \<not> is_pattern (op_resource op))
       (enumerate 0 ops))"

text \<open>The narrowest bounded ones, or the exact ones, or all.\<close>

definition selected_indexes ::
  "access_mode list \<Rightarrow> string \<Rightarrow> (nat \<times> nat) option \<Rightarrow> intent_operation list \<Rightarrow> nat list" where
  "selected_indexes modes path requested ops =
     (let bounded = bounded_candidates modes path requested ops;
          exact = exact_candidates modes path requested ops
      in if requested \<noteq> None \<and> bounded \<noteq> [] then
           (let narrowest = Min (set (map fst bounded))
            in map snd (filter (\<lambda>(span, i). span = narrowest) bounded))
         else if exact \<noteq> [] then exact
         else candidate_indexes modes path requested ops)"

type_synonym commit_key = "access_mode \<times> resource_kind \<times> string \<times> string option"

definition commit_key_of :: "intent_operation \<Rightarrow> commit_key" where
  "commit_key_of op = (op_access op, rr_kind (op_resource op), rr_identifier (op_resource op),
     rr_region (op_resource op))"

text \<open>The concrete operation a broad contingent one is narrowed to.\<close>

definition concrete_operation ::
  "string \<Rightarrow> (nat \<times> nat) option \<Rightarrow> intent_operation \<Rightarrow> registry_error + intent_operation" where
  "concrete_operation path requested op =
     (let r = op_resource op
      in case resource_post_init
           (r\<lparr>rr_identifier := (if is_pattern r then path else rr_identifier r),
             rr_region := (if requested \<noteq> None \<and> rr_region r = None
                           then map_option region_text requested else rr_region r),
             rr_metadata := jset ''promoted_from_contingent'' (JStr (rr_identifier r)) (rr_metadata r)\<rparr>) of
           Inl e \<Rightarrow> Inl (ModelErr e)
         | Inr r' \<Rightarrow> Inr (op\<lparr>op_resource := r', op_commitment := COMMITTED\<rparr>))"

definition keeps_contingent :: "(nat \<times> nat) option \<Rightarrow> intent_operation \<Rightarrow> bool" where
  "keeps_contingent requested op =
     (is_pattern (op_resource op) \<or> (requested \<noteq> None \<and> rr_region (op_resource op) = None))"

record promote_acc =
  pa_ops :: "intent_operation list"
  pa_keys :: "commit_key list"
  pa_done :: "(intent_operation \<times> intent_operation) list"

definition promote_one ::
  "string \<Rightarrow> (nat \<times> nat) option \<Rightarrow> nat list \<Rightarrow> nat \<times> intent_operation \<Rightarrow> promote_acc
   \<Rightarrow> registry_error + promote_acc" where
  "promote_one path requested selected iop acc =
     (case iop of (i, op) \<Rightarrow>
       if i \<notin> set selected then Inr (acc\<lparr>pa_ops := pa_ops acc @ [op]\<rparr>)
       else if keeps_contingent requested op then
         res_bind (concrete_operation path requested op) (\<lambda>committed.
           let key = commit_key_of committed
           in if key \<in> set (pa_keys acc)
              then Inr (acc\<lparr>pa_ops := pa_ops acc @ [op], pa_done := pa_done acc @ [(op, committed)]\<rparr>)
              else Inr (acc\<lparr>pa_ops := pa_ops acc @ [op, committed], pa_keys := key # pa_keys acc,
                          pa_done := pa_done acc @ [(op, committed)]\<rparr>))
       else let committed = op\<lparr>op_commitment := COMMITTED\<rparr>
            in Inr (acc\<lparr>pa_ops := pa_ops acc @ [committed], pa_done := pa_done acc @ [(op, committed)]\<rparr>))"

fun promote_all ::
  "string \<Rightarrow> (nat \<times> nat) option \<Rightarrow> nat list \<Rightarrow> (nat \<times> intent_operation) list \<Rightarrow> promote_acc
   \<Rightarrow> registry_error + promote_acc" where
  "promote_all path requested selected [] acc = Inr acc"
| "promote_all path requested selected (iop # iops) acc =
     res_bind (promote_one path requested selected iop acc)
       (promote_all path requested selected iops)"

definition promoted_intent :: "change_intent \<Rightarrow> intent_operation list \<Rightarrow> registry_error + change_intent" where
  "promoted_intent i ops =
     (case intent_post_init (i\<lparr>ci_operations := ops,
             ci_metadata := jset ''_scope_expansion'' (JBool True) (ci_metadata i)\<rparr>) of
        Inl e \<Rightarrow> Inl (ModelErr e) | Inr c \<Rightarrow> Inr c)"

definition promotion_event ::
  "string \<Rightarrow> string option \<Rightarrow> access_mode list \<Rightarrow> (intent_operation \<times> intent_operation) list
   \<Rightarrow> admission_decision \<Rightarrow> (string \<times> json) list \<Rightarrow> json" where
  "promotion_event path region modes promoted d extra = JObj
     ([(''path'', JStr path), (''region'', jopt region),
       (''modes'', jstrs (sorted_set (map mode_value modes))),
       (''promoted_operations'', JList (map (\<lambda>(s, c). JObj [(''source'', op_dict s),
          (''committed'', op_dict c)]) promoted)),
       (''decision'', decision_dict d)] @ extra)"

definition content_row ::
  "(json \<Rightarrow> string) \<Rightarrow> readings \<Rightarrow> intent_state \<Rightarrow> change_intent \<Rightarrow> admission_decision
   \<Rightarrow> intent_row \<Rightarrow> intent_row" where
  "content_row sha rd s i d r =
     r\<lparr>ir_state := s, ir_fingerprint := intent_fingerprint sha i, ir_payload := i,
       ir_admission := d, ir_updated := rd_now rd,
       ir_lease := lease_until (rd_future rd) (ci_lease_seconds i),
       ir_version := ir_version r + 1, ir_content := ir_content r + 1\<rparr>"

text \<open>The rebinding of the broker that asked for the promotion.\<close>

definition rebind_broker ::
  "(string \<Rightarrow> json \<Rightarrow> string) \<Rightarrow> int \<Rightarrow> string option \<Rightarrow> string \<Rightarrow> string \<Rightarrow> registry
   \<Rightarrow> registry_error + registry" where
  "rebind_broker mac now instance broker_key iid st = (case instance of
       None \<Rightarrow> Inr st
     | Some inst \<Rightarrow>
         if broker_key = [] then Inl (BadArgument ''broker_key is required when rebinding a broker'')
         else case find_intent st iid of
             None \<Rightarrow> Inl (UnknownIntent iid)
           | Some row \<Rightarrow> refresh_broker_binding mac now inst iid (ir_content row) (ir_fingerprint row)
                          broker_key st)"

definition stale_version :: "int option \<Rightarrow> intent_row \<Rightarrow> bool" where
  "stale_version expected row = (case expected of None \<Rightarrow> False | Some v \<Rightarrow> ir_version row \<noteq> v)"

definition apply_promotion ::
  "(json \<Rightarrow> string) \<Rightarrow> (string \<Rightarrow> json \<Rightarrow> string) \<Rightarrow> readings \<Rightarrow> intent_row \<Rightarrow> change_intent
   \<Rightarrow> admission_decision \<Rightarrow> string option \<Rightarrow> string \<Rightarrow> json \<Rightarrow> registry \<Rightarrow> registry_error + registry" where
  "apply_promotion sha mac rd row candidate d instance broker_key payload st =
     (let st1 = intent_row_update (ir_id row) (content_row sha rd (ir_state row) candidate d) st;
          st2 = replace_edges (rd_edges rd) candidate d st1
      in res_bind (rebind_broker mac (rd_invalidate rd) instance broker_key (ir_id row) st2) (\<lambda>st3.
         Inr (log_event ''intent_scope_expanded'' (Some (ir_id row)) (Some (ci_owner candidate))
                payload st3)))"

definition promote_contingent_operations ::
  "(json \<Rightarrow> string) \<Rightarrow> (string \<Rightarrow> json \<Rightarrow> string) \<Rightarrow> evaluator \<Rightarrow> readings \<Rightarrow> string \<Rightarrow> string
   \<Rightarrow> access_mode list \<Rightarrow> string option \<Rightarrow> int option \<Rightarrow> string option \<Rightarrow> string \<Rightarrow> registry
   \<Rightarrow> registry_error + admission_decision \<times> registry" where
  "promote_contingent_operations sha mac ev rd iid raw_path modes region expected instance broker_key st0 =
     (if modes = [] then Inl (BadArgument ''scope promotion requires at least one access mode'') else
      res_bind (promotion_path raw_path) (\<lambda>path.
      res_bind (promotion_region region) (\<lambda>requested.
      let st = expire_intents rd st0
      in case find_intent st iid of
          None \<Rightarrow> Inl (UnknownIntent iid)
        | Some row \<Rightarrow>
            if \<not> live_state (ir_state row) then Inl (BadState (ir_state row))
            else if stale_version expected row then Inl (StaleVersion (the expected) (ir_version row))
            else
              let current = ir_payload row; ops = ci_operations current;
                  selected = selected_indexes modes path requested ops
              in res_bind (promote_all path requested selected (enumerate 0 ops)
                     \<lparr>pa_ops = [], pa_keys = map commit_key_of (committed_operations current),
                      pa_done = []\<rparr>) (\<lambda>acc.
                 if pa_done acc = [] then Inl (NoMatch path) else
                 res_bind (promoted_intent current (pa_ops acc)) (\<lambda>candidate.
                 res_bind (decide ev candidate (active_intents rd (Some iid) st)
                             (known_intent_ids st @ [iid]) st) (\<lambda>d.
                 if \<not> ad_allowed d
                 then Inr (d, log_event ''intent_scope_expansion_rejected'' (Some iid)
                        (Some (ci_owner current))
                        (promotion_event path (map_option region_text requested) modes (pa_done acc) d []) st)
                 else res_bind (apply_promotion sha mac rd row candidate d instance broker_key
                        (promotion_event path (map_option region_text requested) modes (pa_done acc) d
                           [(''broker_instance_id'', jopt instance)]) st)
                      (\<lambda>st'. Inr (d, st'))))))))"


section \<open>Amendment\<close>

text \<open>
  The preflight is the argument \<open>amendment_preflight\<close>: it sees the stored intent, the new one
  and the active ones, and answers with a verdict, a payload for the log and a guidance text.
\<close>

type_synonym preflight =
  "change_intent \<Rightarrow> change_intent \<Rightarrow> change_intent list \<Rightarrow> bool \<times> metadata \<times> string"

definition amendable :: "intent_state \<Rightarrow> bool" where
  "amendable s = (s \<in> {S_ADMITTED, S_ACTIVE, S_STALE, S_BLOCKED})"

definition amended_state :: "intent_state \<Rightarrow> intent_state" where
  "amended_state s = (if s = S_STALE then S_STALE else S_ADMITTED)"

definition rebased_row ::
  "(json \<Rightarrow> string) \<Rightarrow> readings \<Rightarrow> intent_state \<Rightarrow> change_intent \<Rightarrow> admission_decision
   \<Rightarrow> intent_row \<Rightarrow> intent_row" where
  "rebased_row sha rd s i d r =
     (content_row sha rd s i d r)\<lparr>ir_task := ci_task_id i, ir_base_revision := ci_base_revision i\<rparr>"

definition preflight_rejection :: "change_intent \<Rightarrow> string \<Rightarrow> admission_decision" where
  "preflight_rejection i guidance =
     \<lparr>ad_kind = REPLAN, ad_intent = i, ad_allowed = False, ad_conflicts = [], ad_constraints = [],
      ad_notifications = [], ad_guidance = guidance\<rparr>"

definition amended_event ::
  "admission_decision \<Rightarrow> string list \<Rightarrow> string list \<Rightarrow> metadata \<Rightarrow> intent_state \<Rightarrow> json" where
  "amended_event d changed stale payload s = JObj
     [(''decision'', decision_dict d), (''changed_resources'', jstrs changed),
      (''stale_dependents'', jstrs stale), (''amendment_preflight'', JObj payload),
      (''state'', JStr (state_value s))]"

definition preflight_event :: "admission_decision \<Rightarrow> metadata \<Rightarrow> json" where
  "preflight_event d payload =
     JObj [(''decision'', decision_dict d), (''amendment_preflight'', JObj payload)]"

definition apply_amendment ::
  "(json \<Rightarrow> string) \<Rightarrow> readings \<Rightarrow> intent_row \<Rightarrow> change_intent \<Rightarrow> admission_decision \<Rightarrow> metadata
   \<Rightarrow> registry \<Rightarrow> registry_error + registry" where
  "apply_amendment sha rd row i d payload st =
     (let changed = changed_resource_keys (ir_payload row) i;
          next = amended_state (ir_state row);
          st1 = intent_row_update (ir_id row) (rebased_row sha rd next i d) st;
          st2 = replace_edges (rd_edges rd) i d st1
      in res_bind (if changed = [] then Inr ([], st2)
                   else invalidate_dependents sha rd (ir_id row) changed ''producer_amended'' st2)
           (\<lambda>(stale, st3).
         Inr (log_event ''intent_amended'' (Some (ir_id row)) (Some (ci_owner i))
                (amended_event d changed stale payload next) st3)))"

definition amend_intent ::
  "(json \<Rightarrow> string) \<Rightarrow> evaluator \<Rightarrow> readings \<Rightarrow> change_intent \<Rightarrow> int option \<Rightarrow> preflight option
   \<Rightarrow> registry \<Rightarrow> registry_error + admission_decision \<times> registry" where
  "amend_intent sha ev rd i expected preflight st0 =
     (let st = expire_intents rd st0; iid = ci_intent_id i
      in case find_intent st iid of
          None \<Rightarrow> Inl (UnknownIntent iid)
        | Some row \<Rightarrow>
            if ir_owner row \<noteq> ci_owner i then Inl OwnerChanged
            else if stale_version expected row then Inl (StaleVersion (the expected) (ir_version row))
            else if \<not> amendable (ir_state row) then Inl (BadState (ir_state row))
            else
              let active = active_intents rd (Some iid) st;
                  (ok, payload, guidance) = (case preflight of None \<Rightarrow> (True, [], [])
                    | Some f \<Rightarrow> f (ir_payload row) i active)
              in if \<not> ok then
                   (let d = preflight_rejection i guidance
                    in Inr (d, log_event ''intent_amendment_rejected'' (Some iid) (Some (ci_owner i))
                               (preflight_event d payload) st))
                 else res_bind (decide ev i active (known_intent_ids st @ [iid]) st) (\<lambda>d.
                   if \<not> ad_allowed d
                   then Inr (d, log_event ''intent_amendment_rejected'' (Some iid) (Some (ci_owner i))
                               (decision_dict d) st)
                   else res_bind (apply_amendment sha rd row i d payload st) (\<lambda>st'. Inr (d, st'))))"


section \<open>State changes, heartbeats and expiry\<close>

text \<open>\<open>ORDER BY created_at DESC,recovery_id DESC LIMIT 1\<close>.\<close>

definition later_recovery :: "runtime_recovery \<Rightarrow> runtime_recovery \<Rightarrow> bool" where
  "later_recovery a b \<longleftrightarrow> rc_created b < rc_created a \<or> (rc_created a = rc_created b \<and> rc_id b < rc_id a)"

definition latest_recovery :: "registry \<Rightarrow> string \<Rightarrow> runtime_recovery option" where
  "latest_recovery st iid =
     fold (\<lambda>r best. case best of None \<Rightarrow> Some r
            | Some b \<Rightarrow> if later_recovery r b then Some r else Some b)
       (filter (\<lambda>r. rc_intent r = iid) (rg_recoveries st)) None"

definition refresh_pending :: "registry \<Rightarrow> string \<Rightarrow> bool" where
  "refresh_pending st iid = (case latest_recovery st iid of
       None \<Rightarrow> False | Some r \<Rightarrow> rc_state r = RC_REFRESHED)"

definition noop_event :: "intent_state \<Rightarrow> intent_state \<Rightarrow> json" where
  "noop_event current requested = JObj [(''state'', JStr (state_value current)),
     (''requested_state'', JStr (state_value requested)), (''reason'', JStr ''terminal_state_preserved'')]"

definition set_intent_state ::
  "int \<Rightarrow> string \<Rightarrow> intent_state \<Rightarrow> string \<Rightarrow> intent_state list \<Rightarrow> intent_state list \<Rightarrow> registry
   \<Rightarrow> registry_error + registry" where
  "set_intent_state now iid s ty allowed_from no_op_from st =
     (case find_intent st iid of
        None \<Rightarrow> Inl (UnknownIntent iid)
      | Some row \<Rightarrow>
          if ir_state row \<in> set no_op_from
          then Inr (log_event (ty @ ''_noop'') (Some iid) (Some (ir_owner row)) (noop_event (ir_state row) s) st)
          else if ir_state row \<notin> set allowed_from then Inl (BadState (ir_state row))
          else if s = S_ACTIVE \<and> refresh_pending st iid
          then Inl (RuntimeRefused ''runtime-refreshed intent must resume through the runtime recovery lifecycle'')
          else Inr (log_event ty (Some iid) (Some (ir_owner row)) (JObj [(''state'', JStr (state_value s))])
                      (intent_row_update iid (set_state s now) st)))"

definition activate_intent :: "int \<Rightarrow> string \<Rightarrow> registry \<Rightarrow> registry_error + registry" where
  "activate_intent now iid = set_intent_state now iid S_ACTIVE ''intent_activated'' [S_ADMITTED, S_ACTIVE] []"

definition complete_intent :: "int \<Rightarrow> string \<Rightarrow> registry \<Rightarrow> registry_error + registry" where
  "complete_intent now iid = set_intent_state now iid S_COMPLETED ''intent_completed'' [S_ADMITTED, S_ACTIVE] []"

definition release_intent :: "int \<Rightarrow> string \<Rightarrow> registry \<Rightarrow> registry_error + registry" where
  "release_intent now iid = set_intent_state now iid S_RELEASED ''intent_released''
     [S_BLOCKED, S_ADMITTED, S_ACTIVE, S_EXPIRED, S_STALE] [S_COMPLETED]"

definition heartbeat_intent :: "readings \<Rightarrow> string \<Rightarrow> int \<Rightarrow> registry \<Rightarrow> registry_error + registry" where
  "heartbeat_intent rd iid seconds st =
     (if seconds \<le> 0 then Inl (BadArgument ''lease_seconds must be positive'')
      else case find_intent st iid of
          None \<Rightarrow> Inl (UnknownIntent iid)
        | Some row \<Rightarrow>
            if \<not> live_state (ir_state row) then Inl (BadState (ir_state row))
            else Inr (log_event ''intent_heartbeat'' (Some iid) (Some (ir_owner row))
                   (JObj [(''lease_seconds'', JInt seconds)])
                   (intent_row_update iid (\<lambda>r. r\<lparr>ir_lease := lease_until (rd_future rd) seconds,
                      ir_updated := rd_now rd, ir_version := ir_version r + 1\<rparr>) st)))"

end
