(* ===== verification/Recovery.thy ===== *)
theory Recovery
  imports Intents
begin

text \<open>
  The recovery of a stale intent in \<open>core/registry.py\<close>: refresh against a new base, which must
  keep the declared authority and re-admits the intent, and resume, which is the only way a
  refreshed intent becomes active again.
\<close>


section \<open>Refresh\<close>

text \<open>The fields a refresh is forbidden to change.\<close>

definition authority_surface ::
  "change_intent \<Rightarrow> string \<times> string \<times> json list \<times> string list \<times> string list \<times> string list" where
  "authority_surface i = (ci_task_id i, ci_owner i, map op_dict (ci_operations i), ci_preserves i,
     ci_acceptance i, ci_dependencies i)"

definition fences_of :: "registry \<Rightarrow> string \<Rightarrow> runtime_fence list" where
  "fences_of st iid = sort_key fn_created (sort_key fn_id
     (filter (\<lambda>f. fn_intent f = iid) (rg_fences st)))"

definition fence_producers :: "runtime_fence list \<Rightarrow> string list" where
  "fence_producers fences = sorted_set (concat (map (\<lambda>f. case fn_producer f of None \<Rightarrow> [] | Some p \<Rightarrow> [p]) fences))"

definition producer_completed :: "registry \<Rightarrow> string \<Rightarrow> bool" where
  "producer_completed st p = (case find_intent st p of None \<Rightarrow> False
     | Some r \<Rightarrow> ir_state r = S_COMPLETED)"

definition producer_known :: "registry \<Rightarrow> string \<Rightarrow> bool" where
  "producer_known st p = (case find_intent st p of None \<Rightarrow> False
     | Some r \<Rightarrow> known_state (ir_state r))"

definition content_of :: "registry \<Rightarrow> string \<Rightarrow> int" where
  "content_of st p = (case find_intent st p of None \<Rightarrow> 0 | Some r \<Rightarrow> ir_content r)"

definition dependency_producers :: "registry \<Rightarrow> string \<Rightarrow> string list" where
  "dependency_producers st iid =
     sort (map dr_producer (filter (\<lambda>d. dr_intent d = iid) (rg_deps st)))"

definition msg_incomplete :: "string list \<Rightarrow> string" where
  "msg_incomplete ps =
     ''runtime refresh requires stale-causing producers to complete before rebasing: '' @ join '', '' ps"

definition msg_unresolved :: "string list \<Rightarrow> string" where
  "msg_unresolved ps =
     ''runtime refresh is blocked until stale/missing producers are refreshed: '' @ join '', '' ps"

definition refresh_rejection :: "change_intent \<Rightarrow> string \<Rightarrow> admission_decision" where
  "refresh_rejection i guidance =
     \<lparr>ad_kind = REPLAN, ad_intent = i, ad_allowed = False, ad_conflicts = [], ad_constraints = [],
      ad_notifications = [], ad_guidance = guidance\<rparr>"

definition refresh_rejected_event :: "admission_decision \<Rightarrow> (string \<times> json) list \<Rightarrow> json" where
  "refresh_rejected_event d extra = JObj ((''decision'', decision_dict d) # extra)"

definition recovery_seed :: "string \<Rightarrow> int \<Rightarrow> int \<Rightarrow> string option \<Rightarrow> int \<Rightarrow> json" where
  "recovery_seed iid old new base now = JObj
     [(''intent_id'', JStr iid), (''old_content_version'', JInt old),
      (''new_content_version'', JInt new), (''to_base_commit'', jopt base), (''created_at'', JInt now)]"

definition recovery_metadata :: "runtime_fence list \<Rightarrow> metadata" where
  "recovery_metadata fences =
     [(''authority_preserved'', JBool True), (''requires_fresh_broker'', JBool True),
      (''prior_broker_instance_ids'', jstrs (sorted_set
         (concat (map (\<lambda>f. case fn_instance f of None \<Rightarrow> [] | Some b \<Rightarrow> [b]) fences))))]"

definition dict_update :: "('k \<times> 'v) list \<Rightarrow> ('k \<times> 'v) \<Rightarrow> ('k \<times> 'v) list" where
  "dict_update m kv = (if fst kv \<in> fst ` set m
     then map (\<lambda>(k, v). if k = fst kv then kv else (k, v)) m else m @ [kv])"

definition producer_versions :: "registry \<Rightarrow> string list \<Rightarrow> (string \<times> int) list" where
  "producer_versions st ps = foldl (\<lambda>m p. dict_update m (p, content_of st p)) [] ps"

definition new_recovery ::
  "(json \<Rightarrow> string) \<Rightarrow> readings \<Rightarrow> intent_row \<Rightarrow> change_intent \<Rightarrow> runtime_fence list
   \<Rightarrow> (string \<times> int) list \<Rightarrow> registry_error + runtime_recovery" where
  "new_recovery sha rd row i fences versions = recovery_post_init
     \<lparr>rc_id = ''recovery-'' @ take 24 (sha (canon (recovery_seed (ir_id row) (ir_content row)
        (ir_content row + 1) (ci_base_commit i) (rd_now rd)))),
      rc_intent = ir_id row, rc_state = RC_REFRESHED, rc_from_base = ci_base_commit (ir_payload row),
      rc_to_base = str_or (ci_base_commit i) [], rc_old_content = ir_content row,
      rc_new_content = ir_content row + 1, rc_old_fingerprint = ir_fingerprint row,
      rc_new_fingerprint = intent_fingerprint sha i, rc_fences = map fn_id fences,
      rc_producers = versions, rc_created = rd_now rd, rc_resumed = None,
      rc_metadata = recovery_metadata fences\<rparr>"

definition bad_dependencies :: "registry \<Rightarrow> string \<Rightarrow> bool" where
  "bad_dependencies st iid \<longleftrightarrow> list_ex (\<lambda>d. dr_intent d = iid \<and> dr_status d \<noteq> DS_ACTIVE) (rg_deps st)"

definition refreshed_event :: "runtime_recovery \<Rightarrow> admission_decision \<Rightarrow> json" where
  "refreshed_event rec d = JObj [(''recovery'', recovery_dict rec), (''decision'', decision_dict d)]"

definition apply_refresh ::
  "(json \<Rightarrow> string) \<Rightarrow> readings \<Rightarrow> intent_row \<Rightarrow> change_intent \<Rightarrow> admission_decision
   \<Rightarrow> runtime_fence list \<Rightarrow> (string \<times> int) list \<Rightarrow> registry
   \<Rightarrow> registry_error + runtime_recovery \<times> registry" where
  "apply_refresh sha rd row i d fences versions st =
     (let st1 = replace_edges (rd_edges rd) i d
            (intent_row_update (ir_id row) (rebased_row sha rd S_ADMITTED i d) st)
      in if bad_dependencies st1 (ir_id row)
         then Inl (RuntimeRefused ''runtime refresh produced unresolved dependency state'')
         else res_bind (new_recovery sha rd row i fences versions) (\<lambda>rec.
           if rc_id rec \<in> set (map rc_id (rg_recoveries st1)) then Inl (IntegrityError (rc_id rec))
           else Inr (rec, log_event ''intent_runtime_refreshed'' (Some (ir_id row)) (Some (ci_owner i))
                  (refreshed_event rec d) (st1\<lparr>rg_recoveries := rg_recoveries st1 @ [rec]\<rparr>))))"

definition has_active_broker :: "registry \<Rightarrow> string \<Rightarrow> bool" where
  "has_active_broker st iid \<longleftrightarrow> list_ex (\<lambda>b. bk_intent b = iid \<and> bk_state b = BK_ACTIVE) (rg_brokers st)"

text \<open>The guards, in the order of the code.\<close>

definition refresh_guard :: "change_intent \<Rightarrow> int option \<Rightarrow> intent_row \<Rightarrow> registry \<Rightarrow> registry_error option" where
  "refresh_guard i expected row st =
     (if ir_state row \<noteq> S_STALE then Some (BadState (ir_state row))
      else if ir_owner row \<noteq> ci_owner i then Some OwnerChanged
      else if stale_version expected row then Some (StaleVersion (the expected) (ir_version row))
      else if authority_surface (ir_payload row) \<noteq> authority_surface i
      then Some (RuntimeRefused ''runtime refresh cannot change declared authority'')
      else if ci_base_commit i = None
      then Some (RuntimeRefused ''runtime refresh requires a pinned base_commit'')
      else if ci_base_commit (ir_payload row) = ci_base_commit i
      then Some (RuntimeRefused ''runtime refresh requires a new base_commit'')
      else if has_active_broker st (ir_id row)
      then Some (RuntimeRefused ''runtime refresh requires all prior broker writers to be fenced'')
      else if fences_of st (ir_id row) = []
      then Some (RuntimeRefused ''runtime refresh requires durable runtime-fence evidence'')
      else None)"

definition refresh_stale_intent ::
  "(json \<Rightarrow> string) \<Rightarrow> evaluator \<Rightarrow> readings \<Rightarrow> change_intent \<Rightarrow> int option \<Rightarrow> registry
   \<Rightarrow> registry_error + (admission_decision \<times> runtime_recovery option) \<times> registry" where
  "refresh_stale_intent sha ev rd i expected st0 =
     (let st = expire_intents rd st0; iid = ci_intent_id i
      in case find_intent st iid of
          None \<Rightarrow> Inl (UnknownIntent iid)
        | Some row \<Rightarrow> (case refresh_guard i expected row st of
              Some e \<Rightarrow> Inl e
            | None \<Rightarrow>
                let fences = fences_of st iid;
                    producers = fence_producers fences;
                    incomplete = filter (\<lambda>p. \<not> producer_completed st p) producers;
                    deps = dependency_producers st iid;
                    unresolved = sorted_set (filter (\<lambda>p. \<not> producer_known st p) deps);
                    reject = (\<lambda>d extra. Inr ((d, None), log_event ''intent_runtime_refresh_rejected''
                       (Some iid) (Some (ci_owner i)) (refresh_rejected_event d extra) st))
                in if incomplete \<noteq> [] then
                     reject (refresh_rejection i (msg_incomplete incomplete))
                       [(''incomplete_producers'', jstrs incomplete)]
                   else if unresolved \<noteq> [] then
                     reject (refresh_rejection i (msg_unresolved unresolved))
                       [(''unresolved_producers'', jstrs unresolved)]
                   else res_bind (decide ev i (active_intents rd (Some iid) st)
                          (known_intent_ids st @ [iid]) st) (\<lambda>d.
                     if \<not> ad_allowed d then reject d []
                     else res_bind (apply_refresh sha rd row i d fences
                              (producer_versions st (producers @ deps)) st)
                            (\<lambda>(rec, st'). Inr ((d, Some rec), st')))))"


section \<open>Resume\<close>

definition resume_guard :: "int option \<Rightarrow> intent_row \<Rightarrow> registry \<Rightarrow> registry_error + runtime_recovery" where
  "resume_guard expected row st =
     (if ir_state row \<noteq> S_ADMITTED then Inl (BadState (ir_state row))
      else if stale_version expected row then Inl (StaleVersion (the expected) (ir_version row))
      else case latest_recovery st (ir_id row) of
          None \<Rightarrow> Inl (RuntimeRefused ''runtime resume requires a successful runtime refresh'')
        | Some rec \<Rightarrow>
            if rc_state rec \<noteq> RC_REFRESHED
            then Inl (RuntimeRefused ''runtime resume requires a successful runtime refresh'')
            else if ir_content row \<noteq> rc_new_content rec
            then Inl (RuntimeRefused ''refreshed intent content changed before runtime resume'')
            else if ir_fingerprint row \<noteq> rc_new_fingerprint rec
            then Inl (RuntimeRefused ''refreshed intent fingerprint changed before runtime resume'')
            else if bad_dependencies st (ir_id row)
            then Inl (RuntimeRefused ''runtime resume blocked by unresolved dependency state'')
            else if has_active_broker st (ir_id row)
            then Inl (RuntimeRefused ''runtime resume requires a fresh broker after resume'')
            else Inr rec)"

definition resumed_event :: "runtime_recovery \<Rightarrow> json" where
  "resumed_event rec = JObj [(''recovery'', recovery_dict rec), (''fresh_broker_required'', JBool True)]"

definition resume_refreshed_intent ::
  "readings \<Rightarrow> string \<Rightarrow> int option \<Rightarrow> registry \<Rightarrow> registry_error + runtime_recovery \<times> registry" where
  "resume_refreshed_intent rd iid expected st =
     (case find_intent st iid of
        None \<Rightarrow> Inl (UnknownIntent iid)
      | Some row \<Rightarrow>
          res_bind (resume_guard expected row st) (\<lambda>rec.
          res_bind (recovery_post_init (rec\<lparr>rc_state := RC_RESUMED, rc_resumed := Some (rd_now rd)\<rparr>))
            (\<lambda>resumed.
          Inr (resumed, log_event ''intent_runtime_resumed'' (Some iid) (Some (ir_owner row))
            (resumed_event resumed)
            ((intent_row_update iid (set_state S_ACTIVE (rd_now rd)) st)
               \<lparr>rg_recoveries := update_rows (\<lambda>r. rc_id r = rc_id resumed)
                  (\<lambda>r. resumed) (rg_recoveries st)\<rparr>)))))"

end
