(* ===== verification/RegInv.thy ===== *)
theory RegInv
  imports FencingLaws Recovery
begin

text \<open>
  The well-formedness of the registry and its preservation by every operation on intents:
  intent ids are unique, stored intents are constructed values filed under their own id, the
  active dependency edges are acyclic, and a stale intent has no live broker.
\<close>


section \<open>The invariant\<close>

definition live_brokers :: "registry \<Rightarrow> string set" where
  "live_brokers st = bk_intent ` {b \<in> set (rg_brokers st). bk_state b = BK_ACTIVE}"

definition filed :: "intent_row \<Rightarrow> bool" where
  "filed r \<longleftrightarrow> valid_intent (ir_payload r) \<and> ci_intent_id (ir_payload r) = ir_id r"

definition stale_fenced :: "registry \<Rightarrow> bool" where
  "stale_fenced st \<longleftrightarrow> (\<forall>r \<in> set (rg_intents st). ir_state r = S_STALE \<longrightarrow> ir_id r \<notin> live_brokers st)"

definition wf_registry :: "registry \<Rightarrow> bool" where
  "wf_registry st \<longleftrightarrow>
     keys_unique ir_id (rg_intents st)
     \<and> (\<forall>r \<in> set (rg_intents st). filed r)
     \<and> acyclic_edges (active_edges (rg_deps st))
     \<and> stale_fenced st"

lemma wf_empty: "wf_registry empty_registry"
  by (simp add: wf_registry_def empty_registry_def keys_unique_def active_edges_def
      acyclic_edges_def stale_fenced_def acyclic_def)

lemma wf_registryD:
  assumes "wf_registry st"
  shows "keys_unique ir_id (rg_intents st)" "\<And>r. r \<in> set (rg_intents st) \<Longrightarrow> filed r"
    "acyclic_edges (active_edges (rg_deps st))" "stale_fenced st"
  using assms by (auto simp: wf_registry_def)

text \<open>Only the intents, the edges and the live brokers matter.\<close>

lemma wf_cong:
  assumes "wf_registry st" and "rg_intents st' = rg_intents st" and "rg_deps st' = rg_deps st"
    and "live_brokers st' \<subseteq> live_brokers st"
  shows "wf_registry st'"
  using assms by (auto simp: wf_registry_def stale_fenced_def)

lemma live_brokers_cong: "rg_brokers st' = rg_brokers st \<Longrightarrow> live_brokers st' = live_brokers st"
  by (simp add: live_brokers_def)

lemma live_brokers_log [simp]: "live_brokers (log_event t i w p st) = live_brokers st"
  by (simp add: live_brokers_def)

lemma wf_log_event [simp]: "wf_registry (log_event t i w p st) = wf_registry st"
  by (simp add: wf_registry_def stale_fenced_def)


section \<open>The moves that keep it\<close>

lemma find_intent_SomeD: "find_intent st iid = Some r \<Longrightarrow> r \<in> set (rg_intents st) \<and> ir_id r = iid"
  by (auto simp: find_intent_def dest: find_row_SomeD)

lemma find_intent_unique:
  "keys_unique ir_id (rg_intents st) \<Longrightarrow> r \<in> set (rg_intents st) \<Longrightarrow> find_intent st (ir_id r) = Some r"
  by (simp add: find_intent_def find_row_unique)

lemma wf_update:
  assumes "wf_registry st" and "\<And>r. ir_id (f r) = ir_id r"
    and "\<And>r. r \<in> set (rg_intents st) \<Longrightarrow> P r \<Longrightarrow> filed r \<Longrightarrow> filed (f r)"
    and "\<And>r. r \<in> set (rg_intents st) \<Longrightarrow> P r \<Longrightarrow> ir_state (f r) = S_STALE
        \<Longrightarrow> ir_state r = S_STALE \<or> ir_id r \<notin> live_brokers st"
  shows "wf_registry (st\<lparr>rg_intents := update_rows P f (rg_intents st)\<rparr>)"
proof -
  let ?st = "st\<lparr>rg_intents := update_rows P f (rg_intents st)\<rparr>"
  have "live_brokers ?st = live_brokers st" by (simp add: live_brokers_def)
  moreover have "ir_id x \<notin> live_brokers st"
    if "x \<in> set (update_rows P f (rg_intents st))" "ir_state x = S_STALE" for x
    using that(1)
  proof (rule update_rowsE)
    fix r assume r: "r \<in> set (rg_intents st)" "P r" "x = f r"
    with that(2) assms(4) [of r] have "ir_state r = S_STALE \<or> ir_id r \<notin> live_brokers st" by simp
    with r wf_registryD(4) [OF assms(1)] show ?thesis by (auto simp: stale_fenced_def assms(2))
  next
    assume "x \<in> set (rg_intents st)"
    with that(2) wf_registryD(4) [OF assms(1)] show ?thesis by (simp add: stale_fenced_def)
  qed
  moreover have "filed x" if "x \<in> set (update_rows P f (rg_intents st))" for x
    using that assms(1,3) by (auto simp: wf_registry_def elim!: update_rowsE)
  ultimately show ?thesis
    using assms(1,2) by (auto simp: wf_registry_def stale_fenced_def keys_unique_update_rows)
qed

lemma filed_set_state [simp]: "filed (set_state s t r) = filed r"
  by (simp add: filed_def)

lemma wf_expire [simp]: "wf_registry st \<Longrightarrow> wf_registry (expire_intents rd st)"
  unfolding expire_intents_def by (rule wf_update) auto

lemma wf_row_update:
  assumes "wf_registry st" and "\<And>r. ir_id (f r) = ir_id r"
    and "\<And>r. filed r \<Longrightarrow> ir_id r = iid \<Longrightarrow> filed (f r)"
    and "\<And>r. r \<in> set (rg_intents st) \<Longrightarrow> ir_id r = iid \<Longrightarrow> ir_state (f r) = S_STALE
        \<Longrightarrow> ir_state r = S_STALE \<or> iid \<notin> live_brokers st"
  shows "wf_registry (intent_row_update iid f st)"
  unfolding intent_row_update_def by (rule wf_update) (use assms in auto)

lemma wf_append:
  assumes "wf_registry st" and "find_intent st (ir_id r) = None" and "filed r"
    and "ir_state r \<noteq> S_STALE"
  shows "wf_registry (st\<lparr>rg_intents := rg_intents st @ [r]\<rparr>)"
proof -
  have "keys_unique ir_id (rg_intents st @ [r])"
    using assms(1,2) by (simp add: wf_registry_def keys_unique_snoc find_intent_def find_row_None)
  moreover have "live_brokers (st\<lparr>rg_intents := rg_intents st @ [r]\<rparr>) = live_brokers st"
    by (simp add: live_brokers_def)
  ultimately show ?thesis
    using assms(1,3,4) by (auto simp: wf_registry_def stale_fenced_def)
qed

lemma replace_edges_tables [simp]:
  "rg_intents (replace_edges now i d st) = rg_intents st"
  "rg_brokers (replace_edges now i d st) = rg_brokers st"
  "rg_recoveries (replace_edges now i d st) = rg_recoveries st"
  "rg_fences (replace_edges now i d st) = rg_fences st"
  "rg_sessions (replace_edges now i d st) = rg_sessions st"
  "rg_observations (replace_edges now i d st) = rg_observations st"
  "rg_leases (replace_edges now i d st) = rg_leases st"
  "rg_counters (replace_edges now i d st) = rg_counters st"
  "rg_ops (replace_edges now i d st) = rg_ops st"
  by (simp_all add: replace_edges_def)

lemma intent_row_update_tables [simp]:
  "rg_deps (intent_row_update iid f st) = rg_deps st"
  "rg_brokers (intent_row_update iid f st) = rg_brokers st"
  "rg_recoveries (intent_row_update iid f st) = rg_recoveries st"
  "rg_fences (intent_row_update iid f st) = rg_fences st"
  "rg_sessions (intent_row_update iid f st) = rg_sessions st"
  "rg_observations (intent_row_update iid f st) = rg_observations st"
  "rg_leases (intent_row_update iid f st) = rg_leases st"
  "rg_counters (intent_row_update iid f st) = rg_counters st"
  "rg_ops (intent_row_update iid f st) = rg_ops st"
  "rg_intents (intent_row_update iid f st) = update_rows (\<lambda>r. ir_id r = iid) f (rg_intents st)"
  by (simp_all add: intent_row_update_def)

lemma expire_intents_tables [simp]:
  "rg_deps (expire_intents rd st) = rg_deps st" "rg_brokers (expire_intents rd st) = rg_brokers st"
  "rg_recoveries (expire_intents rd st) = rg_recoveries st"
  "rg_fences (expire_intents rd st) = rg_fences st"
  "rg_sessions (expire_intents rd st) = rg_sessions st"
  "rg_observations (expire_intents rd st) = rg_observations st"
  "rg_leases (expire_intents rd st) = rg_leases st"
  "rg_counters (expire_intents rd st) = rg_counters st" "rg_ops (expire_intents rd st) = rg_ops st"
  by (simp_all add: expire_intents_def)

text \<open>Replacing edges is only done after a decision that passed the cycle check.\<close>

lemma wf_replace_edges:
  assumes "wf_registry st'" and "dependency_cycle st i d = None" and "rg_deps st' = rg_deps st"
  shows "wf_registry (replace_edges now i d st')"
  using assms replace_edges_acyclic [OF assms(2,3), of now]
  by (auto simp: wf_registry_def stale_fenced_def live_brokers_def)

lemma live_brokers_effect:
  assumes "broker_effect st st'"
  shows "live_brokers st' \<subseteq> live_brokers st"
proof
  fix x assume "x \<in> live_brokers st'"
  then obtain b' where b': "b' \<in> set (rg_brokers st')" "bk_state b' = BK_ACTIVE" "x = bk_intent b'"
    by (auto simp: live_brokers_def)
  have "list_all2 broker_le (rg_brokers st) (rg_brokers st')"
    using assms by (simp add: broker_effect_def)
  then obtain b where "b \<in> set (rg_brokers st)" "broker_le b b'"
    using b'(1) list_all2_right by metis
  with b' broker_le_active show "x \<in> live_brokers st" by (auto simp: live_brokers_def)
qed

lemma dep_le_active_edges:
  assumes "list_all2 dep_le rows rows'"
  shows "set (active_edges rows') \<subseteq> set (active_edges rows)"
  using list_all2_right [OF assms] dep_le_fields by (fastforce simp: in_active_edges)

lemma wf_invalidate:
  assumes "wf_registry st" and "inval_frame st st'" and "edges_kept st st'"
  shows "wf_registry st'"
proof -
  have rows: "list_all2 intent_le (rg_intents st) (rg_intents st')"
    and deps: "list_all2 dep_le (rg_deps st) (rg_deps st')" and bk: "broker_effect st st'"
    using assms(2) by (auto simp: inval_frame_def)
  have "keys_unique ir_id (rg_intents st')"
    using wf_registryD(1) [OF assms(1)] inval_frame_ids [OF assms(2)] by (simp add: keys_unique_def)
  moreover have "filed r'" if mem: "r' \<in> set (rg_intents st')" for r'
  proof -
    obtain r where r: "r \<in> set (rg_intents st)" "intent_le r r'"
      using list_all2_right [OF rows mem] by blast
    then show ?thesis using wf_registryD(2) [OF assms(1)] by (auto simp: intent_le_def)
  qed
  moreover have "acyclic_edges (active_edges (rg_deps st'))"
    using wf_registryD(3) [OF assms(1)] dep_le_active_edges [OF deps] by (rule acyclic_edges_subset)
  moreover have "ir_id r \<notin> live_brokers st'"
    if r: "r \<in> set (rg_intents st')" "ir_state r = S_STALE" for r
  proof (cases "r \<in> set (rg_intents st)")
    case True
    with wf_registryD(4) [OF assms(1)] r live_brokers_effect [OF bk] show ?thesis
      by (auto simp: stale_fenced_def)
  next
    case False
    with assms(3) r have "revoked st' (ir_id r)" by (auto simp: edges_kept_def)
    then show ?thesis by (auto simp: revoked_def live_brokers_def)
  qed
  ultimately show ?thesis by (simp add: wf_registry_def stale_fenced_def)
qed

lemma invalidate_dependents_kept:
  assumes "invalidate_dependents sha rd producer keys reason st = Inr (stale, st')"
    and "keys_unique ir_id (rg_intents st)"
  shows "edges_kept st st' \<and> inval_frame st st'"
  using assms inval_loop_edges unfolding invalidate_dependents_def by blast


section \<open>Every operation keeps it\<close>

lemma filed_content_row:
  "valid_intent i \<Longrightarrow> ci_intent_id i = ir_id r \<Longrightarrow> filed (content_row sha rd s i d r)"
  by (simp add: filed_def content_row_def)

lemma filed_rebased_row:
  "valid_intent i \<Longrightarrow> ci_intent_id i = ir_id r \<Longrightarrow> filed (rebased_row sha rd s i d r)"
  by (simp add: filed_def rebased_row_def content_row_def)

lemma row_fields [simp]:
  "ir_id (content_row sha rd s i d r) = ir_id r" "ir_state (content_row sha rd s i d r) = s"
  "ir_payload (content_row sha rd s i d r) = i" "ir_id (rebased_row sha rd s i d r) = ir_id r"
  "ir_state (rebased_row sha rd s i d r) = s" "ir_payload (rebased_row sha rd s i d r) = i"
  "ir_id (readmit_row rd i d r) = ir_id r" "ir_state (readmit_row rd i d r) = admission_state d"
  "ir_payload (readmit_row rd i d r) = ir_payload r"
  "ir_id (new_intent_row sha rd i d) = ci_intent_id i"
  "ir_state (new_intent_row sha rd i d) = admission_state d"
  "ir_payload (new_intent_row sha rd i d) = i"
  by (simp_all add: content_row_def rebased_row_def readmit_row_def new_intent_row_def)

lemma admission_state_not_stale [simp]: "admission_state d \<noteq> S_STALE"
  by (simp add: admission_state_def)

lemma wf_finish_admission:
  assumes "wf_registry st'" and "decide ev i active known st = Inr d" and "rg_deps st' = rg_deps st"
  shows "wf_registry (finish_admission rd yes no i d st')"
  using assms wf_replace_edges decide_allowed [OF assms(2)]
  by (auto simp: finish_admission_def)

lemma admit_intent_wf:
  assumes "admit_intent sha ev rd i st = Inr (d, st')" and "wf_registry st" and "valid_intent i"
  shows "wf_registry st'"
proof -
  let ?st = "expire_intents rd st"
  have wf: "wf_registry ?st" using assms(2) by simp
  show ?thesis
  proof (cases "find_intent ?st (ci_intent_id i)")
    case None
    with assms(1) have dec: "decide ev i (active_intents rd None ?st) (known_intent_ids ?st) ?st = Inr d"
      and st': "st' = finish_admission rd ''intent_admitted'' ''intent_blocked'' i d
        (?st\<lparr>rg_intents := rg_intents ?st @ [new_intent_row sha rd i d]\<rparr>)"
      by (auto simp: admit_intent_def Let_def res_bind_eq_Inr)
    have "wf_registry (?st\<lparr>rg_intents := rg_intents ?st @ [new_intent_row sha rd i d]\<rparr>)"
      by (rule wf_append [OF wf]) (use None assms(3) in \<open>simp_all add: filed_def\<close>)
    then show ?thesis unfolding st' by (rule wf_finish_admission [OF _ dec]) simp
  next
    case (Some row)
    show ?thesis
    proof (cases "ir_state row = S_BLOCKED")
      case False
      with assms(1) Some wf show ?thesis by (auto simp: admit_intent_def Let_def split: if_splits)
    next
      case True
      with assms(1) Some have dec: "decide ev i (active_intents rd (Some (ci_intent_id i)) ?st) (known_intent_ids ?st) ?st = Inr d"
        and st': "st' = finish_admission rd ''intent_readmitted'' ''intent_reblocked'' i d
          (intent_row_update (ci_intent_id i) (readmit_row rd i d) ?st)"
        by (auto simp: admit_intent_def Let_def res_bind_eq_Inr split: if_splits)
      have "wf_registry (intent_row_update (ci_intent_id i) (readmit_row rd i d) ?st)"
        by (rule wf_row_update [OF wf]) (simp_all add: filed_def)
      then show ?thesis unfolding st' by (rule wf_finish_admission [OF _ dec]) simp
    qed
  qed
qed


text \<open>Promotion keeps the stored operations valid.\<close>

lemma concrete_operation_valid:
  "concrete_operation path requested op = Inr op' \<Longrightarrow> valid_operation op'"
  by (auto simp: concrete_operation_def Let_def valid_operation_def resource_post_init_idem
      split: sum.splits)

lemma promote_one_valid:
  assumes "promote_one path requested selected iop acc = Inr acc'"
    and "list_all valid_operation (pa_ops acc)" and "valid_operation (snd iop)"
  shows "list_all valid_operation (pa_ops acc')"
proof -
  obtain i op where iop: "iop = (i, op)" by (cases iop)
  have "valid_operation (op\<lparr>op_commitment := COMMITTED\<rparr>)"
    using assms(3) iop by (simp add: valid_operation_def)
  with assms iop concrete_operation_valid show ?thesis
    by (auto simp: promote_one_def Let_def res_bind_eq_Inr split: if_splits)
qed

lemma promote_all_valid:
  assumes "promote_all path requested selected iops acc = Inr acc'"
    and "list_all valid_operation (pa_ops acc)" and "\<forall>x \<in> set iops. valid_operation (snd x)"
  shows "list_all valid_operation (pa_ops acc')"
  using assms
proof (induction iops arbitrary: acc)
  case (Cons x iops)
  then show ?case using promote_one_valid by (fastforce simp: res_bind_eq_Inr)
qed simp

lemma promoted_intent_valid:
  assumes "promoted_intent i ops = Inr c" and "valid_intent i" and "list_all valid_operation ops"
  shows "valid_intent c" and "ci_intent_id c = ci_intent_id i" and "ci_owner c = ci_owner i"
    and "ci_operations c = ops" and "ci_base_commit c = ci_base_commit i"
proof -
  from assms(1) have c: "intent_post_init (i\<lparr>ci_operations := ops,
      ci_metadata := jset ''_scope_expansion'' (JBool True) (ci_metadata i)\<rparr>) = Inr c"
    by (simp add: promoted_intent_def split: sum.splits)
  have i: "intent_post_init i = Inr i" using assms(2) by (simp add: valid_intent_def)
  note ok = intent_post_init_ok [OF c] and oki = intent_post_init_ok [OF i]
  show ops: "ci_operations c = ops" using ok(6) by simp
  have "intent_post_init c = Inr c" using ok by (simp add: intent_post_init_def)
  with assms(3) ops show "valid_intent c" by (simp add: valid_intent_def)
  show "ci_intent_id c = ci_intent_id i" "ci_owner c = ci_owner i" "ci_base_commit c = ci_base_commit i"
    using c oki(1,3,5) by (auto simp: intent_post_init_def res_bind_eq_Inr split: if_splits)
qed

lemma live_brokers_maps:
  assumes "map bk_intent (rg_brokers st') = map bk_intent (rg_brokers st)"
    and "map bk_state (rg_brokers st') = map bk_state (rg_brokers st)"
  shows "live_brokers st' = live_brokers st"
proof -
  have "live_brokers s = fst ` {p \<in> set (zip (map bk_intent (rg_brokers s)) (map bk_state (rg_brokers s))).
      snd p = BK_ACTIVE}" for s
    by (force simp: live_brokers_def zip_map_map zip_same_conv_map)
  with assms show ?thesis by simp
qed

lemma rebind_broker_wf:
  assumes "rebind_broker mac now inst key iid st = Inr st'" and "wf_registry st"
  shows "wf_registry st'"
proof (cases inst)
  case None
  with assms show ?thesis by (simp add: rebind_broker_def)
next
  case (Some b)
  with assms(1) obtain row :: intent_row where
    r: "refresh_broker_binding mac now b iid (ir_content row) (ir_fingerprint row) key st = Inr st'"
    by (auto simp: rebind_broker_def split: if_splits option.splits)
  have "live_brokers st' = live_brokers st"
    by (rule live_brokers_maps) (rule refresh_binding_fields(10,11) [OF r])+
  then have live: "live_brokers st' \<subseteq> live_brokers st" by simp
  show ?thesis
    by (rule wf_cong [OF assms(2) refresh_binding_fields(1) [OF r] refresh_binding_fields(2) [OF r] live])
qed

lemma live_not_stale: "live_state s \<Longrightarrow> s \<noteq> S_STALE"
  by (auto simp: live_state_def)

lemma apply_promotion_wf:
  assumes "apply_promotion sha mac rd row c d inst key payload st = Inr st'" and "wf_registry st"
    and "find_intent st iid = Some row" and "live_state (ir_state row)" and "valid_intent c"
    and "ci_intent_id c = ir_id row" and "dependency_cycle st c d = None"
  shows "wf_registry st'"
proof -
  let ?st1 = "intent_row_update (ir_id row) (content_row sha rd (ir_state row) c d) st"
  have "wf_registry ?st1"
    by (rule wf_row_update [OF assms(2)])
      (use assms(4-6) live_not_stale in \<open>auto intro!: filed_content_row\<close>)
  then have "wf_registry (replace_edges (rd_edges rd) c d ?st1)"
    by (rule wf_replace_edges [OF _ assms(7)]) simp
  moreover obtain st3 where "rebind_broker mac (rd_invalidate rd) inst key (ir_id row)
      (replace_edges (rd_edges rd) c d ?st1) = Inr st3"
    and st': "st' = log_event ''intent_scope_expanded'' (Some (ir_id row)) (Some (ci_owner c)) payload st3"
    using assms(1) by (auto simp: apply_promotion_def Let_def res_bind_eq_Inr)
  ultimately show ?thesis unfolding st' using rebind_broker_wf by simp
qed

text \<open>The paths a promotion takes: a rejection changes the log only.\<close>

lemma promote_cases:
  assumes "promote_contingent_operations sha mac ev rd iid raw modes region expected inst key st0 = Inr (d, st')"
  obtains row path requested acc c where
    "find_intent (expire_intents rd st0) iid = Some row" "live_state (ir_state row)"
    "promotion_path raw = Inr path" "promotion_region region = Inr requested"
    "\<not> stale_version expected row"
    "promote_all path requested (selected_indexes modes path requested (ci_operations (ir_payload row)))
       (enumerate 0 (ci_operations (ir_payload row)))
       \<lparr>pa_ops = [], pa_keys = map commit_key_of (committed_operations (ir_payload row)), pa_done = []\<rparr>
     = Inr acc"
    "promoted_intent (ir_payload row) (pa_ops acc) = Inr c"
    "decide ev c (active_intents rd (Some iid) (expire_intents rd st0))
       (known_intent_ids (expire_intents rd st0) @ [iid]) (expire_intents rd st0) = Inr d"
    "if ad_allowed d
     then \<exists>payload. apply_promotion sha mac rd row c d inst key payload (expire_intents rd st0) = Inr st'
     else \<exists>payload. st' = log_event ''intent_scope_expansion_rejected'' (Some iid)
        (Some (ci_owner (ir_payload row))) payload (expire_intents rd st0)"
proof -
  from assms obtain path requested where p: "promotion_path raw = Inr path"
    "promotion_region region = Inr requested"
    by (auto simp: promote_contingent_operations_def res_bind_eq_Inr split: if_splits)
  with assms obtain row where row: "find_intent (expire_intents rd st0) iid = Some row"
    by (auto simp: promote_contingent_operations_def Let_def split: if_splits option.splits)
  let ?ops = "ci_operations (ir_payload row)"
  from assms p row obtain acc c where
    guards: "live_state (ir_state row)" "\<not> stale_version expected row"
    and acc: "promote_all path requested (selected_indexes modes path requested ?ops) (enumerate 0 ?ops)
       \<lparr>pa_ops = [], pa_keys = map commit_key_of (committed_operations (ir_payload row)), pa_done = []\<rparr>
     = Inr acc"
    and c: "promoted_intent (ir_payload row) (pa_ops acc) = Inr c"
    and fin: "res_bind (decide ev c (active_intents rd (Some iid) (expire_intents rd st0))
         (known_intent_ids (expire_intents rd st0) @ [iid]) (expire_intents rd st0)) (\<lambda>d.
       if \<not> ad_allowed d
       then Inr (d, log_event ''intent_scope_expansion_rejected'' (Some iid)
          (Some (ci_owner (ir_payload row)))
          (promotion_event path (map_option region_text requested) modes (pa_done acc) d []) (expire_intents rd st0))
       else res_bind (apply_promotion sha mac rd row c d inst key
          (promotion_event path (map_option region_text requested) modes (pa_done acc) d
             [(''broker_instance_id'', jopt inst)]) (expire_intents rd st0)) (\<lambda>st'. Inr (d, st')))
      = Inr (d, st')"
    unfolding promote_contingent_operations_def Let_def
    by (simp add: res_bind_eq_Inr [of "promote_all _ _ _ _ _"] res_bind_eq_Inr [of "promoted_intent _ _"]
        split: if_split_asm) blast
  from fin obtain d' where "decide ev c (active_intents rd (Some iid) (expire_intents rd st0))
       (known_intent_ids (expire_intents rd st0) @ [iid]) (expire_intents rd st0) = Inr d'"
    by (auto simp: res_bind_eq_Inr)
  with fin have dec: "d' = d" and last: "if ad_allowed d
     then \<exists>payload. apply_promotion sha mac rd row c d inst key payload (expire_intents rd st0) = Inr st'
     else \<exists>payload. st' = log_event ''intent_scope_expansion_rejected'' (Some iid)
        (Some (ci_owner (ir_payload row))) payload (expire_intents rd st0)"
    by (auto simp: res_bind_eq_Inr split: if_split_asm)
  show thesis
    by (rule that [OF row guards(1) p guards(2) acc c _ last])
      (use \<open>decide ev c _ _ _ = Inr d'\<close> dec in simp)
qed

lemma promote_wf:
  assumes "promote_contingent_operations sha mac ev rd iid raw modes region expected inst key st0 = Inr (d, st')"
    and "wf_registry st0"
  shows "wf_registry st'"
  using assms(1)
proof (cases rule: promote_cases)
  case (1 row path requested acc c)
  let ?st = "expire_intents rd st0"
  have wf: "wf_registry ?st" using assms(2) by simp
  have row: "row \<in> set (rg_intents ?st)" "ir_id row = iid" using find_intent_SomeD [OF 1(1)] by auto
  then have filed: "valid_intent (ir_payload row)" "ci_intent_id (ir_payload row) = ir_id row"
    using wf_registryD(2) [OF wf] by (auto simp: filed_def)
  have "list_all valid_operation (pa_ops acc)"
    by (rule promote_all_valid [OF 1(6)])
      (use filed(1) in \<open>auto simp: valid_intent_def list_all_iff in_set_enumerate_eq\<close>)
  note c = promoted_intent_valid [OF 1(7) filed(1) this]
  show ?thesis
  proof (cases "ad_allowed d")
    case True
    with 1(9) obtain payload where
      "apply_promotion sha mac rd row c d inst key payload ?st = Inr st'" by auto
    then show ?thesis
      by (rule apply_promotion_wf [OF _ wf 1(1,2) c(1)])
        (use c(2) filed(2) decide_allowed [OF 1(8) True] in auto)
  next
    case False
    with 1(9) wf show ?thesis by auto
  qed
qed


lemma apply_amendment_wf:
  assumes "apply_amendment sha rd row i d payload st = Inr st'" and "wf_registry st"
    and "find_intent st (ci_intent_id i) = Some row" and "valid_intent i"
    and "dependency_cycle st i d = None"
  shows "wf_registry st'"
proof -
  let ?next = "amended_state (ir_state row)" and ?keys = "changed_resource_keys (ir_payload row) i"
  let ?st1 = "intent_row_update (ir_id row) (rebased_row sha rd ?next i d) st"
  let ?st2 = "replace_edges (rd_edges rd) i d ?st1"
  have row: "row \<in> set (rg_intents st)" "ir_id row = ci_intent_id i"
    using find_intent_SomeD [OF assms(3)] by auto
  have only: "r = row" if "r \<in> set (rg_intents st)" "ir_id r = ir_id row" for r
    using wf_registryD(1) [OF assms(2)] row(1) that by (auto intro: keys_unique_eqD)
  have "wf_registry ?st1"
  proof (rule wf_row_update [OF assms(2)])
    show "filed (rebased_row sha rd ?next i d r)" if "filed r" "ir_id r = ir_id row" for r
      using that row(2) assms(4) by (intro filed_rebased_row) simp_all
    show "ir_state r = S_STALE \<or> ir_id row \<notin> live_brokers st"
      if "r \<in> set (rg_intents st)" "ir_id r = ir_id row" "ir_state (rebased_row sha rd ?next i d r) = S_STALE" for r
      using only [OF that(1,2)] that(3) by (simp add: amended_state_def split: if_splits)
  qed simp
  then have wf2: "wf_registry ?st2" by (rule wf_replace_edges [OF _ assms(5)]) simp
  obtain stale st3 where inv: "(if ?keys = [] then Inr ([], ?st2)
        else invalidate_dependents sha rd (ir_id row) ?keys ''producer_amended'' ?st2) = Inr (stale, st3)"
    and st': "st' = log_event ''intent_amended'' (Some (ir_id row)) (Some (ci_owner i))
      (amended_event d ?keys stale payload ?next) st3"
    using assms(1) by (auto simp: apply_amendment_def Let_def res_bind_eq_Inr)
  have "wf_registry st3"
  proof (cases "?keys = []")
    case True
    with inv wf2 show ?thesis by simp
  next
    case False
    with inv have "invalidate_dependents sha rd (ir_id row) ?keys ''producer_amended'' ?st2 = Inr (stale, st3)"
      by simp
    from invalidate_dependents_kept [OF this wf_registryD(1) [OF wf2]] show ?thesis
      using wf_invalidate [OF wf2] by blast
  qed
  with st' show ?thesis by auto
qed

text \<open>The paths of an amendment.\<close>

lemma amend_cases:
  assumes "amend_intent sha ev rd i expected preflight st0 = Inr (d, st')"
  obtains row payload where
    "find_intent (expire_intents rd st0) (ci_intent_id i) = Some row" "amendable (ir_state row)"
    "ir_owner row = ci_owner i" "\<not> stale_version expected row"
    "decide ev i (active_intents rd (Some (ci_intent_id i)) (expire_intents rd st0))
       (known_intent_ids (expire_intents rd st0) @ [ci_intent_id i]) (expire_intents rd st0) = Inr d"
    "ad_allowed d" "apply_amendment sha rd row i d payload (expire_intents rd st0) = Inr st'"
  | "\<exists>ty w p pl. st' = log_event ty w p pl (expire_intents rd st0)" "\<not> ad_allowed d"
proof -
  let ?st = "expire_intents rd st0"
  from assms obtain row where row: "find_intent ?st (ci_intent_id i) = Some row"
    by (auto simp: amend_intent_def Let_def split: option.splits)
  with assms have guards: "ir_owner row = ci_owner i" "\<not> stale_version expected row" "amendable (ir_state row)"
    by (auto simp: amend_intent_def Let_def split: if_splits)
  obtain ok payload guidance where pf: "(case preflight of None \<Rightarrow> (True, [], [])
      | Some f \<Rightarrow> f (ir_payload row) i (active_intents rd (Some (ci_intent_id i)) ?st)) = (ok, payload, guidance)"
    by (metis prod_cases3)
  show thesis
  proof (cases ok)
    case False
    with assms row guards pf show ?thesis
      by (intro that(2)) (auto simp: amend_intent_def Let_def preflight_rejection_def)
  next
    case True
    with assms row guards pf have fin: "res_bind (decide ev i (active_intents rd (Some (ci_intent_id i)) ?st)
        (known_intent_ids ?st @ [ci_intent_id i]) ?st) (\<lambda>d.
          if \<not> ad_allowed d then Inr (d, log_event ''intent_amendment_rejected'' (Some (ci_intent_id i))
                 (Some (ci_owner i)) (decision_dict d) ?st)
          else res_bind (apply_amendment sha rd row i d payload ?st) (\<lambda>st'. Inr (d, st'))) = Inr (d, st')"
      by (simp add: amend_intent_def Let_def)
    then obtain d' where dec: "decide ev i (active_intents rd (Some (ci_intent_id i)) ?st)
        (known_intent_ids ?st @ [ci_intent_id i]) ?st = Inr d'"
      by (auto simp: res_bind_eq_Inr)
    with fin have "d' = d" by (auto simp: res_bind_eq_Inr split: if_split_asm)
    show ?thesis
    proof (cases "ad_allowed d")
      case True
      with fin dec \<open>d' = d\<close> show ?thesis
        by (intro that(1) [OF row guards(3,1,2)]) (auto simp: res_bind_eq_Inr)
    next
      case False
      with fin dec \<open>d' = d\<close> show ?thesis by (intro that(2)) auto
    qed
  qed
qed

lemma amend_wf:
  assumes "amend_intent sha ev rd i expected preflight st0 = Inr (d, st')" and "wf_registry st0"
    and "valid_intent i"
  shows "wf_registry st'"
  using assms(1)
proof (cases rule: amend_cases)
  case (1 row payload)
  then show ?thesis
    using apply_amendment_wf [OF 1(7) _ 1(1) assms(3)] decide_allowed [OF 1(5,6)] assms(2) by simp
next
  case 2
  with assms(2) show ?thesis by auto
qed

lemma set_intent_state_cases:
  assumes "set_intent_state now iid s ty allowed noop st = Inr st'"
  obtains row where "find_intent st iid = Some row"
    "ir_state row \<in> set noop" "\<exists>t w p pl. st' = log_event t w p pl st"
  | row where "find_intent st iid = Some row" "ir_state row \<in> set allowed" "ir_state row \<notin> set noop"
    "\<not> (s = S_ACTIVE \<and> refresh_pending st iid)"
    "\<exists>t w p pl. st' = log_event t w p pl (intent_row_update iid (set_state s now) st)"
  using assms by (auto simp: set_intent_state_def split: option.splits if_splits)

lemma set_intent_state_wf:
  assumes "set_intent_state now iid s ty allowed noop st = Inr st'" and "wf_registry st"
    and "s \<noteq> S_STALE"
  shows "wf_registry st'"
  using assms(1)
proof (cases rule: set_intent_state_cases)
  case (1 row)
  with assms(2) show ?thesis by auto
next
  case (2 row)
  have "wf_registry (intent_row_update iid (set_state s now) st)"
    by (rule wf_row_update [OF assms(2)]) (use assms(3) in simp_all)
  with 2 show ?thesis by auto
qed

lemma heartbeat_cases:
  assumes "heartbeat_intent rd iid seconds st = Inr st'"
  obtains row where "find_intent st iid = Some row" "live_state (ir_state row)" "0 < seconds"
    "\<exists>t w p pl. st' = log_event t w p pl (intent_row_update iid
       (\<lambda>r. r\<lparr>ir_lease := lease_until (rd_future rd) seconds, ir_updated := rd_now rd,
            ir_version := ir_version r + 1\<rparr>) st)"
  using assms by (auto simp: heartbeat_intent_def split: option.splits if_splits)

lemma heartbeat_wf:
  assumes "heartbeat_intent rd iid seconds st = Inr st'" and "wf_registry st"
  shows "wf_registry st'"
  using assms(1)
proof (cases rule: heartbeat_cases)
  case (1 row)
  have "wf_registry (intent_row_update iid
       (\<lambda>r. r\<lparr>ir_lease := lease_until (rd_future rd) seconds, ir_updated := rd_now rd,
            ir_version := ir_version r + 1\<rparr>) st)"
    by (rule wf_row_update [OF assms(2)]) (simp_all add: filed_def)
  with 1 show ?thesis by auto
qed

end
