(* ===== verification/Manifest.thy ===== *)
theory Manifest
  imports Codec
begin

text \<open>
  The observed side of \<open>core/models.py\<close>: what a worker did (changed regions, acceptance results,
  observed accesses and artifacts, the change manifest), what the verifier says about it
  (findings and reports), and the repair plan, each with its construction and its JSON form.
\<close>


section \<open>Enumerations\<close>

datatype finding_severity = SEV_INFO | SEV_WARNING | SEV_ERROR

datatype finding_code =
    UNDECLARED_CHANGE | MISSING_DECLARED_CHANGE | REGION_VIOLATION | CONTRACT_MISSING
  | CONTRACT_MISMATCH | STALE_BASE | SEMANTIC_DRIFT | SEMANTIC_UNAVAILABLE
  | CROSS_INTENT_COLLISION | OWNER_MISMATCH | UNKNOWN_INTENT | DEPENDENCY_MISSING
  | DEPENDENCY_STALE | ACCEPTANCE_FAILED | PRESERVE_VIOLATION | SNAPSHOT_MUTATION
  | UNDECLARED_READ | OBSERVED_DEPENDENCY_MISSING | OBSERVATION_TRACE_INVALID
  | SANDBOX_UNAVAILABLE | EVIDENCE_SIGNATURE_INVALID

datatype repair_kind =
    REVERT_UNDECLARED | REDECLARE_SCOPE | ALIGN_CONTRACT | REBASE | NOTIFY_DEPENDENTS
  | REPAIR_SERIALIZE | ADD_MISSING_ARTIFACT | RERUN_ACCEPTANCE | REPAIR_REGION
  | REFRESH_DEPENDENCY | HUMAN_REVIEW | DECLARE_READ | PIN_BASE

fun severity_value :: "finding_severity \<Rightarrow> string" where
  "severity_value SEV_INFO = ''info''"
| "severity_value SEV_WARNING = ''warning''"
| "severity_value SEV_ERROR = ''error''"

fun finding_code_value :: "finding_code \<Rightarrow> string" where
  "finding_code_value UNDECLARED_CHANGE = ''undeclared_change''"
| "finding_code_value MISSING_DECLARED_CHANGE = ''missing_declared_change''"
| "finding_code_value REGION_VIOLATION = ''region_violation''"
| "finding_code_value CONTRACT_MISSING = ''contract_missing''"
| "finding_code_value CONTRACT_MISMATCH = ''contract_mismatch''"
| "finding_code_value STALE_BASE = ''stale_base''"
| "finding_code_value SEMANTIC_DRIFT = ''semantic_drift''"
| "finding_code_value SEMANTIC_UNAVAILABLE = ''semantic_unavailable''"
| "finding_code_value CROSS_INTENT_COLLISION = ''cross_intent_collision''"
| "finding_code_value OWNER_MISMATCH = ''owner_mismatch''"
| "finding_code_value UNKNOWN_INTENT = ''unknown_intent''"
| "finding_code_value DEPENDENCY_MISSING = ''dependency_missing''"
| "finding_code_value DEPENDENCY_STALE = ''dependency_stale''"
| "finding_code_value ACCEPTANCE_FAILED = ''acceptance_failed''"
| "finding_code_value PRESERVE_VIOLATION = ''preserve_violation''"
| "finding_code_value SNAPSHOT_MUTATION = ''snapshot_mutation''"
| "finding_code_value UNDECLARED_READ = ''undeclared_read''"
| "finding_code_value OBSERVED_DEPENDENCY_MISSING = ''observed_dependency_missing''"
| "finding_code_value OBSERVATION_TRACE_INVALID = ''observation_trace_invalid''"
| "finding_code_value SANDBOX_UNAVAILABLE = ''sandbox_unavailable''"
| "finding_code_value EVIDENCE_SIGNATURE_INVALID = ''evidence_signature_invalid''"

fun repair_kind_value :: "repair_kind \<Rightarrow> string" where
  "repair_kind_value REVERT_UNDECLARED = ''revert_undeclared''"
| "repair_kind_value REDECLARE_SCOPE = ''redeclare_scope''"
| "repair_kind_value ALIGN_CONTRACT = ''align_contract''"
| "repair_kind_value REBASE = ''rebase''"
| "repair_kind_value NOTIFY_DEPENDENTS = ''notify_dependents''"
| "repair_kind_value REPAIR_SERIALIZE = ''serialize''"
| "repair_kind_value ADD_MISSING_ARTIFACT = ''add_missing_artifact''"
| "repair_kind_value RERUN_ACCEPTANCE = ''rerun_acceptance''"
| "repair_kind_value REPAIR_REGION = ''repair_region''"
| "repair_kind_value REFRESH_DEPENDENCY = ''refresh_dependency''"
| "repair_kind_value HUMAN_REVIEW = ''human_review''"
| "repair_kind_value DECLARE_READ = ''declare_read''"
| "repair_kind_value PIN_BASE = ''pin_base''"


section \<open>Reading fields\<close>

text \<open>\<open>data[key]\<close>, and an optional field that is passed on as it is.\<close>

definition field_of :: "metadata \<Rightarrow> string \<Rightarrow> codec_error + json" where
  "field_of data key = (case map_of data key of None \<Rightarrow> Inl (MissingFields [key]) | Some v \<Rightarrow> Inr v)"

definition field_text :: "metadata \<Rightarrow> string \<Rightarrow> codec_error + string" where
  "field_text data key = res_bind (field_of data key) (\<lambda>v. Inr (py_str v))"

definition field_int :: "metadata \<Rightarrow> string \<Rightarrow> codec_error + int" where
  "field_int data key = res_bind (field_of data key) py_int"

definition raw_text :: "metadata \<Rightarrow> string \<Rightarrow> codec_error + string option" where
  "raw_text data key = (case jget data key of
       JNull \<Rightarrow> Inr None | JStr s \<Rightarrow> Inr (Some s) | _ \<Rightarrow> Inl UnmodelledValue)"

text \<open>\<open>str(data[key]) if data.get(key) is not None else None\<close>, and the same with \<open>int\<close>.\<close>

definition present_text :: "metadata \<Rightarrow> string \<Rightarrow> string option" where
  "present_text data key = (if jget data key = JNull then None else Some (py_str (jget data key)))"

definition present_int :: "metadata \<Rightarrow> string \<Rightarrow> codec_error + int option" where
  "present_int data key =
     (if jget data key = JNull then Inr None else res_bind (py_int (jget data key)) (\<lambda>i. Inr (Some i)))"

text \<open>The items of \<open>data.get(key) or ()\<close>, each of which the caller reads as a mapping.\<close>

definition dict_items :: "metadata \<Rightarrow> string \<Rightarrow> codec_error + json list" where
  "dict_items data key =
     (let v = jget data key
      in if \<not> truthy v then Inr [] else case v of JList xs \<Rightarrow> Inr xs | _ \<Rightarrow> Inl (WrongType key))"

definition jint_or_null :: "int option \<Rightarrow> json" where
  "jint_or_null v = (case v of None \<Rightarrow> JNull | Some i \<Rightarrow> JInt i)"


section \<open>Changed regions\<close>

record changed_region =
  hn_path :: string
  hn_start :: int
  hn_end :: int
  hn_old_start :: "int option"
  hn_old_end :: "int option"

datatype region_error = RegionModel model_error | InvalidRegion

definition region_post_init :: "changed_region \<Rightarrow> region_error + changed_region" where
  "region_post_init r = (case clean ''region path'' (hn_path r) of
       Inl e \<Rightarrow> Inl (RegionModel e)
     | Inr p \<Rightarrow> if hn_start r < 0 \<or> hn_end r < hn_start r then Inl InvalidRegion
         else Inr (r\<lparr>hn_path := norm_path p\<rparr>))"

definition region_overlaps :: "changed_region \<Rightarrow> int \<Rightarrow> int \<Rightarrow> bool" where
  "region_overlaps r first final = (\<not> (hn_end r < first \<or> final < hn_start r))"

definition region_dict :: "changed_region \<Rightarrow> json" where
  "region_dict r = JObj
     [(''path'', JStr (hn_path r)), (''start_line'', JInt (hn_start r)), (''end_line'', JInt (hn_end r)),
      (''old_start_line'', jint_or_null (hn_old_start r)), (''old_end_line'', jint_or_null (hn_old_end r))]"

datatype manifest_error = ManifestCodec codec_error | ManifestModel model_error | ManifestRegion region_error

definition lift_data :: "codec_error + 'a \<Rightarrow> manifest_error + 'a" where
  "lift_data r = (case r of Inl e \<Rightarrow> Inl (ManifestCodec e) | Inr a \<Rightarrow> Inr a)"

definition lift_clean :: "model_error + 'a \<Rightarrow> manifest_error + 'a" where
  "lift_clean r = (case r of Inl e \<Rightarrow> Inl (ManifestModel e) | Inr a \<Rightarrow> Inr a)"

definition lift_region :: "region_error + 'a \<Rightarrow> manifest_error + 'a" where
  "lift_region r = (case r of Inl e \<Rightarrow> Inl (ManifestRegion e) | Inr a \<Rightarrow> Inr a)"

lemma lift_manifest_eq [simp]:
  "lift_data r = Inr a \<longleftrightarrow> r = Inr a" "lift_clean s = Inr b \<longleftrightarrow> s = Inr b"
  "lift_region t = Inr c \<longleftrightarrow> t = Inr c"
  by (auto simp: lift_data_def lift_clean_def lift_region_def split: sum.splits)

definition region_from_dict :: "json \<Rightarrow> manifest_error + changed_region" where
  "region_from_dict v =
     res_bind (lift_data (as_object v)) (\<lambda>data.
     res_bind (lift_data (field_text data ''path'')) (\<lambda>path.
     res_bind (lift_data (field_int data ''start_line'')) (\<lambda>first.
     res_bind (lift_data (field_int data ''end_line'')) (\<lambda>final.
     res_bind (lift_data (present_int data ''old_start_line'')) (\<lambda>old_first.
     res_bind (lift_data (present_int data ''old_end_line'')) (\<lambda>old_final.
     lift_region (region_post_init
       \<lparr>hn_path = path, hn_start = first, hn_end = final, hn_old_start = old_first, hn_old_end = old_final\<rparr>)))))))"


section \<open>Acceptance results\<close>

record acceptance_result =
  tr_command :: string
  tr_code :: int
  tr_duration :: int
  tr_stdout :: string
  tr_stderr :: string
  tr_backend :: string
  tr_enforced :: bool

definition result_passed :: "acceptance_result \<Rightarrow> bool" where
  "result_passed r = (tr_code r = 0)"

definition result_dict :: "acceptance_result \<Rightarrow> json" where
  "result_dict r = JObj
     [(''command'', JStr (tr_command r)), (''returncode'', JInt (tr_code r)),
      (''passed'', JBool (result_passed r)), (''duration_ms'', JInt (tr_duration r)),
      (''stdout_tail'', JStr (tr_stdout r)), (''stderr_tail'', JStr (tr_stderr r)),
      (''sandbox_backend'', JStr (tr_backend r)), (''sandbox_enforced'', JBool (tr_enforced r))]"

definition result_from_dict :: "json \<Rightarrow> manifest_error + acceptance_result" where
  "result_from_dict v =
     res_bind (lift_data (as_object v)) (\<lambda>data.
     res_bind (lift_data (field_text data ''command'')) (\<lambda>command.
     res_bind (lift_data (field_int data ''returncode'')) (\<lambda>rc.
     res_bind (lift_data (py_int (get_default data ''duration_ms'' (JInt 0)))) (\<lambda>ms.
     Inr \<lparr>tr_command = command, tr_code = rc, tr_duration = ms, tr_stdout = get_str data ''stdout_tail'',
          tr_stderr = get_str data ''stderr_tail'',
          tr_backend = (if truthy (jget data ''sandbox_backend'') then py_str (jget data ''sandbox_backend'') else ''tree''),
          tr_enforced = truthy (get_default data ''sandbox_enforced'' (JBool False))\<rparr>))))"


section \<open>Observed accesses and artifacts\<close>

record observed_access =
  oa_mode :: access_mode
  oa_resource :: resource_ref
  oa_tool :: "string option"
  oa_timestamp :: "string option"
  oa_metadata :: metadata

definition access_dict :: "observed_access \<Rightarrow> json" where
  "access_dict a = JObj
     [(''mode'', JStr (mode_value (oa_mode a))), (''resource'', resource_dict (oa_resource a)),
      (''tool'', jopt (oa_tool a)), (''timestamp'', jopt (oa_timestamp a)),
      (''metadata'', JObj (oa_metadata a))]"

definition access_from_dict :: "json \<Rightarrow> manifest_error + observed_access" where
  "access_from_dict v =
     res_bind (lift_data (as_object v)) (\<lambda>data.
     res_bind (lift_data (res_bind (field_of data ''mode'') (enum_of mode_value all_modes))) (\<lambda>mode.
     res_bind (lift_data (res_bind (field_of data ''resource'') resource_from_dict)) (\<lambda>r.
     res_bind (lift_data (get_dict data ''metadata'')) (\<lambda>meta.
     Inr \<lparr>oa_mode = mode, oa_resource = r, oa_tool = present_text data ''tool'',
          oa_timestamp = present_text data ''timestamp'', oa_metadata = meta\<rparr>))))"

record observed_artifact =
  art_kind :: resource_kind
  art_identifier :: string
  art_path :: string
  art_signature :: "string option"
  art_concept :: "string option"
  art_subject :: "string option"
  art_qualified :: "string option"
  art_first :: "int option"
  art_final :: "int option"
  art_metadata :: metadata

definition artifact_post_init :: "observed_artifact \<Rightarrow> model_error + observed_artifact" where
  "artifact_post_init a =
     res_bind (clean ''artifact identifier'' (art_identifier a)) (\<lambda>ident.
     res_bind (clean ''artifact path'' (art_path a)) (\<lambda>path.
     Inr (a\<lparr>art_identifier := ident, art_path := norm_path path,
            art_signature := norm_signature (art_signature a)\<rparr>)))"

definition artifact_key :: "observed_artifact \<Rightarrow> string" where
  "artifact_key a = norm_identifier (str_or (art_concept a) (art_identifier a))"

definition artifact_subject_key :: "observed_artifact \<Rightarrow> string option" where
  "artifact_subject_key a = (case art_subject a of
       Some s \<Rightarrow> if s = [] then None else Some (norm_identifier s) | None \<Rightarrow> None)"

definition artifact_dict :: "observed_artifact \<Rightarrow> json" where
  "artifact_dict a = JObj
     [(''kind'', JStr (kind_value (art_kind a))), (''identifier'', JStr (art_identifier a)),
      (''path'', JStr (art_path a)), (''signature'', jopt (art_signature a)),
      (''concept_id'', jopt (art_concept a)), (''subject_concept_id'', jopt (art_subject a)),
      (''qualified_identifier'', jopt (art_qualified a)), (''line_start'', jint_or_null (art_first a)),
      (''line_end'', jint_or_null (art_final a)), (''metadata'', JObj (art_metadata a))]"

definition artifact_from_dict :: "json \<Rightarrow> manifest_error + observed_artifact" where
  "artifact_from_dict v =
     res_bind (lift_data (as_object v)) (\<lambda>data.
     res_bind (lift_data (res_bind (field_of data ''kind'') (enum_of kind_value all_kinds))) (\<lambda>kind.
     res_bind (lift_data (field_text data ''identifier'')) (\<lambda>ident.
     res_bind (lift_data (field_text data ''path'')) (\<lambda>path.
     res_bind (lift_data (get_text data ''signature'')) (\<lambda>sig.
     res_bind (lift_data (raw_text data ''concept_id'')) (\<lambda>concept.
     res_bind (lift_data (raw_text data ''subject_concept_id'')) (\<lambda>subject.
     res_bind (lift_data (raw_text data ''qualified_identifier'')) (\<lambda>qualified.
     res_bind (lift_data (present_int data ''line_start'')) (\<lambda>first.
     res_bind (lift_data (present_int data ''line_end'')) (\<lambda>final.
     res_bind (lift_data (get_dict data ''metadata'')) (\<lambda>meta.
     lift_clean (artifact_post_init
       \<lparr>art_kind = kind, art_identifier = ident, art_path = path, art_signature = sig, art_concept = concept,
        art_subject = subject, art_qualified = qualified, art_first = first, art_final = final,
        art_metadata = meta\<rparr>))))))))))))"


section \<open>Change manifests\<close>

record change_manifest =
  mf_intent :: string
  mf_owner :: string
  mf_revision :: string
  mf_files :: "string list"
  mf_commit :: "string option"
  mf_artifacts :: "observed_artifact list"
  mf_accesses :: "observed_access list"
  mf_regions :: "changed_region list"
  mf_results :: "acceptance_result list"
  mf_metadata :: metadata

definition manifest_commit :: "string option \<Rightarrow> model_error + string option" where
  "manifest_commit v = (case v of None \<Rightarrow> Inr None
     | Some s \<Rightarrow> res_bind (clean ''manifest base_commit'' s) (\<lambda>c. Inr (Some (lower c))))"

definition manifest_post_init :: "change_manifest \<Rightarrow> model_error + change_manifest" where
  "manifest_post_init m =
     res_bind (clean ''manifest intent_id'' (mf_intent m)) (\<lambda>iid.
     res_bind (clean ''manifest owner'' (mf_owner m)) (\<lambda>owner.
     res_bind (clean ''manifest base_revision'' (mf_revision m)) (\<lambda>rev.
     res_bind (manifest_commit (mf_commit m)) (\<lambda>commit.
     Inr (m\<lparr>mf_intent := iid, mf_owner := owner, mf_revision := rev, mf_commit := commit,
            mf_files := uniq (map norm_path (mf_files m))\<rparr>)))))"

definition manifest_dict :: "change_manifest \<Rightarrow> json" where
  "manifest_dict m = JObj
     [(''intent_id'', JStr (mf_intent m)), (''owner'', JStr (mf_owner m)),
      (''base_revision'', JStr (mf_revision m)), (''base_commit'', jopt (mf_commit m)),
      (''changed_files'', jstrs (mf_files m)), (''artifacts'', JList (map artifact_dict (mf_artifacts m))),
      (''observed_accesses'', JList (map access_dict (mf_accesses m))),
      (''changed_regions'', JList (map region_dict (mf_regions m))),
      (''acceptance_results'', JList (map result_dict (mf_results m))),
      (''metadata'', JObj (mf_metadata m))]"

definition manifest_from_dict :: "json \<Rightarrow> manifest_error + change_manifest" where
  "manifest_from_dict v =
     res_bind (lift_data (as_object v)) (\<lambda>data.
     res_bind (lift_data (field_text data ''intent_id'')) (\<lambda>iid.
     res_bind (lift_data (field_text data ''owner'')) (\<lambda>owner.
     res_bind (lift_data (field_text data ''base_revision'')) (\<lambda>rev.
     res_bind (lift_data (get_texts data ''changed_files'')) (\<lambda>files.
     res_bind (res_bind (lift_data (dict_items data ''artifacts'')) (res_map artifact_from_dict)) (\<lambda>artifacts.
     res_bind (res_bind (lift_data (dict_items data ''observed_accesses'')) (res_map access_from_dict)) (\<lambda>accesses.
     res_bind (res_bind (lift_data (dict_items data ''changed_regions'')) (res_map region_from_dict)) (\<lambda>regions.
     res_bind (res_bind (lift_data (dict_items data ''acceptance_results'')) (res_map result_from_dict)) (\<lambda>results.
     res_bind (lift_data (get_dict data ''metadata'')) (\<lambda>meta.
     lift_clean (manifest_post_init
       \<lparr>mf_intent = iid, mf_owner = owner, mf_revision = rev, mf_files = files,
        mf_commit = (if truthy (jget data ''base_commit'') then Some (py_str (jget data ''base_commit'')) else None),
        mf_artifacts = artifacts, mf_accesses = accesses, mf_regions = regions, mf_results = results,
        mf_metadata = meta\<rparr>)))))))))))"


section \<open>Findings, reports and repair plans\<close>

record integration_finding =
  fg_code :: finding_code
  fg_severity :: finding_severity
  fg_message :: string
  fg_path :: "string option"
  fg_identifier :: "string option"
  fg_related :: "string option"

definition finding_dict :: "integration_finding \<Rightarrow> json" where
  "finding_dict f = JObj
     [(''code'', JStr (finding_code_value (fg_code f))), (''severity'', JStr (severity_value (fg_severity f))),
      (''message'', JStr (fg_message f)), (''path'', jopt (fg_path f)), (''identifier'', jopt (fg_identifier f)),
      (''related_intent_id'', jopt (fg_related f))]"

record integration_report =
  rep_intent :: string
  rep_findings :: "integration_finding list"
  rep_metrics :: metadata

definition report_clean :: "integration_report \<Rightarrow> bool" where
  "report_clean r = (\<not> list_ex (\<lambda>f. fg_severity f = SEV_ERROR) (rep_findings r))"

definition report_dict :: "integration_report \<Rightarrow> json" where
  "report_dict r = JObj
     [(''intent_id'', JStr (rep_intent r)), (''clean'', JBool (report_clean r)),
      (''findings'', JList (map finding_dict (rep_findings r))), (''metrics'', JObj (rep_metrics r))]"

record repair_action =
  rac_kind :: repair_kind
  rac_instruction :: string
  rac_paths :: "string list"
  rac_identifiers :: "string list"
  rac_related :: "string list"
  rac_priority :: int

definition repair_action_dict :: "repair_action \<Rightarrow> json" where
  "repair_action_dict a = JObj
     [(''kind'', JStr (repair_kind_value (rac_kind a))), (''instruction'', JStr (rac_instruction a)),
      (''paths'', jstrs (rac_paths a)), (''identifiers'', jstrs (rac_identifiers a)),
      (''related_intents'', jstrs (rac_related a)), (''priority'', JInt (rac_priority a))]"

record repair_plan =
  rpl_intent :: string
  rpl_actions :: "repair_action list"
  rpl_rerun :: "string list"

definition requires_replan :: "repair_plan \<Rightarrow> bool" where
  "requires_replan p = list_ex (\<lambda>a. rac_kind a \<in>
     {REBASE, REPAIR_SERIALIZE, REDECLARE_SCOPE, REFRESH_DEPENDENCY, DECLARE_READ, PIN_BASE}) (rpl_actions p)"

definition repair_plan_dict :: "repair_plan \<Rightarrow> json" where
  "repair_plan_dict p = JObj
     [(''intent_id'', JStr (rpl_intent p)), (''requires_replan'', JBool (requires_replan p)),
      (''actions'', JList (map repair_action_dict (rpl_actions p))), (''rerun_checks'', jstrs (rpl_rerun p))]"

fun tier_value :: "worker_tier \<Rightarrow> string" where
  "tier_value ECONOMY = ''economy''"
| "tier_value STANDARD = ''standard''"
| "tier_value FRONTIER = ''frontier''"

definition route_dict :: "route_recommendation \<Rightarrow> json" where
  "route_dict r = JObj
     [(''tier'', JStr (tier_value (rt_tier r))), (''risk_score'', JInt (rt_risk_score r)),
      (''reasons'', jstrs (rt_reasons r)),
      (''fallback_tier'', case rt_fallback_tier r of None \<Rightarrow> JNull | Some t \<Rightarrow> JStr (tier_value t))]"

end
