(* ===== verification/Broker.thy ===== *)
theory Broker
  imports Recovery Manifest "HOL-Library.AList"
begin

text \<open>
  Observation sessions and the broker runtime of \<open>core/registry.py\<close>: the hash-chained event
  log of a session, the registration of a broker instance with its fencing token and writer
  lease, and the two-phase operations with their tree-hash compare-and-swap.
\<close>


section \<open>Observation sessions\<close>

definition find_session :: "registry \<Rightarrow> string \<Rightarrow> session_row option" where
  "find_session st sid = find_row sn_id sid (rg_sessions st)"

definition session_row_update :: "string \<Rightarrow> (session_row \<Rightarrow> session_row) \<Rightarrow> registry \<Rightarrow> registry" where
  "session_row_update sid f st =
     st\<lparr>rg_sessions := update_rows (\<lambda>s. sn_id s = sid) f (rg_sessions st)\<rparr>"

definition coverages :: "string list" where
  "coverages = [''tool_proxy'', ''brokered_proxy'', ''os_monitor'', ''declared'']"

definition open_session ::
  "string \<Rightarrow> string \<Rightarrow> string \<Rightarrow> string \<Rightarrow> string \<Rightarrow> string list \<Rightarrow> int \<Rightarrow> session_row" where
  "open_session sid iid monitor key_id coverage tools now =
     \<lparr>sn_id = sid, sn_intent = iid, sn_monitor = monitor, sn_key_id = key_id,
      sn_coverage = coverage, sn_tools = tools, sn_state = SS_OPEN, sn_complete = False,
      sn_count = 0, sn_head = [], sn_started = now, sn_sealed = None, sn_attestation = None,
      sn_broker = None, sn_broker_attestation = None\<rparr>"

definition start_observation_session ::
  "int \<Rightarrow> string \<Rightarrow> string \<Rightarrow> string \<Rightarrow> string \<Rightarrow> string \<Rightarrow> string list \<Rightarrow> registry
   \<Rightarrow> registry_error + session_row \<times> registry" where
  "start_observation_session now sid iid monitor key_id coverage required_tools st =
     (if strip sid = [] \<or> strip monitor = []
      then Inl (BadArgument ''session_id and monitor_id must not be empty'')
      else if coverage \<notin> set coverages then Inl (BadArgument ''unsupported observation coverage'')
      else if find_intent st iid = None then Inl (UnknownIntent iid)
      else if find_session st sid \<noteq> None then Inl (IntegrityError sid)
      else
        let row = open_session sid iid monitor key_id coverage (uniq (clean_list required_tools)) now
        in Inr (row, log_event ''observation_session_started'' (Some iid) None
              (JObj [(''session_id'', JStr sid), (''monitor_id'', JStr monitor),
                 (''coverage'', JStr coverage)])
              (st\<lparr>rg_sessions := rg_sessions st @ [row]\<rparr>)))"

text \<open>The signed payload of one event, and its hash.\<close>

definition observation_payload :: "string \<Rightarrow> nat \<Rightarrow> json \<Rightarrow> json \<Rightarrow> string \<Rightarrow> json" where
  "observation_payload sid seq at access prev = JObj
     [(''session_id'', JStr sid), (''seq'', JInt (int seq)), (''occurred_at'', at),
      (''access'', access), (''prev_hash'', JStr prev)]"

definition observation_hash :: "(json \<Rightarrow> string) \<Rightarrow> string \<Rightarrow> nat \<Rightarrow> json \<Rightarrow> json \<Rightarrow> string \<Rightarrow> string" where
  "observation_hash sha sid seq at access prev =
     sha (canon (observation_payload sid seq at access prev))"

definition occurred_at :: "observed_access \<Rightarrow> int \<Rightarrow> json" where
  "occurred_at a now = (case oa_timestamp a of None \<Rightarrow> JInt now
     | Some t \<Rightarrow> if t = [] then JInt now else JStr t)"

definition append_observation_event ::
  "(json \<Rightarrow> string) \<Rightarrow> (string \<Rightarrow> json \<Rightarrow> string) \<Rightarrow> int \<Rightarrow> string \<Rightarrow> observed_access \<Rightarrow> string
   \<Rightarrow> registry \<Rightarrow> registry_error + obs_row \<times> registry" where
  "append_observation_event sha mac now sid access key st =
     (case find_session st sid of
        None \<Rightarrow> Inl (UnknownSession sid)
      | Some s \<Rightarrow>
          if sn_state s \<noteq> SS_OPEN then Inl (BrokerRefused ''observation session is not open'')
          else
            let seq = Suc (sn_count s);
                at = occurred_at access now;
                hash = observation_hash sha sid seq at (access_dict access) (sn_head s);
                row = \<lparr>ob_session = sid, ob_seq = seq, ob_at = at, ob_access = access_dict access,
                       ob_prev = sn_head s, ob_hash = hash, ob_hmac = mac key (JStr hash)\<rparr>
            in if list_ex (\<lambda>q. ob_session q = sid \<and> ob_seq q = seq) (rg_observations st)
               then Inl (IntegrityError sid)
               else Inr (row, session_row_update sid (\<lambda>s. s\<lparr>sn_count := seq, sn_head := hash\<rparr>)
                      (st\<lparr>rg_observations := rg_observations st @ [row]\<rparr>)))"

definition record_observation_event ::
  "(json \<Rightarrow> string) \<Rightarrow> (string \<Rightarrow> json \<Rightarrow> string) \<Rightarrow> int \<Rightarrow> string \<Rightarrow> observed_access \<Rightarrow> string
   \<Rightarrow> registry \<Rightarrow> registry_error + obs_row \<times> registry" where
  "record_observation_event sha mac now sid access key st =
     (if key = [] then Inl (BadArgument ''observation signing key must not be empty'')
      else case find_session st sid of
          None \<Rightarrow> Inl (UnknownSession sid)
        | Some s \<Rightarrow>
            if sn_coverage s = ''brokered_proxy''
            then Inl (BrokerRefused ''brokered_proxy events must be committed by a registered broker instance'')
            else append_observation_event sha mac now sid access key st)"

definition session_summary :: "session_row \<Rightarrow> bool \<Rightarrow> int \<Rightarrow> metadata" where
  "session_summary s complete sealed_at =
     [(''protocol'', JStr ''claim-plane.observation-session.v1''), (''session_id'', JStr (sn_id s)),
      (''intent_id'', JStr (sn_intent s)), (''monitor_id'', JStr (sn_monitor s)),
      (''key_id'', JStr (sn_key_id s)), (''coverage'', JStr (sn_coverage s)),
      (''required_tools'', jstrs (sn_tools s)), (''event_count'', JInt (int (sn_count s))),
      (''head_hash'', JStr (sn_head s)), (''complete'', JBool complete),
      (''started_at'', JInt (sn_started s)), (''sealed_at'', JInt sealed_at)]"

definition seal_observation_session ::
  "(string \<Rightarrow> json \<Rightarrow> string) \<Rightarrow> int \<Rightarrow> string \<Rightarrow> string \<Rightarrow> bool \<Rightarrow> registry \<Rightarrow> registry_error + registry" where
  "seal_observation_session mac now sid key complete st =
     (if key = [] then Inl (BadArgument ''observation signing key must not be empty'')
      else case find_session st sid of
          None \<Rightarrow> Inl (UnknownSession sid)
        | Some s \<Rightarrow>
            if sn_state s \<noteq> SS_OPEN then Inl (BrokerRefused ''observation session is not open'')
            else Inr (log_event ''observation_session_sealed'' (Some (sn_intent s)) None
                   (JObj [(''session_id'', JStr sid), (''complete'', JBool complete),
                      (''head_hash'', JStr (sn_head s))])
                   (session_row_update sid (\<lambda>s. s\<lparr>sn_state := SS_SEALED, sn_complete := complete,
                      sn_sealed := Some now,
                      sn_attestation := Some (attest mac key (session_summary s complete now))\<rparr>) st)))"

text \<open>
  The verification of the event chain: the events by sequence number, recomputing every hash
  and signature from the recomputed head.
\<close>

datatype chain_error = CE_SEQ nat | CE_PREV nat | CE_HASH nat | CE_HMAC nat | CE_COUNT | CE_HEAD

fun verify_chain ::
  "(json \<Rightarrow> string) \<Rightarrow> (string \<Rightarrow> json \<Rightarrow> string) \<Rightarrow> string \<Rightarrow> string \<Rightarrow> nat \<Rightarrow> string \<Rightarrow> obs_row list
   \<Rightarrow> chain_error list \<times> string" where
  "verify_chain sha mac sid key n prev [] = ([], prev)"
| "verify_chain sha mac sid key n prev (r # rs) =
     (let hash = observation_hash sha sid n (ob_at r) (ob_access r) prev;
          (errs, head) = verify_chain sha mac sid key (Suc n) hash rs
      in ((if ob_seq r \<noteq> n then [CE_SEQ n] else [])
          @ (if ob_prev r \<noteq> prev then [CE_PREV n] else [])
          @ (if ob_hash r \<noteq> hash then [CE_HASH n] else [])
          @ (if ob_hmac r \<noteq> mac key (JStr hash) then [CE_HMAC n] else [])
          @ errs, head))"

definition session_events :: "registry \<Rightarrow> string \<Rightarrow> obs_row list" where
  "session_events st sid = sort_key ob_seq (filter (\<lambda>r. ob_session r = sid) (rg_observations st))"

definition verify_session_chain ::
  "(json \<Rightarrow> string) \<Rightarrow> (string \<Rightarrow> json \<Rightarrow> string) \<Rightarrow> string \<Rightarrow> session_row \<Rightarrow> registry \<Rightarrow> chain_error list" where
  "verify_session_chain sha mac key s st =
     (let rows = session_events st (sn_id s);
          (errs, head) = verify_chain sha mac (sn_id s) key 1 [] rows
      in errs @ (if length rows \<noteq> sn_count s then [CE_COUNT] else [])
         @ (if head \<noteq> sn_head s then [CE_HEAD] else []))"


section \<open>Broker registration\<close>

definition expire_leases :: "int \<Rightarrow> registry \<Rightarrow> registry" where
  "expire_leases now st =
     (let expired = filter (\<lambda>l. ls_expires l \<le> now) (rg_leases st)
      in st\<lparr>rg_leases := delete_rows (\<lambda>l. list_ex (\<lambda>e. ls_root l = ls_root e
                \<and> ls_instance l = ls_instance e) expired) (rg_leases st),
            rg_brokers := update_rows (\<lambda>b. bk_state b = BK_ACTIVE
                \<and> bk_id b \<in> set (map ls_instance expired))
              (\<lambda>b. b\<lparr>bk_state := BK_EXPIRED,
                   bk_stopped := (case bk_stopped b of None \<Rightarrow> Some now | s \<Rightarrow> s), bk_seen := now\<rparr>)
              (rg_brokers st)\<rparr>)"

definition find_lease :: "registry \<Rightarrow> string \<Rightarrow> lease_row option" where
  "find_lease st root = find_row ls_root root (rg_leases st)"

definition last_token :: "registry \<Rightarrow> string \<Rightarrow> int" where
  "last_token st root = (case map_of (rg_counters st) root of None \<Rightarrow> 0 | Some t \<Rightarrow> t)"

record broker_request =
  br_instance :: string
  br_intent :: string
  br_session :: string
  br_monitor :: string
  br_key_id :: string
  br_root :: string
  br_repo :: string
  br_base :: string
  br_tree :: string
  br_lease :: int
  br_policy :: metadata
  br_binary :: string
  br_tools :: "string list"

definition bind_session :: "broker_request \<Rightarrow> int \<Rightarrow> registry \<Rightarrow> registry_error + registry" where
  "bind_session q now st = (case find_session st (br_session q) of
       None \<Rightarrow> Inr (st\<lparr>rg_sessions := rg_sessions st
          @ [open_session (br_session q) (br_intent q) (br_monitor q) (br_key_id q) ''brokered_proxy''
               (uniq (clean_list (br_tools q))) now]\<rparr>)
     | Some s \<Rightarrow>
         if sn_intent s \<noteq> br_intent q then Inl (BrokerRefused ''broker session belongs to another intent'')
         else if sn_coverage s \<noteq> ''brokered_proxy''
         then Inl (BrokerRefused ''broker instance requires brokered_proxy coverage'')
         else if sn_state s \<noteq> SS_OPEN then Inl (BrokerRefused ''observation session is not open'')
         else if (case sn_broker s of None \<Rightarrow> False | Some b \<Rightarrow> b \<noteq> [] \<and> b \<noteq> br_instance q)
         then Inl (BrokerRefused ''observation session is already bound to another broker'')
         else Inr st)"

definition new_broker ::
  "(json \<Rightarrow> string) \<Rightarrow> (string \<Rightarrow> json \<Rightarrow> string) \<Rightarrow> broker_request \<Rightarrow> intent_row \<Rightarrow> int \<Rightarrow> string \<Rightarrow> int
   \<Rightarrow> broker_row" where
  "new_broker sha mac q row token key now =
     (let b = \<lparr>bk_id = br_instance q, bk_intent = br_intent q, bk_content = ir_content row,
        bk_fingerprint = ir_fingerprint row, bk_session = br_session q, bk_monitor = br_monitor q,
        bk_key_id = br_key_id q, bk_root = br_root q, bk_repo = br_repo q, bk_base = br_base q,
        bk_initial_tree = br_tree q, bk_tree = br_tree q, bk_lease_seconds = br_lease q,
        bk_token = token, bk_policy = br_policy q,
        bk_policy_digest = sha (canon (JObj (br_policy q))), bk_binary = br_binary q,
        bk_state = BK_ACTIVE, bk_started = now, bk_seen = now, bk_stopped = None, bk_attestation = []\<rparr>
      in b\<lparr>bk_attestation := attest mac key (broker_payload b)\<rparr>)"

definition new_lease :: "broker_request \<Rightarrow> int \<Rightarrow> int \<Rightarrow> int \<Rightarrow> lease_row" where
  "new_lease q token now expires =
     \<lparr>ls_root = br_root q, ls_repo = br_repo q, ls_intent = br_intent q, ls_instance = br_instance q,
      ls_acquired = now, ls_renewed = now, ls_expires = expires, ls_token = token\<rparr>"

text \<open>The guards before the token is drawn.\<close>

definition register_guard :: "broker_request \<Rightarrow> registry \<Rightarrow> registry_error + intent_row" where
  "register_guard q st = (case find_intent st (br_intent q) of
       None \<Rightarrow> Inl (UnknownIntent (br_intent q))
     | Some row \<Rightarrow>
         if \<not> live_state (ir_state row) then Inl (BadState (ir_state row))
         else if refresh_pending st (br_intent q)
         then Inl (RuntimeRefused ''runtime-refreshed intent must resume before a fresh broker is registered'')
         else if ci_base_commit (ir_payload row) \<noteq> Some (br_base q)
         then Inl (BrokerRefused ''broker base commit does not match intent base'')
         else if (case find_lease st (br_root q) of None \<Rightarrow> False | Some l \<Rightarrow> ls_instance l \<noteq> br_instance q)
         then Inl (BrokerRefused ''governed worktree already has an active broker writer'')
         else Inr row)"

definition register_event :: "broker_row \<Rightarrow> int \<Rightarrow> json" where
  "register_event b expires = JObj
     [(''instance_id'', JStr (bk_id b)), (''session_id'', JStr (bk_session b)),
      (''base_commit'', JStr (bk_base b)), (''initial_tree_hash'', JStr (bk_initial_tree b)),
      (''policy_digest'', JStr (bk_policy_digest b)), (''writer_lease_expires_at'', JInt expires),
      (''fencing_token'', JInt (bk_token b))]"

definition register_broker_instance ::
  "(json \<Rightarrow> string) \<Rightarrow> (string \<Rightarrow> json \<Rightarrow> string) \<Rightarrow> readings \<Rightarrow> int \<Rightarrow> broker_request \<Rightarrow> string \<Rightarrow> registry
   \<Rightarrow> registry_error + broker_row \<times> registry" where
  "register_broker_instance sha mac rd lease_now q broker_key st0 =
     (if broker_key = [] then Inl (BadArgument ''broker signing key must not be empty'')
      else if br_tree q = [] then Inl (BadArgument ''broker initial tree hash must not be empty'')
      else if br_lease q \<le> 0 then Inl (BadArgument ''broker writer lease must be positive'')
      else
        let st = expire_leases lease_now (expire_intents rd st0);
            expires = lease_until (rd_future rd) (br_lease q)
        in res_bind (register_guard q st) (\<lambda>row.
             let token = last_token st (br_root q) + 1;
                 st1 = st\<lparr>rg_counters := AList.update (br_root q) token (rg_counters st)\<rparr>
             in res_bind (bind_session q (rd_now rd) st1) (\<lambda>st2.
                  let b = new_broker sha mac q row token broker_key (rd_now rd)
                  in if bk_id b \<in> set (map bk_id (rg_brokers st2))
                        \<or> bk_session b \<in> set (map bk_session (rg_brokers st2))
                     then Inl (IntegrityError (bk_id b))
                     else Inr (b, log_event ''broker_instance_registered'' (Some (br_intent q))
                       (Some (ir_owner row)) (register_event b expires)
                       (session_row_update (br_session q) (\<lambda>s. s\<lparr>sn_broker := Some (br_instance q),
                            sn_broker_attestation := Some (bk_attestation b)\<rparr>)
                         (st2\<lparr>rg_brokers := rg_brokers st2 @ [b],
                             rg_leases := delete_rows (\<lambda>l. ls_root l = br_root q
                                 \<or> ls_instance l = br_instance q) (rg_leases st2)
                               @ [new_lease q token (rd_now rd) expires]\<rparr>))))))"


section \<open>Validation\<close>

definition lease_guard :: "broker_row \<Rightarrow> registry \<Rightarrow> registry_error option" where
  "lease_guard b st = (case find_lease st (bk_root b) of
       None \<Rightarrow> Some (BrokerRefused ''broker writer lease is missing or owned by another instance'')
     | Some l \<Rightarrow>
         if ls_instance l \<noteq> bk_id b
         then Some (BrokerRefused ''broker writer lease is missing or owned by another instance'')
         else if ls_repo l \<noteq> bk_repo b
         then Some (BrokerRefused ''broker writer lease repository identity mismatch'')
         else if ls_token l \<noteq> bk_token b
         then Some (BrokerRefused ''broker writer lease fencing token mismatch'')
         else None)"

definition intent_guard :: "bool \<Rightarrow> broker_row \<Rightarrow> registry \<Rightarrow> registry_error + intent_row" where
  "intent_guard require_active b st = (case find_intent st (bk_intent b) of
       None \<Rightarrow> Inl (UnknownIntent (bk_intent b))
     | Some row \<Rightarrow>
         if \<not> (live_state (ir_state row) \<or> (\<not> require_active \<and> ir_state row = S_COMPLETED))
         then Inl (BrokerRefused ''broker capability revoked by the intent state'')
         else if ir_content row \<noteq> bk_content b
         then Inl (BrokerRefused ''broker capability revoked by intent amendment'')
         else if ir_fingerprint row \<noteq> bk_fingerprint b
         then Inl (BrokerRefused ''broker capability fingerprint no longer matches intent'')
         else if ci_base_commit (ir_payload row) \<noteq> Some (bk_base b)
         then Inl (BrokerRefused ''broker capability base commit no longer matches intent'')
         else Inr row)"

definition session_guard :: "bool \<Rightarrow> broker_row \<Rightarrow> registry \<Rightarrow> registry_error option" where
  "session_guard require_active b st = (case find_session st (bk_session b) of
       None \<Rightarrow> Some (BrokerRefused ''broker observation session binding is invalid'')
     | Some s \<Rightarrow>
         if sn_broker s \<noteq> Some (bk_id b)
         then Some (BrokerRefused ''broker observation session binding is invalid'')
         else if require_active \<and> sn_state s \<noteq> SS_OPEN
         then Some (BrokerRefused ''broker observation session is not open'')
         else None)"

definition validate_locked ::
  "(string \<Rightarrow> json \<Rightarrow> string) \<Rightarrow> readings \<Rightarrow> int \<Rightarrow> string \<Rightarrow> string \<Rightarrow> bool \<Rightarrow> registry
   \<Rightarrow> registry_error + (broker_row \<times> intent_row) \<times> registry" where
  "validate_locked mac rd lease_now instance_id broker_key require_active st0 =
     (if broker_key = [] then Inl (BadArgument ''broker signing key must not be empty'')
      else
        let st1 = expire_intents rd st0
        in res_bind (verify_broker_attestation mac broker_key instance_id st1) (\<lambda>b.
             if require_active \<and> bk_state b \<noteq> BK_ACTIVE
             then Inl (BrokerRefused ''broker instance is not active'')
             else
               let st = (if require_active then expire_leases lease_now st1 else st1)
               in case (if require_active then lease_guard b st else None) of
                    Some e \<Rightarrow> Inl e
                  | None \<Rightarrow> res_bind (intent_guard require_active b st) (\<lambda>row.
                      case session_guard require_active b st of
                        Some e \<Rightarrow> Inl e
                      | None \<Rightarrow> Inr ((b, row), st))))"

definition validate_broker_instance ::
  "(string \<Rightarrow> json \<Rightarrow> string) \<Rightarrow> readings \<Rightarrow> int \<Rightarrow> string \<Rightarrow> string \<Rightarrow> string option \<Rightarrow> registry
   \<Rightarrow> registry_error + change_intent \<times> registry" where
  "validate_broker_instance mac rd lease_now instance_id broker_key current_tree st0 =
     res_bind (validate_locked mac rd lease_now instance_id broker_key True st0) (\<lambda>((b, row), st).
       if (case current_tree of None \<Rightarrow> False | Some t \<Rightarrow> t \<noteq> bk_tree b)
       then Inl (BrokerRefused ''broker worktree diverged from the committed operation chain'')
       else Inr (ir_payload row,
         st\<lparr>rg_brokers := update_rows (\<lambda>x. bk_id x = instance_id)
               (\<lambda>x. x\<lparr>bk_seen := rd_now rd\<rparr>) (rg_brokers st),
            rg_leases := update_rows (\<lambda>l. ls_root l = bk_root b \<and> ls_instance l = instance_id)
               (\<lambda>l. l\<lparr>ls_renewed := rd_now rd,
                    ls_expires := lease_until (rd_future rd) (bk_lease_seconds b)\<rparr>) (rg_leases st)\<rparr>))"

definition stop_broker_instance ::
  "(string \<Rightarrow> json \<Rightarrow> string) \<Rightarrow> int \<Rightarrow> string \<Rightarrow> string \<Rightarrow> registry \<Rightarrow> registry_error + registry" where
  "stop_broker_instance mac now instance_id broker_key st =
     res_bind (verify_broker_attestation mac broker_key instance_id st) (\<lambda>b.
       if bk_state b \<noteq> BK_ACTIVE then Inr st
       else Inr (log_event ''broker_instance_stopped'' (Some (bk_intent b))
              (map_option ir_owner (find_intent st (bk_intent b)))
              (JObj [(''instance_id'', JStr instance_id)])
              (st\<lparr>rg_brokers := update_rows (\<lambda>x. bk_id x = instance_id)
                    (\<lambda>x. x\<lparr>bk_state := BK_STOPPED, bk_stopped := Some now, bk_seen := now\<rparr>)
                    (rg_brokers st),
                 rg_leases := delete_rows (\<lambda>l. ls_root l = bk_root b \<and> ls_instance l = instance_id)
                    (rg_leases st)\<rparr>)))"


section \<open>Operations\<close>

record op_request =
  oq_operation_id :: string
  oq_instance :: string
  oq_request :: string
  oq_operation :: string
  oq_mode :: access_mode
  oq_path :: string
  oq_target :: "string option"
  oq_payload :: metadata
  oq_token :: int
  oq_pre_tree :: "string option"

definition prepare_payload :: "op_request \<Rightarrow> int \<Rightarrow> metadata" where
  "prepare_payload q now =
     [(''protocol'', JStr ''claim-plane.broker-operation.v2''),
      (''operation_id'', JStr (oq_operation_id q)), (''instance_id'', JStr (oq_instance q)),
      (''request_id'', JStr (oq_request q)), (''operation'', JStr (oq_operation q)),
      (''mode'', JStr (mode_value (oq_mode q))), (''path'', JStr (oq_path q)),
      (''target_path'', jopt (oq_target q)), (''payload'', JObj (oq_payload q)),
      (''fencing_token'', JInt (oq_token q)), (''pre_tree_hash'', jopt (oq_pre_tree q)),
      (''prepared_at'', JInt now)]"

definition find_request :: "registry \<Rightarrow> string \<Rightarrow> string \<Rightarrow> op_row option" where
  "find_request st inst req = find (\<lambda>p. po_instance p = inst \<and> po_request p = req) (rg_ops st)"

definition pending_op :: "(string \<Rightarrow> json \<Rightarrow> string) \<Rightarrow> string \<Rightarrow> op_request \<Rightarrow> int \<Rightarrow> op_row" where
  "pending_op mac key q now =
     \<lparr>po_id = oq_operation_id q, po_instance = oq_instance q, po_request = oq_request q,
      po_operation = oq_operation q, po_mode = oq_mode q, po_path = oq_path q,
      po_target = oq_target q, po_state = OP_PENDING, po_payload = oq_payload q,
      po_response = None, po_prepared = now, po_committed = None, po_error = None,
      po_start_seq = None, po_end_seq = None, po_pre_tree = oq_pre_tree q, po_post_tree = None,
      po_prepare_hmac = sign mac key (prepare_payload q now), po_commit_hmac = None,
      po_token = oq_token q\<rparr>"

definition prepare_broker_operation ::
  "(string \<Rightarrow> json \<Rightarrow> string) \<Rightarrow> readings \<Rightarrow> int \<Rightarrow> op_request \<Rightarrow> string \<Rightarrow> registry
   \<Rightarrow> registry_error + op_row \<times> registry" where
  "prepare_broker_operation mac rd lease_now q broker_key st0 =
     res_bind (validate_locked mac rd lease_now (oq_instance q) broker_key True st0) (\<lambda>((b, row), st).
       if oq_token q \<le> 0 \<or> bk_token b \<noteq> oq_token q
       then Inl (BrokerRefused ''stale broker fencing token'')
       else if (case oq_pre_tree q of None \<Rightarrow> False | Some t \<Rightarrow> bk_tree b \<noteq> t)
       then Inl (BrokerRefused ''broker operation pre-tree does not match the committed chain'')
       else case find_request st (oq_instance q) (oq_request q) of
           Some p \<Rightarrow> Inr (p, st)
         | None \<Rightarrow>
             let p = pending_op mac broker_key q (rd_now rd)
             in if po_id p \<in> set (map po_id (rg_ops st)) then Inl (IntegrityError (po_id p))
                else Inr (p, st\<lparr>rg_ops := rg_ops st @ [p]\<rparr>))"

definition bound_access :: "broker_row \<Rightarrow> string \<Rightarrow> int \<Rightarrow> string \<Rightarrow> observed_access \<Rightarrow> observed_access" where
  "bound_access b operation_id token request a =
     a\<lparr>oa_metadata := foldl (\<lambda>m (k, v). jset k v m) (oa_metadata a)
         [(''broker_protocol'', JStr ''claim-plane.broker.v2''),
          (''broker_instance_id'', JStr (bk_id b)), (''broker_operation_id'', JStr operation_id),
          (''broker_policy_digest'', JStr (bk_policy_digest b)),
          (''intent_content_version'', JInt (bk_content b)), (''fencing_token'', JInt token),
          (''request_id'', JStr request)]\<rparr>"

fun append_accesses ::
  "(json \<Rightarrow> string) \<Rightarrow> (string \<Rightarrow> json \<Rightarrow> string) \<Rightarrow> int \<Rightarrow> string \<Rightarrow> string \<Rightarrow> observed_access list
   \<Rightarrow> nat option \<times> nat option \<Rightarrow> registry \<Rightarrow> registry_error + (nat option \<times> nat option) \<times> registry" where
  "append_accesses sha mac now sid key [] seqs st = Inr (seqs, st)"
| "append_accesses sha mac now sid key (a # as) seqs st =
     res_bind (append_observation_event sha mac now sid a key st) (\<lambda>(ev, st').
       append_accesses sha mac now sid key as
         ((case fst seqs of None \<Rightarrow> Some (ob_seq ev) | s \<Rightarrow> s), Some (ob_seq ev)) st')"

definition jnat_opt :: "nat option \<Rightarrow> json" where
  "jnat_opt v = (case v of None \<Rightarrow> JNull | Some n \<Rightarrow> JInt (int n))"

definition commit_payload ::
  "op_row \<Rightarrow> metadata \<Rightarrow> int \<Rightarrow> string option \<Rightarrow> nat option \<times> nat option \<Rightarrow> int \<Rightarrow> metadata" where
  "commit_payload p response token post seqs now =
     [(''protocol'', JStr ''claim-plane.broker-operation.v2''), (''operation_id'', JStr (po_id p)),
      (''instance_id'', JStr (po_instance p)), (''request_id'', JStr (po_request p)),
      (''state'', JStr ''committed''), (''response'', JObj response), (''fencing_token'', JInt token),
      (''pre_tree_hash'', jopt (po_pre_tree p)), (''post_tree_hash'', jopt post),
      (''event_start_seq'', jnat_opt (fst seqs)), (''event_end_seq'', jnat_opt (snd seqs)),
      (''committed_at'', JInt now)]"

text \<open>The compare-and-swap of the worktree hash: exactly one row has to move.\<close>

definition swap_tree :: "op_row \<Rightarrow> string option \<Rightarrow> int \<Rightarrow> registry \<Rightarrow> registry_error + registry" where
  "swap_tree p post now st = (case post of
       None \<Rightarrow> Inr st
     | Some new \<Rightarrow>
         let hit = (\<lambda>b. bk_id b = po_instance p \<and> Some (bk_tree b) = po_pre_tree p \<and> bk_state b = BK_ACTIVE)
         in if length (filter hit (rg_brokers st)) \<noteq> 1
            then Inl (BrokerRefused ''broker tree transition compare-and-swap failed'')
            else Inr (st\<lparr>rg_brokers := update_rows hit (\<lambda>b. b\<lparr>bk_tree := new, bk_seen := now\<rparr>)
                   (rg_brokers st)\<rparr>))"

definition commit_guard :: "broker_row \<Rightarrow> op_row \<Rightarrow> int \<Rightarrow> string option \<Rightarrow> registry_error option" where
  "commit_guard b p token post =
     (if token \<le> 0 \<or> bk_token b \<noteq> token then Some (BrokerRefused ''stale broker fencing token'')
      else if po_token p \<noteq> token
      then Some (BrokerRefused ''broker operation fencing token does not match its instance'')
      else if (case po_pre_tree p of None \<Rightarrow> False | Some t \<Rightarrow> bk_tree b \<noteq> t)
      then Some (BrokerRefused ''broker operation lost the tree compare-and-swap race'')
      else if (po_pre_tree p = None) \<noteq> (post = None)
      then Some (BrokerRefused ''broker tree transition requires both pre and post hashes'')
      else None)"

definition commit_row ::
  "(string \<Rightarrow> json \<Rightarrow> string) \<Rightarrow> string \<Rightarrow> op_row \<Rightarrow> metadata \<Rightarrow> int \<Rightarrow> string option
   \<Rightarrow> nat option \<times> nat option \<Rightarrow> int \<Rightarrow> op_row \<Rightarrow> op_row" where
  "commit_row mac key p response token post seqs now x =
     x\<lparr>po_state := OP_COMMITTED, po_response := Some response, po_committed := Some now,
       po_start_seq := fst seqs, po_end_seq := snd seqs, po_post_tree := post,
       po_commit_hmac := Some (sign mac key (commit_payload p response token post seqs now))\<rparr>"

definition commit_broker_operation ::
  "(json \<Rightarrow> string) \<Rightarrow> (string \<Rightarrow> json \<Rightarrow> string) \<Rightarrow> readings \<Rightarrow> int \<Rightarrow> string \<Rightarrow> observed_access list
   \<Rightarrow> metadata \<Rightarrow> string \<Rightarrow> string \<Rightarrow> int \<Rightarrow> string option \<Rightarrow> registry \<Rightarrow> registry_error + op_row \<times> registry" where
  "commit_broker_operation sha mac rd lease_now operation_id accesses response obs_key broker_key token post st0 =
     (if obs_key = [] then Inl (BadArgument ''observation signing key must not be empty'')
      else case find_row po_id operation_id (rg_ops st0) of
          None \<Rightarrow> Inl (UnknownOperation operation_id)
        | Some p \<Rightarrow>
            if po_state p = OP_COMMITTED then Inr (p, st0)
            else if po_state p \<noteq> OP_PENDING then Inl (BrokerRefused ''broker operation is not pending'')
            else res_bind (validate_locked mac rd lease_now (po_instance p) broker_key True st0)
                   (\<lambda>((b, row), st).
              case commit_guard b p token post of
                Some e \<Rightarrow> Inl e
              | None \<Rightarrow>
                  res_bind (append_accesses sha mac (rd_now rd) (bk_session b) obs_key
                      (map (bound_access b operation_id token (po_request p)) accesses) (None, None) st)
                    (\<lambda>(seqs, st1).
                  let done = commit_row mac broker_key p response token post seqs (rd_future rd)
                  in res_bind (swap_tree p post (rd_future rd)
                       (st1\<lparr>rg_ops := update_rows (\<lambda>x. po_id x = operation_id) done (rg_ops st1)\<rparr>))
                     (\<lambda>st2. Inr (done p, st2)))))"

definition fail_broker_operation ::
  "(string \<Rightarrow> json \<Rightarrow> string) \<Rightarrow> string \<Rightarrow> op_state \<Rightarrow> string \<Rightarrow> string \<Rightarrow> registry
   \<Rightarrow> registry_error + registry" where
  "fail_broker_operation mac operation_id s error broker_key st =
     (if s \<noteq> OP_FAILED \<and> s \<noteq> OP_ROLLED_BACK
      then Inl (BadArgument ''broker operation failure state must be failed or rolled_back'')
      else case find_row po_id operation_id (rg_ops st) of
          None \<Rightarrow> Inl (UnknownOperation operation_id)
        | Some p \<Rightarrow>
            res_bind (verify_broker_attestation mac broker_key (po_instance p) st) (\<lambda>b.
              if po_state p = OP_COMMITTED
              then Inl (BrokerRefused ''committed broker operation cannot be failed'')
              else Inr (st\<lparr>rg_ops := update_rows (\<lambda>x. po_id x = operation_id)
                     (\<lambda>x. x\<lparr>po_state := s, po_error := Some error\<rparr>) (rg_ops st)\<rparr>)))"

end
