(* ===== verification/BrokerLaws.thy ===== *)
theory BrokerLaws
  imports RegInv Broker
begin

text \<open>
  The writer leases and fencing tokens of \<open>core/registry.py\<close>. The invariant is stated on a view
  of the broker tables: an active broker holds the lease of its worktree, a lease belongs to an
  active broker and carries the newest token of its worktree, and no token is given out twice.
  Every operation on brokers is then one of three moves on the view: nothing, a revocation, or
  the registration of a new writer.
\<close>


section \<open>The view and its invariant\<close>

type_synonym broker_view = "string \<times> string \<times> int \<times> bool"
type_synonym lease_view = "string \<times> string \<times> int"
type_synonym op_view = "string \<times> string \<times> int"

definition broker_view :: "broker_row \<Rightarrow> broker_view" where
  "broker_view b = (bk_id b, bk_root b, bk_token b, bk_state b = BK_ACTIVE)"

definition lease_view :: "lease_row \<Rightarrow> lease_view" where
  "lease_view l = (ls_root l, ls_instance l, ls_token l)"

definition op_view :: "op_row \<Rightarrow> op_view" where
  "op_view q = (po_id q, po_instance q, po_token q)"

definition wf_views ::
  "broker_view list \<Rightarrow> lease_view list \<Rightarrow> op_view list \<Rightarrow> (string \<Rightarrow> int) \<Rightarrow> bool" where
  "wf_views bs ls qs tok \<longleftrightarrow>
     distinct (map fst bs) \<and> distinct (map fst ls) \<and> distinct (map fst qs)
     \<and> (\<forall>i r t a. (i, r, t, a) \<in> set bs \<longrightarrow> 0 < t \<and> t \<le> tok r \<and> (a \<longrightarrow> (r, i, t) \<in> set ls))
     \<and> (\<forall>r i t. (r, i, t) \<in> set ls \<longrightarrow> t = tok r \<and> (i, r, t, True) \<in> set bs)
     \<and> (\<forall>i j r t a b. (i, r, t, a) \<in> set bs \<longrightarrow> (j, r, t, b) \<in> set bs \<longrightarrow> i = j)
     \<and> (\<forall>p i t. (p, i, t) \<in> set qs \<longrightarrow> (\<exists>r a. (i, r, t, a) \<in> set bs))"

definition wf_brokers :: "registry \<Rightarrow> bool" where
  "wf_brokers st \<longleftrightarrow> wf_views (map broker_view (rg_brokers st)) (map lease_view (rg_leases st))
     (map op_view (rg_ops st)) (last_token st) \<and> (\<forall>r. 0 \<le> last_token st r)"

lemma wf_brokers_empty: "wf_brokers empty_registry"
  by (simp add: wf_brokers_def wf_views_def empty_registry_def last_token_def)

lemma wf_viewsD:
  assumes "wf_views bs ls qs tok"
  shows "distinct (map fst bs)" "distinct (map fst ls)" "distinct (map fst qs)"
    "(i, r, t, a) \<in> set bs \<Longrightarrow> 0 < t" "(i, r, t, a) \<in> set bs \<Longrightarrow> t \<le> tok r"
    "(i, r, t, True) \<in> set bs \<Longrightarrow> (r, i, t) \<in> set ls"
    "(r, i, t) \<in> set ls \<Longrightarrow> t = tok r" "(r, i, t) \<in> set ls \<Longrightarrow> (i, r, t, True) \<in> set bs"
    "(i, r, t, a) \<in> set bs \<Longrightarrow> (j, r, t, b) \<in> set bs \<Longrightarrow> i = j"
    "(p, i, t) \<in> set qs \<Longrightarrow> \<exists>r a. (i, r, t, a) \<in> set bs"
  using assms unfolding wf_views_def by blast+

lemma view_keys [simp]:
  "fst (broker_view b) = bk_id b" "fst (lease_view l) = ls_root l" "fst (op_view q) = po_id q"
  "fst \<circ> broker_view = bk_id" "fst \<circ> lease_view = ls_root" "fst \<circ> op_view = po_id"
  by (simp_all add: broker_view_def lease_view_def op_view_def fun_eq_iff)

text \<open>Two rows of one instance are one row, and so are two leases of one worktree.\<close>

lemma fst_unique: "distinct (map fst xs) \<Longrightarrow> (k, a) \<in> set xs \<Longrightarrow> (k, b) \<in> set xs \<Longrightarrow> a = b"
  by (rule eq_key_imp_eq_value)


section \<open>The moves\<close>

definition weaker_view :: "broker_view \<Rightarrow> broker_view \<Rightarrow> bool" where
  "weaker_view x y \<longleftrightarrow> fst y = fst x \<and> fst (snd y) = fst (snd x)
     \<and> fst (snd (snd y)) = fst (snd (snd x)) \<and> (snd (snd (snd y)) \<longrightarrow> snd (snd (snd x)))"

lemma weaker_viewI: "(b \<Longrightarrow> a) \<Longrightarrow> weaker_view (i, r, t, a) (i, r, t, b)"
  by (simp add: weaker_view_def)

lemma weaker_viewD: "weaker_view (i, r, t, a) (j, s, u, b) \<Longrightarrow> j = i \<and> s = r \<and> u = t \<and> (b \<longrightarrow> a)"
  by (simp add: weaker_view_def)

lemma weaker_fst: "list_all2 weaker_view bs bs' \<Longrightarrow> map fst bs' = map fst bs"
  by (induction rule: list_all2_induct) (auto simp: weaker_view_def)

text \<open>
  A revocation: brokers only lose their activity, leases only go; a lease goes exactly when its
  instance is no longer active.
\<close>

lemma wf_views_revoke:
  assumes wf: "wf_views bs ls qs tok" and bs: "list_all2 weaker_view bs bs'"
    and sub: "set ls' \<subseteq> set ls" and dist: "distinct (map fst ls')"
    and kept: "\<And>r i t. (r, i, t) \<in> set ls \<Longrightarrow> (i, r, t, True) \<in> set bs' \<Longrightarrow> (r, i, t) \<in> set ls'"
    and live: "\<And>r i t. (r, i, t) \<in> set ls' \<Longrightarrow> (i, r, t, False) \<notin> set bs'"
  shows "wf_views bs' ls' qs tok"
proof -
  have was: "\<exists>a. (i, r, t, a) \<in> set bs \<and> (b \<longrightarrow> a)" if mem: "(i, r, t, b) \<in> set bs'" for i r t b
    using list_all2_right [OF bs mem] weaker_viewD by (metis prod_cases4)
  have goes: "\<exists>b. (i, r, t, b) \<in> set bs'" if mem: "(i, r, t, a) \<in> set bs" for i r t a
    using list_all2_left [OF bs mem] weaker_viewD by (metis prod_cases4)
  note D = wf_viewsD [OF wf]
  have 1: "0 < t \<and> t \<le> tok r \<and> (a \<longrightarrow> (r, i, t) \<in> set ls')" if mem: "(i, r, t, a) \<in> set bs'" for i r t a
  proof -
    obtain b where b: "(i, r, t, b) \<in> set bs" "a \<longrightarrow> b" using was [OF mem] by blast
    have "(r, i, t) \<in> set ls'" if a
    proof -
      have "(i, r, t, True) \<in> set bs" using b that by auto
      then show ?thesis using kept D(6) mem that by auto
    qed
    then show ?thesis using D(4,5) b(1) by blast
  qed
  have 2: "t = tok r \<and> (i, r, t, True) \<in> set bs'" if mem: "(r, i, t) \<in> set ls'" for r i t
  proof -
    have "(r, i, t) \<in> set ls" using sub mem by blast
    moreover obtain b where b: "(i, r, t, b) \<in> set bs'" using D(8) [OF calculation] goes by blast
    moreover have b using live [OF mem] b by (cases b) auto
    ultimately show ?thesis using D(7) by auto
  qed
  have 3: "i = j" if "(i, r, t, a) \<in> set bs'" "(j, r, t, b) \<in> set bs'" for i j r t a b
    using was [OF that(1)] was [OF that(2)] D(9) by blast
  have 4: "\<exists>r a. (i, r, t, a) \<in> set bs'" if "(p, i, t) \<in> set qs" for p i t
    using D(10) [OF that] goes by blast
  show ?thesis
    unfolding wf_views_def using D(1-3) weaker_fst [OF bs] dist 1 2 3 4 by metis
qed

text \<open>A registration, of a new instance on a worktree that is free.\<close>

lemma wf_views_register:
  assumes wf: "wf_views bs ls qs tok" and new: "i \<notin> fst ` set bs" and free: "r \<notin> fst ` set ls"
    and pos: "0 \<le> tok r"
  shows "wf_views (bs @ [(i, r, tok r + 1, True)]) (ls @ [(r, i, tok r + 1)]) qs
    (tok(r := tok r + 1))"
proof -
  note D = wf_viewsD [OF wf]
  have old: "t \<le> tok s \<and> 0 < t" if "(j, s, t, a) \<in> set bs" for j s t a using D(4,5) that by blast
  have lease: "s \<noteq> r" if "(s, j, t) \<in> set ls" for s j t using free that by force
  show ?thesis
    unfolding wf_views_def
  proof (intro conjI allI impI)
    show "distinct (map fst (bs @ [(i, r, tok r + 1, True)]))" using D(1) new by auto
    show "distinct (map fst (ls @ [(r, i, tok r + 1)]))" using D(2) free by auto
    show "distinct (map fst qs)" by (rule D(3))
    fix j s t a assume m: "(j, s, t, a) \<in> set (bs @ [(i, r, tok r + 1, True)])"
    then show "0 < t" using old pos by auto
    show "t \<le> (tok(r := tok r + 1)) s" using m old by fastforce
    show "(s, j, t) \<in> set (ls @ [(r, i, tok r + 1)])" if a using m that D(6) by auto
  next
    fix s j t assume "(s, j, t) \<in> set (ls @ [(r, i, tok r + 1)])"
    then show "t = (tok(r := tok r + 1)) s" "(j, s, t, True) \<in> set (bs @ [(i, r, tok r + 1, True)])"
      using D(7,8) lease by (auto split: if_splits, blast)
  next
    fix j k s t a b
    assume "(j, s, t, a) \<in> set (bs @ [(i, r, tok r + 1, True)])"
      "(k, s, t, b) \<in> set (bs @ [(i, r, tok r + 1, True)])"
    then show "j = k" using D(9) old by fastforce
  next
    fix p j t assume "(p, j, t) \<in> set qs"
    then show "\<exists>s a. (j, s, t, a) \<in> set (bs @ [(i, r, tok r + 1, True)])" using D(10) by fastforce
  qed
qed

lemma wf_views_append_op:
  assumes "wf_views bs ls qs tok" and "p \<notin> fst ` set qs" and "(i, r, t, a) \<in> set bs"
  shows "wf_views bs ls (qs @ [(p, i, t)]) tok"
proof -
  note D = wf_viewsD [OF assms(1)]
  have "distinct (map fst (qs @ [(p, i, t)]))" using D(3) assms(2) by auto
  moreover have "\<exists>r a. (j, r, u, a) \<in> set bs" if "(q, j, u) \<in> set (qs @ [(p, i, t)])" for q j u
    using that D(10) assms(3) by auto
  ultimately show ?thesis using assms(1) unfolding wf_views_def by simp
qed


section \<open>Steps on the broker tables\<close>

definition brokers_of :: "registry \<Rightarrow> broker_view list" where
  "brokers_of st = map broker_view (rg_brokers st)"

definition leases_of :: "registry \<Rightarrow> lease_view list" where
  "leases_of st = map lease_view (rg_leases st)"

definition ops_of :: "registry \<Rightarrow> op_view list" where
  "ops_of st = map op_view (rg_ops st)"

inductive writer_move :: "registry \<Rightarrow> registry \<Rightarrow> bool" where
  calm: "brokers_of st' = brokers_of st \<Longrightarrow> leases_of st' = leases_of st \<Longrightarrow> ops_of st' = ops_of st
    \<Longrightarrow> last_token st' = last_token st \<Longrightarrow> writer_move st st'"
| revoke: "list_all2 weaker_view (brokers_of st) (brokers_of st') \<Longrightarrow> set (leases_of st') \<subseteq> set (leases_of st)
    \<Longrightarrow> distinct (map fst (leases_of st'))
    \<Longrightarrow> (\<And>r i t. (r, i, t) \<in> set (leases_of st) \<Longrightarrow> (i, r, t, True) \<in> set (brokers_of st')
          \<Longrightarrow> (r, i, t) \<in> set (leases_of st'))
    \<Longrightarrow> (\<And>r i t. (r, i, t) \<in> set (leases_of st') \<Longrightarrow> (i, r, t, False) \<notin> set (brokers_of st'))
    \<Longrightarrow> ops_of st' = ops_of st \<Longrightarrow> last_token st' = last_token st \<Longrightarrow> writer_move st st'"
| register: "brokers_of st' = brokers_of st @ [(i, r, last_token st r + 1, True)]
    \<Longrightarrow> leases_of st' = leases_of st @ [(r, i, last_token st r + 1)]
    \<Longrightarrow> i \<notin> fst ` set (brokers_of st) \<Longrightarrow> r \<notin> fst ` set (leases_of st)
    \<Longrightarrow> ops_of st' = ops_of st \<Longrightarrow> last_token st' = (last_token st)(r := last_token st r + 1)
    \<Longrightarrow> writer_move st st'"
| prepare: "ops_of st' = ops_of st @ [(p, i, t)] \<Longrightarrow> p \<notin> fst ` set (ops_of st)
    \<Longrightarrow> (i, r, t, a) \<in> set (brokers_of st) \<Longrightarrow> brokers_of st' = brokers_of st
    \<Longrightarrow> leases_of st' = leases_of st \<Longrightarrow> last_token st' = last_token st \<Longrightarrow> writer_move st st'"

lemma wf_brokers_views:
  "wf_brokers st \<longleftrightarrow> wf_views (brokers_of st) (leases_of st) (ops_of st) (last_token st)
     \<and> (\<forall>r. 0 \<le> last_token st r)"
  by (simp add: wf_brokers_def brokers_of_def leases_of_def ops_of_def)

lemma writer_move_wf: "writer_move st st' \<Longrightarrow> wf_brokers st \<Longrightarrow> wf_brokers st'"
proof (induction rule: writer_move.induct)
  case (calm st' st)
  then show ?case by (simp add: wf_brokers_views)
next
  case (revoke st st')
  have "wf_views (brokers_of st') (leases_of st') (ops_of st) (last_token st)"
    by (rule wf_views_revoke [OF _ revoke(1-5)]) (use revoke(8) in \<open>simp add: wf_brokers_views\<close>)
  with revoke show ?case by (simp add: wf_brokers_views)
next
  case (register st' st i r)
  have "wf_views (brokers_of st') (leases_of st') (ops_of st) (last_token st')"
    unfolding register(1,2,6) by (rule wf_views_register) (use register in \<open>simp_all add: wf_brokers_views\<close>)
  with register show ?case by (simp add: wf_brokers_views)
next
  case (prepare st' st p i t r a)
  have "wf_views (brokers_of st) (leases_of st) (ops_of st') (last_token st)"
    unfolding prepare(1) by (rule wf_views_append_op) (use prepare in \<open>simp_all add: wf_brokers_views\<close>)
  with prepare show ?case by (simp add: wf_brokers_views)
qed

lemma writer_moves_wf: "writer_move\<^sup>*\<^sup>* st st' \<Longrightarrow> wf_brokers st \<Longrightarrow> wf_brokers st'"
  by (induction rule: rtranclp_induct) (auto intro: writer_move_wf)

text \<open>Steps that leave the broker tables alone.\<close>

lemma same_tables_move:
  "rg_brokers st' = rg_brokers st \<Longrightarrow> rg_leases st' = rg_leases st \<Longrightarrow> rg_ops st' = rg_ops st
    \<Longrightarrow> rg_counters st' = rg_counters st \<Longrightarrow> writer_move st st'"
  by (rule calm) (simp_all add: brokers_of_def leases_of_def ops_of_def last_token_def fun_eq_iff)

text \<open>Fencing is a revocation, once ids are unique.\<close>

lemma broker_effect_move:
  assumes eff: "broker_effect st st'" and cnt: "rg_counters st' = rg_counters st" and wf: "wf_brokers st"
  shows "writer_move st st'"
proof -
  have W: "wf_views (brokers_of st) (leases_of st) (ops_of st) (last_token st)"
    using wf by (simp add: wf_brokers_views)
  note D = wf_viewsD [OF W]
  have bk: "list_all2 broker_le (rg_brokers st) (rg_brokers st')"
    and sub: "set (rg_leases st') \<subseteq> set (rg_leases st)" and lk: "leases_kept st st'"
    using eff by (simp_all add: broker_effect_def)
  have ids: "distinct (map bk_id (rg_brokers st))" using D(1) by (simp add: brokers_of_def)
  have op: "list_all2 op_le (rg_ops st) (rg_ops st')" using eff by (simp add: broker_effect_def)
  have ops: "ops_of st' = ops_of st"
    unfolding ops_of_def by (rule list_all2_map_eq [OF op, symmetric]) (auto simp: op_view_def dest: op_le_fields)
  show ?thesis
  proof (rule revoke)
    show "list_all2 weaker_view (brokers_of st) (brokers_of st')"
      unfolding brokers_of_def list_all2_map1 list_all2_map2
      by (rule list_all2_mono [OF bk]) (auto simp: weaker_view_def broker_view_def broker_le_def)
    show "set (leases_of st') \<subseteq> set (leases_of st)" using sub by (auto simp: leases_of_def)
    show "distinct (map fst (leases_of st'))"
      using eff D(2) by (simp add: broker_effect_def leases_of_def keys_unique_def)
    show "ops_of st' = ops_of st" by (rule ops)
    show "last_token st' = last_token st" using cnt by (simp add: last_token_def fun_eq_iff)
  next
    fix r i t assume l: "(r, i, t) \<in> set (leases_of st)" and b: "(i, r, t, True) \<in> set (brokers_of st')"
    then obtain x where x: "x \<in> set (rg_leases st)" "lease_view x = (r, i, t)" by (auto simp: leases_of_def)
    obtain y where "y \<in> set (rg_brokers st')" "broker_view y = (i, r, t, True)"
      using b by (auto simp: brokers_of_def)
    with x lk have "x \<in> set (rg_leases st')"
      by (auto simp: leases_kept_def lease_view_def broker_view_def)
    with x(2) show "(r, i, t) \<in> set (leases_of st')" unfolding leases_of_def by force
  next
    fix r i t assume l: "(r, i, t) \<in> set (leases_of st')"
    then obtain x where x: "x \<in> set (rg_leases st')" "lease_view x = (r, i, t)" by (auto simp: leases_of_def)
    have "(r, i, t) \<in> set (leases_of st)" using l sub by (auto simp: leases_of_def)
    from D(8) [OF this] obtain b where b: "b \<in> set (rg_brokers st)" "bk_id b = i" "bk_state b = BK_ACTIVE"
      by (auto simp: brokers_of_def broker_view_def)
    show "(i, r, t, False) \<notin> set (brokers_of st')"
    proof
      assume "(i, r, t, False) \<in> set (brokers_of st')"
      then obtain b' where b': "b' \<in> set (rg_brokers st')" "bk_id b' = i" "bk_state b' \<noteq> BK_ACTIVE"
        by (auto simp: brokers_of_def broker_view_def)
      obtain c where c: "c \<in> set (rg_brokers st)" "broker_le c b'" using list_all2_right [OF bk b'(1)] by blast
      then have "bk_id c = i" using b'(2) broker_le_fields by metis
      then have cb: "c = b" using c(1) b ids by (auto simp: distinct_map dest: inj_onD)
      have ne: "b' \<noteq> b" using b b'(3) by auto
      have "b' \<notin> set (rg_brokers st)" using ne b b'(2) ids by (auto simp: distinct_map dest: inj_onD)
      moreover have "bk_state b' = BK_FENCED" using c(2) cb ne by (auto simp: broker_le_def)
      ultimately have "ls_instance x \<noteq> bk_id b'" using eff b'(1) x(1) by (auto simp: broker_effect_def)
      then show False using x(2) b'(2) by (simp add: lease_view_def)
    qed
  qed
qed


section \<open>The operations as moves\<close>

lemma lease_instance_unique:
  assumes "wf_brokers st" and "l \<in> set (rg_leases st)" and "m \<in> set (rg_leases st)"
    and "ls_instance l = ls_instance m"
  shows "ls_root l = ls_root m"
proof -
  have W: "wf_views (brokers_of st) (leases_of st) (ops_of st) (last_token st)"
    using assms(1) by (simp add: wf_brokers_views)
  note D = wf_viewsD [OF W]
  have "(ls_root x, ls_instance x, ls_token x) \<in> set (leases_of st)" if "x \<in> set (rg_leases st)" for x
    using that by (force simp: leases_of_def lease_view_def)
  then have "(ls_instance l, ls_root l, ls_token l, True) \<in> set (brokers_of st)"
    "(ls_instance l, ls_root m, ls_token m, True) \<in> set (brokers_of st)"
    using D(8) assms(2-4) by metis+
  then show ?thesis using fst_unique [OF D(1)] by blast
qed

text \<open>The instances in \<open>I\<close> are retired: they lose their activity and their leases.\<close>

lemma retire_move:
  assumes wf: "wf_brokers st"
    and bs: "brokers_of st' = map (\<lambda>(i, r, t, a). (i, r, t, a \<and> i \<notin> I)) (brokers_of st)"
    and ls: "rg_leases st' = filter (\<lambda>l. ls_instance l \<notin> I) (rg_leases st)"
    and qs: "rg_ops st' = rg_ops st" and cnt: "rg_counters st' = rg_counters st"
  shows "writer_move st st'"
proof -
  have W: "wf_views (brokers_of st) (leases_of st) (ops_of st) (last_token st)"
    using wf by (simp add: wf_brokers_views)
  note D = wf_viewsD [OF W]
  have lv: "leases_of st' = filter (\<lambda>l. fst (snd l) \<notin> I) (leases_of st)"
    by (simp add: leases_of_def ls filter_map o_def lease_view_def)
  show ?thesis
  proof (rule revoke)
    show "list_all2 weaker_view (brokers_of st) (brokers_of st')"
      unfolding bs list_all2_map2 by (rule list_all2_refl_rows) (auto simp: weaker_view_def)
    show "set (leases_of st') \<subseteq> set (leases_of st)" by (auto simp: lv)
    show "distinct (map fst (leases_of st'))" using D(2) by (simp add: lv distinct_map_filter)
    show "ops_of st' = ops_of st" by (simp add: ops_of_def qs)
    show "last_token st' = last_token st" by (simp add: last_token_def cnt fun_eq_iff)
  next
    fix r i t assume "(r, i, t) \<in> set (leases_of st)" "(i, r, t, True) \<in> set (brokers_of st')"
    then show "(r, i, t) \<in> set (leases_of st')" by (auto simp: bs lv)
  next
    fix r i t assume l: "(r, i, t) \<in> set (leases_of st')"
    then have i: "i \<notin> I" "(i, r, t, True) \<in> set (brokers_of st)" using D(8) by (auto simp: lv)
    show "(i, r, t, False) \<notin> set (brokers_of st')"
      using i fst_unique [OF D(1) i(2)] by (auto simp: bs)
  qed
qed

lemma expire_leases_move:
  assumes "wf_brokers st"
  shows "writer_move st (expire_leases now st)"
proof (rule retire_move [OF assms])
  let ?dead = "filter (\<lambda>l. ls_expires l \<le> now) (rg_leases st)"
  let ?I = "set (map ls_instance ?dead)"
  show "brokers_of (expire_leases now st) = map (\<lambda>(i, r, t, a). (i, r, t, a \<and> i \<notin> ?I)) (brokers_of st)"
    by (auto simp: brokers_of_def expire_leases_def Let_def update_rows_def broker_view_def)
  have "list_ex (\<lambda>e. ls_root l = ls_root e \<and> ls_instance l = ls_instance e) ?dead \<longleftrightarrow> ls_instance l \<in> ?I"
    if "l \<in> set (rg_leases st)" for l
    using lease_instance_unique [OF assms that] by (auto simp: list_ex_iff)
  then have "filter (\<lambda>l. \<not> list_ex (\<lambda>e. ls_root l = ls_root e \<and> ls_instance l = ls_instance e) ?dead) (rg_leases st)
      = filter (\<lambda>l. ls_instance l \<notin> ?I) (rg_leases st)"
    by (intro filter_cong [OF refl]) blast
  then show "rg_leases (expire_leases now st) = filter (\<lambda>l. ls_instance l \<notin> ?I) (rg_leases st)"
    by (simp add: expire_leases_def Let_def delete_rows_def)
qed (simp_all add: expire_leases_def Let_def)

lemma expire_intents_move [intro]: "writer_move st (expire_intents rd st)"
  by (rule same_tables_move) simp_all

lemma validate_cases:
  assumes "validate_locked mac rd lease_now iid key True st0 = Inr ((b, row), st)"
  obtains l where "st = expire_leases lease_now (expire_intents rd st0)" "find_broker st0 iid = Some b"
    "bk_state b = BK_ACTIVE" "find_lease st (bk_root b) = Some l" "ls_instance l = iid"
    "ls_token l = bk_token b" "find_intent st (bk_intent b) = Some row" "live_state (ir_state row)"
    "ir_content row = bk_content b" "ir_fingerprint row = bk_fingerprint b"
proof -
  let ?st1 = "expire_intents rd st0"
  from assms obtain b' where att: "verify_broker_attestation mac key iid ?st1 = Inr b'"
    by (auto simp: validate_locked_def Let_def res_bind_eq_Inr split: if_splits)
  have fb: "find_broker ?st1 iid = Some b'" by (rule verify_broker_attestation_Inr [OF att])
  then have id: "bk_id b' = iid" by (auto simp: find_broker_def dest: find_row_SomeD)
  from assms att have rest: "bk_state b' = BK_ACTIVE"
    "lease_guard b' (expire_leases lease_now ?st1) = None"
    and more: "res_bind (intent_guard True b' (expire_leases lease_now ?st1)) (\<lambda>row.
      case session_guard True b' (expire_leases lease_now ?st1) of
        Some e \<Rightarrow> Inl e | None \<Rightarrow> Inr ((b', row), expire_leases lease_now ?st1)) = Inr ((b, row), st)"
    by (auto simp: validate_locked_def Let_def split: if_splits option.splits)
  from more have g: "intent_guard True b' (expire_leases lease_now ?st1) = Inr row" "b' = b"
    "st = expire_leases lease_now ?st1"
    by (auto simp: res_bind_eq_Inr split: option.splits)
  from rest(2) obtain l where "find_lease st (bk_root b) = Some l" "ls_instance l = iid" "ls_token l = bk_token b"
    using g id by (auto simp: lease_guard_def split: option.splits if_splits)
  moreover have "find_intent st (bk_intent b) = Some row" "live_state (ir_state row)"
    "ir_content row = bk_content b" "ir_fingerprint row = bk_fingerprint b"
    using g by (auto simp: intent_guard_def split: option.splits if_splits)
  moreover have "find_broker st0 iid = Some b" using fb g by (simp add: find_broker_def)
  ultimately show thesis using that g rest(1) by blast
qed

lemma validate_moves:
  assumes "validate_locked mac rd lease_now iid key True st0 = Inr ((b, row), st)" and "wf_brokers st0"
  shows "writer_move\<^sup>*\<^sup>* st0 st" and "wf_brokers st"
proof -
  have st: "st = expire_leases lease_now (expire_intents rd st0)"
    using assms(1) by (rule validate_cases) simp
  have m: "writer_move st0 (expire_intents rd st0)" by blast
  from writer_move_wf [OF this assms(2)] have w: "wf_brokers (expire_intents rd st0)" .
  with m show "writer_move\<^sup>*\<^sup>* st0 st"
    unfolding st using expire_leases_move by (meson converse_rtranclp_into_rtranclp r_into_rtranclp)
  then show "wf_brokers st" using assms(2) writer_moves_wf by blast
qed

text \<open>Rewriting broker, lease or operation rows below the view is no move at all.\<close>

lemma map_update_rows_same: "(\<And>r. f (g r) = f r) \<Longrightarrow> map f (update_rows P g rows) = map f rows"
  by (rule map_key_update_rows)


lemma find_broker_SomeD: "find_broker st iid = Some b \<Longrightarrow> b \<in> set (rg_brokers st) \<and> bk_id b = iid"
  by (auto simp: find_broker_def dest: find_row_SomeD)

lemma wf_lease_ofD:
  assumes "wf_brokers st" and "l \<in> set (rg_leases st)"
  shows "(ls_instance l, ls_root l, ls_token l, True) \<in> set (brokers_of st)"
    and "ls_token l = last_token st (ls_root l)"
proof -
  have W: "wf_views (brokers_of st) (leases_of st) (ops_of st) (last_token st)"
    using assms(1) by (simp add: wf_brokers_views)
  have "(ls_root l, ls_instance l, ls_token l) \<in> set (leases_of st)"
    using assms(2) by (force simp: leases_of_def lease_view_def)
  then show "(ls_instance l, ls_root l, ls_token l, True) \<in> set (brokers_of st)"
    "ls_token l = last_token st (ls_root l)"
    using wf_viewsD(7,8) [OF W] by blast+
qed

lemma stop_move:
  assumes "stop_broker_instance mac now iid key st = Inr st'" and "wf_brokers st"
  shows "writer_move st st'"
proof -
  from assms(1) obtain b where b: "find_broker st iid = Some b"
    and st': "bk_state b \<noteq> BK_ACTIVE \<and> st' = st \<or> bk_state b = BK_ACTIVE \<and>
      st' = log_event ''broker_instance_stopped'' (Some (bk_intent b))
              (map_option ir_owner (find_intent st (bk_intent b)))
              (JObj [(''instance_id'', JStr iid)])
              (st\<lparr>rg_brokers := update_rows (\<lambda>x. bk_id x = iid)
                    (\<lambda>x. x\<lparr>bk_state := BK_STOPPED, bk_stopped := Some now, bk_seen := now\<rparr>)
                    (rg_brokers st),
                 rg_leases := delete_rows (\<lambda>l. ls_root l = bk_root b \<and> ls_instance l = iid)
                    (rg_leases st)\<rparr>)"
    by (auto simp: stop_broker_instance_def res_bind_eq_Inr split: if_splits
        dest: verify_broker_attestation_Inr)
  have W: "wf_views (brokers_of st) (leases_of st) (ops_of st) (last_token st)"
    using assms(2) by (simp add: wf_brokers_views)
  have mem: "(iid, bk_root b, bk_token b, bk_state b = BK_ACTIVE) \<in> set (brokers_of st)"
    using find_broker_SomeD [OF b] by (force simp: brokers_of_def broker_view_def)
  have root: "ls_root l = bk_root b" if l: "l \<in> set (rg_leases st)" "ls_instance l = iid" for l
  proof -
    have "(iid, ls_root l, ls_token l, True) \<in> set (brokers_of st)"
      using wf_lease_ofD(1) [OF assms(2) l(1)] l(2) by simp
    from fst_unique [OF wf_viewsD(1) [OF W] this mem] show ?thesis by simp
  qed
  show ?thesis
    using st'
  proof
    assume "bk_state b \<noteq> BK_ACTIVE \<and> st' = st"
    then show ?thesis by (intro same_tables_move) simp_all
  next
    assume s: "bk_state b = BK_ACTIVE \<and>
      st' = log_event ''broker_instance_stopped'' (Some (bk_intent b))
              (map_option ir_owner (find_intent st (bk_intent b)))
              (JObj [(''instance_id'', JStr iid)])
              (st\<lparr>rg_brokers := update_rows (\<lambda>x. bk_id x = iid)
                    (\<lambda>x. x\<lparr>bk_state := BK_STOPPED, bk_stopped := Some now, bk_seen := now\<rparr>)
                    (rg_brokers st),
                 rg_leases := delete_rows (\<lambda>l. ls_root l = bk_root b \<and> ls_instance l = iid)
                    (rg_leases st)\<rparr>)"
    show ?thesis
    proof (rule retire_move [OF assms(2), where I = "{iid}"])
      show "brokers_of st' = map (\<lambda>(i, r, t, a). (i, r, t, a \<and> i \<notin> {iid})) (brokers_of st)"
        using s by (auto simp: brokers_of_def update_rows_def broker_view_def)
      have "filter (\<lambda>l. \<not> (ls_root l = bk_root b \<and> ls_instance l = iid)) (rg_leases st)
          = filter (\<lambda>l. ls_instance l \<notin> {iid}) (rg_leases st)"
        by (intro filter_cong [OF refl]) (use root in auto)
      then show "rg_leases st' = filter (\<lambda>l. ls_instance l \<notin> {iid}) (rg_leases st)"
        using s by (simp add: delete_rows_def)
    qed (use s in simp_all)
  qed
qed

lemma views_move:
  assumes "map broker_view (rg_brokers st') = map broker_view (rg_brokers st)"
    and "map lease_view (rg_leases st') = map lease_view (rg_leases st)"
    and "map op_view (rg_ops st') = map op_view (rg_ops st)" and "rg_counters st' = rg_counters st"
  shows "writer_move st st'"
  by (rule calm) (use assms in \<open>simp_all add: brokers_of_def leases_of_def ops_of_def last_token_def fun_eq_iff\<close>)

lemma validate_instance_moves:
  assumes "validate_broker_instance mac rd lease_now iid key tree st0 = Inr (c, st')" and "wf_brokers st0"
  shows "writer_move\<^sup>*\<^sup>* st0 st'"
proof -
  from assms(1) obtain b row st where v: "validate_locked mac rd lease_now iid key True st0 = Inr ((b, row), st)"
    and st': "st' = st\<lparr>rg_brokers := update_rows (\<lambda>x. bk_id x = iid)
               (\<lambda>x. x\<lparr>bk_seen := rd_now rd\<rparr>) (rg_brokers st),
            rg_leases := update_rows (\<lambda>l. ls_root l = bk_root b \<and> ls_instance l = iid)
               (\<lambda>l. l\<lparr>ls_renewed := rd_now rd,
                    ls_expires := lease_until (rd_future rd) (bk_lease_seconds b)\<rparr>) (rg_leases st)\<rparr>"
    by (auto simp: validate_broker_instance_def res_bind_eq_Inr split: if_splits)
  have "writer_move st st'"
    by (rule views_move) (simp_all add: st' map_update_rows_same broker_view_def lease_view_def)
  with validate_moves [OF v assms(2)] show ?thesis by (meson rtranclp.rtrancl_into_rtrancl)
qed

lemma prepare_moves:
  assumes "prepare_broker_operation mac rd lease_now q key st0 = Inr (p, st')" and "wf_brokers st0"
  shows "writer_move\<^sup>*\<^sup>* st0 st'"
proof -
  from assms(1) obtain b row st where v: "validate_locked mac rd lease_now (oq_instance q) key True st0 = Inr ((b, row), st)"
    and tok: "bk_token b = oq_token q"
    and st': "st' = st \<or> (oq_operation_id q \<notin> set (map po_id (rg_ops st))
        \<and> st' = st\<lparr>rg_ops := rg_ops st @ [pending_op mac key q (rd_now rd)]\<rparr>)"
    by (auto simp: prepare_broker_operation_def Let_def res_bind_eq_Inr pending_op_def
        split: if_splits option.splits)
  note vm = validate_moves [OF v assms(2)]
  obtain l where l: "find_lease st (bk_root b) = Some l" "ls_instance l = oq_instance q" "ls_token l = bk_token b"
    using v by (rule validate_cases) auto
  have mem: "l \<in> set (rg_leases st)" using l(1) by (auto simp: find_lease_def dest: find_row_SomeD)
  have br: "(oq_instance q, ls_root l, oq_token q, True) \<in> set (brokers_of st)"
    using wf_lease_ofD(1) [OF vm(2) mem] l tok by simp
  show ?thesis
    using st'
  proof
    assume "st' = st"
    with vm(1) show ?thesis by simp
  next
    assume s: "oq_operation_id q \<notin> set (map po_id (rg_ops st))
        \<and> st' = st\<lparr>rg_ops := rg_ops st @ [pending_op mac key q (rd_now rd)]\<rparr>"
    have "writer_move st st'"
      by (rule writer_move.prepare [where p = "oq_operation_id q", OF _ _ br])
        (use s in \<open>auto simp: ops_of_def op_view_def pending_op_def brokers_of_def leases_of_def last_token_def
          fun_eq_iff image_image\<close>)
    with vm(1) show ?thesis by (meson rtranclp.rtrancl_into_rtrancl)
  qed
qed

lemma append_event_tables:
  assumes "append_observation_event sha mac now sid a key st = Inr (ev, st')"
  shows "rg_brokers st' = rg_brokers st" "rg_leases st' = rg_leases st" "rg_ops st' = rg_ops st"
    "rg_counters st' = rg_counters st" "rg_intents st' = rg_intents st" "rg_deps st' = rg_deps st"
  using assms
  by (auto simp: append_observation_event_def Let_def session_row_update_def split: option.splits if_splits)

lemma append_accesses_tables:
  assumes "append_accesses sha mac now sid key as seqs st = Inr (out, st')"
  shows "rg_brokers st' = rg_brokers st \<and> rg_leases st' = rg_leases st \<and> rg_ops st' = rg_ops st
    \<and> rg_counters st' = rg_counters st \<and> rg_intents st' = rg_intents st \<and> rg_deps st' = rg_deps st"
  using assms
proof (induction as arbitrary: seqs st)
  case (Cons a as)
  then obtain ev s where e: "append_observation_event sha mac now sid a key st = Inr (ev, s)"
    and r: "append_accesses sha mac now sid key as
      ((case fst seqs of None \<Rightarrow> Some (ob_seq ev) | s \<Rightarrow> s), Some (ob_seq ev)) s = Inr (out, st')"
    by (auto simp: res_bind_eq_Inr)
  from Cons.IH [OF r] append_event_tables [OF e] show ?case by simp
qed simp

text \<open>What a commit goes through: a repeated one answers from the table.\<close>

lemma commit_cases:
  assumes "commit_broker_operation sha mac rd lease_now pid accesses response okey bkey token post st0
    = Inr (done, st')"
  obtains (repeated) "find_row po_id pid (rg_ops st0) = Some done" "po_state done = OP_COMMITTED" "st' = st0"
  | (committed) p b row st st1 seqs where "find_row po_id pid (rg_ops st0) = Some p" "po_state p = OP_PENDING"
    "validate_locked mac rd lease_now (po_instance p) bkey True st0 = Inr ((b, row), st)"
    "commit_guard b p token post = None"
    "append_accesses sha mac (rd_now rd) (bk_session b) okey
       (map (bound_access b pid token (po_request p)) accesses) (None, None) st = Inr (seqs, st1)"
    "done = commit_row mac bkey p response token post seqs (rd_future rd) p"
    "swap_tree p post (rd_future rd) (st1\<lparr>rg_ops := update_rows (\<lambda>x. po_id x = pid)
       (commit_row mac bkey p response token post seqs (rd_future rd)) (rg_ops st1)\<rparr>) = Inr st'"
proof -
  from assms obtain p where p: "find_row po_id pid (rg_ops st0) = Some p"
    by (auto simp: commit_broker_operation_def split: if_splits option.splits)
  show thesis
  proof (cases "po_state p = OP_COMMITTED")
    case True
    with assms p show ?thesis
      by (intro repeated) (auto simp: commit_broker_operation_def split: if_splits)
  next
    case False
    with assms p have pend: "po_state p = OP_PENDING"
      by (auto simp: commit_broker_operation_def split: if_splits)
    with assms p False obtain b row st where
      v: "validate_locked mac rd lease_now (po_instance p) bkey True st0 = Inr ((b, row), st)"
      by (auto simp: commit_broker_operation_def res_bind_eq_Inr split: if_splits)
    with assms p pend have g: "commit_guard b p token post = None"
      by (auto simp: commit_broker_operation_def split: if_splits option.splits)
    with assms p pend v obtain seqs st1 where
      a: "append_accesses sha mac (rd_now rd) (bk_session b) okey
       (map (bound_access b pid token (po_request p)) accesses) (None, None) st = Inr (seqs, st1)"
      by (auto simp: commit_broker_operation_def res_bind_eq_Inr split: if_splits)
    with assms p pend v g show ?thesis
      by (intro committed [OF p pend v g a])
        (auto simp: commit_broker_operation_def Let_def res_bind_eq_Inr split: if_splits)
  qed
qed

lemma commit_row_fields [simp]:
  "po_id (commit_row mac key p resp token post seqs now x) = po_id x"
  "po_instance (commit_row mac key p resp token post seqs now x) = po_instance x"
  "po_token (commit_row mac key p resp token post seqs now x) = po_token x"
  "po_state (commit_row mac key p resp token post seqs now x) = OP_COMMITTED"
  "po_pre_tree (commit_row mac key p resp token post seqs now x) = po_pre_tree x"
  "po_post_tree (commit_row mac key p resp token post seqs now x) = post"
  "po_request (commit_row mac key p resp token post seqs now x) = po_request x"
  by (simp_all add: commit_row_def)

lemma swap_tree_move: "swap_tree p post now st = Inr st' \<Longrightarrow> writer_move st st'"
  by (rule views_move)
    (auto simp: swap_tree_def Let_def map_update_rows_same broker_view_def split: option.splits if_splits)

lemma commit_moves:
  assumes "commit_broker_operation sha mac rd lease_now pid accesses response okey bkey token post st0
    = Inr (done, st')" and "wf_brokers st0"
  shows "writer_move\<^sup>*\<^sup>* st0 st'"
  using assms(1)
proof (cases rule: commit_cases)
  case (committed p b row st st1 seqs)
  let ?st2 = "st1\<lparr>rg_ops := update_rows (\<lambda>x. po_id x = pid)
       (commit_row mac bkey p response token post seqs (rd_future rd)) (rg_ops st1)\<rparr>"
  have "writer_move st ?st2"
    by (rule views_move)
      (use append_accesses_tables [OF committed(5)] in \<open>simp_all add: map_update_rows_same op_view_def\<close>)
  with validate_moves [OF committed(3) assms(2)] swap_tree_move [OF committed(7)] show ?thesis
    by (meson rtranclp.rtrancl_into_rtrancl)
qed simp

lemma fail_move:
  assumes "fail_broker_operation mac pid s error key st = Inr st'"
  shows "writer_move st st'"
  by (rule views_move) (use assms in \<open>auto simp: fail_broker_operation_def res_bind_eq_Inr
      map_update_rows_same op_view_def split: if_splits option.splits\<close>)


lemma bind_session_tables:
  assumes "bind_session q now st = Inr st'"
  shows "rg_brokers st' = rg_brokers st" "rg_leases st' = rg_leases st" "rg_ops st' = rg_ops st"
    "rg_counters st' = rg_counters st" "rg_intents st' = rg_intents st" "rg_deps st' = rg_deps st"
  using assms by (auto simp: bind_session_def split: option.splits if_splits)

lemma last_token_update:
  "last_token (st\<lparr>rg_counters := AList.update k v (rg_counters st)\<rparr>) = (last_token st)(k := v)"
  by (auto simp: last_token_def fun_eq_iff update_conv')

lemma last_token_cong: "rg_counters st' = rg_counters st \<Longrightarrow> last_token st' = last_token st"
  by (simp add: last_token_def fun_eq_iff)

lemma register_cases:
  assumes "register_broker_instance sha mac rd lease_now q key st0 = Inr (b, st')"
  obtains st row st2 where "st = expire_leases lease_now (expire_intents rd st0)"
    "find_intent st (br_intent q) = Some row" "live_state (ir_state row)"
    "\<not> refresh_pending st (br_intent q)"
    "find_lease st (br_root q) = None
      \<or> (\<exists>l. find_lease st (br_root q) = Some l \<and> ls_instance l = br_instance q)"
    "bind_session q (rd_now rd)
       (st\<lparr>rg_counters := AList.update (br_root q) (last_token st (br_root q) + 1) (rg_counters st)\<rparr>) = Inr st2"
    "b = new_broker sha mac q row (last_token st (br_root q) + 1) key (rd_now rd)"
    "br_instance q \<notin> set (map bk_id (rg_brokers st2))"
    "st' = log_event ''broker_instance_registered'' (Some (br_intent q))
       (Some (ir_owner row)) (register_event b (lease_until (rd_future rd) (br_lease q)))
       (session_row_update (br_session q) (\<lambda>s. s\<lparr>sn_broker := Some (br_instance q),
            sn_broker_attestation := Some (bk_attestation b)\<rparr>)
         (st2\<lparr>rg_brokers := rg_brokers st2 @ [b],
             rg_leases := delete_rows (\<lambda>l. ls_root l = br_root q
                 \<or> ls_instance l = br_instance q) (rg_leases st2)
               @ [new_lease q (last_token st (br_root q) + 1) (rd_now rd)
                    (lease_until (rd_future rd) (br_lease q))]\<rparr>))"
proof -
  let ?st = "expire_leases lease_now (expire_intents rd st0)"
  from assms obtain row where g: "register_guard q ?st = Inr row"
    by (auto simp: register_broker_instance_def Let_def res_bind_eq_Inr split: if_splits)
  with assms obtain st2 where st2: "bind_session q (rd_now rd)
       (?st\<lparr>rg_counters := AList.update (br_root q) (last_token ?st (br_root q) + 1) (rg_counters ?st)\<rparr>) = Inr st2"
    by (auto simp: register_broker_instance_def Let_def res_bind_eq_Inr split: if_splits)
  have "bk_id (new_broker sha mac q row t key n) = br_instance q" for t n
    by (simp add: new_broker_def Let_def)
  with assms g st2 show thesis
    by (intro that [OF refl _ _ _ _ st2])
      (auto simp: register_broker_instance_def Let_def register_guard_def split: if_splits option.splits)
qed

lemma new_broker_fields [simp]:
  "bk_id (new_broker sha mac q row t key n) = br_instance q"
  "bk_intent (new_broker sha mac q row t key n) = br_intent q"
  "bk_root (new_broker sha mac q row t key n) = br_root q"
  "bk_token (new_broker sha mac q row t key n) = t"
  "bk_state (new_broker sha mac q row t key n) = BK_ACTIVE"
  "bk_content (new_broker sha mac q row t key n) = ir_content row"
  "bk_fingerprint (new_broker sha mac q row t key n) = ir_fingerprint row"
  by (simp_all add: new_broker_def Let_def)

lemma session_row_update_tables [simp]:
  "rg_brokers (session_row_update sid f st) = rg_brokers st"
  "rg_leases (session_row_update sid f st) = rg_leases st"
  "rg_ops (session_row_update sid f st) = rg_ops st"
  "rg_counters (session_row_update sid f st) = rg_counters st"
  "rg_intents (session_row_update sid f st) = rg_intents st"
  "rg_deps (session_row_update sid f st) = rg_deps st"
  "rg_recoveries (session_row_update sid f st) = rg_recoveries st"
  "rg_fences (session_row_update sid f st) = rg_fences st"
  by (simp_all add: session_row_update_def)

lemma register_moves:
  assumes "register_broker_instance sha mac rd lease_now q key st0 = Inr (b, st')" and "wf_brokers st0"
  shows "writer_move\<^sup>*\<^sup>* st0 st'"
  using assms(1)
proof (cases rule: register_cases)
  case (1 st row st2)
  let ?tok = "last_token st (br_root q) + 1"
  have m1: "writer_move st0 (expire_intents rd st0)" by blast
  note w1 = writer_move_wf [OF m1 assms(2)]
  have m2: "writer_move (expire_intents rd st0) st" unfolding 1(1) by (rule expire_leases_move [OF w1])
  have w: "wf_brokers st" by (rule writer_move_wf [OF m2 w1])
  note same = bind_session_tables [OF 1(6)]
  have new: "br_instance q \<notin> bk_id ` set (rg_brokers st)" using 1(8) same by simp
  have inst: "ls_instance l \<noteq> br_instance q" if "l \<in> set (rg_leases st)" for l
    using wf_lease_ofD(1) [OF w that] new by (force simp: brokers_of_def broker_view_def)
  have root: "ls_root l \<noteq> br_root q" if "l \<in> set (rg_leases st)" for l
  proof
    assume "ls_root l = br_root q"
    with that have "find_lease st (br_root q) \<noteq> None" unfolding find_lease_def find_row_None by force
    with 1(5) obtain m where "find_lease st (br_root q) = Some m" "ls_instance m = br_instance q" by auto
    then show False using inst by (auto simp: find_lease_def dest: find_row_SomeD)
  qed
  have keep: "delete_rows (\<lambda>l. ls_root l = br_root q \<or> ls_instance l = br_instance q) (rg_leases st) = rg_leases st"
    unfolding delete_rows_def by (rule filter_True) (use inst root in auto)
  have cnt: "last_token st' = (last_token st)(br_root q := ?tok)"
  proof -
    have "rg_counters st' = rg_counters (st\<lparr>rg_counters := AList.update (br_root q) ?tok (rg_counters st)\<rparr>)"
      using 1(9) same(4) by simp
    then show ?thesis unfolding last_token_update [symmetric] by (rule last_token_cong)
  qed
  have "writer_move st st'"
  proof (rule writer_move.register [OF _ _ _ _ _ cnt])
    show "brokers_of st' = brokers_of st @ [(br_instance q, br_root q, ?tok, True)]"
      using 1(7,9) same by (simp add: brokers_of_def broker_view_def)
    show "leases_of st' = leases_of st @ [(br_root q, br_instance q, ?tok)]"
      using 1(9) same keep by (simp add: leases_of_def lease_view_def new_lease_def)
    show "br_instance q \<notin> fst ` set (brokers_of st)" using new by (simp add: brokers_of_def image_image)
    have "br_root q \<notin> ls_root ` set (rg_leases st)" using root by (metis imageE)
    then show "br_root q \<notin> fst ` set (leases_of st)" by (simp add: leases_of_def image_image)
    show "ops_of st' = ops_of st" using 1(9) same by (simp add: ops_of_def)
  qed
  with m1 m2 show ?thesis by (meson converse_rtranclp_into_rtranclp r_into_rtranclp)
qed

text \<open>Rebinding a broker keeps the view.\<close>

lemma rebind_move:
  assumes "rebind_broker mac now inst key iid st = Inr st'"
  shows "writer_move st st'"
proof (cases inst)
  case None
  with assms show ?thesis by (auto simp: rebind_broker_def intro: same_tables_move)
next
  case (Some b)
  with assms obtain row :: intent_row where
    r: "refresh_broker_binding mac now b iid (ir_content row) (ir_fingerprint row) key st = Inr st'"
    by (auto simp: rebind_broker_def split: if_splits option.splits)
  note f = refresh_binding_fields [OF r]
  have "map broker_view (rg_brokers st') = map broker_view (rg_brokers st)"
    using r by (auto simp: refresh_broker_binding_def Let_def res_bind_eq_Inr map_update_rows_same
        broker_view_def split: if_splits)
  then show ?thesis by (rule views_move) (use f in simp_all)
qed

lemma rebind_intents: "rebind_broker mac now inst key iid st = Inr st' \<Longrightarrow> rg_intents st' = rg_intents st"
  using refresh_binding_fields(1) by (auto simp: rebind_broker_def split: option.splits if_splits)

end
