(* ===== verification/RegSteps.thy ===== *)
theory RegSteps
  imports BrokerLaws
begin

text \<open>
  The registry as a state machine: one rule per committed transaction of \<open>core/registry.py\<close>
  that is modelled, the reachable states, and the invariant that every reachable state has.
\<close>


section \<open>The remaining operations on intents\<close>

lemma wf_fence_runtime:
  assumes "wf_registry st"
    and f: "fence_intent_runtime sha iid p reason keys chain now
        (intent_row_update iid (set_state S_STALE t) st) = Inr (fs, st')"
  shows "wf_registry st'"
proof -
  let ?m = "intent_row_update iid (set_state S_STALE t) st"
  note eff = fence_intent_runtime_effect [OF f]
  have rows: "rg_intents st' = update_rows (\<lambda>r. ir_id r = iid) (set_state S_STALE t) (rg_intents st)"
    and deps: "rg_deps st' = rg_deps st"
    using eff(1) by (simp_all add: fence_frame_def)
  have live: "live_brokers st' \<subseteq> live_brokers st"
    using live_brokers_effect [OF eff(2)] by (simp add: live_brokers_def)
  have gone: "iid \<notin> live_brokers st'" using eff(3) by (auto simp: live_brokers_def)
  have "ir_id x \<notin> live_brokers st'" if x: "x \<in> set (rg_intents st')" "ir_state x = S_STALE" for x
    using x(1) [unfolded rows]
  proof (rule update_rowsE)
    fix r assume "ir_id r = iid" "x = set_state S_STALE t r"
    with gone show ?thesis by simp
  next
    assume "x \<in> set (rg_intents st)"
    with x(2) wf_registryD(4) [OF assms(1)] live show ?thesis by (auto simp: stale_fenced_def)
  qed
  moreover have "filed x" if x: "x \<in> set (rg_intents st')" for x
    using x [unfolded rows] wf_registryD(2) [OF assms(1)] by (auto elim!: update_rowsE)
  moreover have "keys_unique ir_id (rg_intents st')"
    using wf_registryD(1) [OF assms(1)] by (simp add: rows keys_unique_update_rows)
  ultimately show ?thesis
    using wf_registryD(3) [OF assms(1)] deps by (simp add: wf_registry_def stale_fenced_def)
qed

lemma pause_wf:
  assumes "pause_intent_runtime sha rd iid reason keys st = Inr (fs, st')" and "wf_registry st"
  shows "wf_registry st'"
proof -
  from assms(1) obtain row where row: "find_intent st iid = Some row"
    by (auto simp: pause_intent_runtime_def Let_def split: if_splits option.splits)
  show ?thesis
  proof (cases "ir_state row = S_STALE")
    case True
    with assms row show ?thesis
      by (auto simp: pause_intent_runtime_def Let_def split: if_splits)
  next
    case False
    with assms(1) row obtain st1 where f: "fence_intent_runtime sha iid None (strip reason)
        (sorted_set (clean_list keys)) [iid] (rd_fence rd iid)
        (intent_row_update iid (set_state S_STALE (rd_now rd)) st) = Inr (fs, st1)"
      and st': "\<exists>ty w pl. st' = log_event ty (Some iid) w pl st1"
      by (auto simp: pause_intent_runtime_def Let_def res_bind_eq_Inr split: if_splits)
    from wf_fence_runtime [OF assms(2) f] st' show ?thesis by auto
  qed
qed

lemma apply_refresh_wf:
  assumes "apply_refresh sha rd row i d fences versions st = Inr (rec, st')" and "wf_registry st"
    and "valid_intent i" and "ci_intent_id i = ir_id row" and "dependency_cycle st i d = None"
  shows "wf_registry st'"
proof -
  let ?st1 = "intent_row_update (ir_id row) (rebased_row sha rd S_ADMITTED i d) st"
  have "wf_registry ?st1"
    by (rule wf_row_update [OF assms(2)]) (use assms(3,4) in \<open>simp_all add: filed_def\<close>)
  then have wf2: "wf_registry (replace_edges (rd_edges rd) i d ?st1)"
    by (rule wf_replace_edges [OF _ assms(5)]) simp
  from assms(1) have "st' = log_event ''intent_runtime_refreshed'' (Some (ir_id row))
      (Some (ci_owner i)) (refreshed_event rec d)
      ((replace_edges (rd_edges rd) i d ?st1)\<lparr>rg_recoveries := rg_recoveries st @ [rec]\<rparr>)"
    by (auto simp: apply_refresh_def Let_def res_bind_eq_Inr split: if_splits)
  with wf2 show ?thesis by (auto simp: wf_registry_def stale_fenced_def live_brokers_def)
qed

text \<open>
  A refresh that answers with a recovery went through every guard, the evaluator and the cycle
  check; without one it only wrote the log.
\<close>

lemma refresh_cases:
  assumes "refresh_stale_intent sha ev rd i expected st0 = Inr ((d, rec), st')"
  obtains (refreshed) row versions r where
    "find_intent (expire_intents rd st0) (ci_intent_id i) = Some row"
    "refresh_guard i expected row (expire_intents rd st0) = None" "rec = Some r"
    "\<forall>p \<in> set (fence_producers (fences_of (expire_intents rd st0) (ci_intent_id i))).
       producer_completed (expire_intents rd st0) p"
    "\<forall>p \<in> set (dependency_producers (expire_intents rd st0) (ci_intent_id i)).
       producer_known (expire_intents rd st0) p"
    "decide ev i (active_intents rd (Some (ci_intent_id i)) (expire_intents rd st0))
       (known_intent_ids (expire_intents rd st0) @ [ci_intent_id i]) (expire_intents rd st0) = Inr d"
    "ad_allowed d"
    "apply_refresh sha rd row i d (fences_of (expire_intents rd st0) (ci_intent_id i)) versions
       (expire_intents rd st0) = Inr (r, st')"
  | (rejected) row where "find_intent (expire_intents rd st0) (ci_intent_id i) = Some row"
    "refresh_guard i expected row (expire_intents rd st0) = None" "rec = None" "\<not> ad_allowed d"
    "\<exists>pl. st' = log_event ''intent_runtime_refresh_rejected'' (Some (ci_intent_id i))
       (Some (ci_owner i)) pl (expire_intents rd st0)"
proof -
  let ?st = "expire_intents rd st0" and ?iid = "ci_intent_id i"
  let ?fences = "fences_of ?st ?iid" and ?deps = "dependency_producers ?st ?iid"
  let ?inc = "filter (\<lambda>p. \<not> producer_completed ?st p) (fence_producers ?fences)"
  let ?unres = "sorted_set (filter (\<lambda>p. \<not> producer_known ?st p) ?deps)"
  let ?dec = "decide ev i (active_intents rd (Some ?iid) ?st) (known_intent_ids ?st @ [?iid]) ?st"
  from assms obtain row where row: "find_intent ?st ?iid = Some row"
    by (auto simp: refresh_stale_intent_def Let_def split: option.splits)
  with assms have guard: "refresh_guard i expected row ?st = None"
    by (auto simp: refresh_stale_intent_def Let_def split: option.splits)
  show thesis
  proof (cases "?inc = [] \<and> ?unres = []")
    case False
    with assms row guard show ?thesis
      by (intro rejected [OF row guard])
        (auto simp: refresh_stale_intent_def Let_def refresh_rejection_def split: if_splits)
  next
    case True
    then have known: "\<forall>p \<in> set (fence_producers ?fences). producer_completed ?st p"
      "\<forall>p \<in> set ?deps. producer_known ?st p"
      by (auto simp: filter_empty_conv)
    from assms row guard True have fin: "res_bind ?dec (\<lambda>d.
        if \<not> ad_allowed d then Inr ((d, None), log_event ''intent_runtime_refresh_rejected''
             (Some ?iid) (Some (ci_owner i)) (refresh_rejected_event d []) ?st)
        else res_bind (apply_refresh sha rd row i d ?fences
               (producer_versions ?st (fence_producers ?fences @ ?deps)) ?st)
             (\<lambda>(rec, st'). Inr ((d, Some rec), st'))) = Inr ((d, rec), st')"
      by (simp add: refresh_stale_intent_def Let_def)
    then obtain d' where dec: "?dec = Inr d'" by (auto simp: res_bind_eq_Inr)
    show ?thesis
    proof (cases "ad_allowed d'")
      case True
      with fin dec obtain r where r: "apply_refresh sha rd row i d' ?fences
          (producer_versions ?st (fence_producers ?fences @ ?deps)) ?st = Inr (r, st')"
        "d = d'" "rec = Some r"
        by (auto simp: res_bind_eq_Inr)
      with True dec show ?thesis by (intro refreshed [OF row guard r(3) known]) simp_all
    next
      case False
      with fin dec show ?thesis by (intro rejected [OF row guard]) auto
    qed
  qed
qed

lemma refresh_wf:
  assumes "refresh_stale_intent sha ev rd i expected st0 = Inr ((d, rec), st')" and "wf_registry st0"
    and "valid_intent i"
  shows "wf_registry st'"
  using assms(1)
proof (cases rule: refresh_cases)
  case (refreshed row versions r)
  have "ci_intent_id i = ir_id row" using find_intent_SomeD [OF refreshed(1)] by simp
  with refreshed(8) show ?thesis
    by (rule apply_refresh_wf [OF _ wf_expire [OF assms(2)] assms(3)])
      (use decide_allowed [OF refreshed(6,7)] in simp)
next
  case (rejected row)
  with assms(2) show ?thesis by auto
qed

lemma resume_cases:
  assumes "resume_refreshed_intent rd iid expected st = Inr (resumed, st')"
  obtains row rec where "find_intent st iid = Some row" "ir_state row = S_ADMITTED"
    "latest_recovery st iid = Some rec" "rc_state rec = RC_REFRESHED"
    "ir_content row = rc_new_content rec" "ir_fingerprint row = rc_new_fingerprint rec"
    "\<not> bad_dependencies st iid" "\<not> has_active_broker st iid" "\<not> stale_version expected row"
    "recovery_post_init (rec\<lparr>rc_state := RC_RESUMED, rc_resumed := Some (rd_now rd)\<rparr>) = Inr resumed"
    "st' = log_event ''intent_runtime_resumed'' (Some iid) (Some (ir_owner row)) (resumed_event resumed)
      ((intent_row_update iid (set_state S_ACTIVE (rd_now rd)) st)
         \<lparr>rg_recoveries := update_rows (\<lambda>r. rc_id r = rc_id resumed) (\<lambda>r. resumed) (rg_recoveries st)\<rparr>)"
proof -
  from assms obtain row where row: "find_intent st iid = Some row"
    by (auto simp: resume_refreshed_intent_def split: option.splits)
  have id: "ir_id row = iid" using find_intent_SomeD [OF row] by simp
  from assms row obtain rec where g: "resume_guard expected row st = Inr rec"
    and rest: "recovery_post_init (rec\<lparr>rc_state := RC_RESUMED, rc_resumed := Some (rd_now rd)\<rparr>) = Inr resumed"
    "st' = log_event ''intent_runtime_resumed'' (Some iid) (Some (ir_owner row)) (resumed_event resumed)
      ((intent_row_update iid (set_state S_ACTIVE (rd_now rd)) st)
         \<lparr>rg_recoveries := update_rows (\<lambda>r. rc_id r = rc_id resumed) (\<lambda>r. resumed) (rg_recoveries st)\<rparr>)"
    by (auto simp: resume_refreshed_intent_def res_bind_eq_Inr)
  from g id show thesis
    by (intro that [OF row _ _ _ _ _ _ _ _ rest])
      (auto simp: resume_guard_def split: if_splits option.splits)
qed

lemma resume_wf:
  assumes "resume_refreshed_intent rd iid expected st = Inr (resumed, st')" and "wf_registry st"
  shows "wf_registry st'"
  using assms(1)
proof (cases rule: resume_cases)
  case (1 row rec)
  have "wf_registry (intent_row_update iid (set_state S_ACTIVE (rd_now rd)) st)"
    by (rule wf_row_update [OF assms(2)]) simp_all
  with 1(11) show ?thesis by (auto simp: wf_registry_def stale_fenced_def live_brokers_def)
qed

lemma acknowledge_wf:
  assumes "acknowledge_notice now n st = Inr (u, st')" and "wf_registry st"
  shows "wf_registry st'"
  using assms by (auto simp: acknowledge_notice_def wf_registry_def stale_fenced_def live_brokers_def
      split: if_splits)


lemma invalidate_wf:
  assumes "invalidate_dependents sha rd producer keys reason st = Inr (stale, st')" and "wf_registry st"
  shows "wf_registry st'"
  using invalidate_dependents_kept [OF assms(1) wf_registryD(1) [OF assms(2)]] wf_invalidate [OF assms(2)]
  by blast


section \<open>The broker operations and the well-formedness of the registry\<close>

text \<open>A new live broker needs an intent that is not stale.\<close>

lemma wf_new_live:
  assumes "wf_registry st" and "rg_intents st' = rg_intents st" and "rg_deps st' = rg_deps st"
    and "live_brokers st' \<subseteq> insert iid (live_brokers st)"
    and "find_intent st iid = Some row" and "ir_state row \<noteq> S_STALE"
  shows "wf_registry st'"
proof -
  have "ir_id r \<notin> live_brokers st'" if r: "r \<in> set (rg_intents st)" "ir_state r = S_STALE" for r
  proof -
    have "r = row" if "ir_id r = iid"
      using find_intent_SomeD [OF assms(5)] that r(1) wf_registryD(1) [OF assms(1)]
      by (auto intro: keys_unique_eqD)
    then show ?thesis
      using assms(4,6) r wf_registryD(4) [OF assms(1)] by (auto simp: stale_fenced_def)
  qed
  with assms(1-3) show ?thesis by (simp add: wf_registry_def stale_fenced_def)
qed

lemma expire_leases_wf:
  assumes "wf_registry st"
  shows "wf_registry (expire_leases now st)"
proof (rule wf_cong [OF assms])
  show "live_brokers (expire_leases now st) \<subseteq> live_brokers st"
    by (auto simp: live_brokers_def expire_leases_def Let_def in_update_rows split: if_splits)
qed (simp_all add: expire_leases_def Let_def)

lemma validate_wf:
  assumes "validate_locked mac rd lease_now iid key True st0 = Inr ((b, row), st)" and "wf_registry st0"
  shows "wf_registry st"
proof -
  have "st = expire_leases lease_now (expire_intents rd st0)"
    using assms(1) by (rule validate_cases) simp
  with assms(2) expire_leases_wf show ?thesis by simp
qed

lemma wf_same_brokers:
  assumes "wf_registry st" and "rg_intents st' = rg_intents st" and "rg_deps st' = rg_deps st"
    and "rg_brokers st' = rg_brokers st"
  shows "wf_registry st'"
  by (rule wf_cong [OF assms(1-3)]) (simp add: live_brokers_def assms(4))

lemma wf_same_maps:
  assumes "wf_registry st" and "rg_intents st' = rg_intents st" and "rg_deps st' = rg_deps st"
    and "map bk_intent (rg_brokers st') = map bk_intent (rg_brokers st)"
    and "map bk_state (rg_brokers st') = map bk_state (rg_brokers st)"
  shows "wf_registry st'"
  by (rule wf_cong [OF assms(1-3)]) (simp add: live_brokers_maps [OF assms(4,5)])

lemma register_wf:
  assumes "register_broker_instance sha mac rd lease_now q key st0 = Inr (b, st')" and "wf_registry st0"
  shows "wf_registry st'"
  using assms(1)
proof (cases rule: register_cases)
  case (1 st row st2)
  have wf: "wf_registry st" unfolding 1(1) using assms(2) by (simp add: expire_leases_wf)
  note same = bind_session_tables [OF 1(6)]
  show ?thesis
  proof (rule wf_new_live [OF wf _ _ _ 1(2)])
    show "rg_intents st' = rg_intents st" "rg_deps st' = rg_deps st" using 1(9) same by simp_all
    show "live_brokers st' \<subseteq> insert (br_intent q) (live_brokers st)"
      using 1(7,9) same by (auto simp: live_brokers_def)
    show "ir_state row \<noteq> S_STALE" using 1(3) live_not_stale by simp
  qed
qed

lemma validate_instance_wf:
  assumes "validate_broker_instance mac rd lease_now iid key tree st0 = Inr (c, st')" and "wf_registry st0"
  shows "wf_registry st'"
proof -
  from assms(1) obtain b row st where v: "validate_locked mac rd lease_now iid key True st0 = Inr ((b, row), st)"
    and st': "rg_intents st' = rg_intents st" "rg_deps st' = rg_deps st"
      "rg_brokers st' = update_rows (\<lambda>x. bk_id x = iid) (\<lambda>x. x\<lparr>bk_seen := rd_now rd\<rparr>) (rg_brokers st)"
    by (auto simp: validate_broker_instance_def res_bind_eq_Inr split: if_splits)
  show ?thesis
    by (rule wf_same_maps [OF validate_wf [OF v assms(2)] st'(1,2)]) (simp_all add: st'(3) map_update_rows_same)
qed

lemma stop_wf:
  assumes "stop_broker_instance mac now iid key st = Inr st'" and "wf_registry st"
  shows "wf_registry st'"
proof -
  have "rg_intents st' = rg_intents st" "rg_deps st' = rg_deps st" "live_brokers st' \<subseteq> live_brokers st"
    using assms(1)
    by (auto simp: stop_broker_instance_def res_bind_eq_Inr live_brokers_def in_update_rows split: if_splits)
  then show ?thesis by (rule wf_cong [OF assms(2)])
qed

lemma prepare_wf:
  assumes "prepare_broker_operation mac rd lease_now q key st0 = Inr (p, st')" and "wf_registry st0"
  shows "wf_registry st'"
proof -
  from assms(1) obtain b row st where v: "validate_locked mac rd lease_now (oq_instance q) key True st0 = Inr ((b, row), st)"
    and st': "rg_intents st' = rg_intents st" "rg_deps st' = rg_deps st" "rg_brokers st' = rg_brokers st"
    by (auto simp: prepare_broker_operation_def Let_def res_bind_eq_Inr split: if_splits option.splits)
  show ?thesis by (rule wf_same_brokers [OF validate_wf [OF v assms(2)] st'])
qed

lemma swap_tree_fields:
  assumes "swap_tree p post now st = Inr st'"
  shows "rg_intents st' = rg_intents st" "rg_deps st' = rg_deps st"
    "map bk_intent (rg_brokers st') = map bk_intent (rg_brokers st)"
    "map bk_state (rg_brokers st') = map bk_state (rg_brokers st)"
    "map bk_id (rg_brokers st') = map bk_id (rg_brokers st)" "rg_ops st' = rg_ops st"
    "rg_leases st' = rg_leases st" "rg_counters st' = rg_counters st"
  using assms by (auto simp: swap_tree_def Let_def map_update_rows_same split: option.splits if_splits)

lemma commit_wf:
  assumes "commit_broker_operation sha mac rd lease_now pid accesses response okey bkey token post st0
    = Inr (done, st')" and "wf_registry st0"
  shows "wf_registry st'"
  using assms(1)
proof (cases rule: commit_cases)
  case (committed p b row st st1 seqs)
  note sw = swap_tree_fields [OF committed(7)] and ap = append_accesses_tables [OF committed(5)]
  show ?thesis
    by (rule wf_same_maps [OF validate_wf [OF committed(3) assms(2)]]) (use sw ap in simp_all)
qed (use assms(2) in simp)

lemma fail_wf:
  assumes "fail_broker_operation mac pid s error key st = Inr st'" and "wf_registry st"
  shows "wf_registry st'"
  by (rule wf_same_brokers [OF assms(2)]) (use assms(1) in \<open>auto simp: fail_broker_operation_def
      res_bind_eq_Inr split: if_splits option.splits\<close>)

lemma start_session_tables:
  assumes "start_observation_session now sid iid mon kid cov tools st = Inr (row, st')"
  shows "rg_intents st' = rg_intents st" "rg_deps st' = rg_deps st" "rg_brokers st' = rg_brokers st"
    "rg_leases st' = rg_leases st" "rg_ops st' = rg_ops st" "rg_counters st' = rg_counters st"
  using assms by (auto simp: start_observation_session_def Let_def split: if_splits)

lemma seal_session_tables:
  assumes "seal_observation_session mac now sid key complete st = Inr st'"
  shows "rg_intents st' = rg_intents st" "rg_deps st' = rg_deps st" "rg_brokers st' = rg_brokers st"
    "rg_leases st' = rg_leases st" "rg_ops st' = rg_ops st" "rg_counters st' = rg_counters st"
  using assms by (auto simp: seal_observation_session_def split: if_splits option.splits)

lemma record_event_append:
  "record_observation_event sha mac now sid a key st = Inr (ev, st')
    \<Longrightarrow> append_observation_event sha mac now sid a key st = Inr (ev, st')"
  by (auto simp: record_observation_event_def split: if_splits option.splits)


section \<open>The intent operations and the broker tables\<close>

lemma admit_move:
  assumes "admit_intent sha ev rd i st = Inr (d, st')"
  shows "writer_move st st'"
  by (rule same_tables_move)
    (use assms in \<open>auto simp: admit_intent_def Let_def res_bind_eq_Inr finish_admission_def
      split: option.splits if_splits\<close>)

lemma set_state_move:
  assumes "set_intent_state now iid s ty allowed noop st = Inr st'"
  shows "writer_move st st'"
  using assms by (cases rule: set_intent_state_cases) (auto intro: same_tables_move)

lemma heartbeat_move:
  assumes "heartbeat_intent rd iid seconds st = Inr st'"
  shows "writer_move st st'"
  using assms by (cases rule: heartbeat_cases) (auto intro: same_tables_move)

lemma promote_moves:
  assumes "promote_contingent_operations sha mac ev rd iid raw modes region expected inst key st0 = Inr (d, st')"
  shows "writer_move\<^sup>*\<^sup>* st0 st'"
  using assms
proof (cases rule: promote_cases)
  case (1 row path requested acc c)
  have m: "writer_move st0 (expire_intents rd st0)" by blast
  show ?thesis
  proof (cases "ad_allowed d")
    case False
    with 1(9) obtain pl where "st' = log_event ''intent_scope_expansion_rejected'' (Some iid)
        (Some (ci_owner (ir_payload row))) pl (expire_intents rd st0)" by auto
    then have "writer_move (expire_intents rd st0) st'" by (intro same_tables_move) simp_all
    with m show ?thesis by (meson converse_rtranclp_into_rtranclp r_into_rtranclp)
  next
    case True
    with 1(9) obtain pl where "apply_promotion sha mac rd row c d inst key pl (expire_intents rd st0) = Inr st'"
      by auto
    then obtain st3 where r: "rebind_broker mac (rd_invalidate rd) inst key (ir_id row)
        (replace_edges (rd_edges rd) c d (intent_row_update (ir_id row)
          (content_row sha rd (ir_state row) c d) (expire_intents rd st0))) = Inr st3"
      and st': "st' = log_event ''intent_scope_expanded'' (Some (ir_id row)) (Some (ci_owner c)) pl st3"
      by (auto simp: apply_promotion_def Let_def res_bind_eq_Inr)
    have "writer_move (expire_intents rd st0) (replace_edges (rd_edges rd) c d (intent_row_update (ir_id row)
          (content_row sha rd (ir_state row) c d) (expire_intents rd st0)))"
      by (rule same_tables_move) simp_all
    moreover have "writer_move st3 st'" unfolding st' by (rule same_tables_move) simp_all
    ultimately show ?thesis using m rebind_move [OF r] by (meson rtranclp.rtrancl_into_rtrancl rtranclp.rtrancl_refl)
  qed
qed

lemma invalidate_move:
  assumes "invalidate_dependents sha rd producer keys reason st = Inr (stale, st')"
    and "wf_registry st" and "wf_brokers st"
  shows "writer_move st st'"
  using invalidate_dependents_kept [OF assms(1) wf_registryD(1) [OF assms(2)]] assms(3)
  by (intro broker_effect_move) (simp_all add: inval_frame_def)

lemma amend_moves:
  assumes "amend_intent sha ev rd i expected preflight st0 = Inr (d, st')" and "wf_registry st0" and "wf_brokers st0"
    and "valid_intent i"
  shows "writer_move\<^sup>*\<^sup>* st0 st'"
  using assms(1)
proof (cases rule: amend_cases)
  case 2
  then obtain ty w p pl where "st' = log_event ty w p pl (expire_intents rd st0)" by auto
  then have "writer_move st0 st'" by (intro same_tables_move) simp_all
  then show ?thesis by blast
next
  case (1 row payload)
  let ?st = "expire_intents rd st0" and ?next = "amended_state (ir_state row)"
  let ?keys = "changed_resource_keys (ir_payload row) i"
  let ?st2 = "replace_edges (rd_edges rd) i d (intent_row_update (ir_id row) (rebased_row sha rd ?next i d) ?st)"
  have m: "writer_move st0 ?st2" by (rule same_tables_move) simp_all
  have brok: "wf_brokers ?st2" by (rule writer_move_wf [OF m assms(3)])
  obtain stale st3 where inv: "(if ?keys = [] then Inr ([], ?st2)
        else invalidate_dependents sha rd (ir_id row) ?keys ''producer_amended'' ?st2) = Inr (stale, st3)"
    and st': "st' = log_event ''intent_amended'' (Some (ir_id row)) (Some (ci_owner i))
      (amended_event d ?keys stale payload ?next) st3"
    using 1(7) by (auto simp: apply_amendment_def Let_def res_bind_eq_Inr)
  have uniq: "keys_unique ir_id (rg_intents ?st2)"
    using wf_registryD(1) [OF wf_expire [OF assms(2)], of rd] by (simp add: keys_unique_update_rows)
  have "writer_move ?st2 st3"
  proof (cases "?keys = []")
    case True
    with inv show ?thesis by (intro same_tables_move) simp_all
  next
    case False
    with inv have "invalidate_dependents sha rd (ir_id row) ?keys ''producer_amended'' ?st2 = Inr (stale, st3)"
      by simp
    from invalidate_dependents_kept [OF this uniq] brok show ?thesis
      by (intro broker_effect_move) (simp_all add: inval_frame_def)
  qed
  moreover have "writer_move st3 st'" unfolding st' by (rule same_tables_move) simp_all
  ultimately show ?thesis using m by (meson rtranclp.rtrancl_into_rtrancl rtranclp.rtrancl_refl)
qed

lemma pause_move:
  assumes "pause_intent_runtime sha rd iid reason keys st = Inr (fs, st')" and "wf_brokers st"
  shows "writer_move st st'"
proof -
  from assms(1) obtain row where row: "find_intent st iid = Some row"
    by (auto simp: pause_intent_runtime_def Let_def split: if_splits option.splits)
  show ?thesis
  proof (cases "ir_state row = S_STALE")
    case True
    with assms row show ?thesis
      by (intro same_tables_move) (auto simp: pause_intent_runtime_def Let_def split: if_splits)
  next
    case False
    with assms(1) row obtain st1 where f: "fence_intent_runtime sha iid None (strip reason)
        (sorted_set (clean_list keys)) [iid] (rd_fence rd iid)
        (intent_row_update iid (set_state S_STALE (rd_now rd)) st) = Inr (fs, st1)"
      and st': "\<exists>ty w pl. st' = log_event ty (Some iid) w pl st1"
      by (auto simp: pause_intent_runtime_def Let_def res_bind_eq_Inr split: if_splits)
    note eff = fence_intent_runtime_effect [OF f]
    have "broker_effect st st'"
      using eff(2) st' by (auto simp: broker_effect_def leases_kept_def)
    moreover have "rg_counters st' = rg_counters st" using eff(1) st' by (auto simp: fence_frame_def)
    ultimately show ?thesis using assms(2) by (rule broker_effect_move)
  qed
qed

lemma refresh_move:
  assumes "refresh_stale_intent sha ev rd i expected st0 = Inr (r, st')"
  shows "writer_move st0 st'"
proof -
  obtain d rec where r: "r = (d, rec)" by (cases r)
  from assms [unfolded r] show ?thesis
  proof (cases rule: refresh_cases)
    case (refreshed row versions x)
    then show ?thesis
      by (intro same_tables_move) (auto simp: apply_refresh_def Let_def res_bind_eq_Inr split: if_splits)
  qed (auto intro: same_tables_move)
qed

lemma resume_move:
  assumes "resume_refreshed_intent rd iid expected st = Inr (r, st')"
  shows "writer_move st st'"
  using assms by (cases rule: resume_cases) (auto intro!: same_tables_move)

lemma acknowledge_move:
  assumes "acknowledge_notice now n st = Inr (u, st')"
  shows "writer_move st st'"
  by (rule same_tables_move) (use assms in \<open>auto simp: acknowledge_notice_def split: if_splits\<close>)



section \<open>The machine\<close>

text \<open>
  One rule per public operation that commits. The intents handed in are constructed values, as
  the constructor of \<open>ChangeIntent\<close> makes them. The parameter \<open>env\<close> is a condition on the clock
  readings of the operations that ask the evaluator, and on the intent that is admitted; it is
  arbitrary here, and the properties that need one say which.
\<close>

inductive reg_step ::
  "(json \<Rightarrow> string) \<Rightarrow> (string \<Rightarrow> json \<Rightarrow> string) \<Rightarrow> evaluator
   \<Rightarrow> (readings \<Rightarrow> change_intent option \<Rightarrow> registry \<Rightarrow> bool) \<Rightarrow> registry \<Rightarrow> registry \<Rightarrow> bool"
  for sha mac ev env where
  admit: "admit_intent sha ev rd i st = Inr (d, st') \<Longrightarrow> valid_intent i \<Longrightarrow> env rd (Some i) st
    \<Longrightarrow> reg_step sha mac ev env st st'"
| promote: "promote_contingent_operations sha mac ev rd iid path modes region expected inst key st = Inr (d, st')
    \<Longrightarrow> env rd None st \<Longrightarrow> reg_step sha mac ev env st st'"
| amend: "amend_intent sha ev rd i expected preflight st = Inr (d, st') \<Longrightarrow> valid_intent i
    \<Longrightarrow> env rd None st \<Longrightarrow> reg_step sha mac ev env st st'"
| activate: "activate_intent now iid st = Inr st' \<Longrightarrow> reg_step sha mac ev env st st'"
| complete: "complete_intent now iid st = Inr st' \<Longrightarrow> reg_step sha mac ev env st st'"
| release: "release_intent now iid st = Inr st' \<Longrightarrow> reg_step sha mac ev env st st'"
| heartbeat: "heartbeat_intent rd iid seconds st = Inr st' \<Longrightarrow> reg_step sha mac ev env st st'"
| expire: "reg_step sha mac ev env st (expire_intents rd st)"
| invalidate: "invalidate_dependents sha rd producer keys reason st = Inr (stale, st')
    \<Longrightarrow> reg_step sha mac ev env st st'"
| pause: "pause_intent_runtime sha rd iid reason keys st = Inr (fs, st') \<Longrightarrow> reg_step sha mac ev env st st'"
| refresh: "refresh_stale_intent sha ev rd i expected st = Inr (r, st') \<Longrightarrow> valid_intent i
    \<Longrightarrow> env rd None st \<Longrightarrow> reg_step sha mac ev env st st'"
| resume: "resume_refreshed_intent rd iid expected st = Inr (rec, st') \<Longrightarrow> reg_step sha mac ev env st st'"
| acknowledge: "acknowledge_notice now n st = Inr (u, st') \<Longrightarrow> reg_step sha mac ev env st st'"
| start_session: "start_observation_session now sid iid mon kid cov tools st = Inr (s, st')
    \<Longrightarrow> reg_step sha mac ev env st st'"
| record_event: "record_observation_event sha mac now sid a key st = Inr (e, st') \<Longrightarrow> reg_step sha mac ev env st st'"
| seal_session: "seal_observation_session mac now sid key complete st = Inr st' \<Longrightarrow> reg_step sha mac ev env st st'"
| register_broker: "register_broker_instance sha mac rd lease_now q key st = Inr (b, st')
    \<Longrightarrow> reg_step sha mac ev env st st'"
| validate_broker: "validate_broker_instance mac rd lease_now iid key tree st = Inr (c, st')
    \<Longrightarrow> reg_step sha mac ev env st st'"
| stop_broker: "stop_broker_instance mac now iid key st = Inr st' \<Longrightarrow> reg_step sha mac ev env st st'"
| prepare_op: "prepare_broker_operation mac rd lease_now oq key st = Inr (p, st') \<Longrightarrow> reg_step sha mac ev env st st'"
| commit_op: "commit_broker_operation sha mac rd lease_now pid accesses response okey bkey token post st
    = Inr (p, st') \<Longrightarrow> reg_step sha mac ev env st st'"
| fail_op: "fail_broker_operation mac pid s error key st = Inr st' \<Longrightarrow> reg_step sha mac ev env st st'"

inductive reachable ::
  "(json \<Rightarrow> string) \<Rightarrow> (string \<Rightarrow> json \<Rightarrow> string) \<Rightarrow> evaluator
   \<Rightarrow> (readings \<Rightarrow> change_intent option \<Rightarrow> registry \<Rightarrow> bool) \<Rightarrow> registry \<Rightarrow> bool"
  for sha mac ev env where
  start: "reachable sha mac ev env empty_registry"
| step: "reachable sha mac ev env st \<Longrightarrow> reg_step sha mac ev env st st' \<Longrightarrow> reachable sha mac ev env st'"

lemmas intent_wf = admit_intent_wf promote_wf amend_wf heartbeat_wf pause_wf refresh_wf resume_wf
  acknowledge_wf invalidate_wf wf_expire
lemmas broker_wf = register_wf validate_instance_wf stop_wf prepare_wf commit_wf fail_wf

lemma reg_step_wf: "reg_step sha mac ev env st st' \<Longrightarrow> wf_registry st \<Longrightarrow> wf_registry st'"
proof (induction rule: reg_step.induct)
  case (refresh rd i expected st r st')
  then show ?case by (cases r) (auto intro: refresh_wf)
next
  case (start_session now sid iid mon kid cov tools st s st')
  note t = start_session_tables(1-3) [OF start_session(1)]
  show ?case by (rule wf_same_brokers [OF start_session(2) t])
next
  case (record_event now sid a key st e st')
  note t = append_event_tables(5,6,1) [OF record_event_append [OF record_event(1)]]
  show ?case by (rule wf_same_brokers [OF record_event(2) t])
next
  case (seal_session now sid key complete st st')
  note t = seal_session_tables(1-3) [OF seal_session(1)]
  show ?case by (rule wf_same_brokers [OF seal_session(2) t])
qed (auto simp: activate_intent_def complete_intent_def release_intent_def
      intro: intent_wf broker_wf set_intent_state_wf)

text \<open>Every step is a sequence of moves on the broker tables.\<close>

lemmas one_move = admit_move set_state_move heartbeat_move expire_intents_move pause_move
  refresh_move resume_move acknowledge_move invalidate_move stop_move fail_move
lemmas many_moves = promote_moves amend_moves register_moves validate_instance_moves prepare_moves
  commit_moves

lemma reg_step_moves:
  assumes "reg_step sha mac ev env st st'" and "wf_registry st" and "wf_brokers st"
  shows "writer_move\<^sup>*\<^sup>* st st'"
  using assms
proof (induction rule: reg_step.induct)
  case (start_session now sid iid mon kid cov tools st s st')
  note t = start_session_tables(3-6) [OF start_session(1)]
  show ?case by (rule r_into_rtranclp, rule same_tables_move) (rule t)+
next
  case (record_event now sid a key st e st')
  note t = append_event_tables(1-4) [OF record_event_append [OF record_event(1)]]
  show ?case by (rule r_into_rtranclp, rule same_tables_move) (rule t)+
next
  case (seal_session now sid key complete st st')
  note t = seal_session_tables(3-6) [OF seal_session(1)]
  show ?case by (rule r_into_rtranclp, rule same_tables_move) (rule t)+
qed (auto simp: activate_intent_def complete_intent_def release_intent_def
      intro: one_move many_moves r_into_rtranclp)

lemma reachable_inv:
  "reachable sha mac ev env st \<Longrightarrow> wf_registry st \<and> wf_brokers st"
proof (induction rule: reachable.induct)
  case start
  show ?case by (simp add: wf_empty wf_brokers_empty)
next
  case (step st st')
  then show ?case using reg_step_wf writer_moves_wf [OF reg_step_moves] by blast
qed

end
