(* ===== verification/RegLock.thy ===== *)
theory RegLock
  imports WriterLock RegSteps
begin

text \<open>
  The registry implements the lock service: the view of a state is the counter and the lease of
  each worktree, and every committed transaction is a sequence of moves of the service. The
  properties of the writer leases are the lemmas of the interface.
\<close>

definition lock_of :: "registry \<Rightarrow> lock" where
  "lock_of st r = (last_token st r, map_of (leases_of st) r)"

definition reg_run :: "(json \<Rightarrow> string) \<Rightarrow> (string \<Rightarrow> json \<Rightarrow> string) \<Rightarrow> evaluator
   \<Rightarrow> (readings \<Rightarrow> change_intent option \<Rightarrow> registry \<Rightarrow> bool) \<Rightarrow> registry \<Rightarrow> registry \<Rightarrow> bool" where
  "reg_run sha mac ev env st st' \<longleftrightarrow> reachable sha mac ev env st \<and> reg_step sha mac ev env st st'"

lemma lock_of_empty: "lock_of empty_registry = free_lock"
  by (simp add: lock_of_def fun_eq_iff free_lock_def empty_registry_def last_token_def leases_of_def)

lemma map_of_subset:
  assumes "distinct (map fst xs)" and "distinct (map fst ys)" and "set ys \<subseteq> set xs"
    and "r \<in> fst ` set ys"
  shows "map_of ys r = map_of xs r"
proof -
  from assms(4) obtain v where "(r, v) \<in> set ys" by auto
  then show ?thesis using assms(1-3) by (metis map_of_is_SomeI subsetD)
qed

lemma writer_move_lock:
  assumes "writer_move st st'" and "wf_brokers st"
  shows "lock_move\<^sup>*\<^sup>* (lock_of st) (lock_of st')"
  using assms(1)
proof cases
  case calm
  then have "lock_of st' = lock_of st" by (simp add: lock_of_def fun_eq_iff)
  then show ?thesis by simp
next
  case prepare
  then have "lock_of st' = lock_of st" by (simp add: lock_of_def fun_eq_iff)
  then show ?thesis by simp
next
  case (register i r)
  have "map_of (leases_of st) r = None" using register(4) by (simp add: map_of_eq_None_iff)
  moreover from this have "lock_of st' = (lock_of st)(r := (fst (lock_of st r) + 1, Some (i, fst (lock_of st r) + 1)))"
    using register by (auto simp: lock_of_def fun_eq_iff map_add_def split: option.split)
  ultimately show ?thesis
    using lock_move.acquire [of "lock_of st" r i] by (simp add: lock_of_def r_into_rtranclp)
next
  case revoke
  let ?R = "fst ` set (leases_of st) - fst ` set (leases_of st')"
  have wf: "distinct (map fst (leases_of st))"
    using assms(2) by (simp add: wf_brokers_views wf_views_def)
  have "lock_of st' r = (if r \<in> ?R then (fst (lock_of st r), None) else lock_of st r)" for r
  proof (cases "r \<in> fst ` set (leases_of st')")
    case True
    with map_of_subset [OF wf revoke(3,2) True] revoke(7) show ?thesis by (simp add: lock_of_def)
  next
    case False
    then have "map_of (leases_of st') r = None" by (simp add: map_of_eq_None_iff)
    moreover have "map_of (leases_of st) r = None" if "r \<notin> fst ` set (leases_of st)"
      using that by (simp add: map_of_eq_None_iff)
    ultimately show ?thesis using False revoke(7) by (auto simp: lock_of_def)
  qed
  then have "lock_of st' = (\<lambda>r. if r \<in> ?R then (fst (lock_of st r), None) else lock_of st r)" by blast
  then show ?thesis using lock_drop_all [of ?R "lock_of st"] by simp
qed

lemma writer_moves_lock:
  "writer_move\<^sup>*\<^sup>* st st' \<Longrightarrow> wf_brokers st \<Longrightarrow> lock_move\<^sup>*\<^sup>* (lock_of st) (lock_of st')"
proof (induction rule: rtranclp_induct)
  case (step a b)
  then show ?case using writer_move_lock writer_moves_wf by (metis rtranclp_trans)
qed simp

interpretation leases: lock_service empty_registry "reg_run sha mac ev env" lock_of for sha mac ev env
proof unfold_locales
  show "lock_of empty_registry = free_lock" by (rule lock_of_empty)
  show "lock_move\<^sup>*\<^sup>* (lock_of s) (lock_of s')" if "reg_run sha mac ev env s s'" for s s'
    using that reachable_inv reg_step_moves writer_moves_lock unfolding reg_run_def by metis
qed

lemma reachable_run: "reachable sha mac ev env st \<Longrightarrow> (reg_run sha mac ev env)\<^sup>*\<^sup>* empty_registry st"
proof (induction rule: reachable.induct)
  case (step st st')
  then show ?case by (simp add: reg_run_def rtranclp.rtrancl_into_rtrancl)
qed simp

end
