(* ===== verification/AdmissionGate.thy ===== *)
theory AdmissionGate
  imports RegSteps AdmissionLaws
begin

text \<open>
  The registry and the evaluator together. The locale is the contract the registry needs from the
  evaluator it is handed: an allowed intent is compatible with every active one. From it follows,
  for every run in which no lease lapses between the two clock readings of one admission, that
  any two live intents are compatible. The admission engine meets the contract.
\<close>


section \<open>What a run of the registry has to respect\<close>

text \<open>
  No live lease lapses between the sweep and the query of one transaction; and an intent that is
  admitted again under a stored id with the stored fingerprint has the stored surface, which is
  what a digest without collisions gives.
\<close>

definition timely :: "readings \<Rightarrow> registry \<Rightarrow> bool" where
  "timely rd st \<longleftrightarrow> (\<forall>r \<in> set (rg_intents st). live_state (ir_state r) \<longrightarrow>
     ir_lease r \<le> rd_sweep rd \<or> rd_query rd < ir_lease r)"

definition same_content :: "(json \<Rightarrow> string) \<Rightarrow> (change_intent \<Rightarrow> 'a) \<Rightarrow> change_intent \<Rightarrow> registry \<Rightarrow> bool" where
  "same_content sha surface i st \<longleftrightarrow> (\<forall>r \<in> set (rg_intents st). ir_id r = ci_intent_id i
     \<and> ir_fingerprint r = intent_fingerprint sha i \<longrightarrow> surface (ir_payload r) = surface i)"

definition orderly ::
  "(json \<Rightarrow> string) \<Rightarrow> (change_intent \<Rightarrow> 'a) \<Rightarrow> readings \<Rightarrow> change_intent option \<Rightarrow> registry \<Rightarrow> bool" where
  "orderly sha surface rd io st \<longleftrightarrow> timely rd st
     \<and> (case io of None \<Rightarrow> True | Some i \<Rightarrow> same_content sha surface i st)"

definition live_row :: "registry \<Rightarrow> intent_row \<Rightarrow> bool" where
  "live_row st r \<longleftrightarrow> r \<in> set (rg_intents st) \<and> live_state (ir_state r)"

text \<open>Every other live intent is among the active ones the evaluator sees.\<close>

lemma active_complete:
  assumes "timely rd st" and "live_row (expire_intents rd st) r"
    and "case exclude of None \<Rightarrow> True | Some x \<Rightarrow> ir_id r \<noteq> x"
  shows "ir_payload r \<in> set (active_intents rd exclude (expire_intents rd st))"
proof -
  have mem: "r \<in> set (rg_intents st)" and live: "live_state (ir_state r)" and "\<not> ir_lease r \<le> rd_sweep rd"
    using assms(2) by (auto simp: live_row_def expire_intents_def live_state_def elim!: update_rowsE)
  then have "rd_query rd < ir_lease r" using assms(1) by (auto simp: timely_def)
  moreover have "r \<in> set (rg_intents (expire_intents rd st))" using assms(2) by (simp add: live_row_def)
  ultimately show ?thesis
    using live assms(3) by (auto simp: active_intents_def active_rows_def split: option.splits)
qed

text \<open>
  How the live rows move: \<open>calmer\<close> when every live row was live with the same payload before,
  \<open>admits\<close> when in addition one intent may have become live with a new payload.
\<close>

definition calmer :: "registry \<Rightarrow> registry \<Rightarrow> bool" where
  "calmer st st' \<longleftrightarrow> (\<forall>r'. live_row st' r' \<longrightarrow>
     (\<exists>r. live_row st r \<and> ir_id r = ir_id r' \<and> ir_payload r = ir_payload r'))"

definition admits :: "change_intent \<Rightarrow> registry \<Rightarrow> registry \<Rightarrow> bool" where
  "admits c st st' \<longleftrightarrow> (\<forall>r'. live_row st' r' \<longrightarrow> ir_payload r' = c \<and> ir_id r' = ci_intent_id c
     \<or> (ir_id r' \<noteq> ci_intent_id c
        \<and> (\<exists>r. live_row st r \<and> ir_id r = ir_id r' \<and> ir_payload r = ir_payload r')))"

lemma calmer_refl [simp]: "calmer st st"
  by (auto simp: calmer_def)

lemma calmer_trans: "calmer a b \<Longrightarrow> calmer b c \<Longrightarrow> calmer a c"
  unfolding calmer_def by metis

lemma admits_calmer: "admits c a b \<Longrightarrow> calmer b d \<Longrightarrow> admits c a d"
  unfolding calmer_def admits_def by metis

lemma calmer_admits: "calmer a b \<Longrightarrow> admits c b d \<Longrightarrow> admits c a d"
  unfolding calmer_def admits_def by metis

lemma calmer_cong: "rg_intents st' = rg_intents st \<Longrightarrow> calmer st st'"
  by (auto simp: calmer_def live_row_def)

lemma calmer_update:
  assumes "\<And>r. ir_id (f r) = ir_id r"
    and "\<And>r. r \<in> set (rg_intents st) \<Longrightarrow> P r \<Longrightarrow> live_state (ir_state (f r))
        \<Longrightarrow> live_state (ir_state r) \<and> ir_payload (f r) = ir_payload r"
    and "rg_intents st' = update_rows P f (rg_intents st)"
  shows "calmer st st'"
  unfolding calmer_def
proof (intro allI impI)
  fix r' assume r': "live_row st' r'"
  then have "r' \<in> set (update_rows P f (rg_intents st))" using assms(3) by (simp add: live_row_def)
  then show "\<exists>r. live_row st r \<and> ir_id r = ir_id r' \<and> ir_payload r = ir_payload r'"
    using r' assms(1,2) by (elim update_rowsE) (auto simp: live_row_def)
qed

lemma expire_calmer: "calmer st (expire_intents rd st)"
  by (rule calmer_update [where f = "set_state S_EXPIRED (rd_stamp rd)"])
    (auto simp: expire_intents_def live_state_def)

lemma calmer_set_state:
  assumes "rg_intents st' = update_rows (\<lambda>r. ir_id r = iid) (set_state s t) (rg_intents st)"
    and "live_state s \<Longrightarrow> (\<And>r. r \<in> set (rg_intents st) \<Longrightarrow> ir_id r = iid \<Longrightarrow> live_state (ir_state r))"
  shows "calmer st st'"
  by (rule calmer_update [where f = "set_state s t"]) (use assms in auto)

lemma intent_le_calmer:
  assumes "list_all2 intent_le (rg_intents st) (rg_intents st')"
  shows "calmer st st'"
  unfolding calmer_def
proof (intro allI impI)
  fix r' assume r': "live_row st' r'"
  then obtain r where "r \<in> set (rg_intents st)" "intent_le r r'"
    using list_all2_right [OF assms] by (auto simp: live_row_def)
  moreover have "known_state (ir_state r')" using r' by (auto simp: live_row_def live_state_def known_state_def)
  ultimately have "r' = r" "r \<in> set (rg_intents st)" using intent_le_known by blast+
  with r' show "\<exists>r. live_row st r \<and> ir_id r = ir_id r' \<and> ir_payload r = ir_payload r'"
    by (auto simp: live_row_def)
qed

lemma admits_update:
  assumes "\<And>r. r \<in> set (rg_intents st) \<Longrightarrow> ir_id r = ci_intent_id c \<Longrightarrow> live_state (ir_state (f r))
      \<Longrightarrow> ir_payload (f r) = c"
    and "\<And>r. ir_id (f r) = ir_id r"
    and "rg_intents st' = update_rows (\<lambda>r. ir_id r = ci_intent_id c) f (rg_intents st)"
  shows "admits c st st'"
  unfolding admits_def
proof (intro allI impI)
  fix r' assume r': "live_row st' r'"
  then have "r' \<in> set (update_rows (\<lambda>r. ir_id r = ci_intent_id c) f (rg_intents st))"
    using assms(3) by (simp add: live_row_def)
  then show "ir_payload r' = c \<and> ir_id r' = ci_intent_id c
     \<or> (ir_id r' \<noteq> ci_intent_id c
        \<and> (\<exists>r. live_row st r \<and> ir_id r = ir_id r' \<and> ir_payload r = ir_payload r'))"
    using r' assms(1,2) by (elim update_rowsE) (auto simp: live_row_def)
qed


section \<open>The operations\<close>

text \<open>
  What an operation that asks the evaluator does to the live rows: it leaves them calmer, or one
  intent became live, with a payload that has the surface of the one that was decided on.
\<close>

definition gated ::
  "evaluator \<Rightarrow> (change_intent \<Rightarrow> 'a) \<Rightarrow> readings \<Rightarrow> registry \<Rightarrow> registry \<Rightarrow> bool" where
  "gated ev surface rd st st' \<longleftrightarrow> calmer st st' \<or>
     (\<exists>i c exclude known d. decide ev i (active_intents rd exclude (expire_intents rd st)) known
          (expire_intents rd st) = Inr d \<and> ad_allowed d
        \<and> (case exclude of None \<Rightarrow> True | Some x \<Rightarrow> x = ci_intent_id i)
        \<and> ci_intent_id c = ci_intent_id i \<and> surface c = surface i
        \<and> admits c (expire_intents rd st) st')"

lemma gated_calmer: "calmer (expire_intents rd st) st' \<Longrightarrow> gated ev surface rd st st'"
  unfolding gated_def using calmer_trans expire_calmer by blast

lemma gatedI:
  assumes "decide ev i (active_intents rd exclude (expire_intents rd st)) known (expire_intents rd st) = Inr d"
    and "ad_allowed d" and "case exclude of None \<Rightarrow> True | Some x \<Rightarrow> x = ci_intent_id i"
    and "ci_intent_id c = ci_intent_id i" and "surface c = surface i" and "admits c (expire_intents rd st) st'"
  shows "gated ev surface rd st st'"
  unfolding gated_def using assms by blast

lemma finish_admission_intents [simp]: "rg_intents (finish_admission rd yes no i d st) = rg_intents st"
  by (simp add: finish_admission_def)

lemma admit_gated:
  assumes "admit_intent sha ev rd i st = Inr (d, st')" and "same_content sha surface i st" and "wf_registry st"
  shows "gated ev surface rd st st'"
proof -
  let ?st = "expire_intents rd st"
  have wf: "wf_registry ?st" using assms(3) by simp
  show ?thesis
  proof (cases "find_intent ?st (ci_intent_id i)")
    case None
    with assms(1) have dec: "decide ev i (active_intents rd None ?st) (known_intent_ids ?st) ?st = Inr d"
      and st': "rg_intents st' = rg_intents ?st @ [new_intent_row sha rd i d]"
      by (auto simp: admit_intent_def Let_def res_bind_eq_Inr)
    have new: "ir_id r \<noteq> ci_intent_id i" if "r \<in> set (rg_intents ?st)" for r
      using None that unfolding find_intent_def find_row_None by force
    show ?thesis
    proof (cases "ad_allowed d")
      case True
      have "admits i ?st st'" using st' new by (auto simp: admits_def live_row_def)
      then show ?thesis by (intro gatedI [OF dec True]) simp_all
    next
      case False
      then have "calmer ?st st'" using st' by (auto simp: calmer_def live_row_def admission_state_def live_state_def)
      then show ?thesis by (rule gated_calmer)
    qed
  next
    case (Some row)
    note row = find_intent_SomeD [OF Some]
    show ?thesis
    proof (cases "ir_state row = S_BLOCKED")
      case False
      with assms(1) Some have "st' = ?st" by (auto simp: admit_intent_def Let_def split: if_splits)
      then show ?thesis by (intro gated_calmer) simp
    next
      case True
      with assms(1) Some have fp: "ir_fingerprint row = intent_fingerprint sha i"
        and dec: "decide ev i (active_intents rd (Some (ci_intent_id i)) ?st) (known_intent_ids ?st) ?st = Inr d"
        and st': "rg_intents st' = update_rows (\<lambda>r. ir_id r = ci_intent_id i) (readmit_row rd i d) (rg_intents ?st)"
        by (auto simp: admit_intent_def Let_def res_bind_eq_Inr split: if_splits)
      have only: "r = row" if "r \<in> set (rg_intents ?st)" "ir_id r = ci_intent_id i" for r
        using wf_registryD(1) [OF wf] row that by (auto intro: keys_unique_eqD)
      have id: "ci_intent_id (ir_payload row) = ci_intent_id i"
        using wf_registryD(2) [OF wf] row by (auto simp: filed_def)
      have "row \<in> set (rg_intents st) \<or> (\<exists>r \<in> set (rg_intents st). row = set_state S_EXPIRED (rd_stamp rd) r)"
        using row by (auto simp: expire_intents_def elim!: update_rowsE)
      then have surf: "surface (ir_payload row) = surface i"
        using assms(2) fp row by (auto simp: same_content_def)
      show ?thesis
      proof (cases "ad_allowed d")
        case True
        have "admits (ir_payload row) ?st st'"
          by (rule admits_update [where f = "readmit_row rd i d"]) (use st' id only in \<open>auto simp: row_fields\<close>)
        then show ?thesis by (intro gatedI [OF dec True _ id surf]) simp_all
      next
        case False
        have "calmer ?st st'"
          by (rule calmer_update [OF _ _ st'])
            (use False in \<open>auto simp: admission_state_def live_state_def\<close>)
        then show ?thesis by (rule gated_calmer)
      qed
    qed
  qed
qed

lemma promote_gated:
  assumes "promote_contingent_operations sha mac ev rd iid raw modes region expected inst key st = Inr (d, st')"
    and "wf_registry st"
  shows "gated ev surface rd st st'"
  using assms(1)
proof (cases rule: promote_cases)
  case (1 row path requested acc c)
  let ?st = "expire_intents rd st"
  have wf: "wf_registry ?st" using assms(2) by simp
  note row = find_intent_SomeD [OF 1(1)]
  then have filed: "valid_intent (ir_payload row)" "ci_intent_id (ir_payload row) = ir_id row"
    using wf_registryD(2) [OF wf] by (auto simp: filed_def)
  have "list_all valid_operation (pa_ops acc)"
    by (rule promote_all_valid [OF 1(6)])
      (use filed(1) in \<open>auto simp: valid_intent_def list_all_iff in_set_enumerate_eq\<close>)
  note c = promoted_intent_valid [OF 1(7) filed(1) this]
  have id: "ci_intent_id c = iid" using c(2) filed(2) row by simp
  show ?thesis
  proof (cases "ad_allowed d")
    case False
    with 1(9) show ?thesis by (auto intro!: gated_calmer calmer_cong)
  next
    case True
    with 1(9) obtain pl where "apply_promotion sha mac rd row c d inst key pl ?st = Inr st'" by auto
    then obtain st3 where r: "rebind_broker mac (rd_invalidate rd) inst key (ir_id row)
        (replace_edges (rd_edges rd) c d (intent_row_update (ir_id row)
          (content_row sha rd (ir_state row) c d) ?st)) = Inr st3" and "rg_intents st' = rg_intents st3"
      by (auto simp: apply_promotion_def Let_def res_bind_eq_Inr)
    then have "rg_intents st' = update_rows (\<lambda>r. ir_id r = ci_intent_id c)
        (content_row sha rd (ir_state row) c d) (rg_intents ?st)"
      using rebind_intents [OF r] row id by simp
    then have "admits c ?st st'" by (intro admits_update) simp_all
    then show ?thesis by (intro gatedI [OF 1(8) True]) (simp_all add: id)
  qed
qed

lemma amend_gated:
  assumes "amend_intent sha ev rd i expected preflight st = Inr (d, st')" and "wf_registry st"
  shows "gated ev surface rd st st'"
  using assms(1)
proof (cases rule: amend_cases)
  case 2
  then show ?thesis by (auto intro!: gated_calmer calmer_cong)
next
  case (1 row payload)
  let ?st = "expire_intents rd st" and ?next = "amended_state (ir_state row)"
  let ?keys = "changed_resource_keys (ir_payload row) i"
  let ?st2 = "replace_edges (rd_edges rd) i d (intent_row_update (ir_id row) (rebased_row sha rd ?next i d) ?st)"
  note row = find_intent_SomeD [OF 1(1)]
  have adm: "admits i ?st ?st2" by (rule admits_update [where f = "rebased_row sha rd ?next i d"]) (use row in simp_all)
  obtain stale st3 where inv: "(if ?keys = [] then Inr ([], ?st2)
        else invalidate_dependents sha rd (ir_id row) ?keys ''producer_amended'' ?st2) = Inr (stale, st3)"
    and st': "rg_intents st' = rg_intents st3"
    using 1(7) by (auto simp: apply_amendment_def Let_def res_bind_eq_Inr)
  have uniq: "keys_unique ir_id (rg_intents ?st2)"
    using wf_registryD(1) [OF wf_expire [OF assms(2)], of rd] by (simp add: keys_unique_update_rows)
  have "calmer ?st2 st3"
  proof (cases "?keys = []")
    case True
    with inv show ?thesis by simp
  next
    case False
    with inv have "invalidate_dependents sha rd (ir_id row) ?keys ''producer_amended'' ?st2 = Inr (stale, st3)"
      by simp
    from invalidate_dependents_kept [OF this uniq] show ?thesis
      by (intro intent_le_calmer) (simp add: inval_frame_def)
  qed
  then have "calmer ?st2 st'" using calmer_trans calmer_cong [OF st'] by blast
  then have "admits i ?st st'" by (rule admits_calmer [OF adm])
  then show ?thesis by (intro gatedI [OF 1(5,6)]) simp_all
qed

lemma refresh_gated:
  assumes "refresh_stale_intent sha ev rd i expected st = Inr (r, st')"
  shows "gated ev surface rd st st'"
proof -
  obtain d rec where r: "r = (d, rec)" by (cases r)
  from assms [unfolded r] show ?thesis
  proof (cases rule: refresh_cases)
    case (refreshed row versions x)
    note row = find_intent_SomeD [OF refreshed(1)]
    have "rg_intents st' = update_rows (\<lambda>r. ir_id r = ci_intent_id i) (rebased_row sha rd S_ADMITTED i d)
        (rg_intents (expire_intents rd st))"
      using refreshed(8) row by (auto simp: apply_refresh_def Let_def res_bind_eq_Inr split: if_splits)
    then have "admits i (expire_intents rd st) st'" by (intro admits_update) simp_all
    then show ?thesis by (intro gatedI [OF refreshed(6,7)]) simp_all
  next
    case (rejected row)
    then show ?thesis by (auto intro!: gated_calmer calmer_cong)
  qed
qed

text \<open>All the other operations leave the live rows calmer.\<close>

lemma set_intent_state_calmer:
  assumes "set_intent_state now iid s ty allowed noop st = Inr st'" and "wf_registry st"
    and "live_state s \<Longrightarrow> set allowed \<subseteq> {S_ADMITTED, S_ACTIVE}"
  shows "calmer st st'"
  using assms(1)
proof (cases rule: set_intent_state_cases)
  case (1 row)
  then show ?thesis by (auto intro: calmer_cong)
next
  case (2 row)
  then have rows: "rg_intents st' = update_rows (\<lambda>r. ir_id r = iid) (set_state s now) (rg_intents st)" by auto
  show ?thesis
  proof (rule calmer_set_state [OF rows])
    fix r assume s: "live_state s" and r: "r \<in> set (rg_intents st)" "ir_id r = iid"
    then have "r = row" using find_intent_SomeD [OF 2(1)] wf_registryD(1) [OF assms(2)] by (auto intro: keys_unique_eqD)
    with s 2(2) assms(3) show "live_state (ir_state r)" by (auto simp: live_state_def)
  qed
qed

lemma heartbeat_calmer:
  assumes "heartbeat_intent rd iid seconds st = Inr st'"
  shows "calmer st st'"
  using assms
proof (cases rule: heartbeat_cases)
  case (1 row)
  then have rows: "rg_intents st' = update_rows (\<lambda>r. ir_id r = iid) (\<lambda>r. r\<lparr>ir_lease := lease_until (rd_future rd) seconds, ir_updated := rd_now rd,
            ir_version := ir_version r + 1\<rparr>) (rg_intents st)" by auto
  show ?thesis by (rule calmer_update [OF _ _ rows]) simp_all
qed

lemma pause_calmer:
  assumes "pause_intent_runtime sha rd iid reason keys st = Inr (fs, st')"
  shows "calmer st st'"
proof -
  from assms obtain row where row: "find_intent st iid = Some row"
    by (auto simp: pause_intent_runtime_def Let_def split: if_splits option.splits)
  show ?thesis
  proof (cases "ir_state row = S_STALE")
    case True
    with assms row show ?thesis
      by (intro calmer_cong) (auto simp: pause_intent_runtime_def Let_def split: if_splits)
  next
    case False
    with assms row obtain st1 where f: "fence_intent_runtime sha iid None (strip reason)
        (sorted_set (clean_list keys)) [iid] (rd_fence rd iid)
        (intent_row_update iid (set_state S_STALE (rd_now rd)) st) = Inr (fs, st1)"
      and st': "rg_intents st' = rg_intents st1"
      by (auto simp: pause_intent_runtime_def Let_def res_bind_eq_Inr split: if_splits)
    have "rg_intents st' = update_rows (\<lambda>r. ir_id r = iid) (set_state S_STALE (rd_now rd)) (rg_intents st)"
      using fence_intent_runtime_effect(1) [OF f] st' by (simp add: fence_frame_def)
    then show ?thesis by (rule calmer_set_state) (simp add: live_state_def)
  qed
qed

lemma resume_calmer:
  assumes "resume_refreshed_intent rd iid expected st = Inr (resumed, st')" and "wf_registry st"
  shows "calmer st st'"
  using assms(1)
proof (cases rule: resume_cases)
  case (1 row rec)
  have "rg_intents st' = update_rows (\<lambda>r. ir_id r = iid) (set_state S_ACTIVE (rd_now rd)) (rg_intents st)"
    using 1(11) by simp
  then show ?thesis
  proof (rule calmer_set_state)
    fix r assume r: "r \<in> set (rg_intents st)" "ir_id r = iid"
    then have "r = row" using find_intent_SomeD [OF 1(1)] wf_registryD(1) [OF assms(2)] by (auto intro: keys_unique_eqD)
    with 1(2) show "live_state (ir_state r)" by (simp add: live_state_def)
  qed
qed

lemma invalidate_calmer:
  assumes "invalidate_dependents sha rd producer keys reason st = Inr (stale, st')" and "wf_registry st"
  shows "calmer st st'"
  using invalidate_dependents_kept [OF assms(1) wf_registryD(1) [OF assms(2)]]
  by (intro intent_le_calmer) (simp add: inval_frame_def)

lemma commit_calmer:
  assumes "commit_broker_operation sha mac rd lease_now pid accesses response okey bkey token post st
    = Inr (done, st')"
  shows "calmer st st'"
  using assms
proof (cases rule: commit_cases)
  case (committed p b row s s1 seqs)
  have s: "s = expire_leases lease_now (expire_intents rd st)"
    using committed(3) by (rule validate_cases) simp
  have "rg_intents st' = rg_intents (expire_intents rd st)"
    using swap_tree_fields(1) [OF committed(7)] append_accesses_tables [OF committed(5)] s
    by (simp add: expire_leases_def Let_def)
  then show ?thesis using calmer_trans [OF expire_calmer calmer_cong] by blast
qed simp

lemma validated_calmer:
  assumes "validate_locked mac rd lease_now iid key True st = Inr ((b, row), s)"
    and "rg_intents st' = rg_intents s"
  shows "calmer st st'"
proof -
  have "s = expire_leases lease_now (expire_intents rd st)"
    using assms(1) by (rule validate_cases) simp
  then have "rg_intents st' = rg_intents (expire_intents rd st)"
    using assms(2) by (simp add: expire_leases_def Let_def)
  then show ?thesis using calmer_trans [OF expire_calmer calmer_cong] by blast
qed

lemma broker_calmer:
  "register_broker_instance sha mac rd lease_now q key st = Inr (b, st') \<Longrightarrow> calmer st st'"
  "validate_broker_instance mac rd lease_now iid key tree st = Inr (c, st') \<Longrightarrow> calmer st st'"
  "prepare_broker_operation mac rd lease_now oq key st = Inr (p, st') \<Longrightarrow> calmer st st'"
  "stop_broker_instance mac now iid key st = Inr st' \<Longrightarrow> calmer st st'"
  "fail_broker_operation mac pid s error key st = Inr st' \<Longrightarrow> calmer st st'"
proof -
  assume "register_broker_instance sha mac rd lease_now q key st = Inr (b, st')"
  then show "calmer st st'"
  proof (cases rule: register_cases)
    case (1 s row s2)
    then have "rg_intents st' = rg_intents (expire_intents rd st)"
      using bind_session_tables(5) [OF 1(6)] by (simp add: expire_leases_def Let_def)
    then show ?thesis using calmer_trans [OF expire_calmer calmer_cong] by blast
  qed
next
  assume "validate_broker_instance mac rd lease_now iid key tree st = Inr (c, st')"
  then show "calmer st st'"
    by (auto simp: validate_broker_instance_def res_bind_eq_Inr split: if_splits intro: validated_calmer)
next
  assume "prepare_broker_operation mac rd lease_now oq key st = Inr (p, st')"
  then show "calmer st st'"
    by (auto simp: prepare_broker_operation_def Let_def res_bind_eq_Inr split: if_splits option.splits
        intro: validated_calmer)
next
  assume "stop_broker_instance mac now iid key st = Inr st'"
  then show "calmer st st'"
    by (intro calmer_cong) (auto simp: stop_broker_instance_def res_bind_eq_Inr split: if_splits)
next
  assume "fail_broker_operation mac pid s error key st = Inr st'"
  then show "calmer st st'"
    by (intro calmer_cong) (auto simp: fail_broker_operation_def res_bind_eq_Inr split: if_splits option.splits)
qed

lemmas calm_operations = heartbeat_calmer pause_calmer resume_calmer invalidate_calmer commit_calmer
  broker_calmer expire_calmer

section \<open>The contract\<close>

locale admission_gate =
  fixes ev :: evaluator
    and compatible :: "change_intent \<Rightarrow> change_intent \<Rightarrow> bool"
    and surface :: "change_intent \<Rightarrow> 'a"
  assumes allowed_compatible: "ev i active known = Inr d \<Longrightarrow> ad_allowed d \<Longrightarrow> e \<in> set active
      \<Longrightarrow> ci_intent_id e \<noteq> ci_intent_id i \<Longrightarrow> compatible i e"
    and symmetric: "compatible i e \<Longrightarrow> compatible e i"
    and surface_only: "surface i = surface j \<Longrightarrow> compatible i e = compatible j e"
begin

definition pairwise :: "registry \<Rightarrow> bool" where
  "pairwise st \<longleftrightarrow> (\<forall>r s. live_row st r \<longrightarrow> live_row st s \<longrightarrow> ir_id r \<noteq> ir_id s
     \<longrightarrow> compatible (ir_payload r) (ir_payload s))"

lemma pairwise_empty: "pairwise empty_registry"
  by (simp add: pairwise_def live_row_def empty_registry_def)

lemma pairwise_calmer: "pairwise st \<Longrightarrow> calmer st st' \<Longrightarrow> pairwise st'"
  unfolding pairwise_def calmer_def by metis

lemma pairwise_admits:
  assumes "pairwise st" and "admits c st st'"
    and "\<And>r. live_row st r \<Longrightarrow> ir_id r \<noteq> ci_intent_id c \<Longrightarrow> compatible c (ir_payload r)"
  shows "pairwise st'"
  unfolding pairwise_def
proof (intro allI impI)
  fix r s assume rs: "live_row st' r" "live_row st' s" "ir_id r \<noteq> ir_id s"
  have new: "compatible c (ir_payload x)"
    if x: "live_row st' x" "ir_id x \<noteq> ci_intent_id c" for x
  proof -
    obtain y where "live_row st y" "ir_id y = ir_id x" "ir_payload y = ir_payload x"
      using assms(2) x unfolding admits_def by blast
    with assms(3) x(2) show ?thesis by metis
  qed
  consider "ir_payload r = c" "ir_id r = ci_intent_id c" | "ir_payload s = c" "ir_id s = ci_intent_id c"
    | "ir_id r \<noteq> ci_intent_id c" "ir_id s \<noteq> ci_intent_id c"
    using assms(2) rs unfolding admits_def by blast
  then show "compatible (ir_payload r) (ir_payload s)"
  proof cases
    case 1
    with new rs show ?thesis by simp
  next
    case 2
    with new [OF rs(1)] rs show ?thesis using symmetric by simp
  next
    case 3
    obtain x where x: "live_row st x" "ir_id x = ir_id r" "ir_payload x = ir_payload r"
      using assms(2) rs(1) 3(1) unfolding admits_def by blast
    obtain y where y: "live_row st y" "ir_id y = ir_id s" "ir_payload y = ir_payload s"
      using assms(2) rs(2) 3(2) unfolding admits_def by blast
    from assms(1) x(1) y(1) x(2) y(2) rs(3) have "compatible (ir_payload x) (ir_payload y)"
      unfolding pairwise_def by metis
    with x(3) y(3) show ?thesis by simp
  qed
qed

text \<open>A positive decision is compatible with every other live intent.\<close>

lemma decide_compatible:
  assumes "decide ev i (active_intents rd exclude (expire_intents rd st)) known st1 = Inr d" and "ad_allowed d"
    and "timely rd st" and "live_row (expire_intents rd st) r" and "ir_id r \<noteq> ci_intent_id i"
    and "case exclude of None \<Rightarrow> True | Some x \<Rightarrow> x = ci_intent_id i" and "wf_registry st"
  shows "compatible i (ir_payload r)"
proof -
  have "ir_payload r \<in> set (active_intents rd exclude (expire_intents rd st))"
    by (rule active_complete [OF assms(3,4)]) (use assms(5,6) in \<open>auto split: option.splits\<close>)
  moreover have "ci_intent_id (ir_payload r) = ir_id r"
    using wf_registryD(2) [OF wf_expire [OF assms(7)]] assms(4) by (auto simp: live_row_def filed_def)
  moreover have "ev i (active_intents rd exclude (expire_intents rd st)) known = Inr d"
    using decide_allowed [OF assms(1,2)] by blast
  ultimately show ?thesis using allowed_compatible assms(2,5) by simp
qed

lemma pairwise_gated:
  assumes "pairwise st" and "gated ev surface rd st st'" and "timely rd st" and "wf_registry st"
  shows "pairwise st'"
  using assms(2) unfolding gated_def
proof (elim disjE exE conjE)
  assume "calmer st st'"
  with assms(1) show ?thesis by (rule pairwise_calmer)
next
  fix i c exclude known d
  assume dec: "decide ev i (active_intents rd exclude (expire_intents rd st)) known (expire_intents rd st) = Inr d"
    "ad_allowed d" and ex: "case exclude of None \<Rightarrow> True | Some x \<Rightarrow> x = ci_intent_id i"
    and c: "ci_intent_id c = ci_intent_id i" "surface c = surface i" and adm: "admits c (expire_intents rd st) st'"
  have "compatible c (ir_payload r)"
    if r: "live_row (expire_intents rd st) r" "ir_id r \<noteq> ci_intent_id c" for r
    using decide_compatible [OF dec assms(3) r(1) _ ex assms(4)] r(2) c surface_only by metis
  then show ?thesis by (rule pairwise_admits [OF pairwise_calmer [OF assms(1) expire_calmer] adm])
qed

lemma step_pairwise:
  assumes "reg_step sha mac ev (orderly sha surface) st st'" and "wf_registry st" and "pairwise st"
  shows "pairwise st'"
  using assms
proof (induction rule: reg_step.induct)
  case (admit rd i st d st')
  then show ?case using admit_gated [OF admit(1)] by (auto simp: orderly_def intro: pairwise_gated)
next
  case (promote rd iid path modes region expected inst key st d st')
  then show ?case using promote_gated [OF promote(1)] by (auto simp: orderly_def intro: pairwise_gated)
next
  case (amend rd i expected preflight st d st')
  then show ?case using amend_gated [OF amend(1)] by (auto simp: orderly_def intro: pairwise_gated)
next
  case (refresh rd i expected st r st')
  then show ?case using refresh_gated [OF refresh(1)] by (auto simp: orderly_def intro: pairwise_gated)
next
  case (start_session now sid iid mon kid cov tools st s st')
  show ?case by (rule pairwise_calmer [OF start_session(3) calmer_cong [OF start_session_tables(1) [OF start_session(1)]]])
next
  case (record_event now sid a key st e st')
  show ?case
    by (rule pairwise_calmer [OF record_event(3) calmer_cong
          [OF append_event_tables(5) [OF record_event_append [OF record_event(1)]]]])
next
  case (seal_session now sid key complete st st')
  show ?case by (rule pairwise_calmer [OF seal_session(3) calmer_cong [OF seal_session_tables(1) [OF seal_session(1)]]])
next
  case (acknowledge now n st u st')
  then have "rg_intents st' = rg_intents st" by (auto simp: acknowledge_notice_def split: if_splits)
  then show ?case by (rule pairwise_calmer [OF acknowledge(3) calmer_cong])
next
  case (activate now iid st st')
  have "calmer st st'"
    by (rule set_intent_state_calmer [OF activate(1) [unfolded activate_intent_def] activate(2)]) simp
  with activate(3) show ?case by (rule pairwise_calmer)
next
  case (complete now iid st st')
  have "calmer st st'"
    by (rule set_intent_state_calmer [OF complete(1) [unfolded complete_intent_def] complete(2)]) simp
  with complete(3) show ?case by (rule pairwise_calmer)
next
  case (release now iid st st')
  have "calmer st st'"
    by (rule set_intent_state_calmer [OF release(1) [unfolded release_intent_def] release(2)])
      (simp add: live_state_def)
  with release(3) show ?case by (rule pairwise_calmer)
qed (auto intro: calm_operations pairwise_calmer)

theorem reachable_pairwise: "reachable sha mac ev (orderly sha surface) st \<Longrightarrow> pairwise st"
proof (induction rule: reachable.induct)
  case start
  show ?case by (rule pairwise_empty)
next
  case (step st st')
  then show ?case using step_pairwise reachable_inv by blast
qed

end



section \<open>The engine meets the contract\<close>

definition engine :: evaluator where
  "engine i active known = (case evaluate i active known of
     Inl AttributeError \<Rightarrow> Inl (EvaluatorRaised ''AttributeError'') | Inr d \<Rightarrow> Inr d)"

text \<open>What two writers of a path must have in common to be kept apart.\<close>

definition apart :: "intent_operation \<Rightarrow> intent_operation \<Rightarrow> bool" where
  "apart a b \<longleftrightarrow> \<not> mode_destructive (op_access a) \<and> \<not> mode_destructive (op_access b)
     \<and> (\<exists>s s' a1 a2 b1 b2. rr_region (op_resource a) = Some s \<and> rr_region (op_resource b) = Some s'
         \<and> parse_line_region s = Some (a1, a2) \<and> parse_line_region s' = Some (b1, b2)
         \<and> (a2 < b1 \<or> b2 < a1))"

definition common_path :: "intent_operation \<Rightarrow> intent_operation \<Rightarrow> bool" where
  "common_path a b \<longleftrightarrow> canonical_path (op_resource a) \<and> canonical_path (op_resource b)
     \<and> (\<exists>p. covers_path (op_resource a) p \<and> covers_path (op_resource b) p)"

definition committed_writes :: "change_intent \<Rightarrow> intent_operation set" where
  "committed_writes i = {a \<in> set (committed_operations i). op_mutating a}"

definition separated :: "change_intent \<Rightarrow> change_intent \<Rightarrow> bool" where
  "separated i e \<longleftrightarrow> (\<forall>a \<in> committed_writes i. \<forall>b \<in> committed_writes e. common_path a b
     \<longrightarrow> intent_base i = intent_base e \<and> apart a b)"

text \<open>The part of an intent that decides this.\<close>

definition intent_surface :: "change_intent \<Rightarrow> string \<times> intent_operation list" where
  "intent_surface i = (intent_base i, ci_operations i)"

lemma apart_sym: "apart a b \<Longrightarrow> apart b a"
  unfolding apart_def by (elim conjE exE) (intro conjI exI, assumption+, blast)

lemma common_path_sym: "common_path a b \<Longrightarrow> common_path b a"
  by (auto simp: common_path_def)

lemma separated_sym: "separated i e \<Longrightarrow> separated e i"
  unfolding separated_def using apart_sym common_path_sym by metis

lemma engine_separates:
  assumes "engine i active known = Inr d" and "ad_allowed d" and "e \<in> set active"
    and "ci_intent_id e \<noteq> ci_intent_id i"
  shows "separated i e"
proof -
  have ev: "evaluate i active known = Inr d"
    using assms(1) by (simp add: engine_def split: sum.splits eval_error.splits)
  show ?thesis
    unfolding separated_def
  proof (intro ballI impI)
    fix a b assume a: "a \<in> committed_writes i" and b: "b \<in> committed_writes e" and p: "common_path a b"
    obtain p where "covers_path (op_resource a) p" "covers_path (op_resource b) p"
      "canonical_path (op_resource a)" "canonical_path (op_resource b)"
      using p by (auto simp: common_path_def)
    moreover have "a \<in> set (committed_operations i)" "op_mutating a" "b \<in> set (committed_operations e)" "op_mutating b"
      using a b by (simp_all add: committed_writes_def)
    ultimately show "intent_base i = intent_base e \<and> apart a b"
      unfolding apart_def by (intro writers_disjoint [OF ev assms(2-4)])
  qed
qed

interpretation gate: admission_gate engine separated intent_surface
proof unfold_locales
  show "separated i e" if "engine i active known = Inr d" "ad_allowed d" "e \<in> set active"
    "ci_intent_id e \<noteq> ci_intent_id i" for i active known d e
    using that by (rule engine_separates)
  show "separated e i" if "separated i e" for i e
    using that by (rule separated_sym)
  show "separated i e = separated j e" if "intent_surface i = intent_surface j" for i j e
    using that by (simp add: separated_def intent_surface_def committed_writes_def committed_operations_def)
qed

end
