(* ===== verification/RegSamples.thy ===== *)
theory RegSamples
  imports AdmissionGate
begin

text \<open>
  Concrete runs of the registry that the witnesses of the properties use: two writers of
  disjoint regions, and a worktree that changes hands between two broker instances.
\<close>

definition sample_readings :: "int \<Rightarrow> readings" where
  "sample_readings t = \<lparr>rd_stamp = t, rd_sweep = t, rd_query = t, rd_now = t, rd_future = t,
     rd_edges = t, rd_invalidate = t, rd_fence = (\<lambda>_. t)\<rparr>"

text \<open>A stand-in for the digest, and one for the HMAC that depends on the key.\<close>

definition sample_sha :: "json \<Rightarrow> string" where
  "sample_sha v = ''digest''"

definition sample_mac :: "string \<Rightarrow> json \<Rightarrow> string" where
  "sample_mac key v = ''mac-'' @ key"

definition after :: "'e + 'a \<times> registry \<Rightarrow> registry" where
  "after r = (case r of Inl _ \<Rightarrow> empty_registry | Inr (_, st) \<Rightarrow> st)"

lemma after_Inr: "res_ok r \<Longrightarrow> \<exists>a. r = Inr (a, after r)"
  by (cases r) (auto simp: after_def)

definition one_writer :: registry where
  "one_writer = after (admit_intent sample_sha engine (sample_readings 0) low_writer empty_registry)"

definition two_writers :: registry where
  "two_writers = after (admit_intent sample_sha engine (sample_readings 1) high_writer one_writer)"

abbreviation always :: "readings \<Rightarrow> change_intent option \<Rightarrow> registry \<Rightarrow> bool" where
  "always \<equiv> \<lambda>_ _ _. True"

lemma valid_samples: "valid_intent low_writer" "valid_intent high_writer"
  by code_simp+

lemma sample_steps:
  "reg_step sample_sha sample_mac engine (orderly sample_sha intent_surface) empty_registry one_writer"
  "reg_step sample_sha sample_mac engine (orderly sample_sha intent_surface) one_writer two_writers"
proof -
  have "res_ok (admit_intent sample_sha engine (sample_readings 0) low_writer empty_registry)" by code_simp
  from after_Inr [OF this] obtain d where
    "admit_intent sample_sha engine (sample_readings 0) low_writer empty_registry = Inr (d, one_writer)"
    by (auto simp: one_writer_def)
  then show "reg_step sample_sha sample_mac engine (orderly sample_sha intent_surface) empty_registry one_writer"
    by (rule reg_step.admit [OF _ valid_samples(1)]) code_simp
  have "res_ok (admit_intent sample_sha engine (sample_readings 1) high_writer one_writer)" by code_simp
  from after_Inr [OF this] obtain d where
    "admit_intent sample_sha engine (sample_readings 1) high_writer one_writer = Inr (d, two_writers)"
    by (auto simp: two_writers_def)
  then show "reg_step sample_sha sample_mac engine (orderly sample_sha intent_surface) one_writer two_writers"
    by (rule reg_step.admit [OF _ valid_samples(2)]) code_simp
qed

lemma sample_reachable:
  "reachable sample_sha sample_mac engine (orderly sample_sha intent_surface) one_writer"
  "reachable sample_sha sample_mac engine (orderly sample_sha intent_surface) two_writers"
  using reachable.start reachable.step sample_steps by metis+


section \<open>A worktree that changes hands\<close>

definition sample_commit :: string where
  "sample_commit = replicate 40 (CHR ''a'')"

definition pinned_writer :: change_intent where
  "pinned_writer = low_writer\<lparr>ci_base_commit := Some sample_commit\<rparr>"

definition sample_request :: "string \<Rightarrow> broker_request" where
  "sample_request name = \<lparr>br_instance = name, br_intent = ci_intent_id pinned_writer,
     br_session = ''session-'' @ name, br_monitor = ''monitor'', br_key_id = ''default'',
     br_root = ''/work'', br_repo = ''repo'', br_base = sample_commit, br_tree = ''tree-0'',
     br_lease = 300, br_policy = [], br_binary = ''bin'', br_tools = []\<rparr>"

definition sample_prepare :: "string \<Rightarrow> int \<Rightarrow> string \<Rightarrow> op_request" where
  "sample_prepare name token tree = \<lparr>oq_operation_id = ''op-'' @ name, oq_instance = name,
     oq_request = ''request-'' @ name, oq_operation = ''write'', oq_mode = A_WRITE,
     oq_path = ''src/app.py'', oq_target = None, oq_payload = [], oq_token = token,
     oq_pre_tree = Some tree\<rparr>"

definition pinned :: registry where
  "pinned = after (admit_intent sample_sha engine (sample_readings 0) pinned_writer empty_registry)"

definition first_broker :: registry where
  "first_broker = after (register_broker_instance sample_sha sample_mac (sample_readings 2) 2
     (sample_request ''a'') ''key'' pinned)"

definition first_stopped :: registry where
  "first_stopped = (case stop_broker_instance sample_mac 3 ''a'' ''key'' first_broker of
     Inl _ \<Rightarrow> empty_registry | Inr st \<Rightarrow> st)"

definition second_broker :: registry where
  "second_broker = after (register_broker_instance sample_sha sample_mac (sample_readings 4) 4
     (sample_request ''b'') ''key'' first_stopped)"

lemma broker_steps:
  "reg_step sample_sha sample_mac engine always empty_registry pinned"
  "reg_step sample_sha sample_mac engine always pinned first_broker"
  "reg_step sample_sha sample_mac engine always first_broker first_stopped"
  "reg_step sample_sha sample_mac engine always first_stopped second_broker"
proof -
  have "res_ok (admit_intent sample_sha engine (sample_readings 0) pinned_writer empty_registry)" by code_simp
  from after_Inr [OF this] obtain d where
    "admit_intent sample_sha engine (sample_readings 0) pinned_writer empty_registry = Inr (d, pinned)"
    by (auto simp: pinned_def)
  then show "reg_step sample_sha sample_mac engine always empty_registry pinned"
    by (rule reg_step.admit) code_simp+
  have "res_ok (register_broker_instance sample_sha sample_mac (sample_readings 2) 2
     (sample_request ''a'') ''key'' pinned)" by code_simp
  from after_Inr [OF this] obtain b where "register_broker_instance sample_sha sample_mac (sample_readings 2) 2
     (sample_request ''a'') ''key'' pinned = Inr (b, first_broker)"
    by (auto simp: first_broker_def)
  then show "reg_step sample_sha sample_mac engine always pinned first_broker" by (rule reg_step.register_broker)
  have "res_ok (stop_broker_instance sample_mac 3 ''a'' ''key'' first_broker)" by code_simp
  then have "stop_broker_instance sample_mac 3 ''a'' ''key'' first_broker = Inr first_stopped"
    by (auto simp: first_stopped_def res_ok_def split: sum.splits)
  then show "reg_step sample_sha sample_mac engine always first_broker first_stopped" by (rule reg_step.stop_broker)
  have "res_ok (register_broker_instance sample_sha sample_mac (sample_readings 4) 4
     (sample_request ''b'') ''key'' first_stopped)" by code_simp
  from after_Inr [OF this] obtain b where "register_broker_instance sample_sha sample_mac (sample_readings 4) 4
     (sample_request ''b'') ''key'' first_stopped = Inr (b, second_broker)"
    by (auto simp: second_broker_def)
  then show "reg_step sample_sha sample_mac engine always first_stopped second_broker"
    by (rule reg_step.register_broker)
qed

lemma broker_reachable:
  "reachable sample_sha sample_mac engine always pinned"
  "reachable sample_sha sample_mac engine always first_broker"
  "reachable sample_sha sample_mac engine always first_stopped"
  "reachable sample_sha sample_mac engine always second_broker"
  using reachable.start reachable.step broker_steps by metis+

text \<open>The rows of the samples, each state evaluated once.\<close>

lemma two_writers_rows:
  obtains r s rest where "rg_intents two_writers = r # s # rest" "live_state (ir_state r)" "live_state (ir_state s)"
    "ir_id r = ''low''" "ir_id s = ''high''"
    "ci_operations (ir_payload r) = [sample_write ''src/app.py'' (Some ''1-10'')]"
    "ci_operations (ir_payload s) = [sample_write ''src/app.py'' (Some ''20-30'')]"
proof -
  have "(case Some two_writers of None \<Rightarrow> False | Some st \<Rightarrow> (case rg_intents st of
      r # s # rest \<Rightarrow> live_state (ir_state r) \<and> live_state (ir_state s) \<and> ir_id r = ''low'' \<and> ir_id s = ''high''
        \<and> ci_operations (ir_payload r) = [sample_write ''src/app.py'' (Some ''1-10'')]
        \<and> ci_operations (ir_payload s) = [sample_write ''src/app.py'' (Some ''20-30'')]
    | _ \<Rightarrow> False))" by code_simp
  then show thesis using that by (auto split: list.splits)
qed

lemma second_broker_rows:
  obtains b c m where "rg_brokers second_broker = [b, c]" "rg_leases second_broker = [m]" "bk_state c = BK_ACTIVE"
    "bk_root b = ''/work''" "bk_root c = ''/work''" "bk_token b < bk_token c" "bk_id b = ''a''"
    "ls_root m = ''/work''" "ls_instance m = ''b''"
proof -
  have "(case Some second_broker of None \<Rightarrow> False | Some st \<Rightarrow> (case (rg_brokers st, rg_leases st) of
      ([b, c], [m]) \<Rightarrow> bk_state c = BK_ACTIVE \<and> bk_root b = ''/work'' \<and> bk_root c = ''/work'' \<and> bk_token b < bk_token c
        \<and> bk_id b = ''a'' \<and> ls_root m = ''/work'' \<and> ls_instance m = ''b''
    | _ \<Rightarrow> False))" by code_simp
  then show thesis using that by (auto split: list.splits)
qed

lemma first_broker_rows:
  obtains l where "rg_leases first_broker = [l]" "ls_root l = ''/work''" "ls_instance l = ''a''"
proof -
  have "(case rg_leases first_broker of [l] \<Rightarrow> ls_root l = ''/work'' \<and> ls_instance l = ''a'' | _ \<Rightarrow> False)" by code_simp
  then show thesis using that by (auto split: list.splits)
qed

end
