(* ===== verification/RegProps.thy ===== *)
theory RegProps
  imports RegLock RegSamples
begin

text \<open>
  The properties of the registry as a state machine: live writers are kept apart, the tables stay
  well formed, a worktree has one writer with the newest token, and a writer that lost it can
  neither prepare nor commit.
\<close>


section \<open>Live writers\<close>

text \<open>
  C1: take a run with the admission engine as the evaluator that respects the clocks (no lease
  lapses between the sweep and the query of one admission) and in which an intent that is
  admitted again under its stored fingerprint has the stored base and operations (no digest
  collision). If two live intents in it have committed writes that cover a common file, and
  both paths are written in canonical form, then the intents start from one base, neither
  write deletes or renames, and both are bounded to line intervals that do not meet. The
  canonical form is needed: \<open>dotfile_overlap_missed\<close> has two spellings that are not told apart.
\<close>
theorem live_writers_separated:
  assumes "reachable sha mac engine (orderly sha intent_surface) st"
    and "r \<in> set (rg_intents st)" and "live_state (ir_state r)"
    and "s \<in> set (rg_intents st)" and "live_state (ir_state s)" and "ir_id r \<noteq> ir_id s"
    and "a \<in> committed_writes (ir_payload r)" and "b \<in> committed_writes (ir_payload s)"
    and "canonical_path (op_resource a)" and "canonical_path (op_resource b)"
    and "covers_path (op_resource a) p" and "covers_path (op_resource b) p"
  shows "intent_base (ir_payload r) = intent_base (ir_payload s) \<and> apart a b"
proof -
  have "common_path a b" using assms(9-12) unfolding common_path_def by blast
  moreover
  have "separated (ir_payload r) (ir_payload s)"
    using gate.reachable_pairwise [OF assms(1)] assms(2-6) by (simp add: gate.pairwise_def live_row_def)
  ultimately show ?thesis using assms(7,8) by (simp add: separated_def)
qed

theorem live_writers_separated_witness:
  "\<exists>r s. r \<in> set (rg_intents two_writers) \<and> s \<in> set (rg_intents two_writers) \<and> ir_id r \<noteq> ir_id s
     \<and> apart (hd (ci_operations (ir_payload r))) (hd (ci_operations (ir_payload s)))"
proof -
  obtain r s rest where rows: "rg_intents two_writers = r # s # rest"
    and live: "live_state (ir_state r)" "live_state (ir_state s)" and ids: "ir_id r = ''low''" "ir_id s = ''high''"
    and op: "ci_operations (ir_payload r) = [sample_write ''src/app.py'' (Some ''1-10'')]"
      "ci_operations (ir_payload s) = [sample_write ''src/app.py'' (Some ''20-30'')]"
    by (rule two_writers_rows)
  have mem: "r \<in> set (rg_intents two_writers)" "s \<in> set (rg_intents two_writers)" by (simp_all add: rows)
  have ne: "ir_id r \<noteq> ir_id s" by (simp add: ids)
  have "op_committed (sample_write ''src/app.py'' (Some ''1-10''))"
    "op_committed (sample_write ''src/app.py'' (Some ''20-30''))" by code_simp+
  then have writes: "hd (ci_operations (ir_payload r)) \<in> committed_writes (ir_payload r)"
    "hd (ci_operations (ir_payload s)) \<in> committed_writes (ir_payload s)"
    using sample_writes(3,4) by (simp_all add: op committed_writes_def committed_operations_def)
  have paths: "canonical_path (op_resource (hd (ci_operations (ir_payload r))))"
    "canonical_path (op_resource (hd (ci_operations (ir_payload s))))"
    "covers_path (op_resource (hd (ci_operations (ir_payload r)))) ''src/app.py''"
    "covers_path (op_resource (hd (ci_operations (ir_payload s)))) ''src/app.py''"
    unfolding op using sample_paths by simp_all
  from live_writers_separated [OF sample_reachable(2) mem(1) live(1) mem(2) live(2) ne writes paths] mem ne
  show ?thesis by blast
qed

text \<open>
  Why the clocks matter: the sweep and the query of one admission read the clock separately, so
  a lease that ends in between is neither swept nor seen. \<open>with_payload\<close> gives the intent of a
  row another content; a row that is not seen can have any.
\<close>

definition with_payload :: "string \<Rightarrow> change_intent \<Rightarrow> registry \<Rightarrow> registry" where
  "with_payload iid q st = intent_row_update iid (\<lambda>r. r\<lparr>ir_payload := q\<rparr>) st"

lemma with_payload_simps [simp]:
  "rg_deps (with_payload k q st) = rg_deps st"
  "rg_intents (with_payload k q st) = update_rows (\<lambda>r. ir_id r = k) (\<lambda>r. r\<lparr>ir_payload := q\<rparr>) (rg_intents st)"
  by (simp_all add: with_payload_def intent_row_update_def)

lemma expire_with_payload:
  "expire_intents rd (with_payload k q st) = with_payload k q (expire_intents rd st)"
  by (simp add: expire_intents_def with_payload_def intent_row_update_def update_rows_def set_state_def)

lemma known_with_payload: "known_intent_ids (with_payload k q st) = known_intent_ids st"
proof -
  have "map ir_id (filter (known_state \<circ> ir_state) (update_rows (\<lambda>r. ir_id r = k) (\<lambda>r. r\<lparr>ir_payload := q\<rparr>) rows))
      = map ir_id (filter (known_state \<circ> ir_state) rows)" for rows
    by (induction rows) (auto simp: update_rows_def)
  then show ?thesis by (simp add: known_intent_ids_def)
qed

lemma lapsed_not_seen:
  assumes "\<And>x. x \<in> set (rg_intents st) \<Longrightarrow> ir_id x = k \<Longrightarrow> ir_lease x \<le> rd_query rd"
  shows "active_intents rd None (with_payload k q st) = active_intents rd None st"
proof -
  let ?P = "\<lambda>r. live_state (ir_state r) \<and> rd_query rd < ir_lease r"
  have "filter ?P (update_rows (\<lambda>r. ir_id r = k) (\<lambda>r. r\<lparr>ir_payload := q\<rparr>) rows) = filter ?P rows"
    if "\<And>x. x \<in> set rows \<Longrightarrow> ir_id x = k \<Longrightarrow> ir_lease x \<le> rd_query rd" for rows
    using that by (induction rows) (force simp: update_rows_def)+
  from this [OF assms] show ?thesis by (simp add: active_intents_def active_rows_def)
qed

lemma decide_with_payload: "decide ev i active known (with_payload k q st) = decide ev i active known st"
proof -
  have "dependency_cycle (with_payload k q st) i = dependency_cycle st i"
    by (simp add: fun_eq_iff dependency_cycle_def)
  then show ?thesis unfolding decide_def by (rule ssubst) (rule refl)
qed

lemma find_intent_absent: "find_intent st k = None \<longleftrightarrow> k \<notin> set (map ir_id (rg_intents st))"
  by (simp add: find_intent_def find_row_None)

lemma absent_kept:
  "find_intent (expire_intents rd st) k = None \<longleftrightarrow> find_intent st k = None"
  "find_intent (with_payload j q st) k = None \<longleftrightarrow> find_intent st k = None"
  by (simp_all add: find_intent_absent expire_intents_def map_key_update_rows del: set_map)

text \<open>The first admission of an intent, in terms of the decision.\<close>

lemma admit_new:
  assumes "find_intent st (ci_intent_id i) = None"
  shows "admit_intent sha ev rd i st = (let s = expire_intents rd st in
    res_bind (decide ev i (active_intents rd None s) (known_intent_ids s) s) (\<lambda>d.
      Inr (d, finish_admission rd ''intent_admitted'' ''intent_blocked'' i d
        (s\<lparr>rg_intents := rg_intents s @ [new_intent_row sha rd i d]\<rparr>))))"
proof -
  have "find_intent (expire_intents rd st) (ci_intent_id i) = None" using assms by (simp only: absent_kept)
  then show ?thesis by (simp add: admit_intent_def Let_def)
qed

definition split_readings :: readings where
  "split_readings = (sample_readings 1)\<lparr>rd_sweep := ir_lease (hd (rg_intents one_writer)) - 1,
     rd_query := ir_lease (hd (rg_intents one_writer))\<rparr>"

text \<open>
  C35: in a registry with unique intent ids suppose a live intent's lease ends after the sweep
  of another intent's first admission and not after its query. Then the admission decides as if
  the live intent had any other content; the live intent keeps its row; if the decision is
  positive, both are live, whatever they write; and a heartbeat of the first one still succeeds.
\<close>
theorem race_admits_two_writers:
  assumes "keys_unique ir_id (rg_intents st)" and "find_intent st (ci_intent_id i) = None"
    and "r \<in> set (rg_intents st)" and "live_state (ir_state r)"
    and "rd_sweep rd < ir_lease r" and "ir_lease r \<le> rd_query rd"
    and "admit_intent sha ev rd i st = Inr (d, st')"
  shows "r \<in> set (rg_intents st')
    \<and> (\<exists>st''. admit_intent sha ev rd i (with_payload (ir_id r) q st) = Inr (d, st''))
    \<and> (ad_allowed d \<longrightarrow> (\<exists>n \<in> set (rg_intents st'). ir_payload n = i \<and> live_state (ir_state n) \<and> n \<noteq> r))
    \<and> (0 < seconds \<longrightarrow> res_ok (heartbeat_intent rd' (ir_id r) seconds st'))"
proof -
  let ?s = "expire_intents rd st" and ?n = "new_intent_row sha rd i d"
  have blind: "active_intents rd None (with_payload (ir_id r) q ?s) = active_intents rd None ?s"
    by (rule lapsed_not_seen) (use assms(1,3,5,6) in \<open>auto simp: expire_intents_def elim!: update_rowsE dest: keys_unique_eqD\<close>)
  have d: "decide ev i (active_intents rd None ?s) (known_intent_ids ?s) ?s = Inr d"
    and st': "rg_intents st' = rg_intents ?s @ [?n]"
    using assms(7) by (auto simp: admit_new [OF assms(2)] Let_def res_bind_eq_Inr finish_admission_def)
  have "r \<in> set (rg_intents ?s)"
    using assms(3,5) by (force simp: expire_intents_def in_update_rows)
  then have r: "r \<in> set (rg_intents st')" by (simp add: st')
  have "decide ev i (active_intents rd None (with_payload (ir_id r) q ?s)) (known_intent_ids (with_payload (ir_id r) q ?s))
      (with_payload (ir_id r) q ?s) = Inr d"
    using d by (simp add: blind known_with_payload decide_with_payload)
  moreover have "find_intent (with_payload (ir_id r) q st) (ci_intent_id i) = None"
    using assms(2) absent_kept(2) by simp
  ultimately have other: "\<exists>st''. admit_intent sha ev rd i (with_payload (ir_id r) q st) = Inr (d, st'')"
    by (simp add: admit_new expire_with_payload)
  have "ir_id r \<noteq> ci_intent_id i" using assms(2,3) by (force simp: find_intent_absent)
  then have two: "ad_allowed d \<longrightarrow> (\<exists>n \<in> set (rg_intents st'). ir_payload n = i \<and> live_state (ir_state n) \<and> n \<noteq> r)"
    by (intro impI bexI [of _ ?n]) (auto simp: st' new_intent_row_def admission_state_def live_state_def)
  have "map ir_id (rg_intents ?s) = map ir_id (rg_intents st)"
    by (simp add: expire_intents_def map_key_update_rows)
  then have "keys_unique ir_id (rg_intents st')"
    using assms(1,2) by (simp add: keys_unique_def st' new_intent_row_def find_intent_absent)
  then have "find_intent st' (ir_id r) = Some r"
    using r by (simp add: find_intent_def find_row_unique)
  then have "0 < seconds \<longrightarrow> res_ok (heartbeat_intent rd' (ir_id r) seconds st')"
    using assms(4) by (simp add: heartbeat_intent_def)
  with r other two show ?thesis by blast
qed

text \<open>The same write twice: the second copy is admitted beside the first.\<close>

theorem race_admits_two_writers_witness:
  "\<exists>r d st'. r \<in> set (rg_intents one_writer)
     \<and> admit_intent sample_sha engine split_readings (low_writer\<lparr>ci_intent_id := ''late''\<rparr>) one_writer = Inr (d, st')
     \<and> ad_allowed d \<and> ci_operations (ir_payload r) = ci_operations low_writer
     \<and> r \<in> set (rg_intents st') \<and> res_ok (heartbeat_intent split_readings (ir_id r) 900 st')"
proof -
  let ?late = "low_writer\<lparr>ci_intent_id := ''late''\<rparr>" and ?r = "hd (rg_intents one_writer)"
  let ?run = "admit_intent sample_sha engine split_readings ?late one_writer"
  have "case ?run of Inl _ \<Rightarrow> False | Inr (d, _) \<Rightarrow> ad_allowed d" by code_simp
  then obtain d st' where run: "?run = Inr (d, st')" "ad_allowed d" by (auto split: sum.splits)
  have start: "keys_unique ir_id (rg_intents one_writer)" "find_intent one_writer (ci_intent_id ?late) = None"
    "?r \<in> set (rg_intents one_writer)" "live_state (ir_state ?r)"
    "ci_operations (ir_payload ?r) = ci_operations low_writer" by code_simp+
  have "rd_sweep split_readings < ir_lease ?r" "ir_lease ?r \<le> rd_query split_readings"
    by (simp_all add: split_readings_def)
  note race = race_admits_two_writers [OF start(1-4) this run(1), where q = low_writer
      and rd' = split_readings and seconds = 900]
  then show ?thesis using run start(3,5) by auto
qed


section \<open>The tables\<close>

text \<open>
  C27: in every reachable state intent ids are unique, every stored intent is a constructed value
  filed under its own id, the active dependency edges have no cycle, and an intent that is stale
  has no active broker.
\<close>
theorem reachable_tables:
  assumes "reachable sha mac ev env st"
  shows "distinct (map ir_id (rg_intents st))
    \<and> (\<forall>r \<in> set (rg_intents st). valid_intent (ir_payload r) \<and> ci_intent_id (ir_payload r) = ir_id r)
    \<and> find_dependency_cycle (active_edges (rg_deps st)) = None
    \<and> (\<forall>r \<in> set (rg_intents st). ir_state r = S_STALE
         \<longrightarrow> (\<forall>b \<in> set (rg_brokers st). bk_intent b = ir_id r \<longrightarrow> bk_state b \<noteq> BK_ACTIVE))"
proof -
  have wf: "wf_registry st" using reachable_inv [OF assms] by blast
  note D = wf_registryD [OF wf]
  have "find_dependency_cycle (active_edges (rg_deps st)) = None"
    using D(3) by (simp add: find_cycle_None_iff)
  moreover have "\<forall>b \<in> set (rg_brokers st). bk_intent b = ir_id r \<longrightarrow> bk_state b \<noteq> BK_ACTIVE"
    if "r \<in> set (rg_intents st)" "ir_state r = S_STALE" for r
  proof -
    have "ir_id r \<notin> live_brokers st" using D(4) that by (simp add: stale_fenced_def)
    moreover have "bk_intent b \<in> live_brokers st" if "b \<in> set (rg_brokers st)" "bk_state b = BK_ACTIVE" for b
      using that unfolding live_brokers_def by blast
    ultimately show ?thesis by metis
  qed
  ultimately show ?thesis using D(1,2) by (simp add: keys_unique_def filed_def)
qed

theorem reachable_tables_witness:
  "distinct (map ir_id (rg_intents second_broker))
    \<and> find_dependency_cycle (active_edges (rg_deps second_broker)) = None"
  using reachable_tables [OF broker_reachable(4)] by blast


section \<open>Worktrees\<close>

text \<open>The rows behind the views.\<close>

lemma view_mem:
  "b \<in> set (rg_brokers st) \<Longrightarrow> (bk_id b, bk_root b, bk_token b, bk_state b = BK_ACTIVE) \<in> set (brokers_of st)"
  by (force simp: brokers_of_def broker_view_def)

lemma wf_brokers_viewsD: "wf_brokers st \<Longrightarrow> wf_views (brokers_of st) (leases_of st) (ops_of st) (last_token st)"
  by (simp add: wf_brokers_views)

lemma broker_row_unique:
  assumes "wf_brokers st" and "b \<in> set (rg_brokers st)" and "c \<in> set (rg_brokers st)" and "bk_id b = bk_id c"
  shows "b = c"
proof -
  have "distinct (map bk_id (rg_brokers st))"
    using wf_viewsD(1) [OF wf_brokers_viewsD [OF assms(1)]] by (simp add: brokers_of_def)
  with assms(2-4) show ?thesis by (auto simp: distinct_map dest: inj_onD)
qed

text \<open>
  C5: in every reachable state an active broker instance holds the lease of its worktree, its
  fencing token is the newest one given out there, every other instance of the worktree is
  inactive and has a smaller token.
\<close>
theorem single_writer:
  assumes "reachable sha mac ev env st" and "b \<in> set (rg_brokers st)" and "bk_state b = BK_ACTIVE"
  shows "bk_token b = last_token st (bk_root b)
    \<and> (\<exists>l \<in> set (rg_leases st). ls_root l = bk_root b \<and> ls_instance l = bk_id b \<and> ls_token l = bk_token b)
    \<and> (\<forall>c \<in> set (rg_brokers st). bk_root c = bk_root b \<and> c \<noteq> b
         \<longrightarrow> bk_state c \<noteq> BK_ACTIVE \<and> bk_token c < bk_token b)"
proof -
  have wf: "wf_brokers st" using reachable_inv [OF assms(1)] by blast
  note D = wf_viewsD [OF wf_brokers_viewsD [OF wf]]
  have l: "(bk_root b, bk_id b, bk_token b) \<in> set (leases_of st)"
    using D(6) view_mem [OF assms(2)] assms(3) by simp
  note new = D(7) [OF l]
  have "bk_state c \<noteq> BK_ACTIVE \<and> bk_token c < bk_token b"
    if c: "c \<in> set (rg_brokers st)" "bk_root c = bk_root b" "c \<noteq> b" for c
  proof -
    note vc = view_mem [OF c(1)]
    have ne: "bk_id c \<noteq> bk_id b" using broker_row_unique [OF wf c(1) assms(2)] c(3) by blast
    then have tok: "bk_token c \<noteq> bk_token b" using D(9) vc view_mem [OF assms(2)] c(2) by metis
    moreover have "bk_token c \<le> bk_token b" using D(5) [OF vc] new c(2) by simp
    moreover have "bk_state c \<noteq> BK_ACTIVE"
    proof
      assume "bk_state c = BK_ACTIVE"
      then have "(bk_root c, bk_id c, bk_token c) \<in> set (leases_of st)" using D(6) vc by simp
      with D(7) new c(2) tok show False by metis
    qed
    ultimately show ?thesis by simp
  qed
  moreover obtain x where "x \<in> set (rg_leases st)" "lease_view x = (bk_root b, bk_id b, bk_token b)"
    using l by (auto simp: leases_of_def)
  ultimately show ?thesis using new by (auto simp: lease_view_def)
qed

theorem single_writer_witness:
  "\<exists>b \<in> set (rg_brokers second_broker). bk_token b = last_token second_broker (bk_root b)
     \<and> (\<exists>l \<in> set (rg_leases second_broker). ls_root l = bk_root b \<and> ls_instance l = bk_id b)"
proof -
  obtain b c m where rows: "rg_brokers second_broker = [b, c]" and active: "bk_state c = BK_ACTIVE"
    by (rule second_broker_rows)
  have c: "c \<in> set (rg_brokers second_broker)" by (simp add: rows)
  from single_writer [OF broker_reachable(4) c active] c show ?thesis by blast
qed

text \<open>What a validated instance knows about its token, in the state before.\<close>

lemma validated_token:
  assumes "validate_locked mac rd lease_now iid key True st0 = Inr ((b, row), st)" and "wf_brokers st0"
  shows "bk_token b = last_token st0 (bk_root b)" and "b \<in> set (rg_brokers st0)" and "bk_id b = iid"
proof -
  note vm = validate_moves [OF assms]
  obtain l where l: "find_lease st (bk_root b) = Some l" "ls_token l = bk_token b"
    and st: "st = expire_leases lease_now (expire_intents rd st0)" and fb: "find_broker st0 iid = Some b"
    using assms(1) by (rule validate_cases)
  have "l \<in> set (rg_leases st)" "ls_root l = bk_root b"
    using l(1) by (auto simp: find_lease_def dest: find_row_SomeD)
  with wf_lease_ofD(2) [OF vm(2)] l(2) have "bk_token b = last_token st (bk_root b)" by simp
  moreover have "last_token st = last_token st0"
    by (rule last_token_cong) (simp add: st expire_leases_def Let_def)
  ultimately show "bk_token b = last_token st0 (bk_root b)" by simp
  show "b \<in> set (rg_brokers st0)" "bk_id b = iid" using find_broker_SomeD [OF fb] by auto
qed

text \<open>
  C6: once another instance of the same worktree was given a newer token, an instance can
  neither prepare an operation nor commit one it had prepared, whatever key, token and clock it
  comes with: both calls raise.
\<close>
theorem stale_writer_rejected:
  assumes "reachable sha mac ev env st" and "b \<in> set (rg_brokers st)" and "c \<in> set (rg_brokers st)"
    and "bk_root c = bk_root b" and "bk_token b < bk_token c"
  shows "(oq_instance q = bk_id b \<longrightarrow> \<not> res_ok (prepare_broker_operation mac rd lease_now q key st))
    \<and> (p \<in> set (rg_ops st) \<and> po_instance p = bk_id b \<and> po_state p \<noteq> OP_COMMITTED
       \<longrightarrow> \<not> res_ok (commit_broker_operation sha mac rd lease_now (po_id p) accesses response okey bkey
             token post st))"
proof -
  have wf: "wf_brokers st" using reachable_inv [OF assms(1)] by blast
  note D = wf_viewsD [OF wf_brokers_viewsD [OF wf]]
  have no: False if "validate_locked mac rd lease_now (bk_id b) k True st = Inr ((x, row), st')" for k x row st'
  proof -
    note t = validated_token [OF that wf]
    have "x = b" using broker_row_unique [OF wf t(2) assms(2) t(3)] .
    with t(1) D(5) [OF view_mem [OF assms(3)]] assms(4,5) show False by simp
  qed
  have "\<not> res_ok (prepare_broker_operation mac rd lease_now q key st)" if "oq_instance q = bk_id b"
    using no that by (auto simp: res_ok_def prepare_broker_operation_def res_bind_eq_Inr split: sum.splits)
  moreover have "\<not> res_ok (commit_broker_operation sha mac rd lease_now (po_id p) accesses response okey bkey token post st)"
    if p: "p \<in> set (rg_ops st)" "po_instance p = bk_id b" "po_state p \<noteq> OP_COMMITTED"
  proof
    assume "res_ok (commit_broker_operation sha mac rd lease_now (po_id p) accesses response okey bkey token post st)"
    then obtain y st' where y: "commit_broker_operation sha mac rd lease_now (po_id p) accesses response okey bkey
        token post st = Inr (y, st')"
      by (auto simp: res_ok_def split: sum.splits)
    have "keys_unique po_id (rg_ops st)" using D(3) by (simp add: ops_of_def keys_unique_def)
    then have row: "find_row po_id (po_id p) (rg_ops st) = Some p" using p(1) by (rule find_row_unique) simp
    from y show False
      by (cases rule: commit_cases) (use row p no in auto)
  qed
  ultimately show ?thesis by blast
qed

theorem stale_writer_rejected_witness:
  "\<not> res_ok (prepare_broker_operation sample_mac (sample_readings 5) 5 (sample_prepare ''a'' 1 ''tree-0'')
     ''key'' second_broker)"
proof -
  obtain b c m where rows: "rg_brokers second_broker = [b, c]" "bk_root b = ''/work''" "bk_root c = ''/work''"
    "bk_token b < bk_token c" and a: "bk_id b = ''a''"
    by (rule second_broker_rows)
  have mem: "b \<in> set (rg_brokers second_broker)" "c \<in> set (rg_brokers second_broker)" by (simp_all add: rows)
  have "bk_root c = bk_root b" by (simp add: rows)
  from stale_writer_rejected [OF broker_reachable(4) mem this rows(4),
      of "sample_prepare ''a'' 1 ''tree-0''" "sample_readings 5" 5 "''key''"]
  show ?thesis by (simp add: sample_prepare_def a)
qed

text \<open>
  C7: every committed transaction of a reachable registry is a sequence of moves of the lock
  service: leases are taken with the next token on a worktree that has none, or dropped.
\<close>
theorem registry_refines_lock_service:
  assumes "reachable sha mac ev env st" and "reg_step sha mac ev env st st'"
  shows "lock_of empty_registry = free_lock \<and> lock_move\<^sup>*\<^sup>* (lock_of st) (lock_of st')"
  using lock_of_empty leases.simulates [of sha mac ev env st st'] assms by (simp add: reg_run_def)

theorem registry_refines_lock_service_witness:
  "lock_move\<^sup>*\<^sup>* (lock_of first_stopped) (lock_of second_broker)"
  using registry_refines_lock_service [OF broker_reachable(3) broker_steps(4)] by blast

text \<open>
  C26: a token is spent. If an instance held the lease of a worktree with a token and later
  another instance holds it, then every token counter seen from there on is above the old
  token, so no lease with it can come back.
\<close>
theorem tokens_are_not_reused:
  assumes "reachable sha mac ev env st" and "l \<in> set (rg_leases st)"
    and "(reg_run sha mac ev env)\<^sup>*\<^sup>* st st'" and "m \<in> set (rg_leases st')"
    and "ls_root m = ls_root l" and "ls_instance m \<noteq> ls_instance l"
    and "(reg_run sha mac ev env)\<^sup>*\<^sup>* st' st''"
  shows "ls_token l < last_token st'' (ls_root l)
    \<and> (\<forall>n \<in> set (rg_leases st''). ls_root n = ls_root l \<longrightarrow> ls_token l < ls_token n)"
proof -
  have wf: "wf_brokers s" if "reachable sha mac ev env s" for s using reachable_inv [OF that] by blast
  have reach: "reachable sha mac ev env t" if "(reg_run sha mac ev env)\<^sup>*\<^sup>* s t" "reachable sha mac ev env s" for s t
    using that by (induction rule: rtranclp_induct) (auto simp: reg_run_def intro: reachable.step)
  have holds: "snd (lock_of s (ls_root x)) = Some (ls_instance x, ls_token x)"
    if "x \<in> set (rg_leases s)" "reachable sha mac ev env s" for s x
  proof -
    have "distinct (map fst (leases_of s))" using wf [OF that(2)] by (simp add: wf_brokers_views wf_views_def)
    moreover have "(ls_root x, ls_instance x, ls_token x) \<in> set (leases_of s)"
      using that(1) by (force simp: leases_of_def lease_view_def)
    ultimately show ?thesis by (simp add: lock_of_def)
  qed
  have r1: "reachable sha mac ev env st'" and r2: "reachable sha mac ev env st''"
    using reach assms(1,3,7) by blast+
  have less: "ls_token l < fst (lock_of st'' (ls_root l))"
    using leases.token_retired [OF reachable_run [OF assms(1)] holds [OF assms(2,1)] assms(3) _ assms(6,7)]
      holds [OF assms(4) r1] assms(5) by simp
  moreover have "ls_token n = last_token st'' (ls_root n)" if "n \<in> set (rg_leases st'')" for n
    using wf_lease_ofD(2) [OF wf [OF r2] that] .
  ultimately show ?thesis by (auto simp: lock_of_def)
qed

theorem tokens_are_not_reused_witness:
  "\<exists>l \<in> set (rg_leases first_broker). ls_token l < last_token second_broker (ls_root l)"
proof -
  obtain l where l: "rg_leases first_broker = [l]" "ls_root l = ''/work''" "ls_instance l = ''a''"
    by (rule first_broker_rows)
  obtain b c m where m: "rg_leases second_broker = [m]" "ls_root m = ''/work''" "ls_instance m = ''b''"
    by (rule second_broker_rows)
  have mem: "l \<in> set (rg_leases first_broker)" "m \<in> set (rg_leases second_broker)" by (simp_all add: l m)
  have eq: "ls_root m = ls_root l" "ls_instance m \<noteq> ls_instance l" by (simp_all add: l m)
  have "reg_run sample_sha sample_mac engine always first_broker first_stopped"
    "reg_run sample_sha sample_mac engine always first_stopped second_broker"
    using broker_steps(3,4) broker_reachable(2,3) by (simp_all add: reg_run_def)
  then have "(reg_run sample_sha sample_mac engine always)\<^sup>*\<^sup>* first_broker second_broker"
    by (meson converse_rtranclp_into_rtranclp r_into_rtranclp)
  from tokens_are_not_reused [OF broker_reachable(2) mem(1) this mem(2) eq rtranclp.rtrancl_refl] mem(1)
  show ?thesis by blast
qed


section \<open>Invalidation\<close>

text \<open>A dependent whose producer changes: the second writer depends on the first.\<close>

definition with_dependency :: registry where
  "with_dependency = two_writers\<lparr>rg_deps := [\<lparr>dr_intent = ''high'', dr_producer = ''low'',
     dr_kind = DK_EXPLICIT, dr_key = ''src/app.py'', dr_status = DS_ACTIVE, dr_created = 1, dr_updated = 1\<rparr>]\<rparr>"

theorem invalidation_revokes_dependents_witness:
  "\<exists>st'. invalidate_dependents sample_sha (sample_readings 5) ''low'' [''src/app.py''] ''changed'' with_dependency
      = Inr ([''high''], st') \<and> revoked st' ''high'' \<and> premise_chain with_dependency ''low'' [''src/app.py''] ''high''"
proof -
  let ?run = "invalidate_dependents sample_sha (sample_readings 5) ''low'' [''src/app.py''] ''changed'' with_dependency"
  have "case ?run of Inl _ \<Rightarrow> False | Inr (stale, _) \<Rightarrow> stale = [''high'']" by code_simp
  then obtain st' where run: "?run = Inr ([''high''], st')" by (auto split: sum.splits)
  have keys: "keys_unique ir_id (rg_intents with_dependency)" by code_simp
  show ?thesis
    using invalidation_revokes_dependents [OF keys, where sha = sample_sha and rd = "sample_readings 5"
      and producer = "''low''" and keys = "[''src/app.py'']" and reason = "''changed''"]
    unfolding run by auto
qed

end
