(* ===== verification/Verifier.thy ===== *)
theory Verifier
  imports Manifest AdmissionEngine
begin

text \<open>
  The integration verifier (\<open>integration/verifier.py\<close>): what a worker really changed is compared
  with the intent it was admitted for, with the intents that are live beside it and, in a batch,
  with the changes of the other workers. Every check returns the findings it appends.
\<close>


section \<open>Findings\<close>

definition finding_of ::
  "finding_code \<Rightarrow> finding_severity \<Rightarrow> string \<Rightarrow> string option \<Rightarrow> string option \<Rightarrow> string option \<Rightarrow> integration_finding" where
  "finding_of cd sev message path ident related =
     \<lparr>fg_code = cd, fg_severity = sev, fg_message = message, fg_path = path, fg_identifier = ident,
      fg_related = related\<rparr>"

abbreviation error_of where "error_of cd \<equiv> finding_of cd SEV_ERROR"

text \<open>\<open>" ".join(value.split()) if value else None\<close>.\<close>

definition plain_signature :: "string option \<Rightarrow> string option" where
  "plain_signature v = (case v of None \<Rightarrow> None | Some s \<Rightarrow> if s = [] then None else Some (spaced s))"

definition list_text :: "string list \<Rightarrow> string" where
  "list_text xs = py_repr (JList (map JStr xs))"

definition pair_text :: "string \<times> string \<Rightarrow> string" where
  "pair_text p = ''('' @ repr_str (fst p) @ '', '' @ repr_str (snd p) @ '')''"

datatype verify_error = VerifyEval eval_error | VerifyCodec codec_error | UnknownReport string

definition path_writes :: "change_intent \<Rightarrow> intent_operation list" where
  "path_writes i = filter (\<lambda>op. path_kind (rr_kind (op_resource op))) (mutating_operations i)"

definition declares_path :: "change_intent \<Rightarrow> string \<Rightarrow> bool" where
  "declares_path i p = list_ex (\<lambda>op. covers_path (op_resource op) p) (path_writes i)"


section \<open>Identity, base and dependencies\<close>

definition manifest_base :: "change_manifest \<Rightarrow> json" where
  "manifest_base m = (case mf_commit m of
       Some s \<Rightarrow> if s = [] then jget (mf_metadata m) ''resolved_base_commit'' else JStr s
     | None \<Rightarrow> jget (mf_metadata m) ''resolved_base_commit'')"

definition base_stale :: "change_intent \<Rightarrow> change_manifest \<Rightarrow> bool" where
  "base_stale i m = (mf_revision m \<noteq> ci_base_revision i
     \<or> jget (mf_metadata m) ''base_is_ancestor'' = JBool False
     \<or> (case ci_base_commit i of None \<Rightarrow> False | Some c \<Rightarrow> manifest_base m \<noteq> JStr c))"

definition verify_identity :: "change_intent \<Rightarrow> change_manifest \<Rightarrow> integration_finding list" where
  "verify_identity i m =
     (if mf_intent m \<noteq> ci_intent_id i
      then [error_of UNKNOWN_INTENT (''Manifest targets '' @ mf_intent m @ '', expected '' @ ci_intent_id i @ ''.'') None None None]
      else [])
     @ (if mf_owner m \<noteq> ci_owner i
        then [error_of OWNER_MISMATCH (''Manifest owner '' @ mf_owner m @ '' does not match admitted owner '' @ ci_owner i @ ''.'') None None None]
        else [])
     @ (if base_stale i m
        then [error_of STALE_BASE (''Observed work is not based on admitted commit '' @ str_or (ci_base_commit i) (ci_base_revision i)
                @ ''; rebase and request re-admission.'') None None None]
        else [])"

definition verify_semantic_mode :: "change_intent \<Rightarrow> eval_error + integration_finding list" where
  "verify_semantic_mode i = res_bind (semantic_resolution i) (\<lambda>meta. Inr
     (if semantic_unavailable meta
      then [error_of SEMANTIC_UNAVAILABLE ''Required Agent Lexicon semantic verification was unavailable.'' None None None]
      else []))"

definition dependency_finding :: "metadata \<Rightarrow> integration_finding list" where
  "dependency_finding r =
     (let status = get_str r ''status''; d = get_str r ''depends_on_intent_id''
      in if status = ''missing'' then
           [error_of DEPENDENCY_MISSING (''Dependency '' @ d @ '' does not exist.'') None None (Some d)]
         else if status = ''stale'' then
           [error_of DEPENDENCY_STALE (''Premise from '' @ d @ '' changed; amend and re-admit this intent.'') None None (Some d)]
         else [])"


section \<open>The declared write surface\<close>

definition undeclared_changes :: "change_intent \<Rightarrow> change_manifest \<Rightarrow> integration_finding list" where
  "undeclared_changes i m =
     map (\<lambda>p. error_of UNDECLARED_CHANGE (''Changed file '' @ p @ '' is outside the admitted write surface.'') (Some p) None None)
       (filter (\<lambda>p. \<not> declares_path i p) (mf_files m))"

definition missing_change :: "change_manifest \<Rightarrow> intent_operation \<Rightarrow> bool" where
  "missing_change m op = (op_required op \<and> \<not> is_pattern (op_resource op)
     \<and> \<not> list_ex (covers_path (op_resource op)) (mf_files m))"

definition missing_changes :: "change_intent \<Rightarrow> change_manifest \<Rightarrow> integration_finding list" where
  "missing_changes i m =
     map (\<lambda>op. error_of MISSING_DECLARED_CHANGE
         (''Required resource '' @ rr_identifier (op_resource op) @ '' was not changed.'')
         (Some (rr_identifier (op_resource op))) None None)
       (filter (missing_change m) (path_writes i))"

definition has_region :: "intent_operation \<Rightarrow> bool" where
  "has_region op = (str_or (rr_region (op_resource op)) [] \<noteq> [])"

definition hunks_of :: "change_manifest \<Rightarrow> string \<Rightarrow> changed_region list" where
  "hunks_of m p = filter (\<lambda>r. hn_path r = p) (mf_regions m)"

definition region_finding :: "change_manifest \<Rightarrow> string \<Rightarrow> nat \<times> nat \<Rightarrow> string \<Rightarrow> integration_finding list" where
  "region_finding m region allowed p =
     (let actual = hunks_of m p
      in if actual = [] then
           [error_of REGION_VIOLATION (''No Git hunk evidence is available to prove that '' @ p @ '' stayed inside '' @ region @ ''.'')
              (Some p) None None]
         else map (\<lambda>r. error_of REGION_VIOLATION
             (''Git hunk '' @ int_str (hn_start r) @ ''-'' @ int_str (hn_end r) @ '' in '' @ p @ '' exceeds admitted region ''
              @ nat_str (fst allowed) @ ''-'' @ nat_str (snd allowed) @ ''.'') (Some p) None None)
           (filter (\<lambda>r. hn_start r < int (fst allowed) \<or> int (snd allowed) < hn_end r) actual))"

definition verify_region :: "change_manifest \<Rightarrow> intent_operation \<Rightarrow> integration_finding list" where
  "verify_region m op =
     (let r = op_resource op; region = str_or (rr_region r) []
      in case parse_line_region region of
          None \<Rightarrow> [error_of REGION_VIOLATION (''Region `'' @ region @ ''` is not a machine-checkable line range.'')
                   (Some (rr_identifier r)) None None]
        | Some allowed \<Rightarrow> concat (map (region_finding m region allowed) (filter (covers_path r) (mf_files m))))"

definition verify_regions :: "change_intent \<Rightarrow> change_manifest \<Rightarrow> integration_finding list" where
  "verify_regions i m = concat (map (verify_region m) (filter has_region (path_writes i)))"


section \<open>Contracts and semantic artifacts\<close>

definition contracts_of :: "change_manifest \<Rightarrow> observed_artifact list" where
  "contracts_of m = filter (\<lambda>a. art_kind a = K_CONTRACT) (mf_artifacts m)"

definition artifact_slot :: "observed_artifact \<Rightarrow> string \<times> string" where
  "artifact_slot a = (str_or (artifact_subject_key a) [], artifact_key a)"

text \<open>
  The candidates of a declared contract. An unbound one falls back to every observed contract of
  that name, grouped by slot in the order in which the slots were first seen.
\<close>

definition contract_candidates :: "change_manifest \<Rightarrow> resource_ref \<Rightarrow> observed_artifact list" where
  "contract_candidates m r =
     (let arts = contracts_of m;
          exact = filter (\<lambda>a. artifact_slot a = (str_or (subject_key r) [], semantic_key r)) arts
      in if exact = [] \<and> str_or (subject_key r) [] = [] then
           concat (map (\<lambda>slot. filter (\<lambda>a. artifact_slot a = slot) arts)
             (filter (\<lambda>slot. snd slot = semantic_key r) (uniq (map artifact_slot arts))))
         else exact)"

definition verify_contract :: "change_manifest \<Rightarrow> intent_operation \<Rightarrow> integration_finding list" where
  "verify_contract m op =
     (let r = op_resource op; candidates = contract_candidates m r; declared = plain_signature (rr_signature r)
      in if rr_kind r \<noteq> K_CONTRACT then []
         else if candidates = [] then
           [finding_of CONTRACT_MISSING (if op_required op then SEV_ERROR else SEV_WARNING)
              (''Declared contract '' @ rr_identifier r @ '' was not observed in changed code with subject ''
               @ str_or (rr_subject_concept_id r) ''<unbound>'' @ ''.'') None (Some (rr_identifier r)) None]
         else if str_or declared [] \<noteq> [] \<and> \<not> list_ex (\<lambda>a. plain_signature (art_signature a) = declared) candidates then
           [error_of CONTRACT_MISMATCH
              (''Observed signatures '' @ list_text (sorted_set (map (\<lambda>a. str_or (plain_signature (art_signature a)) ''<missing>'') candidates))
               @ '' do not match declared `'' @ str_or declared [] @ ''`.'')
              (Some (art_path (hd candidates))) (Some (rr_identifier r)) None]
         else [])"

definition semantic_write_kind :: "resource_kind \<Rightarrow> bool" where
  "semantic_write_kind k = (k \<in> {K_CONCEPT, K_SYMBOL, K_CONTRACT, K_ROUTE, K_SCHEMA, K_CONFIG})"

definition declared_semantic :: "change_intent \<Rightarrow> string list" where
  "declared_semantic i = map (\<lambda>op. semantic_key (op_resource op))
     (filter (\<lambda>op. semantic_write_kind (rr_kind (op_resource op))) (mutating_operations i))"

definition verify_semantic :: "string list \<Rightarrow> observed_artifact \<Rightarrow> integration_finding list" where
  "verify_semantic declared a =
     (let meta = art_metadata a; name = art_identifier a; at = Some (art_path a)
      in if truthy (jget meta ''inventory_only'') then []
         else
           (if jget meta ''semantic_status'' = JStr ''ambiguous''
            then [error_of SEMANTIC_DRIFT (''Observed surface '' @ name @ '' is semantically ambiguous.'') at (Some name) None]
            else [])
           @ (if truthy (jget meta ''deprecated'')
              then [error_of SEMANTIC_DRIFT (''Deprecated terminology `'' @ name @ ''` was introduced or modified.'') at (Some name) None]
              else if truthy (jget meta ''documentation'') \<and> jget meta ''surface_kind'' = JStr ''alias''
              then [finding_of SEMANTIC_DRIFT SEV_WARNING
                      (''Documentation uses alias `'' @ name @ ''` instead of its canonical term.'') at (Some name) None]
              else [])
           @ (if str_or (art_concept a) [] \<noteq> [] \<and> jget meta ''documentation'' \<noteq> JBool True
                 \<and> artifact_key a \<notin> set declared \<and> art_kind a \<in> {K_SYMBOL, K_CONTRACT}
              then [finding_of SEMANTIC_DRIFT SEV_WARNING
                      (''Observed semantic artifact '' @ name @ '' ('' @ str_or (art_concept a) [] @ '') was not declared explicitly.'')
                      at (Some name) None]
              else []))"


section \<open>Preserved invariants\<close>

text \<open>\<open>text.split(sep, 1)\<close> at the first occurrence of a character, when there is one.\<close>

definition after_first :: "char \<Rightarrow> string \<Rightarrow> string" where
  "after_first c s = drop 1 (dropWhile (\<lambda>x. x \<noteq> c) s)"

definition before_first :: "char \<Rightarrow> string \<Rightarrow> string" where
  "before_first c s = takeWhile (\<lambda>x. x \<noteq> c) s"

text \<open>The text before and after the first \<open>::\<close>.\<close>

fun split_colons :: "string \<Rightarrow> (string \<times> string) option" where
  "split_colons (a # b # s) =
     (if a = CHR '':'' \<and> b = CHR '':'' then Some ([], s)
      else map_option (\<lambda>(x, y). (a # x, y)) (split_colons (b # s)))"
| "split_colons _ = None"

definition parse_contract_preserve :: "string \<Rightarrow> string option \<times> string \<times> string" where
  "parse_contract_preserve body =
     (let left = strip (before_first (CHR ''='') body); expected = strip (after_first (CHR ''='') body)
      in case split_colons left of
          Some (subject, ident) \<Rightarrow> (Some (strip subject), strip ident, expected)
        | None \<Rightarrow> (None, left, expected))"

definition verify_preserve :: "change_manifest \<Rightarrow> string \<Rightarrow> integration_finding list" where
  "verify_preserve m policy =
     (if starts_with policy ''path-unchanged:'' then
        (let touched = filter (\<lambda>p. fnmatchcase p (strip (after_first (CHR '':'') policy))) (mf_files m)
         in if touched = [] then []
            else [error_of PRESERVE_VIOLATION
                    (''Preserve policy `'' @ policy @ ''` was violated by: '' @ join '', '' touched @ ''.'') None None None])
      else if starts_with policy ''contract:'' \<and> CHR ''='' \<in> set policy then
        (case parse_contract_preserve (after_first (CHR '':'') policy) of (subject, ident, expected) \<Rightarrow>
           let matches = filter (\<lambda>a. (art_identifier a = ident \<or> art_qualified a = Some ident)
                 \<and> (case subject of None \<Rightarrow> True | Some s \<Rightarrow> artifact_subject_key a = Some (norm_identifier s)))
               (contracts_of m)
           in if matches = [] then
                [error_of PRESERVE_VIOLATION (''Preserved contract `'' @ ident
                   @ ''` was not observed; deletion or inventory omission is fail-closed.'') None (Some ident) None]
              else if list_ex (\<lambda>a. plain_signature (art_signature a) \<noteq> plain_signature (Some expected)) matches then
                [error_of PRESERVE_VIOLATION (''Preserved contract `'' @ ident @ ''` changed incompatibly.'') None (Some ident) None]
              else [])
      else [])"


section \<open>Observed accesses, the snapshot and acceptance\<close>

definition access_declared :: "resource_ref \<Rightarrow> intent_operation list \<Rightarrow> bool" where
  "access_declared r ops = list_ex (\<lambda>op. let d = op_resource op in rr_kind d = rr_kind r
     \<and> (if path_kind (rr_kind r) then covers_path d (rr_identifier r) else semantic_key d = semantic_key r)) ops"

definition verify_access :: "change_intent \<Rightarrow> observed_access \<Rightarrow> integration_finding list" where
  "verify_access i a =
     (let r = oa_resource a; reads = filter (\<lambda>op. op_access op = A_READ) (ci_operations i);
          writes = mutating_operations i; name = kind_value (rr_kind r) @ '':'' @ rr_identifier r;
          at = (if path_kind (rr_kind r) then Some (rr_identifier r) else None)
      in if oa_mode a = A_READ then
           (if access_declared r reads \<or> access_declared r writes then []
            else [finding_of UNDECLARED_READ SEV_WARNING (''Observed read of '' @ name @ '' was not declared as a premise.'')
                    at (Some (rr_identifier r)) None])
         else if access_declared r writes then []
         else [error_of UNDECLARED_CHANGE (''Observed tool write to '' @ name @ '' is outside the admitted write surface.'')
                 at (Some (rr_identifier r)) None])"

definition verify_snapshot :: "change_manifest \<Rightarrow> verify_error + integration_finding list" where
  "verify_snapshot m =
     (if jget (mf_metadata m) ''snapshot_integrity_ok'' \<noteq> JBool False then Inr []
      else (case get_texts (mf_metadata m) ''acceptance_mutation_paths'' of
          Inl e \<Rightarrow> Inl (VerifyCodec e)
        | Inr paths \<Rightarrow> Inr [error_of SNAPSHOT_MUTATION
            (''Worker acceptance mutated the frozen snapshot; the verified patch was not changed, so the worker must repair and re-freeze.''
             @ (if paths = [] then [] else '' Mutated paths: '' @ join '', '' paths @ ''.'')) None None None]))"

text \<open>\<open>{result.command: result for result in results}\<close>: the last result of a command counts.\<close>

definition result_of :: "change_manifest \<Rightarrow> string \<Rightarrow> acceptance_result option" where
  "result_of m command = find_row tr_command command (rev (mf_results m))"

definition text_tail :: "nat \<Rightarrow> string \<Rightarrow> string" where
  "text_tail n s = drop (length s - n) s"

definition verify_command :: "change_manifest \<Rightarrow> string \<Rightarrow> integration_finding list" where
  "verify_command m command = (case result_of m command of
       None \<Rightarrow> [finding_of ACCEPTANCE_FAILED SEV_WARNING (''Acceptance command was not executed: '' @ command) None (Some command) None]
     | Some r \<Rightarrow>
         if result_passed r then []
         else
           let err = strip (tr_stderr r); details = (if err = [] then strip (tr_stdout r) else err)
           in [error_of ACCEPTANCE_FAILED (''Acceptance command failed ('' @ int_str (tr_code r) @ ''): '' @ command @ ''. ''
                 @ text_tail 500 details) None (Some command) None])"


section \<open>Collisions with live intents\<close>

definition semantic_owners :: "change_intent list \<Rightarrow> string \<Rightarrow> (string \<times> string) list" where
  "semantic_owners active key = map (\<lambda>i. (ci_intent_id i, ci_owner i))
     (filter (\<lambda>i. list_ex (\<lambda>op. op_mutating op \<and> semantic_key (op_resource op) = key) (ci_operations i)) active)"

definition artifact_collision :: "change_intent \<Rightarrow> change_intent list \<Rightarrow> observed_artifact \<Rightarrow> integration_finding list" where
  "artifact_collision i active a =
     (let key = artifact_key a; concept = str_or (art_concept a) []
      in case semantic_owners active key of
          [] \<Rightarrow> []
        | (rid, owner) # _ \<Rightarrow>
            if concept \<noteq> [] \<and> key \<notin> set (map (\<lambda>op. semantic_key (op_resource op)) (mutating_operations i))
            then [error_of CROSS_INTENT_COLLISION (''Artifact '' @ art_identifier a @ '' touches concept '' @ concept
                    @ '' owned by '' @ rid @ '' ('' @ owner @ '') but was not declared.'')
                    (Some (art_path a)) (Some (art_identifier a)) (Some rid)]
            else [])"

definition ranges_disjoint :: "nat \<times> nat \<Rightarrow> nat \<times> nat \<Rightarrow> bool" where
  "ranges_disjoint a b = (snd a < fst b \<or> snd b < fst a)"

text \<open>The declared regions of the committed writes that cover a path.\<close>

definition declared_regions :: "change_intent \<Rightarrow> string \<Rightarrow> (nat \<times> nat) option list" where
  "declared_regions i p = map (\<lambda>op. parse_line_region (str_or (rr_region (op_resource op)) []))
     (filter (\<lambda>op. covers_path (op_resource op) p \<and> has_region op) (mutating_operations i))"

definition declared_regions_disjoint :: "change_intent \<Rightarrow> change_intent \<Rightarrow> string \<Rightarrow> bool" where
  "declared_regions_disjoint a b p =
     (let ra = declared_regions a p; rb = declared_regions b p
      in if ra = [] \<or> rb = [] \<or> None \<in> set (ra @ rb) then False
         else list_all (\<lambda>x. list_all (\<lambda>y. ranges_disjoint (the x) (the y)) rb) ra)"

definition outside_region :: "change_manifest \<Rightarrow> string \<Rightarrow> intent_operation \<Rightarrow> bool" where
  "outside_region m p op =
     (let region = str_or (rr_region (op_resource op)) []; actual = hunks_of m p
      in region \<noteq> [] \<and> actual \<noteq> []
         \<and> (case parse_line_region region of None \<Rightarrow> False
            | Some (first, final) \<Rightarrow> list_all (\<lambda>r. \<not> region_overlaps r (int first) (int final)) actual))"

definition path_collision :: "change_intent \<Rightarrow> change_manifest \<Rightarrow> change_intent \<Rightarrow> intent_operation \<Rightarrow> string \<Rightarrow> integration_finding list" where
  "path_collision i m ex op p =
     (if \<not> covers_path (op_resource op) p \<or> \<not> declares_path i p \<or> outside_region m p op
         \<or> declared_regions_disjoint i ex p then []
      else [error_of CROSS_INTENT_COLLISION (p @ '' enters the write surface of active intent '' @ ci_intent_id ex
              @ '' ('' @ ci_owner ex @ '').'') (Some p) None (Some (ci_intent_id ex))])"

definition verify_collisions :: "change_intent \<Rightarrow> change_manifest \<Rightarrow> change_intent list \<Rightarrow> integration_finding list" where
  "verify_collisions i m active =
     (let others = filter (\<lambda>x. ci_intent_id x \<noteq> ci_intent_id i) active
      in concat (map (artifact_collision i others) (mf_artifacts m))
         @ concat (map (\<lambda>ex. concat (map (\<lambda>op. concat (map (path_collision i m ex op) (mf_files m))) (path_writes ex))) others))"


section \<open>One manifest\<close>

definition same_finding :: "integration_finding \<Rightarrow> finding_code \<times> finding_severity \<times> string \<times> string option \<times> string option \<times> string option" where
  "same_finding f = (fg_code f, fg_severity f, fg_message f, fg_path f, fg_identifier f, fg_related f)"

text \<open>\<open>_deduplicate\<close>: a finding is its marker, so equal markers are equal findings.\<close>

definition deduplicate :: "integration_finding list \<Rightarrow> integration_finding list" where
  "deduplicate fs = uniq fs"

lemma same_finding_eq: "same_finding f = same_finding g \<longleftrightarrow> f = g"
  by (cases f; cases g) (simp add: same_finding_def)

definition count_severity :: "finding_severity \<Rightarrow> integration_finding list \<Rightarrow> int" where
  "count_severity sev fs = int (length (filter (\<lambda>f. fg_severity f = sev) fs))"

definition verify_metrics :: "change_intent \<Rightarrow> change_manifest \<Rightarrow> integration_finding list \<Rightarrow> metadata" where
  "verify_metrics i m fs =
     [(''changed_files'', JInt (int (length (mf_files m)))), (''changed_regions'', JInt (int (length (mf_regions m)))),
      (''observed_artifacts'', JInt (int (length (mf_artifacts m)))),
      (''observed_accesses'', JInt (int (length (mf_accesses m)))),
      (''acceptance_commands'', JInt (int (length (mf_results m)))),
      (''errors'', JInt (count_severity SEV_ERROR fs)), (''warnings'', JInt (count_severity SEV_WARNING fs)),
      (''declared_operations'', JInt (int (length (ci_operations i))))]"

text \<open>The findings in the order in which they are appended.\<close>

definition verify_findings ::
  "change_intent \<Rightarrow> change_manifest \<Rightarrow> change_intent list \<Rightarrow> metadata list \<Rightarrow> verify_error + integration_finding list" where
  "verify_findings i m active deps =
     res_bind (case verify_semantic_mode i of Inl e \<Rightarrow> Inl (VerifyEval e) | Inr fs \<Rightarrow> Inr fs) (\<lambda>mode.
     res_bind (verify_snapshot m) (\<lambda>snapshot.
     Inr (verify_identity i m @ mode @ concat (map dependency_finding deps)
       @ undeclared_changes i m @ missing_changes i m @ verify_regions i m
       @ concat (map (verify_contract m) (mutating_operations i))
       @ concat (map (verify_semantic (declared_semantic i)) (mf_artifacts m))
       @ concat (map (verify_preserve m) (ci_preserves i))
       @ concat (map (verify_access i) (mf_accesses m))
       @ snapshot
       @ concat (map (verify_command m) (ci_acceptance i))
       @ verify_collisions i m active)))"

definition verify ::
  "change_intent \<Rightarrow> change_manifest \<Rightarrow> change_intent list \<Rightarrow> metadata list \<Rightarrow> verify_error + integration_report" where
  "verify i m active deps = res_bind (verify_findings i m active deps) (\<lambda>fs.
     Inr \<lparr>rep_intent = ci_intent_id i, rep_findings = deduplicate fs, rep_metrics = verify_metrics i m fs\<rparr>)"


section \<open>A batch of manifests\<close>

text \<open>\<open>{key(x): x for x in xs}\<close>, with the keys in the order of their first use.\<close>

definition by_key :: "('a \<Rightarrow> string) \<Rightarrow> 'a list \<Rightarrow> (string \<times> 'a) list" where
  "by_key key xs = fold (\<lambda>x m. AList.update (key x) x m) xs []"

definition missing_manifest :: "string \<Rightarrow> integration_report" where
  "missing_manifest iid = \<lparr>rep_intent = iid,
     rep_findings = [error_of UNKNOWN_INTENT (''No change manifest was supplied for '' @ iid @ ''.'') None None None],
     rep_metrics = [(''errors'', JInt 1)]\<rparr>"

definition first_report ::
  "change_intent list \<Rightarrow> (string \<times> change_manifest) list \<Rightarrow> (string \<Rightarrow> metadata list) \<Rightarrow> string \<times> change_intent
   \<Rightarrow> verify_error + string \<times> integration_report" where
  "first_report active manifests deps p =
     (case map_of manifests (fst p) of
        None \<Rightarrow> Inr (fst p, missing_manifest (fst p))
      | Some m \<Rightarrow> res_bind (verify (snd p) m active (deps (fst p))) (\<lambda>r. Inr (fst p, r)))"

definition hunks_disjoint :: "change_manifest \<Rightarrow> change_manifest \<Rightarrow> string \<Rightarrow> bool" where
  "hunks_disjoint a b p =
     (let ra = hunks_of a p; rb = hunks_of b p
      in ra \<noteq> [] \<and> rb \<noteq> []
         \<and> list_all (\<lambda>x. list_all (\<lambda>y. \<not> region_overlaps x (hn_start y) (hn_end y)) rb) ra)"

text \<open>Every pair of different positions of a list, the earlier one first.\<close>

fun later_pairs :: "'a list \<Rightarrow> ('a \<times> 'a) list" where
  "later_pairs [] = []"
| "later_pairs (x # xs) = map (Pair x) xs @ later_pairs xs"

text \<open>The extra findings of a batch, each with the intent it is reported for.\<close>

definition overlap_extras ::
  "(string \<times> change_manifest) \<times> (string \<times> change_manifest) \<Rightarrow> (string \<times> integration_finding) list" where
  "overlap_extras pq =
     (case pq of ((lid, l), (rid, r)) \<Rightarrow>
       concat (map (\<lambda>p.
         if hunks_disjoint l r p then []
         else
           let message = ''Manifests '' @ lid @ '' and '' @ rid @ '' changed overlapping hunks in '' @ p @ ''.''
           in [(lid, error_of CROSS_INTENT_COLLISION message (Some p) None (Some rid)),
               (rid, error_of CROSS_INTENT_COLLISION message (Some p) None (Some lid))])
         (sorted_set (filter (\<lambda>p. p \<in> set (mf_files r)) (mf_files l)))))"

definition read_extras ::
  "(string \<times> change_intent) list \<Rightarrow> (string \<times> change_manifest) list \<Rightarrow> string \<times> change_manifest
   \<Rightarrow> (string \<times> integration_finding) list" where
  "read_extras intents manifests c =
     (case map_of intents (fst c) of
        None \<Rightarrow> []
      | Some i \<Rightarrow> concat (map (\<lambda>a.
          let p = rr_key (oa_resource a)
          in if oa_mode a \<noteq> A_READ \<or> \<not> path_kind (rr_kind (oa_resource a)) then []
             else concat (map (\<lambda>(pid, m).
               if pid = fst c \<or> p \<notin> set (mf_files m) \<or> pid \<in> set (ci_dependencies i) then []
               else [(fst c, error_of OBSERVED_DEPENDENCY_MISSING
                 (''Observed read of '' @ p @ '' depends on concurrent writer '' @ pid @ '', but no dependency was declared.'')
                 (Some p) None (Some pid))]) manifests))
          (mf_accesses (snd c))))"

definition all_contracts :: "(string \<times> change_manifest) list \<Rightarrow> ((string \<times> string) \<times> string \<times> string option \<times> string) list" where
  "all_contracts manifests =
     concat (map (\<lambda>(_, m). map (\<lambda>a. (artifact_slot a, mf_intent m, art_signature a, art_path a)) (contracts_of m)) manifests)"

definition contract_extras ::
  "((string \<times> string) \<times> string \<times> string option \<times> string) list \<Rightarrow> string \<times> string \<Rightarrow> (string \<times> integration_finding) list" where
  "contract_extras entries slot =
     (let mine = map snd (filter (\<lambda>e. fst e = slot) entries);
          sigs = sorted_set (List.map_filter (\<lambda>e. plain_signature (fst (snd e))) mine)
      in if length sigs \<le> 1 then []
         else map (\<lambda>(iid, sig, p). (iid, error_of CONTRACT_MISMATCH
            (''Integrated contract '' @ pair_text slot @ '' has incompatible signatures: '' @ list_text sigs @ ''.'')
            (Some p) sig None)) mine)"

definition batch_extras ::
  "(string \<times> change_intent) list \<Rightarrow> (string \<times> change_manifest) list \<Rightarrow> (string \<times> integration_finding) list" where
  "batch_extras intents manifests =
     (let entries = all_contracts manifests
      in concat (map overlap_extras (later_pairs manifests))
         @ concat (map (read_extras intents manifests) manifests)
         @ concat (map (contract_extras entries) (uniq (map fst entries))))"

text \<open>The report of an intent with its extra findings; an intent without a report is a \<open>KeyError\<close>.\<close>

definition extended_report :: "integration_report \<Rightarrow> integration_finding list \<Rightarrow> integration_report" where
  "extended_report r extra =
     (let fs = deduplicate (rep_findings r @ extra)
      in r\<lparr>rep_findings := fs,
           rep_metrics := jset ''warnings'' (JInt (count_severity SEV_WARNING fs))
             (jset ''errors'' (JInt (count_severity SEV_ERROR fs)) (rep_metrics r))\<rparr>)"

definition extend_reports ::
  "(string \<times> integration_finding) list \<Rightarrow> (string \<times> integration_report) list
   \<Rightarrow> verify_error + (string \<times> integration_report) list" where
  "extend_reports extras reports =
     (case filter (\<lambda>k. k \<notin> set (map fst reports)) (uniq (map fst extras)) of
        k # _ \<Rightarrow> Inl (UnknownReport k)
      | [] \<Rightarrow> Inr (map (\<lambda>(k, r).
          let mine = map snd (filter (\<lambda>e. fst e = k) extras)
          in (k, if mine = [] then r else extended_report r mine)) reports))"

definition verify_batch ::
  "change_intent list \<Rightarrow> change_manifest list \<Rightarrow> (string \<Rightarrow> metadata list)
   \<Rightarrow> verify_error + (string \<times> integration_report) list" where
  "verify_batch intents manifests deps =
     (let imap = by_key ci_intent_id intents; mmap = by_key mf_intent manifests
      in res_bind (res_map (first_report (map snd imap) mmap deps) imap)
           (extend_reports (batch_extras imap mmap)))"

end
