(* ===== verification/Repair.thy ===== *)
theory Repair
  imports Verifier "HOL-Library.Product_Lexorder"
begin

text \<open>
  What follows from a verdict: the targeted repair plan of a report (\<open>integration/repair.py\<close>) and
  the worker tier recommended for an intent (\<open>routing/policy.py\<close>).
\<close>


section \<open>Repair plans\<close>

definition opt_item :: "string option \<Rightarrow> string list" where
  "opt_item v = (if str_or v [] = [] then [] else [str_or v []])"

definition repair_action_of ::
  "repair_kind \<Rightarrow> string \<Rightarrow> string list \<Rightarrow> string list \<Rightarrow> string list \<Rightarrow> int \<Rightarrow> repair_action" where
  "repair_action_of kind instruction paths idents related priority =
     \<lparr>rac_kind = kind, rac_instruction = instruction, rac_paths = paths, rac_identifiers = idents,
      rac_related = related, rac_priority = priority\<rparr>"

text \<open>\<open>f"{value}"\<close> of an optional string.\<close>

definition show_opt :: "string option \<Rightarrow> string" where
  "show_opt v = (case v of None \<Rightarrow> ''None'' | Some s \<Rightarrow> s)"

definition repair_for :: "integration_finding \<Rightarrow> repair_action" where
  "repair_for f =
     (let path = opt_item (fg_path f); ident = opt_item (fg_identifier f); related = opt_item (fg_related f)
      in case fg_code f of
          UNDECLARED_CHANGE \<Rightarrow> repair_action_of REDECLARE_SCOPE
            (''Revert '' @ show_opt (fg_path f) @ '' or amend the intent before continuing.'') path [] [] 10
        | REGION_VIOLATION \<Rightarrow> repair_action_of REPAIR_REGION
            ''Move the edit back into the admitted region or submit an amended bounded region.'' path [] [] 8
        | CONTRACT_MISMATCH \<Rightarrow> repair_action_of ALIGN_CONTRACT
            ''Align implementation with the admitted concept-bound signature; amend first if the contract itself must change.''
            path ident [] 5
        | CONTRACT_MISSING \<Rightarrow> repair_action_of ADD_MISSING_ARTIFACT
            ''Implement the declared contract or amend the intent to make it optional.'' [] ident [] 20
        | STALE_BASE \<Rightarrow> repair_action_of PIN_BASE
            ''Pin the exact base commit, rebase onto it, and request re-admission if contracts or regions changed.'' [] [] [] 1
        | UNDECLARED_READ \<Rightarrow> repair_action_of DECLARE_READ
            ''Declare the observed read premise and its producer dependency, then re-admit before continuing.'' path [] related 2
        | OBSERVED_DEPENDENCY_MISSING \<Rightarrow> repair_action_of DECLARE_READ
            ''Declare the observed read premise and its producer dependency, then re-admit before continuing.'' path [] related 2
        | DEPENDENCY_MISSING \<Rightarrow> repair_action_of REFRESH_DEPENDENCY
            ''Refresh the producer premise, amend the consumer intent, and re-admit before resuming.'' [] [] related 2
        | DEPENDENCY_STALE \<Rightarrow> repair_action_of REFRESH_DEPENDENCY
            ''Refresh the producer premise, amend the consumer intent, and re-admit before resuming.'' [] [] related 2
        | CROSS_INTENT_COLLISION \<Rightarrow> repair_action_of REPAIR_SERIALIZE
            ''Stop overlapping writers, split the concrete surface or publish a shared concept-bound contract, then re-admit.''
            path ident related 3
        | SNAPSHOT_MUTATION \<Rightarrow> repair_action_of RERUN_ACCEPTANCE
            ''Revert acceptance-command mutations, then re-freeze and verify the worker snapshot.'' path [] [] 1
        | ACCEPTANCE_FAILED \<Rightarrow> repair_action_of RERUN_ACCEPTANCE
            ''Fix the failing acceptance command and rerun verification with --run-acceptance.'' [] ident [] 15
        | MISSING_DECLARED_CHANGE \<Rightarrow> repair_action_of ADD_MISSING_ARTIFACT
            ''Complete the required declared change or amend the intent to remove it.'' path [] [] 30
        | _ \<Rightarrow> repair_action_of HUMAN_REVIEW (fg_message f) path ident related 50)"

text \<open>Everything of an action but its priority.\<close>

definition action_marker :: "repair_action \<Rightarrow> repair_kind \<times> string \<times> string list \<times> string list \<times> string list" where
  "action_marker a = (rac_kind a, rac_instruction a, rac_paths a, rac_identifiers a, rac_related a)"

text \<open>\<open>unique.setdefault(marker, action)\<close>: the first action of a marker stays.\<close>

fun unique_actions :: "repair_action list \<Rightarrow> repair_action list \<Rightarrow> repair_action list" where
  "unique_actions seen [] = rev seen"
| "unique_actions seen (a # as) =
     unique_actions (if action_marker a \<in> action_marker ` set seen then seen else a # seen) as"

definition action_key :: "repair_action \<Rightarrow> int \<times> string" where
  "action_key a = (rac_priority a, repair_kind_value (rac_kind a))"

definition build_repair_plan :: "integration_report \<Rightarrow> repair_plan" where
  "build_repair_plan r =
     \<lparr>rpl_intent = rep_intent r,
      rpl_actions = sort_key action_key (unique_actions [] (map repair_for (rep_findings r))),
      rpl_rerun = [''claim-plane verify-git'']\<rparr>"

lemma unique_actions_set:
  "action_marker ` set (unique_actions seen as) = action_marker ` set (seen @ as)"
  by (induction seen as rule: unique_actions.induct) auto

lemma unique_actions_sub: "set (unique_actions seen as) \<subseteq> set (seen @ as)"
  by (induction seen as rule: unique_actions.induct) (auto split: if_splits)

lemma unique_actions_distinct:
  "distinct (map action_marker seen) \<Longrightarrow> distinct (map action_marker (unique_actions seen as))"
  by (induction seen as rule: unique_actions.induct) (auto simp: rev_map [symmetric])

text \<open>Two findings with the same marker of their action also have the same priority.\<close>

lemma priority_of_marker:
  "rac_priority (repair_for f) = (case rac_kind (repair_for f) of
       REDECLARE_SCOPE \<Rightarrow> 10 | REPAIR_REGION \<Rightarrow> 8 | ALIGN_CONTRACT \<Rightarrow> 5 | PIN_BASE \<Rightarrow> 1 | DECLARE_READ \<Rightarrow> 2
     | REFRESH_DEPENDENCY \<Rightarrow> 2 | REPAIR_SERIALIZE \<Rightarrow> 3
     | ADD_MISSING_ARTIFACT \<Rightarrow> (if hd (rac_instruction (repair_for f)) = CHR ''I'' then 20 else 30)
     | RERUN_ACCEPTANCE \<Rightarrow> (if hd (rac_instruction (repair_for f)) = CHR ''R'' then 1 else 15)
     | _ \<Rightarrow> 50)"
  by (cases "fg_code f") (simp_all add: repair_for_def repair_action_of_def Let_def)

lemma repair_priority:
  assumes "action_marker (repair_for f) = action_marker (repair_for g)"
  shows "repair_for f = repair_for g"
proof -
  have "rac_priority (repair_for f) = rac_priority (repair_for g)"
    using assms unfolding priority_of_marker [of f] priority_of_marker [of g] by (simp add: action_marker_def)
  with assms show ?thesis by (cases "repair_for f"; cases "repair_for g") (simp add: action_marker_def)
qed


section \<open>Worker tiers\<close>

definition tier_of :: "int \<Rightarrow> worker_tier \<times> worker_tier option" where
  "tier_of score = (if 6 \<le> score then (FRONTIER, None)
     else if 3 \<le> score then (STANDARD, Some FRONTIER) else (ECONOMY, Some STANDARD))"

text \<open>The contributions to the score, each with its reason.\<close>

definition tier_points :: "change_intent \<Rightarrow> int \<Rightarrow> (int \<times> string) list" where
  "tier_points i overlaps =
     (let n = length (ci_operations i);
          contracts = length (filter (\<lambda>op. rr_kind (op_resource op) = K_CONTRACT \<and> op_mutating op) (ci_operations i));
          destructive = length (filter (\<lambda>op. mode_destructive (op_access op)) (ci_operations i))
      in (if 8 \<le> n then [(3, ''large declared change surface'')]
          else if 4 \<le> n then [(1, ''moderate declared change surface'')] else [])
         @ (if contracts \<noteq> 0 then [(min 4 (int contracts * 2), nat_str contracts @ '' mutating public contract(s)'')] else [])
         @ (if destructive \<noteq> 0 then [(int destructive * 4, ''destructive rename/delete operation'')] else [])
         @ (if overlaps \<noteq> 0 then [(min 4 (overlaps * 2), int_str overlaps @ '' active overlap(s)'')] else [])
         @ (if ci_acceptance i = [] then [(2, ''no machine-checkable acceptance criteria'')] else [])
         @ (if ci_preserves i = [] then [(1, ''no explicit preserved invariants'')] else [])
         @ (if truthy (jget (ci_metadata i) ''security_sensitive'') then [(5, ''security-sensitive task'')] else [])
         @ (if truthy (jget (ci_metadata i) ''migration'') then [(3, ''data/schema migration'')] else []))"

definition recommend_worker_tier :: "change_intent \<Rightarrow> int \<Rightarrow> route_recommendation" where
  "recommend_worker_tier i overlaps =
     (let points = tier_points i overlaps; score = sum_list (map fst points); tier = tier_of score
      in \<lparr>rt_tier = fst tier, rt_risk_score = score,
          rt_reasons = (if fst tier = ECONOMY \<and> points = []
            then [''small bounded task with explicit write surface''] else map snd points),
          rt_fallback_tier = snd tier\<rparr>)"

end
