(* ===== verification/VerifierLaws.thy ===== *)
theory VerifierLaws
  imports Repair
begin

text \<open>
  What a clean report is worth: the manifest belongs to the admitted intent and its base, every
  changed file and every hunk lies inside the admitted write surface, no premise is stale, and
  nothing that was run failed. In a batch, the clean workers have not touched each other's lines,
  contracts or inputs.
\<close>


section \<open>Findings without errors\<close>

definition error_free :: "integration_finding list \<Rightarrow> bool" where
  "error_free fs \<longleftrightarrow> (\<forall>f \<in> set fs. fg_severity f \<noteq> SEV_ERROR)"

lemma error_free_simps [simp]:
  "error_free []"
  "error_free (f # fs) \<longleftrightarrow> fg_severity f \<noteq> SEV_ERROR \<and> error_free fs"
  "error_free (fs @ gs) \<longleftrightarrow> error_free fs \<and> error_free gs"
  "error_free (concat fss) \<longleftrightarrow> (\<forall>fs \<in> set fss. error_free fs)"
  "error_free (deduplicate fs) \<longleftrightarrow> error_free fs"
  by (auto simp: error_free_def deduplicate_def)

lemma finding_of_severity [simp]: "fg_severity (finding_of cd sev msg p ident related) = sev"
  by (simp add: finding_of_def)

lemma error_free_map_error [simp]:
  "error_free (map (\<lambda>x. finding_of (c x) SEV_ERROR (t x) (p x) (n x) (r x)) xs) \<longleftrightarrow> xs = []"
  by (cases xs) (auto simp: error_free_def)

lemma report_clean_iff: "report_clean r \<longleftrightarrow> error_free (rep_findings r)"
  by (auto simp: report_clean_def error_free_def list_ex_iff)

text \<open>A clean report has no error in any of the checks.\<close>

lemma clean_checks:
  assumes "verify i m active deps = Inr rep" and "report_clean rep"
  shows "error_free (verify_identity i m)" "error_free (concat (map dependency_finding deps))"
    "error_free (undeclared_changes i m)" "error_free (missing_changes i m)" "error_free (verify_regions i m)"
    "error_free (concat (map (verify_contract m) (mutating_operations i)))"
    "error_free (concat (map (verify_preserve m) (ci_preserves i)))"
    "error_free (concat (map (verify_access i) (mf_accesses m)))"
    "error_free (concat (map (verify_command m) (ci_acceptance i)))"
    "error_free (verify_collisions i m active)"
  using assms
  by (auto simp: verify_def verify_findings_def res_bind_eq_Inr report_clean_iff simp del: concat_map_singleton)


section \<open>What each check proves\<close>

lemma clean_identity:
  assumes "error_free (verify_identity i m)"
  shows "mf_intent m = ci_intent_id i" "mf_owner m = ci_owner i" "\<not> base_stale i m"
  using assms by (auto simp: verify_identity_def split: if_splits)

lemma clean_dependencies:
  assumes "error_free (concat (map dependency_finding deps))" and "r \<in> set deps"
  shows "get_str r ''status'' \<noteq> ''missing''" "get_str r ''status'' \<noteq> ''stale''"
proof -
  have "error_free (dependency_finding r)" using assms by auto
  then show "get_str r ''status'' \<noteq> ''missing''" "get_str r ''status'' \<noteq> ''stale''"
    by (auto simp: dependency_finding_def Let_def split: if_splits)
qed

lemma path_writes_iff:
  "op \<in> set (path_writes i) \<longleftrightarrow> op \<in> set (committed_operations i) \<and> op_mutating op \<and> path_kind (rr_kind (op_resource op))"
  by (auto simp: path_writes_def mutating_operations_def)

lemma covers_path_kind: "covers_path r p \<Longrightarrow> path_kind (rr_kind r)"
  by (auto simp: covers_path_def split: if_splits)

lemma clean_surface:
  assumes "error_free (undeclared_changes i m)" and "p \<in> set (mf_files m)"
  shows "declares_path i p"
  using assms by (auto simp: undeclared_changes_def filter_empty_conv)

lemma clean_required:
  assumes "error_free (missing_changes i m)" and "op \<in> set (path_writes i)"
    and "op_required op" and "\<not> is_pattern (op_resource op)"
  shows "\<exists>p \<in> set (mf_files m). covers_path (op_resource op) p"
  using assms by (auto simp: missing_changes_def missing_change_def filter_empty_conv list_ex_iff)

lemma region_finding_clean:
  "error_free (region_finding m region allowed p) \<longleftrightarrow> hunks_of m p \<noteq> []
     \<and> (\<forall>h \<in> set (hunks_of m p). int (fst allowed) \<le> hn_start h \<and> hn_end h \<le> int (snd allowed))"
  by (auto simp: region_finding_def Let_def filter_empty_conv not_less)

lemma clean_regions:
  assumes "error_free (verify_regions i m)" and "op \<in> set (path_writes i)"
    and "rr_region (op_resource op) = Some s" and "s \<noteq> []"
    and "p \<in> set (mf_files m)" and "covers_path (op_resource op) p"
  obtains lo hi where "parse_line_region s = Some (lo, hi)" "hunks_of m p \<noteq> []"
    "\<And>h. h \<in> set (hunks_of m p) \<Longrightarrow> int lo \<le> hn_start h \<and> hn_end h \<le> int hi"
proof -
  have region: "has_region op" "str_or (rr_region (op_resource op)) [] = s"
    using assms(3,4) by (simp_all add: has_region_def str_or_def)
  have "error_free (verify_region m op)"
    using assms(1,2) region(1) by (auto simp: verify_regions_def)
  then obtain allowed where a: "parse_line_region s = Some allowed"
      "\<forall>q \<in> set (mf_files m). covers_path (op_resource op) q \<longrightarrow> error_free (region_finding m s allowed q)"
    by (auto simp: verify_region_def Let_def region split: option.splits)
  then have "error_free (region_finding m s allowed p)" using assms(5,6) by blast
  then show ?thesis using that [of "fst allowed" "snd allowed"] a(1) by (simp add: region_finding_clean)
qed

lemma clean_commands:
  assumes "error_free (concat (map (verify_command m) (ci_acceptance i)))"
    and "c \<in> set (ci_acceptance i)" and "result_of m c = Some r"
  shows "tr_code r = 0"
proof -
  have "error_free (verify_command m c)" using assms(1,2) by auto
  then show ?thesis using assms(3) by (auto simp: verify_command_def Let_def result_passed_def split: if_splits)
qed

lemma clean_accesses:
  assumes "error_free (concat (map (verify_access i) (mf_accesses m)))"
    and "a \<in> set (mf_accesses m)" and "oa_mode a \<noteq> A_READ"
  shows "access_declared (oa_resource a) (mutating_operations i)"
proof -
  have "error_free (verify_access i a)" using assms(1,2) by auto
  then show ?thesis using assms(3) by (auto simp: verify_access_def Let_def split: if_splits)
qed


section \<open>A clean report\<close>

text \<open>
  C3: what a clean report proves. The manifest belongs to the intent and its base; every changed
  file is covered by a committed write; every hunk of a file whose write declares a region lies
  inside that region, and there is such evidence; every required file was changed; no premise is
  missing or stale; every tool write was declared; and no acceptance command failed.
\<close>
theorem clean_report_sound:
  assumes "verify i m active deps = Inr rep" and "report_clean rep"
  shows "mf_intent m = ci_intent_id i \<and> mf_owner m = ci_owner i \<and> \<not> base_stale i m
    \<and> (\<forall>p \<in> set (mf_files m). \<exists>op \<in> set (committed_operations i).
          op_mutating op \<and> covers_path (op_resource op) p)
    \<and> (\<forall>op \<in> set (path_writes i). \<forall>p \<in> set (mf_files m). covers_path (op_resource op) p \<longrightarrow> has_region op \<longrightarrow>
          (\<exists>lo hi. parse_line_region (the (rr_region (op_resource op))) = Some (lo, hi) \<and> hunks_of m p \<noteq> []
             \<and> (\<forall>h \<in> set (hunks_of m p). int lo \<le> hn_start h \<and> hn_end h \<le> int hi)))
    \<and> (\<forall>op \<in> set (path_writes i). op_required op \<longrightarrow> \<not> is_pattern (op_resource op) \<longrightarrow>
          (\<exists>p \<in> set (mf_files m). covers_path (op_resource op) p))
    \<and> (\<forall>r \<in> set deps. get_str r ''status'' \<notin> {''missing'', ''stale''})
    \<and> (\<forall>a \<in> set (mf_accesses m). oa_mode a \<noteq> A_READ \<longrightarrow> access_declared (oa_resource a) (mutating_operations i))
    \<and> (\<forall>c \<in> set (ci_acceptance i). \<forall>r. result_of m c = Some r \<longrightarrow> result_passed r)"
proof -
  note C = clean_checks [OF assms]
  have surface: "\<exists>op \<in> set (committed_operations i). op_mutating op \<and> covers_path (op_resource op) p"
    if "p \<in> set (mf_files m)" for p
    using clean_surface [OF C(3) that] by (auto simp: declares_path_def list_ex_iff path_writes_iff)
  have hunks: "\<exists>lo hi. parse_line_region (the (rr_region (op_resource op))) = Some (lo, hi) \<and> hunks_of m p \<noteq> []
      \<and> (\<forall>h \<in> set (hunks_of m p). int lo \<le> hn_start h \<and> hn_end h \<le> int hi)"
    if op: "op \<in> set (path_writes i)" "p \<in> set (mf_files m)" "covers_path (op_resource op) p" "has_region op" for op p
  proof -
    from op(4) obtain s where s: "rr_region (op_resource op) = Some s" "s \<noteq> []"
      by (auto simp: has_region_def str_or_def split: option.splits if_splits)
    obtain lo hi where "parse_line_region s = Some (lo, hi)" "hunks_of m p \<noteq> []"
      "\<And>h. h \<in> set (hunks_of m p) \<Longrightarrow> int lo \<le> hn_start h \<and> hn_end h \<le> int hi"
      using clean_regions [OF C(5) op(1) s op(2,3)] by blast
    with s(1) show ?thesis by auto
  qed
  show ?thesis
    using clean_identity [OF C(1)] surface hunks clean_required [OF C(4)] clean_dependencies [OF C(2)]
      clean_accesses [OF C(8)] clean_commands [OF C(9)]
    by (simp add: result_passed_def)
qed


section \<open>Batches\<close>

lemma extended_clean:
  "report_clean (if es = [] then r else extended_report r es) \<longleftrightarrow> error_free (rep_findings r @ es)"
  by (simp add: report_clean_iff extended_report_def Let_def)

lemma batch_clean_extras:
  assumes "verify_batch intents manifests deps = Inr reports" and "map_of reports k = Some r" and "report_clean r"
    and "(k, f) \<in> set (batch_extras (by_key ci_intent_id intents) (by_key mf_intent manifests))"
  shows "fg_severity f \<noteq> SEV_ERROR"
proof -
  let ?extras = "batch_extras (by_key ci_intent_id intents) (by_key mf_intent manifests)"
  obtain rs where rs: "extend_reports ?extras rs = Inr reports"
    using assms(1) by (auto simp: verify_batch_def Let_def res_bind_eq_Inr)
  let ?f = "\<lambda>k r. let mine = map snd (filter (\<lambda>e. fst e = k) ?extras)
    in if mine = [] then r else extended_report r mine"
  have "reports = map (\<lambda>(k, r). (k, ?f k r)) rs"
    using rs by (auto simp: extend_reports_def Let_def split: list.splits)
  then have "(k, r) \<in> set (map (\<lambda>(k, r). (k, ?f k r)) rs)" using map_of_SomeD [OF assms(2)] by simp
  then obtain r0 where "r = ?f k r0" by auto
  with assms(3) have "error_free (map snd (filter (\<lambda>e. fst e = k) ?extras))"
    unfolding Let_def by (simp only: extended_clean error_free_simps)
  with assms(4) show ?thesis by (force simp: error_free_def)
qed

lemma by_key_key: "(k, x) \<in> set (by_key f xs) \<Longrightarrow> f x = k"
proof -
  have "\<forall>(k, x) \<in> set (fold (\<lambda>x m. AList.update (f x) x m) xs m). f x = k" if "\<forall>(k, x) \<in> set m. f x = k" for m
    using that
  proof (induction xs arbitrary: m)
    case (Cons y ys)
    have "set (AList.update (f y) y m) \<subseteq> insert (f y, y) (set m)" by (induction m) auto
    with Cons.prems have "\<forall>(k, x) \<in> set (AList.update (f y) y m). f x = k" by blast
    with Cons.IH show ?case by simp
  qed simp
  from this [of "[]"] show "(k, x) \<in> set (by_key f xs) \<Longrightarrow> f x = k" by (auto simp: by_key_def)
qed

lemma later_pairs_either:
  "x \<in> set xs \<Longrightarrow> y \<in> set xs \<Longrightarrow> x \<noteq> y \<Longrightarrow> (x, y) \<in> set (later_pairs xs) \<or> (y, x) \<in> set (later_pairs xs)"
  by (induction xs) auto

lemma region_overlaps_sym: "region_overlaps a (hn_start b) (hn_end b) = region_overlaps b (hn_start a) (hn_end a)"
  by (auto simp: region_overlaps_def)

lemma hunks_disjoint_sym: "hunks_disjoint a b p = hunks_disjoint b a p"
  unfolding hunks_disjoint_def Let_def list_all_iff using region_overlaps_sym by blast

lemma overlap_extra:
  assumes "\<not> hunks_disjoint l r p" and "p \<in> set (mf_files l)" and "p \<in> set (mf_files r)"
  shows "\<exists>f. fg_severity f = SEV_ERROR \<and> (lid, f) \<in> set (overlap_extras ((lid, l), (rid, r)))"
    and "\<exists>f. fg_severity f = SEV_ERROR \<and> (rid, f) \<in> set (overlap_extras ((lid, l), (rid, r)))"
  using assms by (force simp: overlap_extras_def Let_def)+

lemma batch_overlap:
  "pq \<in> set (later_pairs manifests) \<Longrightarrow> e \<in> set (overlap_extras pq) \<Longrightarrow> e \<in> set (batch_extras intents manifests)"
  unfolding batch_extras_def Let_def by auto

lemma batch_read:
  "c \<in> set manifests \<Longrightarrow> e \<in> set (read_extras intents manifests c) \<Longrightarrow> e \<in> set (batch_extras intents manifests)"
  unfolding batch_extras_def Let_def by auto

lemma batch_contract:
  "x \<in> set (all_contracts manifests) \<Longrightarrow> e \<in> set (contract_extras (all_contracts manifests) (fst x))
   \<Longrightarrow> e \<in> set (batch_extras intents manifests)"
  unfolding batch_extras_def Let_def by auto

lemma all_contracts_in:
  "(k, m) \<in> set manifests \<Longrightarrow> c \<in> set (contracts_of m)
   \<Longrightarrow> (artifact_slot c, mf_intent m, art_signature c, art_path c) \<in> set (all_contracts manifests)"
  unfolding all_contracts_def set_concat set_map by (rule UnionI, rule imageI, rule imageI, assumption) simp

lemma read_extra:
  assumes "map_of intents k = Some i" and "a \<in> set (mf_accesses m)" and "oa_mode a = A_READ"
    and "path_kind (rr_kind (oa_resource a))" and "(pid, n) \<in> set manifests" and "pid \<noteq> k"
    and "rr_key (oa_resource a) \<in> set (mf_files n)" and "pid \<notin> set (ci_dependencies i)"
  shows "\<exists>f. fg_severity f = SEV_ERROR \<and> (k, f) \<in> set (read_extras intents manifests (k, m))"
proof -
  let ?f = "error_of OBSERVED_DEPENDENCY_MISSING
    (''Observed read of '' @ rr_key (oa_resource a) @ '' depends on concurrent writer '' @ pid
     @ '', but no dependency was declared.'') (Some (rr_key (oa_resource a))) None (Some pid)"
  have "(k, ?f) \<in> set (read_extras intents manifests (k, m))"
    unfolding read_extras_def fst_conv snd_conv assms(1) option.case Let_def set_concat set_map
    by (rule UnionI, rule imageI, rule imageI, rule assms(2))
      (use assms(3-8) in \<open>auto intro!: bexI [of _ "(pid, n)"]\<close>)
  then show ?thesis by (metis finding_of_severity)
qed

lemma sorted_set_set [simp]: "set (sorted_set xs) = set xs"
  by (simp add: sorted_set_def)

lemma contract_extra:
  assumes "(slot, k, sig, p) \<in> set entries" and "plain_signature sig = Some x"
    and "(slot, l, sig', p') \<in> set entries" and "plain_signature sig' = Some y" and "x \<noteq> y"
  shows "\<exists>f. fg_severity f = SEV_ERROR \<and> (k, f) \<in> set (contract_extras entries slot)"
proof -
  let ?mine = "map snd (filter (\<lambda>e. fst e = slot) entries)"
  let ?sigs = "sorted_set (List.map_filter (\<lambda>e. plain_signature (fst (snd e))) ?mine)"
  have mine: "(k, sig, p) \<in> set ?mine" "(l, sig', p') \<in> set ?mine" using assms(1,3) by force+
  then have "{x, y} \<subseteq> set ?sigs" using assms(2,4) by (force simp: map_filter_def)
  then have "card {x, y} \<le> length ?sigs" by (meson List.finite_set card_length card_mono le_trans)
  then have "\<not> length ?sigs \<le> 1" using assms(5) by simp
  then show ?thesis using mine(1) unfolding contract_extras_def Let_def by (force simp del: One_nat_def)
qed

text \<open>
  C4: when the reports of two different workers of one batch are clean, the workers did not get
  in each other's way: in every file that both changed there is hunk evidence of both and no hunk
  of one meets a hunk of the other; a file that one read and the other changed comes from a
  declared dependency; and contracts that both publish under one subject and name have the same
  signature.
\<close>
theorem clean_batch_separates:
  assumes "verify_batch intents manifests deps = Inr reports"
    and "map_of reports k = Some r" and "report_clean r" and "map_of reports l = Some s" and "report_clean s"
    and "k \<noteq> l" and "(k, m) \<in> set (by_key mf_intent manifests)" and "(l, n) \<in> set (by_key mf_intent manifests)"
  shows "(\<forall>p \<in> set (mf_files m) \<inter> set (mf_files n). hunks_disjoint m n p)
    \<and> (\<forall>i a. map_of (by_key ci_intent_id intents) k = Some i \<longrightarrow> a \<in> set (mf_accesses m) \<longrightarrow> oa_mode a = A_READ
         \<longrightarrow> path_kind (rr_kind (oa_resource a)) \<longrightarrow> rr_key (oa_resource a) \<in> set (mf_files n) \<longrightarrow> l \<in> set (ci_dependencies i))
    \<and> (\<forall>c \<in> set (contracts_of m). \<forall>d \<in> set (contracts_of n). artifact_slot c = artifact_slot d
         \<longrightarrow> plain_signature (art_signature c) = None \<or> plain_signature (art_signature d) = None
           \<or> plain_signature (art_signature c) = plain_signature (art_signature d))"
proof -
  let ?im = "by_key ci_intent_id intents" and ?mm = "by_key mf_intent manifests"
  have clean: "fg_severity f \<noteq> SEV_ERROR" if "(k, f) \<in> set (batch_extras ?im ?mm)" for f
    using batch_clean_extras [OF assms(1-3) that] .
  have clean': "fg_severity f \<noteq> SEV_ERROR" if "(l, f) \<in> set (batch_extras ?im ?mm)" for f
    using batch_clean_extras [OF assms(1,4,5) that] .
  have hunks: "hunks_disjoint m n p" if "p \<in> set (mf_files m) \<inter> set (mf_files n)" for p
  proof (rule ccontr)
    assume meet: "\<not> hunks_disjoint m n p"
    have files: "p \<in> set (mf_files m)" "p \<in> set (mf_files n)" using that by simp_all
    have meet': "\<not> hunks_disjoint n m p" using meet hunks_disjoint_sym by simp
    have "((k, m), (l, n)) \<in> set (later_pairs ?mm) \<or> ((l, n), (k, m)) \<in> set (later_pairs ?mm)"
      using later_pairs_either [OF assms(7,8)] assms(6) by simp
    then show False
      using overlap_extra(1) [OF meet files, of k l] overlap_extra(2) [OF meet' files(2,1), of k l]
        batch_overlap clean by blast
  qed
  have reads: "l \<in> set (ci_dependencies i)"
    if rd: "map_of ?im k = Some i" "a \<in> set (mf_accesses m)" "oa_mode a = A_READ" "path_kind (rr_kind (oa_resource a))"
      "rr_key (oa_resource a) \<in> set (mf_files n)" for i a
  proof (rule ccontr)
    assume "l \<notin> set (ci_dependencies i)"
    then obtain f where "fg_severity f = SEV_ERROR" "(k, f) \<in> set (read_extras ?im ?mm (k, m))"
      using read_extra [OF rd(1-4) assms(8) _ rd(5)] assms(6) by auto
    with clean batch_read [OF assms(7)] show False by blast
  qed
  have contracts: "plain_signature (art_signature c) = None \<or> plain_signature (art_signature d) = None
      \<or> plain_signature (art_signature c) = plain_signature (art_signature d)"
    if "c \<in> set (contracts_of m)" "d \<in> set (contracts_of n)" "artifact_slot c = artifact_slot d" for c d
  proof (rule ccontr)
    assume "\<not> ?thesis"
    then obtain x y where xy: "plain_signature (art_signature c) = Some x" "plain_signature (art_signature d) = Some y" "x \<noteq> y"
      by auto
    let ?entries = "all_contracts ?mm"
    have keys: "mf_intent m = k" "mf_intent n = l" using by_key_key assms(7,8) by metis+
    have ents: "(artifact_slot c, k, art_signature c, art_path c) \<in> set ?entries"
      "(artifact_slot c, l, art_signature d, art_path d) \<in> set ?entries"
      using all_contracts_in [OF assms(7) that(1)] all_contracts_in [OF assms(8) that(2)] keys that(3) by simp_all
    obtain f where f: "fg_severity f = SEV_ERROR" "(k, f) \<in> set (contract_extras ?entries (artifact_slot c))"
      using contract_extra [OF ents(1) xy(1) ents(2) xy(2,3)] by blast
    with clean batch_contract [OF ents(1)] show False by auto
  qed
  show ?thesis using hunks reads contracts by blast
qed

end
