(* ===== verification/VerifierProps.thy ===== *)
theory VerifierProps
  imports VerifierLaws RegSamples
begin

text \<open>
  Admission and verification together: what the registry grants and the verifier confirms keeps
  the real changes of two workers apart. And two places where the verifier does not do what it
  means to: an intent with two regions of one file can never be verified, and a batch with a
  manifest of no intent fails as a whole.
\<close>


section \<open>Granted and verified changes do not meet\<close>

lemma parse_region_nonempty: "parse_line_region s = Some x \<Longrightarrow> s \<noteq> []"
proof
  assume "parse_line_region s = Some x" "s = []"
  moreover have "parse_line_region [] = None" by code_simp
  ultimately show False by simp
qed

text \<open>The write that covers a changed file of a clean report.\<close>

lemma clean_writer:
  assumes "verify i m active deps = Inr rep" and "report_clean rep" and "p \<in> set (mf_files m)"
  obtains op where "op \<in> set (path_writes i)" "covers_path (op_resource op) p"
  using clean_surface [OF clean_checks(3) [OF assms(1,2)] assms(3)] by (auto simp: declares_path_def list_ex_iff)

lemma clean_bounded:
  assumes "verify i m active deps = Inr rep" and "report_clean rep" and "p \<in> set (mf_files m)"
    and "op \<in> set (path_writes i)" and "covers_path (op_resource op) p"
    and "rr_region (op_resource op) = Some s" and "parse_line_region s = Some (lo, hi)"
  shows "hunks_of m p \<noteq> []" "\<And>h. h \<in> set (hunks_of m p) \<Longrightarrow> int lo \<le> hn_start h \<and> hn_end h \<le> int hi"
proof -
  obtain a b where "parse_line_region s = Some (a, b)" "hunks_of m p \<noteq> []"
    "\<And>h. h \<in> set (hunks_of m p) \<Longrightarrow> int a \<le> hn_start h \<and> hn_end h \<le> int b"
    using clean_regions [OF clean_checks(5) [OF assms(1,2)] assms(4,6) parse_region_nonempty [OF assms(7)] assms(3,5)]
    by blast
  with assms(7) show "hunks_of m p \<noteq> []"
    "\<And>h. h \<in> set (hunks_of m p) \<Longrightarrow> int lo \<le> hn_start h \<and> hn_end h \<le> int hi" by simp_all
qed

text \<open>
  C2: what is granted and verified is apart in the files. Take a run of the registry with the
  admission engine as the evaluator that respects the clocks (no lease lapses between the sweep
  and the query of one admission) and has no digest collision (an intent admitted again under
  its stored fingerprint has the stored base and operations). When two live intents in it have
  clean reports and both changed one file, and every write of theirs that covers the file is
  spelled in canonical form, then they start from one base, there is hunk evidence of both, and
  no changed line range of one meets a changed line range of the other.
\<close>
theorem clean_live_diffs_disjoint:
  assumes "reachable sha mac engine (orderly sha intent_surface) st"
    and "r \<in> set (rg_intents st)" and "live_state (ir_state r)"
    and "s \<in> set (rg_intents st)" and "live_state (ir_state s)" and "ir_id r \<noteq> ir_id s"
    and "verify (ir_payload r) m active deps = Inr rep" and "report_clean rep" and "p \<in> set (mf_files m)"
    and "verify (ir_payload s) n active' deps' = Inr rep'" and "report_clean rep'" and "p \<in> set (mf_files n)"
    and "\<forall>op \<in> set (path_writes (ir_payload r)) \<union> set (path_writes (ir_payload s)).
          covers_path (op_resource op) p \<longrightarrow> canonical_path (op_resource op)"
  shows "intent_base (ir_payload r) = intent_base (ir_payload s) \<and> hunks_disjoint m n p"
proof -
  obtain a where a: "a \<in> set (path_writes (ir_payload r))" "covers_path (op_resource a) p"
    using clean_writer [OF assms(7-9)] by blast
  obtain b where b: "b \<in> set (path_writes (ir_payload s))" "covers_path (op_resource b) p"
    using clean_writer [OF assms(10-12)] by blast
  have "separated (ir_payload r) (ir_payload s)"
    using gate.reachable_pairwise [OF assms(1)] assms(2-6) by (simp add: gate.pairwise_def live_row_def)
  moreover have "common_path a b" using a b assms(13) unfolding common_path_def by blast
  moreover have "a \<in> committed_writes (ir_payload r)" "b \<in> committed_writes (ir_payload s)"
    using a(1) b(1) by (auto simp: committed_writes_def path_writes_iff)
  ultimately have apart: "intent_base (ir_payload r) = intent_base (ir_payload s)" "apart a b"
    by (auto simp: separated_def)
  then obtain u v a1 a2 b1 b2 where u: "rr_region (op_resource a) = Some u" "parse_line_region u = Some (a1, a2)"
      and v: "rr_region (op_resource b) = Some v" "parse_line_region v = Some (b1, b2)" and away: "a2 < b1 \<or> b2 < a1"
    by (auto simp: apart_def)
  note A = clean_bounded [OF assms(7-9) a u] and B = clean_bounded [OF assms(10-12) b v]
  have "\<not> region_overlaps x (hn_start y) (hn_end y)" if "x \<in> set (hunks_of m p)" "y \<in> set (hunks_of n p)" for x y
    using A(2) [OF that(1)] B(2) [OF that(2)] away by (auto simp: region_overlaps_def)
  with A(1) B(1) apart(1) show ?thesis by (simp add: hunks_disjoint_def Let_def list_all_iff)
qed


section \<open>Two regions of one file\<close>

text \<open>
  C39: an intent that may write two separate line ranges of one file can never be verified once
  the file changes. Every hunk of the file is compared with every declared region of it on its
  own, so a hunk inside one region violates the other, whatever else the manifest says.
\<close>
theorem two_regions_never_clean:
  assumes "verify i m active deps = Inr rep" and "p \<in> set (mf_files m)"
    and "x \<in> set (path_writes i)" and "covers_path (op_resource x) p"
    and "rr_region (op_resource x) = Some s" and "parse_line_region s = Some (a, b)"
    and "y \<in> set (path_writes i)" and "covers_path (op_resource y) p"
    and "rr_region (op_resource y) = Some t" and "parse_line_region t = Some (c, d)" and "b < c"
    and "\<forall>h \<in> set (mf_regions m). hn_start h \<le> hn_end h"
  shows "\<not> report_clean rep"
proof
  assume "report_clean rep"
  note X = clean_bounded [OF assms(1) this assms(2-6)] and Y = clean_bounded [OF assms(1) this assms(2,7-10)]
  from X(1) obtain h where h: "h \<in> set (hunks_of m p)" by (cases "hunks_of m p") auto
  then have "hn_start h \<le> hn_end h" using assms(12) by (simp add: hunks_of_def)
  with X(2) [OF h] Y(2) [OF h] assms(11) show False by simp
qed


section \<open>A manifest of no intent\<close>

lemma first_reports_keys:
  "res_map (first_report active manifests deps) imap = Inr rs \<Longrightarrow> map fst rs = map fst imap"
proof (induction imap arbitrary: rs)
  case (Cons p ps)
  then show ?case
    by (auto simp: res_bind_eq_Inr first_report_def split: option.splits)
qed simp

text \<open>
  A batch in which two manifests changed the same lines of a file and one of them belongs to
  no intent of the batch returns no report at all: the extra finding is looked up under the
  unknown intent and the lookup raises.
\<close>
theorem batch_unknown_manifest_fails:
  assumes "(k, m) \<in> set (by_key mf_intent manifests)" and "(l, n) \<in> set (by_key mf_intent manifests)" and "k \<noteq> l"
    and "p \<in> set (mf_files m)" and "p \<in> set (mf_files n)" and "\<not> hunks_disjoint m n p"
    and "l \<notin> set (map fst (by_key ci_intent_id intents))"
  shows "\<not> res_ok (verify_batch intents manifests deps)"
proof
  let ?im = "by_key ci_intent_id intents" and ?mm = "by_key mf_intent manifests"
  assume "res_ok (verify_batch intents manifests deps)"
  then obtain reports where "verify_batch intents manifests deps = Inr reports"
    by (cases "verify_batch intents manifests deps") auto
  then obtain rs where rs: "res_map (first_report (map snd ?im) ?mm deps) ?im = Inr rs"
      "extend_reports (batch_extras ?im ?mm) rs = Inr reports"
    by (auto simp: verify_batch_def Let_def res_bind_eq_Inr)
  have meet: "\<not> hunks_disjoint n m p" using assms(6) hunks_disjoint_sym by simp
  have "((k, m), (l, n)) \<in> set (later_pairs ?mm) \<or> ((l, n), (k, m)) \<in> set (later_pairs ?mm)"
    using later_pairs_either [OF assms(1,2)] assms(3) by simp
  then obtain f where "(l, f) \<in> set (batch_extras ?im ?mm)"
    using overlap_extra(2) [OF assms(6,4,5), of l k] overlap_extra(1) [OF meet assms(5,4), of l k] batch_overlap
    by blast
  then have "l \<in> set (filter (\<lambda>k. k \<notin> set (map fst rs)) (uniq (map fst (batch_extras ?im ?mm))))"
    using assms(7) first_reports_keys [OF rs(1)] by force
  then obtain k' ks where "filter (\<lambda>k. k \<notin> set (map fst rs)) (uniq (map fst (batch_extras ?im ?mm))) = k' # ks"
    by (metis empty_iff list.exhaust list.set(1))
  with rs(2) show False unfolding extend_reports_def by simp
qed


section \<open>Repair\<close>

text \<open>
  The repair plan of a report has exactly the actions of its findings, each once, the most
  urgent first; and it asks for a new plan whenever the report has a finding of a stale base, a
  stale or missing premise, an undeclared change or read, or a collision.
\<close>
theorem repair_plan_complete:
  "set (rpl_actions (build_repair_plan r)) = repair_for ` set (rep_findings r)
   \<and> distinct (map action_marker (rpl_actions (build_repair_plan r)))
   \<and> sorted (map action_key (rpl_actions (build_repair_plan r)))
   \<and> requires_replan (build_repair_plan r) = list_ex (\<lambda>f. fg_code f \<in>
       {UNDECLARED_CHANGE, STALE_BASE, UNDECLARED_READ, OBSERVED_DEPENDENCY_MISSING, DEPENDENCY_MISSING,
        DEPENDENCY_STALE, CROSS_INTENT_COLLISION}) (rep_findings r)"
proof -
  let ?as = "map repair_for (rep_findings r)"
  have set: "set (unique_actions [] ?as) = set ?as"
  proof
    show "set (unique_actions [] ?as) \<subseteq> set ?as" using unique_actions_sub [of "[]" ?as] by simp
    show "set ?as \<subseteq> set (unique_actions [] ?as)"
    proof
      fix x assume x: "x \<in> set ?as"
      then obtain y where y: "y \<in> set (unique_actions [] ?as)" "action_marker y = action_marker x"
        using unique_actions_set [of "[]" ?as] by force
      then have "y \<in> set ?as" using unique_actions_sub [of "[]" ?as] by auto
      with x y(2) repair_priority have "y = x" by auto
      with y(1) show "x \<in> set (unique_actions [] ?as)" by simp
    qed
  qed
  have kind: "rac_kind (repair_for f) \<in> {REBASE, REPAIR_SERIALIZE, REDECLARE_SCOPE, REFRESH_DEPENDENCY, DECLARE_READ, PIN_BASE}
      \<longleftrightarrow> fg_code f \<in> {UNDECLARED_CHANGE, STALE_BASE, UNDECLARED_READ, OBSERVED_DEPENDENCY_MISSING, DEPENDENCY_MISSING,
        DEPENDENCY_STALE, CROSS_INTENT_COLLISION}" for f
    by (cases "fg_code f") (simp_all add: repair_for_def repair_action_of_def Let_def)
  have "distinct (map action_marker (sort_key action_key (unique_actions [] ?as)))"
    using unique_actions_distinct [of "[]" ?as] by (simp add: distinct_map)
  moreover have "requires_replan (build_repair_plan r) = list_ex (\<lambda>f. fg_code f \<in>
       {UNDECLARED_CHANGE, STALE_BASE, UNDECLARED_READ, OBSERVED_DEPENDENCY_MISSING, DEPENDENCY_MISSING,
        DEPENDENCY_STALE, CROSS_INTENT_COLLISION}) (rep_findings r)"
    unfolding requires_replan_def build_repair_plan_def repair_plan.simps list_ex_iff set_sort set kind [symmetric]
    by simp
  ultimately show ?thesis by (simp add: build_repair_plan_def set)
qed

section \<open>Concrete runs\<close>

definition sample_manifest :: "string \<Rightarrow> (int \<times> int) list \<Rightarrow> change_manifest" where
  "sample_manifest iid hunks =
     \<lparr>mf_intent = iid, mf_owner = ''o'', mf_revision = ''r'', mf_files = [''src/app.py''], mf_commit = None,
      mf_artifacts = [], mf_accesses = [],
      mf_regions = map (\<lambda>(a, b). \<lparr>hn_path = ''src/app.py'', hn_start = a, hn_end = b, hn_old_start = None,
        hn_old_end = None\<rparr>) hunks,
      mf_results = [], mf_metadata = []\<rparr>"

definition clean_verdict :: "verify_error + integration_report \<Rightarrow> bool" where
  "clean_verdict r = (case r of Inl _ \<Rightarrow> False | Inr rep \<Rightarrow> report_clean rep)"

lemma clean_verdict_iff: "clean_verdict r \<longleftrightarrow> (\<exists>rep. r = Inr rep \<and> report_clean rep)"
  by (simp add: clean_verdict_def split: sum.splits)

theorem clean_report_sound_witness:
  "\<exists>rep. verify low_writer (sample_manifest ''low'' [(3, 5)]) [high_writer] [] = Inr rep \<and> report_clean rep
     \<and> (\<forall>op \<in> set (path_writes low_writer). has_region op \<longrightarrow> covers_path (op_resource op) ''src/app.py'' \<longrightarrow>
         (\<exists>lo hi. parse_line_region (the (rr_region (op_resource op))) = Some (lo, hi)
            \<and> (\<forall>h \<in> set (hunks_of (sample_manifest ''low'' [(3, 5)]) ''src/app.py''). int lo \<le> hn_start h \<and> hn_end h \<le> int hi)))"
proof -
  have "clean_verdict (verify low_writer (sample_manifest ''low'' [(3, 5)]) [high_writer] [])" by code_simp
  then obtain rep where rep: "verify low_writer (sample_manifest ''low'' [(3, 5)]) [high_writer] [] = Inr rep" "report_clean rep"
    by (auto simp: clean_verdict_iff)
  have "''src/app.py'' \<in> set (mf_files (sample_manifest ''low'' [(3, 5)]))" by (simp add: sample_manifest_def)
  with conjunct1 [OF conjunct2 [OF conjunct2 [OF conjunct2 [OF conjunct2 [OF clean_report_sound [OF rep]]]]]] rep
  show ?thesis by blast
qed

theorem clean_live_diffs_disjoint_witness:
  "hunks_disjoint (sample_manifest ''low'' [(3, 5)]) (sample_manifest ''high'' [(21, 29), (30, 30)]) ''src/app.py''
   \<and> intent_base (ir_payload (hd (rg_intents two_writers))) = intent_base (ir_payload (hd (tl (rg_intents two_writers))))"
proof -
  let ?r = "hd (rg_intents two_writers)" and ?s = "hd (tl (rg_intents two_writers))"
  let ?m = "sample_manifest ''low'' [(3, 5)]" and ?n = "sample_manifest ''high'' [(21, 29), (30, 30)]"
  have rows: "rg_intents two_writers \<noteq> []" "tl (rg_intents two_writers) \<noteq> []" by code_simp+
  then have mem: "?r \<in> set (rg_intents two_writers)" "?s \<in> set (rg_intents two_writers)"
    by (auto intro: list.set_sel)
  have live: "live_state (ir_state ?r)" "live_state (ir_state ?s)" "ir_id ?r \<noteq> ir_id ?s" by code_simp+
  have "clean_verdict (verify (ir_payload ?r) ?m [ir_payload ?s] [])"
    "clean_verdict (verify (ir_payload ?s) ?n [ir_payload ?r] [])" by code_simp+
  then obtain rep rep' where v: "verify (ir_payload ?r) ?m [ir_payload ?s] [] = Inr rep" "report_clean rep"
      "verify (ir_payload ?s) ?n [ir_payload ?r] [] = Inr rep'" "report_clean rep'"
    by (auto simp: clean_verdict_iff)
  have files: "''src/app.py'' \<in> set (mf_files ?m)" "''src/app.py'' \<in> set (mf_files ?n)"
    by (simp_all add: sample_manifest_def)
  have "list_all (\<lambda>op. canonical_path (op_resource op)) (path_writes (ir_payload ?r) @ path_writes (ir_payload ?s))"
    by code_simp
  then have "\<forall>op \<in> set (path_writes (ir_payload ?r)) \<union> set (path_writes (ir_payload ?s)).
      covers_path (op_resource op) ''src/app.py'' \<longrightarrow> canonical_path (op_resource op)"
    by (auto simp: list_all_iff)
  from clean_live_diffs_disjoint [OF sample_reachable(2) mem(1) live(1) mem(2) live(2,3) v(1,2) files(1) v(3,4) files(2) this]
  show ?thesis by blast
qed

theorem clean_batch_separates_witness:
  "\<exists>reports r s. verify_batch [low_writer, high_writer]
       [sample_manifest ''low'' [(3, 5)], sample_manifest ''high'' [(21, 29)]] (\<lambda>_. []) = Inr reports
     \<and> map_of reports ''low'' = Some r \<and> report_clean r \<and> map_of reports ''high'' = Some s \<and> report_clean s
     \<and> hunks_disjoint (sample_manifest ''low'' [(3, 5)]) (sample_manifest ''high'' [(21, 29)]) ''src/app.py''"
proof -
  let ?b = "verify_batch [low_writer, high_writer]
    [sample_manifest ''low'' [(3, 5)], sample_manifest ''high'' [(21, 29)]] (\<lambda>_. [])"
  have "(case ?b of Inl _ \<Rightarrow> False | Inr reports \<Rightarrow>
      (case (map_of reports ''low'', map_of reports ''high'') of
         (Some r, Some s) \<Rightarrow> report_clean r \<and> report_clean s | _ \<Rightarrow> False))" by code_simp
  then obtain reports r s where b: "?b = Inr reports" "map_of reports ''low'' = Some r" "report_clean r"
      "map_of reports ''high'' = Some s" "report_clean s"
    by (auto split: sum.splits option.splits prod.splits)
  have mem: "(''low'', sample_manifest ''low'' [(3, 5)])
        \<in> set (by_key mf_intent [sample_manifest ''low'' [(3, 5)], sample_manifest ''high'' [(21, 29)]])"
      "(''high'', sample_manifest ''high'' [(21, 29)])
        \<in> set (by_key mf_intent [sample_manifest ''low'' [(3, 5)], sample_manifest ''high'' [(21, 29)]])"
    by (simp_all add: by_key_def sample_manifest_def)
  have "''src/app.py'' \<in> set (mf_files (sample_manifest ''low'' [(3, 5)])) \<inter> set (mf_files (sample_manifest ''high'' [(21, 29)]))"
    by (simp add: sample_manifest_def)
  with clean_batch_separates [OF b _ mem] b show ?thesis by simp
qed

definition two_regions :: change_intent where
  "two_regions = sample_intent ''both'' [sample_write ''src/app.py'' (Some ''1-10''), sample_write ''src/app.py'' (Some ''20-30'')]"

theorem two_regions_never_clean_witness:
  "\<exists>d rep. evaluate two_regions [] [] = Inr d \<and> ad_allowed d
     \<and> verify two_regions (sample_manifest ''both'' [(3, 5), (21, 29)]) [] [] = Inr rep \<and> \<not> report_clean rep"
proof -
  let ?m = "sample_manifest ''both'' [(3, 5), (21, 29)]"
  have "(case evaluate two_regions [] [] of Inl _ \<Rightarrow> False | Inr d \<Rightarrow> ad_allowed d)" by code_simp
  then obtain d where d: "evaluate two_regions [] [] = Inr d" "ad_allowed d" by (auto split: sum.splits)
  have "res_ok (verify two_regions ?m [] [])" by code_simp
  then obtain rep where rep: "verify two_regions ?m [] [] = Inr rep" by (cases "verify two_regions ?m [] []") auto
  let ?x = "sample_write ''src/app.py'' (Some ''1-10'')" and ?y = "sample_write ''src/app.py'' (Some ''20-30'')"
  have ops: "path_writes two_regions = [?x, ?y]" by code_simp
  have regions: "parse_line_region ''1-10'' = Some (1, 10)" "parse_line_region ''20-30'' = Some (20, 30)" by code_simp+
  have mem: "''src/app.py'' \<in> set (mf_files ?m)" "?x \<in> set (path_writes two_regions)" "?y \<in> set (path_writes two_regions)"
    and region: "rr_region (op_resource ?x) = Some ''1-10''" "rr_region (op_resource ?y) = Some ''20-30''"
    and hunks: "\<forall>h \<in> set (mf_regions ?m). hn_start h \<le> hn_end h"
    by (simp_all only: ops) (simp_all add: sample_manifest_def sample_write_def)
  have "\<not> report_clean rep"
    by (rule two_regions_never_clean [OF rep mem(1,2) sample_paths(1) region(1) regions(1) mem(3) sample_paths(2)
      region(2) regions(2) _ hunks]) simp
  with d rep show ?thesis by blast
qed

theorem batch_unknown_manifest_fails_witness:
  "verify_batch [low_writer] [sample_manifest ''low'' [(3, 5)], sample_manifest ''other'' [(4, 6)]] (\<lambda>_. [])
     = Inl (UnknownReport ''other'')
   \<and> \<not> res_ok (verify_batch [low_writer] [sample_manifest ''low'' [(3, 5)], sample_manifest ''other'' [(4, 6)]] (\<lambda>_. []))"
proof
  let ?ms = "[sample_manifest ''low'' [(3, 5)], sample_manifest ''other'' [(4, 6)]]"
  show "verify_batch [low_writer] ?ms (\<lambda>_. []) = Inl (UnknownReport ''other'')" by code_simp
  have mem: "(''low'', sample_manifest ''low'' [(3, 5)]) \<in> set (by_key mf_intent ?ms)"
    "(''other'', sample_manifest ''other'' [(4, 6)]) \<in> set (by_key mf_intent ?ms)"
    by (simp_all add: by_key_def sample_manifest_def)
  have meet: "\<not> hunks_disjoint (sample_manifest ''low'' [(3, 5)]) (sample_manifest ''other'' [(4, 6)]) ''src/app.py''"
    by code_simp
  have unknown: "''other'' \<notin> set (map fst (by_key ci_intent_id [low_writer]))" by code_simp
  show "\<not> res_ok (verify_batch [low_writer] ?ms (\<lambda>_. []))"
    by (rule batch_unknown_manifest_fails [OF mem _ _ _ meet unknown]) (simp_all add: sample_manifest_def)
qed

end
