(* ===== verification/WorkItems.thy ===== *)
theory WorkItems
  imports Codec
begin

text \<open>
  The parts of a swarm session a planner writes, from \<open>swarm/models.py\<close>: the root task, the
  integration target and the work items, with the checks their constructors make and their
  JSON forms.
\<close>


section \<open>Errors and fields\<close>

datatype swarm_error =
    BadField string
  | RepeatedEntries string
  | UnsafeBranch
  | UnsafeWorkId
  | AbsolutePath
  | EscapingPath string
  | ControlPath string
  | NoWorkOperations string
  | DependsOnItself string
  | Undecodable codec_error
  | UnsupportedProtocol string
  | EmptyGraph
  | DuplicateWorkIds "string list"
  | UnknownDependencies string "string list"
  | GraphCycle "string list"
  | MissingKey string
  | LoopBoundReached

definition lift_codec :: "codec_error + 'a \<Rightarrow> swarm_error + 'a" where
  "lift_codec r = (case r of Inl e \<Rightarrow> Inl (Undecodable e) | Inr a \<Rightarrow> Inr a)"

lemma lift_codec_Inr [simp]: "lift_codec (Inr a) = Inr a"
  by (simp add: lift_codec_def)

definition clean_text :: "string \<Rightarrow> string \<Rightarrow> swarm_error + string" where
  "clean_text field_name v = (let c = strip v in if c = [] then Inl (BadField field_name) else Inr c)"

definition unique_strings :: "string \<Rightarrow> string list \<Rightarrow> swarm_error + string list" where
  "unique_strings field_name values =
     res_bind (res_map (clean_text field_name) values) (\<lambda>cleaned.
       if distinct cleaned then Inr cleaned else Inl (RepeatedEntries field_name))"

text \<open>The fallback from one key to the other.\<close>

definition get_str_or :: "metadata \<Rightarrow> string \<Rightarrow> string \<Rightarrow> string" where
  "get_str_or data key other = (if truthy (jget data key) then py_str (jget data key) else get_str data other)"


section \<open>Repository paths\<close>

definition protected_prefixes :: "string list" where
  "protected_prefixes = [''.claim-plane'', ''.git'', ''.codex'']"

definition path_parts :: "string \<Rightarrow> string list" where
  "path_parts path = filter (\<lambda>p. p \<noteq> [] \<and> p \<noteq> ''.'') (split_on (CHR ''/'') path)"

definition under_prefix :: "string \<Rightarrow> string \<Rightarrow> bool" where
  "under_prefix path prefix \<longleftrightarrow> path = prefix \<or> starts_with path (prefix @ ''/'')"

definition validate_repository_path :: "string \<Rightarrow> swarm_error + unit" where
  "validate_repository_path value =
     (let path = drop_dot_slash (strip (slashes value))
      in if path = [] \<or> starts_with path ''/'' then Inl AbsolutePath
         else let parts = path_parts path
           in if ''..'' \<in> set parts then Inl (EscapingPath value)
              else if list_ex (under_prefix (lower (join ''/'' parts))) protected_prefixes
              then Inl (ControlPath value)
              else Inr ())"

definition validate_repository_resource :: "intent_operation \<Rightarrow> swarm_error + unit" where
  "validate_repository_resource op =
     (let r = op_resource op
      in res_bind (if rr_kind r \<in> {K_FILE, K_DOCUMENT, K_CONFIG}
                   then validate_repository_path (rr_identifier r) else Inr ()) (\<lambda>_.
         let p = jget (rr_metadata r) ''path''
         in if p = JNull then Inr () else validate_repository_path (py_str p)))"


section \<open>Root task and integration target\<close>

record root_task =
  rt_title :: string
  rt_goal :: string
  rt_acceptance :: "string list"
  rt_metadata :: metadata

definition root_task_post_init :: "root_task \<Rightarrow> swarm_error + root_task" where
  "root_task_post_init t =
     res_bind (clean_text ''root task title'' (rt_title t)) (\<lambda>title.
     res_bind (clean_text ''root task goal'' (rt_goal t)) (\<lambda>goal.
     res_bind (unique_strings ''root acceptance'' (rt_acceptance t)) (\<lambda>acceptance.
     Inr (t\<lparr>rt_title := title, rt_goal := goal, rt_acceptance := acceptance\<rparr>))))"

definition root_task_dict :: "root_task \<Rightarrow> json" where
  "root_task_dict t = JObj
     [(''title'', JStr (rt_title t)), (''goal'', JStr (rt_goal t)),
      (''acceptance'', jstrs (rt_acceptance t)), (''metadata'', JObj (rt_metadata t))]"

definition root_task_from_dict :: "json \<Rightarrow> swarm_error + root_task" where
  "root_task_from_dict v =
     res_bind (lift_codec (as_object v)) (\<lambda>data.
     res_bind (lift_codec (get_texts data ''acceptance'')) (\<lambda>acceptance.
     res_bind (lift_codec (get_dict data ''metadata'')) (\<lambda>meta.
     root_task_post_init
       \<lparr>rt_title = get_str_or data ''title'' ''goal'', rt_goal = get_str data ''goal'',
        rt_acceptance = acceptance, rt_metadata = meta\<rparr>)))"

record integration_target =
  it_branch :: string
  it_metadata :: metadata

text \<open>\<open>".." in branch\<close>.\<close>

fun has_dot_dot :: "string \<Rightarrow> bool" where
  "has_dot_dot (c # d # cs) = (c = CHR ''.'' \<and> d = CHR ''.'' \<or> has_dot_dot (d # cs))"
| "has_dot_dot cs = False"

definition integration_target_post_init :: "integration_target \<Rightarrow> swarm_error + integration_target" where
  "integration_target_post_init t =
     res_bind (clean_text ''integration target branch'' (it_branch t)) (\<lambda>branch.
       if starts_with branch ''-'' \<or> has_dot_dot branch \<or> ends_with branch ''.'' then Inl UnsafeBranch
       else Inr (t\<lparr>it_branch := branch\<rparr>))"

definition integration_target_dict :: "integration_target \<Rightarrow> json" where
  "integration_target_dict t = JObj [(''branch'', JStr (it_branch t)), (''metadata'', JObj (it_metadata t))]"

definition integration_target_from_dict :: "json \<Rightarrow> swarm_error + integration_target" where
  "integration_target_from_dict v =
     res_bind (lift_codec (as_object v)) (\<lambda>data.
     res_bind (lift_codec (get_dict data ''metadata'')) (\<lambda>meta.
     integration_target_post_init \<lparr>it_branch = get_str data ''branch'', it_metadata = meta\<rparr>))"


section \<open>Work items\<close>

record work_item =
  wi_id :: string
  wi_title :: string
  wi_goal :: string
  wi_operations :: "intent_operation list"
  wi_depends :: "string list"
  wi_preserves :: "string list"
  wi_acceptance :: "string list"
  wi_metadata :: metadata

text \<open>\<open>[A-Za-z0-9][A-Za-z0-9._-]{0,63}\Z\<close>.\<close>

definition work_id_char :: "char \<Rightarrow> bool" where
  "work_id_char c = (is_alnum c \<or> c = CHR ''.'' \<or> c = CHR ''_'' \<or> c = CHR ''-'')"

definition work_id_ok :: "string \<Rightarrow> bool" where
  "work_id_ok s = (s \<noteq> [] \<and> is_alnum (hd s) \<and> list_all work_id_char (tl s) \<and> length s \<le> 64)"

definition work_item_post_init :: "work_item \<Rightarrow> swarm_error + work_item" where
  "work_item_post_init w =
     res_bind (clean_text ''work_id'' (wi_id w)) (\<lambda>work_id.
     if \<not> work_id_ok work_id then Inl UnsafeWorkId
     else
     res_bind (clean_text ''work item title'' (wi_title w)) (\<lambda>title.
     res_bind (clean_text ''work item goal'' (wi_goal w)) (\<lambda>goal.
     if wi_operations w = [] then Inl (NoWorkOperations work_id)
     else
     res_bind (res_map validate_repository_resource (wi_operations w)) (\<lambda>_.
     res_bind (unique_strings ''work dependency'' (wi_depends w)) (\<lambda>depends.
     if work_id \<in> set depends then Inl (DependsOnItself work_id)
     else
     res_bind (unique_strings ''preserve'' (wi_preserves w)) (\<lambda>preserves.
     res_bind (unique_strings ''work acceptance'' (wi_acceptance w)) (\<lambda>acceptance.
     Inr (w\<lparr>wi_id := work_id, wi_title := title, wi_goal := goal, wi_depends := depends,
            wi_preserves := preserves, wi_acceptance := acceptance\<rparr>))))))))"

definition work_item_dict :: "work_item \<Rightarrow> json" where
  "work_item_dict w = JObj
     [(''work_id'', JStr (wi_id w)), (''title'', JStr (wi_title w)), (''goal'', JStr (wi_goal w)),
      (''depends_on'', jstrs (wi_depends w)), (''operations'', JList (map op_dict (wi_operations w))),
      (''preserves'', jstrs (wi_preserves w)), (''acceptance'', jstrs (wi_acceptance w)),
      (''metadata'', JObj (wi_metadata w))]"

definition operation_array :: "json \<Rightarrow> swarm_error + json list" where
  "operation_array v = (case v of JList xs \<Rightarrow> Inr xs | _ \<Rightarrow> Inl (BadField ''operations''))"

definition work_item_from_dict :: "json \<Rightarrow> swarm_error + work_item" where
  "work_item_from_dict v =
     res_bind (lift_codec (as_object v)) (\<lambda>data.
     res_bind (operation_array (jget data ''operations'')) (\<lambda>raw.
     res_bind (lift_codec (get_texts data ''depends_on'')) (\<lambda>depends.
     res_bind (lift_codec (res_map operation_from_dict raw)) (\<lambda>operations.
     res_bind (lift_codec (get_texts data ''preserves'')) (\<lambda>preserves.
     res_bind (lift_codec (get_texts data ''acceptance'')) (\<lambda>acceptance.
     res_bind (lift_codec (get_dict data ''metadata'')) (\<lambda>meta.
     work_item_post_init
       \<lparr>wi_id = get_str data ''work_id'', wi_title = get_str_or data ''title'' ''goal'',
        wi_goal = get_str data ''goal'', wi_operations = operations, wi_depends = depends,
        wi_preserves = preserves, wi_acceptance = acceptance, wi_metadata = meta\<rparr>)))))))"

definition valid_item :: "work_item \<Rightarrow> bool" where
  "valid_item w = (work_item_post_init w = Inr w \<and> list_all valid_operation (wi_operations w))"


section \<open>Construction is stable\<close>

lemma clean_text_idem: "clean_text f v = Inr c \<Longrightarrow> clean_text g c = Inr c \<and> c \<noteq> []"
  by (auto simp: clean_text_def Let_def split: if_splits)

lemma clean_text_nonempty: "clean_text f v = Inr c \<Longrightarrow> c \<noteq> []"
  using clean_text_idem by blast

lemma unique_strings_idem: "unique_strings f vs = Inr cs \<Longrightarrow> unique_strings g cs = Inr cs \<and> distinct cs"
proof -
  assume a: "unique_strings f vs = Inr cs"
  then have m: "res_map (clean_text f) vs = Inr cs" and d: "distinct cs"
    by (auto simp: unique_strings_def res_bind_eq_Inr split: if_splits)
  have "res_map (clean_text g) cs = Inr cs"
    using m by (induction vs arbitrary: cs) (auto simp: res_bind_eq_Inr clean_text_idem)
  with d show ?thesis by (simp add: unique_strings_def)
qed

lemma root_task_stable: "root_task_post_init t = Inr u \<Longrightarrow> root_task_post_init u = Inr u"
  by (auto simp: root_task_post_init_def res_bind_eq_Inr clean_text_idem unique_strings_idem)

lemma root_task_title: "root_task_post_init t = Inr u \<Longrightarrow> rt_title u \<noteq> []"
  by (auto simp: root_task_post_init_def res_bind_eq_Inr dest: clean_text_nonempty)

lemma integration_target_stable:
  "integration_target_post_init t = Inr u \<Longrightarrow> integration_target_post_init u = Inr u"
proof -
  assume "integration_target_post_init t = Inr u"
  then obtain branch where b: "clean_text ''integration target branch'' (it_branch t) = Inr branch"
      "\<not> (starts_with branch ''-'' \<or> has_dot_dot branch \<or> ends_with branch ''.'')" "u = t\<lparr>it_branch := branch\<rparr>"
    unfolding integration_target_post_init_def res_bind_eq_Inr by (elim exE conjE) (simp split: if_split_asm)
  have "it_branch u = branch" "u\<lparr>it_branch := branch\<rparr> = u" by (simp_all add: b(3))
  with conjunct1 [OF clean_text_idem [OF b(1)]] b(2) show ?thesis
    by (simp only: integration_target_post_init_def res_bind_Inr if_False)
qed

lemma work_item_post_init_cases:
  assumes "work_item_post_init v = Inr w"
  obtains u title goal us depends preserves acceptance where
    "clean_text ''work_id'' (wi_id v) = Inr u" "work_id_ok u"
    "clean_text ''work item title'' (wi_title v) = Inr title"
    "clean_text ''work item goal'' (wi_goal v) = Inr goal" "wi_operations v \<noteq> []"
    "res_map validate_repository_resource (wi_operations v) = Inr us"
    "unique_strings ''work dependency'' (wi_depends v) = Inr depends" "u \<notin> set depends"
    "unique_strings ''preserve'' (wi_preserves v) = Inr preserves"
    "unique_strings ''work acceptance'' (wi_acceptance v) = Inr acceptance"
    "w = v\<lparr>wi_id := u, wi_title := title, wi_goal := goal, wi_depends := depends,
        wi_preserves := preserves, wi_acceptance := acceptance\<rparr>"
  using assms by (auto simp: work_item_post_init_def res_bind_eq_Inr split: if_splits)

lemma work_item_ok:
  assumes "work_item_post_init v = Inr w"
  shows "work_item_post_init w = Inr w" and "wi_operations w = wi_operations v"
    and "wi_id w \<notin> set (wi_depends w)" and "distinct (wi_depends w)"
    and "wi_title w \<noteq> []" and "work_id_ok (wi_id w)"
proof -
  obtain u title goal us depends preserves acceptance where *:
    "clean_text ''work_id'' (wi_id v) = Inr u" "work_id_ok u"
    "clean_text ''work item title'' (wi_title v) = Inr title"
    "clean_text ''work item goal'' (wi_goal v) = Inr goal" "wi_operations v \<noteq> []"
    "res_map validate_repository_resource (wi_operations v) = Inr us"
    "unique_strings ''work dependency'' (wi_depends v) = Inr depends" "u \<notin> set depends"
    "unique_strings ''preserve'' (wi_preserves v) = Inr preserves"
    "unique_strings ''work acceptance'' (wi_acceptance v) = Inr acceptance"
    "w = v\<lparr>wi_id := u, wi_title := title, wi_goal := goal, wi_depends := depends,
        wi_preserves := preserves, wi_acceptance := acceptance\<rparr>"
    using assms by (rule work_item_post_init_cases)
  note again = clean_text_idem [OF *(1)] clean_text_idem [OF *(3)] clean_text_idem [OF *(4)]
    unique_strings_idem [OF *(7)] unique_strings_idem [OF *(9)] unique_strings_idem [OF *(10)]
  show "work_item_post_init w = Inr w" using *(2,5,6,8) again by (simp add: work_item_post_init_def *(11))
  show "wi_operations w = wi_operations v" "wi_id w \<notin> set (wi_depends w)" "distinct (wi_depends w)"
    "wi_title w \<noteq> []" "work_id_ok (wi_id w)"
    using *(2,8) again by (simp_all add: *(11))
qed

lemma get_str_text: "jget data key = JStr s \<Longrightarrow> get_str data key = s"
  by (simp add: get_str_def)

lemma get_str_or_text: "jget data key = JStr s \<Longrightarrow> s \<noteq> [] \<Longrightarrow> get_str_or data key other = s"
  by (simp add: get_str_or_def)

lemma root_task_dict_roundtrip:
  assumes "root_task_post_init t = Inr t"
  shows "root_task_from_dict (root_task_dict t) = Inr t"
proof -
  obtain kvs where kvs: "root_task_dict t = JObj kvs" by (simp add: root_task_dict_def)
  have get: "jget kvs ''title'' = JStr (rt_title t)" "jget kvs ''goal'' = JStr (rt_goal t)"
    "jget kvs ''acceptance'' = jstrs (rt_acceptance t)" "jget kvs ''metadata'' = JObj (rt_metadata t)"
    using kvs by (auto simp: root_task_dict_def jget_def)
  have title: "rt_title t \<noteq> []"
    using assms by (rule root_task_title)
  have "root_task_post_init \<lparr>rt_title = rt_title t, rt_goal = rt_goal t, rt_acceptance = rt_acceptance t,
      rt_metadata = rt_metadata t\<rparr> = Inr t"
    using assms by (cases t) simp
  with get title show ?thesis
    by (simp add: root_task_from_dict_def kvs get_str_text get_str_or_text get_texts_jstrs get_dict_obj)
qed

lemma integration_target_dict_roundtrip:
  assumes "integration_target_post_init t = Inr t"
  shows "integration_target_from_dict (integration_target_dict t) = Inr t"
proof -
  obtain kvs where kvs: "integration_target_dict t = JObj kvs" by (simp add: integration_target_dict_def)
  have get: "jget kvs ''branch'' = JStr (it_branch t)" "jget kvs ''metadata'' = JObj (it_metadata t)"
    using kvs by (auto simp: integration_target_dict_def jget_def)
  moreover have "integration_target_post_init \<lparr>it_branch = it_branch t, it_metadata = it_metadata t\<rparr> = Inr t"
    using assms by (cases t) simp
  ultimately show ?thesis
    by (simp add: integration_target_from_dict_def kvs get_str_text get_dict_obj)
qed

lemma operations_dict_roundtrip:
  "list_all valid_operation ops \<Longrightarrow> res_map operation_from_dict (map op_dict ops) = Inr ops"
  using operation_dict_roundtrip
  by (auto simp: res_map_Inr_iff list_all2_conv_all_nth list_all_iff)

lemma work_item_dict_roundtrip:
  assumes "valid_item w"
  shows "work_item_from_dict (work_item_dict w) = Inr w"
proof -
  obtain kvs where kvs: "work_item_dict w = JObj kvs" by (simp add: work_item_dict_def)
  have get: "jget kvs ''work_id'' = JStr (wi_id w)" "jget kvs ''title'' = JStr (wi_title w)"
    "jget kvs ''goal'' = JStr (wi_goal w)" "jget kvs ''depends_on'' = jstrs (wi_depends w)"
    "jget kvs ''operations'' = JList (map op_dict (wi_operations w))"
    "jget kvs ''preserves'' = jstrs (wi_preserves w)" "jget kvs ''acceptance'' = jstrs (wi_acceptance w)"
    "jget kvs ''metadata'' = JObj (wi_metadata w)"
    using kvs by (auto simp: work_item_dict_def jget_def)
  have init: "work_item_post_init w = Inr w" and ops: "list_all valid_operation (wi_operations w)"
    using assms by (simp_all add: valid_item_def)
  note texts = get_texts_jstrs [OF get(4)] get_texts_jstrs [OF get(6)] get_texts_jstrs [OF get(7)]
    get_dict_obj [OF get(8)] get_str_text [OF get(1)] get_str_text [OF get(3)]
    get_str_or_text [OF get(2) work_item_ok(5) [OF init]]
  have "work_item_post_init \<lparr>wi_id = wi_id w, wi_title = wi_title w, wi_goal = wi_goal w,
      wi_operations = wi_operations w, wi_depends = wi_depends w, wi_preserves = wi_preserves w,
      wi_acceptance = wi_acceptance w, wi_metadata = wi_metadata w\<rparr> = Inr w"
    using init by (cases w) simp
  then show ?thesis
    using operations_dict_roundtrip [OF ops]
    by (simp add: work_item_from_dict_def kvs get(5) texts operation_array_def)
qed

end
