(* ===== verification/SwarmBudget.thy ===== *)
theory SwarmBudget
  imports Codec
begin

text \<open>
  The budget policy of \<open>swarm/budget.py\<close>: hard ceilings on workers, resources, retries and
  concurrency, each with the bounds its constructor enforces, and the JSON form that rejects
  unknown fields. A cost is a decimal string; it is kept as a whole number of millionths.
  Floating point values and the special decimal values (infinities, NaN) are refused here, as
  every value that is not a finite decimal is in the code.
\<close>


section \<open>Reading bounded values\<close>

datatype budget_error =
    NotAnObject string
  | UnknownFields string "string list"
  | NotAnInteger string
  | OutOfRange string
  | BadCost
  | PerItemAboveTotal
  | LaunchesBelowItems
  | BadPolicy codec_error
  | BadBudgetProtocol string
  | EmptyWorkGraph
  | TooManyItems int int
  | TooFewLaunches int int

definition mapping_of :: "string \<Rightarrow> json \<Rightarrow> budget_error + metadata" where
  "mapping_of name v = (case v of JNull \<Rightarrow> Inr [] | JObj kvs \<Rightarrow> Inr kvs | _ \<Rightarrow> Inl (NotAnObject name))"

definition reject_unknown :: "string \<Rightarrow> string list \<Rightarrow> metadata \<Rightarrow> budget_error + unit" where
  "reject_unknown name allowed data =
     (let unknown = sorted_set (filter (\<lambda>k. k \<notin> set allowed) (map fst data))
      in if unknown = [] then Inr () else Inl (UnknownFields name unknown))"

definition in_range :: "string \<Rightarrow> int \<Rightarrow> int \<Rightarrow> int \<Rightarrow> budget_error + unit" where
  "in_range name lo hi i = (if i < lo \<or> hi < i then Inl (OutOfRange name) else Inr ())"

definition bounded_int :: "string \<Rightarrow> int \<Rightarrow> int \<Rightarrow> int \<Rightarrow> json \<Rightarrow> budget_error + int" where
  "bounded_int name dflt lo hi v = (case (if v = JNull then JInt dflt else v) of
       JInt i \<Rightarrow> res_bind (in_range name lo hi i) (\<lambda>_. Inr i)
     | _ \<Rightarrow> Inl (NotAnInteger name))"

definition optional_bounded_int :: "string \<Rightarrow> int option \<Rightarrow> int \<Rightarrow> int \<Rightarrow> json \<Rightarrow> budget_error + int option" where
  "optional_bounded_int name dflt lo hi v =
     (if v = JNull then Inr dflt else res_bind (bounded_int name lo lo hi v) (\<lambda>i. Inr (Some i)))"


section \<open>Costs\<close>

text \<open>
  \<open>Decimal(text)\<close> for a finite decimal: sign, mantissa digits and the power of ten they are
  scaled by. Surrounding blanks are stripped and underscores dropped, as the class does.
\<close>

record decimal =
  dc_negative :: bool
  dc_digits :: nat
  dc_exponent :: int

definition split_exponent :: "string \<Rightarrow> (string \<times> string option) option" where
  "split_exponent s = (case split_on (CHR ''e'') (lower s) of
       [m] \<Rightarrow> Some (m, None) | [m, e] \<Rightarrow> Some (m, Some e) | _ \<Rightarrow> None)"

definition split_point :: "string \<Rightarrow> (string \<times> string) option" where
  "split_point s = (case split_on (CHR ''.'') s of
       [a] \<Rightarrow> Some (a, []) | [a, b] \<Rightarrow> Some (a, b) | _ \<Rightarrow> None)"

definition unsigned :: "string \<Rightarrow> bool \<times> string" where
  "unsigned s = (if starts_with s ''-'' then (True, drop 1 s)
     else if starts_with s ''+'' then (False, drop 1 s) else (False, s))"

definition all_digits :: "string \<Rightarrow> bool" where
  "all_digits s = list_all is_digit s"

definition exponent_of :: "string option \<Rightarrow> int option" where
  "exponent_of e = (case e of
       None \<Rightarrow> Some 0
     | Some t \<Rightarrow> (case unsigned t of (neg, ds) \<Rightarrow>
         if ds \<noteq> [] \<and> all_digits ds then Some ((if neg then - 1 else 1) * int (digits_val ds)) else None))"

definition parse_decimal :: "string \<Rightarrow> decimal option" where
  "parse_decimal text =
     (case unsigned (filter (\<lambda>c. c \<noteq> CHR ''_'') (strip text)) of (neg, body) \<Rightarrow>
        (case split_exponent body of
           None \<Rightarrow> None
         | Some (m, e) \<Rightarrow>
             (case (split_point m, exponent_of e) of
                (Some (a, b), Some x) \<Rightarrow>
                  if a @ b \<noteq> [] \<and> all_digits (a @ b)
                  then Some \<lparr>dc_negative = neg, dc_digits = digits_val (a @ b),
                             dc_exponent = x - int (length b)\<rparr>
                  else None
              | _ \<Rightarrow> None)))"

text \<open>The value in millionths, when it is a whole number of them.\<close>

definition millionths :: "decimal \<Rightarrow> nat option" where
  "millionths d =
     (let x = dc_exponent d + 6
      in if 0 \<le> x then Some (dc_digits d * 10 ^ nat x)
         else if dc_digits d mod 10 ^ nat (- x) = 0 then Some (dc_digits d div 10 ^ nat (- x))
         else None)"

text \<open>\<open>amount > 1000000\<close>, decided without the division.\<close>

definition above_million :: "decimal \<Rightarrow> bool" where
  "above_million d =
     (if 0 \<le> dc_exponent d then 1000000 < dc_digits d * 10 ^ nat (dc_exponent d)
      else 1000000 * 10 ^ nat (- dc_exponent d) < dc_digits d)"

fun pad_digits :: "nat \<Rightarrow> nat \<Rightarrow> string" where
  "pad_digits 0 n = []"
| "pad_digits (Suc k) n = pad_digits k (n div 10) @ [char_of (48 + n mod 10)]"

definition cost_text :: "nat \<Rightarrow> string" where
  "cost_text n =
     (let text = rstrip_by (\<lambda>c. c = CHR ''.'') (rstrip_by (\<lambda>c. c = CHR ''0'')
            (nat_str (n div 1000000) @ ''.'' @ pad_digits 6 (n mod 1000000)))
      in if text = [] then ''0'' else text)"

definition cost_usd :: "string option \<Rightarrow> json \<Rightarrow> budget_error + string option" where
  "cost_usd dflt v = (case v of
       JNull \<Rightarrow> Inr dflt
     | JBool _ \<Rightarrow> Inl BadCost
     | _ \<Rightarrow> (case parse_decimal (py_str v) of
         None \<Rightarrow> Inl BadCost
       | Some d \<Rightarrow>
           if dc_negative d \<or> dc_digits d = 0 then Inl BadCost
           else if above_million d then Inl BadCost
           else (case millionths d of None \<Rightarrow> Inl BadCost | Some n \<Rightarrow> Inr (Some (cost_text n)))))"


section \<open>The four budgets\<close>

record worker_budget =
  wb_active :: int
  wb_per_item :: int
  wb_items :: int
  wb_launches :: int

definition worker_budget_post_init :: "worker_budget \<Rightarrow> budget_error + worker_budget" where
  "worker_budget_post_init b =
     res_bind (in_range ''workers.max_active'' 1 256 (wb_active b)) (\<lambda>_.
     res_bind (in_range ''workers.max_active_per_work_item'' 1 64 (wb_per_item b)) (\<lambda>_.
     res_bind (in_range ''workers.max_work_items'' 1 4096 (wb_items b)) (\<lambda>_.
     res_bind (in_range ''workers.max_total_launches'' 1 65536 (wb_launches b)) (\<lambda>_.
     if wb_active b < wb_per_item b then Inl PerItemAboveTotal
     else if wb_launches b < wb_items b then Inl LaunchesBelowItems
     else Inr b))))"

definition worker_budget_dict :: "worker_budget \<Rightarrow> json" where
  "worker_budget_dict b = JObj
     [(''max_active'', JInt (wb_active b)), (''max_active_per_work_item'', JInt (wb_per_item b)),
      (''max_work_items'', JInt (wb_items b)), (''max_total_launches'', JInt (wb_launches b))]"

definition worker_budget_from_dict :: "json \<Rightarrow> budget_error + worker_budget" where
  "worker_budget_from_dict v =
     res_bind (mapping_of ''workers'' v) (\<lambda>raw.
     res_bind (reject_unknown ''workers''
       [''max_active'', ''max_active_per_work_item'', ''max_work_items'', ''max_total_launches''] raw) (\<lambda>_.
     res_bind (bounded_int ''workers.max_active'' 4 1 256 (jget raw ''max_active'')) (\<lambda>active.
     res_bind (bounded_int ''workers.max_active_per_work_item'' 1 1 64
       (jget raw ''max_active_per_work_item'')) (\<lambda>per_item.
     res_bind (bounded_int ''workers.max_work_items'' 32 1 4096 (jget raw ''max_work_items'')) (\<lambda>items.
     res_bind (bounded_int ''workers.max_total_launches'' 64 1 65536 (jget raw ''max_total_launches'')) (\<lambda>launches.
     worker_budget_post_init
       \<lparr>wb_active = active, wb_per_item = per_item, wb_items = items, wb_launches = launches\<rparr>))))))"

record resource_budget =
  rb_tokens :: "int option"
  rb_cost :: "string option"
  rb_wall_time :: int

definition jint_opt :: "int option \<Rightarrow> json" where
  "jint_opt v = (case v of None \<Rightarrow> JNull | Some i \<Rightarrow> JInt i)"

definition resource_budget_post_init :: "resource_budget \<Rightarrow> budget_error + resource_budget" where
  "resource_budget_post_init b =
     res_bind (optional_bounded_int ''resources.max_total_tokens'' None 1 10000000000 (jint_opt (rb_tokens b))) (\<lambda>tokens.
     res_bind (bounded_int ''resources.max_wall_time_seconds'' 7200 1 31536000 (JInt (rb_wall_time b))) (\<lambda>wall.
     res_bind (cost_usd None (jopt (rb_cost b))) (\<lambda>cost.
     Inr \<lparr>rb_tokens = tokens, rb_cost = cost, rb_wall_time = wall\<rparr>)))"

definition resource_budget_dict :: "resource_budget \<Rightarrow> json" where
  "resource_budget_dict b = JObj
     [(''max_total_tokens'', jint_opt (rb_tokens b)), (''max_cost_usd'', jopt (rb_cost b)),
      (''max_wall_time_seconds'', JInt (rb_wall_time b))]"

definition resource_budget_from_dict :: "json \<Rightarrow> budget_error + resource_budget" where
  "resource_budget_from_dict v =
     res_bind (mapping_of ''resources'' v) (\<lambda>raw.
     res_bind (reject_unknown ''resources''
       [''max_total_tokens'', ''max_cost_usd'', ''max_wall_time_seconds''] raw) (\<lambda>_.
     res_bind (optional_bounded_int ''resources.max_total_tokens'' (Some 500000) 1 10000000000
       (jget raw ''max_total_tokens'')) (\<lambda>tokens.
     res_bind (cost_usd (Some ''25'') (jget raw ''max_cost_usd'')) (\<lambda>cost.
     res_bind (bounded_int ''resources.max_wall_time_seconds'' 7200 1 31536000
       (jget raw ''max_wall_time_seconds'')) (\<lambda>wall.
     resource_budget_post_init \<lparr>rb_tokens = tokens, rb_cost = cost, rb_wall_time = wall\<rparr>)))))"

record retry_budget =
  yb_replans :: int
  yb_repairs :: int
  yb_restarts :: int

definition retry_budget_post_init :: "retry_budget \<Rightarrow> budget_error + retry_budget" where
  "retry_budget_post_init b =
     res_bind (in_range ''retries.max_replans'' 0 100 (yb_replans b)) (\<lambda>_.
     res_bind (in_range ''retries.max_repairs_per_work_item'' 0 100 (yb_repairs b)) (\<lambda>_.
     res_bind (in_range ''retries.max_agent_restarts'' 0 100 (yb_restarts b)) (\<lambda>_. Inr b)))"

definition retry_budget_dict :: "retry_budget \<Rightarrow> json" where
  "retry_budget_dict b = JObj
     [(''max_replans'', JInt (yb_replans b)), (''max_repairs_per_work_item'', JInt (yb_repairs b)),
      (''max_agent_restarts'', JInt (yb_restarts b))]"

definition retry_budget_from_dict :: "json \<Rightarrow> budget_error + retry_budget" where
  "retry_budget_from_dict v =
     res_bind (mapping_of ''retries'' v) (\<lambda>raw.
     res_bind (reject_unknown ''retries''
       [''max_replans'', ''max_repairs_per_work_item'', ''max_agent_restarts''] raw) (\<lambda>_.
     res_bind (bounded_int ''retries.max_replans'' 2 0 100 (jget raw ''max_replans'')) (\<lambda>replans.
     res_bind (bounded_int ''retries.max_repairs_per_work_item'' 2 0 100
       (jget raw ''max_repairs_per_work_item'')) (\<lambda>repairs.
     res_bind (bounded_int ''retries.max_agent_restarts'' 1 0 100 (jget raw ''max_agent_restarts'')) (\<lambda>restarts.
     retry_budget_post_init \<lparr>yb_replans = replans, yb_repairs = repairs, yb_restarts = restarts\<rparr>)))))"

datatype same_file_policy = REGION_SAFE | SAME_SERIALIZE | SAME_DENY

datatype conflict_policy = CP_SERIALIZE | CP_DENY

fun same_file_value :: "same_file_policy \<Rightarrow> string" where
  "same_file_value REGION_SAFE = ''region_safe''"
| "same_file_value SAME_SERIALIZE = ''serialize''"
| "same_file_value SAME_DENY = ''deny''"

fun conflict_policy_value :: "conflict_policy \<Rightarrow> string" where
  "conflict_policy_value CP_SERIALIZE = ''serialize''"
| "conflict_policy_value CP_DENY = ''deny''"

record concurrency_budget =
  cb_same_file :: same_file_policy
  cb_unknown :: conflict_policy
  cb_contract :: conflict_policy
  cb_schema :: conflict_policy

definition concurrency_budget_dict :: "concurrency_budget \<Rightarrow> json" where
  "concurrency_budget_dict b = JObj
     [(''same_file'', JStr (same_file_value (cb_same_file b))),
      (''unknown_overlap'', JStr (conflict_policy_value (cb_unknown b))),
      (''shared_contract'', JStr (conflict_policy_value (cb_contract b))),
      (''schema_change'', JStr (conflict_policy_value (cb_schema b)))]"

definition read_conflict_policy :: "metadata \<Rightarrow> string \<Rightarrow> codec_error + conflict_policy" where
  "read_conflict_policy raw key = enum_of conflict_policy_value [CP_SERIALIZE, CP_DENY]
     (get_default raw key (JStr ''serialize''))"

definition lift_policy :: "codec_error + 'a \<Rightarrow> budget_error + 'a" where
  "lift_policy r = (case r of Inl e \<Rightarrow> Inl (BadPolicy e) | Inr a \<Rightarrow> Inr a)"

definition concurrency_budget_from_dict :: "json \<Rightarrow> budget_error + concurrency_budget" where
  "concurrency_budget_from_dict v =
     res_bind (mapping_of ''concurrency'' v) (\<lambda>raw.
     res_bind (reject_unknown ''concurrency''
       [''same_file'', ''unknown_overlap'', ''shared_contract'', ''schema_change''] raw) (\<lambda>_.
     lift_policy
       (res_bind (enum_of same_file_value [REGION_SAFE, SAME_SERIALIZE, SAME_DENY]
           (get_default raw ''same_file'' (JStr ''region_safe''))) (\<lambda>same_file.
        res_bind (read_conflict_policy raw ''unknown_overlap'') (\<lambda>unknown.
        res_bind (read_conflict_policy raw ''shared_contract'') (\<lambda>contract.
        res_bind (read_conflict_policy raw ''schema_change'') (\<lambda>schema.
        Inr \<lparr>cb_same_file = same_file, cb_unknown = unknown, cb_contract = contract,
             cb_schema = schema\<rparr>)))))))"


section \<open>The policy\<close>

record budget_policy =
  bp_workers :: worker_budget
  bp_resources :: resource_budget
  bp_retries :: retry_budget
  bp_concurrency :: concurrency_budget
  bp_metadata :: metadata

definition budget_protocol :: string where
  "budget_protocol = ''claim-plane.swarm-budget-policy.v1''"

definition budget_policy_dict :: "budget_policy \<Rightarrow> json" where
  "budget_policy_dict p = JObj
     [(''protocol'', JStr budget_protocol), (''workers'', worker_budget_dict (bp_workers p)),
      (''resources'', resource_budget_dict (bp_resources p)),
      (''retries'', retry_budget_dict (bp_retries p)),
      (''concurrency'', concurrency_budget_dict (bp_concurrency p)),
      (''metadata'', JObj (bp_metadata p))]"

definition budget_fingerprint :: "(json \<Rightarrow> string) \<Rightarrow> budget_policy \<Rightarrow> string" where
  "budget_fingerprint sha p = sha (canon (budget_policy_dict p))"

definition policy_metadata :: "metadata \<Rightarrow> budget_error + metadata" where
  "policy_metadata raw =
     (let meta = (if truthy (jget raw ''metadata'') then jget raw ''metadata'' else JObj [])
      in case meta of JObj kvs \<Rightarrow> Inr kvs | _ \<Rightarrow> Inl (NotAnObject ''budget_policy.metadata''))"

definition budget_policy_from_dict :: "json \<Rightarrow> budget_error + budget_policy" where
  "budget_policy_from_dict v =
     res_bind (mapping_of ''budget_policy'' v) (\<lambda>raw.
     res_bind (reject_unknown ''budget_policy''
       [''protocol'', ''workers'', ''resources'', ''retries'', ''concurrency'', ''metadata''] raw) (\<lambda>_.
     res_bind (policy_metadata raw) (\<lambda>meta.
     res_bind (worker_budget_from_dict (jget raw ''workers'')) (\<lambda>workers.
     res_bind (resource_budget_from_dict (jget raw ''resources'')) (\<lambda>resources.
     res_bind (retry_budget_from_dict (jget raw ''retries'')) (\<lambda>retries.
     res_bind (concurrency_budget_from_dict (jget raw ''concurrency'')) (\<lambda>concurrency.
     let protocol = (if truthy (jget raw ''protocol'') then py_str (jget raw ''protocol'') else budget_protocol)
     in if protocol \<noteq> budget_protocol then Inl (BadBudgetProtocol protocol)
        else Inr \<lparr>bp_workers = workers, bp_resources = resources, bp_retries = retries,
                  bp_concurrency = concurrency, bp_metadata = meta\<rparr>)))))))"

definition validate_work_item_count :: "budget_policy \<Rightarrow> int \<Rightarrow> budget_error + unit" where
  "validate_work_item_count p count =
     (if count < 1 then Inl EmptyWorkGraph
      else if wb_items (bp_workers p) < count then Inl (TooManyItems count (wb_items (bp_workers p)))
      else if wb_launches (bp_workers p) < count then Inl (TooFewLaunches count (wb_launches (bp_workers p)))
      else Inr ())"

definition budget_summary :: "(json \<Rightarrow> string) \<Rightarrow> budget_policy \<Rightarrow> int option \<Rightarrow> budget_error + metadata" where
  "budget_summary sha p work_items =
     res_bind (case work_items of None \<Rightarrow> Inr () | Some n \<Rightarrow> validate_work_item_count p n) (\<lambda>_.
     Inr [(''fingerprint'', JStr (budget_fingerprint sha p)),
          (''max_active_workers'', JInt (wb_active (bp_workers p))),
          (''max_active_per_work_item'', JInt (wb_per_item (bp_workers p))),
          (''max_work_items'', JInt (wb_items (bp_workers p))),
          (''max_total_launches'', JInt (wb_launches (bp_workers p))),
          (''minimum_required_launches'', jint_opt work_items),
          (''remaining_launch_capacity_after_first_attempt'',
             jint_opt (map_option (\<lambda>n. wb_launches (bp_workers p) - n) work_items)),
          (''max_total_tokens'', jint_opt (rb_tokens (bp_resources p))),
          (''max_cost_usd'', jopt (rb_cost (bp_resources p))),
          (''max_wall_time_seconds'', JInt (rb_wall_time (bp_resources p))),
          (''retries'', retry_budget_dict (bp_retries p)),
          (''concurrency'', concurrency_budget_dict (bp_concurrency p))])"

end
