(* ===== verification/SwarmSession.thy ===== *)
theory SwarmSession
  imports WorkGraph SwarmBudget
begin

text \<open>
  The swarm session of \<open>swarm/models.py\<close>: a pinned commit, a work graph and a budget policy
  with their versions. Its constructor checks that the graph fits the budget, and graph and
  budget may only be replaced while the session is planned.
\<close>

datatype session_state =
  SS_PLANNED | SS_RUNNING | SS_PAUSED | SS_VERIFYING | SS_COMPLETED | SS_FAILED | SS_CANCELLED

fun session_state_value :: "session_state \<Rightarrow> string" where
  "session_state_value SS_PLANNED = ''planned''"
| "session_state_value SS_RUNNING = ''running''"
| "session_state_value SS_PAUSED = ''paused''"
| "session_state_value SS_VERIFYING = ''verifying''"
| "session_state_value SS_COMPLETED = ''completed''"
| "session_state_value SS_FAILED = ''failed''"
| "session_state_value SS_CANCELLED = ''cancelled''"

definition all_session_states :: "session_state list" where
  "all_session_states =
     [SS_PLANNED, SS_RUNNING, SS_PAUSED, SS_VERIFYING, SS_COMPLETED, SS_FAILED, SS_CANCELLED]"

datatype session_error =
    GraphError swarm_error
  | BudgetError budget_error
  | BadSessionProtocol string
  | BadSessionCommit
  | NonPositiveVersion string
  | NotPlanned session_state

definition lift_graph :: "swarm_error + 'a \<Rightarrow> session_error + 'a" where
  "lift_graph r = (case r of Inl e \<Rightarrow> Inl (GraphError e) | Inr a \<Rightarrow> Inr a)"

definition lift_budget :: "budget_error + 'a \<Rightarrow> session_error + 'a" where
  "lift_budget r = (case r of Inl e \<Rightarrow> Inl (BudgetError e) | Inr a \<Rightarrow> Inr a)"

lemma lift_Inr [simp]:
  "lift_graph (Inr a) = Inr a" "lift_budget (Inr b) = Inr b"
  by (simp_all add: lift_graph_def lift_budget_def)

lemma lift_eq_Inr [simp]:
  "lift_graph r = Inr a \<longleftrightarrow> r = Inr a" "lift_budget s = Inr b \<longleftrightarrow> s = Inr b"
  by (auto simp: lift_graph_def lift_budget_def split: sum.splits)

record swarm_session =
  sw_id :: string
  sw_root :: string
  sw_repo :: string
  sw_commit :: string
  sw_branch :: string
  sw_task :: root_task
  sw_target :: integration_target
  sw_graph :: work_graph
  sw_budget :: budget_policy
  sw_graph_version :: int
  sw_budget_version :: int
  sw_state :: session_state
  sw_created :: string
  sw_updated :: string
  sw_metadata :: metadata

definition session_protocol :: string where
  "session_protocol = ''claim-plane.swarm-session.v1''"

text \<open>\<open>re.fullmatch(r"[0-9a-f]{40,64}", commit)\<close>.\<close>

definition hex_between :: "nat \<Rightarrow> nat \<Rightarrow> string \<Rightarrow> bool" where
  "hex_between lo hi s = (lo \<le> length s \<and> length s \<le> hi \<and> list_all is_hex_lower s)"

definition session_post_init :: "swarm_session \<Rightarrow> session_error + swarm_session" where
  "session_post_init s =
     res_bind (lift_graph (clean_text ''session_id'' (sw_id s))) (\<lambda>sid.
     res_bind (lift_graph (clean_text ''repository_root'' (sw_root s))) (\<lambda>root.
     res_bind (lift_graph (clean_text ''repository_identity'' (sw_repo s))) (\<lambda>repo.
     res_bind (lift_graph (clean_text ''base_commit'' (sw_commit s))) (\<lambda>raw.
     if \<not> hex_between 40 64 (lower raw) then Inl BadSessionCommit
     else
     res_bind (lift_graph (clean_text ''base_branch'' (sw_branch s))) (\<lambda>branch.
     res_bind (lift_budget (validate_work_item_count (sw_budget s) (int (length (wg_items (sw_graph s)))))) (\<lambda>_.
     if sw_graph_version s \<le> 0 then Inl (NonPositiveVersion ''graph_version'')
     else if sw_budget_version s \<le> 0 then Inl (NonPositiveVersion ''budget_version'')
     else
     res_bind (lift_graph (clean_text ''created_at'' (sw_created s))) (\<lambda>created.
     res_bind (lift_graph (clean_text ''updated_at'' (sw_updated s))) (\<lambda>updated.
     Inr (s\<lparr>sw_id := sid, sw_root := root, sw_repo := repo, sw_commit := lower raw,
            sw_branch := branch, sw_created := created, sw_updated := updated\<rparr>)))))))))"

definition session_graph_fingerprint :: "(json \<Rightarrow> string) \<Rightarrow> swarm_session \<Rightarrow> string" where
  "session_graph_fingerprint sha s = graph_fingerprint sha (sw_graph s)"

definition session_budget_fingerprint :: "(json \<Rightarrow> string) \<Rightarrow> swarm_session \<Rightarrow> string" where
  "session_budget_fingerprint sha s = budget_fingerprint sha (sw_budget s)"

definition with_graph :: "work_graph \<Rightarrow> string \<Rightarrow> swarm_session \<Rightarrow> session_error + swarm_session" where
  "with_graph g updated s =
     (if sw_state s \<noteq> SS_PLANNED then Inl (NotPlanned (sw_state s))
      else res_bind (lift_budget (validate_work_item_count (sw_budget s) (int (length (wg_items g))))) (\<lambda>_.
        session_post_init (s\<lparr>sw_graph := g, sw_graph_version := sw_graph_version s + 1, sw_updated := updated\<rparr>)))"

definition with_budget_policy :: "budget_policy \<Rightarrow> string \<Rightarrow> swarm_session \<Rightarrow> session_error + swarm_session" where
  "with_budget_policy p updated s =
     (if sw_state s \<noteq> SS_PLANNED then Inl (NotPlanned (sw_state s))
      else res_bind (lift_budget (validate_work_item_count p (int (length (wg_items (sw_graph s)))))) (\<lambda>_.
        session_post_init (s\<lparr>sw_budget := p, sw_budget_version := sw_budget_version s + 1, sw_updated := updated\<rparr>)))"

definition session_dict :: "(json \<Rightarrow> string) \<Rightarrow> swarm_session \<Rightarrow> json" where
  "session_dict sha s = JObj
     [(''protocol'', JStr session_protocol), (''session_id'', JStr (sw_id s)),
      (''repository_root'', JStr (sw_root s)), (''repository_identity'', JStr (sw_repo s)),
      (''base_commit'', JStr (sw_commit s)), (''base_branch'', JStr (sw_branch s)),
      (''root_task'', root_task_dict (sw_task s)),
      (''integration_target'', integration_target_dict (sw_target s)),
      (''state'', JStr (session_state_value (sw_state s))),
      (''graph_version'', JInt (sw_graph_version s)),
      (''graph_fingerprint'', JStr (session_graph_fingerprint sha s)),
      (''work_graph'', work_graph_dict (sw_graph s)),
      (''budget_version'', JInt (sw_budget_version s)),
      (''budget_fingerprint'', JStr (session_budget_fingerprint sha s)),
      (''budget_policy'', budget_policy_dict (sw_budget s)),
      (''created_at'', JStr (sw_created s)), (''updated_at'', JStr (sw_updated s)),
      (''metadata'', JObj (sw_metadata s))]"

text \<open>\<open>data.get(key) or {}\<close> and \<open>int(data.get(key) or n)\<close>.\<close>

definition get_object :: "metadata \<Rightarrow> string \<Rightarrow> json" where
  "get_object data key = (if truthy (jget data key) then jget data key else JObj [])"

definition get_int :: "metadata \<Rightarrow> string \<Rightarrow> int \<Rightarrow> codec_error + int" where
  "get_int data key n = (if truthy (jget data key) then py_int (jget data key) else Inr n)"

definition lift_read :: "codec_error + 'a \<Rightarrow> session_error + 'a" where
  "lift_read r = lift_graph (lift_codec r)"

definition session_from_dict :: "json \<Rightarrow> session_error + swarm_session" where
  "session_from_dict v =
     res_bind (lift_read (as_object v)) (\<lambda>data.
     res_bind (lift_graph (root_task_from_dict (get_object data ''root_task''))) (\<lambda>task.
     res_bind (lift_graph (integration_target_from_dict (get_object data ''integration_target''))) (\<lambda>target.
     res_bind (lift_graph (work_graph_from_dict (get_object data ''work_graph''))) (\<lambda>graph.
     res_bind (lift_budget (budget_policy_from_dict (jget data ''budget_policy''))) (\<lambda>budget.
     res_bind (lift_read (get_int data ''graph_version'' 0)) (\<lambda>gv.
     res_bind (lift_read (get_int data ''budget_version'' 1)) (\<lambda>bv.
     res_bind (lift_read (enum_of session_state_value all_session_states
       (if truthy (jget data ''state'') then jget data ''state'' else JStr ''planned''))) (\<lambda>state.
     res_bind (lift_read (get_dict data ''metadata'')) (\<lambda>meta.
     let protocol = (if truthy (jget data ''protocol'') then py_str (jget data ''protocol'') else session_protocol)
     in if protocol \<noteq> session_protocol then Inl (BadSessionProtocol protocol)
        else session_post_init
          \<lparr>sw_id = get_str data ''session_id'', sw_root = get_str data ''repository_root'',
           sw_repo = get_str data ''repository_identity'', sw_commit = get_str data ''base_commit'',
           sw_branch = get_str data ''base_branch'', sw_task = task, sw_target = target,
           sw_graph = graph, sw_budget = budget, sw_graph_version = gv, sw_budget_version = bv,
           sw_state = state, sw_created = get_str data ''created_at'',
           sw_updated = get_str data ''updated_at'', sw_metadata = meta\<rparr>)))))))))"

end
