(* ===== verification/Worktrees.thy ===== *)
theory Worktrees
  imports SwarmSession
begin

text \<open>
  Managed worktrees (\<open>swarm/worktrees.py\<close>): the names under which a session's branches and
  directories are created and the ownership record of one worktree. The digest of a text is
  the parameter \<open>sha_text\<close>; \<open>str(Path(p).resolve())\<close>, which asks the file system, is the
  parameter \<open>resolve\<close>.
\<close>


section \<open>Names\<close>

definition slug_char :: "char \<Rightarrow> bool" where
  "slug_char c = (is_alnum c \<or> c = CHR ''.'' \<or> c = CHR ''_'' \<or> c = CHR ''-'')"

definition slug_trim :: "char \<Rightarrow> bool" where
  "slug_trim c = (c = CHR ''.'' \<or> c = CHR ''-'' \<or> c = CHR ''_'')"

text \<open>\<open>re.sub(r"[^A-Za-z0-9._-]+", "-", value)\<close>; the flag says that a run is being replaced.\<close>

fun dash_runs :: "bool \<Rightarrow> string \<Rightarrow> string" where
  "dash_runs run [] = []"
| "dash_runs run (c # cs) =
     (if slug_char c then c # dash_runs False cs
      else if run then dash_runs True cs else CHR ''-'' # dash_runs True cs)"

definition or_item :: "string \<Rightarrow> string" where
  "or_item s = (if s = [] then ''item'' else s)"

definition slug :: "string \<Rightarrow> nat \<Rightarrow> string" where
  "slug value limit =
     (let cleaned = or_item (lower (rstrip_by slug_trim (lstrip_by slug_trim (dash_runs False value))))
      in or_item (rstrip_by slug_trim (take limit cleaned)))"

definition text_digest :: "(string \<Rightarrow> string) \<Rightarrow> string \<Rightarrow> string" where
  "text_digest sha_text value = take 10 (sha_text value)"

definition managed_session_component :: "(string \<Rightarrow> string) \<Rightarrow> string \<Rightarrow> string" where
  "managed_session_component sha_text session_id = slug session_id 32 @ ''-'' @ text_digest sha_text session_id"

definition managed_work_component :: "(string \<Rightarrow> string) \<Rightarrow> string \<Rightarrow> string" where
  "managed_work_component sha_text work_id = slug work_id 32 @ ''-'' @ text_digest sha_text work_id"

definition managed_branch_name :: "(string \<Rightarrow> string) \<Rightarrow> string \<Rightarrow> string \<Rightarrow> string" where
  "managed_branch_name sha_text session_id work_id =
     ''claim-plane/swarm/'' @ managed_session_component sha_text session_id @ ''/''
       @ managed_work_component sha_text work_id"

definition managed_worktree_path :: "(string \<Rightarrow> string) \<Rightarrow> (string \<Rightarrow> string) \<Rightarrow> string \<Rightarrow> string \<Rightarrow> string \<Rightarrow> string" where
  "managed_worktree_path sha_text resolve root session_id work_id =
     resolve (root @ ''/.claim-plane/worktrees/'' @ managed_session_component sha_text session_id @ ''/''
       @ managed_work_component sha_text work_id)"


section \<open>The ownership record\<close>

datatype worktree_state = WT_PROVISIONED | WT_RELEASED

fun worktree_state_value :: "worktree_state \<Rightarrow> string" where
  "worktree_state_value WT_PROVISIONED = ''provisioned''"
| "worktree_state_value WT_RELEASED = ''released''"

record managed_worktree =
  mw_session :: string
  mw_work :: string
  mw_repo :: string
  mw_graph_version :: int
  mw_graph_fingerprint :: string
  mw_base :: string
  mw_branch :: string
  mw_path :: string
  mw_created :: string
  mw_updated :: string
  mw_state :: worktree_state
  mw_worker :: "string option"
  mw_intent :: "string option"
  mw_metadata :: metadata

datatype worktree_error =
    WorktreeText swarm_error
  | WorktreeProtocol string
  | UnsafeId string
  | WorktreeDigest string
  | WorktreeVersion
  | ForeignBranch
  | RelativePath

definition worktree_text :: "string \<Rightarrow> string \<Rightarrow> worktree_error + string" where
  "worktree_text name v = (case clean_text name v of Inl e \<Rightarrow> Inl (WorktreeText e) | Inr t \<Rightarrow> Inr t)"

definition safe_id :: "nat \<Rightarrow> string \<Rightarrow> bool" where
  "safe_id limit s = (s \<noteq> [] \<and> is_alnum (hd s) \<and> length s \<le> limit \<and> list_all slug_char s)"

definition worktree_hex :: "string \<Rightarrow> nat \<Rightarrow> nat \<Rightarrow> string \<Rightarrow> worktree_error + string" where
  "worktree_hex name lo hi v = res_bind (worktree_text name v) (\<lambda>t.
     if hex_between lo hi (lower t) then Inr (lower t) else Inl (WorktreeDigest name))"

definition worktree_opt :: "string \<Rightarrow> string option \<Rightarrow> worktree_error + string option" where
  "worktree_opt name v = (case v of None \<Rightarrow> Inr None
     | Some t \<Rightarrow> res_bind (worktree_text name t) (\<lambda>c. Inr (Some c)))"

definition worktree_protocol :: string where
  "worktree_protocol = ''claim-plane.swarm-managed-worktree.v1''"

definition worktree_post_init :: "(string \<Rightarrow> string) \<Rightarrow> managed_worktree \<Rightarrow> worktree_error + managed_worktree" where
  "worktree_post_init resolve w =
     res_bind (worktree_text ''session_id'' (mw_session w)) (\<lambda>sid.
     res_bind (worktree_text ''work_id'' (mw_work w)) (\<lambda>wid.
     if \<not> safe_id 96 sid then Inl (UnsafeId ''session_id'')
     else if \<not> safe_id 64 wid then Inl (UnsafeId ''work_id'')
     else
     res_bind (worktree_hex ''repository_identity'' 64 64 (mw_repo w)) (\<lambda>repo.
     if mw_graph_version w \<le> 0 then Inl WorktreeVersion
     else
     res_bind (worktree_hex ''graph_fingerprint'' 64 64 (mw_graph_fingerprint w)) (\<lambda>gf.
     res_bind (worktree_hex ''base_commit'' 40 64 (mw_base w)) (\<lambda>base.
     res_bind (worktree_text ''branch'' (mw_branch w)) (\<lambda>branch.
     if \<not> starts_with branch ''claim-plane/swarm/'' then Inl ForeignBranch
     else
     res_bind (worktree_text ''worktree_path'' (mw_path w)) (\<lambda>path.
     if \<not> starts_with path ''/'' then Inl RelativePath
     else
     res_bind (worktree_text ''created_at'' (mw_created w)) (\<lambda>created.
     res_bind (worktree_text ''updated_at'' (mw_updated w)) (\<lambda>updated.
     res_bind (worktree_opt ''worker_id'' (mw_worker w)) (\<lambda>worker.
     res_bind (worktree_opt ''intent_id'' (mw_intent w)) (\<lambda>intent.
     Inr (w\<lparr>mw_session := sid, mw_work := wid, mw_repo := repo, mw_graph_fingerprint := gf,
            mw_base := base, mw_branch := branch, mw_path := resolve path, mw_created := created,
            mw_updated := updated, mw_worker := worker, mw_intent := intent\<rparr>))))))))))))"

definition worktree_dict :: "managed_worktree \<Rightarrow> json" where
  "worktree_dict w = JObj
     [(''protocol'', JStr worktree_protocol), (''session_id'', JStr (mw_session w)),
      (''work_id'', JStr (mw_work w)), (''repository_identity'', JStr (mw_repo w)),
      (''graph_version'', JInt (mw_graph_version w)),
      (''graph_fingerprint'', JStr (mw_graph_fingerprint w)), (''base_commit'', JStr (mw_base w)),
      (''branch'', JStr (mw_branch w)), (''worktree_path'', JStr (mw_path w)),
      (''state'', JStr (worktree_state_value (mw_state w))), (''worker_id'', jopt (mw_worker w)),
      (''intent_id'', jopt (mw_intent w)), (''created_at'', JStr (mw_created w)),
      (''updated_at'', JStr (mw_updated w)), (''metadata'', JObj (mw_metadata w))]"

definition worktree_fingerprint :: "(json \<Rightarrow> string) \<Rightarrow> managed_worktree \<Rightarrow> string" where
  "worktree_fingerprint sha w = sha (canon (worktree_dict w))"

definition all_worktree_states :: "worktree_state list" where
  "all_worktree_states = [WT_PROVISIONED, WT_RELEASED]"

text \<open>\<open>None if data.get(key) is None else str(data.get(key))\<close>.\<close>

definition get_optional_str :: "metadata \<Rightarrow> string \<Rightarrow> string option" where
  "get_optional_str data key = (if jget data key = JNull then None else Some (py_str (jget data key)))"

definition lift_worktree :: "codec_error + 'a \<Rightarrow> worktree_error + 'a" where
  "lift_worktree r = (case lift_codec r of Inl e \<Rightarrow> Inl (WorktreeText e) | Inr a \<Rightarrow> Inr a)"

definition worktree_from_dict :: "(string \<Rightarrow> string) \<Rightarrow> json \<Rightarrow> worktree_error + managed_worktree" where
  "worktree_from_dict resolve v =
     res_bind (lift_worktree (as_object v)) (\<lambda>data.
     res_bind (lift_worktree (get_int data ''graph_version'' 0)) (\<lambda>gv.
     res_bind (lift_worktree (enum_of worktree_state_value all_worktree_states
       (if truthy (jget data ''state'') then jget data ''state'' else JStr ''provisioned''))) (\<lambda>state.
     res_bind (lift_worktree (get_dict data ''metadata'')) (\<lambda>meta.
     let protocol = (if truthy (jget data ''protocol'') then py_str (jget data ''protocol'') else worktree_protocol)
     in if protocol \<noteq> worktree_protocol then Inl (WorktreeProtocol protocol)
        else worktree_post_init resolve
          \<lparr>mw_session = get_str data ''session_id'', mw_work = get_str data ''work_id'',
           mw_repo = get_str data ''repository_identity'', mw_graph_version = gv,
           mw_graph_fingerprint = get_str data ''graph_fingerprint'', mw_base = get_str data ''base_commit'',
           mw_branch = get_str data ''branch'', mw_path = get_str data ''worktree_path'',
           mw_created = get_str data ''created_at'', mw_updated = get_str data ''updated_at'',
           mw_state = state, mw_worker = get_optional_str data ''worker_id'',
           mw_intent = get_optional_str data ''intent_id'', mw_metadata = meta\<rparr>))))"


section \<open>Safe names\<close>

text \<open>A path component that can be neither empty, nor hidden, nor a step to the parent.\<close>

definition safe_component :: "string \<Rightarrow> bool" where
  "safe_component s = (s \<noteq> [] \<and> is_alnum (hd s) \<and> list_all slug_char s)"

lemma slug_char_lower: "slug_char c \<Longrightarrow> slug_char (to_lower c)"
proof -
  assume c: "slug_char c"
  show ?thesis
  proof (cases "is_upper c")
    case True
    then have "is_alnum c" by (simp add: is_alnum_def)
    then show ?thesis by (simp add: slug_char_def is_alnum_to_lower)
  next
    case False
    then show ?thesis using c by (simp add: to_lower_def)
  qed
qed

lemma dash_runs_chars: "list_all slug_char (dash_runs run s)"
  by (induction run s rule: dash_runs.induct) (auto simp: slug_char_def)

lemma strip_chars:
  "list_all P s \<Longrightarrow> list_all P (lstrip_by Q s)" "list_all P s \<Longrightarrow> list_all P (rstrip_by Q s)"
  by (auto simp: lstrip_by_def rstrip_by_def list_all_iff dest: set_dropWhileD)

lemma slug_char_alnum: "slug_char c \<Longrightarrow> \<not> slug_trim c \<Longrightarrow> is_alnum c"
  by (auto simp: slug_char_def slug_trim_def)

lemma rstrip_hd: "rstrip_by P s \<noteq> [] \<Longrightarrow> hd (rstrip_by P s) = hd s"
  using rstrip_by_prefix [of s P] by (metis hd_append2)

lemma alnum_not_trimmed: "is_alnum c \<Longrightarrow> \<not> slug_trim c"
  by (auto simp: slug_trim_def is_alnum_def is_digit_def is_upper_def is_lower_def code_def)

lemma safe_item: "safe_component ''item''"
  by code_simp

lemma safe_or_item: "s = [] \<or> safe_component s \<Longrightarrow> safe_component (or_item s)"
  using safe_item by (auto simp: or_item_def)

lemma rstrip_safe:
  assumes "s = [] \<or> is_alnum (hd s)" and "list_all slug_char s"
  shows "rstrip_by slug_trim s = [] \<or> safe_component (rstrip_by slug_trim s)"
proof (cases "rstrip_by slug_trim s = []")
  case False
  then have "s \<noteq> []" by (auto simp: rstrip_by_def)
  with False show ?thesis
    using assms strip_chars(2) [OF assms(2), of slug_trim] rstrip_hd [of slug_trim s] by (simp add: safe_component_def)
qed simp

lemma slug_safe:
  assumes "0 < limit"
  shows "safe_component (slug value limit)"
proof -
  let ?d = "lstrip_by slug_trim (dash_runs False value)"
  have "?d = [] \<or> is_alnum (hd ?d)"
    using hd_lstrip_by [of slug_trim "dash_runs False value"] strip_chars(1) [OF dash_runs_chars, of slug_trim False "value"]
    by (cases ?d) (auto intro: slug_char_alnum)
  then have "rstrip_by slug_trim ?d = [] \<or> safe_component (rstrip_by slug_trim ?d)"
    by (rule rstrip_safe) (rule strip_chars(1) [OF dash_runs_chars])
  then have "lower (rstrip_by slug_trim ?d) = [] \<or> safe_component (lower (rstrip_by slug_trim ?d))"
    by (auto simp: safe_component_def lower_def list_all_iff slug_char_lower is_alnum_to_lower hd_map)
  then have c: "safe_component (or_item (lower (rstrip_by slug_trim ?d)))" (is "safe_component ?c")
    by (rule safe_or_item)
  then have "is_alnum (hd (take limit ?c))" "list_all slug_char (take limit ?c)"
    using assms by (auto simp: safe_component_def list_all_iff dest: in_set_takeD)
  then have "rstrip_by slug_trim (take limit ?c) = [] \<or> safe_component (rstrip_by slug_trim (take limit ?c))"
    by (intro rstrip_safe) simp_all
  then show ?thesis unfolding slug_def Let_def by (rule safe_or_item)
qed

text \<open>What the model uses of \<open>hashlib.sha256(...).hexdigest()\<close>: its letters.\<close>

definition hex_texts :: "(string \<Rightarrow> string) \<Rightarrow> bool" where
  "hex_texts sha_text \<longleftrightarrow> (\<forall>v. list_all is_hex_lower (sha_text v))"

lemma hex_slug: "is_hex_lower c \<Longrightarrow> slug_char c"
  by (auto simp: is_hex_lower_def slug_char_def is_alnum_def is_digit_def is_lower_def Let_def)

lemma digest_chars: "hex_texts sha_text \<Longrightarrow> list_all slug_char (text_digest sha_text v)"
  by (auto simp: hex_texts_def text_digest_def list_all_iff hex_slug dest!: in_set_takeD)

lemma component_safe:
  assumes "hex_texts sha_text"
  shows "safe_component (slug v 32 @ ''-'' @ text_digest sha_text v)"
  using slug_safe [of 32 v] digest_chars [OF assms, of v]
  by (auto simp: safe_component_def slug_char_def [of "CHR ''-''"])

text \<open>
  whatever text a session or work item is called, its directory components are non-empty,
  begin with a letter or digit and hold only letters, digits, dots, dashes and underscores: no
  name leads out of the directory of managed worktrees, and the branch stays in its namespace.
\<close>
theorem managed_names_contained:
  assumes "hex_texts sha_text"
  shows "safe_component (managed_session_component sha_text session_id)
    \<and> safe_component (managed_work_component sha_text work_id)
    \<and> starts_with (managed_branch_name sha_text session_id work_id) ''claim-plane/swarm/''"
proof (intro conjI)
  show "starts_with (managed_branch_name sha_text session_id work_id) ''claim-plane/swarm/''"
    unfolding managed_branch_name_def by (rule starts_with_append)
qed (use component_safe [OF assms] in \<open>simp_all add: managed_session_component_def managed_work_component_def\<close>)

lemma managed_names_contained_witness:
  "safe_component (managed_session_component (\<lambda>_. ''0a1b2c3d4e5f'') ''../../etc/passwd'')
   \<and> managed_session_component (\<lambda>_. ''0a1b2c3d4e5f'') ''../../etc/passwd'' = ''etc-passwd-0a1b2c3d4e''"
proof -
  have "hex_texts (\<lambda>_. ''0a1b2c3d4e5f'')" unfolding hex_texts_def by (intro allI) code_simp
  from managed_names_contained [OF this] have
    "safe_component (managed_session_component (\<lambda>_. ''0a1b2c3d4e5f'') ''../../etc/passwd'')" by blast
  moreover have "managed_session_component (\<lambda>_. ''0a1b2c3d4e5f'') ''../../etc/passwd'' = ''etc-passwd-0a1b2c3d4e''"
    by code_simp
  ultimately show ?thesis by blast
qed

end
