(* ===== verification/Scheduler.thy ===== *)
theory Scheduler
  imports SwarmSession AdmissionEngine "HOL-Library.Product_Lexorder"
begin

text \<open>
  The dynamic scheduler of \<open>swarm/scheduler.py\<close> over the run records of \<open>swarm/runs.py\<close> and
  the shared admission of \<open>swarm/admission.py\<close>: which work items may be dispatched now. Of a
  run record the fields are kept that scheduling and the launch budgets read; of an admission
  the item's verdict and its effective dependencies.
\<close>


section \<open>Runs\<close>

datatype run_state =
  R_RESERVED | R_RUNNING | R_CANCELLING | R_SUCCEEDED | R_FAILED | R_TIMED_OUT | R_CANCELLED
  | R_TOKEN_BUDGET_EXCEEDED | R_SPAWN_FAILED | R_LOST

fun run_state_value :: "run_state \<Rightarrow> string" where
  "run_state_value R_RESERVED = ''reserved''"
| "run_state_value R_RUNNING = ''running''"
| "run_state_value R_CANCELLING = ''cancelling''"
| "run_state_value R_SUCCEEDED = ''succeeded''"
| "run_state_value R_FAILED = ''failed''"
| "run_state_value R_TIMED_OUT = ''timed_out''"
| "run_state_value R_CANCELLED = ''cancelled''"
| "run_state_value R_TOKEN_BUDGET_EXCEEDED = ''token_budget_exceeded''"
| "run_state_value R_SPAWN_FAILED = ''spawn_failed''"
| "run_state_value R_LOST = ''lost''"

definition run_terminal :: "run_state \<Rightarrow> bool" where
  "run_terminal s = (s \<in> {R_SUCCEEDED, R_FAILED, R_TIMED_OUT, R_CANCELLED, R_TOKEN_BUDGET_EXCEEDED,
     R_SPAWN_FAILED, R_LOST})"

definition run_active :: "run_state \<Rightarrow> bool" where
  "run_active s = (s \<in> {R_RESERVED, R_RUNNING, R_CANCELLING})"

lemma run_active_or_terminal: "run_active s \<longleftrightarrow> \<not> run_terminal s"
  by (cases s) (simp_all add: run_active_def run_terminal_def)

record codex_usage =
  us_input :: int
  us_cached :: int
  us_output :: int
  us_reasoning :: int

definition usage_post_init :: "codex_usage \<Rightarrow> string + codex_usage" where
  "usage_post_init u =
     (if us_input u < 0 then Inl ''input_tokens''
      else if us_cached u < 0 then Inl ''cached_input_tokens''
      else if us_output u < 0 then Inl ''output_tokens''
      else if us_reasoning u < 0 then Inl ''reasoning_output_tokens''
      else Inr u)"

definition total_tokens :: "codex_usage \<Rightarrow> int" where
  "total_tokens u = us_input u + us_output u"

definition usage_plus :: "codex_usage \<Rightarrow> codex_usage \<Rightarrow> codex_usage" where
  "usage_plus a b = \<lparr>us_input = us_input a + us_input b, us_cached = us_cached a + us_cached b,
     us_output = us_output a + us_output b, us_reasoning = us_reasoning a + us_reasoning b\<rparr>"

record codex_run =
  cr_id :: string
  cr_session :: string
  cr_work :: string
  cr_attempt :: int
  cr_state :: run_state
  cr_graph_version :: int
  cr_graph_fingerprint :: string
  cr_budget_version :: int
  cr_budget_fingerprint :: string
  cr_token_limit :: "int option"
  cr_usage :: codex_usage
  cr_created :: string
  cr_updated :: string
  cr_reason :: "string option"

text \<open>\<open>latest_runs\<close>: the last record of a work item in the order of attempt and creation time.\<close>

definition latest_run :: "codex_run list \<Rightarrow> string \<Rightarrow> codex_run option" where
  "latest_run records w =
     (case filter (\<lambda>r. cr_work r = w) (sort_key (\<lambda>r. (cr_attempt r, cr_created r)) records) of
        [] \<Rightarrow> None | rs \<Rightarrow> Some (last rs))"

definition attempts_of :: "codex_run list \<Rightarrow> string \<Rightarrow> int" where
  "attempts_of records w = int (length (filter (\<lambda>r. cr_work r = w) records))"

definition active_workers :: "codex_run list \<Rightarrow> int" where
  "active_workers records = int (length (filter (\<lambda>r. run_active (cr_state r)) records))"


section \<open>The shared admission plan\<close>

datatype plan_status = PLAN_READY | PLAN_REPLAN

fun plan_status_value :: "plan_status \<Rightarrow> string" where
  "plan_status_value PLAN_READY = ''ready''"
| "plan_status_value PLAN_REPLAN = ''replan_required''"

record work_admission =
  wa_work :: string
  wa_intent :: change_intent
  wa_allowed :: bool
  wa_kind :: admission_kind
  wa_dependencies :: "string list"
  wa_conflicts :: "json list"
  wa_constraints :: "string list"
  wa_notifications :: "string list"
  wa_guidance :: string

record admission_plan =
  ap_session :: string
  ap_repo :: string
  ap_graph_version :: int
  ap_graph_fingerprint :: string
  ap_budget_version :: int
  ap_budget_fingerprint :: string
  ap_concurrency_fingerprint :: string
  ap_status :: plan_status
  ap_admissions :: "work_admission list"
  ap_metadata :: metadata

datatype plan_error =
    EmptyPlanField string
  | NotADigest string
  | NonPositivePlanVersion
  | NoAdmissions
  | RepeatedAdmission
  | BlockedInReady
  | NothingBlocked

definition work_admission_post_init :: "work_admission \<Rightarrow> plan_error + work_admission" where
  "work_admission_post_init a =
     (if wa_work a = [] then Inl (EmptyPlanField ''work_id'')
      else Inr (a\<lparr>wa_dependencies := sorted_set (wa_dependencies a),
                 wa_constraints := uniq (wa_constraints a),
                 wa_notifications := uniq (wa_notifications a)\<rparr>))"

definition digest_field :: "string \<Rightarrow> string \<Rightarrow> plan_error + string" where
  "digest_field name v =
     (let d = lower v in if hex_between 64 64 d then Inr d else Inl (NotADigest name))"

definition admission_plan_post_init :: "admission_plan \<Rightarrow> plan_error + admission_plan" where
  "admission_plan_post_init p =
     (if ap_session p = [] then Inl (EmptyPlanField ''session_id'')
      else if ap_graph_version p \<le> 0 \<or> ap_budget_version p \<le> 0 then Inl NonPositivePlanVersion
      else
      res_bind (digest_field ''repository_identity'' (ap_repo p)) (\<lambda>repo.
      res_bind (digest_field ''graph_fingerprint'' (ap_graph_fingerprint p)) (\<lambda>gf.
      res_bind (digest_field ''budget_fingerprint'' (ap_budget_fingerprint p)) (\<lambda>bf.
      res_bind (digest_field ''concurrency_plan_fingerprint'' (ap_concurrency_fingerprint p)) (\<lambda>cf.
      let admissions = sort_key wa_work (ap_admissions p)
      in if admissions = [] then Inl NoAdmissions
         else if \<not> distinct (map wa_work admissions) then Inl RepeatedAdmission
         else if ap_status p = PLAN_READY \<and> \<not> list_all wa_allowed admissions then Inl BlockedInReady
         else if ap_status p = PLAN_REPLAN \<and> list_all wa_allowed admissions then Inl NothingBlocked
         else Inr (p\<lparr>ap_repo := repo, ap_graph_fingerprint := gf, ap_budget_fingerprint := bf,
                    ap_concurrency_fingerprint := cf, ap_admissions := admissions\<rparr>))))))"

definition work_admission_dict :: "work_admission \<Rightarrow> json" where
  "work_admission_dict a = JObj
     [(''work_id'', JStr (wa_work a)), (''intent'', intent_dict (wa_intent a)),
      (''allowed'', JBool (wa_allowed a)), (''kind'', JStr (admission_value (wa_kind a))),
      (''effective_dependencies'', jstrs (wa_dependencies a)), (''conflicts'', JList (wa_conflicts a)),
      (''constraints'', jstrs (wa_constraints a)), (''notifications'', jstrs (wa_notifications a)),
      (''guidance'', JStr (wa_guidance a))]"

definition plan_protocol :: string where
  "plan_protocol = ''claim-plane.swarm-shared-admission.v1''"

definition admission_plan_dict :: "admission_plan \<Rightarrow> json" where
  "admission_plan_dict p = JObj
     [(''protocol'', JStr plan_protocol), (''session_id'', JStr (ap_session p)),
      (''repository_identity'', JStr (ap_repo p)), (''graph_version'', JInt (ap_graph_version p)),
      (''graph_fingerprint'', JStr (ap_graph_fingerprint p)),
      (''budget_version'', JInt (ap_budget_version p)),
      (''budget_fingerprint'', JStr (ap_budget_fingerprint p)),
      (''concurrency_plan_fingerprint'', JStr (ap_concurrency_fingerprint p)),
      (''status'', JStr (plan_status_value (ap_status p))),
      (''admissions'', JList (map work_admission_dict (ap_admissions p))),
      (''metadata'', JObj (ap_metadata p))]"

definition plan_fingerprint :: "(json \<Rightarrow> string) \<Rightarrow> admission_plan \<Rightarrow> string" where
  "plan_fingerprint sha p = sha (canon (admission_plan_dict p))"

definition admission_of :: "admission_plan \<Rightarrow> string \<Rightarrow> work_admission option" where
  "admission_of p w = find_row wa_work w (ap_admissions p)"


section \<open>The snapshot\<close>

datatype scheduler_status = SCHED_READY | SCHED_BLOCKED | SCHED_COMPLETED | SCHED_REPLAN

datatype work_state =
  W_PENDING | W_BLOCKED | W_RUNNABLE | W_QUEUED_CAPACITY | W_ACTIVE | W_SUCCEEDED | W_RETRYABLE
  | W_FAILED | W_REPLAN

record scheduled_work =
  sk_work :: string
  sk_state :: work_state
  sk_dependencies :: "string list"
  sk_attempts :: int
  sk_run :: "string option"
  sk_detail :: string

record scheduler_snapshot =
  sn_session :: string
  sn_admission_fingerprint :: string
  sn_status :: scheduler_status
  sn_active :: int
  sn_max_active :: int
  sn_dispatchable :: "string list"
  sn_work :: "scheduled_work list"
  sn_metadata :: metadata

datatype scheduler_error =
    StaleAdmission
  | NoAdmissionFor string
  | UnknownWork string
  | SchedulerGraph swarm_error
  | InvalidWorkerCounts

definition scheduled :: "string \<Rightarrow> work_state \<Rightarrow> work_admission \<Rightarrow> int \<Rightarrow> codex_run option \<Rightarrow> string \<Rightarrow> scheduled_work" where
  "scheduled w state item n record detail =
     \<lparr>sk_work = w, sk_state = state, sk_dependencies = sorted_set (wa_dependencies item),
      sk_attempts = n, sk_run = map_option cr_id record, sk_detail = detail\<rparr>"

text \<open>A dependency that is not released yet, and one whose retries are used up.\<close>

definition dependency_missing :: "codex_run list \<Rightarrow> string list option \<Rightarrow> string \<Rightarrow> bool" where
  "dependency_missing records integrated d =
     ((case latest_run records d of None \<Rightarrow> True | Some r \<Rightarrow> cr_state r \<noteq> R_SUCCEEDED)
      \<or> (case integrated of None \<Rightarrow> False | Some done \<Rightarrow> d \<notin> set done))"

definition retries_exhausted :: "string list \<Rightarrow> codex_run list \<Rightarrow> int \<Rightarrow> string \<Rightarrow> scheduler_error + bool" where
  "retries_exhausted ids records max_attempts d = (case latest_run records d of
       None \<Rightarrow> Inr False
     | Some r \<Rightarrow>
         if run_terminal (cr_state r) \<and> cr_state r \<noteq> R_SUCCEEDED
         then (if d \<in> set ids then Inr (max_attempts \<le> attempts_of records d) else Inl (UnknownWork d))
         else Inr False)"

definition exhausted_among :: "string list \<Rightarrow> codex_run list \<Rightarrow> int \<Rightarrow> string list \<Rightarrow> scheduler_error + string list" where
  "exhausted_among ids records max_attempts missing =
     res_bind (res_map (\<lambda>d. res_bind (retries_exhausted ids records max_attempts d) (\<lambda>b. Inr (d, b))) missing)
       (\<lambda>flags. Inr (map fst (filter snd flags)))"

text \<open>The preliminary state of one item, and whether it is a candidate for dispatch.\<close>

definition preliminary_work ::
  "admission_plan \<Rightarrow> string list \<Rightarrow> codex_run list \<Rightarrow> string list option \<Rightarrow> int \<Rightarrow> string
   \<Rightarrow> scheduler_error + scheduled_work \<times> bool" where
  "preliminary_work plan ids records integrated max_attempts w =
     (case admission_of plan w of
        None \<Rightarrow> Inl (NoAdmissionFor w)
      | Some item \<Rightarrow>
          let record = latest_run records w;
              n = attempts_of records w;
              entry = (\<lambda>state detail. scheduled w state item n record detail)
          in if ap_status plan = PLAN_REPLAN \<or> \<not> wa_allowed item
             then Inr (entry W_REPLAN ''shared admission did not grant this work item'', False)
             else if (case record of None \<Rightarrow> False | Some r \<Rightarrow> cr_state r = R_SUCCEEDED)
             then Inr (entry W_SUCCEEDED ''latest execution succeeded; verification remains separate'', False)
             else if (case record of None \<Rightarrow> False | Some r \<Rightarrow> run_active (cr_state r))
             then Inr (entry W_ACTIVE (''worker run is '' @ run_state_value (cr_state (the record))), False)
             else
               let missing = filter (dependency_missing records integrated) (wa_dependencies item)
               in res_bind (exhausted_among ids records max_attempts missing) (\<lambda>exhausted.
                    if exhausted \<noteq> []
                    then Inr (entry W_BLOCKED (''dependency retry budget exhausted: '' @ join '', '' exhausted), False)
                    else if missing \<noteq> []
                    then Inr (entry W_BLOCKED (''waiting for dependencies: '' @ join '', '' missing), False)
                    else if (case record of None \<Rightarrow> False | Some r \<Rightarrow> run_terminal (cr_state r)) \<and> max_attempts \<le> n
                    then Inr (entry W_FAILED ''worker retry budget exhausted'', False)
                    else Inr (entry (if record = None then W_PENDING else W_RETRYABLE) ''dependencies satisfied'', True)))"

definition finish_work :: "string list \<Rightarrow> scheduled_work \<times> bool \<Rightarrow> scheduled_work" where
  "finish_work dispatchable p =
     (if \<not> snd p then fst p
      else if sk_work (fst p) \<in> set dispatchable
      then (fst p)\<lparr>sk_state := W_RUNNABLE,
             sk_detail := ''admitted, dependencies satisfied, worker slot available''\<rparr>
      else (fst p)\<lparr>sk_state := W_QUEUED_CAPACITY,
             sk_detail := ''admitted and dependency-ready; waiting for worker capacity''\<rparr>)"

definition scheduler_metadata :: "string list option \<Rightarrow> nat \<Rightarrow> nat \<Rightarrow> metadata" where
  "scheduler_metadata integrated ready dispatched =
     [(''success_semantics'', JStr ''codex_execution_succeeded_not_verified''),
      (''ordering'', JStr ''continuous-runnable-frontier-v1''),
      (''static_waves'', JStr ''advisory_only_not_a_runtime_barrier''),
      (''dependency_release'', JStr (if integrated \<noteq> None then ''integrated'' else ''execution_succeeded'')),
      (''dependency_ready_count'', JInt (int ready)),
      (''frontier_dispatchable_count'', JInt (int dispatched)),
      (''frontier_capacity_queued_count'', JInt (max 0 (int ready - int dispatched)))]"

definition admission_current :: "(json \<Rightarrow> string) \<Rightarrow> swarm_session \<Rightarrow> admission_plan \<Rightarrow> bool" where
  "admission_current sha s p \<longleftrightarrow>
     ap_session p = sw_id s \<and> ap_repo p = sw_repo s \<and> ap_graph_version p = sw_graph_version s
     \<and> ap_graph_fingerprint p = session_graph_fingerprint sha s
     \<and> ap_budget_version p = sw_budget_version s
     \<and> ap_budget_fingerprint p = session_budget_fingerprint sha s"

definition compute_scheduler_snapshot ::
  "(json \<Rightarrow> string) \<Rightarrow> swarm_session \<Rightarrow> admission_plan \<Rightarrow> codex_run list \<Rightarrow> string list option
   \<Rightarrow> scheduler_error + scheduler_snapshot" where
  "compute_scheduler_snapshot sha s plan records integrated =
     (if \<not> admission_current sha s plan then Inl StaleAdmission
      else
        let max_attempts = 1 + yb_restarts (bp_retries (sw_budget s));
            max_active = wb_active (bp_workers (sw_budget s));
            active = active_workers records
        in res_bind (case topological_order (sw_graph s) of Inl e \<Rightarrow> Inl (SchedulerGraph e) | Inr o' \<Rightarrow> Inr o') (\<lambda>order.
           res_bind (res_map (preliminary_work plan (map wi_id (wg_items (sw_graph s))) records integrated max_attempts)
                       order) (\<lambda>prelim.
           let candidates = map (sk_work \<circ> fst) (filter snd prelim);
               dispatchable = take (nat (max 0 (max_active - active))) candidates;
               final = map (finish_work dispatchable) prelim;
               status = (if ap_status plan = PLAN_REPLAN then SCHED_REPLAN
                         else if list_all (\<lambda>k. sk_state k = W_SUCCEEDED) final then SCHED_COMPLETED
                         else if dispatchable \<noteq> [] \<or> active \<noteq> 0 then SCHED_READY
                         else SCHED_BLOCKED)
           in if max_active \<le> 0 then Inl InvalidWorkerCounts
              else Inr \<lparr>sn_session = sw_id s, sn_admission_fingerprint = plan_fingerprint sha plan, sn_status = status,
                        sn_active = active, sn_max_active = max_active, sn_dispatchable = dispatchable,
                        sn_work = final,
                        sn_metadata = scheduler_metadata integrated (length candidates) (length dispatchable)\<rparr>)))"

end
