(* ===== verification/MergeQueue.thy ===== *)
theory MergeQueue
  imports Worktrees Scheduler
begin

text \<open>
  The deterministic merge queue (\<open>swarm/merge_queue.py\<close>): its entries and their states, the
  status of a queue, and the computation of a queue from the session, the shared admission,
  the runs, the worktrees and the previous queue.
\<close>


section \<open>Entries\<close>

datatype entry_state = ME_PENDING | ME_BLOCKED | ME_READY | ME_INTEGRATING | ME_INTEGRATED | ME_CONFLICT

fun entry_state_value :: "entry_state \<Rightarrow> string" where
  "entry_state_value ME_PENDING = ''pending''"
| "entry_state_value ME_BLOCKED = ''blocked''"
| "entry_state_value ME_READY = ''ready''"
| "entry_state_value ME_INTEGRATING = ''integrating''"
| "entry_state_value ME_INTEGRATED = ''integrated''"
| "entry_state_value ME_CONFLICT = ''conflict''"

definition all_entry_states :: "entry_state list" where
  "all_entry_states = [ME_PENDING, ME_BLOCKED, ME_READY, ME_INTEGRATING, ME_INTEGRATED, ME_CONFLICT]"

datatype queue_status = MQ_WAITING | MQ_READY | MQ_INTEGRATING | MQ_CONFLICT | MQ_COMPLETED | MQ_STALE

fun queue_status_value :: "queue_status \<Rightarrow> string" where
  "queue_status_value MQ_WAITING = ''waiting''"
| "queue_status_value MQ_READY = ''ready''"
| "queue_status_value MQ_INTEGRATING = ''integrating''"
| "queue_status_value MQ_CONFLICT = ''conflict''"
| "queue_status_value MQ_COMPLETED = ''completed''"
| "queue_status_value MQ_STALE = ''stale''"

definition all_queue_statuses :: "queue_status list" where
  "all_queue_statuses = [MQ_WAITING, MQ_READY, MQ_INTEGRATING, MQ_CONFLICT, MQ_COMPLETED, MQ_STALE]"

record merge_entry =
  me_work :: string
  me_order :: int
  me_dependencies :: "string list"
  me_branch :: string
  me_state :: entry_state
  me_run :: "string option"
  me_source :: "string option"
  me_integration :: "string option"
  me_conflicts :: "string list"
  me_evidence :: "metadata option"
  me_detail :: string

datatype queue_error =
    QueueText swarm_error
  | QueueProtocol string
  | NegativeOrder
  | NotAnObjectId string
  | NotASha256 string
  | QueueVersions
  | ForeignIntegrationBranch
  | RelativeIntegrationPath
  | RepeatedQueueWork
  | OrderNotContiguous
  | ForeignAdmission
  | EmptyAdmissionFingerprint
  | QueueGraph swarm_error
  | NoQueueAdmission string

definition queue_text :: "string \<Rightarrow> string \<Rightarrow> queue_error + string" where
  "queue_text name v = (case clean_text name v of Inl e \<Rightarrow> Inl (QueueText e) | Inr t \<Rightarrow> Inr t)"

definition object_id :: "string \<Rightarrow> string \<Rightarrow> queue_error + string" where
  "object_id name v = res_bind (queue_text name v) (\<lambda>t.
     if hex_between 40 64 (lower t) then Inr (lower t) else Inl (NotAnObjectId name))"

definition object_id_opt :: "string \<Rightarrow> string option \<Rightarrow> queue_error + string option" where
  "object_id_opt name v = (case v of None \<Rightarrow> Inr None
     | Some t \<Rightarrow> res_bind (object_id name t) (\<lambda>c. Inr (Some c)))"

definition sha256_text :: "string \<Rightarrow> string \<Rightarrow> queue_error + string" where
  "sha256_text name v = res_bind (queue_text name v) (\<lambda>t.
     if hex_between 64 64 (lower t) then Inr (lower t) else Inl (NotASha256 name))"

definition entry_post_init :: "merge_entry \<Rightarrow> queue_error + merge_entry" where
  "entry_post_init e =
     res_bind (queue_text ''work_id'' (me_work e)) (\<lambda>work.
     if me_order e < 0 then Inl NegativeOrder
     else
     res_bind (queue_text ''source_branch'' (me_branch e)) (\<lambda>branch.
     res_bind (object_id_opt ''source_commit'' (me_source e)) (\<lambda>source.
     res_bind (object_id_opt ''integration_commit'' (me_integration e)) (\<lambda>integration.
     Inr (e\<lparr>me_work := work, me_dependencies := sorted_set (me_dependencies e), me_branch := branch,
            me_source := source, me_integration := integration,
            me_conflicts := sorted_set (me_conflicts e)\<rparr>)))))"

definition entry_dict :: "merge_entry \<Rightarrow> json" where
  "entry_dict e = JObj
     [(''work_id'', JStr (me_work e)), (''order'', JInt (me_order e)),
      (''effective_dependencies'', jstrs (me_dependencies e)), (''source_branch'', JStr (me_branch e)),
      (''state'', JStr (entry_state_value (me_state e))), (''run_id'', jopt (me_run e)),
      (''source_commit'', jopt (me_source e)), (''integration_commit'', jopt (me_integration e)),
      (''conflict_paths'', jstrs (me_conflicts e)),
      (''integration_evidence'', case me_evidence e of None \<Rightarrow> JNull | Some m \<Rightarrow> JObj m),
      (''detail'', JStr (me_detail e))]"

definition lift_queue :: "codec_error + 'a \<Rightarrow> queue_error + 'a" where
  "lift_queue r = (case lift_codec r of Inl e \<Rightarrow> Inl (QueueText e) | Inr a \<Rightarrow> Inr a)"

text \<open>\<open>None if data.get(key) is None else dict(data.get(key) or {})\<close>.\<close>

definition get_optional_dict :: "metadata \<Rightarrow> string \<Rightarrow> codec_error + metadata option" where
  "get_optional_dict data key =
     (if jget data key = JNull then Inr None else res_bind (get_dict data key) (\<lambda>m. Inr (Some m)))"

definition entry_from_dict :: "json \<Rightarrow> queue_error + merge_entry" where
  "entry_from_dict v =
     res_bind (lift_queue (as_object v)) (\<lambda>data.
     res_bind (lift_queue (get_int data ''order'' 0)) (\<lambda>ord.
     res_bind (lift_queue (get_texts data ''effective_dependencies'')) (\<lambda>deps.
     res_bind (lift_queue (enum_of entry_state_value all_entry_states
       (if truthy (jget data ''state'') then jget data ''state'' else JStr ''pending''))) (\<lambda>state.
     res_bind (lift_queue (get_texts data ''conflict_paths'')) (\<lambda>conflicts.
     res_bind (lift_queue (get_optional_dict data ''integration_evidence'')) (\<lambda>evidence.
     entry_post_init
       \<lparr>me_work = get_str data ''work_id'', me_order = ord, me_dependencies = deps,
        me_branch = get_str data ''source_branch'', me_state = state,
        me_run = get_optional_str data ''run_id'', me_source = get_optional_str data ''source_commit'',
        me_integration = get_optional_str data ''integration_commit'', me_conflicts = conflicts,
        me_evidence = evidence, me_detail = get_str data ''detail''\<rparr>))))))"


section \<open>The queue\<close>

record merge_queue =
  mq_session :: string
  mq_repo :: string
  mq_base :: string
  mq_graph_version :: int
  mq_graph_fingerprint :: string
  mq_budget_version :: int
  mq_budget_fingerprint :: string
  mq_admission_fingerprint :: string
  mq_target :: string
  mq_branch :: string
  mq_path :: string
  mq_head :: string
  mq_status :: queue_status
  mq_entries :: "merge_entry list"
  mq_created :: string
  mq_updated :: string
  mq_metadata :: metadata

definition queue_protocol :: string where
  "queue_protocol = ''claim-plane.swarm-merge-queue.v1''"

text \<open>\<open>Path(...).is_absolute()\<close> of a POSIX path, and \<open>resolve\<close> as a parameter.\<close>

definition queue_post_init :: "(string \<Rightarrow> string) \<Rightarrow> merge_queue \<Rightarrow> queue_error + merge_queue" where
  "queue_post_init resolve q =
     res_bind (queue_text ''session_id'' (mq_session q)) (\<lambda>sid.
     res_bind (sha256_text ''repository_identity'' (mq_repo q)) (\<lambda>repo.
     res_bind (object_id ''base_commit'' (mq_base q)) (\<lambda>base.
     res_bind (object_id ''integration_head'' (mq_head q)) (\<lambda>head.
     if mq_graph_version q \<le> 0 \<or> mq_budget_version q \<le> 0 then Inl QueueVersions
     else
     res_bind (sha256_text ''graph_fingerprint'' (mq_graph_fingerprint q)) (\<lambda>gf.
     res_bind (sha256_text ''budget_fingerprint'' (mq_budget_fingerprint q)) (\<lambda>bf.
     res_bind (sha256_text ''admission_fingerprint'' (mq_admission_fingerprint q)) (\<lambda>af.
     res_bind (queue_text ''integration_target_branch'' (mq_target q)) (\<lambda>target.
     res_bind (queue_text ''integration_branch'' (mq_branch q)) (\<lambda>branch.
     if \<not> starts_with branch ''claim-plane/swarm/'' then Inl ForeignIntegrationBranch
     else
     res_bind (queue_text ''integration_worktree_path'' (mq_path q)) (\<lambda>path.
     if \<not> starts_with path ''/'' then Inl RelativeIntegrationPath
     else
       let entries = sort_key me_order (mq_entries q)
       in if \<not> distinct (map me_work entries) then Inl RepeatedQueueWork
          else if map me_order entries \<noteq> map int [0..<length entries] then Inl OrderNotContiguous
          else
     res_bind (queue_text ''created_at'' (mq_created q)) (\<lambda>created.
     res_bind (queue_text ''updated_at'' (mq_updated q)) (\<lambda>updated.
     Inr (q\<lparr>mq_session := sid, mq_repo := repo, mq_base := base, mq_head := head,
            mq_graph_fingerprint := gf, mq_budget_fingerprint := bf, mq_admission_fingerprint := af,
            mq_target := target, mq_branch := branch, mq_path := resolve path, mq_entries := entries,
            mq_created := created, mq_updated := updated\<rparr>)))))))))))))"

definition entry_of :: "merge_queue \<Rightarrow> string \<Rightarrow> merge_entry option" where
  "entry_of q w = find_row me_work w (mq_entries q)"

text \<open>\<open>json.dumps(..., sort_keys=True)\<close> sorts the keys: dropping two of them is dropping two fields.\<close>

definition queue_fields :: "merge_queue \<Rightarrow> metadata" where
  "queue_fields q =
     [(''protocol'', JStr queue_protocol), (''session_id'', JStr (mq_session q)),
      (''repository_identity'', JStr (mq_repo q)), (''base_commit'', JStr (mq_base q)),
      (''graph_version'', JInt (mq_graph_version q)),
      (''graph_fingerprint'', JStr (mq_graph_fingerprint q)),
      (''budget_version'', JInt (mq_budget_version q)),
      (''budget_fingerprint'', JStr (mq_budget_fingerprint q)),
      (''admission_fingerprint'', JStr (mq_admission_fingerprint q)),
      (''integration_target_branch'', JStr (mq_target q)), (''integration_branch'', JStr (mq_branch q)),
      (''integration_worktree_path'', JStr (mq_path q)), (''integration_head'', JStr (mq_head q)),
      (''status'', JStr (queue_status_value (mq_status q))),
      (''entries'', JList (map entry_dict (mq_entries q)))]"

definition queue_dict :: "merge_queue \<Rightarrow> json" where
  "queue_dict q = JObj (queue_fields q @ [(''created_at'', JStr (mq_created q)),
     (''updated_at'', JStr (mq_updated q)), (''metadata'', JObj (mq_metadata q))])"

definition queue_fingerprint :: "(json \<Rightarrow> string) \<Rightarrow> merge_queue \<Rightarrow> string" where
  "queue_fingerprint sha q = sha (canon (JObj (queue_fields q @ [(''metadata'', JObj (mq_metadata q))])))"

definition queue_summary :: "(json \<Rightarrow> string) \<Rightarrow> merge_queue \<Rightarrow> metadata" where
  "queue_summary sha q =
     [(''status'', JStr (queue_status_value (mq_status q))), (''entries'', JInt (int (length (mq_entries q)))),
      (''states'', JObj (concat (map (\<lambda>st.
          let n = length (filter (\<lambda>e. me_state e = st) (mq_entries q))
          in if n = 0 then [] else [(entry_state_value st, JInt (int n))]) all_entry_states))),
      (''ready_work_ids'', jstrs (map me_work (filter (\<lambda>e. me_state e = ME_READY) (mq_entries q)))),
      (''integration_head'', JStr (mq_head q)), (''fingerprint'', JStr (queue_fingerprint sha q))]"

definition queue_status_of :: "merge_entry list \<Rightarrow> queue_status" where
  "queue_status_of entries =
     (if list_ex (\<lambda>e. me_state e = ME_CONFLICT) entries then MQ_CONFLICT
      else if list_ex (\<lambda>e. me_state e = ME_INTEGRATING) entries then MQ_INTEGRATING
      else if entries \<noteq> [] \<and> list_all (\<lambda>e. me_state e = ME_INTEGRATED) entries then MQ_COMPLETED
      else if list_ex (\<lambda>e. me_state e = ME_READY) entries then MQ_READY
      else MQ_WAITING)"

definition with_entry ::
  "(string \<Rightarrow> string) \<Rightarrow> merge_queue \<Rightarrow> merge_entry \<Rightarrow> string \<Rightarrow> string \<Rightarrow> queue_error + merge_queue" where
  "with_entry resolve q updated head now =
     (let entries = map (\<lambda>e. if me_work e = me_work updated then updated else e) (mq_entries q)
      in queue_post_init resolve
           (q\<lparr>mq_entries := entries, mq_head := head, mq_status := queue_status_of entries, mq_updated := now\<rparr>))"

definition queue_from_dict :: "(string \<Rightarrow> string) \<Rightarrow> json \<Rightarrow> queue_error + merge_queue" where
  "queue_from_dict resolve v =
     res_bind (lift_queue (as_object v)) (\<lambda>data.
     res_bind (lift_queue (get_int data ''graph_version'' 0)) (\<lambda>gv.
     res_bind (lift_queue (get_int data ''budget_version'' 0)) (\<lambda>bv.
     res_bind (lift_queue (enum_of queue_status_value all_queue_statuses
       (if truthy (jget data ''status'') then jget data ''status'' else JStr ''waiting''))) (\<lambda>status.
     res_bind (case jget data ''entries'' of JList xs \<Rightarrow> res_map entry_from_dict xs
         | x \<Rightarrow> if truthy x then Inl (QueueText (BadField ''entries'')) else Inr []) (\<lambda>entries.
     res_bind (lift_queue (get_dict data ''metadata'')) (\<lambda>meta.
     let protocol = (if truthy (jget data ''protocol'') then py_str (jget data ''protocol'') else queue_protocol)
     in if protocol \<noteq> queue_protocol then Inl (QueueProtocol protocol)
        else queue_post_init resolve
          \<lparr>mq_session = get_str data ''session_id'', mq_repo = get_str data ''repository_identity'',
           mq_base = get_str data ''base_commit'', mq_graph_version = gv,
           mq_graph_fingerprint = get_str data ''graph_fingerprint'', mq_budget_version = bv,
           mq_budget_fingerprint = get_str data ''budget_fingerprint'',
           mq_admission_fingerprint = get_str data ''admission_fingerprint'',
           mq_target = get_str data ''integration_target_branch'', mq_branch = get_str data ''integration_branch'',
           mq_path = get_str data ''integration_worktree_path'',
           mq_head = get_str_or data ''integration_head'' ''base_commit'', mq_status = status,
           mq_entries = entries, mq_created = get_str data ''created_at'',
           mq_updated = get_str data ''updated_at'', mq_metadata = meta\<rparr>))))))"


section \<open>Computing the queue\<close>

definition managed_integration_branch :: "(string \<Rightarrow> string) \<Rightarrow> string \<Rightarrow> string" where
  "managed_integration_branch sha_text session_id =
     ''claim-plane/swarm/'' @ managed_session_component sha_text session_id @ ''/integration''"

definition managed_integration_worktree_path :: "(string \<Rightarrow> string) \<Rightarrow> (string \<Rightarrow> string) \<Rightarrow> string \<Rightarrow> string \<Rightarrow> string" where
  "managed_integration_worktree_path sha_text resolve root session_id =
     resolve (root @ ''/.claim-plane/worktrees/'' @ managed_session_component sha_text session_id
       @ ''/__integration__'')"

definition latest_successful_run :: "codex_run list \<Rightarrow> string \<Rightarrow> codex_run option" where
  "latest_successful_run records w = (case latest_run records w of
       None \<Rightarrow> None | Some r \<Rightarrow> if cr_state r = R_SUCCEEDED then Some r else None)"

text \<open>\<open>{record.work_id: record for record in worktrees}\<close>: the last record of an id counts.\<close>

definition worktree_of :: "managed_worktree list \<Rightarrow> string \<Rightarrow> managed_worktree option" where
  "worktree_of worktrees w = find_row mw_work w (rev worktrees)"

definition integrated_in :: "merge_entry list \<Rightarrow> string list" where
  "integrated_in entries = map me_work (filter (\<lambda>e. me_state e = ME_INTEGRATED) entries)"

definition kept_state :: "entry_state \<Rightarrow> bool" where
  "kept_state st = (st \<in> {ME_INTEGRATED, ME_CONFLICT, ME_INTEGRATING})"

definition entry_verdict :: "work_admission \<Rightarrow> managed_worktree option \<Rightarrow> codex_run option \<Rightarrow> string list \<Rightarrow> entry_state \<times> string" where
  "entry_verdict admitted worktree record missing =
     (if \<not> wa_allowed admitted then (ME_BLOCKED, ''shared admission did not grant this work item'')
      else if worktree = None then (ME_BLOCKED, ''managed worktree is not provisioned'')
      else if record = None then (ME_PENDING, ''waiting for a successful Codex execution'')
      else if missing \<noteq> [] then (ME_BLOCKED, ''waiting for integrated dependencies: '' @ join '', '' missing)
      else (ME_READY, ''successful execution and integrated dependencies''))"

text \<open>One round of the loop. The set \<open>integrated\<close> is the one of the previous queue: a computed
  state is never \<open>INTEGRATED\<close>, so the loop's own addition to it is never reached.\<close>

definition queue_entry ::
  "admission_plan \<Rightarrow> codex_run list \<Rightarrow> managed_worktree list \<Rightarrow> merge_entry list \<Rightarrow> nat \<times> string
   \<Rightarrow> queue_error + merge_entry" where
  "queue_entry plan records worktrees previous p =
     (case admission_of plan (snd p) of
        None \<Rightarrow> Inl (NoQueueAdmission (snd p))
      | Some admitted \<Rightarrow>
          let w = snd p;
              record = latest_successful_run records w;
              worktree = worktree_of worktrees w;
              old = find_row me_work w previous
          in if (case old of None \<Rightarrow> False | Some e \<Rightarrow> kept_state (me_state e)) then Inr (the old)
             else
               let missing = filter (\<lambda>d. d \<notin> set (integrated_in previous)) (wa_dependencies admitted);
                   verdict = entry_verdict admitted worktree record missing;
                   source = (case (old, record) of
                       (Some e, Some r) \<Rightarrow>
                         if me_run e = Some (cr_id r) \<and> fst verdict = ME_READY then me_source e else None
                     | _ \<Rightarrow> None)
               in entry_post_init
                    \<lparr>me_work = w, me_order = int (fst p), me_dependencies = wa_dependencies admitted,
                     me_branch = (case worktree of None \<Rightarrow> ''claim-plane/swarm/unprovisioned'' | Some t \<Rightarrow> mw_branch t),
                     me_state = fst verdict, me_run = map_option cr_id record, me_source = source,
                     me_integration = None, me_conflicts = [], me_evidence = None, me_detail = snd verdict\<rparr>)"

definition queue_metadata :: metadata where
  "queue_metadata =
     [(''ordering'', JStr ''effective-dependencies-then-work-graph-topological-order''),
      (''target_branch_mutated'', JBool False), (''verification'', JStr ''required_after_integration'')]"

definition compute_merge_queue ::
  "(json \<Rightarrow> string) \<Rightarrow> (string \<Rightarrow> string) \<Rightarrow> (string \<Rightarrow> string) \<Rightarrow> swarm_session \<Rightarrow> admission_plan
   \<Rightarrow> codex_run list \<Rightarrow> managed_worktree list \<Rightarrow> string \<Rightarrow> string \<Rightarrow> string \<Rightarrow> merge_queue option
   \<Rightarrow> queue_error + merge_queue" where
  "compute_merge_queue sha sha_text resolve s plan records worktrees root head now previous =
     (if ap_session plan \<noteq> sw_id s then Inl ForeignAdmission
      else if plan_fingerprint sha plan = [] then Inl EmptyAdmissionFingerprint
      else
        let old = (case previous of None \<Rightarrow> [] | Some q \<Rightarrow> mq_entries q)
        in res_bind (case topological_order (sw_graph s) of Inl e \<Rightarrow> Inl (QueueGraph e) | Inr o' \<Rightarrow> Inr o') (\<lambda>order.
           res_bind (res_map (queue_entry plan records worktrees old) (enumerate 0 order)) (\<lambda>entries.
           queue_post_init resolve
             \<lparr>mq_session = sw_id s, mq_repo = sw_repo s, mq_base = sw_commit s,
              mq_graph_version = sw_graph_version s, mq_graph_fingerprint = session_graph_fingerprint sha s,
              mq_budget_version = sw_budget_version s, mq_budget_fingerprint = session_budget_fingerprint sha s,
              mq_admission_fingerprint = plan_fingerprint sha plan, mq_target = it_branch (sw_target s),
              mq_branch = managed_integration_branch sha_text (sw_id s),
              mq_path = managed_integration_worktree_path sha_text resolve root (sw_id s),
              mq_head = head, mq_status = queue_status_of entries, mq_entries = entries,
              mq_created = (case previous of None \<Rightarrow> now | Some q \<Rightarrow> mq_created q), mq_updated = now,
              mq_metadata = queue_metadata\<rparr>)))"

end
