(* ===== verification/BatchOrder.thy ===== *)
theory BatchOrder
  imports TopoOrder
begin

text \<open>
  Ordering in batches, as the concurrency planner's execution waves and the shared admission's
  order do it: in every round the nodes whose producers are all done are collected, some of
  them are selected, and the loop ends when nothing is left or nothing is ready. A round
  removes at least one node, so one round more than there are nodes is enough; the bound is
  proved never to be reached. The contract of \<open>producer_scan\<close> gives that a run is complete
  exactly on an acyclic graph.
\<close>

record 'a batch_state =
  bt_left :: "'a list"
  bt_batches :: "'a list list"

definition batch_ready :: "('a \<Rightarrow> 'a list) \<Rightarrow> 'a batch_state \<Rightarrow> 'a list" where
  "batch_ready deps st = filter (\<lambda>n. list_all (\<lambda>d. d \<in> set (concat (bt_batches st))) (deps n)) (bt_left st)"

definition batch_round :: "('a list \<Rightarrow> 'a list) \<Rightarrow> ('a \<Rightarrow> 'a list) \<Rightarrow> 'a batch_state \<Rightarrow> 'a batch_state" where
  "batch_round select deps st =
     (let chosen = select (batch_ready deps st)
      in st\<lparr>bt_left := filter (\<lambda>n. n \<notin> set chosen) (bt_left st), bt_batches := bt_batches st @ [chosen]\<rparr>)"

primrec batch_loop :: "nat \<Rightarrow> ('a list \<Rightarrow> 'a list) \<Rightarrow> ('a \<Rightarrow> 'a list) \<Rightarrow> 'a batch_state \<Rightarrow> 'a batch_state option" where
  "batch_loop 0 select deps st = None"
| "batch_loop (Suc k) select deps st =
     (if bt_left st = [] \<or> batch_ready deps st = [] then Some st
      else batch_loop k select deps (batch_round select deps st))"

definition batch_start :: "'a list \<Rightarrow> 'a batch_state" where
  "batch_start nodes = \<lparr>bt_left = nodes, bt_batches = []\<rparr>"

definition batch_run :: "('a list \<Rightarrow> 'a list) \<Rightarrow> ('a \<Rightarrow> 'a list) \<Rightarrow> 'a list \<Rightarrow> 'a batch_state option" where
  "batch_run select deps nodes = batch_loop (Suc (length nodes)) select deps (batch_start nodes)"


section \<open>The invariant of the loop\<close>

text \<open>A selection takes some of a non-empty list of distinct nodes.\<close>

definition selects :: "('a list \<Rightarrow> 'a list) \<Rightarrow> bool" where
  "selects select \<longleftrightarrow> (\<forall>r. r \<noteq> [] \<longrightarrow> distinct r \<longrightarrow> select r \<noteq> [] \<and> set (select r) \<subseteq> set r \<and> distinct (select r))"

lemma selectsD:
  assumes "selects select" and "r \<noteq> []" and "distinct r"
  shows "select r \<noteq> []" and "set (select r) \<subseteq> set r" and "distinct (select r)"
  using assms by (simp_all add: selects_def)

text \<open>Every node of a batch has its producers in earlier batches, and every batch is a selection.\<close>

definition batches_ok :: "('a list \<Rightarrow> 'a list) \<Rightarrow> ('a \<Rightarrow> 'a list) \<Rightarrow> 'a list list \<Rightarrow> bool" where
  "batches_ok select deps bs \<longleftrightarrow> (\<forall>i < length bs. (\<exists>r. distinct r \<and> r \<noteq> [] \<and> bs ! i = select r)
     \<and> (\<forall>n \<in> set (bs ! i). set (deps n) \<subseteq> set (concat (take i bs))))"

definition batch_inv :: "('a list \<Rightarrow> 'a list) \<Rightarrow> ('a \<Rightarrow> 'a list) \<Rightarrow> 'a list \<Rightarrow> 'a batch_state \<Rightarrow> bool" where
  "batch_inv select deps nodes st \<longleftrightarrow> distinct (bt_left st @ concat (bt_batches st))
     \<and> set (bt_left st @ concat (bt_batches st)) = set nodes \<and> batches_ok select deps (bt_batches st)"

lemma batches_ok_snoc:
  assumes "batches_ok select deps bs" and "distinct r" and "r \<noteq> []"
    and "\<And>n. n \<in> set (select r) \<Longrightarrow> set (deps n) \<subseteq> set (concat bs)"
  shows "batches_ok select deps (bs @ [select r])"
  using assms by (auto simp: batches_ok_def nth_append less_Suc_eq)

lemma batch_round_inv:
  assumes "selects select" and "batch_inv select deps nodes st" and "batch_ready deps st \<noteq> []"
  shows "batch_inv select deps nodes (batch_round select deps st)"
    and "length (bt_left (batch_round select deps st)) < length (bt_left st)"
proof -
  let ?r = "batch_ready deps st"
  have r: "distinct ?r" "set ?r \<subseteq> set (bt_left st)"
    using assms(2) by (auto simp: batch_inv_def batch_ready_def)
  note sel = selectsD [OF assms(1,3) r(1)]
  have deps: "set (deps n) \<subseteq> set (concat (bt_batches st))" if "n \<in> set (select ?r)" for n
    using that sel(2) by (auto simp: batch_ready_def list_all_iff)
  have "batches_ok select deps (bt_batches st @ [select ?r])"
    using assms(2) by (intro batches_ok_snoc r(1) assms(3) deps) (simp add: batch_inv_def)
  then show "batch_inv select deps nodes (batch_round select deps st)"
    using assms(2) sel r(2) by (auto simp: batch_inv_def batch_round_def Let_def)
  obtain n where "n \<in> set (select ?r)" using sel(1) by (meson last_in_set)
  then show "length (bt_left (batch_round select deps st)) < length (bt_left st)"
    using sel(2) r(2) by (auto simp: batch_round_def Let_def intro!: length_filter_less)
qed

lemma batch_loop_inv:
  assumes "selects select" and "batch_inv select deps nodes st" and "length (bt_left st) < k"
  shows "\<exists>st'. batch_loop k select deps st = Some st' \<and> batch_inv select deps nodes st'
    \<and> (bt_left st' = [] \<or> batch_ready deps st' = [])"
  using assms(2,3)
proof (induction k arbitrary: st)
  case (Suc k)
  show ?case
  proof (cases "bt_left st = [] \<or> batch_ready deps st = []")
    case False
    then have ready: "batch_ready deps st \<noteq> []" by simp
    have "length (bt_left (batch_round select deps st)) < k"
      using batch_round_inv(2) [OF assms(1) Suc.prems(1) ready] Suc.prems(2) by simp
    from Suc.IH [OF batch_round_inv(1) [OF assms(1) Suc.prems(1) ready] this] False show ?thesis by simp
  qed (use Suc.prems in simp)
qed simp

lemma batch_finishes:
  assumes "selects select" and "distinct nodes"
  obtains st where "batch_run select deps nodes = Some st" "batch_inv select deps nodes st"
    "bt_left st = [] \<or> batch_ready deps st = []"
proof -
  have "batch_inv select deps nodes (batch_start nodes)"
    using assms(2) by (simp add: batch_inv_def batch_start_def batches_ok_def)
  from batch_loop_inv [OF assms(1) this, of "Suc (length nodes)"] that show thesis
    by (auto simp: batch_run_def batch_start_def)
qed


section \<open>Batches as a scan\<close>

definition batch_edges :: "('a \<Rightarrow> 'a list) \<Rightarrow> 'a list \<Rightarrow> ('a \<times> 'a) set" where
  "batch_edges deps nodes = {(n, p). n \<in> set nodes \<and> p \<in> set (deps n)}"

definition batch_good :: "('a list \<Rightarrow> 'a list) \<times> ('a \<Rightarrow> 'a list) \<times> 'a list \<Rightarrow> bool" where
  "batch_good = (\<lambda>(select, deps, nodes). selects select \<and> distinct nodes
     \<and> (\<forall>n \<in> set nodes. set (deps n) \<subseteq> set nodes))"

definition batch_scan :: "('a list \<Rightarrow> 'a list) \<times> ('a \<Rightarrow> 'a list) \<times> 'a list \<Rightarrow> 'a list" where
  "batch_scan = (\<lambda>(select, deps, nodes). case batch_run select deps nodes of
       None \<Rightarrow> [] | Some st \<Rightarrow> concat (bt_batches st))"

lemma batches_before:
  assumes "batches_ok select deps bs" and "n \<in> set (concat bs)" and "p \<in> set (deps n)"
  shows "before_in (concat bs) p n"
proof -
  obtain i where i: "i < length bs" "n \<in> set (bs ! i)" using assms(2) by (metis in_set_conv_nth UN_E set_concat)
  then have "p \<in> set (concat (take i bs))" using assms(1,3) unfolding batches_ok_def by blast
  moreover have "n \<in> set (concat (drop i bs))"
    using i by (metis UN_iff Cons_nth_drop_Suc list.set_intros(1) set_concat)
  ultimately have "before_in (concat (take i bs) @ concat (drop i bs)) p n" by (rule before_in_split)
  then show ?thesis by (metis append_take_drop_id concat_append)
qed

interpretation batches: producer_scan batch_good "\<lambda>g. set (snd (snd g))" "\<lambda>g. batch_edges (fst (snd g)) (snd (snd g))"
  batch_scan
proof (unfold_locales, goal_cases)
  case (2 g)
  obtain select deps nodes where g: "g = (select, deps, nodes)" by (cases g)
  with 2 have "selects select" "distinct nodes" by (simp_all add: batch_good_def)
  then show ?case by (rule batch_finishes [where deps = deps]) (auto simp: g batch_scan_def batch_inv_def)
next
  case (3 g d p)
  then show ?case by (auto simp: batch_good_def batch_edges_def split: prod.splits)
next
  case (4 g)
  obtain select deps nodes where g: "g = (select, deps, nodes)" by (cases g)
  with 4 have "selects select" "distinct nodes" by (simp_all add: batch_good_def)
  then show ?case by (rule batch_finishes [where deps = deps]) (simp add: g batch_scan_def batch_inv_def)
next
  case (5 g d p)
  obtain select deps nodes where g: "g = (select, deps, nodes)" by (cases g)
  with 5 have "selects select" "distinct nodes" by (simp_all add: batch_good_def)
  then obtain st where st: "batch_run select deps nodes = Some st" "batch_inv select deps nodes st"
    by (rule batch_finishes)
  have "batch_scan g = concat (bt_batches st)" by (simp add: g batch_scan_def st(1))
  then show ?case
    using 5 g st(2) batches_before [of select deps "bt_batches st" d p] by (simp add: batch_inv_def batch_edges_def)
next
  case (6 g n)
  obtain select deps nodes where g: "g = (select, deps, nodes)" by (cases g)
  with 6 have "selects select" "distinct nodes" by (simp_all add: batch_good_def)
  then obtain st where st: "batch_run select deps nodes = Some st" "batch_inv select deps nodes st"
    "bt_left st = [] \<or> batch_ready deps st = []" by (rule batch_finishes)
  have scan: "batch_scan g = concat (bt_batches st)" by (simp add: g batch_scan_def st(1))
  have "n \<in> set (bt_left st)" using 6 st(2) by (auto simp: g scan [unfolded g] batch_inv_def)
  then have "\<not> list_all (\<lambda>d. d \<in> set (concat (bt_batches st))) (deps n)"
    using st(3) by (auto simp: batch_ready_def filter_empty_conv)
  then obtain p where "p \<in> set (deps n)" "p \<notin> set (batch_scan g)" by (auto simp: list_all_iff scan)
  then show ?case using 6 g by (auto simp: batch_edges_def)
qed auto

text \<open>A run is complete exactly on an acyclic graph.\<close>

lemma batch_run_complete:
  assumes "selects select" and "distinct nodes" and "\<forall>n \<in> set nodes. set (deps n) \<subseteq> set nodes"
  obtains st where "batch_run select deps nodes = Some st" "batch_inv select deps nodes st"
    "bt_left st = [] \<longleftrightarrow> acyclic (batch_edges deps nodes)"
proof -
  obtain st where st: "batch_run select deps nodes = Some st" "batch_inv select deps nodes st"
    by (rule batch_finishes [OF assms(1,2)])
  have "batch_good (select, deps, nodes)" using assms by (simp add: batch_good_def)
  from batches.complete_iff [OF this] st have "set (concat (bt_batches st)) = set nodes \<longleftrightarrow> acyclic (batch_edges deps nodes)"
    by (simp add: batch_scan_def)
  moreover have "bt_left st = [] \<longleftrightarrow> set (concat (bt_batches st)) = set nodes"
  proof
    assume "set (concat (bt_batches st)) = set nodes"
    moreover have "set (bt_left st) \<subseteq> set nodes" "set (bt_left st) \<inter> set (concat (bt_batches st)) = {}"
      using st(2) by (auto simp: batch_inv_def)
    ultimately show "bt_left st = []" by (metis inf.orderE set_empty)
  qed (use st(2) in \<open>auto simp: batch_inv_def\<close>)
  ultimately show thesis using st that by simp
qed

end
