(* ===== verification/Concurrency.thy ===== *)
theory Concurrency
  imports WorkGraph SwarmSession AdmissionEngine BatchOrder "HOL-Library.Product_Lexorder"
begin

text \<open>
  The concurrency planner (\<open>swarm/concurrency.py\<close>): pairwise constraints between work items
  that may run together, and the execution waves that respect the work graph, the constraints
  and the worker limit. The analysis is the one without a semantic graph at the stage
  \<open>broad_declared\<close>: declared scopes only. The semantic stages, which refine it pair by pair,
  and the reports they leave in the plan's metadata are not modelled; the metadata is a
  parameter.
\<close>


section \<open>Constraints, waves and plans\<close>

datatype concurrency_status = CS_READY | CS_REPLAN

fun concurrency_status_value :: "concurrency_status \<Rightarrow> string" where
  "concurrency_status_value CS_READY = ''ready''"
| "concurrency_status_value CS_REPLAN = ''replan_required''"

datatype constraint_action = ACT_SERIALIZE | ACT_DENY

fun action_value :: "constraint_action \<Rightarrow> string" where
  "action_value ACT_SERIALIZE = ''serialize''"
| "action_value ACT_DENY = ''deny''"

datatype constraint_reason =
  RS_SAME_FILE | RS_UNKNOWN_OVERLAP | RS_SHARED_CONTRACT | RS_SCHEMA_CHANGE | RS_SEMANTIC_ORDER
  | RS_SEMANTIC_CONFLICT

fun reason_value :: "constraint_reason \<Rightarrow> string" where
  "reason_value RS_SAME_FILE = ''same_file''"
| "reason_value RS_UNKNOWN_OVERLAP = ''unknown_overlap''"
| "reason_value RS_SHARED_CONTRACT = ''shared_contract''"
| "reason_value RS_SCHEMA_CHANGE = ''schema_change''"
| "reason_value RS_SEMANTIC_ORDER = ''semantic_order''"
| "reason_value RS_SEMANTIC_CONFLICT = ''semantic_conflict''"

definition all_actions :: "constraint_action list" where
  "all_actions = [ACT_SERIALIZE, ACT_DENY]"

definition all_reasons :: "constraint_reason list" where
  "all_reasons = [RS_SAME_FILE, RS_UNKNOWN_OVERLAP, RS_SHARED_CONTRACT, RS_SCHEMA_CHANGE, RS_SEMANTIC_ORDER,
     RS_SEMANTIC_CONFLICT]"

definition all_concurrency_statuses :: "concurrency_status list" where
  "all_concurrency_statuses = [CS_READY, CS_REPLAN]"

record concurrency_constraint =
  cc_before :: string
  cc_after :: string
  cc_action :: constraint_action
  cc_reasons :: "constraint_reason list"
  cc_resources :: "string list"
  cc_detail :: string

datatype plan_fault =
    SameItem
  | NoReason
  | WaveIndex
  | EmptyWave
  | RepeatedInWave
  | PlanProtocol string
  | PlanVersions
  | PlanDigest string
  | NoWorkers
  | NoItems
  | WaveGap
  | ScheduledTwice
  | WaveTooWide
  | DenyNeedsReplan
  | WavesInReplan
  | NotAllScheduled
  | ConstraintCycle
  | UnknownConstraintItem string
  | PlanGraph swarm_error
  | PlanBudget budget_error
  | WaveBoundReached

definition constraint_post_init :: "concurrency_constraint \<Rightarrow> plan_fault + concurrency_constraint" where
  "constraint_post_init c =
     (if cc_before c = [] \<or> cc_after c = [] \<or> cc_before c = cc_after c then Inl SameItem
      else
        let reasons = sort_key reason_value (uniq (cc_reasons c))
        in if reasons = [] then Inl NoReason
           else Inr (c\<lparr>cc_reasons := reasons, cc_resources := sorted_set (cc_resources c)\<rparr>))"

definition constraint_dict :: "concurrency_constraint \<Rightarrow> json" where
  "constraint_dict c = JObj
     [(''before'', JStr (cc_before c)), (''after'', JStr (cc_after c)),
      (''action'', JStr (action_value (cc_action c))), (''reasons'', jstrs (map reason_value (cc_reasons c))),
      (''resources'', jstrs (cc_resources c)), (''detail'', JStr (cc_detail c))]"

record execution_wave =
  ew_index :: int
  ew_work :: "string list"

definition wave_post_init :: "execution_wave \<Rightarrow> plan_fault + execution_wave" where
  "wave_post_init w =
     (if ew_index w \<le> 0 then Inl WaveIndex
      else if ew_work w = [] then Inl EmptyWave
      else if \<not> distinct (ew_work w) then Inl RepeatedInWave
      else Inr w)"

definition wave_dict :: "execution_wave \<Rightarrow> json" where
  "wave_dict w = JObj [(''index'', JInt (ew_index w)), (''work_ids'', jstrs (ew_work w))]"

record concurrency_plan =
  cp_graph_version :: int
  cp_graph_fingerprint :: string
  cp_budget_version :: int
  cp_budget_fingerprint :: string
  cp_max_active :: int
  cp_items :: int
  cp_status :: concurrency_status
  cp_waves :: "execution_wave list"
  cp_constraints :: "concurrency_constraint list"
  cp_metadata :: metadata

definition concurrency_protocol :: string where
  "concurrency_protocol = ''claim-plane.swarm-concurrency-plan.v1''"

definition denied_in :: "concurrency_constraint list \<Rightarrow> bool" where
  "denied_in cs = list_ex (\<lambda>c. cc_action c = ACT_DENY) cs"

text \<open>The key under which constraints are sorted.\<close>

definition constraint_key :: "concurrency_constraint \<Rightarrow> string \<times> string \<times> string \<times> string list" where
  "constraint_key c = (cc_before c, cc_after c, action_value (cc_action c), map reason_value (cc_reasons c))"

definition concurrency_plan_post_init :: "concurrency_plan \<Rightarrow> plan_fault + concurrency_plan" where
  "concurrency_plan_post_init p =
     (if cp_graph_version p \<le> 0 \<or> cp_budget_version p \<le> 0 then Inl PlanVersions
      else if \<not> hex_between 64 64 (cp_graph_fingerprint p) then Inl (PlanDigest ''graph_fingerprint'')
      else if \<not> hex_between 64 64 (cp_budget_fingerprint p) then Inl (PlanDigest ''budget_fingerprint'')
      else if cp_max_active p \<le> 0 then Inl NoWorkers
      else if cp_items p \<le> 0 then Inl NoItems
      else
        let waves = sort_key ew_index (cp_waves p);
            scheduled = concat (map ew_work waves);
            constraints = sort_key constraint_key (cp_constraints p)
        in if waves \<noteq> [] \<and> map ew_index waves \<noteq> map int [1..<Suc (length waves)] then Inl WaveGap
           else if \<not> distinct scheduled then Inl ScheduledTwice
           else if list_ex (\<lambda>w. cp_max_active p < int (length (ew_work w))) waves then Inl WaveTooWide
           else if denied_in constraints \<and> cp_status p \<noteq> CS_REPLAN then Inl DenyNeedsReplan
           else if cp_status p = CS_REPLAN \<and> waves \<noteq> [] then Inl WavesInReplan
           else if cp_status p = CS_READY \<and> int (length scheduled) \<noteq> cp_items p then Inl NotAllScheduled
           else Inr (p\<lparr>cp_waves := waves, cp_constraints := constraints\<rparr>))"

definition serialized_constraints :: "concurrency_plan \<Rightarrow> concurrency_constraint list" where
  "serialized_constraints p = filter (\<lambda>c. cc_action c = ACT_SERIALIZE) (cp_constraints p)"

definition denied_constraints :: "concurrency_plan \<Rightarrow> concurrency_constraint list" where
  "denied_constraints p = filter (\<lambda>c. cc_action c = ACT_DENY) (cp_constraints p)"

definition peak_concurrency :: "concurrency_plan \<Rightarrow> nat" where
  "peak_concurrency p = fold max (map (length \<circ> ew_work) (cp_waves p)) 0"

definition concurrency_plan_dict :: "concurrency_plan \<Rightarrow> json" where
  "concurrency_plan_dict p = JObj
     [(''protocol'', JStr concurrency_protocol), (''graph_version'', JInt (cp_graph_version p)),
      (''graph_fingerprint'', JStr (cp_graph_fingerprint p)), (''budget_version'', JInt (cp_budget_version p)),
      (''budget_fingerprint'', JStr (cp_budget_fingerprint p)), (''max_active_workers'', JInt (cp_max_active p)),
      (''work_item_count'', JInt (cp_items p)), (''status'', JStr (concurrency_status_value (cp_status p))),
      (''waves'', JList (map wave_dict (cp_waves p))),
      (''constraints'', JList (map constraint_dict (cp_constraints p))), (''metadata'', JObj (cp_metadata p))]"

definition concurrency_fingerprint :: "(json \<Rightarrow> string) \<Rightarrow> concurrency_plan \<Rightarrow> string" where
  "concurrency_fingerprint sha p = sha (canon (concurrency_plan_dict p))"

definition concurrency_summary :: "(json \<Rightarrow> string) \<Rightarrow> concurrency_plan \<Rightarrow> metadata" where
  "concurrency_summary sha p =
     [(''status'', JStr (concurrency_status_value (cp_status p))), (''work_items'', JInt (cp_items p)),
      (''wave_count'', JInt (int (length (cp_waves p)))), (''peak_concurrency'', JInt (int (peak_concurrency p))),
      (''max_active_workers'', JInt (cp_max_active p)),
      (''serialized_pairs'', JInt (int (length (serialized_constraints p)))),
      (''denied_pairs'', JInt (int (length (denied_constraints p)))),
      (''waves'', JList (map (jstrs \<circ> ew_work) (cp_waves p))),
      (''fingerprint'', JStr (concurrency_fingerprint sha p))]
     @ (case jget (cp_metadata p) ''admission_attribution_summary'' of
          JObj m \<Rightarrow> [(''admission_attribution'', JObj m)] | _ \<Rightarrow> [])"


section \<open>Reading plans back\<close>

definition lift_plan :: "codec_error + 'a \<Rightarrow> plan_fault + 'a" where
  "lift_plan r = (case lift_codec r of Inl e \<Rightarrow> Inl (PlanGraph e) | Inr a \<Rightarrow> Inr a)"

text \<open>\<open>data.get(key) or ()\<close> as a list of objects.\<close>

definition get_items :: "metadata \<Rightarrow> string \<Rightarrow> plan_fault + json list" where
  "get_items data key = (let v = jget data key
     in if \<not> truthy v then Inr [] else case v of JList xs \<Rightarrow> Inr xs | _ \<Rightarrow> Inl (PlanGraph (BadField key)))"

definition get_enum :: "('a \<Rightarrow> string) \<Rightarrow> 'a list \<Rightarrow> metadata \<Rightarrow> string \<Rightarrow> 'a \<Rightarrow> plan_fault + 'a" where
  "get_enum f members data key other =
     (if truthy (jget data key) then lift_plan (enum_of f members (jget data key)) else Inr other)"

definition get_str_items :: "metadata \<Rightarrow> string \<Rightarrow> plan_fault + string list" where
  "get_str_items data key = res_bind (get_items data key) (\<lambda>xs. Inr (map py_str xs))"

definition constraint_from_dict :: "json \<Rightarrow> plan_fault + concurrency_constraint" where
  "constraint_from_dict v =
     res_bind (lift_plan (as_object v)) (\<lambda>data.
     res_bind (get_enum action_value all_actions data ''action'' ACT_SERIALIZE) (\<lambda>action.
     res_bind (get_items data ''reasons'') (\<lambda>raw.
     res_bind (res_map (\<lambda>r. lift_plan (enum_of reason_value all_reasons r)) raw) (\<lambda>reasons.
     res_bind (get_str_items data ''resources'') (\<lambda>resources.
     constraint_post_init
       \<lparr>cc_before = get_str data ''before'', cc_after = get_str data ''after'', cc_action = action,
        cc_reasons = reasons, cc_resources = resources, cc_detail = get_str data ''detail''\<rparr>)))))"

definition wave_from_dict :: "json \<Rightarrow> plan_fault + execution_wave" where
  "wave_from_dict v =
     res_bind (lift_plan (as_object v)) (\<lambda>data.
     res_bind (lift_plan (get_int data ''index'' 0)) (\<lambda>i.
     res_bind (get_str_items data ''work_ids'') (\<lambda>ws.
     wave_post_init \<lparr>ew_index = i, ew_work = ws\<rparr>)))"

definition concurrency_plan_from_dict :: "json \<Rightarrow> plan_fault + concurrency_plan" where
  "concurrency_plan_from_dict v =
     res_bind (lift_plan (as_object v)) (\<lambda>data.
     res_bind (lift_plan (get_int data ''graph_version'' 0)) (\<lambda>gv.
     res_bind (lift_plan (get_int data ''budget_version'' 0)) (\<lambda>bv.
     res_bind (lift_plan (get_int data ''max_active_workers'' 0)) (\<lambda>m.
     res_bind (lift_plan (get_int data ''work_item_count'' 0)) (\<lambda>n.
     res_bind (get_enum concurrency_status_value all_concurrency_statuses data ''status'' CS_READY) (\<lambda>status.
     res_bind (res_bind (get_items data ''waves'') (res_map wave_from_dict)) (\<lambda>waves.
     res_bind (res_bind (get_items data ''constraints'') (res_map constraint_from_dict)) (\<lambda>constraints.
     res_bind (lift_plan (get_dict data ''metadata'')) (\<lambda>meta.
     let protocol = (if truthy (jget data ''protocol'') then py_str (jget data ''protocol'') else concurrency_protocol)
     in if protocol \<noteq> concurrency_protocol then Inl (PlanProtocol protocol)
        else concurrency_plan_post_init
          \<lparr>cp_graph_version = gv, cp_graph_fingerprint = get_str data ''graph_fingerprint'',
           cp_budget_version = bv, cp_budget_fingerprint = get_str data ''budget_fingerprint'',
           cp_max_active = m, cp_items = n, cp_status = status, cp_waves = waves,
           cp_constraints = constraints, cp_metadata = meta\<rparr>)))))))))"


section \<open>Pairwise findings\<close>

datatype conflict_order = LEFT_BEFORE_RIGHT | RIGHT_BEFORE_LEFT

record finding =
  fi_reason :: constraint_reason
  fi_action :: constraint_action
  fi_resources :: "string list"
  fi_detail :: string
  fi_order :: "conflict_order option"

definition item_committed :: "work_item \<Rightarrow> intent_operation list" where
  "item_committed w = filter op_committed (wi_operations w)"

definition item_mutating :: "work_item \<Rightarrow> intent_operation list" where
  "item_mutating w = filter op_mutating (item_committed w)"

definition normal_path :: "string \<Rightarrow> string" where
  "normal_path v =
     (let p = drop_dot_slash (strip (slashes v))
      in if has_glob p then rstrip_slash p
         else let n = normpath p in if n = ''.'' then [] else rstrip_slash n)"

datatype path_relation =
    REL_none | REL_unknown_region | REL_disjoint_region | REL_overlapping_region | REL_unknown_overlap

definition path_relation_of :: "intent_operation \<Rightarrow> intent_operation \<Rightarrow> path_relation" where
  "path_relation_of l r =
     (let lp = normal_path (rr_identifier (op_resource l));
          rp = normal_path (rr_identifier (op_resource r));
          lg = has_glob lp; rg = has_glob rp
      in if \<not> lg \<and> \<not> rg then
           (if lp \<noteq> rp then REL_none
            else case (parse_line_region (str_or (rr_region (op_resource l)) []),
                       parse_line_region (str_or (rr_region (op_resource r)) [])) of
                (Some (a, b), Some (c, d)) \<Rightarrow>
                  if b < c \<or> d < a then REL_disjoint_region else REL_overlapping_region
              | _ \<Rightarrow> REL_unknown_region)
         else if lg \<and> \<not> rg then (if fnmatchcase rp lp then REL_unknown_overlap else REL_none)
         else if rg \<and> \<not> lg then (if fnmatchcase lp rp then REL_unknown_overlap else REL_none)
         else
           let x = glob_prefix lp; y = glob_prefix rp
           in if x \<noteq> [] \<and> y \<noteq> [] \<and> \<not> (starts_with x y \<or> starts_with y x) then REL_none
              else REL_unknown_overlap)"

definition conflict_action :: "conflict_policy \<Rightarrow> constraint_action" where
  "conflict_action p = (if p = CP_DENY then ACT_DENY else ACT_SERIALIZE)"

definition plain_finding :: "constraint_reason \<Rightarrow> constraint_action \<Rightarrow> string list \<Rightarrow> string \<Rightarrow> finding" where
  "plain_finding reason action resources detail =
     \<lparr>fi_reason = reason, fi_action = action, fi_resources = resources, fi_detail = detail, fi_order = None\<rparr>"

definition same_file_finding :: "path_relation \<Rightarrow> budget_policy \<Rightarrow> string \<Rightarrow> finding option" where
  "same_file_finding rel policy resource =
     (let same = cb_same_file (bp_concurrency policy);
          overlap = conflict_action (cb_unknown (bp_concurrency policy));
          strict = (if same = SAME_DENY then ACT_DENY else ACT_SERIALIZE)
      in case rel of
          REL_none \<Rightarrow> None
        | REL_disjoint_region \<Rightarrow>
            if same = REGION_SAFE then None
            else Some (plain_finding RS_SAME_FILE strict [resource] ''same-file concurrency is disabled by policy'')
        | REL_overlapping_region \<Rightarrow>
            Some (plain_finding RS_SAME_FILE strict [resource] ''declared line regions overlap'')
        | REL_unknown_region \<Rightarrow>
            Some (case same of
                SAME_DENY \<Rightarrow> plain_finding RS_SAME_FILE ACT_DENY [resource] ''same-file concurrency is denied by policy''
              | SAME_SERIALIZE \<Rightarrow> plain_finding RS_SAME_FILE ACT_SERIALIZE [resource] ''same-file work is serialized by policy''
              | REGION_SAFE \<Rightarrow> plain_finding RS_UNKNOWN_OVERLAP overlap [resource]
                  ''same-file regions are missing or cannot be proven disjoint'')
        | REL_unknown_overlap \<Rightarrow>
            Some (plain_finding RS_UNKNOWN_OVERLAP overlap [resource]
              ''path patterns overlap or cannot be proven disjoint''))"

definition marks_schema :: "metadata \<Rightarrow> bool" where
  "marks_schema m = (jget m ''schema_change'' = JBool True)"

definition schema_change :: "work_item \<Rightarrow> bool" where
  "schema_change w =
     (marks_schema (wi_metadata w)
      \<or> list_ex (\<lambda>op. op_mutating op \<and> (rr_kind (op_resource op) = K_SCHEMA \<or> marks_schema (op_metadata op)
          \<or> marks_schema (rr_metadata (op_resource op)))) (item_committed w))"

definition contract_keys :: "work_item \<Rightarrow> (string \<times> string) list" where
  "contract_keys w = map (\<lambda>op. (case subject_key (op_resource op) of None \<Rightarrow> [] | Some s \<Rightarrow> s, semantic_key (op_resource op)))
     (filter (\<lambda>op. rr_kind (op_resource op) = K_CONTRACT) (item_committed w))"

definition finding_kind :: "resource_kind \<Rightarrow> bool" where
  "finding_kind k = (k \<in> {K_SYMBOL, K_CONCEPT, K_CONFIG, K_ROUTE, K_SCHEMA})"

definition semantic_keys :: "work_item \<Rightarrow> string list" where
  "semantic_keys w = map (\<lambda>op. semantic_key (op_resource op))
     (filter (\<lambda>op. finding_kind (rr_kind (op_resource op))) (item_committed w))"

definition contract_resource :: "string \<times> string \<Rightarrow> string" where
  "contract_resource p = ''contract:'' @ fst p @ '':'' @ snd p"

definition shared_contract_resources :: "work_item \<Rightarrow> work_item \<Rightarrow> string list" where
  "shared_contract_resources l r =
     (let lc = contract_keys l; rc = contract_keys r;
          shared = filter (\<lambda>k. k \<in> set rc) lc;
          from_left = filter (\<lambda>k. fst k \<noteq> [] \<and> fst k \<in> set (semantic_keys r)) lc;
          from_right = filter (\<lambda>k. fst k \<noteq> [] \<and> fst k \<in> set (semantic_keys l)) rc
      in sorted_set (map contract_resource (shared @ from_left @ from_right)))"

text \<open>One pair of operations of the inner loop.\<close>

definition operation_finding :: "budget_policy \<Rightarrow> intent_operation \<Rightarrow> intent_operation \<Rightarrow> finding list" where
  "operation_finding policy l r =
     (let lr = op_resource l; rr = op_resource r
      in if \<not> (op_mutating l \<or> op_mutating r) then []
         else if path_kind (rr_kind lr) \<and> path_kind (rr_kind rr) then
           (case same_file_finding (path_relation_of l r) policy (normal_path (rr_identifier lr)) of
              None \<Rightarrow> [] | Some f \<Rightarrow> [f])
         else if finding_kind (rr_kind lr) \<and> finding_kind (rr_kind rr) \<and> semantic_key lr = semantic_key rr then
           [plain_finding RS_UNKNOWN_OVERLAP (conflict_action (cb_unknown (bp_concurrency policy)))
              [kind_value (rr_kind lr) @ '':'' @ semantic_key lr] ''semantic resources overlap'']
         else [])"

definition operation_findings :: "work_item \<Rightarrow> work_item \<Rightarrow> budget_policy \<Rightarrow> finding list" where
  "operation_findings l r policy =
     concat (map (\<lambda>x. concat (map (operation_finding policy x) (item_committed r))) (item_committed l))"

definition pair_findings_of :: "work_item \<Rightarrow> work_item \<Rightarrow> budget_policy \<Rightarrow> finding list" where
  "pair_findings_of l r policy =
     (if (schema_change l \<or> schema_change r) \<and> item_mutating l \<noteq> [] \<and> item_mutating r \<noteq> []
      then [plain_finding RS_SCHEMA_CHANGE (conflict_action (cb_schema (bp_concurrency policy))) [''schema-change'']
              ''schema-changing work is isolated from concurrent mutations'']
      else [])
     @ (let contracts = shared_contract_resources l r
        in if contracts = [] then []
           else [plain_finding RS_SHARED_CONTRACT (conflict_action (cb_contract (bp_concurrency policy))) contracts
                   ''work items share a contract or its bound subject''])
     @ operation_findings l r policy"

text \<open>The findings of a pair combined into one constraint.\<close>

definition combine_findings :: "string \<Rightarrow> string \<Rightarrow> finding list \<Rightarrow> plan_fault + concurrency_constraint option" where
  "combine_findings left right fs =
     (if fs = [] then Inr None
      else
        let action = (if list_ex (\<lambda>f. fi_action f = ACT_DENY) fs then ACT_DENY else ACT_SERIALIZE);
            reasons = map fi_reason fs;
            resources = concat (map fi_resources fs);
            details = join ''; '' (sorted_set (map fi_detail fs));
            orders = uniq (concat (map (\<lambda>f. case fi_order f of None \<Rightarrow> [] | Some o' \<Rightarrow> [o']) fs));
            built = (if 1 < length orders
              then \<lparr>cc_before = left, cc_after = right, cc_action = ACT_DENY,
                     cc_reasons = reasons @ [RS_SEMANTIC_CONFLICT], cc_resources = resources,
                     cc_detail = details @ ''; semantic ordering evidence is contradictory''\<rparr>
              else if orders = [RIGHT_BEFORE_LEFT]
              then \<lparr>cc_before = right, cc_after = left, cc_action = action, cc_reasons = reasons,
                     cc_resources = resources, cc_detail = details\<rparr>
              else \<lparr>cc_before = left, cc_after = right, cc_action = action, cc_reasons = reasons,
                     cc_resources = resources, cc_detail = details\<rparr>)
        in res_bind (constraint_post_init built) (\<lambda>c. Inr (Some c)))"

definition pair_constraint :: "work_item \<Rightarrow> work_item \<Rightarrow> budget_policy \<Rightarrow> plan_fault + concurrency_constraint option" where
  "pair_constraint l r policy = combine_findings (wi_id l) (wi_id r) (pair_findings_of l r policy)"


section \<open>Execution waves\<close>

text \<open>\<open>xs[:n]\<close> for any integer \<open>n\<close>.\<close>

definition slice_to :: "int \<Rightarrow> 'a list \<Rightarrow> 'a list" where
  "slice_to n xs = (if 0 \<le> n then take (nat n) xs else take (length xs - nat (- n)) xs)"

definition serial_befores :: "concurrency_constraint list \<Rightarrow> string \<Rightarrow> string list" where
  "serial_befores cs w = map cc_before (filter (\<lambda>c. cc_action c = ACT_SERIALIZE \<and> cc_after c = w) cs)"

definition wave_deps :: "work_graph \<Rightarrow> concurrency_constraint list \<Rightarrow> string \<Rightarrow> string list" where
  "wave_deps g cs w = (case item_of g w of None \<Rightarrow> [] | Some i \<Rightarrow> wi_depends i) @ serial_befores cs w"

definition unknown_afters :: "work_graph \<Rightarrow> concurrency_constraint list \<Rightarrow> string list" where
  "unknown_afters g cs = filter (\<lambda>w. w \<notin> set (map wi_id (wg_items g)))
     (map cc_after (filter (\<lambda>c. cc_action c = ACT_SERIALIZE) cs))"

definition number_waves :: "string list list \<Rightarrow> plan_fault + execution_wave list" where
  "number_waves ws = res_map (\<lambda>(i, w). wave_post_init \<lparr>ew_index = int i, ew_work = w\<rparr>) (enumerate 1 ws)"

definition execution_waves ::
  "work_graph \<Rightarrow> concurrency_constraint list \<Rightarrow> int \<Rightarrow> plan_fault + execution_wave list" where
  "execution_waves g cs max_active =
     res_bind (case topological_order g of Inl e \<Rightarrow> Inl (PlanGraph e) | Inr o' \<Rightarrow> Inr o') (\<lambda>order.
     case unknown_afters g cs of
       w # _ \<Rightarrow> Inl (UnknownConstraintItem w)
     | [] \<Rightarrow>
         (case batch_run (slice_to max_active) (wave_deps g cs) order of
            None \<Rightarrow> Inl WaveBoundReached
          | Some st \<Rightarrow>
              if bt_left st \<noteq> [] then Inl ConstraintCycle else number_waves (bt_batches st)))"

definition wave_ancestors :: "work_graph \<Rightarrow> string list \<Rightarrow> (string \<Rightarrow> string list) \<Rightarrow> (string \<Rightarrow> string list)" where
  "wave_ancestors g order = fold (\<lambda>w m. m(w :=
     (let ds = (case item_of g w of None \<Rightarrow> [] | Some i \<Rightarrow> wi_depends i) in ds @ concat (map m ds)))) order"

definition graph_ancestors :: "work_graph \<Rightarrow> string list \<Rightarrow> string \<Rightarrow> string list" where
  "graph_ancestors g order = wave_ancestors g order (\<lambda>_. [])"

text \<open>\<open>combinations(order, 2)\<close>.\<close>

fun combinations :: "'a list \<Rightarrow> ('a \<times> 'a) list" where
  "combinations [] = []"
| "combinations (x # xs) = map (Pair x) xs @ combinations xs"

definition pair_step ::
  "work_graph \<Rightarrow> budget_policy \<Rightarrow> (string \<Rightarrow> string list) \<Rightarrow> string \<times> string \<Rightarrow> plan_fault + concurrency_constraint list" where
  "pair_step g policy ancestors p =
     (if fst p \<in> set (ancestors (snd p)) \<or> snd p \<in> set (ancestors (fst p)) then Inr []
      else case (item_of g (fst p), item_of g (snd p)) of
          (Some l, Some r) \<Rightarrow> res_bind (pair_constraint l r policy) (\<lambda>c. Inr (case c of None \<Rightarrow> [] | Some x \<Rightarrow> [x]))
        | _ \<Rightarrow> Inl (UnknownConstraintItem (fst p)))"

text \<open>The constraints of the stage \<open>broad_declared\<close> without a semantic graph.\<close>

definition broad_constraints :: "work_graph \<Rightarrow> budget_policy \<Rightarrow> plan_fault + concurrency_constraint list" where
  "broad_constraints g policy =
     res_bind (case topological_order g of Inl e \<Rightarrow> Inl (PlanGraph e) | Inr o' \<Rightarrow> Inr o') (\<lambda>order.
     res_bind (res_map (pair_step g policy (graph_ancestors g order)) (combinations order)) (\<lambda>cs.
     Inr (concat cs)))"

definition lift_plan_budget :: "budget_error + 'a \<Rightarrow> plan_fault + 'a" where
  "lift_plan_budget r = (case r of Inl e \<Rightarrow> Inl (PlanBudget e) | Inr a \<Rightarrow> Inr a)"

definition compute_broad_plan ::
  "(json \<Rightarrow> string) \<Rightarrow> metadata \<Rightarrow> work_graph \<Rightarrow> budget_policy \<Rightarrow> int \<Rightarrow> int \<Rightarrow> plan_fault + concurrency_plan" where
  "compute_broad_plan sha reports g policy graph_version budget_version =
     res_bind (lift_plan_budget (validate_work_item_count policy (int (length (wg_items g))))) (\<lambda>_.
     res_bind (broad_constraints g policy) (\<lambda>cs.
     let denied = denied_in cs
     in res_bind (if denied then Inr [] else execution_waves g cs (wb_active (bp_workers policy))) (\<lambda>waves.
        concurrency_plan_post_init
          \<lparr>cp_graph_version = graph_version, cp_graph_fingerprint = graph_fingerprint sha g,
           cp_budget_version = budget_version, cp_budget_fingerprint = budget_fingerprint sha policy,
           cp_max_active = wb_active (bp_workers policy), cp_items = int (length (wg_items g)),
           cp_status = (if denied then CS_REPLAN else CS_READY), cp_waves = waves, cp_constraints = cs,
           cp_metadata = reports\<rparr>)))"


section \<open>Effective dependencies\<close>

text \<open>\<open>effective_dependencies\<close> of \<open>swarm/admission.py\<close>: the edges of the graph and of the plan.\<close>

definition effective_dependencies_of :: "work_graph \<Rightarrow> concurrency_plan \<Rightarrow> plan_fault + (string \<times> string list) list" where
  "effective_dependencies_of g p =
     (case unknown_afters g (cp_constraints p) of
        w # _ \<Rightarrow> Inl (UnknownConstraintItem w)
      | [] \<Rightarrow> Inr (map (\<lambda>w. (w, sorted_set (wave_deps g (cp_constraints p) w))) (sorted_set (map wi_id (wg_items g)))))"

definition deps_of :: "(string \<times> string list) list \<Rightarrow> string \<Rightarrow> string list" where
  "deps_of m w = (case map_of m w of None \<Rightarrow> [] | Some ds \<Rightarrow> ds)"

text \<open>\<open>_topological_order\<close>: every ready item joins the order, smallest first.\<close>

definition admission_order :: "(string \<times> string list) list \<Rightarrow> plan_fault + string list" where
  "admission_order m =
     (case batch_run sort (deps_of m) (map fst m) of
        None \<Rightarrow> Inl WaveBoundReached
      | Some st \<Rightarrow> if bt_left st \<noteq> [] then Inl ConstraintCycle else Inr (concat (bt_batches st)))"

definition admission_ancestors :: "(string \<times> string list) list \<Rightarrow> string list \<Rightarrow> string \<Rightarrow> string list" where
  "admission_ancestors m order =
     fold (\<lambda>w anc. anc(w := deps_of m w @ concat (map anc (deps_of m w)))) order (\<lambda>_. [])"

end
