(* ===== verification/SharedAdmission.thy ===== *)
theory SharedAdmission
  imports Concurrency Scheduler
begin

text \<open>
  Shared admission of \<open>swarm/admission.py\<close>: one intent per work item of a planned session, each
  evaluated by the admission engine against every admitted intent that may run beside it. The
  pairs are compared on projected surfaces. The reports that the planner attaches to the plan
  (symbol projection, dependency narrowing, conflict policy refinement) are values here, already
  read from the metadata of the plan: their own modules are not modelled. Two digests are
  parameters, \<open>sha\<close> of a payload and \<open>sha_text\<close> of a text, both as hexadecimal text.
\<close>


section \<open>The reports attached to a plan\<close>

record authority_surface =
  as_protocol :: string
  as_graph_fingerprint :: string
  as_symbol_fingerprint :: string
  as_fingerprint :: string
  as_operations :: "(string \<times> intent_operation list) list"

datatype policy_class =
    PC_MUST_CONFLICT | PC_ORDERED | PC_COMMUTATIVE | PC_INDEPENDENT | PC_UNKNOWN | PC_NOT_APPLICABLE

datatype policy_effect =
    PE_PRESERVE | PE_RELEASE | PE_ORDER | PE_CONFLICT

record policy_pair =
  pp_left :: string
  pp_right :: string
  pp_class :: policy_class
  pp_effect :: policy_effect
  pp_decision :: json

record policy_report =
  pr_graph_fingerprint :: string
  pr_budget_fingerprint :: string
  pr_narrowing_fingerprint :: string
  pr_semantic_fingerprint :: json
  pr_pairs :: "policy_pair list"

record plan_reports =
  rp_projection :: "authority_surface option"
  rp_narrowing :: "authority_surface option"
  rp_refinement :: "policy_report option"

datatype shared_error =
    NotReadyPlan
  | StaleConcurrencyPlan
  | SharedFault plan_fault
  | SharedModel model_error
  | UnknownItem string
  | StaleProjection
  | StaleNarrowing
  | NarrowingMismatch
  | RefinementGraphStale
  | RefinementBudgetStale
  | RefinementSemanticMismatch
  | RefinementNarrowingMismatch
  | NoSurfaceFor string
  | SharedEval eval_error
  | SharedPlanError plan_error

definition lift_fault :: "plan_fault + 'a \<Rightarrow> shared_error + 'a" where
  "lift_fault r = (case r of Inl e \<Rightarrow> Inl (SharedFault e) | Inr a \<Rightarrow> Inr a)"

definition lift_intent :: "model_error + 'a \<Rightarrow> shared_error + 'a" where
  "lift_intent r = (case r of Inl e \<Rightarrow> Inl (SharedModel e) | Inr a \<Rightarrow> Inr a)"

definition lift_eval :: "eval_error + 'a \<Rightarrow> shared_error + 'a" where
  "lift_eval r = (case r of Inl e \<Rightarrow> Inl (SharedEval e) | Inr a \<Rightarrow> Inr a)"

definition lift_plan_error :: "plan_error + 'a \<Rightarrow> shared_error + 'a" where
  "lift_plan_error r = (case r of Inl e \<Rightarrow> Inl (SharedPlanError e) | Inr a \<Rightarrow> Inr a)"

lemma lift_shared_eq [simp]:
  "lift_fault r = Inr a \<longleftrightarrow> r = Inr a" "lift_intent s = Inr b \<longleftrightarrow> s = Inr b"
  "lift_eval t = Inr c \<longleftrightarrow> t = Inr c" "lift_plan_error u = Inr d \<longleftrightarrow> u = Inr d"
  by (auto simp: lift_fault_def lift_intent_def lift_eval_def lift_plan_error_def split: sum.splits)


section \<open>The intents\<close>

definition swarm_intent_id :: "(string \<Rightarrow> string) \<Rightarrow> string \<Rightarrow> string \<Rightarrow> string \<Rightarrow> string" where
  "swarm_intent_id sha_text sid w fp =
     ''swarm-'' @ take 20 (sha_text (sid @ [CHR 0x00] @ w @ [CHR 0x00] @ fp)) @ ''-'' @ w"

definition swarm_metadata :: "(json \<Rightarrow> string) \<Rightarrow> swarm_session \<Rightarrow> string \<Rightarrow> metadata" where
  "swarm_metadata sha s w =
     [(''swarm_session_id'', JStr (sw_id s)), (''work_id'', JStr w),
      (''graph_version'', JInt (sw_graph_version s)),
      (''graph_fingerprint'', JStr (session_graph_fingerprint sha s)),
      (''source'', JStr ''swarm_work_graph'')]"

definition intent_for ::
  "(json \<Rightarrow> string) \<Rightarrow> (string \<Rightarrow> string) \<Rightarrow> swarm_session \<Rightarrow> (string \<times> string list) list \<Rightarrow> work_item
   \<Rightarrow> model_error + change_intent" where
  "intent_for sha sha_text s deps item =
     (let iid = (\<lambda>w. swarm_intent_id sha_text (sw_id s) w (session_graph_fingerprint sha s))
      in intent_post_init
        \<lparr>ci_intent_id = iid (wi_id item), ci_task_id = sw_id s @ '':'' @ wi_id item,
         ci_owner = ''swarm/'' @ sw_id s @ ''/'' @ wi_id item,
         ci_base_revision = sw_commit s, ci_operations = wi_operations item,
         ci_base_commit = Some (sw_commit s), ci_preserves = wi_preserves item,
         ci_acceptance = wi_acceptance item, ci_dependencies = map iid (deps_of deps (wi_id item)),
         ci_lease_seconds = 900, ci_metadata = swarm_metadata sha s (wi_id item)\<rparr>)"


section \<open>The surfaces that are compared\<close>

definition operation_path :: "intent_operation \<Rightarrow> string option" where
  "operation_path op =
     (let r = op_resource op; m = rr_metadata r;
          plain = (\<lambda>v. let t = slashes v in if take 2 t = ''./'' then drop 2 t else t);
          read = (if truthy (jget m ''path'') then jget m ''path''
                  else if truthy (jget m ''file'') then jget m ''file''
                  else if truthy (jget m ''source_path'') then jget m ''source_path''
                  else jget m ''repository_path'')
      in if rr_kind r = K_FILE \<or> rr_kind r = K_DOCUMENT then Some (plain (rr_identifier r))
         else if read = JNull then None else Some (plain (py_str read)))"

definition semantic_write :: "intent_operation \<Rightarrow> bool" where
  "semantic_write op = (op_committed op \<and> op_mutating op
     \<and> rr_kind (op_resource op) \<in> {K_SYMBOL, K_CONTRACT, K_SCHEMA})"

definition file_write :: "intent_operation \<Rightarrow> bool" where
  "file_write op = (op_committed op \<and> op_mutating op
     \<and> rr_kind (op_resource op) \<in> {K_FILE, K_DOCUMENT})"

definition semantic_paths :: "intent_operation list \<Rightarrow> string list" where
  "semantic_paths ops = List.map_filter operation_path (filter semantic_write ops)"

definition without_file_writes :: "intent_operation list \<Rightarrow> intent_operation list" where
  "without_file_writes ops =
     filter (\<lambda>op. \<not> (file_write op \<and> (case operation_path op of None \<Rightarrow> False
         | Some p \<Rightarrow> p \<in> set (semantic_paths ops)))) ops"

text \<open>Equality of operation tuples, whose metadata dicts compare without their order.\<close>

definition same_operations :: "intent_operation list \<Rightarrow> intent_operation list \<Rightarrow> bool" where
  "same_operations xs ys = (map (canon \<circ> op_dict) xs = map (canon \<circ> op_dict) ys)"

definition semantic_conflict_projection :: "change_intent \<Rightarrow> shared_error + change_intent" where
  "semantic_conflict_projection i =
     (let ops = ci_operations i; projected = without_file_writes ops
      in if semantic_paths ops = [] then Inr i
         else if same_operations projected ops then Inr i
         else lift_intent (intent_post_init (i\<lparr>ci_operations := projected,
           ci_metadata := jset ''projected_file_paths'' (jstrs (sorted_set (semantic_paths ops)))
             (jset ''shared_conflict_projection'' (JStr ''semantic-authority-v2'') (ci_metadata i))\<rparr>)))"

definition surface_operations :: "authority_surface \<Rightarrow> string \<Rightarrow> shared_error + intent_operation list" where
  "surface_operations report w =
     (case map_of (as_operations report) w of None \<Rightarrow> Inl (NoSurfaceFor w) | Some ops \<Rightarrow> Inr ops)"

definition symbol_conflict_projection ::
  "authority_surface option \<Rightarrow> string \<Rightarrow> change_intent \<Rightarrow> shared_error + change_intent" where
  "symbol_conflict_projection projection w i = (case projection of
       None \<Rightarrow> semantic_conflict_projection i
     | Some report \<Rightarrow> res_bind (surface_operations report w) (\<lambda>ops.
         if same_operations ops (ci_operations i) then Inr i
         else lift_intent (intent_post_init (i\<lparr>ci_operations := ops,
           ci_metadata := jset ''shared_conflict_projection_fingerprint'' (JStr (as_fingerprint report))
             (jset ''shared_conflict_projection'' (JStr (as_protocol report)) (ci_metadata i))\<rparr>))))"

definition conflict_surface :: "plan_reports \<Rightarrow> string \<Rightarrow> change_intent \<Rightarrow> shared_error + change_intent" where
  "conflict_surface reports w i = (case rp_narrowing reports of
       None \<Rightarrow> symbol_conflict_projection (rp_projection reports) w i
     | Some report \<Rightarrow> res_bind (surface_operations report w) (\<lambda>ops.
         if same_operations ops (ci_operations i) then Inr i
         else lift_intent (intent_post_init (i\<lparr>ci_operations := ops,
           ci_metadata := jset ''symbol_projection_fingerprint''
               (jopt (map_option as_fingerprint (rp_projection reports)))
             (jset ''shared_conflict_projection_fingerprint'' (JStr (as_fingerprint report))
             (jset ''shared_conflict_projection'' (JStr (as_protocol report)) (ci_metadata i)))\<rparr>))))"


section \<open>Released pairs\<close>

text \<open>\<open>pair_map\<close>: of two records about one unordered pair the later one counts.\<close>

definition pair_of :: "policy_report \<Rightarrow> string \<Rightarrow> string \<Rightarrow> policy_pair option" where
  "pair_of report l r =
     find (\<lambda>p. {pp_left p, pp_right p} = {l, r}) (rev (pr_pairs report))"

definition released_decision :: "policy_class \<Rightarrow> metadata \<Rightarrow> bool" where
  "released_decision c m =
     (let v = jget m ''fingerprint''; fp = lower (if truthy v then py_str v else [])
      in jget m ''kind'' = JStr (if c = PC_INDEPENDENT then ''independent'' else ''commutative'')
         \<and> hex_between 64 64 fp)"

definition releases_pair :: "policy_report option \<Rightarrow> string \<Rightarrow> string \<Rightarrow> bool" where
  "releases_pair report l r = (case report of
       None \<Rightarrow> False
     | Some rep \<Rightarrow> (case pair_of rep l r of
         None \<Rightarrow> False
       | Some p \<Rightarrow> pp_effect p = PE_RELEASE \<and> pp_class p \<in> {PC_INDEPENDENT, PC_COMMUTATIVE}
           \<and> (case pp_decision p of JObj m \<Rightarrow> released_decision (pp_class p) m | _ \<Rightarrow> False)))"


section \<open>The plan\<close>

definition reports_current ::
  "(json \<Rightarrow> string) \<Rightarrow> swarm_session \<Rightarrow> concurrency_plan \<Rightarrow> plan_reports \<Rightarrow> shared_error + unit" where
  "reports_current sha s p reports =
     (let gf = session_graph_fingerprint sha s; projection = rp_projection reports;
          narrowing = rp_narrowing reports
      in if (case projection of None \<Rightarrow> False | Some a \<Rightarrow> as_graph_fingerprint a \<noteq> gf)
         then Inl StaleProjection
         else if (case narrowing of None \<Rightarrow> False | Some d \<Rightarrow> as_graph_fingerprint d \<noteq> gf)
         then Inl StaleNarrowing
         else if (case (narrowing, projection) of
             (Some d, Some a) \<Rightarrow> as_symbol_fingerprint d \<noteq> as_fingerprint a | _ \<Rightarrow> False)
         then Inl NarrowingMismatch
         else (case rp_refinement reports of
           None \<Rightarrow> Inr ()
         | Some r \<Rightarrow>
             if pr_graph_fingerprint r \<noteq> gf then Inl RefinementGraphStale
             else if pr_budget_fingerprint r \<noteq> session_budget_fingerprint sha s then Inl RefinementBudgetStale
             else if pr_semantic_fingerprint r \<noteq> jget (cp_metadata p) ''semantic_graph_fingerprint''
             then Inl RefinementSemanticMismatch
             else if (case narrowing of None \<Rightarrow> False
                 | Some d \<Rightarrow> pr_narrowing_fingerprint r \<noteq> as_fingerprint d)
             then Inl RefinementNarrowingMismatch
             else Inr ()))"

record admission_run =
  ar_admitted :: "(string \<times> change_intent) list"
  ar_records :: "work_admission list"

text \<open>The already admitted intents that may run beside \<open>w\<close>, in the admission order.\<close>

definition beside ::
  "plan_reports \<Rightarrow> (string \<Rightarrow> string list) \<Rightarrow> string list \<Rightarrow> (string \<times> change_intent) list \<Rightarrow> string
   \<Rightarrow> (string \<times> change_intent) list" where
  "beside reports ancestors order admitted w =
     List.map_filter (\<lambda>x. case map_of admitted x of None \<Rightarrow> None | Some i \<Rightarrow>
       if x \<notin> set (ancestors w) \<and> \<not> releases_pair (rp_refinement reports) w x then Some (x, i) else None) order"

definition admit_work ::
  "plan_reports \<Rightarrow> (string \<times> string list) list \<Rightarrow> (string \<Rightarrow> string list) \<Rightarrow> string list \<Rightarrow> string list
   \<Rightarrow> admission_run \<Rightarrow> string \<times> change_intent \<Rightarrow> shared_error + admission_run" where
  "admit_work reports deps ancestors order known st work =
     (case work of (w, intent) \<Rightarrow>
      res_bind (res_map (\<lambda>(x, i). conflict_surface reports x i) (beside reports ancestors order (ar_admitted st) w)) (\<lambda>others.
      res_bind (conflict_surface reports w intent) (\<lambda>surface.
      res_bind (lift_eval (evaluate surface others known)) (\<lambda>d.
      res_bind (lift_plan_error (work_admission_post_init
        \<lparr>wa_work = w, wa_intent = intent, wa_allowed = ad_allowed d, wa_kind = ad_kind d,
         wa_dependencies = deps_of deps w, wa_conflicts = map conflict_dict (ad_conflicts d),
         wa_constraints = ad_constraints d, wa_notifications = ad_notifications d,
         wa_guidance = ad_guidance d\<rparr>)) (\<lambda>record.
      Inr (st\<lparr>ar_records := ar_records st @ [record],
             ar_admitted := (if ad_allowed d then ar_admitted st @ [(w, ad_intent d)] else ar_admitted st)\<rparr>))))))"

fun admit_all :: "('s \<Rightarrow> 'w \<Rightarrow> 'e + 's) \<Rightarrow> 'w list \<Rightarrow> 's \<Rightarrow> 'e + 's" where
  "admit_all step [] st = Inr st"
| "admit_all step (w # ws) st = res_bind (step st w) (admit_all step ws)"

definition copied_reports :: "string list" where
  "copied_reports =
     [''admission_attribution'', ''admission_attribution_summary'', ''symbol_authority_projection'',
      ''symbol_authority_projection_summary'', ''dependency_authority_narrowing'',
      ''dependency_authority_narrowing_summary'', ''conflict_policy_refinement'',
      ''conflict_policy_refinement_summary'', ''candidate_blocking'', ''semantic_graph_fingerprint'',
      ''semantic_graph_revision'', ''semantic_graph_workspace_fingerprint'',
      ''semantic_graph_refresh_mode'', ''semantic_graph_invalidation_fingerprint'']"

definition shared_metadata :: "concurrency_plan \<Rightarrow> metadata" where
  "shared_metadata p =
     (let m = cp_metadata p; get = jget m
      in [(''engine'', JStr (if get ''semantic_graph_fingerprint'' \<noteq> JNull
             then ''claim-plane-graph-aware-admission-v1'' else ''claim-plane-admission-v1'')),
          (''dependency_model'', JStr ''work-graph-plus-graph-derived-serialization-edges'')]
         @ map (\<lambda>k. (k, get k)) copied_reports
         @ [(''semantic_pairs_pruned_before_classifier'',
              (case map_of m ''semantic_pairs_pruned_before_classifier'' of None \<Rightarrow> JInt 0 | Some v \<Rightarrow> v)),
            (''contingent_scope'', JStr ''projected-as-read-until-amendment'')])"

definition admission_works ::
  "(json \<Rightarrow> string) \<Rightarrow> (string \<Rightarrow> string) \<Rightarrow> swarm_session \<Rightarrow> (string \<times> string list) list \<Rightarrow> string list
   \<Rightarrow> shared_error + (string \<times> change_intent) list" where
  "admission_works sha sha_text s deps order =
     res_map (\<lambda>w. case item_of (sw_graph s) w of
         None \<Rightarrow> Inl (UnknownItem w)
       | Some item \<Rightarrow> res_bind (lift_intent (intent_for sha sha_text s deps item)) (\<lambda>i. Inr (w, i))) order"

definition plan_current :: "(json \<Rightarrow> string) \<Rightarrow> swarm_session \<Rightarrow> concurrency_plan \<Rightarrow> bool" where
  "plan_current sha s p = (cp_graph_version p = sw_graph_version s
     \<and> cp_graph_fingerprint p = session_graph_fingerprint sha s
     \<and> cp_budget_version p = sw_budget_version s
     \<and> cp_budget_fingerprint p = session_budget_fingerprint sha s)"

definition compute_shared_admission ::
  "(json \<Rightarrow> string) \<Rightarrow> (string \<Rightarrow> string) \<Rightarrow> swarm_session \<Rightarrow> concurrency_plan \<Rightarrow> plan_reports
   \<Rightarrow> shared_error + admission_plan" where
  "compute_shared_admission sha sha_text s p reports =
     (if cp_status p \<noteq> CS_READY then Inl NotReadyPlan
      else if \<not> plan_current sha s p then Inl StaleConcurrencyPlan
      else
      res_bind (lift_fault (effective_dependencies_of (sw_graph s) p)) (\<lambda>deps.
      res_bind (lift_fault (admission_order deps)) (\<lambda>order.
      let ancestors = admission_ancestors deps order;
          known = map (\<lambda>w. swarm_intent_id sha_text (sw_id s) w (session_graph_fingerprint sha s)) order
      in
      res_bind (admission_works sha sha_text s deps order) (\<lambda>works.
      res_bind (reports_current sha s p reports) (\<lambda>_.
      res_bind (admit_all (admit_work reports deps ancestors order known) works
          \<lparr>ar_admitted = [], ar_records = []\<rparr>) (\<lambda>run.
      lift_plan_error (admission_plan_post_init
        \<lparr>ap_session = sw_id s, ap_repo = sw_repo s, ap_graph_version = sw_graph_version s,
         ap_graph_fingerprint = session_graph_fingerprint sha s,
         ap_budget_version = sw_budget_version s,
         ap_budget_fingerprint = session_budget_fingerprint sha s,
         ap_concurrency_fingerprint = concurrency_fingerprint sha p,
         ap_status = (if list_all wa_allowed (ar_records run) then PLAN_READY else PLAN_REPLAN),
         ap_admissions = ar_records run, ap_metadata = shared_metadata p\<rparr>)))))))"

end
