(* ===== verification/SwarmStore.thy ===== *)
theory SwarmStore
  imports MergeQueue SharedAdmission
begin

text \<open>
  The durable store of a swarm, \<open>swarm/store.py\<close>: every public operation of
  \<open>SwarmSessionStore\<close> is one transaction over the tables, an error rolls it back. A row holds
  the value its JSON payload encodes; the columns that repeat a part of the payload are not kept
  apart, except those of a run row that an UPDATE leaves alone. \<open>rescue.py\<close> adds which runs a
  prepared serial rescue has superseded.
\<close>


section \<open>The tables\<close>

record 'a versioned =
  vr_session :: string
  vr_version :: int
  vr_value :: 'a

record run_row =
  rw_session :: string
  rw_work :: string
  rw_attempt :: int
  rw_run :: codex_run

record recovery_event =
  re_id :: string
  re_session :: string
  re_action :: string
  re_created :: string
  re_run :: "string option"
  re_work :: "string option"
  re_detail :: "string option"
  re_metadata :: metadata

text \<open>The fields of a \<open>SwarmVerificationReport\<close> that the store compares, and its fingerprint.\<close>

record verification_report =
  vp_session :: string
  vp_repo :: string
  vp_base :: string
  vp_graph_version :: int
  vp_graph_fingerprint :: string
  vp_budget_version :: int
  vp_budget_fingerprint :: string
  vp_admission :: string
  vp_queue :: string
  vp_head :: string
  vp_verified :: bool
  vp_created :: string
  vp_fingerprint :: string

record swarm_store =
  ss_sessions :: "swarm_session list"
  ss_plans :: "concurrency_plan versioned list"
  ss_admissions :: "admission_plan versioned list"
  ss_queues :: "merge_queue versioned list"
  ss_worktrees :: "managed_worktree list"
  ss_runs :: "run_row list"
  ss_reports :: "verification_report versioned list"
  ss_events :: "recovery_event list"

datatype store_error =
    UnknownSession string
  | SessionExists string
  | StaleGraphVersion int
  | StaleBudgetVersion int
  | SessionFault session_error
  | PlanNotBound
  | SessionChanged
  | NoConcurrencyPlan
  | ConcurrencyPlanChanged
  | PlanNeedsReplan
  | NoSharedAdmission
  | SharedAdmissionChanged
  | AdmissionNeedsReplan
  | StaleQueue
  | NoMergeQueue
  | MergeQueueChanged
  | UnknownMergeWork string
  | NotReadyEntry entry_state
  | NotReserved
  | NotConflicted
  | BadReopenState
  | QueueFault queue_error
  | WorktreeUnbound
  | WorktreeConflict string
  | UnknownWorktree string
  | WorktreeFault worktree_error
  | RunNotBound
  | SessionNotRunnable session_state
  | SnapshotFault scheduler_error
  | NotDispatchable string
  | LaunchesExhausted
  | AttemptsExhausted string
  | ActiveExhausted
  | ActivePerWorkExhausted string
  | TokensExceeded
  | IntegrityError string
  | UnknownRun string
  | HeartbeatChanged
  | BadTransition session_state
  | SessionIsCancelled
  | WorkersActive
  | SessionIsCompleted
  | MissingInputs
  | StaleReport

definition lift_session :: "session_error + 'a \<Rightarrow> store_error + 'a" where
  "lift_session r = (case r of Inl e \<Rightarrow> Inl (SessionFault e) | Inr a \<Rightarrow> Inr a)"

definition lift_merge :: "queue_error + 'a \<Rightarrow> store_error + 'a" where
  "lift_merge r = (case r of Inl e \<Rightarrow> Inl (QueueFault e) | Inr a \<Rightarrow> Inr a)"

definition lift_managed :: "worktree_error + 'a \<Rightarrow> store_error + 'a" where
  "lift_managed r = (case r of Inl e \<Rightarrow> Inl (WorktreeFault e) | Inr a \<Rightarrow> Inr a)"

definition lift_snapshot :: "scheduler_error + 'a \<Rightarrow> store_error + 'a" where
  "lift_snapshot r = (case r of Inl e \<Rightarrow> Inl (SnapshotFault e) | Inr a \<Rightarrow> Inr a)"

lemma lift_store_eq [simp]:
  "lift_session r = Inr a \<longleftrightarrow> r = Inr a" "lift_merge s = Inr b \<longleftrightarrow> s = Inr b"
  "lift_managed t = Inr c \<longleftrightarrow> t = Inr c" "lift_snapshot u = Inr d \<longleftrightarrow> u = Inr d"
  by (auto simp: lift_session_def lift_merge_def lift_managed_def lift_snapshot_def split: sum.splits)

definition require_session :: "swarm_store \<Rightarrow> string \<Rightarrow> store_error + swarm_session" where
  "require_session st sid = (case find_row sw_id sid (ss_sessions st) of
     None \<Rightarrow> Inl (UnknownSession sid) | Some s \<Rightarrow> Inr s)"

definition put_session :: "string \<Rightarrow> swarm_session \<Rightarrow> swarm_store \<Rightarrow> swarm_store" where
  "put_session sid s st = st\<lparr>ss_sessions := update_rows (\<lambda>r. sw_id r = sid) (\<lambda>_. s) (ss_sessions st)\<rparr>"

definition stored_plan :: "swarm_store \<Rightarrow> string \<Rightarrow> concurrency_plan versioned option" where
  "stored_plan st sid = find_row vr_session sid (ss_plans st)"

definition stored_admission :: "swarm_store \<Rightarrow> string \<Rightarrow> admission_plan versioned option" where
  "stored_admission st sid = find_row vr_session sid (ss_admissions st)"

definition stored_queue :: "swarm_store \<Rightarrow> string \<Rightarrow> merge_queue versioned option" where
  "stored_queue st sid = find_row vr_session sid (ss_queues st)"

definition stored_report :: "swarm_store \<Rightarrow> string \<Rightarrow> verification_report versioned option" where
  "stored_report st sid = find_row vr_session sid (ss_reports st)"

text \<open>\<open>INSERT ... ON CONFLICT(session_id) DO UPDATE\<close>, and \<open>DELETE ... WHERE session_id = ?\<close>.\<close>

definition upsert :: "string \<Rightarrow> int \<Rightarrow> 'a \<Rightarrow> 'a versioned list \<Rightarrow> 'a versioned list" where
  "upsert sid version v rows =
     (let row = \<lparr>vr_session = sid, vr_version = version, vr_value = v\<rparr>
      in if find_row vr_session sid rows = None then rows @ [row]
         else update_rows (\<lambda>r. vr_session r = sid) (\<lambda>_. row) rows)"

definition next_version :: "'a versioned option \<Rightarrow> int" where
  "next_version r = (case r of None \<Rightarrow> 1 | Some v \<Rightarrow> vr_version v + 1)"

definition drop_session :: "string \<Rightarrow> 'a versioned list \<Rightarrow> 'a versioned list" where
  "drop_session sid rows = delete_rows (\<lambda>r. vr_session r = sid) rows"

text \<open>Replacing the state of a session runs its constructor again.\<close>

definition with_state :: "session_state \<Rightarrow> string \<Rightarrow> swarm_session \<Rightarrow> store_error + swarm_session" where
  "with_state target now s = lift_session (session_post_init (s\<lparr>sw_state := target, sw_updated := now\<rparr>))"

definition list_runs :: "swarm_store \<Rightarrow> string \<Rightarrow> codex_run list" where
  "list_runs st sid =
     sort_key (\<lambda>r. (cr_created r, cr_attempt r)) (map rw_run (filter (\<lambda>r. rw_session r = sid) (ss_runs st)))"

definition run_of :: "swarm_store \<Rightarrow> string \<Rightarrow> codex_run option" where
  "run_of st rid = find_row cr_id rid (map rw_run (ss_runs st))"

definition list_events :: "swarm_store \<Rightarrow> string \<Rightarrow> recovery_event list" where
  "list_events st sid =
     sort_key (\<lambda>e. (re_created e, re_id e)) (filter (\<lambda>e. re_session e = sid) (ss_events st))"

definition active_runs :: "swarm_store \<Rightarrow> string \<Rightarrow> run_row list" where
  "active_runs st sid = filter (\<lambda>r. rw_session r = sid \<and> run_active (cr_state (rw_run r))) (ss_runs st)"


section \<open>Sessions\<close>

definition same_request :: "swarm_session \<Rightarrow> swarm_session \<Rightarrow> bool" where
  "same_request old s \<longleftrightarrow> sw_repo old = sw_repo s \<and> sw_commit old = sw_commit s \<and> sw_branch old = sw_branch s
     \<and> sw_task old = sw_task s \<and> sw_target old = sw_target s \<and> sw_graph old = sw_graph s
     \<and> sw_budget old = sw_budget s \<and> sw_metadata old = sw_metadata s"

definition create_session :: "swarm_session \<Rightarrow> swarm_store \<Rightarrow> store_error + (swarm_session \<times> bool) \<times> swarm_store" where
  "create_session s st = (case find_row sw_id (sw_id s) (ss_sessions st) of
     None \<Rightarrow> Inr ((s, True), st\<lparr>ss_sessions := ss_sessions st @ [s]\<rparr>)
   | Some old \<Rightarrow> if same_request old s then Inr ((old, False), st) else Inl (SessionExists (sw_id s)))"

definition drop_plans :: "string \<Rightarrow> swarm_store \<Rightarrow> swarm_store" where
  "drop_plans sid st = st\<lparr>ss_plans := drop_session sid (ss_plans st),
     ss_admissions := drop_session sid (ss_admissions st), ss_queues := drop_session sid (ss_queues st)\<rparr>"

definition replace_graph ::
  "(json \<Rightarrow> string) \<Rightarrow> string \<Rightarrow> work_graph \<Rightarrow> int \<Rightarrow> string \<Rightarrow> swarm_store \<Rightarrow> store_error + swarm_session \<times> swarm_store" where
  "replace_graph sha sid g expected now st =
     res_bind (require_session st sid) (\<lambda>cur.
     if sw_graph_version cur \<noteq> expected then Inl (StaleGraphVersion (sw_graph_version cur))
     else if session_graph_fingerprint sha cur = graph_fingerprint sha g then Inr (cur, st)
     else res_bind (lift_session (with_graph g now cur)) (\<lambda>s.
       Inr (s, drop_plans sid (put_session sid s st))))"

definition replace_budget_policy ::
  "(json \<Rightarrow> string) \<Rightarrow> string \<Rightarrow> budget_policy \<Rightarrow> int \<Rightarrow> string \<Rightarrow> swarm_store \<Rightarrow> store_error + swarm_session \<times> swarm_store" where
  "replace_budget_policy sha sid policy expected now st =
     res_bind (require_session st sid) (\<lambda>cur.
     if sw_budget_version cur \<noteq> expected then Inl (StaleBudgetVersion (sw_budget_version cur))
     else if session_budget_fingerprint sha cur = budget_fingerprint sha policy then Inr (cur, st)
     else res_bind (lift_session (with_budget_policy policy now cur)) (\<lambda>s.
       Inr (s, drop_plans sid (put_session sid s st))))"

definition set_session_state ::
  "string \<Rightarrow> session_state \<Rightarrow> session_state list \<Rightarrow> string \<Rightarrow> swarm_store \<Rightarrow> store_error + swarm_session \<times> swarm_store" where
  "set_session_state sid target allowed now st =
     res_bind (require_session st sid) (\<lambda>cur.
     if sw_state cur = target then Inr (cur, st)
     else if sw_state cur \<notin> set allowed then Inl (BadTransition (sw_state cur))
     else res_bind (with_state target now cur) (\<lambda>s. Inr (s, put_session sid s st)))"


section \<open>Plans and admissions\<close>

definition save_concurrency_plan ::
  "(json \<Rightarrow> string) \<Rightarrow> string \<Rightarrow> concurrency_plan \<Rightarrow> int \<Rightarrow> int \<Rightarrow> swarm_store
   \<Rightarrow> store_error + (concurrency_plan \<times> int \<times> bool) \<times> swarm_store" where
  "save_concurrency_plan sha sid p graph_version budget_version st =
     res_bind (require_session st sid) (\<lambda>s.
     if sw_graph_version s \<noteq> graph_version then Inl (StaleGraphVersion (sw_graph_version s))
     else if sw_budget_version s \<noteq> budget_version then Inl (StaleBudgetVersion (sw_budget_version s))
     else if \<not> plan_current sha s p then Inl PlanNotBound
     else
       let old = stored_plan st sid
       in case old of
           Some v \<Rightarrow>
             if concurrency_fingerprint sha (vr_value v) = concurrency_fingerprint sha p
             then Inr ((vr_value v, vr_version v, False), st)
             else Inr ((p, next_version old, True),
               st\<lparr>ss_plans := upsert sid (next_version old) p (ss_plans st),
                  ss_admissions := drop_session sid (ss_admissions st)\<rparr>)
         | None \<Rightarrow> Inr ((p, next_version old, True),
               st\<lparr>ss_plans := upsert sid (next_version old) p (ss_plans st),
                  ss_admissions := drop_session sid (ss_admissions st)\<rparr>))"

definition save_shared_admission ::
  "(json \<Rightarrow> string) \<Rightarrow> string \<Rightarrow> admission_plan \<Rightarrow> int \<Rightarrow> int \<Rightarrow> string \<Rightarrow> swarm_store
   \<Rightarrow> store_error + (admission_plan \<times> int \<times> bool) \<times> swarm_store" where
  "save_shared_admission sha sid p graph_version budget_version plan_fp st =
     res_bind (require_session st sid) (\<lambda>s.
     if sw_graph_version s \<noteq> graph_version \<or> sw_budget_version s \<noteq> budget_version
        \<or> session_graph_fingerprint sha s \<noteq> ap_graph_fingerprint p
        \<or> session_budget_fingerprint sha s \<noteq> ap_budget_fingerprint p
     then Inl SessionChanged
     else (case stored_plan st sid of
         None \<Rightarrow> Inl NoConcurrencyPlan
       | Some c \<Rightarrow>
           if concurrency_fingerprint sha (vr_value c) \<noteq> plan_fp then Inl ConcurrencyPlanChanged
           else
             let old = stored_admission st sid
             in if (case old of None \<Rightarrow> False | Some v \<Rightarrow> plan_fingerprint sha (vr_value v) = plan_fingerprint sha p)
                then Inr ((vr_value (the old), vr_version (the old), False), st)
                else Inr ((p, next_version old, True),
                  st\<lparr>ss_admissions := upsert sid (next_version old) p (ss_admissions st),
                     ss_queues := drop_session sid (ss_queues st)\<rparr>)))"


section \<open>Worktrees\<close>

definition insert_worktree :: "managed_worktree \<Rightarrow> swarm_store \<times> int \<Rightarrow> store_error + swarm_store \<times> int" where
  "insert_worktree w p =
     (let st = fst p; rows = ss_worktrees st
      in case find (\<lambda>r. mw_session r = mw_session w \<and> mw_work r = mw_work w) rows of
          Some cur \<Rightarrow> if cur = w then Inr p else Inl (WorktreeConflict (mw_work w))
        | None \<Rightarrow>
            if mw_branch w \<in> mw_branch ` set rows then Inl (IntegrityError ''swarm_worktrees.branch'')
            else if mw_path w \<in> mw_path ` set rows then Inl (IntegrityError ''swarm_worktrees.worktree_path'')
            else Inr (st\<lparr>ss_worktrees := rows @ [w]\<rparr>, snd p + 1))"

definition save_worktree ::
  "string \<Rightarrow> int \<Rightarrow> string \<Rightarrow> swarm_store \<times> int \<Rightarrow> managed_worktree \<Rightarrow> store_error + swarm_store \<times> int" where
  "save_worktree sid version fp p w =
     (if mw_session w \<noteq> sid \<or> mw_graph_version w \<noteq> version \<or> mw_graph_fingerprint w \<noteq> fp
      then Inl WorktreeUnbound else insert_worktree w p)"

definition list_worktrees :: "swarm_store \<Rightarrow> string \<Rightarrow> managed_worktree list" where
  "list_worktrees st sid = sort_key mw_work (filter (\<lambda>w. mw_session w = sid) (ss_worktrees st))"

definition save_worktrees ::
  "(json \<Rightarrow> string) \<Rightarrow> string \<Rightarrow> managed_worktree list \<Rightarrow> int \<Rightarrow> string \<Rightarrow> swarm_store
   \<Rightarrow> store_error + (managed_worktree list \<times> int) \<times> swarm_store" where
  "save_worktrees sha sid ws version fp st =
     res_bind (require_session st sid) (\<lambda>s.
     if sw_graph_version s \<noteq> version then Inl (StaleGraphVersion (sw_graph_version s))
     else if session_graph_fingerprint sha s \<noteq> fp then Inl SessionChanged
     else (case stored_plan st sid of
         None \<Rightarrow> Inl NoConcurrencyPlan
       | Some c \<Rightarrow>
           if cp_status (vr_value c) \<noteq> CS_READY then Inl PlanNeedsReplan
           else if cp_graph_version (vr_value c) \<noteq> version \<or> cp_graph_fingerprint (vr_value c) \<noteq> fp
           then Inl PlanNotBound
           else res_bind (admit_all (save_worktree sid version fp) ws (st, 0)) (\<lambda>p.
             Inr ((list_worktrees (fst p) sid, snd p), fst p))))"

definition delete_worktrees :: "string \<Rightarrow> string list \<Rightarrow> swarm_store \<Rightarrow> int \<times> swarm_store" where
  "delete_worktrees sid works st =
     (let gone = (\<lambda>w. mw_session w = sid \<and> mw_work w \<in> set works)
      in (int (length (filter gone (ss_worktrees st))), st\<lparr>ss_worktrees := delete_rows gone (ss_worktrees st)\<rparr>))"

definition bind_worktree_runner ::
  "(string \<Rightarrow> string) \<Rightarrow> string \<Rightarrow> string \<Rightarrow> string \<Rightarrow> string option \<Rightarrow> string \<Rightarrow> swarm_store
   \<Rightarrow> store_error + managed_worktree \<times> swarm_store" where
  "bind_worktree_runner resolve sid w worker intent now st =
     (case find (\<lambda>r. mw_session r = sid \<and> mw_work r = w) (ss_worktrees st) of
        None \<Rightarrow> Inl (UnknownWorktree w)
      | Some cur \<Rightarrow> res_bind (lift_managed (worktree_post_init resolve
            (cur\<lparr>mw_worker := Some worker, mw_intent := intent, mw_updated := now\<rparr>))) (\<lambda>t.
          Inr (t, st\<lparr>ss_worktrees := update_rows (\<lambda>r. mw_session r = sid \<and> mw_work r = w) (\<lambda>_. t) (ss_worktrees st)\<rparr>)))"


section \<open>The merge queue\<close>

definition save_merge_queue ::
  "(json \<Rightarrow> string) \<Rightarrow> string \<Rightarrow> merge_queue \<Rightarrow> string \<Rightarrow> swarm_store
   \<Rightarrow> store_error + (merge_queue \<times> int \<times> bool) \<times> swarm_store" where
  "save_merge_queue sha sid q admission_fp st =
     res_bind (require_session st sid) (\<lambda>s.
     case stored_admission st sid of
       None \<Rightarrow> Inl NoSharedAdmission
     | Some a \<Rightarrow>
         if plan_fingerprint sha (vr_value a) \<noteq> admission_fp then Inl SharedAdmissionChanged
         else if mq_graph_version q \<noteq> sw_graph_version s
           \<or> mq_graph_fingerprint q \<noteq> session_graph_fingerprint sha s
           \<or> mq_budget_version q \<noteq> sw_budget_version s
           \<or> mq_budget_fingerprint q \<noteq> session_budget_fingerprint sha s
           \<or> mq_admission_fingerprint q \<noteq> plan_fingerprint sha (vr_value a) then Inl StaleQueue
         else
           let old = stored_queue st sid
           in if (case old of None \<Rightarrow> False | Some v \<Rightarrow> queue_fingerprint sha (vr_value v) = queue_fingerprint sha q)
              then Inr ((q, vr_version (the old), False), st)
              else Inr ((q, next_version old, True), st\<lparr>ss_queues := upsert sid (next_version old) q (ss_queues st)\<rparr>))"

text \<open>The UPDATE that the claim, the finish and the rescue of an entry share.\<close>

definition put_queue :: "string \<Rightarrow> int \<Rightarrow> merge_queue \<Rightarrow> swarm_store \<Rightarrow> swarm_store" where
  "put_queue sid version q st = st\<lparr>ss_queues := update_rows (\<lambda>r. vr_session r = sid)
     (\<lambda>_. \<lparr>vr_session = sid, vr_version = version, vr_value = q\<rparr>) (ss_queues st)\<rparr>"

definition claim_merge_entry ::
  "(json \<Rightarrow> string) \<Rightarrow> (string \<Rightarrow> string) \<Rightarrow> string \<Rightarrow> string \<Rightarrow> string \<Rightarrow> string \<Rightarrow> swarm_store
   \<Rightarrow> store_error + (merge_queue \<times> int \<times> merge_entry) \<times> swarm_store" where
  "claim_merge_entry sha resolve sid w queue_fp now st =
     (case stored_queue st sid of
        None \<Rightarrow> Inl NoMergeQueue
      | Some v \<Rightarrow>
          if queue_fingerprint sha (vr_value v) \<noteq> queue_fp then Inl MergeQueueChanged
          else (case entry_of (vr_value v) w of
              None \<Rightarrow> Inl (UnknownMergeWork w)
            | Some e \<Rightarrow>
                if me_state e \<noteq> ME_READY then Inl (NotReadyEntry (me_state e))
                else
                  res_bind (lift_merge (entry_post_init
                    (e\<lparr>me_state := ME_INTEGRATING, me_detail := ''merge integration reserved''\<rparr>))) (\<lambda>claimed.
                  res_bind (lift_merge (with_entry resolve (vr_value v) claimed (mq_head (vr_value v)) now)) (\<lambda>q.
                  Inr ((q, vr_version v + 1, claimed), put_queue sid (vr_version v + 1) q st)))))"

definition finish_merge_entry ::
  "(string \<Rightarrow> string) \<Rightarrow> string \<Rightarrow> merge_entry \<Rightarrow> string \<Rightarrow> string \<Rightarrow> swarm_store
   \<Rightarrow> store_error + (merge_queue \<times> int) \<times> swarm_store" where
  "finish_merge_entry resolve sid e head now st =
     (case stored_queue st sid of
        None \<Rightarrow> Inl NoMergeQueue
      | Some v \<Rightarrow>
          if (case entry_of (vr_value v) (me_work e) of None \<Rightarrow> True | Some c \<Rightarrow> me_state c \<noteq> ME_INTEGRATING)
          then Inl NotReserved
          else res_bind (lift_merge (with_entry resolve (vr_value v) e head now)) (\<lambda>q.
            Inr ((q, vr_version v + 1), put_queue sid (vr_version v + 1) q st)))"

definition insert_event :: "recovery_event \<Rightarrow> swarm_store \<Rightarrow> store_error + swarm_store" where
  "insert_event e st =
     (if re_id e \<in> re_id ` set (ss_events st) then Inl (IntegrityError ''swarm_recovery_events.event_id'')
      else if re_session e \<notin> sw_id ` set (ss_sessions st) then Inl (IntegrityError ''FOREIGN KEY'')
      else Inr (st\<lparr>ss_events := ss_events st @ [e]\<rparr>))"

definition apply_merge_rescue ::
  "(json \<Rightarrow> string) \<Rightarrow> (string \<Rightarrow> string) \<Rightarrow> string \<Rightarrow> string \<Rightarrow> entry_state \<Rightarrow> bool \<Rightarrow> recovery_event
   \<Rightarrow> string \<Rightarrow> string \<Rightarrow> string \<Rightarrow> swarm_store \<Rightarrow> store_error + (merge_queue \<times> int) \<times> swarm_store" where
  "apply_merge_rescue sha resolve sid w target preserve event queue_fp detail now st =
     (if target \<notin> {ME_PENDING, ME_READY} then Inl BadReopenState
      else case stored_queue st sid of
        None \<Rightarrow> Inl NoMergeQueue
      | Some v \<Rightarrow>
          if queue_fingerprint sha (vr_value v) \<noteq> queue_fp then Inl MergeQueueChanged
          else (case entry_of (vr_value v) w of
              None \<Rightarrow> Inl NotConflicted
            | Some e \<Rightarrow>
                if me_state e \<noteq> ME_CONFLICT then Inl NotConflicted
                else
                  res_bind (lift_merge (entry_post_init
                    (e\<lparr>me_state := target, me_run := (if target = ME_READY then me_run e else None),
                       me_source := (if preserve \<and> target = ME_READY then me_source e else None),
                       me_integration := None, me_conflicts := [], me_evidence := None,
                       me_detail := detail\<rparr>))) (\<lambda>reopened.
                  res_bind (lift_merge (with_entry resolve (vr_value v) reopened (mq_head (vr_value v)) now)) (\<lambda>q.
                  res_bind (insert_event event st) (\<lambda>st'.
                  Inr ((q, vr_version v + 1), put_queue sid (vr_version v + 1) q st'))))))"


section \<open>Rescued runs\<close>

definition rescue_payloads :: "recovery_event list \<Rightarrow> metadata list" where
  "rescue_payloads es = List.map_filter (\<lambda>e.
     if re_action e \<noteq> ''integration_rescue'' then None
     else case jget (re_metadata e) ''rescue'' of JObj m \<Rightarrow> Some m | _ \<Rightarrow> None) es"

definition superseded_rescue_run_ids :: "recovery_event list \<Rightarrow> string list" where
  "superseded_rescue_run_ids es =
     map (\<lambda>m. py_str (jget m ''source_run_id''))
       (filter (\<lambda>m. truthy (jget m ''prepared'') \<and> jget m ''disposition'' = JStr ''serial_rerun''
            \<and> truthy (jget m ''source_run_id'')) (rescue_payloads es))"

definition effective_runs_for_rescue :: "codex_run list \<Rightarrow> recovery_event list \<Rightarrow> codex_run list" where
  "effective_runs_for_rescue records es =
     filter (\<lambda>r. cr_id r \<notin> set (superseded_rescue_run_ids es)) records"


section \<open>Runs\<close>

record launch_limits =
  ll_active :: int
  ll_active_per_work :: int
  ll_launches :: int
  ll_attempts :: int
  ll_tokens :: "int option"

definition session_runs :: "swarm_store \<Rightarrow> string \<Rightarrow> run_row list" where
  "session_runs st sid = filter (\<lambda>r. rw_session r = sid) (ss_runs st)"

definition work_runs :: "swarm_store \<Rightarrow> string \<Rightarrow> string \<Rightarrow> run_row list" where
  "work_runs st sid w = filter (\<lambda>r. rw_session r = sid \<and> rw_work r = w) (ss_runs st)"

definition token_limit_of :: "codex_run \<Rightarrow> int" where
  "token_limit_of r = (case cr_token_limit r of None \<Rightarrow> 0 | Some n \<Rightarrow> n)"

definition tokens_consumed :: "swarm_store \<Rightarrow> string \<Rightarrow> int" where
  "tokens_consumed st sid = sum_list (map (\<lambda>r. total_tokens (cr_usage (rw_run r))) (session_runs st sid))"

definition tokens_reserved :: "swarm_store \<Rightarrow> string \<Rightarrow> int" where
  "tokens_reserved st sid = sum_list (map (\<lambda>r. token_limit_of (rw_run r)) (active_runs st sid))"

definition within_limits :: "launch_limits \<Rightarrow> int \<Rightarrow> codex_run \<Rightarrow> swarm_store \<Rightarrow> store_error + unit" where
  "within_limits lim rescued r st =
     (let sid = cr_session r; w = cr_work r
      in if ll_launches lim \<le> int (length (session_runs st sid)) then Inl LaunchesExhausted
         else if ll_attempts lim + rescued \<le> int (length (work_runs st sid w)) then Inl (AttemptsExhausted w)
         else if ll_active lim \<le> int (length (active_runs st sid)) then Inl ActiveExhausted
         else if ll_active_per_work lim
             \<le> int (length (filter (\<lambda>x. rw_work x = w) (active_runs st sid))) then Inl (ActivePerWorkExhausted w)
         else (case ll_tokens lim of
             None \<Rightarrow> Inr ()
           | Some limit \<Rightarrow>
               if limit < tokens_consumed st sid + tokens_reserved st sid + token_limit_of r
               then Inl TokensExceeded else Inr ()))"

definition run_bound :: "(json \<Rightarrow> string) \<Rightarrow> swarm_session \<Rightarrow> codex_run \<Rightarrow> bool" where
  "run_bound sha s r \<longleftrightarrow> sw_graph_version s = cr_graph_version r
     \<and> session_graph_fingerprint sha s = cr_graph_fingerprint r
     \<and> sw_budget_version s = cr_budget_version r
     \<and> session_budget_fingerprint sha s = cr_budget_fingerprint r"

definition integrated_works :: "swarm_store \<Rightarrow> string \<Rightarrow> string list option" where
  "integrated_works st sid = map_option (\<lambda>v. integrated_in (mq_entries (vr_value v))) (stored_queue st sid)"

definition insert_run :: "codex_run \<Rightarrow> swarm_store \<Rightarrow> store_error + swarm_store" where
  "insert_run r st =
     (if cr_id r \<in> (cr_id \<circ> rw_run) ` set (ss_runs st) then Inl (IntegrityError ''swarm_codex_runs.run_id'')
      else if (cr_session r, cr_work r, cr_attempt r)
          \<in> (\<lambda>x. (rw_session x, rw_work x, rw_attempt x)) ` set (ss_runs st)
      then Inl (IntegrityError ''idx_swarm_codex_runs_attempt'')
      else Inr (st\<lparr>ss_runs := ss_runs st
        @ [\<lparr>rw_session = cr_session r, rw_work = cr_work r, rw_attempt = cr_attempt r, rw_run = r\<rparr>]\<rparr>))"

definition start_session :: "swarm_session \<Rightarrow> codex_run \<Rightarrow> swarm_store \<Rightarrow> store_error + swarm_store" where
  "start_session s r st =
     (if sw_state s \<noteq> SS_PLANNED then Inr st
      else res_bind (with_state SS_RUNNING (cr_created r) s) (\<lambda>s'. Inr (put_session (cr_session r) s' st)))"

definition reserve_codex_run ::
  "(json \<Rightarrow> string) \<Rightarrow> launch_limits \<Rightarrow> string \<Rightarrow> codex_run \<Rightarrow> swarm_store \<Rightarrow> store_error + swarm_store" where
  "reserve_codex_run sha lim admission_fp r st =
     res_bind (require_session st (cr_session r)) (\<lambda>s.
     if \<not> run_bound sha s r then Inl RunNotBound
     else if sw_state s \<notin> {SS_PLANNED, SS_RUNNING} then Inl (SessionNotRunnable (sw_state s))
     else (case stored_admission st (cr_session r) of
         None \<Rightarrow> Inl NoSharedAdmission
       | Some a \<Rightarrow>
           if plan_fingerprint sha (vr_value a) \<noteq> admission_fp then Inl SharedAdmissionChanged
           else if ap_status (vr_value a) \<noteq> PLAN_READY then Inl AdmissionNeedsReplan
           else
             let existing = list_runs st (cr_session r); events = list_events st (cr_session r);
                 superseded = superseded_rescue_run_ids events;
                 rescued = int (length (filter (\<lambda>x. cr_work x = cr_work r \<and> cr_id x \<in> set superseded) existing))
             in
             res_bind (lift_snapshot (compute_scheduler_snapshot sha s (vr_value a)
               (effective_runs_for_rescue existing events) (integrated_works st (cr_session r)))) (\<lambda>sn.
             if cr_work r \<notin> set (sn_dispatchable sn) then Inl (NotDispatchable (cr_work r))
             else
             res_bind (within_limits lim rescued r st) (\<lambda>_.
             res_bind (start_session s r st) (insert_run r)))))"

definition put_run :: "codex_run \<Rightarrow> swarm_store \<Rightarrow> swarm_store" where
  "put_run r st = st\<lparr>ss_runs := update_rows (\<lambda>x. cr_id (rw_run x) = cr_id r) (\<lambda>x. x\<lparr>rw_run := r\<rparr>) (ss_runs st)\<rparr>"

definition update_codex_run :: "codex_run \<Rightarrow> swarm_store \<Rightarrow> store_error + swarm_store" where
  "update_codex_run r st = (case run_of st (cr_id r) of None \<Rightarrow> Inl (UnknownRun (cr_id r)) | Some _ \<Rightarrow> Inr (put_run r st))"

definition recover_codex_run :: "codex_run \<Rightarrow> string \<Rightarrow> swarm_store \<Rightarrow> store_error + codex_run \<times> swarm_store" where
  "recover_codex_run r expected st = (case run_of st (cr_id r) of
     None \<Rightarrow> Inl (UnknownRun (cr_id r))
   | Some cur \<Rightarrow>
       if run_terminal (cr_state cur) then Inr (cur, st)
       else if cr_updated cur \<noteq> expected then Inl HeartbeatChanged
       else Inr (r, put_run r st))"

text \<open>\<open>INSERT OR IGNORE\<close>: a repeated event id inserts nothing.\<close>

definition save_recovery_event :: "recovery_event \<Rightarrow> swarm_store \<Rightarrow> store_error + bool \<times> swarm_store" where
  "save_recovery_event e st =
     (if re_id e \<in> re_id ` set (ss_events st) then Inr (False, st)
      else res_bind (insert_event e st) (\<lambda>st'. Inr (True, st')))"

definition cancelling :: "string \<Rightarrow> codex_run \<Rightarrow> codex_run" where
  "cancelling now r = r\<lparr>cr_state := R_CANCELLING, cr_updated := now,
     cr_reason := Some ''swarm_cancellation_requested''\<rparr>"

definition request_session_cancellation ::
  "string \<Rightarrow> string \<Rightarrow> swarm_store \<Rightarrow> store_error + (swarm_session \<times> codex_run list) \<times> swarm_store" where
  "request_session_cancellation sid now st =
     res_bind (require_session st sid) (\<lambda>s.
     if sw_state s = SS_COMPLETED then Inl SessionIsCompleted
     else res_bind (with_state SS_CANCELLED now s) (\<lambda>s'.
       let hit = (\<lambda>x. rw_session x = sid \<and> run_active (cr_state (rw_run x)))
       in Inr ((s', map (cancelling now \<circ> rw_run) (filter hit (ss_runs st))),
            (put_session sid s' st)\<lparr>ss_runs := update_rows hit (\<lambda>x. x\<lparr>rw_run := cancelling now (rw_run x)\<rparr>) (ss_runs st)\<rparr>)))"


section \<open>Verification\<close>

definition begin_verification ::
  "(json \<Rightarrow> string) \<Rightarrow> string \<Rightarrow> string \<Rightarrow> string \<Rightarrow> swarm_store \<Rightarrow> store_error + swarm_session \<times> swarm_store" where
  "begin_verification sha sid queue_fp now st =
     res_bind (require_session st sid) (\<lambda>s.
     if sw_state s = SS_CANCELLED then Inl SessionIsCancelled
     else if (case stored_queue st sid of None \<Rightarrow> True
         | Some v \<Rightarrow> queue_fingerprint sha (vr_value v) \<noteq> queue_fp) then Inl MergeQueueChanged
     else if active_runs st sid \<noteq> [] then Inl WorkersActive
     else res_bind (with_state SS_VERIFYING now s) (\<lambda>s'. Inr (s', put_session sid s' st)))"

definition report_current ::
  "(json \<Rightarrow> string) \<Rightarrow> swarm_session \<Rightarrow> admission_plan \<Rightarrow> merge_queue \<Rightarrow> verification_report \<Rightarrow> bool" where
  "report_current sha s a q rep \<longleftrightarrow> vp_repo rep = sw_repo s \<and> vp_base rep = sw_commit s
     \<and> vp_graph_version rep = sw_graph_version s \<and> vp_graph_fingerprint rep = session_graph_fingerprint sha s
     \<and> vp_budget_version rep = sw_budget_version s \<and> vp_budget_fingerprint rep = session_budget_fingerprint sha s
     \<and> vp_admission rep = plan_fingerprint sha a \<and> vp_queue rep = queue_fingerprint sha q
     \<and> vp_head rep = mq_head q"

definition save_verification ::
  "(json \<Rightarrow> string) \<Rightarrow> verification_report \<Rightarrow> string \<Rightarrow> swarm_store
   \<Rightarrow> store_error + (verification_report \<times> int \<times> bool) \<times> swarm_store" where
  "save_verification sha rep queue_fp st =
     (let sid = vp_session rep in
      res_bind (require_session st sid) (\<lambda>s.
      case (stored_admission st sid, stored_queue st sid) of
        (Some a, Some v) \<Rightarrow>
          if queue_fingerprint sha (vr_value v) \<noteq> queue_fp then Inl MergeQueueChanged
          else if \<not> report_current sha s (vr_value a) (vr_value v) rep then Inl StaleReport
          else res_bind (with_state (if vp_verified rep then SS_COMPLETED else SS_FAILED) (vp_created rep) s) (\<lambda>s'.
            let old = stored_report st sid
            in if (case old of None \<Rightarrow> False | Some o' \<Rightarrow> vp_fingerprint (vr_value o') = vp_fingerprint rep)
               then Inr ((rep, vr_version (the old), False), put_session sid s' st)
               else Inr ((rep, next_version old, True),
                 (put_session sid s' st)\<lparr>ss_reports := upsert sid (next_version old) rep (ss_reports st)\<rparr>))
      | _ \<Rightarrow> Inl MissingInputs))"

end
