(* ===== verification/WorkGraphLaws.thy ===== *)
theory WorkGraphLaws
  imports WorkGraph
begin

text \<open>
  The order and the layers of a work graph: the loop keeps the invariant that the pending
  dependencies of an item are the ones not yet ordered, so it is a \<open>producer_scan\<close>, and
  construction accepts exactly the acyclic graphs.
\<close>


section \<open>The loop invariant\<close>

definition item_edges :: "work_item list \<Rightarrow> (string \<times> string) set" where
  "item_edges items = {(wi_id w, d) | w d. w \<in> set items \<and> d \<in> set (wi_depends w)}"

definition closed_items :: "work_item list \<Rightarrow> bool" where
  "closed_items items \<longleftrightarrow> distinct (map wi_id items)
     \<and> (\<forall>w \<in> set items. set (wi_depends w) \<subseteq> wi_id ` set items)"

lemma find_item:
  "distinct (map wi_id items) \<Longrightarrow> w \<in> set items \<Longrightarrow> find_row wi_id (wi_id w) items = Some w"
  by (rule find_row_unique) (simp_all add: keys_unique_def)

lemma item_edges_depends_of:
  assumes "distinct (map wi_id items)"
  shows "(n, d) \<in> item_edges items \<longleftrightarrow> d \<in> set (depends_of items n)"
proof
  assume "(n, d) \<in> item_edges items"
  then obtain w where "w \<in> set items" "wi_id w = n" "d \<in> set (wi_depends w)"
    by (auto simp: item_edges_def)
  with find_item [OF assms, of w] show "d \<in> set (depends_of items n)" by (simp add: depends_of_def)
next
  assume "d \<in> set (depends_of items n)"
  then obtain w where "find_row wi_id n items = Some w" "d \<in> set (wi_depends w)"
    by (cases "find_row wi_id n items") (auto simp: depends_of_def)
  then show "(n, d) \<in> item_edges items"
    by (auto simp: item_edges_def dest!: find_row_SomeD)
qed

lemma set_dependents_of [simp]: "set (dependents_of items d) = {n. (n, d) \<in> item_edges items}"
  by (auto simp: dependents_of_def item_edges_def)

lemma distinct_dependents_of [simp]: "distinct (dependents_of items d)"
  by (simp add: dependents_of_def)

lemma fold_settle:
  assumes "distinct ds"
  shows "ts_pending (fold (settle w) ds st)
      = (\<lambda>d. if d \<in> set ds then removeAll w (ts_pending st d) else ts_pending st d)" (is ?A)
    and "ts_order (fold (settle w) ds st) = ts_order st" (is ?B)
    and "set (ts_ready (fold (settle w) ds st)) = set (ts_ready st)
      \<union> {d \<in> set ds. removeAll w (ts_pending st d) = [] \<and> d \<notin> set (ts_order st)}" (is ?C)
    and "distinct (ts_ready st) \<Longrightarrow> distinct (ts_ready (fold (settle w) ds st))"
proof -
  have "?A \<and> ?B \<and> ?C \<and> (distinct (ts_ready st) \<longrightarrow> distinct (ts_ready (fold (settle w) ds st)))"
    using assms
  proof (induction ds arbitrary: st)
    case (Cons d ds)
    let ?st = "settle w d st"
    have step: "ts_pending ?st = (ts_pending st)(d := removeAll w (ts_pending st d))"
      "ts_order ?st = ts_order st"
      "set (ts_ready ?st) = set (ts_ready st)
         \<union> (if removeAll w (ts_pending st d) = [] \<and> d \<notin> set (ts_order st) then {d} else {})"
      "distinct (ts_ready st) \<Longrightarrow> distinct (ts_ready ?st)"
      by (auto simp: settle_def Let_def)
    have fresh: "d \<notin> set ds" using Cons.prems by simp
    have same: "e \<in> set ds \<Longrightarrow> ts_pending ?st e = ts_pending st e" for e
      using fresh by (auto simp: step)
    note IH = Cons.IH [of ?st]
    have "set (ts_ready (fold (settle w) (d # ds) st)) = set (ts_ready ?st)
        \<union> {e \<in> set ds. removeAll w (ts_pending st e) = [] \<and> e \<notin> set (ts_order st)}"
      using IH Cons.prems same by (auto simp: step(2))
    then have "set (ts_ready (fold (settle w) (d # ds) st)) = set (ts_ready st)
        \<union> {e \<in> set (d # ds). removeAll w (ts_pending st e) = [] \<and> e \<notin> set (ts_order st)}"
      by (auto simp: step(3) split: if_splits)
    moreover have "ts_pending (fold (settle w) (d # ds) st)
        = (\<lambda>e. if e \<in> set (d # ds) then removeAll w (ts_pending st e) else ts_pending st e)"
      using IH Cons.prems fresh by (auto simp: step(1) fun_eq_iff)
    ultimately show ?case using IH Cons.prems step(2,4) by simp
  qed simp
  then show ?A ?B ?C "distinct (ts_ready st) \<Longrightarrow> distinct (ts_ready (fold (settle w) ds st))" by blast+
qed

definition topo_inv :: "work_item list \<Rightarrow> topo_state \<Rightarrow> bool" where
  "topo_inv items st \<longleftrightarrow>
     (\<forall>n. set (ts_pending st n) = {d. (n, d) \<in> item_edges items \<and> d \<notin> set (ts_order st)})
     \<and> distinct (ts_order st @ ts_ready st)
     \<and> set (ts_order st @ ts_ready st) = {n \<in> wi_id ` set items. ts_pending st n = []}
     \<and> (\<forall>d p. (d, p) \<in> item_edges items \<longrightarrow> d \<in> set (ts_order st) \<longrightarrow> before_in (ts_order st) p d)"

lemma topo_invD:
  assumes "topo_inv items st"
  shows "set (ts_pending st n) = {d. (n, d) \<in> item_edges items \<and> d \<notin> set (ts_order st)}"
    and "set (ts_order st @ ts_ready st) = {n \<in> wi_id ` set items. ts_pending st n = []}"
    and "distinct (ts_order st @ ts_ready st)"
    and "(d, p) \<in> item_edges items \<Longrightarrow> d \<in> set (ts_order st) \<Longrightarrow> before_in (ts_order st) p d"
  using assms unfolding topo_inv_def by blast+

lemma topo_start_inv: "distinct (map wi_id items) \<Longrightarrow> topo_inv items (topo_start items)"
  by (auto simp: topo_inv_def topo_start_def item_edges_depends_of)

lemma topo_round_inv:
  assumes inv: "topo_inv items st" and ready: "ts_ready st = w # rest" and closed: "closed_items items"
  shows "topo_inv items (topo_round items st)"
    and "length (ts_order (topo_round items st)) = Suc (length (ts_order st))"
proof -
  let ?st = "st\<lparr>ts_ready := rest, ts_order := ts_order st @ [w]\<rparr>" and ?ds = "dependents_of items w"
  have round: "topo_round items st = fold (settle w) ?ds ?st" by (simp add: topo_round_def ready)
  note fold = fold_settle [OF distinct_dependents_of, where w = w and st = ?st]
  note I = topo_invD [OF inv]
  have order: "ts_order (topo_round items st) = ts_order st @ [w]" by (simp add: round fold(2))
  have pend: "ts_pending (topo_round items st)
      = (\<lambda>n. if (n, w) \<in> item_edges items then removeAll w (ts_pending st n) else ts_pending st n)"
    by (auto simp: round fold(1) fun_eq_iff)
  have pend_set: "set (ts_pending (topo_round items st) n)
      = {d. (n, d) \<in> item_edges items \<and> d \<notin> set (ts_order st @ [w])}" for n
    using I(1) [of n] by (auto simp: pend)
  have fresh: "w \<notin> set (ts_order st)" and old: "distinct (ts_order st @ w # rest)"
    using I(3) ready by auto
  have members: "m \<in> set (ts_order st @ w # rest) \<longleftrightarrow> m \<in> wi_id ` set items \<and> ts_pending st m = []" for m
    using I(2) ready by auto
  have inside: "m \<in> wi_id ` set items" if "(m, d) \<in> item_edges items" for m d
    using that by (auto simp: item_edges_def)
  have ready': "set (ts_ready (topo_round items st)) = set rest
      \<union> {m. (m, w) \<in> item_edges items \<and> removeAll w (ts_pending st m) = [] \<and> m \<notin> set (ts_order st @ [w])}"
    by (simp add: round fold(3))
  have mem': "set (ts_order st @ [w]) \<union> set (ts_ready (topo_round items st))
      = {m \<in> wi_id ` set items. ts_pending (topo_round items st) m = []}"
  proof (rule set_eqI)
    fix m
    show "m \<in> set (ts_order st @ [w]) \<union> set (ts_ready (topo_round items st))
        \<longleftrightarrow> m \<in> {m \<in> wi_id ` set items. ts_pending (topo_round items st) m = []}"
      using members [of m] inside [of m] by (auto simp: ready' pend)
  qed
  have dist: "distinct (ts_ready (topo_round items st))"
    using fold(4) old by (simp add: round)
  have disj: "set (ts_order st @ [w]) \<inter> set (ts_ready (topo_round items st)) = {}"
    using old by (auto simp: ready')
  have before: "before_in (ts_order st @ [w]) p d"
    if e: "(d, p) \<in> item_edges items" "d \<in> set (ts_order st @ [w])" for d p
  proof (cases "d \<in> set (ts_order st)")
    case True
    with I(4) e(1) show ?thesis by (blast intro: before_in_snoc)
  next
    case False
    with e(2) have "d = w" by simp
    moreover have "ts_pending st w = []" using members [of w] by simp
    ultimately have "p \<in> set (ts_order st)" using I(1) [of w] e(1) by auto
    with \<open>d = w\<close> show ?thesis by (simp add: before_in_last)
  qed
  show "topo_inv items (topo_round items st)"
    unfolding topo_inv_def order
    using pend_set mem' dist disj old before by auto
  show "length (ts_order (topo_round items st)) = Suc (length (ts_order st))" by (simp add: order)
qed

lemma topo_loop_inv:
  assumes "topo_inv items st" and "closed_items items" and "length items < k + length (ts_order st)"
  shows "\<exists>st'. topo_loop k items st = Some st' \<and> topo_inv items st' \<and> ts_ready st' = []"
  using assms
proof (induction k arbitrary: st)
  case 0
  have "distinct (ts_order st)" "set (ts_order st) \<subseteq> wi_id ` set items"
    using topo_invD(2,3) [OF 0(1)] by auto
  then have "length (ts_order st) \<le> card (wi_id ` set items)"
    by (metis card_mono distinct_card finite_imageI finite_set)
  also have "\<dots> \<le> length items" by (metis card_length list.set_map length_map)
  finally show ?case using 0 by simp
next
  case (Suc k)
  show ?case
  proof (cases "ts_ready st")
    case Nil
    with Suc.prems show ?thesis by simp
  next
    case (Cons w rest)
    note step = topo_round_inv [OF Suc.prems(1) Cons Suc.prems(2)]
    from Suc.prems Cons step show ?thesis using Suc.IH [OF step(1)] by simp
  qed
qed


section \<open>The order as a producer scan\<close>

definition topo_scan :: "work_item list \<Rightarrow> string list" where
  "topo_scan items = (case topo_loop (Suc (length items)) items (topo_start items) of
       None \<Rightarrow> [] | Some st \<Rightarrow> ts_order st)"

lemma topo_finishes:
  assumes "closed_items items"
  obtains st where "topo_loop (Suc (length items)) items (topo_start items) = Some st"
    "topo_scan items = ts_order st" "topo_inv items st" "ts_ready st = []"
proof -
  have "topo_inv items (topo_start items)"
    using assms by (intro topo_start_inv) (simp add: closed_items_def)
  moreover have "length items < Suc (length items) + length (ts_order (topo_start items))" by simp
  ultimately obtain st where st: "topo_loop (Suc (length items)) items (topo_start items) = Some st"
    "topo_inv items st" "ts_ready st = []"
    using topo_loop_inv [OF _ assms] by blast
  moreover have "topo_scan items = ts_order st" unfolding topo_scan_def st(1) by simp
  ultimately show thesis using that by blast
qed

interpretation work_order: producer_scan closed_items "\<lambda>items. wi_id ` set items" item_edges topo_scan
proof (unfold_locales, goal_cases)
  case (2 items)
  then obtain st where "topo_scan items = ts_order st" "topo_inv items st" by (rule topo_finishes)
  then show ?case using topo_invD(2) by auto
next
  case (3 items d p)
  then show ?case by (auto simp: item_edges_def closed_items_def)
next
  case (4 items)
  then obtain st where "topo_scan items = ts_order st" "topo_inv items st" by (rule topo_finishes)
  then show ?case using topo_invD(3) by auto
next
  case (5 items d p)
  from 5(1) obtain st where "topo_scan items = ts_order st" "topo_inv items st" by (rule topo_finishes)
  with 5 show ?case using topo_invD(4) by auto
next
  case (6 items n)
  from 6(1) obtain st where st: "topo_scan items = ts_order st" "topo_inv items st" "ts_ready st = []"
    by (rule topo_finishes)
  with 6 topo_invD(2) [OF st(2)] have "ts_pending st n \<noteq> []" by auto
  then show ?case using topo_invD(1) [OF st(2), of n] st(1) by (auto simp: neq_Nil_conv)
qed simp

lemma work_order_cases:
  assumes "closed_items (wg_items g)"
  obtains "topological_order g = Inr (topo_scan (wg_items g))" "acyclic (item_edges (wg_items g))"
  | ws where "topological_order g = Inl (GraphCycle ws)" "ws \<noteq> []" "\<not> acyclic (item_edges (wg_items g))"
proof -
  let ?items = "wg_items g"
  obtain st where st: "topo_loop (Suc (length ?items)) ?items (topo_start ?items) = Some st"
    "topo_scan ?items = ts_order st" "topo_inv ?items st" "ts_ready st = []"
    using assms by (rule topo_finishes)
  have "length ?items = card (wi_id ` set ?items)"
    using assms by (metis closed_items_def distinct_card length_map list.set_map)
  then have len: "length (ts_order st) = length ?items \<longleftrightarrow> acyclic (item_edges ?items)"
    using work_order.length_iff [OF assms] st(2) by simp
  have run: "topological_order g = (if length (ts_order st) \<noteq> length ?items
      then Inl (GraphCycle (sort (filter (\<lambda>w. ts_pending st w \<noteq> []) (map wi_id ?items))))
      else Inr (topo_scan ?items))"
    unfolding topological_order_def Let_def st(1,2) option.case ..
  show thesis
  proof (cases "acyclic (item_edges ?items)")
    case True
    with len run show thesis by (intro that(1)) simp_all
  next
    case False
    have "set (topo_scan ?items) \<noteq> wi_id ` set ?items"
      using False work_order.complete_iff [OF assms] by simp
    then have "\<not> wi_id ` set ?items \<subseteq> set (ts_order st)"
      using work_order.inside [OF assms] unfolding st(2) by simp
    then obtain w where "w \<in> wi_id ` set ?items" "w \<notin> set (ts_order st)" by blast
    moreover have "set (ts_order st) = {n \<in> wi_id ` set ?items. ts_pending st n = []}"
      using topo_invD(2) [OF st(3)] by (simp add: st(4))
    ultimately have "ts_pending st w \<noteq> []" by blast
    with \<open>w \<in> wi_id ` set ?items\<close> have "filter (\<lambda>w. ts_pending st w \<noteq> []) (map wi_id ?items) \<noteq> []"
      by (auto simp: filter_empty_conv)
    then have "sort (filter (\<lambda>w. ts_pending st w \<noteq> []) (map wi_id ?items)) \<noteq> []"
      by (metis set_empty set_sort)
    moreover have "topological_order g
        = Inl (GraphCycle (sort (filter (\<lambda>w. ts_pending st w \<noteq> []) (map wi_id ?items))))"
      using False len run by simp
    ultimately show thesis using that(2) False by blast
  qed
qed

end
