(* ===== verification/WorkGraphProps.thy ===== *)
theory WorkGraphProps
  imports WorkGraphLaws "HOL-Library.Multiset"
begin

text \<open>
  What a caller of the work graph relies on: construction accepts exactly the well-formed
  acyclic graphs, whatever order the planner lists the items in; the order puts all transitive
  dependencies first; the layers are the longest-path levels; and the JSON form reads back.
\<close>


section \<open>Construction\<close>

lemma item_edges_cong: "set items = set items' \<Longrightarrow> item_edges items = item_edges items'"
  by (auto simp: item_edges_def)

lemma distinct_ids_cong:
  "mset items = mset items' \<Longrightarrow> distinct (map wi_id items) \<longleftrightarrow> distinct (map wi_id items')"
  by (metis mset_eq_imp_distinct_iff mset_map)

lemma closed_items_cong: "mset items = mset items' \<Longrightarrow> closed_items items \<longleftrightarrow> closed_items items'"
  using distinct_ids_cong [of items items'] mset_eq_setD [of items items'] by (simp add: closed_items_def)

lemma missing_dependencies_of_iff:
  "missing_dependencies_of ids w = [] \<longleftrightarrow> set (wi_depends w) \<subseteq> set ids"
  by (auto simp: missing_dependencies_of_def filter_empty_conv)

lemma work_graph_post_init_iff:
  "work_graph_post_init p items meta = Inr g \<longleftrightarrow>
     p = graph_protocol \<and> items \<noteq> [] \<and> closed_items items \<and> acyclic (item_edges items)
     \<and> g = \<lparr>wg_items = sort_key wi_id items, wg_metadata = meta\<rparr>"
proof (cases "closed_items items")
  case True
  let ?g = "\<lparr>wg_items = sort_key wi_id items, wg_metadata = meta\<rparr>"
  have known: "find (\<lambda>w. missing_dependencies_of (map wi_id items) w \<noteq> []) items = None"
    using True by (auto simp: find_None_iff missing_dependencies_of_iff closed_items_def)
  have closed: "closed_items (wg_items ?g)" using True closed_items_cong [of "sort_key wi_id items" items] by simp
  have edges: "item_edges (wg_items ?g) = item_edges items" by (rule item_edges_cong) simp
  have dist: "distinct (map wi_id items)" using True by (simp add: closed_items_def)
  have run: "work_graph_post_init p items meta = (if p \<noteq> graph_protocol then Inl (UnsupportedProtocol p)
      else if items = [] then Inl EmptyGraph else res_bind (topological_order ?g) (\<lambda>_. Inr ?g))"
    using dist known by (simp add: work_graph_post_init_def Let_def)
  show ?thesis
    by (rule work_order_cases [OF closed]) (use True run edges in auto)
next
  case False
  then show ?thesis
    by (auto simp: work_graph_post_init_def Let_def closed_items_def find_None_iff missing_dependencies_of_iff
        split: if_splits option.splits)
qed

lemma work_graph_bound: "work_graph_post_init p items meta \<noteq> Inl LoopBoundReached"
proof
  assume a: "work_graph_post_init p items meta = Inl LoopBoundReached"
  let ?g = "\<lparr>wg_items = sort_key wi_id items, wg_metadata = meta\<rparr>"
  have d: "distinct (map wi_id items)" and f: "find (\<lambda>w. missing_dependencies_of (map wi_id items) w \<noteq> []) items = None"
    and t: "topological_order ?g = Inl LoopBoundReached"
    using a by (auto simp: work_graph_post_init_def Let_def res_bind_eq_Inl split: if_splits option.splits)
  have "closed_items items"
    using d f by (auto simp: closed_items_def find_None_iff missing_dependencies_of_iff)
  then have "closed_items (wg_items ?g)" using closed_items_cong [of "sort_key wi_id items" items] by simp
  then show False by (rule work_order_cases) (use t in auto)
qed

text \<open>
  C33: a work graph is accepted exactly when its protocol is the supported one, it has items,
  their ids are distinct, every dependency names an item and no item depends on itself through
  others; the order loop never runs out of its bound.
\<close>
theorem work_graph_accepts:
  "(res_ok (work_graph_post_init p items meta) \<longleftrightarrow>
      p = graph_protocol \<and> items \<noteq> [] \<and> closed_items items \<and> acyclic (item_edges items))
   \<and> work_graph_post_init p items meta \<noteq> Inl LoopBoundReached"
  using work_graph_post_init_iff [of p items meta] work_graph_bound [of p items meta]
  by (cases "work_graph_post_init p items meta") auto

text \<open>
  The graph does not depend on the order in which the planner lists the items: the same
  items in another order give the same graph, and the same fingerprint.
\<close>
theorem work_graph_order_independent:
  assumes "mset items' = mset items" and "work_graph_post_init p items meta = Inr g"
  shows "work_graph_post_init p items' meta = Inr g"
proof -
  have ok: "p = graph_protocol" "items \<noteq> []" "closed_items items" "acyclic (item_edges items)"
    and g: "g = \<lparr>wg_items = sort_key wi_id items, wg_metadata = meta\<rparr>"
    using assms(2) by (simp_all add: work_graph_post_init_iff)
  have "inj_on wi_id (set items')"
    using ok(3) closed_items_cong [OF assms(1)] by (auto simp: closed_items_def distinct_map)
  moreover have "mset items' = mset (sort_key wi_id items)" using assms(1) by simp
  ultimately have "sort_key wi_id items' = sort_key wi_id items"
    by (intro sort_key_inj_key_eq) simp_all
  moreover have "items' \<noteq> []" using ok(2) assms(1) by auto
  moreover have "item_edges items' = item_edges items"
    using assms(1) by (intro item_edges_cong mset_eq_setD)
  ultimately show ?thesis
    using ok closed_items_cong [OF assms(1)] by (simp add: work_graph_post_init_iff g)
qed


section \<open>The order\<close>

lemma accepted_graph:
  assumes "work_graph_post_init p items meta = Inr g"
  shows "closed_items (wg_items g)" and "item_edges (wg_items g) = item_edges items"
    and "acyclic (item_edges (wg_items g))" and "set (wg_items g) = set items"
    and "topological_order g = Inr (topo_scan (wg_items g))"
proof -
  have g: "g = \<lparr>wg_items = sort_key wi_id items, wg_metadata = meta\<rparr>" and c: "closed_items items"
    and ac: "acyclic (item_edges items)"
    using assms by (simp_all add: work_graph_post_init_iff)
  show closed: "closed_items (wg_items g)" using c closed_items_cong [of "sort_key wi_id items" items] by (simp add: g)
  show edges: "item_edges (wg_items g) = item_edges items" unfolding g by (rule item_edges_cong) simp
  then show "acyclic (item_edges (wg_items g))" using ac by simp
  show "set (wg_items g) = set items" by (simp add: g)
  show "topological_order g = Inr (topo_scan (wg_items g))"
    by (rule work_order_cases [OF closed]) (use ac edges in auto)
qed

lemma accepted_order:
  assumes "work_graph_post_init p items meta = Inr g"
  obtains ord where "topological_order g = Inr ord" "distinct ord" "set ord = wi_id ` set items"
proof
  note A = accepted_graph [OF assms]
  show "topological_order g = Inr (topo_scan (wg_items g))" "distinct (topo_scan (wg_items g))"
    using A(5) work_order.once [OF A(1)] by simp_all
  show "set (topo_scan (wg_items g)) = wi_id ` set items"
    using work_order.complete_iff [OF A(1)] A(3,4) by simp
qed

text \<open>
  C30: the order of an accepted graph lists every item once, with every item it depends on,
  directly or through others, before it.
\<close>
theorem work_order_correct:
  assumes "work_graph_post_init p items meta = Inr g"
  shows "\<exists>ord. topological_order g = Inr ord \<and> distinct ord \<and> set ord = wi_id ` set items
    \<and> (\<forall>d e. (d, e) \<in> (item_edges items)\<^sup>+ \<longrightarrow> before_in ord e d)"
proof -
  note A = accepted_graph [OF assms]
  have all: "set (topo_scan (wg_items g)) = wi_id ` set items"
    using work_order.complete_iff [OF A(1)] A(3,4) by simp
  have "before_in (topo_scan (wg_items g)) e d" if "(d, e) \<in> (item_edges items)\<^sup>+" for d e
  proof (rule work_order.all_producers_first [OF A(1)])
    show "(d, e) \<in> (item_edges (wg_items g))\<^sup>+" using that A(2) by simp
    from tranclD [OF that] obtain f where "(d, f) \<in> item_edges items" by blast
    then show "d \<in> set (topo_scan (wg_items g))" unfolding all by (auto simp: item_edges_def)
  qed
  then show ?thesis using A(5) all work_order.once [OF A(1)] by blast
qed


section \<open>The layers\<close>

definition levels_ok :: "work_graph \<Rightarrow> (string \<times> nat) list \<Rightarrow> bool" where
  "levels_ok g m \<longleftrightarrow> (\<forall>w l i. (w, l) \<in> set m \<longrightarrow> item_of g w = Some i \<longrightarrow>
     (\<forall>d \<in> set (wi_depends i). \<exists>k<l. (d, k) \<in> set m)
     \<and> (0 < l \<longrightarrow> (\<exists>d \<in> set (wi_depends i). (d, l - 1) \<in> set m)))"

lemma res_map_layers:
  assumes "\<forall>d \<in> set ds. d \<in> set (map fst m)"
  shows "\<exists>ls. res_map (layer_of m) ds = Inr ls
    \<and> set (zip ds ls) \<subseteq> set m \<and> length ls = length ds"
  using assms
proof (induction ds)
  case (Cons d ds)
  then obtain ls where "res_map (layer_of m) ds = Inr ls" "set (zip ds ls) \<subseteq> set m" "length ls = length ds"
    by auto
  moreover obtain l where "map_of m d = Some l"
    using Cons.prems by (metis list.set_intros(1) map_of_eq_None_iff not_None_eq list.set_map)
  moreover from this have "(d, l) \<in> set m" by (rule map_of_SomeD)
  moreover from calculation(1,4) have "res_map (layer_of m) (d # ds) = Inr (l # ls)"
    by (simp add: layer_of_def [of m d])
  ultimately show ?case by (intro exI [of _ "l # ls"]) auto
qed simp

lemma assign_layers_ok:
  assumes "closed_items (wg_items g)" and "ord = map fst m @ ws" and "distinct ord"
    and "set ord \<subseteq> wi_id ` set (wg_items g)"
    and "\<And>d p. (d, p) \<in> item_edges (wg_items g) \<Longrightarrow> d \<in> set ord \<Longrightarrow> before_in ord p d"
    and "levels_ok g m"
  shows "\<exists>m'. assign_layers g ws m = Inr m' \<and> map fst m' = ord \<and> levels_ok g m'"
  using assms(2,6)
proof (induction ws arbitrary: m)
  case Nil
  then show ?case by simp
next
  case (Cons w ws)
  have "w \<in> set ord" using Cons.prems(1) by simp
  then obtain item where item: "item \<in> set (wg_items g)" "wi_id item = w" using assms(4) by auto
  then have found: "item_of g w = Some item"
    using assms(1) find_item [of "wg_items g" item] by (simp add: item_of_def closed_items_def)
  have fresh: "w \<notin> set (map fst m)" using Cons.prems(1) assms(3) by auto
  have earlier: "d \<in> set (map fst m)" if "d \<in> set (wi_depends item)" for d
  proof -
    have "(w, d) \<in> item_edges (wg_items g)" using item that by (auto simp: item_edges_def)
    then have "before_in ord d w" using assms(5) \<open>w \<in> set ord\<close> by blast
    then obtain us vs xs where "ord = us @ d # vs @ w # xs" by (auto simp: before_in_def)
    then have "(us @ d # vs) @ w # xs = map fst m @ w # ws" using Cons.prems(1) by simp
    moreover have "w \<notin> set xs" "w \<notin> set (us @ d # vs)"
      using assms(3) \<open>ord = us @ d # vs @ w # xs\<close> by auto
    ultimately have "us @ d # vs = map fst m" by (metis append_Cons_eq_iff)
    then show ?thesis by (metis in_set_conv_decomp)
  qed
  have step: "\<exists>m'. assign_layers g ws (m @ [(w, l)]) = Inr m' \<and> map fst m' = ord \<and> levels_ok g m'"
    if "\<forall>d \<in> set (wi_depends item). \<exists>k<l. (d, k) \<in> set m"
      "0 < l \<Longrightarrow> \<exists>d \<in> set (wi_depends item). (d, l - 1) \<in> set m" for l
  proof (rule Cons.IH)
    show "ord = map fst (m @ [(w, l)]) @ ws" using Cons.prems(1) by simp
    have old: "i = item" if "item_of g w = Some i" for i using that found by simp
    have new: "v = w \<and> k = l" if "(v, k) \<in> set (m @ [(w, l)])" "(v, k) \<notin> set m" for v k using that by auto
    show "levels_ok g (m @ [(w, l)])"
      unfolding levels_ok_def
    proof (intro allI impI)
      fix v k i
      assume v: "(v, k) \<in> set (m @ [(w, l)])" "item_of g v = Some i"
      show "(\<forall>d \<in> set (wi_depends i). \<exists>j<k. (d, j) \<in> set (m @ [(w, l)]))
          \<and> (0 < k \<longrightarrow> (\<exists>d \<in> set (wi_depends i). (d, k - 1) \<in> set (m @ [(w, l)])))"
      proof (cases "(v, k) \<in> set m")
        case True
        with Cons.prems(2) v(2) show ?thesis unfolding levels_ok_def by (metis Un_iff set_append)
      next
        case False
        with new v(1) have "v = w" "k = l" by blast+
        with old v(2) that show ?thesis by auto
      qed
    qed
  qed
  show ?case
  proof (cases "wi_depends item = []")
    case True
    with step [of 0] found show ?thesis by simp
  next
    case False
    obtain ls where ls: "res_map (layer_of m) (wi_depends item) = Inr ls"
      "set (zip (wi_depends item) ls) \<subseteq> set m" "length ls = length (wi_depends item)"
      using res_map_layers [of "wi_depends item" m] earlier by blast
    have ne: "set ls \<noteq> {}" using False ls(3) by auto
    have "\<exists>k < Max (set ls) + 1. (d, k) \<in> set m" if d: "d \<in> set (wi_depends item)" for d
    proof -
      obtain j where j: "j < length ls" "wi_depends item ! j = d" using d ls(3) by (metis in_set_conv_nth)
      then have "(d, ls ! j) \<in> set m" using ls(2,3) by (auto simp: set_zip)
      moreover have "ls ! j \<le> Max (set ls)" using j(1) by simp
      ultimately show ?thesis by (intro exI [of _ "ls ! j"]) simp
    qed
    moreover have "\<exists>d \<in> set (wi_depends item). (d, Max (set ls)) \<in> set m"
    proof -
      obtain j where j: "j < length ls" "ls ! j = Max (set ls)" using Max_in [OF _ ne] by (auto simp: in_set_conv_nth)
      then have "(wi_depends item ! j, Max (set ls)) \<in> set m" using ls(2,3) by (auto simp: set_zip)
      with j ls(3) show ?thesis by (metis nth_mem)
    qed
    ultimately show ?thesis using step [of "Max (set ls) + 1"] found False ls(1) by simp
  qed
qed

lemma levels_filled:
  assumes "levels_ok g m" and "map fst m = ord" and "set ord \<subseteq> wi_id ` set (wg_items g)"
    and "closed_items (wg_items g)" and "(w, l) \<in> set m" and "k \<le> l"
  shows "\<exists>v. (v, k) \<in> set m"
  using assms(5,6)
proof (induction "l - k" arbitrary: w l)
  case 0
  then show ?case by auto
next
  case (Suc n)
  have "w \<in> wi_id ` set (wg_items g)" using Suc.prems(1) assms(2,3) by force
  then obtain i where "item_of g w = Some i"
    using assms(4) find_item by (fastforce simp: item_of_def closed_items_def)
  then obtain d where "(d, l - 1) \<in> set m"
    using assms(1) Suc.prems(1) Suc.hyps(2) unfolding levels_ok_def by (metis gr0I zero_diff)
  with Suc.hyps(1) [of "l - 1" d] Suc.hyps(2) Suc.prems(2) show ?case by auto
qed


text \<open>The layers that the model of the assignment gives.\<close>

lemma layers_cases:
  assumes "work_graph_post_init p items meta = Inr g"
  obtains m where "dependency_layers g
      = Inr (map (\<lambda>index. sort (map fst (filter (\<lambda>(w, layer). layer = index) m))) [0 ..< Suc (Max (set (map snd m)))])"
    "set (map fst m) = wi_id ` set items" "distinct (map fst m)" "levels_ok g m"
    "\<And>w l k. (w, l) \<in> set m \<Longrightarrow> k \<le> l \<Longrightarrow> \<exists>v. (v, k) \<in> set m" "m \<noteq> []"
proof -
  note A = accepted_graph [OF assms]
  let ?ord = "topo_scan (wg_items g)"
  have all: "set ?ord = wi_id ` set items" using work_order.complete_iff [OF A(1)] A(3,4) by simp
  obtain m where m: "assign_layers g ?ord [] = Inr m" "map fst m = ?ord" "levels_ok g m"
    using assign_layers_ok [OF A(1), of ?ord "[]" ?ord] work_order.once [OF A(1)] work_order.inside [OF A(1)]
      work_order.first [OF A(1)]
    by (auto simp: levels_ok_def)
  have "items \<noteq> []" using assms by (simp add: work_graph_post_init_iff)
  then have ne: "m \<noteq> []" using m(2) all by auto
  have "set ?ord \<subseteq> wi_id ` set (wg_items g)" using all A(4) by simp
  note filled = levels_filled [OF m(3,2) this A(1)]
  show thesis
  proof (rule that)
    show "dependency_layers g = Inr (map (\<lambda>index. sort (map fst (filter (\<lambda>(w, layer). layer = index) m)))
        [0 ..< Suc (Max (set (map snd m)))])"
      using A(5) m(1) ne by (simp add: dependency_layers_def)
    show "set (map fst m) = wi_id ` set items" "distinct (map fst m)"
      using m(2) all work_order.once [OF A(1)] by simp_all
    show "(w, l) \<in> set m \<Longrightarrow> k \<le> l \<Longrightarrow> \<exists>v. (v, k) \<in> set m" for w l k by (rule filled)
  qed (rule m ne)+
qed

text \<open>
  C31: the layers of an accepted graph put every item in exactly one layer, leave no layer
  empty, and are the longest-path levels: an item's dependencies all stand in earlier layers,
  and an item outside the first layer has one in the layer just before its own.
\<close>
theorem dependency_layers_correct:
  assumes "work_graph_post_init p items meta = Inr g"
  shows "\<exists>layers. dependency_layers g = Inr layers
    \<and> (\<forall>w \<in> wi_id ` set items. \<exists>!k. k < length layers \<and> w \<in> set (layers ! k))
    \<and> (\<forall>k < length layers. layers ! k \<noteq> [] \<and> sorted (layers ! k) \<and> set (layers ! k) \<subseteq> wi_id ` set items)
    \<and> (\<forall>k < length layers. \<forall>w \<in> set (layers ! k). \<forall>i. item_of g w = Some i \<longrightarrow>
         (\<forall>d \<in> set (wi_depends i). \<exists>j<k. d \<in> set (layers ! j))
         \<and> (0 < k \<longrightarrow> (\<exists>d \<in> set (wi_depends i). d \<in> set (layers ! (k - 1)))))"
proof -
  obtain m where m: "dependency_layers g
      = Inr (map (\<lambda>index. sort (map fst (filter (\<lambda>(w, layer). layer = index) m))) [0 ..< Suc (Max (set (map snd m)))])"
    "set (map fst m) = wi_id ` set items" "distinct (map fst m)" "levels_ok g m"
    "\<And>w l k. (w, l) \<in> set m \<Longrightarrow> k \<le> l \<Longrightarrow> \<exists>v. (v, k) \<in> set m" "m \<noteq> []"
    using assms by (rule layers_cases) blast
  define n where "n = Suc (Max (set (map snd m)))"
  define layers where "layers = map (\<lambda>index. sort (map fst (filter (\<lambda>(w, layer). layer = index) m))) [0 ..< n]"
  have len: "length layers = n" by (simp add: layers_def)
  have at: "set (layers ! k) = {w. (w, k) \<in> set m}" if "k < n" for k
    using that by (force simp: layers_def)
  have low: "l < n" if "(w, l) \<in> set m" for w l
  proof -
    have "l \<in> set (map snd m)" using that by force
    then have "l \<le> Max (set (map snd m))" by (intro Max_ge) simp_all
    then show ?thesis by (simp add: n_def)
  qed
  have top: "\<exists>w. (w, Max (set (map snd m))) \<in> set m"
  proof -
    have "Max (set (map snd m)) \<in> set (map snd m)" using m(6) by (intro Max_in) auto
    then show ?thesis by force
  qed
  have one: "\<exists>!k. k < n \<and> w \<in> set (layers ! k)" if "w \<in> wi_id ` set items" for w
  proof -
    have "w \<in> set (map fst m)" using that m(2) by simp
    then obtain l where l: "(w, l) \<in> set m" by auto
    show ?thesis
    proof (rule ex1I [of _ l])
      show "l < n \<and> w \<in> set (layers ! l)" using low [OF l] l at by simp
      show "k = l" if "k < n \<and> w \<in> set (layers ! k)" for k
      proof -
        have "(w, k) \<in> set m" using that at [of k] by blast
        with l m(3) show "k = l" by (meson eq_key_imp_eq_value)
      qed
    qed
  qed
  have full: "layers ! k \<noteq> [] \<and> sorted (layers ! k) \<and> set (layers ! k) \<subseteq> wi_id ` set items" if "k < n" for k
  proof -
    obtain w where "(w, Max (set (map snd m))) \<in> set m" using top by blast
    moreover have "k \<le> Max (set (map snd m))" using that by (simp add: n_def)
    ultimately obtain v where "(v, k) \<in> set m" using m(5) by blast
    then have "layers ! k \<noteq> []" using at [OF that] by auto
    moreover have "sorted (layers ! k)" using that by (simp add: layers_def)
    moreover have "set (layers ! k) \<subseteq> set (map fst m)" using at [OF that] by force
    ultimately show ?thesis using m(2) by simp
  qed
  have level: "(\<forall>d \<in> set (wi_depends i). \<exists>j<k. d \<in> set (layers ! j))
      \<and> (0 < k \<longrightarrow> (\<exists>d \<in> set (wi_depends i). d \<in> set (layers ! (k - 1))))"
    if k: "k < n" "w \<in> set (layers ! k)" "item_of g w = Some i" for k w i
  proof -
    have "(w, k) \<in> set m" using k(1,2) at by simp
    with m(4) k(3) have "(\<forall>d \<in> set (wi_depends i). \<exists>j<k. (d, j) \<in> set m)
        \<and> (0 < k \<longrightarrow> (\<exists>d \<in> set (wi_depends i). (d, k - 1) \<in> set m))"
      unfolding levels_ok_def by blast
    moreover have "(d, j) \<in> set m \<longleftrightarrow> d \<in> set (layers ! j)" if "j \<le> k" for d j
      using at [of j] that k(1) by simp
    ultimately show ?thesis by (meson diff_le_self less_imp_le)
  qed
  have "dependency_layers g = Inr layers" using m(1) unfolding layers_def n_def .
  moreover have "\<forall>w \<in> wi_id ` set items. \<exists>!k. k < length layers \<and> w \<in> set (layers ! k)"
    unfolding len using one by (intro ballI)
  moreover have "\<forall>k < length layers. layers ! k \<noteq> [] \<and> sorted (layers ! k)
      \<and> set (layers ! k) \<subseteq> wi_id ` set items"
    unfolding len using full by (intro allI impI)
  moreover have "\<forall>k < length layers. \<forall>w \<in> set (layers ! k). \<forall>i. item_of g w = Some i \<longrightarrow>
      (\<forall>d \<in> set (wi_depends i). \<exists>j<k. d \<in> set (layers ! j))
      \<and> (0 < k \<longrightarrow> (\<exists>d \<in> set (wi_depends i). d \<in> set (layers ! (k - 1))))"
    unfolding len using level by (intro allI ballI impI)
  ultimately show ?thesis by (intro exI [of _ layers] conjI)
qed


section \<open>Round trip\<close>

definition valid_graph :: "work_graph \<Rightarrow> bool" where
  "valid_graph g \<longleftrightarrow> work_graph_post_init graph_protocol (wg_items g) (wg_metadata g) = Inr g
     \<and> list_all valid_item (wg_items g)"

text \<open>
  A valid graph written with \<open>to_dict\<close> and read with \<open>from_dict\<close> is the same graph.
\<close>
lemma work_graph_roundtrip:
  assumes "valid_graph g"
  shows "work_graph_from_dict (work_graph_dict g) = Inr g"
proof -
  obtain kvs where kvs: "work_graph_dict g = JObj kvs" by (simp add: work_graph_dict_def)
  have get: "jget kvs ''protocol'' = JStr graph_protocol"
    "jget kvs ''work_items'' = JList (map work_item_dict (wg_items g))"
    "jget kvs ''metadata'' = JObj (wg_metadata g)"
    using kvs by (auto simp: work_graph_dict_def jget_def)
  have init: "work_graph_post_init graph_protocol (wg_items g) (wg_metadata g) = Inr g"
    and items: "list_all valid_item (wg_items g)"
    using assms by (simp_all add: valid_graph_def)
  have "res_map work_item_from_dict (map work_item_dict (wg_items g)) = Inr (wg_items g)"
    using items work_item_dict_roundtrip by (auto simp: res_map_Inr_iff list_all2_conv_all_nth list_all_iff)
  moreover have "raw_work_ids (map work_item_dict (wg_items g)) = map wi_id (wg_items g)"
    by (induction "wg_items g" arbitrary: g)
      (auto simp: raw_work_ids_def work_item_dict_def get_str_def jget_def comp_def concat_map_singleton)
  moreover have "distinct (map wi_id (wg_items g))"
    using init by (simp add: work_graph_post_init_iff closed_items_def)
  ultimately show ?thesis
    using init by (simp add: work_graph_from_dict_def kvs get get_dict_obj [OF get(3)] raw_work_items_def
        graph_protocol_def)
qed



section \<open>A sample graph\<close>

definition sample_item :: "string \<Rightarrow> string list \<Rightarrow> work_item" where
  "sample_item name depends = \<lparr>wi_id = name, wi_title = ''title'', wi_goal = ''goal'',
     wi_operations = ci_operations sample_built, wi_depends = depends, wi_preserves = [],
     wi_acceptance = [], wi_metadata = []\<rparr>"

definition sample_items :: "work_item list" where
  "sample_items = [sample_item ''c'' [''a'', ''b''], sample_item ''b'' [''a''], sample_item ''a'' [],
     sample_item ''d'' []]"

definition sample_graph :: work_graph where
  "sample_graph = \<lparr>wg_items = sort_key wi_id sample_items, wg_metadata = []\<rparr>"

lemma sample_graph_built: "work_graph_post_init graph_protocol sample_items [] = Inr sample_graph"
  by code_simp

theorem work_graph_order_independent_witness:
  "work_graph_post_init graph_protocol (rev sample_items) [] = Inr sample_graph"
  by (rule work_graph_order_independent [OF _ sample_graph_built]) simp

theorem work_order_correct_witness:
  "\<exists>ord. topological_order sample_graph = Inr ord \<and> distinct ord \<and> before_in ord ''a'' ''c''"
proof -
  have "sample_item ''c'' [''a'', ''b''] \<in> set sample_items" by (simp add: sample_items_def)
  then have "(''c'', ''a'') \<in> item_edges sample_items"
    unfolding item_edges_def
    by (intro CollectI exI [of _ "sample_item ''c'' [''a'', ''b'']"] exI [of _ "''a''"]) (simp add: sample_item_def)
  with work_order_correct [OF sample_graph_built] show ?thesis by blast
qed

theorem dependency_layers_correct_witness:
  "\<exists>layers. dependency_layers sample_graph = Inr layers
     \<and> (\<exists>!k. k < length layers \<and> ''b'' \<in> set (layers ! k))"
proof -
  have b: "''b'' \<in> wi_id ` set sample_items" by code_simp
  from dependency_layers_correct [OF sample_graph_built] obtain layers where
    "dependency_layers sample_graph = Inr layers"
    and one: "\<forall>w \<in> wi_id ` set sample_items. \<exists>!k. k < length layers \<and> w \<in> set (layers ! k)"
    by (elim exE conjE)
  with bspec [OF one b] show ?thesis by (intro exI [of _ layers] conjI)
qed

lemma sample_graph_valid: "valid_graph sample_graph"
  by code_simp

lemma work_graph_roundtrip_witness:
  "valid_graph sample_graph \<and> work_graph_from_dict (work_graph_dict sample_graph) = Inr sample_graph"
proof -
  from work_graph_roundtrip [OF sample_graph_valid] sample_graph_valid show ?thesis by blast
qed


section \<open>Scopes that reach control state\<close>

definition git_pattern :: resource_ref where
  "git_pattern = \<lparr>rr_kind = K_FILE, rr_identifier = ''.g*/config'', rr_signature = None,
     rr_region = None, rr_concept_id = None, rr_subject_concept_id = None, rr_metadata = []\<rparr>"

text \<open>
  The check that keeps Git control state out of a work item compares the text of the scope,
  not what it covers: a pattern whose first component is not literally a protected name is
  accepted although it covers a file under \<open>.git\<close>.
\<close>
theorem control_state_reached_by_pattern:
  "resource_post_init git_pattern = Inr git_pattern
   \<and> validate_repository_path (rr_identifier git_pattern) = Inr ()
   \<and> covers_path git_pattern ''.git/config''
   \<and> validate_repository_path ''.git/config'' = Inl (ControlPath ''.git/config'')"
  by (intro conjI; code_simp)

end
