(* ===== verification/SwarmBudgetLaws.thy ===== *)
theory SwarmBudgetLaws
  imports SwarmBudget
begin

text \<open>
  What the budget policy promises: a normalised cost is a fixed point of the normalisation, an
  accepted policy stays within its ceilings, and its JSON form reads back unless a ceiling is
  absent.
\<close>


section \<open>Decimal texts\<close>

lemma digit_facts:
  assumes "is_digit c"
  shows "c \<noteq> CHR ''_''" "c \<noteq> CHR ''.''" "c \<noteq> CHR ''-''" "c \<noteq> CHR ''+''" "c \<noteq> CHR ''e''"
    "\<not> is_space c" "to_lower c = c"
  using assms by (auto simp: is_digit_def code_def is_space_def to_lower_def is_upper_def Let_def)

lemma digits_val_append: "digits_val (a @ b) = digits_val a * 10 ^ length b + digits_val b"
proof (induction b rule: rev_induct)
  case (snoc c b)
  then have "digits_val ((a @ b) @ [c]) = 10 * (digits_val a * 10 ^ length b + digits_val b) + (code c - 48)"
    by (simp only: digits_val_snoc)
  then show ?case by (simp add: digits_val_snoc algebra_simps)
qed (simp add: digits_val_def)

lemma length_pad_digits [simp]: "length (pad_digits k n) = k"
  by (induction k arbitrary: n) auto

lemma pad_digits_digits: "list_all is_digit (pad_digits k n)"
  by (induction k arbitrary: n) (auto simp: is_digit_def code_digit)

lemma digits_val_pad: "n < 10 ^ k \<Longrightarrow> digits_val (pad_digits k n) = n"
proof (induction k arbitrary: n)
  case (Suc k)
  then have "digits_val (pad_digits k (n div 10)) = n div 10" by simp
  moreover have "code (char_of (48 + n mod 10)) = 48 + n mod 10" by (rule code_digit) simp
  ultimately show ?case by (simp add: digits_val_snoc)
qed (simp add: digits_val_def)

lemma split_on_absent: "d \<notin> set s \<Longrightarrow> split_on d s = [s]"
  by (induction s) auto

lemma split_on_once: "d \<notin> set a \<Longrightarrow> d \<notin> set b \<Longrightarrow> split_on d (a @ d # b) = [a, b]"
  by (induction a) (auto simp: split_on_absent)

text \<open>What a text of digits, possibly with a point, is read as.\<close>

definition point_text :: "string \<Rightarrow> string \<Rightarrow> string" where
  "point_text a b = (if b = [] then a else a @ CHR ''.'' # b)"

lemma parse_point_text:
  assumes "all_digits a" and "all_digits b" and "a \<noteq> []"
  shows "parse_decimal (point_text a b)
    = Some \<lparr>dc_negative = False, dc_digits = digits_val (a @ b), dc_exponent = - int (length b)\<rparr>"
proof -
  let ?s = "point_text a b"
  have plain: "c \<noteq> CHR ''_'' \<and> c \<noteq> CHR ''-'' \<and> c \<noteq> CHR ''+'' \<and> c \<noteq> CHR ''e'' \<and> \<not> is_space c \<and> to_lower c = c"
    if "c \<in> set ?s" for c
  proof (cases "c = CHR ''.''")
    case True
    then show ?thesis by (simp add: is_space_def to_lower_def is_upper_def code_def)
  next
    case False
    with that assms(1,2) have "is_digit c"
      by (auto simp: point_text_def all_digits_def list_all_iff split: if_splits)
    from digit_facts [OF this] show ?thesis by blast
  qed
  have "strip ?s = ?s" by (rule strip_no_space) (use plain in \<open>auto simp: list_all_iff\<close>)
  moreover have "filter (\<lambda>c. c \<noteq> CHR ''_'') ?s = ?s" by (rule filter_True) (use plain in blast)
  moreover have "unsigned ?s = (False, ?s)"
    using plain [of "hd ?s"] assms(3)
    by (cases ?s) (auto simp: unsigned_def starts_with_def point_text_def)
  moreover have "lower ?s = ?s" unfolding lower_def by (rule map_idI) (use plain in blast)
  moreover have "CHR ''e'' \<notin> set ?s" using plain by blast
  moreover have "split_point ?s = Some (a, b)"
  proof -
    have "CHR ''.'' \<notin> set a" "CHR ''.'' \<notin> set b"
      using assms(1,2) digit_facts(2) by (auto simp: all_digits_def list_all_iff)
    then show ?thesis by (simp add: split_point_def point_text_def split_on_absent split_on_once)
  qed
  ultimately show ?thesis
    using assms by (simp add: parse_decimal_def split_exponent_def split_on_absent exponent_of_def all_digits_def)
qed

lemma rstrip_zeros:
  obtains k where "s = rstrip_by (\<lambda>c. c = CHR ''0'') s @ replicate k (CHR ''0'')"
proof -
  have "s = rev (dropWhile (\<lambda>c. c = CHR ''0'') (rev s)) @ rev (takeWhile (\<lambda>c. c = CHR ''0'') (rev s))"
    by (metis rev_append rev_rev_ident takeWhile_dropWhile_id)
  moreover have "takeWhile (\<lambda>c. c = CHR ''0'') (rev s)
      = replicate (length (takeWhile (\<lambda>c. c = CHR ''0'') (rev s))) (CHR ''0'')"
    by (rule replicate_length_same [symmetric]) (auto dest: set_takeWhileD)
  ultimately show thesis using that by (metis rev_replicate rstrip_by_def)
qed

lemma rstrip_by_append: "rstrip_by P (a @ b) = (if list_all P b then rstrip_by P a else a @ rstrip_by P b)"
  by (auto simp: rstrip_by_def dropWhile_append list_all_iff)

lemma digits_val_zeros: "digits_val (a @ replicate k (CHR ''0'')) = digits_val a * 10 ^ k"
proof -
  have "digits_val (replicate k (CHR ''0'')) = 0"
  proof (induction k)
    case (Suc k)
    then show ?case using digits_val_append [of "''0''" "replicate k (CHR ''0'')"] by (simp add: digits_val_def code_def)
  qed (simp add: digits_val_def)
  then show ?thesis by (simp add: digits_val_append)
qed

text \<open>The text written for a number of millionths: its digits, without trailing zeros.\<close>

lemma cost_text_shape:
  obtains a b where "cost_text n = point_text a b" "all_digits a" "all_digits b" "a \<noteq> []"
    "length b \<le> 6" "digits_val (a @ b) * 10 ^ (6 - length b) = n"
proof -
  let ?a = "nat_str (n div 1000000)" and ?p = "pad_digits 6 (n mod 1000000)"
  define b where "b = rstrip_by (\<lambda>c. c = CHR ''0'') ?p"
  obtain k where k: "?p = b @ replicate k (CHR ''0'')" unfolding b_def by (rule rstrip_zeros)
  have len: "length b + k = 6" using arg_cong [OF k, of length] by simp
  have ad: "all_digits ?a" using nat_str_digits by (simp add: all_digits_def list_all_iff)
  have bd: "all_digits b" using pad_digits_digits [of 6 "n mod 1000000"] by (simp add: k all_digits_def)
  have "digits_val (?a @ ?p) = n"
    using digits_val_pad [of "n mod 1000000" 6] by (simp add: digits_val_append digits_val_nat_str)
  then have val: "digits_val (?a @ b) * 10 ^ (6 - length b) = n"
  proof -
    have "6 - length b = k" using len by simp
    with \<open>digits_val (?a @ ?p) = n\<close> digits_val_zeros [of "?a @ b" k] show ?thesis by (simp add: k)
  qed
  have zeros: "rstrip_by (\<lambda>c. c = CHR ''0'') (?a @ ''.'' @ ?p) = ?a @ ''.'' @ b"
    unfolding b_def using rstrip_by_append [of "\<lambda>c. c = CHR ''0''" "?a @ ''.''" ?p]
    by (auto simp: rstrip_by_def list_all_iff)
  have "cost_text n = point_text ?a b"
  proof (cases "b = []")
    case True
    have "\<not> list_all (\<lambda>c. c = CHR ''.'') ?a"
      using ad digit_facts(2) by (cases ?a) (auto simp: all_digits_def)
    moreover have "rstrip_by (\<lambda>c. c = CHR ''.'') ?a = ?a"
      using ad digit_facts(2) by (cases ?a rule: rev_cases) (auto simp: rstrip_by_def all_digits_def)
    ultimately show ?thesis
      using True zeros by (simp add: cost_text_def Let_def point_text_def rstrip_by_append)
  next
    case False
    have "rstrip_by (\<lambda>c. c = CHR ''.'') b = b" "\<not> list_all (\<lambda>c. c = CHR ''.'') b"
      using bd False digit_facts(2)
      by (cases b rule: rev_cases; auto simp: rstrip_by_def all_digits_def)+
    then show ?thesis
      using False zeros rstrip_by_append [of "\<lambda>c. c = CHR ''.''" "?a @ ''.''" b]
      by (simp add: cost_text_def Let_def point_text_def)
  qed
  then show thesis using ad bd len val by (intro that) simp_all
qed

lemma above_million_millionths:
  assumes "millionths d = Some n"
  shows "above_million d \<longleftrightarrow> 1000000000000 < n"
proof (cases "0 \<le> dc_exponent d")
  case True
  then have "n = dc_digits d * 10 ^ nat (dc_exponent d) * 1000000"
    using assms by (auto simp: millionths_def Let_def nat_add_distrib power_add)
  with True show ?thesis by (simp add: above_million_def)
next
  case False
  define e where "e = nat (- dc_exponent d)"
  have e: "dc_exponent d = - int e" using False by (simp add: e_def)
  show ?thesis
  proof (cases "e \<le> 6")
    case True
    then have n: "n = dc_digits d * 10 ^ (6 - e)"
      using assms by (auto simp: millionths_def Let_def e nat_diff_distrib)
    have "(10::nat) ^ e * 10 ^ (6 - e) = 1000000" using True by (simp add: power_add [symmetric])
    then have q: "(1000000000000::nat) = 1000000 * 10 ^ e * 10 ^ (6 - e)" by (simp add: mult.assoc)
    have "1000000000000 < n \<longleftrightarrow> 1000000 * 10 ^ e * 10 ^ (6 - e) < dc_digits d * 10 ^ (6 - e)"
      unfolding n q by (rule refl)
    also have "\<dots> \<longleftrightarrow> 1000000 * 10 ^ e < dc_digits d" by (rule mult_less_cancel2 [THEN trans]) simp
    finally show ?thesis using False by (simp add: above_million_def e_def)
  next
    case f: False
    then have x: "nat (- (dc_exponent d + 6)) = e - 6" "\<not> 0 \<le> dc_exponent d + 6" by (simp_all add: e nat_diff_distrib)
    then have n: "dc_digits d = n * 10 ^ (e - 6)"
      using assms by (auto simp: millionths_def Let_def split: if_splits)
    have "(10::nat) ^ e = 1000000 * 10 ^ (e - 6)" using f power_add [of "10::nat" 6 "e - 6"] by simp
    then have "1000000 * 10 ^ e < dc_digits d \<longleftrightarrow> 1000000000000 * 10 ^ (e - 6) < n * 10 ^ (e - 6)"
      unfolding n by simp
    also have "\<dots> \<longleftrightarrow> 1000000000000 < n" by (rule mult_less_cancel2 [THEN trans]) simp
    finally show ?thesis using False by (simp add: above_million_def e_def)
  qed
qed

lemma cost_usd_some:
  assumes "cost_usd dflt v = Inr (Some t)" and "v \<noteq> JNull"
  obtains n where "t = cost_text n" "0 < n" "n \<le> 1000000000000"
proof -
  obtain d n where d: "parse_decimal (py_str v) = Some d" "dc_digits d \<noteq> 0" "\<not> above_million d"
    "millionths d = Some n" "t = cost_text n"
    using assms by (auto simp: cost_usd_def split: json.splits option.splits if_splits)
  have "0 < n" using d(2,4) by (auto simp: millionths_def Let_def split: if_splits)
  moreover have "n \<le> 1000000000000" using above_million_millionths [OF d(4)] d(3) by simp
  ultimately show thesis using d(5) that by blast
qed

lemma cost_text_fixed:
  assumes "0 < n" and "n \<le> 1000000000000"
  shows "cost_usd dflt (JStr (cost_text n)) = Inr (Some (cost_text n))"
proof -
  obtain a b where ab: "cost_text n = point_text a b" "all_digits a" "all_digits b" "a \<noteq> []"
    "length b \<le> 6" "digits_val (a @ b) * 10 ^ (6 - length b) = n"
    by (rule cost_text_shape)
  let ?d = "\<lparr>dc_negative = False, dc_digits = digits_val (a @ b), dc_exponent = - int (length b)\<rparr>"
  have "parse_decimal (cost_text n) = Some ?d" unfolding ab(1) by (rule parse_point_text [OF ab(2-4)])
  moreover have m: "millionths ?d = Some n"
    using ab(5,6) by (simp add: millionths_def Let_def nat_diff_distrib)
  moreover have "digits_val (a @ b) \<noteq> 0" using assms(1) ab(6) by (metis mult_0 less_irrefl)
  moreover have "\<not> above_million ?d" using above_million_millionths [OF m] assms(2) by simp
  ultimately show ?thesis by (simp add: cost_usd_def py_str_def)
qed


section \<open>Policies\<close>

definition valid_policy :: "budget_policy \<Rightarrow> bool" where
  "valid_policy p \<longleftrightarrow> worker_budget_post_init (bp_workers p) = Inr (bp_workers p)
     \<and> resource_budget_post_init (bp_resources p) = Inr (bp_resources p)
     \<and> retry_budget_post_init (bp_retries p) = Inr (bp_retries p)"

lemma in_range_ok: "in_range name lo hi i = Inr u \<longleftrightarrow> lo \<le> i \<and> i \<le> hi"
  by (auto simp: in_range_def)

lemma bounded_int_JInt: "bounded_int name d lo hi (JInt i) = (if lo \<le> i \<and> i \<le> hi then Inr i else Inl (OutOfRange name))"
  by (simp add: bounded_int_def in_range_def)

lemma optional_bounded_int_some:
  "optional_bounded_int name d lo hi (jint_opt (Some i))
     = (if lo \<le> i \<and> i \<le> hi then Inr (Some i) else Inl (OutOfRange name))"
  by (simp add: optional_bounded_int_def jint_opt_def bounded_int_JInt)

lemma worker_budget_ok:
  "worker_budget_post_init b = Inr c \<longleftrightarrow> c = b \<and> 1 \<le> wb_active b \<and> wb_active b \<le> 256
     \<and> 1 \<le> wb_per_item b \<and> wb_per_item b \<le> 64 \<and> 1 \<le> wb_items b \<and> wb_items b \<le> 4096
     \<and> 1 \<le> wb_launches b \<and> wb_launches b \<le> 65536 \<and> wb_per_item b \<le> wb_active b
     \<and> wb_items b \<le> wb_launches b"
  by (auto simp: worker_budget_post_init_def res_bind_eq_Inr in_range_ok split: if_splits)

lemma retry_budget_ok:
  "retry_budget_post_init b = Inr c \<longleftrightarrow> c = b \<and> 0 \<le> yb_replans b \<and> yb_replans b \<le> 100
     \<and> 0 \<le> yb_repairs b \<and> yb_repairs b \<le> 100 \<and> 0 \<le> yb_restarts b \<and> yb_restarts b \<le> 100"
  by (auto simp: retry_budget_post_init_def res_bind_eq_Inr in_range_ok)

lemma optional_bounded_int_cases:
  assumes "optional_bounded_int name d lo hi v = Inr r"
  shows "r = d \<and> v = JNull \<or> (\<exists>i. v = JInt i \<and> r = Some i \<and> lo \<le> i \<and> i \<le> hi)"
  using assms
  by (auto simp: optional_bounded_int_def bounded_int_def res_bind_eq_Inr in_range_ok split: if_splits json.splits)

lemma resource_budget_cases:
  assumes "resource_budget_post_init b = Inr c"
  obtains wall where
    "optional_bounded_int ''resources.max_total_tokens'' None 1 10000000000 (jint_opt (rb_tokens b)) = Inr (rb_tokens c)"
    "bounded_int ''resources.max_wall_time_seconds'' 7200 1 31536000 (JInt (rb_wall_time b)) = Inr wall"
    "cost_usd None (jopt (rb_cost b)) = Inr (rb_cost c)" "rb_wall_time c = wall"
    "c = \<lparr>rb_tokens = rb_tokens c, rb_cost = rb_cost c, rb_wall_time = wall\<rparr>"
  using assms by (auto simp: resource_budget_post_init_def res_bind_eq_Inr)

text \<open>Constructing a resource budget twice changes nothing, because the cost is in normal form.\<close>

lemma resource_budget_stable:
  assumes "resource_budget_post_init b = Inr c"
  shows "resource_budget_post_init c = Inr c"
proof -
  from assms obtain wall where
    t: "optional_bounded_int ''resources.max_total_tokens'' None 1 10000000000 (jint_opt (rb_tokens b)) = Inr (rb_tokens c)"
    and w: "bounded_int ''resources.max_wall_time_seconds'' 7200 1 31536000 (JInt (rb_wall_time b)) = Inr wall"
    and u: "cost_usd None (jopt (rb_cost b)) = Inr (rb_cost c)" and x: "rb_wall_time c = wall"
    and c: "c = \<lparr>rb_tokens = rb_tokens c, rb_cost = rb_cost c, rb_wall_time = wall\<rparr>"
    by (rule resource_budget_cases)
  have "cost_usd None (jopt (rb_cost c)) = Inr (rb_cost c)"
  proof (cases "rb_cost c")
    case (Some y)
    then obtain n where "y = cost_text n" "0 < n" "n \<le> 1000000000000"
      using u cost_usd_some [of None "jopt (rb_cost b)" y] by (cases "rb_cost b") (auto simp: jopt_def cost_usd_def)
    then show ?thesis using Some by (simp add: jopt_def cost_text_fixed)
  qed (simp add: jopt_def cost_usd_def)
  moreover have "optional_bounded_int ''resources.max_total_tokens'' None 1 10000000000 (jint_opt (rb_tokens c))
      = Inr (rb_tokens c)"
  proof (cases "rb_tokens c")
    case (Some i)
    then show ?thesis using optional_bounded_int_cases [OF t] by (auto simp: optional_bounded_int_some)
  qed (simp add: optional_bounded_int_def jint_opt_def)
  moreover have "bounded_int ''resources.max_wall_time_seconds'' 7200 1 31536000 (JInt wall) = Inr wall"
    using w by (auto simp: bounded_int_JInt split: if_splits)
  ultimately show ?thesis unfolding resource_budget_post_init_def x using c by simp
qed

lemma budget_policy_from_dict_valid:
  assumes "budget_policy_from_dict v = Inr p"
  shows "valid_policy p"
proof -
  obtain raw where "worker_budget_from_dict (jget raw ''workers'') = Inr (bp_workers p)"
    "resource_budget_from_dict (jget raw ''resources'') = Inr (bp_resources p)"
    "retry_budget_from_dict (jget raw ''retries'') = Inr (bp_retries p)"
    using assms
    by (auto simp: budget_policy_from_dict_def Let_def res_bind_eq_Inr split: if_splits)
  then have "\<exists>b. worker_budget_post_init b = Inr (bp_workers p)"
    "\<exists>b. resource_budget_post_init b = Inr (bp_resources p)"
    "\<exists>b. retry_budget_post_init b = Inr (bp_retries p)"
    by (auto simp: worker_budget_from_dict_def resource_budget_from_dict_def retry_budget_from_dict_def
        res_bind_eq_Inr)
  then show ?thesis
    unfolding valid_policy_def using resource_budget_stable
    by (auto simp: worker_budget_ok retry_budget_ok)
qed

text \<open>
  A policy read from JSON, whatever the planner wrote there, stays within the ceilings of
  the code: bounded workers, launches, items, retries, tokens and wall time, no more workers
  per item than in all, enough launches for every item, and a cost of at most a million in the
  normal form that is its own normalisation.
\<close>
theorem budget_within_ceilings:
  assumes "budget_policy_from_dict v = Inr p"
  shows "1 \<le> wb_active (bp_workers p) \<and> wb_active (bp_workers p) \<le> 256
    \<and> 1 \<le> wb_per_item (bp_workers p) \<and> wb_per_item (bp_workers p) \<le> wb_active (bp_workers p)
    \<and> 1 \<le> wb_items (bp_workers p) \<and> wb_items (bp_workers p) \<le> wb_launches (bp_workers p)
    \<and> wb_launches (bp_workers p) \<le> 65536
    \<and> 0 \<le> yb_restarts (bp_retries p) \<and> yb_restarts (bp_retries p) \<le> 100
    \<and> (\<forall>t. rb_tokens (bp_resources p) = Some t \<longrightarrow> 1 \<le> t \<and> t \<le> 10000000000)
    \<and> (\<forall>c. rb_cost (bp_resources p) = Some c \<longrightarrow>
         (\<exists>n. c = cost_text n \<and> 0 < n \<and> n \<le> 1000000000000) \<and> cost_usd None (JStr c) = Inr (Some c))"
proof -
  have valid: "valid_policy p" using assms by (rule budget_policy_from_dict_valid)
  then have res: "resource_budget_post_init (bp_resources p) = Inr (bp_resources p)"
    by (simp add: valid_policy_def)
  then have t: "optional_bounded_int ''resources.max_total_tokens'' None 1 10000000000
      (jint_opt (rb_tokens (bp_resources p))) = Inr (rb_tokens (bp_resources p))"
    and c: "cost_usd None (jopt (rb_cost (bp_resources p))) = Inr (rb_cost (bp_resources p))"
    by (auto elim: resource_budget_cases)
  have "1 \<le> x \<and> x \<le> 10000000000" if "rb_tokens (bp_resources p) = Some x" for x
    using optional_bounded_int_cases [OF t] that by (auto simp: jint_opt_def)
  moreover have "(\<exists>n. x = cost_text n \<and> 0 < n \<and> n \<le> 1000000000000) \<and> cost_usd None (JStr x) = Inr (Some x)"
    if some: "rb_cost (bp_resources p) = Some x" for x
  proof -
    obtain n where "x = cost_text n" "0 < n" "n \<le> 1000000000000"
      using c some by (auto simp: jopt_def elim: cost_usd_some)
    then show ?thesis using cost_text_fixed by blast
  qed
  ultimately show ?thesis
    using valid unfolding valid_policy_def worker_budget_ok retry_budget_ok by blast
qed


section \<open>Reading back\<close>

lemma reject_unknown_none: "set (map fst data) \<subseteq> set allowed \<Longrightarrow> reject_unknown name allowed data = Inr ()"
  by (auto simp: reject_unknown_def filter_empty_conv)

lemma worker_budget_roundtrip:
  assumes "worker_budget_post_init b = Inr b"
  shows "worker_budget_from_dict (worker_budget_dict b) = Inr b"
proof -
  have "worker_budget_post_init \<lparr>wb_active = wb_active b, wb_per_item = wb_per_item b,
      wb_items = wb_items b, wb_launches = wb_launches b\<rparr> = Inr b"
    using assms by (cases b) simp
  then show ?thesis
    using assms by (simp add: worker_budget_from_dict_def worker_budget_dict_def mapping_of_def
        reject_unknown_none jget_def bounded_int_JInt worker_budget_ok)
qed

lemma retry_budget_roundtrip:
  assumes "retry_budget_post_init b = Inr b"
  shows "retry_budget_from_dict (retry_budget_dict b) = Inr b"
proof -
  have "retry_budget_post_init \<lparr>yb_replans = yb_replans b, yb_repairs = yb_repairs b,
      yb_restarts = yb_restarts b\<rparr> = Inr b"
    using assms by (cases b) simp
  then show ?thesis
    using assms by (simp add: retry_budget_from_dict_def retry_budget_dict_def mapping_of_def
        reject_unknown_none jget_def bounded_int_JInt retry_budget_ok)
qed

lemma resource_budget_roundtrip:
  assumes "resource_budget_post_init b = Inr b" and "rb_tokens b \<noteq> None" and "rb_cost b \<noteq> None"
  shows "resource_budget_from_dict (resource_budget_dict b) = Inr b"
proof -
  obtain tokens cost where some: "rb_tokens b = Some tokens" "rb_cost b = Some cost" using assms(2,3) by blast
  from assms(1) obtain wall where
    t: "optional_bounded_int ''resources.max_total_tokens'' None 1 10000000000 (jint_opt (rb_tokens b)) = Inr (rb_tokens b)"
    and w: "bounded_int ''resources.max_wall_time_seconds'' 7200 1 31536000 (JInt (rb_wall_time b)) = Inr wall"
    and u: "cost_usd None (jopt (rb_cost b)) = Inr (rb_cost b)" and x: "rb_wall_time b = wall"
    by (rule resource_budget_cases)
  have cost: "cost_usd d (JStr cost) = Inr (Some cost)" for d
    using u some by (simp add: jopt_def cost_usd_def)
  have again: "resource_budget_post_init \<lparr>rb_tokens = Some tokens, rb_cost = Some cost,
      rb_wall_time = rb_wall_time b\<rparr> = Inr b"
    using assms(1) some by (cases b) simp
  have range: "1 \<le> tokens" "tokens \<le> 10000000000"
    using optional_bounded_int_cases [OF t] some by (auto simp: jint_opt_def)
  let ?raw = "[(''max_total_tokens'', JInt tokens), (''max_cost_usd'', JStr cost),
      (''max_wall_time_seconds'', JInt (rb_wall_time b))]"
  have dict: "resource_budget_dict b = JObj ?raw" by (simp add: resource_budget_dict_def some jint_opt_def jopt_def)
  have "optional_bounded_int ''resources.max_total_tokens'' (Some 500000) 1 10000000000 (JInt tokens) = Inr (Some tokens)"
    using range by (simp add: optional_bounded_int_def bounded_int_JInt)
  moreover have "bounded_int ''resources.max_wall_time_seconds'' 7200 1 31536000 (JInt (rb_wall_time b)) = Inr (rb_wall_time b)"
    using w x by (auto simp: bounded_int_JInt split: if_splits)
  moreover have "jget ?raw ''max_total_tokens'' = JInt tokens" "jget ?raw ''max_cost_usd'' = JStr cost"
    "jget ?raw ''max_wall_time_seconds'' = JInt (rb_wall_time b)"
    by (simp_all add: jget_def)
  moreover have "reject_unknown ''resources'' [''max_total_tokens'', ''max_cost_usd'', ''max_wall_time_seconds''] ?raw
      = Inr ()"
    by (rule reject_unknown_none) simp
  ultimately show ?thesis
    using again cost by (simp add: resource_budget_from_dict_def dict mapping_of_def)
qed

lemma enum_of_same_file [simp]:
  "enum_of same_file_value [REGION_SAFE, SAME_SERIALIZE, SAME_DENY] (JStr (same_file_value x)) = Inr x"
  by (cases x) (simp_all add: enum_of_def)

lemma enum_of_conflict_policy [simp]:
  "enum_of conflict_policy_value [CP_SERIALIZE, CP_DENY] (JStr (conflict_policy_value x)) = Inr x"
  by (cases x) (simp_all add: enum_of_def)

lemma concurrency_budget_roundtrip: "concurrency_budget_from_dict (concurrency_budget_dict b) = Inr b"
proof -
  let ?raw = "[(''same_file'', JStr (same_file_value (cb_same_file b))),
      (''unknown_overlap'', JStr (conflict_policy_value (cb_unknown b))),
      (''shared_contract'', JStr (conflict_policy_value (cb_contract b))),
      (''schema_change'', JStr (conflict_policy_value (cb_schema b)))]"
  have "reject_unknown ''concurrency'' [''same_file'', ''unknown_overlap'', ''shared_contract'', ''schema_change''] ?raw
      = Inr ()"
    by (rule reject_unknown_none) simp
  then show ?thesis
    by (cases b) (simp add: concurrency_budget_from_dict_def concurrency_budget_dict_def mapping_of_def
        read_conflict_policy_def get_default_def lift_policy_def)
qed

text \<open>
  A constructed policy with both optional ceilings present is read back unchanged from its
  JSON form.
\<close>
lemma budget_policy_roundtrip:
  assumes "valid_policy p" and "rb_tokens (bp_resources p) \<noteq> None" and "rb_cost (bp_resources p) \<noteq> None"
  shows "budget_policy_from_dict (budget_policy_dict p) = Inr p"
proof -
  let ?raw = "[(''protocol'', JStr budget_protocol), (''workers'', worker_budget_dict (bp_workers p)),
      (''resources'', resource_budget_dict (bp_resources p)), (''retries'', retry_budget_dict (bp_retries p)),
      (''concurrency'', concurrency_budget_dict (bp_concurrency p)), (''metadata'', JObj (bp_metadata p))]"
  note parts = worker_budget_roundtrip [of "bp_workers p"] retry_budget_roundtrip [of "bp_retries p"]
    resource_budget_roundtrip [OF _ assms(2,3)] concurrency_budget_roundtrip [of "bp_concurrency p"]
  have get: "jget ?raw ''protocol'' = JStr budget_protocol"
    "jget ?raw ''workers'' = worker_budget_dict (bp_workers p)"
    "jget ?raw ''resources'' = resource_budget_dict (bp_resources p)"
    "jget ?raw ''retries'' = retry_budget_dict (bp_retries p)"
    "jget ?raw ''concurrency'' = concurrency_budget_dict (bp_concurrency p)"
    "jget ?raw ''metadata'' = JObj (bp_metadata p)"
    by (simp_all add: jget_def)
  have "reject_unknown ''budget_policy''
      [''protocol'', ''workers'', ''resources'', ''retries'', ''concurrency'', ''metadata''] ?raw = Inr ()"
    by (rule reject_unknown_none) simp
  moreover have "policy_metadata ?raw = Inr (bp_metadata p)" by (simp add: policy_metadata_def get)
  moreover have "budget_policy_dict p = JObj ?raw" by (simp add: budget_policy_dict_def)
  ultimately show ?thesis
    using parts assms(1)
    by (simp add: budget_policy_from_dict_def mapping_of_def get valid_policy_def)
qed

definition sample_policy :: budget_policy where
  "sample_policy = \<lparr>bp_workers = \<lparr>wb_active = 4, wb_per_item = 1, wb_items = 32, wb_launches = 64\<rparr>,
     bp_resources = \<lparr>rb_tokens = Some 500000, rb_cost = Some ''12.5'', rb_wall_time = 7200\<rparr>,
     bp_retries = \<lparr>yb_replans = 2, yb_repairs = 2, yb_restarts = 1\<rparr>,
     bp_concurrency = \<lparr>cb_same_file = REGION_SAFE, cb_unknown = CP_SERIALIZE, cb_contract = CP_DENY,
       cb_schema = CP_SERIALIZE\<rparr>, bp_metadata = []\<rparr>"

text \<open>The two cost texts of the samples, computed on binary numerals.\<close>

lemma pad_digits_numeral:
  "pad_digits (numeral k) n = pad_digits (pred_numeral k) (n div 10) @ [char_of (48 + n mod 10)]"
  unfolding numeral_eq_Suc [of k] pad_digits.simps ..

lemma digit_chars: "char_of (48::nat) = CHR ''0''" "char_of (53::nat) = CHR ''5''"
  by (simp_all add: char_of_def bit_iff_odd)

lemma sample_costs: "cost_text 25000000 = ''25''" "cost_text 12500000 = ''12.5''"
proof -
  have "25000000 div 1000000 = (25::nat)" "25000000 mod 1000000 = (0::nat)"
    "12500000 div 1000000 = (12::nat)" "12500000 mod 1000000 = (500000::nat)" by simp_all
  moreover have "nat_str 25 = ''25''" "nat_str 12 = ''12''" by code_simp+
  moreover have "pad_digits 6 0 = ''000000''" "pad_digits 6 500000 = ''500000''"
    by (simp_all add: pad_digits_numeral digit_chars)
  ultimately show "cost_text 25000000 = ''25''" "cost_text 12500000 = ''12.5''"
    by (simp_all add: cost_text_def Let_def rstrip_by_def)
qed

lemma sample_cost_reads: "cost_usd d (JStr ''25'') = Inr (Some ''25'')" "cost_usd d (JStr ''12.5'') = Inr (Some ''12.5'')"
  using cost_text_fixed [of 25000000 d] cost_text_fixed [of 12500000 d] by (simp_all add: sample_costs)

lemma sample_policy_valid: "valid_policy sample_policy"
  by (simp add: valid_policy_def sample_policy_def worker_budget_ok retry_budget_ok resource_budget_post_init_def
      optional_bounded_int_some jopt_def sample_cost_reads bounded_int_JInt)

lemma budget_policy_roundtrip_witness:
  "budget_policy_from_dict (budget_policy_dict sample_policy) = Inr sample_policy"
  by (rule budget_policy_roundtrip [OF sample_policy_valid]) (simp_all add: sample_policy_def)

theorem budget_within_ceilings_witness:
  "\<exists>p. budget_policy_from_dict (JObj []) = Inr p \<and> wb_per_item (bp_workers p) \<le> wb_active (bp_workers p)"
proof -
  have "resource_budget_from_dict JNull
      = Inr \<lparr>rb_tokens = Some 500000, rb_cost = Some ''25'', rb_wall_time = 7200\<rparr>"
    by (simp add: resource_budget_from_dict_def mapping_of_def reject_unknown_none jget_def
        optional_bounded_int_def cost_usd_def bounded_int_def in_range_def resource_budget_post_init_def
        jint_opt_def jopt_def sample_cost_reads(1) [unfolded cost_usd_def, simplified])
  moreover have "res_ok (worker_budget_from_dict JNull)" "res_ok (retry_budget_from_dict JNull)"
    "res_ok (concurrency_budget_from_dict JNull)" by code_simp+
  ultimately have "res_ok (budget_policy_from_dict (JObj []))"
    by (auto simp: budget_policy_from_dict_def mapping_of_def reject_unknown_none policy_metadata_def jget_def
        res_ok_def split: sum.splits)
  then obtain p where p: "budget_policy_from_dict (JObj []) = Inr p" by (auto simp: res_ok_def split: sum.splits)
  with budget_within_ceilings [OF this] show ?thesis by blast
qed

definition free_policy :: budget_policy where
  "free_policy = sample_policy\<lparr>bp_resources := \<lparr>rb_tokens = None, rb_cost = None, rb_wall_time = 7200\<rparr>\<rparr>"

text \<open>
  An absent token or cost ceiling does not survive storage. It is written as null and null
  is read as the default, so a policy without ceilings comes back with half a million tokens
  and 25 dollars, and with another fingerprint whenever the digest tells the two apart.
\<close>
theorem absent_ceiling_not_preserved:
  "valid_policy free_policy
   \<and> budget_policy_from_dict (budget_policy_dict free_policy)
       = Inr (free_policy\<lparr>bp_resources := \<lparr>rb_tokens = Some 500000, rb_cost = Some ''25'', rb_wall_time = 7200\<rparr>\<rparr>)"
proof -
  have "resource_budget_from_dict (resource_budget_dict (bp_resources free_policy))
      = Inr \<lparr>rb_tokens = Some 500000, rb_cost = Some ''25'', rb_wall_time = 7200\<rparr>"
    by (simp add: free_policy_def resource_budget_dict_def resource_budget_from_dict_def mapping_of_def
        reject_unknown_none jget_def optional_bounded_int_def cost_usd_def bounded_int_def in_range_def
        resource_budget_post_init_def jint_opt_def jopt_def sample_cost_reads(1) [unfolded cost_usd_def, simplified])
  moreover have valid: "valid_policy free_policy"
    by (simp add: valid_policy_def free_policy_def sample_policy_def worker_budget_ok retry_budget_ok
        resource_budget_post_init_def optional_bounded_int_def jint_opt_def jopt_def cost_usd_def bounded_int_JInt)
  ultimately show ?thesis
    using worker_budget_roundtrip [of "bp_workers free_policy"] retry_budget_roundtrip [of "bp_retries free_policy"]
      concurrency_budget_roundtrip [of "bp_concurrency free_policy"]
    by (simp add: budget_policy_from_dict_def budget_policy_dict_def mapping_of_def reject_unknown_none
        policy_metadata_def jget_def valid_policy_def)
qed

end
