(* ===== verification/SchedulerLaws.thy ===== *)
theory SchedulerLaws
  imports Scheduler WorkGraphProps SwarmBudgetLaws
begin

text \<open>
  What the scheduler guarantees: it dispatches only admitted work whose effective dependencies
  have succeeded and whose retries are left, never more than there are free slots, and it never
  deadlocks: with an admitted acyclic graph, no active worker and no exhausted retry budget,
  some item is dispatched until all have succeeded.
\<close>


section \<open>The preliminary states\<close>

definition succeeded :: "codex_run list \<Rightarrow> string \<Rightarrow> bool" where
  "succeeded records w = (case latest_run records w of None \<Rightarrow> False | Some r \<Rightarrow> cr_state r = R_SUCCEEDED)"

definition released :: "codex_run list \<Rightarrow> string list option \<Rightarrow> string \<Rightarrow> bool" where
  "released records integrated d =
     (succeeded records d \<and> (case integrated of None \<Rightarrow> True | Some done \<Rightarrow> d \<in> set done))"

lemma dependency_missing_iff: "dependency_missing records integrated d \<longleftrightarrow> \<not> released records integrated d"
  by (auto simp: dependency_missing_def released_def succeeded_def split: option.splits)

text \<open>
  What makes an item runnable: the plan is ready and admits it, its effective dependencies are
  released, it is neither running nor done, and it has not used up its attempts.
\<close>

definition ready_to_run ::
  "admission_plan \<Rightarrow> codex_run list \<Rightarrow> string list option \<Rightarrow> int \<Rightarrow> string \<Rightarrow> bool" where
  "ready_to_run plan records integrated m w =
     (ap_status plan = PLAN_READY
      \<and> (case admission_of plan w of None \<Rightarrow> False
         | Some item \<Rightarrow> wa_allowed item \<and> list_all (released records integrated) (wa_dependencies item))
      \<and> (case latest_run records w of None \<Rightarrow> True
         | Some r \<Rightarrow> \<not> run_active (cr_state r) \<and> cr_state r \<noteq> R_SUCCEEDED \<and> attempts_of records w < m))"

lemma not_replan: "ap_status plan = PLAN_READY \<longleftrightarrow> ap_status plan \<noteq> PLAN_REPLAN"
  by (cases "ap_status plan") simp_all

lemma preliminary_candidate:
  assumes "preliminary_work plan ids records integrated m w = Inr (k, b)"
  shows "b \<longleftrightarrow> ready_to_run plan records integrated m w"
proof (cases "admission_of plan w")
  case None
  with assms show ?thesis by (simp add: preliminary_work_def)
next
  case (Some item)
  let ?missing = "filter (dependency_missing records integrated) (wa_dependencies item)"
  have empty: "?missing = [] \<longleftrightarrow> list_all (released records integrated) (wa_dependencies item)"
    by (auto simp: filter_empty_conv dependency_missing_iff list_all_iff)
  have exhausted: "exhausted_among ids records m [] = Inr []" by (simp add: exhausted_among_def)
  show ?thesis
    using assms Some empty
    by (cases "?missing = []"; cases "latest_run records w")
      (auto simp: preliminary_work_def ready_to_run_def Let_def res_bind_eq_Inr not_replan exhausted
        run_active_or_terminal split: if_splits)
qed

lemma preliminary_work_id: "preliminary_work plan ids records integrated m w = Inr p \<Longrightarrow> sk_work (fst p) = w"
  by (auto simp: preliminary_work_def Let_def res_bind_eq_Inr scheduled_def split: option.splits if_splits)

lemma preliminary_succeeded:
  assumes "preliminary_work plan ids records integrated m w = Inr (k, b)"
  shows "sk_state k = W_SUCCEEDED \<longleftrightarrow> ap_status plan = PLAN_READY \<and> succeeded records w
    \<and> (\<exists>item. admission_of plan w = Some item \<and> wa_allowed item)"
    and "b \<Longrightarrow> sk_state k = W_PENDING \<or> sk_state k = W_RETRYABLE"
  using assms
  by (auto simp: preliminary_work_def Let_def res_bind_eq_Inr scheduled_def succeeded_def not_replan
      split: option.splits if_splits)

text \<open>How a snapshot is put together.\<close>

definition max_attempts_of :: "swarm_session \<Rightarrow> int" where
  "max_attempts_of s = 1 + yb_restarts (bp_retries (sw_budget s))"

lemma snapshot_cases:
  assumes "compute_scheduler_snapshot sha s plan records integrated = Inr sn"
  obtains (snapshot) order prelim where "admission_current sha s plan" "topological_order (sw_graph s) = Inr order"
    "res_map (preliminary_work plan (map wi_id (wg_items (sw_graph s))) records integrated (max_attempts_of s)) order
       = Inr prelim"
    "0 < wb_active (bp_workers (sw_budget s))"
    "sn_active sn = active_workers records" "sn_max_active sn = wb_active (bp_workers (sw_budget s))"
    "sn_dispatchable sn = take (nat (max 0 (sn_max_active sn - sn_active sn))) (map (sk_work \<circ> fst) (filter snd prelim))"
    "sn_work sn = map (finish_work (sn_dispatchable sn)) prelim"
    "sn_status sn = (if ap_status plan = PLAN_REPLAN then SCHED_REPLAN
       else if list_all (\<lambda>k. sk_state k = W_SUCCEEDED) (sn_work sn) then SCHED_COMPLETED
       else if sn_dispatchable sn \<noteq> [] \<or> sn_active sn \<noteq> 0 then SCHED_READY else SCHED_BLOCKED)"
  using assms
  by (auto simp: compute_scheduler_snapshot_def Let_def res_bind_eq_Inr max_attempts_of_def
      split: if_splits sum.splits)

lemma snapshot_candidates:
  assumes "res_map (preliminary_work plan ids records integrated m) order = Inr prelim"
  shows "map (sk_work \<circ> fst) (filter snd prelim) = filter (ready_to_run plan records integrated m) order"
  using assms
proof (induction order arbitrary: prelim)
  case (Cons w ws)
  then obtain k b rest where "preliminary_work plan ids records integrated m w = Inr (k, b)"
    "res_map (preliminary_work plan ids records integrated m) ws = Inr rest" "prelim = (k, b) # rest"
    by (auto simp: res_bind_eq_Inr)
  moreover from this have "b \<longleftrightarrow> ready_to_run plan records integrated m w" "sk_work k = w"
    using preliminary_candidate preliminary_work_id [of plan ids records integrated m w "(k, b)"] by simp_all
  moreover have "map (sk_work \<circ> fst) (filter snd rest) = filter (ready_to_run plan records integrated m) ws"
    using calculation(2) by (rule Cons.IH)
  ultimately show ?case by (simp add: comp_def)
qed simp


section \<open>The dispatched frontier\<close>

lemma frontier_eq:
  assumes "compute_scheduler_snapshot sha s plan records integrated = Inr sn"
    and "topological_order (sw_graph s) = Inr order"
  shows "sn_dispatchable sn = take (nat (wb_active (bp_workers (sw_budget s)) - active_workers records))
    (filter (ready_to_run plan records integrated (max_attempts_of s)) order)"
  using snapshot_cases [OF assms(1)]
proof cases
  case (1 order' prelim)
  then have "order' = order" using assms(2) by simp
  then show ?thesis using 1 snapshot_candidates [OF 1(3)] by (simp add: max_def)
qed

text \<open>
  C32: the scheduler dispatches exactly the runnable items, in the topological order of the
  graph, cut at the free worker slots: nothing else is dispatched and no runnable item is
  passed over while a slot is free.
\<close>
theorem dispatch_frontier:
  assumes "work_graph_post_init p items meta = Inr (sw_graph s)"
    and "compute_scheduler_snapshot sha s plan records integrated = Inr sn"
  shows "\<exists>order. topological_order (sw_graph s) = Inr order \<and> set order = wi_id ` set items
    \<and> sn_dispatchable sn = take (nat (wb_active (bp_workers (sw_budget s)) - active_workers records))
        (filter (ready_to_run plan records integrated (max_attempts_of s)) order)"
proof (rule accepted_order [OF assms(1)])
  fix order
  assume "topological_order (sw_graph s) = Inr order" "set order = wi_id ` set items"
  with frontier_eq [OF assms(2) this(1)] show ?thesis by (intro exI [of _ order]) simp
qed

text \<open>
  The frontier never holds an item twice, and with it the number of running workers stays
  within the budget unless it already exceeded it.
\<close>
theorem dispatch_within_capacity:
  assumes "work_graph_post_init p items meta = Inr (sw_graph s)"
    and "compute_scheduler_snapshot sha s plan records integrated = Inr sn"
  shows "distinct (sn_dispatchable sn)
    \<and> active_workers records + int (length (sn_dispatchable sn))
        \<le> max (wb_active (bp_workers (sw_budget s))) (active_workers records)"
proof -
  obtain order where "topological_order (sw_graph s) = Inr order" "distinct order"
    by (rule accepted_order [OF assms(1)])
  moreover note frontier_eq [OF assms(2) calculation(1)]
  ultimately show ?thesis by (auto simp: min_def)
qed


section \<open>Progress\<close>

text \<open>The admission covers the graph: every item has an admitted entry whose effective
  dependencies are items of the graph.\<close>

definition plan_edges :: "admission_plan \<Rightarrow> (string \<times> string) set" where
  "plan_edges plan = {(w, d). \<exists>a. admission_of plan w = Some a \<and> d \<in> set (wa_dependencies a)}"

definition plan_covers :: "admission_plan \<Rightarrow> work_graph \<Rightarrow> bool" where
  "plan_covers plan g =
     (ap_status plan = PLAN_READY \<and> list_all wa_allowed (ap_admissions plan)
      \<and> set (map wi_id (wg_items g)) \<subseteq> set (map wa_work (ap_admissions plan))
      \<and> list_all (\<lambda>a. set (wa_dependencies a) \<subseteq> set (map wi_id (wg_items g))) (ap_admissions plan))"

definition retry_left :: "codex_run list \<Rightarrow> int \<Rightarrow> string \<Rightarrow> bool" where
  "retry_left records m w = (case latest_run records w of None \<Rightarrow> True
     | Some r \<Rightarrow> cr_state r = R_SUCCEEDED \<or> run_active (cr_state r) \<or> attempts_of records w < m)"

lemma plan_coversD:
  assumes "plan_covers plan g" and "w \<in> set (map wi_id (wg_items g))"
  obtains a where "admission_of plan w = Some a" "wa_allowed a"
    "set (wa_dependencies a) \<subseteq> set (map wi_id (wg_items g))"
proof -
  have "w \<in> wa_work ` set (ap_admissions plan)" using assms by (auto simp: plan_covers_def)
  then obtain a where a: "admission_of plan w = Some a"
    unfolding admission_of_def using find_row_None [of wa_work w "ap_admissions plan"] by blast
  then have "a \<in> set (ap_admissions plan)" unfolding admission_of_def by (blast dest: find_row_SomeD)
  then show thesis using a assms(1) by (intro that) (auto simp: plan_covers_def list_all_iff)
qed

lemma latest_run_mem: "latest_run records w = Some r \<Longrightarrow> r \<in> set records \<and> cr_work r = w"
  by (auto simp: latest_run_def split: list.splits dest!: arg_cong [where f = set] last_in_set
      simp del: set_filter) (auto simp: filter_eq_Cons_iff)

lemma idle_latest:
  assumes "active_workers records = 0" and "latest_run records w = Some r"
  shows "\<not> run_active (cr_state r)"
  using assms latest_run_mem [OF assms(2)] by (auto simp: active_workers_def filter_empty_conv)

lemma exhausted_among_total:
  assumes "set ds \<subseteq> set ids"
  shows "\<exists>ys. exhausted_among ids records m ds = Inr ys"
proof -
  have "\<forall>d \<in> set ds. res_ok (res_bind (retries_exhausted ids records m d) (\<lambda>b. Inr (d, b)))"
    using assms by (auto simp: retries_exhausted_def split: option.splits)
  from res_map_total [OF this] show ?thesis by (auto simp: exhausted_among_def)
qed

lemma preliminary_total:
  assumes "plan_covers plan g" and "w \<in> set (map wi_id (wg_items g))"
  shows "res_ok (preliminary_work plan (map wi_id (wg_items g)) records integrated m w)"
proof (rule plan_coversD [OF assms])
  fix a assume a: "admission_of plan w = Some a" "set (wa_dependencies a) \<subseteq> set (map wi_id (wg_items g))"
  let ?missing = "filter (dependency_missing records integrated) (wa_dependencies a)"
  have "set ?missing \<subseteq> set (map wi_id (wg_items g))" using a(2) by auto
  then obtain ys where "exhausted_among (map wi_id (wg_items g)) records m ?missing = Inr ys"
    using exhausted_among_total by metis
  then show ?thesis using a(1) by (simp add: preliminary_work_def Let_def)
qed

lemma snapshot_exists:
  assumes "admission_current sha s plan" and "plan_covers plan (sw_graph s)"
    and "topological_order (sw_graph s) = Inr order" and "set order \<subseteq> set (map wi_id (wg_items (sw_graph s)))"
    and "0 < wb_active (bp_workers (sw_budget s))"
  shows "\<exists>sn. compute_scheduler_snapshot sha s plan records integrated = Inr sn"
proof -
  have "\<forall>w \<in> set order. res_ok (preliminary_work plan (map wi_id (wg_items (sw_graph s))) records integrated
      (1 + yb_restarts (bp_retries (sw_budget s))) w)"
    using preliminary_total [OF assms(2)] assms(4) by blast
  from res_map_total [OF this] show ?thesis
    using assms(1,3,5) by (auto simp: compute_scheduler_snapshot_def Let_def)
qed

lemma ready_when_idle:
  assumes "plan_covers plan g" and "w \<in> set (map wi_id (wg_items g))" and "active_workers records = 0"
    and "retry_left records m w" and "\<not> succeeded records w"
    and "\<And>d. (w, d) \<in> plan_edges plan \<Longrightarrow> released records integrated d"
  shows "ready_to_run plan records integrated m w"
proof (rule plan_coversD [OF assms(1,2)])
  fix a assume a: "admission_of plan w = Some a" "wa_allowed a"
  have "list_all (released records integrated) (wa_dependencies a)"
    using assms(6) a(1) by (auto simp: plan_edges_def list_all_iff)
  moreover have "ap_status plan = PLAN_READY" using assms(1) by (simp add: plan_covers_def)
  ultimately show ?thesis
    using a assms(4,5) idle_latest [OF assms(3), of w]
    by (auto simp: ready_to_run_def retry_left_def succeeded_def split: option.splits)
qed

text \<open>What is done is released: without integration gating always, with it once the merge queue
  has integrated every succeeded item.\<close>

definition integration_caught_up :: "codex_run list \<Rightarrow> string list option \<Rightarrow> string list \<Rightarrow> bool" where
  "integration_caught_up records integrated ids =
     (case integrated of None \<Rightarrow> True | Some done \<Rightarrow> list_all (\<lambda>w. succeeded records w \<longrightarrow> w \<in> set done) ids)"

lemma some_item_ready:
  assumes "plan_covers plan g" and "acyclic (plan_edges plan)" and "active_workers records = 0"
    and "list_all (retry_left records m) (map wi_id (wg_items g))"
    and "integration_caught_up records integrated (map wi_id (wg_items g))"
    and "\<not> list_all (succeeded records) (map wi_id (wg_items g))"
  shows "\<exists>w \<in> set (map wi_id (wg_items g)). ready_to_run plan records integrated m w"
proof (rule ccontr)
  assume none: "\<not> ?thesis"
  let ?ids = "set (map wi_id (wg_items g))"
  let ?R = "{w \<in> ?ids. \<not> succeeded records w}"
  have "\<exists>p \<in> ?R. (w, p) \<in> plan_edges plan" if w: "w \<in> ?R" for w
  proof -
    have "\<not> ready_to_run plan records integrated m w" using none w by blast
    then obtain d where d: "(w, d) \<in> plan_edges plan" "\<not> released records integrated d"
      using ready_when_idle [OF assms(1) _ assms(3), of w m integrated] w assms(4)
      by (auto simp: list_all_iff)
    have "w \<in> ?ids" using w by simp
    then have "d \<in> ?ids"
      by (rule plan_coversD [OF assms(1)]) (use d(1) in \<open>auto simp: plan_edges_def\<close>)
    with d(2) have "\<not> succeeded records d"
      using assms(5) by (auto simp: released_def integration_caught_up_def list_all_iff split: option.splits)
    with d(1) \<open>d \<in> ?ids\<close> show ?thesis by blast
  qed
  moreover have "?R \<noteq> {}" using assms(6) by (auto simp: list_all_iff)
  ultimately have "\<not> acyclic (plan_edges plan)" by (intro no_source_cycle [of ?R]) simp_all
  then show False using assms(2) by simp
qed

lemma finish_succeeded:
  assumes "preliminary_work plan ids records integrated m w = Inr p"
  shows "sk_state (finish_work dispatchable p) = W_SUCCEEDED \<longleftrightarrow> ap_status plan = PLAN_READY \<and> succeeded records w
    \<and> (\<exists>item. admission_of plan w = Some item \<and> wa_allowed item)"
proof -
  obtain k b where p: "p = (k, b)" by (cases p)
  note S = preliminary_succeeded [OF assms [unfolded p]]
  show ?thesis using S p by (auto simp: finish_work_def)
qed

lemma completed_iff:
  assumes "plan_covers plan g" and "set order = set (map wi_id (wg_items g))"
    and "res_map (preliminary_work plan ids records integrated m) order = Inr prelim"
  shows "list_all (\<lambda>k. sk_state k = W_SUCCEEDED) (map (finish_work dispatchable) prelim)
    \<longleftrightarrow> list_all (succeeded records) (map wi_id (wg_items g))"
proof -
  have "sk_state (finish_work dispatchable p) = W_SUCCEEDED \<longleftrightarrow> succeeded records w"
    if "w \<in> set order" "preliminary_work plan ids records integrated m w = Inr p" for w p
  proof -
    have "w \<in> set (map wi_id (wg_items g))" using that(1) assms(2) by simp
    then show ?thesis
      by (rule plan_coversD [OF assms(1)])
        (use finish_succeeded [OF that(2), of dispatchable] assms(1) in \<open>simp add: plan_covers_def\<close>)
  qed
  then have "(\<forall>p \<in> set prelim. sk_state (finish_work dispatchable p) = W_SUCCEEDED) \<longleftrightarrow> (\<forall>w \<in> set order. succeeded records w)"
    using res_map_mem [OF assms(3)] res_map_mem' [OF assms(3)] by metis
  then show ?thesis using assms(2) by (simp add: list_all_iff)
qed

text \<open>
  C19: the scheduler does not deadlock: with a current admission that covers an accepted graph,
  acyclic effective dependencies, no running worker, retries left and integration caught up, a
  snapshot exists, and either it dispatches some item and says so, or every item has succeeded
  and it reports completion.
\<close>
theorem scheduler_progress:
  assumes "work_graph_post_init p items meta = Inr (sw_graph s)"
    and "admission_current sha s plan" and "plan_covers plan (sw_graph s)" and "acyclic (plan_edges plan)"
    and "0 < wb_active (bp_workers (sw_budget s))" and "active_workers records = 0"
    and "list_all (retry_left records (max_attempts_of s)) (map wi_id items)"
    and "integration_caught_up records integrated (map wi_id items)"
  shows "\<exists>sn. compute_scheduler_snapshot sha s plan records integrated = Inr sn
    \<and> (if list_all (succeeded records) (map wi_id items) then sn_status sn = SCHED_COMPLETED
       else sn_status sn = SCHED_READY \<and> sn_dispatchable sn \<noteq> [])"
proof -
  obtain order where order: "topological_order (sw_graph s) = Inr order" "set order = wi_id ` set items"
    by (rule accepted_order [OF assms(1)])
  have ids: "set (map wi_id (wg_items (sw_graph s))) = wi_id ` set items"
    using accepted_graph(4) [OF assms(1)] by simp
  then have all: "list_all P (map wi_id (wg_items (sw_graph s))) = list_all P (map wi_id items)" for P
    by (metis list_all_iff set_map)
  have caught: "integration_caught_up records integrated (map wi_id (wg_items (sw_graph s)))"
    using assms(8) all by (simp add: integration_caught_up_def split: option.splits)
  obtain sn where sn: "compute_scheduler_snapshot sha s plan records integrated = Inr sn"
    using snapshot_exists [OF assms(2,3) order(1) _ assms(5), of records integrated] order(2) ids by auto
  show ?thesis
  proof (rule snapshot_cases [OF sn])
    fix order' prelim
    assume top: "topological_order (sw_graph s) = Inr order'"
      and prelim: "res_map (preliminary_work plan (map wi_id (wg_items (sw_graph s))) records integrated
        (max_attempts_of s)) order' = Inr prelim"
      and work: "sn_work sn = map (finish_work (sn_dispatchable sn)) prelim"
      and status: "sn_status sn = (if ap_status plan = PLAN_REPLAN then SCHED_REPLAN
        else if list_all (\<lambda>k. sk_state k = W_SUCCEEDED) (sn_work sn) then SCHED_COMPLETED
        else if sn_dispatchable sn \<noteq> [] \<or> sn_active sn \<noteq> 0 then SCHED_READY else SCHED_BLOCKED)"
    have o': "order' = order" using top order(1) by simp
    have completed: "list_all (\<lambda>k. sk_state k = W_SUCCEEDED) (sn_work sn) \<longleftrightarrow> list_all (succeeded records) (map wi_id items)"
      unfolding work using completed_iff [OF assms(3) _ prelim] order(2) ids all by (simp add: o')
    have "sn_dispatchable sn \<noteq> []" if open_work: "\<not> list_all (succeeded records) (map wi_id items)"
    proof -
      obtain w where "w \<in> set order" "ready_to_run plan records integrated (max_attempts_of s) w"
        using some_item_ready [OF assms(3,4,6) _ caught, of "max_attempts_of s", unfolded all ids, OF assms(7) open_work]
        unfolding order(2) by blast
      then have "filter (ready_to_run plan records integrated (max_attempts_of s)) order \<noteq> []"
        by (auto simp: filter_empty_conv)
      then show ?thesis using frontier_eq [OF sn order(1)] assms(5,6) by simp
    qed
    moreover have "ap_status plan \<noteq> PLAN_REPLAN" using assms(3) by (simp add: plan_covers_def)
    ultimately show ?thesis using sn status completed by auto
  qed
qed


section \<open>A sample session\<close>

definition sample_session :: swarm_session where
  "sample_session = \<lparr>sw_id = ''s'', sw_root = ''/r'', sw_repo = replicate 64 (CHR ''a''),
     sw_commit = replicate 40 (CHR ''b''), sw_branch = ''main'',
     sw_task = \<lparr>rt_title = ''t'', rt_goal = ''g'', rt_acceptance = [''x''], rt_metadata = []\<rparr>,
     sw_target = \<lparr>it_branch = ''main'', it_metadata = []\<rparr>,
     sw_graph = sample_graph, sw_budget = sample_policy, sw_graph_version = 1, sw_budget_version = 1,
     sw_state = SS_PLANNED, sw_created = ''t0'', sw_updated = ''t0'', sw_metadata = []\<rparr>"

definition sample_admission :: "string \<Rightarrow> string list \<Rightarrow> work_admission" where
  "sample_admission w deps = \<lparr>wa_work = w, wa_intent = sample_built, wa_allowed = True, wa_kind = INDEPENDENT,
     wa_dependencies = deps, wa_conflicts = [], wa_constraints = [], wa_notifications = [], wa_guidance = []\<rparr>"

definition sample_plan :: admission_plan where
  "sample_plan = \<lparr>ap_session = ''s'', ap_repo = replicate 64 (CHR ''a''), ap_graph_version = 1,
     ap_graph_fingerprint = ''f'', ap_budget_version = 1, ap_budget_fingerprint = ''f'',
     ap_concurrency_fingerprint = ''f'', ap_status = PLAN_READY,
     ap_admissions = [sample_admission ''a'' [], sample_admission ''b'' [''a''],
       sample_admission ''c'' [''a'', ''b''], sample_admission ''d'' []], ap_metadata = []\<rparr>"

definition sample_run :: "string \<Rightarrow> run_state \<Rightarrow> codex_run" where
  "sample_run w st = \<lparr>cr_id = ''run'', cr_session = ''s'', cr_work = w, cr_attempt = 1, cr_state = st,
     cr_graph_version = 1, cr_graph_fingerprint = ''f'', cr_budget_version = 1, cr_budget_fingerprint = ''f'',
     cr_token_limit = None, cr_usage = \<lparr>us_input = 0, us_cached = 0, us_output = 0, us_reasoning = 0\<rparr>,
     cr_created = ''t1'', cr_updated = ''t1'', cr_reason = None\<rparr>"

lemma sample_session_valid: "valid_graph (sw_graph sample_session)"
  by (simp add: sample_session_def sample_graph_valid)

lemma sample_session_graph: "work_graph_post_init graph_protocol sample_items [] = Inr (sw_graph sample_session)"
  by (simp add: sample_session_def sample_graph_built)

lemma sample_snapshot:
  "\<exists>sn. compute_scheduler_snapshot (\<lambda>_. ''f'') sample_session sample_plan [sample_run ''a'' R_SUCCEEDED] None = Inr sn
     \<and> sn_dispatchable sn = [''b'', ''d''] \<and> sn_active sn = 0"
proof -
  have "(case compute_scheduler_snapshot (\<lambda>_. ''f'') sample_session sample_plan [sample_run ''a'' R_SUCCEEDED] None of
      Inl _ \<Rightarrow> False | Inr sn \<Rightarrow> sn_dispatchable sn = [''b'', ''d''] \<and> sn_active sn = 0)" by code_simp
  then show ?thesis by (simp split: sum.splits)
qed

lemma sample_plan_acyclic: "acyclic (plan_edges sample_plan)"
proof (rule acyclic_subset)
  show "acyclic (item_edges sample_items)"
    using sample_graph_built by (simp add: work_graph_post_init_iff)
  have member: "sample_item ''c'' [''a'', ''b''] \<in> set sample_items" "sample_item ''b'' [''a''] \<in> set sample_items"
    by (simp_all add: sample_items_def)
  then have "{(''c'', ''a''), (''c'', ''b''), (''b'', ''a'')} \<subseteq> item_edges sample_items"
    by (force simp: item_edges_def sample_item_def)
  moreover have "plan_edges sample_plan \<subseteq> {(''c'', ''a''), (''c'', ''b''), (''b'', ''a'')}"
    by (auto simp: plan_edges_def sample_plan_def sample_admission_def admission_of_def find_row_def split: if_splits)
  ultimately show "plan_edges sample_plan \<subseteq> item_edges sample_items" by blast
qed


lemma dispatch_frontier_witness:
  "\<exists>sn order. compute_scheduler_snapshot (\<lambda>_. ''f'') sample_session sample_plan [sample_run ''a'' R_SUCCEEDED] None = Inr sn
     \<and> sn_dispatchable sn = [''b'', ''d'']
     \<and> sn_dispatchable sn = take 4 (filter
         (ready_to_run sample_plan [sample_run ''a'' R_SUCCEEDED] None (max_attempts_of sample_session)) order)"
proof -
  obtain sn where sn: "compute_scheduler_snapshot (\<lambda>_. ''f'') sample_session sample_plan
      [sample_run ''a'' R_SUCCEEDED] None = Inr sn" "sn_dispatchable sn = [''b'', ''d'']"
    using sample_snapshot by blast
  have "nat (wb_active (bp_workers (sw_budget sample_session)) - active_workers [sample_run ''a'' R_SUCCEEDED]) = 4"
    by code_simp
  with dispatch_frontier [OF sample_session_graph sn(1)] sn show ?thesis by metis
qed

lemma dispatch_within_capacity_witness:
  "\<exists>sn. compute_scheduler_snapshot (\<lambda>_. ''f'') sample_session sample_plan [sample_run ''a'' R_SUCCEEDED] None = Inr sn
     \<and> distinct (sn_dispatchable sn)"
  using sample_snapshot dispatch_within_capacity [OF sample_session_graph] by blast

lemma scheduler_progress_witness:
  "\<exists>sn. compute_scheduler_snapshot (\<lambda>_. ''f'') sample_session sample_plan [] None = Inr sn
     \<and> sn_status sn = SCHED_READY \<and> sn_dispatchable sn \<noteq> []"
proof -
  have "\<not> list_all (succeeded []) (map wi_id sample_items)" by code_simp
  moreover have "\<exists>sn. compute_scheduler_snapshot (\<lambda>_. ''f'') sample_session sample_plan [] None = Inr sn
    \<and> (if list_all (succeeded []) (map wi_id sample_items) then sn_status sn = SCHED_COMPLETED
       else sn_status sn = SCHED_READY \<and> sn_dispatchable sn \<noteq> [])"
  proof (rule scheduler_progress [OF sample_session_graph])
    show "admission_current (\<lambda>_. ''f'') sample_session sample_plan" by code_simp
    show "plan_covers sample_plan (sw_graph sample_session)" by code_simp
    show "acyclic (plan_edges sample_plan)" by (rule sample_plan_acyclic)
    show "0 < wb_active (bp_workers (sw_budget sample_session))" "active_workers [] = 0"
      "list_all (retry_left [] (max_attempts_of sample_session)) (map wi_id sample_items)"
      "integration_caught_up [] None (map wi_id sample_items)" by code_simp+
  qed
  ultimately show ?thesis by simp
qed

end
