(* ===== verification/SwarmSessionLaws.thy ===== *)
theory SwarmSessionLaws
  imports SchedulerLaws
begin

text \<open>
  Sessions through time: the JSON form of a session reads back, and replacing the work graph or
  the budget policy of a planned session keeps the graph within the budget and makes every
  earlier shared admission stale, so that nothing is scheduled under outdated authority.
\<close>


section \<open>Reading a session back\<close>

definition valid_session :: "swarm_session \<Rightarrow> bool" where
  "valid_session s \<longleftrightarrow> root_task_post_init (sw_task s) = Inr (sw_task s)
     \<and> integration_target_post_init (sw_target s) = Inr (sw_target s)
     \<and> valid_graph (sw_graph s) \<and> valid_policy (sw_budget s)
     \<and> rb_tokens (bp_resources (sw_budget s)) \<noteq> None \<and> rb_cost (bp_resources (sw_budget s)) \<noteq> None
     \<and> session_post_init s = Inr s"

lemma enum_of_session_state [simp]:
  "enum_of session_state_value all_session_states (JStr (session_state_value st)) = Inr st"
  by (cases st) (simp_all add: enum_of_def all_session_states_def)

lemma session_state_value_nonempty [simp]: "session_state_value st \<noteq> []"
  by (cases st) simp_all

lemma lift_read_Inr [simp]: "lift_read (Inr a) = Inr a"
  by (simp add: lift_read_def lift_codec_def)

lemma dicts_truthy [simp]:
  "truthy (root_task_dict t)" "truthy (integration_target_dict i)" "truthy (work_graph_dict g)"
  "truthy (budget_policy_dict p)"
  by (simp_all add: root_task_dict_def integration_target_dict_def work_graph_dict_def budget_policy_dict_def)

text \<open>
  C34: a constructed session whose policy sets both optional ceilings, written with
  \<open>to_dict\<close> and read with \<open>from_dict\<close>, is the same session, with its graph, its policy, its
  versions and its state.
\<close>
theorem session_roundtrip:
  assumes "valid_session s"
  shows "session_from_dict (session_dict sha s) = Inr s"
proof -
  note V = assms [unfolded valid_session_def]
  obtain data where data: "session_dict sha s = JObj data" by (simp add: session_dict_def)
  have get: "jget data ''protocol'' = JStr session_protocol" "jget data ''session_id'' = JStr (sw_id s)"
    "jget data ''repository_root'' = JStr (sw_root s)" "jget data ''repository_identity'' = JStr (sw_repo s)"
    "jget data ''base_commit'' = JStr (sw_commit s)" "jget data ''base_branch'' = JStr (sw_branch s)"
    "jget data ''created_at'' = JStr (sw_created s)" "jget data ''updated_at'' = JStr (sw_updated s)"
    "jget data ''root_task'' = root_task_dict (sw_task s)"
    "jget data ''integration_target'' = integration_target_dict (sw_target s)"
    "jget data ''state'' = JStr (session_state_value (sw_state s))"
    "jget data ''graph_version'' = JInt (sw_graph_version s)"
    "jget data ''work_graph'' = work_graph_dict (sw_graph s)"
    "jget data ''budget_version'' = JInt (sw_budget_version s)"
    "jget data ''budget_policy'' = budget_policy_dict (sw_budget s)"
    "jget data ''metadata'' = JObj (sw_metadata s)"
    using data by (auto simp: session_dict_def jget_def)
  have parts: "root_task_from_dict (root_task_dict (sw_task s)) = Inr (sw_task s)"
    "integration_target_from_dict (integration_target_dict (sw_target s)) = Inr (sw_target s)"
    "work_graph_from_dict (work_graph_dict (sw_graph s)) = Inr (sw_graph s)"
    "budget_policy_from_dict (budget_policy_dict (sw_budget s)) = Inr (sw_budget s)"
    using V root_task_dict_roundtrip integration_target_dict_roundtrip work_graph_roundtrip
      budget_policy_roundtrip by blast+
  have versions: "0 < sw_graph_version s" "0 < sw_budget_version s"
    using V by (auto simp: session_post_init_def res_bind_eq_Inr split: if_splits)
  have again: "session_post_init \<lparr>sw_id = sw_id s, sw_root = sw_root s, sw_repo = sw_repo s,
      sw_commit = sw_commit s, sw_branch = sw_branch s, sw_task = sw_task s, sw_target = sw_target s,
      sw_graph = sw_graph s, sw_budget = sw_budget s, sw_graph_version = sw_graph_version s,
      sw_budget_version = sw_budget_version s, sw_state = sw_state s, sw_created = sw_created s,
      sw_updated = sw_updated s, sw_metadata = sw_metadata s\<rparr> = Inr s"
    using V by (cases s) simp
  have ints: "get_int data ''graph_version'' 0 = Inr (sw_graph_version s)"
    "get_int data ''budget_version'' 1 = Inr (sw_budget_version s)"
    using versions by (simp_all add: get_int_def get)
  have texts: "get_str data ''session_id'' = sw_id s" "get_str data ''repository_root'' = sw_root s"
    "get_str data ''repository_identity'' = sw_repo s" "get_str data ''base_commit'' = sw_commit s"
    "get_str data ''base_branch'' = sw_branch s" "get_str data ''created_at'' = sw_created s"
    "get_str data ''updated_at'' = sw_updated s"
    by (simp_all add: get_str_text get)
  show ?thesis
    using parts again ints texts
    by (simp add: session_from_dict_def data get get_object_def get_dict_obj session_protocol_def)
qed


section \<open>Replacing the graph or the budget\<close>

inductive session_edit :: "swarm_session \<Rightarrow> swarm_session \<Rightarrow> bool" where
  edit_graph: "with_graph g now s = Inr s' \<Longrightarrow> session_edit s s'"
| edit_budget: "with_budget_policy p now s = Inr s' \<Longrightarrow> session_edit s s'"

lemma session_post_init_keeps:
  assumes "session_post_init s = Inr s'"
  shows "sw_graph_version s' = sw_graph_version s \<and> sw_budget_version s' = sw_budget_version s
    \<and> validate_work_item_count (sw_budget s') (int (length (wg_items (sw_graph s')))) = Inr ()"
  using assms by (auto simp: session_post_init_def res_bind_eq_Inr split: if_splits)

lemma session_edit_version:
  assumes "session_edit s s'"
  shows "sw_graph_version s + sw_budget_version s < sw_graph_version s' + sw_budget_version s'
    \<and> validate_work_item_count (sw_budget s') (int (length (wg_items (sw_graph s')))) = Inr ()"
  using assms
proof cases
  case (edit_graph g now)
  then have "session_post_init (s\<lparr>sw_graph := g, sw_graph_version := sw_graph_version s + 1, sw_updated := now\<rparr>) = Inr s'"
    by (auto simp: with_graph_def res_bind_eq_Inr split: if_splits)
  from session_post_init_keeps [OF this] show ?thesis by simp
next
  case (edit_budget p now)
  then have "session_post_init (s\<lparr>sw_budget := p, sw_budget_version := sw_budget_version s + 1, sw_updated := now\<rparr>) = Inr s'"
    by (auto simp: with_budget_policy_def res_bind_eq_Inr split: if_splits)
  from session_post_init_keeps [OF this] show ?thesis by simp
qed

lemma session_edits_version:
  assumes "session_edit\<^sup>+\<^sup>+ s s'"
  shows "sw_graph_version s + sw_budget_version s < sw_graph_version s' + sw_budget_version s'
    \<and> validate_work_item_count (sw_budget s') (int (length (wg_items (sw_graph s')))) = Inr ()"
  using assms
proof (induction rule: tranclp_induct)
  case (base y)
  then show ?case using session_edit_version by simp
next
  case (step y z)
  then show ?case using session_edit_version [of y z] by linarith
qed

text \<open>
  Replacing the graph or the budget of a session, any number of times, leaves a graph that
  fits the budget in items and launches, and every admission that was current before is refused
  by the scheduler afterwards.
\<close>
theorem edits_make_admission_stale:
  assumes "session_edit\<^sup>+\<^sup>+ s s'" and "admission_current sha s plan"
  shows "compute_scheduler_snapshot sha s' plan records integrated = Inl StaleAdmission
    \<and> int (length (wg_items (sw_graph s'))) \<le> wb_items (bp_workers (sw_budget s'))
    \<and> int (length (wg_items (sw_graph s'))) \<le> wb_launches (bp_workers (sw_budget s'))"
proof -
  note E = session_edits_version [OF assms(1)]
  have "\<not> admission_current sha s' plan" using E assms(2) by (auto simp: admission_current_def)
  then show ?thesis
    using E by (auto simp: compute_scheduler_snapshot_def validate_work_item_count_def split: if_splits)
qed


section \<open>Samples\<close>

lemma session_roundtrip_witness:
  "session_from_dict (session_dict (\<lambda>_. ''f'') sample_session) = Inr sample_session"
proof (rule session_roundtrip)
  have texts: "strip (replicate 64 (CHR ''a'')) = replicate 64 (CHR ''a'')"
    "strip (replicate 40 (CHR ''b'')) = replicate 40 (CHR ''b'')" "hex_between 40 64 (replicate 40 (CHR ''b''))"
    "lower (replicate 40 (CHR ''b'')) = replicate 40 (CHR ''b'')" "strip ''s'' = ''s''" "strip ''/r'' = ''/r''"
    "strip ''main'' = ''main''" "strip ''t0'' = ''t0''" by code_simp+
  have count: "res_ok (validate_work_item_count sample_policy (int (length (wg_items sample_graph))))"
    unfolding sample_graph_def by (simp add: sample_items_def) code_simp
  have "session_post_init sample_session = Inr sample_session"
    using count by (auto simp: session_post_init_def sample_session_def clean_text_def Let_def texts res_ok_def
        split: sum.splits)
  moreover have "root_task_post_init (sw_task sample_session) = Inr (sw_task sample_session)"
    "integration_target_post_init (sw_target sample_session) = Inr (sw_target sample_session)"
    unfolding sample_session_def by (simp_all only: swarm_session.simps) code_simp+
  moreover have "valid_graph (sw_graph sample_session)" by (rule sample_session_valid)
  moreover have "valid_policy (sw_budget sample_session)"
    "rb_tokens (bp_resources (sw_budget sample_session)) \<noteq> None"
    "rb_cost (bp_resources (sw_budget sample_session)) \<noteq> None"
    using sample_policy_valid by (simp_all add: sample_session_def sample_policy_def)
  ultimately show "valid_session sample_session" by (simp add: valid_session_def)
qed

lemma edits_make_admission_stale_witness:
  "\<exists>s'. with_graph sample_graph ''t2'' sample_session = Inr s'
     \<and> compute_scheduler_snapshot (\<lambda>_. ''f'') s' sample_plan [] None = Inl StaleAdmission"
proof -
  have "res_ok (with_graph sample_graph ''t2'' sample_session)" by code_simp
  then obtain s' where s': "with_graph sample_graph ''t2'' sample_session = Inr s'"
    by (auto simp: res_ok_def split: sum.splits)
  then have "session_edit\<^sup>+\<^sup>+ sample_session s'" by (intro tranclp.r_into_trancl edit_graph)
  moreover have "admission_current (\<lambda>_. ''f'') sample_session sample_plan" by code_simp
  ultimately show ?thesis using s' edits_make_admission_stale by blast
qed

end
