(* ===== verification/MergeQueueLaws.thy ===== *)
theory MergeQueueLaws
  imports MergeQueue SchedulerLaws
begin

text \<open>
  What integration may rely on: an entry becomes ready only when everything it depends on is
  integrated, a refresh never takes onto what was integrated, claimed or found in conflict,
  the entries follow the topological order, and the queue does not get stuck.
\<close>


section \<open>The computed entries\<close>

lemma queue_entry_kept:
  assumes "queue_entry plan records worktrees previous (i, w) = Inr e"
    and "find_row me_work w previous = Some old" and "kept_state (me_state old)"
  shows "e = old"
  using assms by (auto simp: queue_entry_def Let_def split: option.splits)

lemma queue_entry_fresh:
  assumes "queue_entry plan records worktrees previous (i, w) = Inr e"
    and "\<And>old. find_row me_work w previous = Some old \<Longrightarrow> \<not> kept_state (me_state old)"
  obtains item where "admission_of plan w = Some item"
    "me_state e = fst (entry_verdict item (worktree_of worktrees w) (latest_successful_run records w)
       (filter (\<lambda>d. d \<notin> set (integrated_in previous)) (wa_dependencies item)))"
    "me_work e = strip w" "me_order e = int i" "me_dependencies e = sorted_set (wa_dependencies item)"
    "me_run e = map_option cr_id (latest_successful_run records w)" "me_integration e = None"
proof -
  obtain item where item: "admission_of plan w = Some item"
    using assms(1) by (auto simp: queue_entry_def split: option.splits)
  let ?v = "entry_verdict item (worktree_of worktrees w) (latest_successful_run records w)
    (filter (\<lambda>d. d \<notin> set (integrated_in previous)) (wa_dependencies item))"
  have run: "\<exists>br src. entry_post_init \<lparr>me_work = w, me_order = int i, me_dependencies = wa_dependencies item,
      me_branch = br, me_state = fst ?v, me_run = map_option cr_id (latest_successful_run records w),
      me_source = src, me_integration = None, me_conflicts = [], me_evidence = None, me_detail = snd ?v\<rparr> = Inr e"
    using assms item unfolding queue_entry_def Let_def
    by (cases "find_row me_work w previous") auto
  then show thesis
    using item by (elim exE)
      (rule that, auto simp: entry_post_init_def queue_text_def clean_text_def object_id_opt_def Let_def
        res_bind_eq_Inr split: if_splits sum.splits)
qed

lemma entry_verdict_ready:
  "fst (entry_verdict item t r missing) = ME_READY \<longleftrightarrow> wa_allowed item \<and> t \<noteq> None \<and> r \<noteq> None \<and> missing = []"
  by (simp add: entry_verdict_def)

lemma entry_verdict_open: "\<not> kept_state (fst (entry_verdict item t r missing))"
  by (simp add: entry_verdict_def kept_state_def)

lemma compute_queue_cases:
  assumes "compute_merge_queue sha sha_text resolve s plan records worktrees root head now previous = Inr q"
  obtains order entries where "topological_order (sw_graph s) = Inr order"
    "res_map (queue_entry plan records worktrees (case previous of None \<Rightarrow> [] | Some p \<Rightarrow> mq_entries p))
       (enumerate 0 order) = Inr entries"
    "mq_entries q = sort_key me_order entries" "mq_status q = queue_status_of entries"
    "distinct (map me_work (mq_entries q))" "map me_order (mq_entries q) = map int [0..<length (mq_entries q)]"
  using assms
  by (auto simp: compute_merge_queue_def queue_post_init_def Let_def res_bind_eq_Inr split: if_splits sum.splits
      option.splits)

lemma item_id_clean:
  assumes "work_item_post_init x = Inr x"
  shows "strip (wi_id x) = wi_id x"
proof -
  obtain t where "clean_text ''work_id'' (wi_id x) = Inr t" "wi_id x = t"
    using assms by (auto simp: work_item_post_init_def res_bind_eq_Inr dest!: arg_cong [where f = wi_id] split: if_splits)
  then show ?thesis by (auto simp: clean_text_def Let_def split: if_splits)
qed

lemma valid_graph_ids: "valid_graph g \<Longrightarrow> w \<in> set (map wi_id (wg_items g)) \<Longrightarrow> strip w = w"
  by (auto simp: valid_graph_def list_all_iff valid_item_def item_id_clean)

lemma valid_graph_order:
  assumes "valid_graph g" and "topological_order g = Inr order"
  shows "distinct order" and "set order = set (map wi_id (wg_items g))"
proof -
  have "work_graph_post_init graph_protocol (wg_items g) (wg_metadata g) = Inr g"
    using assms(1) by (simp add: valid_graph_def)
  from accepted_order [OF this] obtain ord where "topological_order g = Inr ord" "distinct ord"
    "set ord = wi_id ` set (wg_items g)" .
  then show "distinct order" "set order = set (map wi_id (wg_items g))" using assms(2) by simp_all
qed

lemma queue_entry_work:
  assumes "queue_entry plan records worktrees previous (i, w) = Inr e" and "strip w = w"
  shows "me_work e = w"
proof (cases "\<exists>old. find_row me_work w previous = Some old \<and> kept_state (me_state old)")
  case True
  then obtain old where old: "find_row me_work w previous = Some old" "kept_state (me_state old)" by blast
  with queue_entry_kept [OF assms(1) old] find_row_SomeD [OF old(1)] show ?thesis by simp
next
  case False
  then have "\<And>old. find_row me_work w previous = Some old \<Longrightarrow> \<not> kept_state (me_state old)" by blast
  then show ?thesis by (rule queue_entry_fresh [OF assms(1)]) (metis assms(2))+
qed

lemma enumerate_mem: "(i, w) \<in> set (enumerate 0 order) \<Longrightarrow> w \<in> set order"
  by (auto simp: in_set_enumerate_eq)

lemma mem_enumerate: "w \<in> set order \<Longrightarrow> \<exists>i. (i, w) \<in> set (enumerate 0 order)"
  by (metis add_0 in_set_conv_nth in_set_enumerate_eq nat_le_linear le0 prod.sel length_enumerate
      nth_enumerate_eq nth_mem)

text \<open>What a ready entry rests on.\<close>

definition entry_released ::
  "admission_plan \<Rightarrow> codex_run list \<Rightarrow> managed_worktree list \<Rightarrow> merge_entry list \<Rightarrow> string \<Rightarrow> bool" where
  "entry_released plan records worktrees previous w =
     (case admission_of plan w of None \<Rightarrow> False
      | Some item \<Rightarrow> wa_allowed item \<and> worktree_of worktrees w \<noteq> None \<and> latest_successful_run records w \<noteq> None
          \<and> list_all (\<lambda>d. d \<in> set (integrated_in previous)) (wa_dependencies item))"

definition queue_kept :: "merge_entry list \<Rightarrow> string \<Rightarrow> bool" where
  "queue_kept previous w = (case find_row me_work w previous of None \<Rightarrow> False | Some old \<Rightarrow> kept_state (me_state old))"

text \<open>The state of each computed entry.\<close>

lemma queue_entry_state:
  assumes "queue_entry plan records worktrees previous (i, w) = Inr e"
  shows "queue_kept previous w \<Longrightarrow> find_row me_work w previous = Some e \<and> kept_state (me_state e)"
    and "\<not> queue_kept previous w \<Longrightarrow> (me_state e = ME_READY \<longleftrightarrow> entry_released plan records worktrees previous w)
      \<and> \<not> kept_state (me_state e)"
proof -
  assume "queue_kept previous w"
  then obtain old where old: "find_row me_work w previous = Some old" "kept_state (me_state old)"
    by (auto simp: queue_kept_def split: option.splits)
  with queue_entry_kept [OF assms old] show "find_row me_work w previous = Some e \<and> kept_state (me_state e)" by simp
next
  assume fresh: "\<not> queue_kept previous w"
  obtain item where item: "admission_of plan w = Some item"
    "me_state e = fst (entry_verdict item (worktree_of worktrees w) (latest_successful_run records w)
       (filter (\<lambda>d. d \<notin> set (integrated_in previous)) (wa_dependencies item)))"
    by (rule queue_entry_fresh [OF assms]) (use fresh in \<open>auto simp: queue_kept_def\<close>)
  have "filter (\<lambda>d. d \<notin> set (integrated_in previous)) (wa_dependencies item) = []
      \<longleftrightarrow> list_all (\<lambda>d. d \<in> set (integrated_in previous)) (wa_dependencies item)"
    by (simp add: filter_empty_conv list_all_iff)
  then show "(me_state e = ME_READY \<longleftrightarrow> entry_released plan records worktrees previous w) \<and> \<not> kept_state (me_state e)"
    using item entry_verdict_open by (simp add: entry_verdict_ready entry_released_def)
qed

lemma queue_rows:
  assumes "valid_graph (sw_graph s)"
    and "compute_merge_queue sha sha_text resolve s plan records worktrees root head now previous = Inr q"
    and "old = (case previous of None \<Rightarrow> [] | Some p \<Rightarrow> mq_entries p)"
  obtains order entries where "set (mq_entries q) = set entries" "mq_status q = queue_status_of entries"
    "set order = set (map wi_id (wg_items (sw_graph s)))"
    "\<And>e. e \<in> set entries \<Longrightarrow> me_work e \<in> set order \<and> (\<exists>i. queue_entry plan records worktrees old (i, me_work e) = Inr e)"
    "\<And>w. w \<in> set order \<Longrightarrow> \<exists>e \<in> set entries. me_work e = w \<and> (\<exists>i. queue_entry plan records worktrees old (i, w) = Inr e)"
proof (rule compute_queue_cases [OF assms(2)])
  fix order entries
  assume top: "topological_order (sw_graph s) = Inr order"
    and rows: "res_map (queue_entry plan records worktrees (case previous of None \<Rightarrow> [] | Some p \<Rightarrow> mq_entries p))
       (enumerate 0 order) = Inr entries"
    and sorted: "mq_entries q = sort_key me_order entries" "mq_status q = queue_status_of entries"
  note rows = rows [folded assms(3)]
  note ids = valid_graph_order [OF assms(1) top]
  have work: "me_work e = w" if "queue_entry plan records worktrees old (i, w) = Inr e" "w \<in> set order" for e i w
    using that ids(2) queue_entry_work valid_graph_ids [OF assms(1)] by blast
  show thesis
  proof (rule that [of entries order])
    show "set (mq_entries q) = set entries" "mq_status q = queue_status_of entries"
      "set order = set (map wi_id (wg_items (sw_graph s)))" using sorted ids by simp_all
  next
    fix e assume "e \<in> set entries"
    then obtain i w where "(i, w) \<in> set (enumerate 0 order)" "queue_entry plan records worktrees old (i, w) = Inr e"
      using res_map_mem [OF rows] by (metis surj_pair)
    then show "me_work e \<in> set order \<and> (\<exists>i. queue_entry plan records worktrees old (i, me_work e) = Inr e)"
      using work enumerate_mem by metis
  next
    fix w assume w: "w \<in> set order"
    then obtain i where "(i, w) \<in> set (enumerate 0 order)" using mem_enumerate by metis
    then obtain e where "e \<in> set entries" "queue_entry plan records worktrees old (i, w) = Inr e"
      using res_map_mem' [OF rows] by auto
    then show "\<exists>e \<in> set entries. me_work e = w \<and> (\<exists>i. queue_entry plan records worktrees old (i, w) = Inr e)"
      using work w by blast
  qed
qed



section \<open>Refreshing the queue\<close>

lemma entry_in_queue: "find_row me_work w old = Some e \<Longrightarrow> e \<in> set old \<and> me_work e = w"
  by (rule find_row_SomeD)

text \<open>
  C17: the queue computed for a valid graph holds exactly one entry for every work item, in the
  positions 0, 1, 2, and so on; an entry that was integrated, claimed or in conflict before is
  carried over unchanged; any other entry is ready exactly when its item is admitted,
  provisioned and executed and all its effective dependencies were integrated before.
\<close>
theorem merge_queue_respects_dependencies:
  assumes "valid_graph (sw_graph s)"
    and "compute_merge_queue sha sha_text resolve s plan records worktrees root head now previous = Inr q"
    and "old = (case previous of None \<Rightarrow> [] | Some p \<Rightarrow> mq_entries p)"
  shows "me_work ` set (mq_entries q) = wi_id ` set (wg_items (sw_graph s))
    \<and> distinct (map me_work (mq_entries q))
    \<and> map me_order (mq_entries q) = map int [0..<length (mq_entries q)]
    \<and> list_all (\<lambda>e. if queue_kept old (me_work e) then find_row me_work (me_work e) old = Some e
        else (me_state e = ME_READY) = entry_released plan records worktrees old (me_work e)) (mq_entries q)"
proof (rule queue_rows [OF assms])
  fix order entries
  assume q: "set (mq_entries q) = set entries" "set order = set (map wi_id (wg_items (sw_graph s)))"
    and rows: "\<And>e. e \<in> set entries \<Longrightarrow> me_work e \<in> set order
      \<and> (\<exists>i. queue_entry plan records worktrees old (i, me_work e) = Inr e)"
    and onto: "\<And>w. w \<in> set order \<Longrightarrow> \<exists>e \<in> set entries. me_work e = w
      \<and> (\<exists>i. queue_entry plan records worktrees old (i, w) = Inr e)"
  have "me_work ` set entries = set order" using rows onto by (fastforce simp: image_iff)
  moreover have "if queue_kept old (me_work e) then find_row me_work (me_work e) old = Some e
      else (me_state e = ME_READY) = entry_released plan records worktrees old (me_work e)"
    if "e \<in> set entries" for e
    using rows [OF that] queue_entry_state by (metis (no_types))
  moreover have "distinct (map me_work (mq_entries q))"
    "map me_order (mq_entries q) = map int [0..<length (mq_entries q)]"
    by (rule compute_queue_cases [OF assms(2)]; assumption)+
  ultimately show ?thesis using q by (simp add: list_all_iff)
qed

text \<open>What is ready to be merged: every item executed and provisioned, none claimed or in conflict.\<close>

definition all_executed :: "codex_run list \<Rightarrow> managed_worktree list \<Rightarrow> merge_entry list \<Rightarrow> string list \<Rightarrow> bool" where
  "all_executed records worktrees old ids =
     list_all (\<lambda>w. worktree_of worktrees w \<noteq> None \<and> latest_successful_run records w \<noteq> None
       \<and> (queue_kept old w \<longrightarrow> w \<in> set (integrated_in old))) ids"

lemma integrated_kept:
  assumes "keys_unique me_work old" and "w \<in> set (integrated_in old)"
  shows "queue_kept old w \<and> (\<exists>e. find_row me_work w old = Some e \<and> me_state e = ME_INTEGRATED)"
proof -
  obtain e where "e \<in> set old" "me_work e = w" "me_state e = ME_INTEGRATED"
    using assms(2) by (auto simp: integrated_in_def)
  moreover from this have "find_row me_work w old = Some e" using find_row_unique [OF assms(1)] by blast
  ultimately show ?thesis by (simp add: queue_kept_def kept_state_def)
qed

lemma some_entry_released:
  assumes "plan_covers plan g" and "acyclic (plan_edges plan)" and "keys_unique me_work old"
    and "all_executed records worktrees old (map wi_id (wg_items g))"
    and "\<not> set (map wi_id (wg_items g)) \<subseteq> set (integrated_in old)"
  shows "\<exists>w \<in> set (map wi_id (wg_items g)). \<not> queue_kept old w \<and> entry_released plan records worktrees old w"
proof (rule ccontr)
  assume none: "\<not> ?thesis"
  let ?R = "{w \<in> set (map wi_id (wg_items g)). w \<notin> set (integrated_in old)}"
  have "\<exists>p \<in> ?R. (w, p) \<in> plan_edges plan" if w: "w \<in> ?R" for w
  proof -
    have mem: "w \<in> set (map wi_id (wg_items g))" using w by simp
    obtain a where a: "admission_of plan w = Some a" "wa_allowed a"
      "set (wa_dependencies a) \<subseteq> set (map wi_id (wg_items g))" by (rule plan_coversD [OF assms(1) mem])
    have "\<not> queue_kept old w" "worktree_of worktrees w \<noteq> None" "latest_successful_run records w \<noteq> None"
      using assms(4) w by (auto simp: all_executed_def list_all_iff)
    moreover from this have "\<not> entry_released plan records worktrees old w" using none mem by blast
    ultimately obtain d where "d \<in> set (wa_dependencies a)" "d \<notin> set (integrated_in old)"
      using a(1,2) by (auto simp: entry_released_def list_all_iff)
    then show ?thesis using a by (auto simp: plan_edges_def)
  qed
  moreover have "?R \<noteq> {}" using assms(5) by blast
  ultimately have "\<not> acyclic (plan_edges plan)" by (intro no_source_cycle [of ?R]) simp_all
  then show False using assms(2) by simp
qed

text \<open>
  C18: the merge queue does not get stuck: when the admission covers the graph, its effective
  dependencies are acyclic and every item is executed and provisioned with none claimed or in
  conflict, a refreshed queue has a ready entry and says so, until everything is integrated and
  the queue is completed.
\<close>
theorem merge_queue_progress:
  assumes "valid_graph (sw_graph s)" and "plan_covers plan (sw_graph s)" and "acyclic (plan_edges plan)"
    and "old = (case previous of None \<Rightarrow> [] | Some p \<Rightarrow> mq_entries p)" and "keys_unique me_work old"
    and "all_executed records worktrees old (map wi_id (wg_items (sw_graph s)))"
    and "compute_merge_queue sha sha_text resolve s plan records worktrees root head now previous = Inr q"
  shows "if set (map wi_id (wg_items (sw_graph s))) \<subseteq> set (integrated_in old)
    then mq_status q = MQ_COMPLETED
    else mq_status q = MQ_READY \<and> list_ex (\<lambda>e. me_state e = ME_READY) (mq_entries q)"
proof (rule queue_rows [OF assms(1,7,4)])
  let ?ids = "set (map wi_id (wg_items (sw_graph s)))"
  fix order entries
  assume q: "set (mq_entries q) = set entries" "mq_status q = queue_status_of entries" "set order = ?ids"
    and rows: "\<And>e. e \<in> set entries \<Longrightarrow> me_work e \<in> set order
      \<and> (\<exists>i. queue_entry plan records worktrees old (i, me_work e) = Inr e)"
    and onto: "\<And>w. w \<in> set order \<Longrightarrow> \<exists>e \<in> set entries. me_work e = w
      \<and> (\<exists>i. queue_entry plan records worktrees old (i, w) = Inr e)"
  have calm: "me_state e = ME_INTEGRATED \<or> \<not> kept_state (me_state e)" if e: "e \<in> set entries" for e
  proof -
    obtain i where i: "queue_entry plan records worktrees old (i, me_work e) = Inr e" using rows [OF e] by blast
    show ?thesis
    proof (cases "queue_kept old (me_work e)")
      case True
      then have "me_work e \<in> set (integrated_in old)"
        using assms(6) rows [OF e] q(3) by (auto simp: all_executed_def list_all_iff)
      from integrated_kept [OF assms(5) this] queue_entry_state(1) [OF i True] show ?thesis by auto
    next
      case False
      with queue_entry_state(2) [OF i] show ?thesis by blast
    qed
  qed
  have quiet: "\<not> list_ex (\<lambda>e. me_state e = ME_CONFLICT) entries" "\<not> list_ex (\<lambda>e. me_state e = ME_INTEGRATING) entries"
    using calm by (fastforce simp: list_ex_iff kept_state_def)+
  have nonempty: "entries \<noteq> []"
  proof -
    have "wg_items (sw_graph s) \<noteq> []" using assms(1) by (auto simp: valid_graph_def work_graph_post_init_def)
    then have "set order \<noteq> {}" using q(3) by simp
    then show ?thesis using onto by fastforce
  qed
  show ?thesis
  proof (cases "?ids \<subseteq> set (integrated_in old)")
    case True
    have "me_state e = ME_INTEGRATED" if e: "e \<in> set entries" for e
    proof -
      have "me_work e \<in> set (integrated_in old)" using rows [OF e] q(3) True by blast
      from integrated_kept [OF assms(5) this] obtain x where x: "queue_kept old (me_work e)"
        "find_row me_work (me_work e) old = Some x" "me_state x = ME_INTEGRATED" by blast
      obtain i where "queue_entry plan records worktrees old (i, me_work e) = Inr e" using rows [OF e] by blast
      from queue_entry_state(1) [OF this x(1)] x(2,3) show ?thesis by simp
    qed
    then show ?thesis using True quiet nonempty by (simp add: q(2) queue_status_of_def list_all_iff)
  next
    case False
    obtain w where w: "w \<in> ?ids" "\<not> queue_kept old w" "entry_released plan records worktrees old w"
      using some_entry_released [OF assms(2,3,5,6) False] by blast
    then obtain e i where e: "e \<in> set entries" "me_work e = w" "queue_entry plan records worktrees old (i, w) = Inr e"
      using onto q(3) by blast
    have "me_state e = ME_READY" using queue_entry_state(2) [OF e(3) w(2)] w(3) by blast
    then show ?thesis
      using False quiet e(1) q(1) by (auto simp: q(2) queue_status_of_def list_ex_iff list_all_iff)
  qed
qed



section \<open>A sample queue\<close>

definition sample_worktree :: "string \<Rightarrow> managed_worktree" where
  "sample_worktree w = \<lparr>mw_session = ''s'', mw_work = w, mw_repo = replicate 64 (CHR ''a''), mw_graph_version = 1,
     mw_graph_fingerprint = replicate 64 (CHR ''c''), mw_base = replicate 40 (CHR ''b''),
     mw_branch = ''claim-plane/swarm/s/w'', mw_path = ''/r/w'', mw_created = ''t0'', mw_updated = ''t0'',
     mw_state = WT_PROVISIONED, mw_worker = None, mw_intent = None, mw_metadata = []\<rparr>"

definition sample_executed :: "codex_run list" where
  "sample_executed = map (\<lambda>w. sample_run w R_SUCCEEDED) [''a'', ''b'', ''c'', ''d'']"

definition sample_worktrees :: "managed_worktree list" where
  "sample_worktrees = map sample_worktree [''a'', ''b'', ''c'', ''d'']"

abbreviation hex64 :: "'a \<Rightarrow> string" where
  "hex64 \<equiv> (\<lambda>_. replicate 64 (CHR ''c''))"

definition first_queue :: "queue_error + merge_queue" where
  "first_queue = compute_merge_queue hex64 hex64 id sample_session sample_plan sample_executed sample_worktrees
     ''/r'' (replicate 40 (CHR ''b'')) ''t1'' None"

lemma first_queue_built: "\<exists>q. first_queue = Inr q \<and> map me_state (mq_entries q) = [ME_READY, ME_BLOCKED, ME_BLOCKED, ME_READY]"
proof -
  have "(case first_queue of Inl _ \<Rightarrow> False
     | Inr q \<Rightarrow> map me_state (mq_entries q) = [ME_READY, ME_BLOCKED, ME_BLOCKED, ME_READY])" by code_simp
  then show ?thesis by (auto split: sum.splits)
qed

lemma merge_queue_respects_dependencies_witness:
  "\<exists>q. first_queue = Inr q \<and> me_work ` set (mq_entries q) = wi_id ` set (wg_items (sw_graph sample_session))
     \<and> distinct (map me_work (mq_entries q))"
proof -
  obtain q where q: "first_queue = Inr q" using first_queue_built by blast
  note all = merge_queue_respects_dependencies [OF sample_session_valid q [unfolded first_queue_def] refl]
  show ?thesis using q conjunct1 [OF all] conjunct1 [OF conjunct2 [OF all]] by blast
qed

lemma merge_queue_progress_witness: "\<exists>q. first_queue = Inr q \<and> mq_status q = MQ_READY"
proof -
  obtain q where q: "first_queue = Inr q" using first_queue_built by blast
  have covers: "plan_covers sample_plan (sw_graph sample_session)"
    and run: "all_executed sample_executed sample_worktrees [] (map wi_id (wg_items (sw_graph sample_session)))"
    and todo: "\<not> set (map wi_id (wg_items (sw_graph sample_session))) \<subseteq> set (integrated_in [])" by code_simp+
  from merge_queue_progress [OF sample_session_valid covers sample_plan_acyclic, of "[]" None, OF _ _ run
      q [unfolded first_queue_def]] todo
  have "mq_status q = MQ_READY" by (simp add: keys_unique_def)
  with q show ?thesis by blast
qed

end
