(* ===== verification/ConcurrencyLaws.thy ===== *)
theory ConcurrencyLaws
  imports Concurrency SchedulerLaws AdmissionLaws
begin

text \<open>
  What the planner promises: the waves schedule every item once, keep to the worker limit and
  put everything an item waits for into earlier waves; a cycle between graph edges and
  constraints is reported; and two items of one wave have no conflicting declared scopes.
\<close>


section \<open>The waves\<close>

lemma selects_slice: "0 < n \<Longrightarrow> selects (slice_to n)"
  by (auto simp: selects_def slice_to_def dest: in_set_takeD)

lemma selects_sort: "selects sort"
  by (simp add: selects_def) (metis sorted_list_of_set.sorted_key_list_of_set_empty set_empty set_sort)

definition wave_edges :: "work_graph \<Rightarrow> concurrency_constraint list \<Rightarrow> (string \<times> string) set" where
  "wave_edges g cs = item_edges (wg_items g)
     \<union> {(cc_after c, cc_before c) | c. c \<in> set cs \<and> cc_action c = ACT_SERIALIZE}"

text \<open>The serialising constraints are between items of the graph.\<close>

definition constraints_known :: "work_graph \<Rightarrow> concurrency_constraint list \<Rightarrow> bool" where
  "constraints_known g cs = list_all (\<lambda>c. cc_action c = ACT_SERIALIZE \<longrightarrow>
     cc_before c \<in> set (map wi_id (wg_items g)) \<and> cc_after c \<in> set (map wi_id (wg_items g))) cs"

definition waves_valid :: "work_graph \<Rightarrow> concurrency_constraint list \<Rightarrow> int \<Rightarrow> string list list \<Rightarrow> bool" where
  "waves_valid g cs m ws \<longleftrightarrow> distinct (concat ws) \<and> set (concat ws) = set (map wi_id (wg_items g))
     \<and> list_all (\<lambda>w. w \<noteq> [] \<and> int (length w) \<le> m) ws
     \<and> (\<forall>i < length ws. \<forall>w \<in> set (ws ! i). set (wave_deps g cs w) \<subseteq> set (concat (take i ws)))"

lemma item_of_mem:
  assumes "closed_items (wg_items g)" and "i \<in> set (wg_items g)"
  shows "item_of g (wi_id i) = Some i"
  using assms find_item [of "wg_items g" i] by (simp add: item_of_def closed_items_def)

lemma item_of_SomeD: "item_of g w = Some i \<Longrightarrow> i \<in> set (wg_items g) \<and> wi_id i = w"
  unfolding item_of_def by (rule find_row_SomeD)

lemma in_wave_deps:
  assumes "closed_items (wg_items g)" and "w \<in> set (map wi_id (wg_items g))"
  shows "p \<in> set (wave_deps g cs w) \<longleftrightarrow> (w, p) \<in> wave_edges g cs"
proof -
  obtain i where i: "i \<in> set (wg_items g)" "wi_id i = w" using assms(2) by auto
  have found: "item_of g w = Some i" using item_of_mem [OF assms(1) i(1)] i(2) by simp
  have "j = i" if "j \<in> set (wg_items g)" "wi_id j = w" for j
    using item_of_mem [OF assms(1) that(1)] that(2) found by simp
  then have edge: "(w, p) \<in> item_edges (wg_items g) \<longleftrightarrow> p \<in> set (wi_depends i)"
    unfolding item_edges_def using i by blast
  have "p \<in> set (serial_befores cs w) \<longleftrightarrow> (w, p) \<in> {(cc_after c, cc_before c) | c. c \<in> set cs \<and> cc_action c = ACT_SERIALIZE}"
    by (auto simp: serial_befores_def)
  then show ?thesis by (simp add: wave_deps_def wave_edges_def found edge)
qed

lemma unknown_afters_none: "constraints_known g cs \<Longrightarrow> unknown_afters g cs = []"
  by (auto simp: unknown_afters_def constraints_known_def list_all_iff filter_empty_conv)

lemma wave_deps_closed:
  assumes "closed_items (wg_items g)" and "constraints_known g cs" and "w \<in> set (map wi_id (wg_items g))"
  shows "set (wave_deps g cs w) \<subseteq> set (map wi_id (wg_items g))"
  using assms(2) in_wave_deps [OF assms(1,3)] assms(1)
  by (force simp: wave_edges_def item_edges_def closed_items_def constraints_known_def list_all_iff)

lemma batch_edges_waves:
  assumes "closed_items (wg_items g)" and "constraints_known g cs"
    and "set order = set (map wi_id (wg_items g))"
  shows "batch_edges (wave_deps g cs) order = wave_edges g cs"
proof -
  have "w \<in> set (map wi_id (wg_items g))" if "(w, p) \<in> wave_edges g cs" for w p
    using that assms(2) by (auto simp: wave_edges_def item_edges_def constraints_known_def list_all_iff)
  then show ?thesis using in_wave_deps [OF assms(1)] assms(3) by (auto simp: batch_edges_def)
qed

lemma number_waves_ok:
  assumes "list_all (\<lambda>w. w \<noteq> [] \<and> distinct w) ws"
  shows "\<exists>es. number_waves ws = Inr es \<and> map ew_work es = ws \<and> map ew_index es = map int [1..<Suc (length ws)]"
proof -
  have "\<exists>es. res_map (\<lambda>(i, w). wave_post_init \<lparr>ew_index = int i, ew_work = w\<rparr>) (enumerate (Suc n) ws) = Inr es
      \<and> map ew_work es = ws \<and> map ew_index es = map int [Suc n..<Suc (n + length ws)]" for n
    using assms
  proof (induction ws arbitrary: n)
    case (Cons w ws)
    from Cons.IH [of "Suc n"] Cons.prems obtain es where
      "res_map (\<lambda>(i, w). wave_post_init \<lparr>ew_index = int i, ew_work = w\<rparr>) (enumerate (Suc (Suc n)) ws) = Inr es"
      "map ew_work es = ws" "map ew_index es = map int [Suc (Suc n)..<Suc (Suc n + length ws)]" by auto
    moreover have "[Suc n..<Suc (n + length (w # ws))] = Suc n # [Suc (Suc n)..<Suc (Suc n + length ws)]"
      by (subst upt_conv_Cons) (simp_all del: upt_Suc)
    ultimately show ?case
      using Cons.prems by (intro exI [of _ "\<lparr>ew_index = int (Suc n), ew_work = w\<rparr> # es"]) (simp add: wave_post_init_def del: upt_Suc)
  qed simp
  from this [of 0] show ?thesis unfolding number_waves_def One_nat_def add_0 .
qed

lemma distinct_concat_nth: "distinct (concat xs) \<Longrightarrow> w \<in> set xs \<Longrightarrow> distinct w"
  by (induction xs) auto

lemma execution_waves_cases:
  assumes "work_graph_post_init p items meta = Inr g" and "constraints_known g cs" and "0 < m"
  shows "if acyclic (wave_edges g cs)
    then \<exists>es. execution_waves g cs m = Inr es \<and> waves_valid g cs m (map ew_work es)
      \<and> map ew_index es = map int [1..<Suc (length es)]
    else execution_waves g cs m = Inl ConstraintCycle"
proof -
  note A = accepted_graph [OF assms(1)]
  obtain order where order: "topological_order g = Inr order" "distinct order" "set order = wi_id ` set items"
    by (rule accepted_order [OF assms(1)])
  have ids: "set order = set (map wi_id (wg_items g))" using order(3) A(4) by simp
  have closed: "\<forall>n \<in> set order. set (wave_deps g cs n) \<subseteq> set order"
    using wave_deps_closed [OF A(1) assms(2)] ids by blast
  obtain st where st: "batch_run (slice_to m) (wave_deps g cs) order = Some st"
    "batch_inv (slice_to m) (wave_deps g cs) order st" "bt_left st = [] \<longleftrightarrow> acyclic (batch_edges (wave_deps g cs) order)"
    by (rule batch_run_complete [OF selects_slice [OF assms(3)] order(2) closed])
  note run = st(3) [unfolded batch_edges_waves [OF A(1) assms(2) ids]]
  have waves: "execution_waves g cs m
      = (if bt_left st \<noteq> [] then Inl ConstraintCycle else number_waves (bt_batches st))"
    by (simp add: execution_waves_def order(1) unknown_afters_none [OF assms(2)] st(1))
  have batch: "bs \<noteq> [] \<and> int (length bs) \<le> m" if mem: "bs \<in> set (bt_batches st)" for bs
  proof -
    obtain i where "i < length (bt_batches st)" "bs = bt_batches st ! i"
      using mem by (metis in_set_conv_nth)
    moreover have "\<exists>r. distinct r \<and> r \<noteq> [] \<and> bt_batches st ! i = slice_to m r" if "i < length (bt_batches st)" for i
      using st(2) that unfolding batch_inv_def batches_ok_def by blast
    ultimately obtain r where "r \<noteq> []" "bs = slice_to m r" by auto
    then show ?thesis using assms(3) by (auto simp: slice_to_def min_def)
  qed
  have dist: "distinct (concat (bt_batches st))" using st(2) by (simp add: batch_inv_def)
  have "list_all (\<lambda>w. w \<noteq> [] \<and> distinct w) (bt_batches st)"
    using batch distinct_concat_nth [OF dist] by (simp add: list_all_iff)
  then obtain es where es: "number_waves (bt_batches st) = Inr es" "map ew_work es = bt_batches st"
    "map ew_index es = map int [1..<Suc (length (bt_batches st))]" using number_waves_ok by blast
  have valid: "waves_valid g cs m (bt_batches st)" if "bt_left st = []"
    using that st(2) batch ids by (auto simp: waves_valid_def batch_inv_def batches_ok_def list_all_iff)
  have "length es = length (bt_batches st)" using es(2) by (metis length_map)
  then show ?thesis using run waves es valid by auto
qed

text \<open>
  C13: the execution waves of an accepted graph and constraints between its items schedule
  every item exactly once, hold at most the allowed number of workers, and put every item that
  another one depends on or must follow into an earlier wave; they exist exactly when graph
  edges and constraints together are acyclic, and otherwise the cycle is reported.
\<close>
theorem execution_waves_correct:
  assumes "work_graph_post_init p items meta = Inr g" and "constraints_known g cs" and "0 < m"
  shows "if acyclic (wave_edges g cs)
    then \<exists>es. execution_waves g cs m = Inr es \<and> waves_valid g cs m (map ew_work es)
    else execution_waves g cs m = Inl ConstraintCycle"
  using execution_waves_cases [OF assms] by (auto split: if_splits)



section \<open>What shares a wave is compatible\<close>

lemma in_concat_take: "p \<in> set (concat (take j ws)) \<longleftrightarrow> (\<exists>i. i < j \<and> i < length ws \<and> p \<in> set (ws ! i))"
proof -
  have "set (take j ws) = (!) ws ` {i. i < j \<and> i < length ws}"
    by (fastforce simp: in_set_conv_nth image_iff)
  then show ?thesis by auto
qed

lemma trancl_earlier:
  assumes "waves_valid g cs m ws" and "closed_items (wg_items g)" and "(d, p) \<in> (item_edges (wg_items g))\<^sup>+"
    and "j < length ws" and "d \<in> set (ws ! j)"
  shows "p \<in> set (concat (take j ws))"
  using assms(3,4,5)
proof (induction arbitrary: j rule: converse_trancl_induct)
  case (base y)
  then have "p \<in> set (wave_deps g cs y)"
    using in_wave_deps [OF assms(2), of y p cs] by (auto simp: wave_edges_def item_edges_def)
  then show ?case using assms(1) base.prems unfolding waves_valid_def by blast
next
  case (step y z)
  have "z \<in> set (wave_deps g cs y)"
    using in_wave_deps [OF assms(2), of y z cs] step.hyps(1) by (auto simp: wave_edges_def item_edges_def)
  then have "z \<in> set (concat (take j ws))" using assms(1) step.prems unfolding waves_valid_def by blast
  then obtain i where i: "i < j" "i < length ws" "z \<in> set (ws ! i)" unfolding in_concat_take by blast
  from step.IH [OF i(2,3)] i(1) show ?case unfolding in_concat_take by (meson order.strict_trans)
qed

lemma not_earlier:
  assumes "distinct (concat ws)" and "j < length ws" and "x \<in> set (ws ! j)"
  shows "x \<notin> set (concat (take j ws))"
proof -
  have "concat ws = concat (take j ws) @ concat (drop j ws)" by (metis append_take_drop_id concat_append)
  moreover have "x \<in> set (concat (drop j ws))"
    using assms(2,3) by (metis UN_iff Cons_nth_drop_Suc list.set_intros(1) set_concat)
  ultimately show ?thesis using assms(1) by (metis disjoint_iff distinct_append)
qed

text \<open>An ancestor table filled in one pass holds only what the dependency relation reaches.\<close>

lemma fold_ancestors_trancl:
  assumes "p \<in> set (fold (\<lambda>w anc. anc(w := f w @ concat (map anc (f w)))) order (\<lambda>_. []) d)"
  shows "(d, p) \<in> {(w, v). v \<in> set (f w)}\<^sup>+"
proof -
  let ?R = "{(w, v). v \<in> set (f w)}"
  have "\<forall>d p. p \<in> set (fold (\<lambda>w anc. anc(w := f w @ concat (map anc (f w)))) order m d) \<longrightarrow> (d, p) \<in> ?R\<^sup>+"
    if "\<forall>d p. p \<in> set (m d) \<longrightarrow> (d, p) \<in> ?R\<^sup>+" for m
    using that
  proof (induction order arbitrary: m)
    case (Cons w ws)
    have "(d, p) \<in> ?R\<^sup>+" if "p \<in> set ((m(w := f w @ concat (map m (f w)))) d)" for d p
      using that Cons.prems trancl_into_trancl2 [of w _ ?R p]
      by (auto split: if_splits intro: r_into_trancl)
    then show ?case unfolding fold.simps comp_apply by (intro Cons.IH) blast
  qed simp
  from this [of "\<lambda>_. []"] assms show ?thesis by simp
qed

lemma graph_ancestors_trancl:
  assumes "closed_items (wg_items g)" and "p \<in> set (graph_ancestors g order d)"
  shows "(d, p) \<in> (item_edges (wg_items g))\<^sup>+"
proof -
  let ?f = "\<lambda>w. case item_of g w of None \<Rightarrow> [] | Some i \<Rightarrow> wi_depends i"
  have "(d, p) \<in> {(w, v). v \<in> set (?f w)}\<^sup>+"
    using fold_ancestors_trancl [of p ?f order d] assms(2)
    by (simp add: graph_ancestors_def wave_ancestors_def Let_def)
  moreover have "{(w, v). v \<in> set (?f w)} \<subseteq> item_edges (wg_items g)"
  proof clarify
    fix w v assume v: "v \<in> set (?f w)"
    then obtain i where i: "item_of g w = Some i" "v \<in> set (wi_depends i)" by (cases "item_of g w") auto
    then show "(w, v) \<in> item_edges (wg_items g)" using item_of_SomeD [OF i(1)] by (auto simp: item_edges_def)
  qed
  ultimately show ?thesis by (rule trancl_mono)
qed

lemma combinations_mem:
  assumes "distinct xs" and "a \<in> set xs" and "b \<in> set xs" and "a \<noteq> b"
  shows "(a, b) \<in> set (combinations xs) \<or> (b, a) \<in> set (combinations xs)"
  using assms by (induction xs) auto

lemma combine_constraint:
  assumes "combine_findings l r fs = Inr c" and "fs \<noteq> []"
  obtains x where "c = Some x" "(cc_before x = l \<and> cc_after x = r) \<or> (cc_before x = r \<and> cc_after x = l)"
  using assms
  by (auto simp: combine_findings_def constraint_post_init_def Let_def res_bind_eq_Inr split: if_splits)

lemma broad_plan_cases:
  assumes "compute_broad_plan sha reports g policy gv bv = Inr p" and "cp_waves p \<noteq> []"
  obtains order parts ws where "topological_order g = Inr order"
    "res_map (pair_step g policy (graph_ancestors g order)) (combinations order) = Inr parts"
    "\<not> denied_in (concat parts)"
    "execution_waves g (concat parts) (wb_active (bp_workers policy)) = Inr ws"
    "cp_waves p = sort_key ew_index ws" "0 < wb_active (bp_workers policy)"
  using assms
  by (auto simp: compute_broad_plan_def broad_constraints_def concurrency_plan_post_init_def Let_def res_bind_eq_Inr
      split: if_splits sum.splits)

lemma pair_step_known:
  assumes "pair_step g policy anc q = Inr cs" and "c \<in> set cs"
  shows "cc_before c \<in> set (map wi_id (wg_items g)) \<and> cc_after c \<in> set (map wi_id (wg_items g))"
proof -
  obtain l r k where lr: "item_of g (fst q) = Some l" "item_of g (snd q) = Some r"
    "combine_findings (wi_id l) (wi_id r) (pair_findings_of l r policy) = Inr (Some c)"
    using assms by (auto simp: pair_step_def pair_constraint_def res_bind_eq_Inr split: if_splits option.splits)
  then have "pair_findings_of l r policy \<noteq> []" by (auto simp: combine_findings_def)
  from combine_constraint [OF lr(3) this] have "cc_before c \<in> {wi_id l, wi_id r} \<and> cc_after c \<in> {wi_id l, wi_id r}"
    by auto
  moreover have "wi_id l \<in> set (map wi_id (wg_items g))" "wi_id r \<in> set (map wi_id (wg_items g))"
    using item_of_SomeD [OF lr(1)] item_of_SomeD [OF lr(2)] by force+
  ultimately show ?thesis by auto
qed

lemma same_wave_findings:
  assumes "work_graph_post_init pr items meta = Inr g"
    and "compute_broad_plan sha reports g policy gv bv = Inr p" and "w \<in> set (cp_waves p)"
    and "a \<in> set (wg_items g)" and "b \<in> set (wg_items g)" and "a \<noteq> b"
    and "wi_id a \<in> set (ew_work w)" and "wi_id b \<in> set (ew_work w)"
  shows "pair_findings_of a b policy = [] \<or> pair_findings_of b a policy = []"
proof -
  note A = accepted_graph [OF assms(1)]
  have ne: "cp_waves p \<noteq> []" using assms(3) by auto
  obtain order parts ws where order: "topological_order g = Inr order"
    and parts: "res_map (pair_step g policy (graph_ancestors g order)) (combinations order) = Inr parts"
    and calm: "\<not> denied_in (concat parts)"
    and waves: "execution_waves g (concat parts) (wb_active (bp_workers policy)) = Inr ws"
      "cp_waves p = sort_key ew_index ws" "0 < wb_active (bp_workers policy)"
    by (rule broad_plan_cases [OF assms(2) ne])
  let ?cs = "concat parts" and ?ws = "map ew_work ws"
  have known: "constraints_known g ?cs"
    using res_map_mem [OF parts] pair_step_known by (fastforce simp: constraints_known_def list_all_iff)
  have valid: "waves_valid g ?cs (wb_active (bp_workers policy)) ?ws"
    using execution_waves_cases [OF assms(1) known waves(3)] waves(1) by (auto split: if_splits)
  obtain j where j: "j < length ?ws" "?ws ! j = ew_work w"
    using assms(3) waves(2) by (metis in_set_conv_nth length_map nth_map set_sort)
  have here: "wi_id a \<in> set (?ws ! j)" "wi_id b \<in> set (?ws ! j)" using assms(7,8) j(2) by simp_all
  have dist: "distinct (concat ?ws)" using valid by (simp add: waves_valid_def)
  have apart: "x \<notin> set (wave_deps g ?cs y)" "(y, x) \<notin> (item_edges (wg_items g))\<^sup>+"
    if "x \<in> {wi_id a, wi_id b}" "y \<in> {wi_id a, wi_id b}" for x y
  proof -
    have xy: "x \<in> set (?ws ! j)" "y \<in> set (?ws ! j)" using here that by auto
    have "x \<notin> set (concat (take j ?ws))" by (rule not_earlier [OF dist j(1) xy(1)])
    then show "x \<notin> set (wave_deps g ?cs y)" "(y, x) \<notin> (item_edges (wg_items g))\<^sup>+"
      using valid j(1) xy(2) trancl_earlier [OF valid A(1) _ j(1) xy(2)] unfolding waves_valid_def by blast+
  qed
  have clean: "pair_findings_of l r policy = []"
    if lr: "{l, r} = {a, b}" "(wi_id l, wi_id r) \<in> set (combinations order)" for l r
  proof -
    have ids: "wi_id l \<in> {wi_id a, wi_id b}" "wi_id r \<in> {wi_id a, wi_id b}" using lr(1) by auto
    have items: "item_of g (wi_id l) = Some l" "item_of g (wi_id r) = Some r"
      using item_of_mem [OF A(1)] assms(4,5) lr(1) by (metis doubleton_eq_iff)+
    obtain cs where cs: "cs \<in> set parts" "pair_step g policy (graph_ancestors g order) (wi_id l, wi_id r) = Inr cs"
      using res_map_mem' [OF parts lr(2)] by blast
    have "wi_id l \<notin> set (graph_ancestors g order (wi_id r))" "wi_id r \<notin> set (graph_ancestors g order (wi_id l))"
      using graph_ancestors_trancl [OF A(1)] apart(2) ids by blast+
    then obtain c where c: "combine_findings (wi_id l) (wi_id r) (pair_findings_of l r policy) = Inr c"
      "cs = (case c of None \<Rightarrow> [] | Some x \<Rightarrow> [x])"
      using cs(2) items by (auto simp: pair_step_def pair_constraint_def res_bind_eq_Inr)
    show ?thesis
    proof (rule ccontr)
      assume "pair_findings_of l r policy \<noteq> []"
      from combine_constraint [OF c(1) this] obtain x where x: "c = Some x"
        "(cc_before x = wi_id l \<and> cc_after x = wi_id r) \<or> (cc_before x = wi_id r \<and> cc_after x = wi_id l)" .
      have mem: "x \<in> set ?cs" using c(2) x(1) cs(1) by force
      then have "cc_action x = ACT_SERIALIZE" using calm by (cases "cc_action x") (auto simp: denied_in_def list_ex_iff)
      then have "cc_before x \<in> set (wave_deps g ?cs (cc_after x))"
        using mem by (auto simp: wave_deps_def serial_befores_def)
      then show False using apart(1) ids x(2) by metis
    qed
  qed
  have "distinct order" "set order = wi_id ` set (wg_items g)"
    using accepted_order [OF assms(1)] order A(4) by (metis Inr_inject)+
  moreover have "wi_id a \<noteq> wi_id b"
    using item_of_mem [OF A(1) assms(4)] item_of_mem [OF A(1) assms(5)] assms(6) by auto
  ultimately have "(wi_id a, wi_id b) \<in> set (combinations order) \<or> (wi_id b, wi_id a) \<in> set (combinations order)"
    using assms(4,5) by (intro combinations_mem) auto
  then show ?thesis using clean [of a b] clean [of b a] by blast
qed

lemma path_relation_sym:
  "path_relation_of r l = path_relation_of l r"
  by (auto simp: path_relation_of_def Let_def split: option.splits)

lemma no_operation_finding:
  assumes "pair_findings_of a b policy = []" and "x \<in> set (item_committed a)" and "y \<in> set (item_committed b)"
  shows "operation_finding policy x y = []"
  using assms by (auto simp: pair_findings_of_def operation_findings_def)

lemma quiet_paths:
  assumes "operation_finding policy x y = []" and "op_mutating x \<or> op_mutating y"
    and "path_kind (rr_kind (op_resource x))" and "path_kind (rr_kind (op_resource y))"
  shows "path_relation_of x y = REL_none
    \<or> (path_relation_of x y = REL_disjoint_region \<and> same_file_finding REL_disjoint_region policy
        (normal_path (rr_identifier (op_resource x))) = None)"
  using assms
  by (cases "path_relation_of x y")
     (auto simp: operation_finding_def Let_def same_file_finding_def plain_finding_def split: option.splits if_splits)

text \<open>
  two items that the planner puts into the same wave have no conflicting file scopes: a
  write of one and any committed access of the other name paths that cannot meet, or the same
  file in declared line regions that do not meet, where the budget policy allows sharing a file.
\<close>
theorem wave_writers_separated:
  assumes "work_graph_post_init pr items meta = Inr g"
    and "compute_broad_plan sha reports g policy gv bv = Inr p" and "w \<in> set (cp_waves p)"
    and "a \<in> set (wg_items g)" and "b \<in> set (wg_items g)" and "a \<noteq> b"
    and "wi_id a \<in> set (ew_work w)" and "wi_id b \<in> set (ew_work w)"
    and "x \<in> set (item_committed a)" and "y \<in> set (item_committed b)" and "op_mutating x \<or> op_mutating y"
    and "path_kind (rr_kind (op_resource x))" and "path_kind (rr_kind (op_resource y))"
  shows "path_relation_of x y = REL_none
    \<or> (path_relation_of x y = REL_disjoint_region \<and> cb_same_file (bp_concurrency policy) = REGION_SAFE)"
proof -
  have "operation_finding policy x y = [] \<or> operation_finding policy y x = []"
    using same_wave_findings [OF assms(1-8)] no_operation_finding assms(9,10) by blast
  moreover have "op_mutating y \<or> op_mutating x" using assms(11) by blast
  ultimately have "path_relation_of x y = REL_none
      \<or> (path_relation_of x y = REL_disjoint_region \<and> (\<exists>t. same_file_finding REL_disjoint_region policy t = None))"
    using quiet_paths [of policy x y] quiet_paths [of policy y x] assms(11-13) path_relation_sym [of x y] by metis
  moreover have "cb_same_file (bp_concurrency policy) = REGION_SAFE"
    if "same_file_finding REL_disjoint_region policy t = None" for t
    using that by (auto simp: same_file_finding_def plain_finding_def Let_def split: if_splits)
  ultimately show ?thesis by blast
qed


section \<open>Witnesses\<close>

theorem execution_waves_correct_witness:
  "\<exists>es. execution_waves sample_graph [] 2 = Inr es \<and> waves_valid sample_graph [] 2 (map ew_work es)"
proof -
  have "wg_items sample_graph = sort_key wi_id sample_items" by (simp add: sample_graph_def)
  then have "wave_edges sample_graph [] = item_edges sample_items"
    by (auto simp: wave_edges_def item_edges_def)
  moreover have "acyclic (item_edges sample_items)"
    using sample_graph_built by (simp add: work_graph_post_init_iff)
  ultimately show ?thesis
    using execution_waves_correct [OF sample_graph_built, of "[]" 2] by (simp add: constraints_known_def)
qed

text \<open>Two items that write disjoint lines of one file, and a third that claims all of it.\<close>

definition region_item :: "string \<Rightarrow> string option \<Rightarrow> work_item" where
  "region_item name region = (sample_item name [])\<lparr>wi_operations := [sample_write ''src/app.py'' region]\<rparr>"

definition region_graph :: work_graph where
  "region_graph = \<lparr>wg_items = [region_item ''p'' (Some ''1-10''), region_item ''q'' (Some ''20-30''),
     region_item ''r'' None], wg_metadata = []\<rparr>"

definition region_plan :: concurrency_plan where
  "region_plan = (case compute_broad_plan (\<lambda>_. replicate 64 (CHR ''c'')) [] region_graph sample_policy 1 1 of
     Inr p \<Rightarrow> p | Inl _ \<Rightarrow> undefined)"

lemma region_graph_built: "work_graph_post_init graph_protocol (wg_items region_graph) [] = Inr region_graph"
  by code_simp

lemma region_plan_computed:
  "compute_broad_plan (\<lambda>_. replicate 64 (CHR ''c'')) [] region_graph sample_policy 1 1 = Inr region_plan"
  "\<exists>w \<in> set (cp_waves region_plan). {''p'', ''q''} \<subseteq> set (ew_work w)"
proof -
  have "(case compute_broad_plan (\<lambda>_. replicate 64 (CHR ''c'')) [] region_graph sample_policy 1 1 of
      Inl _ \<Rightarrow> False | Inr p \<Rightarrow> list_ex (\<lambda>w. {''p'', ''q''} \<subseteq> set (ew_work w)) (cp_waves p))" by code_simp
  then obtain p where "compute_broad_plan (\<lambda>_. replicate 64 (CHR ''c'')) [] region_graph sample_policy 1 1 = Inr p"
    "\<exists>w \<in> set (cp_waves p). {''p'', ''q''} \<subseteq> set (ew_work w)"
    by (auto simp only: list_ex_iff split: sum.splits)
  then show "compute_broad_plan (\<lambda>_. replicate 64 (CHR ''c'')) [] region_graph sample_policy 1 1 = Inr region_plan"
    "\<exists>w \<in> set (cp_waves region_plan). {''p'', ''q''} \<subseteq> set (ew_work w)"
    by (simp_all add: region_plan_def)
qed

theorem wave_writers_separated_witness:
  "\<exists>w \<in> set (cp_waves region_plan). {''p'', ''q''} \<subseteq> set (ew_work w)
     \<and> path_relation_of (sample_write ''src/app.py'' (Some ''1-10'')) (sample_write ''src/app.py'' (Some ''20-30''))
         = REL_disjoint_region"
proof -
  let ?x = "sample_write ''src/app.py'' (Some ''1-10'')" and ?y = "sample_write ''src/app.py'' (Some ''20-30'')"
  obtain w where w: "w \<in> set (cp_waves region_plan)" "{''p'', ''q''} \<subseteq> set (ew_work w)"
    using region_plan_computed(2) by blast
  have "path_relation_of ?x ?y = REL_none
      \<or> (path_relation_of ?x ?y = REL_disjoint_region \<and> cb_same_file (bp_concurrency sample_policy) = REGION_SAFE)"
    by (rule wave_writers_separated [OF region_graph_built region_plan_computed(1) w(1),
          of "region_item ''p'' (Some ''1-10'')" "region_item ''q'' (Some ''20-30'')"])
       (use w(2) in \<open>simp_all add: region_graph_def region_item_def sample_item_def item_committed_def
          sample_write_def op_committed_def op_mutating_def mode_mutating_def path_kind_def\<close>)
  moreover have "path_relation_of ?x ?y \<noteq> REL_none" by code_simp
  ultimately show ?thesis using w by blast
qed

end
