(* ===== verification/SharedAdmissionLaws.thy ===== *)
theory SharedAdmissionLaws
  imports SharedAdmission ConcurrencyLaws
begin

text \<open>
  What shared admission promises: the intents it admits side by side do not write the same
  lines of a file, as far as the compared surfaces say.
\<close>


section \<open>Dependencies and order\<close>

lemma deps_of_effective:
  assumes "effective_dependencies_of g p = Inr deps" and "w \<in> set (map wi_id (wg_items g))"
  shows "set (deps_of deps w) = set (wave_deps g (cp_constraints p) w)"
proof -
  have "deps = map (\<lambda>w. (w, sorted_set (wave_deps g (cp_constraints p) w))) (sorted_set (map wi_id (wg_items g)))"
    using assms(1) by (auto simp: effective_dependencies_of_def split: list.splits)
  moreover have "map_of (map (\<lambda>w. (w, f w)) xs) w = (if w \<in> set xs then Some (f w) else None)"
    for f :: "string \<Rightarrow> string list" and xs
    by (induction xs) auto
  ultimately show ?thesis using assms(2) by (simp add: deps_of_def)
qed

lemma effective_keys:
  assumes "effective_dependencies_of g p = Inr deps"
  shows "map fst deps = sorted_set (map wi_id (wg_items g))"
  using assms by (auto simp: effective_dependencies_of_def comp_def split: list.splits)

lemma deps_of_outside: "w \<notin> set (map fst deps) \<Longrightarrow> deps_of deps w = []"
  by (simp add: deps_of_def) (metis map_of_eq_None_iff option.simps(4))

lemma admission_order_sound:
  assumes "distinct (map fst deps)" and "admission_order deps = Inr order"
  shows "distinct order" and "set order = set (map fst deps)"
proof -
  obtain st where st: "batch_run sort (deps_of deps) (map fst deps) = Some st"
    "batch_inv sort (deps_of deps) (map fst deps) st"
    by (rule batch_finishes [OF selects_sort assms(1)])
  have "order = concat (bt_batches st)" "bt_left st = []"
    using assms(2) st(1) by (auto simp: admission_order_def split: if_splits)
  with st(2) show "distinct order" "set order = set (map fst deps)" by (auto simp: batch_inv_def)
qed

text \<open>The ancestors are what the graph edges and the serialising constraints reach.\<close>

lemma ancestors_reach:
  assumes "closed_items (wg_items g)" and "effective_dependencies_of g p = Inr deps"
    and "x \<in> set (admission_ancestors deps order w)"
  shows "(w, x) \<in> (wave_edges g (cp_constraints p))\<^sup>+"
proof -
  have "(w, x) \<in> {(w, v). v \<in> set (deps_of deps w)}\<^sup>+"
    using fold_ancestors_trancl [of x "deps_of deps" order w] assms(3) by (simp add: admission_ancestors_def)
  moreover have "{(w, v). v \<in> set (deps_of deps w)} \<subseteq> wave_edges g (cp_constraints p)"
  proof safe
    fix w v assume v: "v \<in> set (deps_of deps w)"
    then have "w \<in> set (map fst deps)" using deps_of_outside by force
    then have w: "w \<in> set (map wi_id (wg_items g))" by (simp add: effective_keys [OF assms(2)])
    show "(w, v) \<in> wave_edges g (cp_constraints p)"
      using v deps_of_effective [OF assms(2) w] in_wave_deps [OF assms(1) w] by blast
  qed
  ultimately show ?thesis by (rule trancl_mono)
qed


section \<open>Surfaces\<close>

lemma same_operations_refl [simp]: "same_operations xs xs"
  by (simp add: same_operations_def)

lemma kept_semantic: "semantic_paths (without_file_writes ops) = semantic_paths ops"
proof -
  have "semantic_write op \<Longrightarrow> \<not> file_write op" for op by (auto simp: semantic_write_def file_write_def)
  then have "filter semantic_write (without_file_writes ops) = filter semantic_write ops"
    unfolding without_file_writes_def filter_filter by (intro filter_cong) auto
  then show ?thesis by (simp add: semantic_paths_def)
qed

lemma without_file_writes_idem: "without_file_writes (without_file_writes ops) = without_file_writes ops"
proof -
  have "without_file_writes (without_file_writes ops) =
      filter (\<lambda>op. \<not> (file_write op \<and> (case operation_path op of None \<Rightarrow> False
         | Some p \<Rightarrow> p \<in> set (semantic_paths ops)))) (without_file_writes ops)"
    unfolding without_file_writes_def [of "without_file_writes ops"] kept_semantic ..
  also have "\<dots> = without_file_writes ops" by (simp add: without_file_writes_def)
  finally show ?thesis .
qed

lemma conflict_surface_idem:
  assumes "conflict_surface reports w i = Inr s"
  shows "conflict_surface reports w s = Inr s"
  using assms intent_post_init_ok(6)
  by (auto simp: conflict_surface_def symbol_conflict_projection_def semantic_conflict_projection_def Let_def
      res_bind_eq_Inr kept_semantic without_file_writes_idem split: option.splits if_splits)

lemma conflict_surface_id:
  assumes "conflict_surface reports w i = Inr s" and "intent_post_init j = Inr i"
  shows "ci_intent_id s = ci_intent_id i"
proof -
  have stable: "ci_intent_id k = ci_intent_id i"
    if "intent_post_init (i\<lparr>ci_operations := ops, ci_metadata := m\<rparr>) = Inr k" for ops m k
    using that intent_post_init_ok(1) [OF assms(2)] by (auto simp: intent_post_init_def res_bind_eq_Inr split: if_splits)
  show ?thesis
    using assms(1) stable
    by (auto simp: conflict_surface_def symbol_conflict_projection_def semantic_conflict_projection_def Let_def
        res_bind_eq_Inr split: option.splits if_splits)
qed

lemma releases_pair_sym: "releases_pair r a b = releases_pair r b a"
proof -
  have "pair_of rep a b = pair_of rep b a" for rep by (simp add: pair_of_def insert_commute)
  then show ?thesis by (simp only: releases_pair_def)
qed


section \<open>The admission loop\<close>

lemma admit_all_inv:
  assumes "admit_all step ws st = Inr st'" and "P [] st"
    and "\<And>seen w rest s s'. ws = seen @ w # rest \<Longrightarrow> P seen s \<Longrightarrow> step s w = Inr s' \<Longrightarrow> P (seen @ [w]) s'"
  shows "P ws st'"
proof -
  have "P (seen @ rest) st'" if "ws = seen @ rest" "P seen s" "admit_all step rest s = Inr st'" for seen rest s
    using that
  proof (induction rest arbitrary: seen s)
    case (Cons w rest)
    then obtain s' where s': "step s w = Inr s'" "admit_all step rest s' = Inr st'"
      by (auto simp: res_bind_eq_Inr)
    have "P (seen @ [w]) s'" by (rule assms(3) [OF Cons.prems(1,2) s'(1)])
    with Cons.IH [of "seen @ [w]" s'] Cons.prems(1) s'(2) show ?case by simp
  qed simp
  from this [of "[]" ws st] assms(1,2) show ?thesis by simp
qed

text \<open>The later of two admitted works was evaluated against the earlier one.\<close>

definition checked_against ::
  "plan_reports \<Rightarrow> (string \<Rightarrow> string list) \<Rightarrow> string list \<Rightarrow> string \<times> change_intent \<Rightarrow> string \<times> change_intent \<Rightarrow> bool" where
  "checked_against reports ancestors known e l \<longleftrightarrow>
     fst e \<notin> set (ancestors (fst l)) \<longrightarrow> \<not> releases_pair (rp_refinement reports) (fst l) (fst e)
     \<longrightarrow> (\<exists>active d. evaluate (snd l) active known = Inr d \<and> ad_allowed d \<and> snd e \<in> set active)"

definition run_inv ::
  "plan_reports \<Rightarrow> (string \<Rightarrow> string list) \<Rightarrow> string list \<Rightarrow> (string \<times> change_intent) list \<Rightarrow> admission_run \<Rightarrow> bool" where
  "run_inv reports ancestors known seen st \<longleftrightarrow>
     map wa_work (ar_records st) = map fst seen
     \<and> (\<forall>r \<in> set (ar_records st). (wa_work r, wa_intent r) \<in> set seen)
     \<and> (\<forall>r \<in> set (ar_records st). wa_allowed r \<longrightarrow> wa_work r \<in> fst ` set (ar_admitted st))
     \<and> distinct (map fst (ar_admitted st))
     \<and> (\<forall>(x, i) \<in> set (ar_admitted st). \<exists>j. (x, j) \<in> set seen \<and> conflict_surface reports x j = Inr i)
     \<and> sorted_wrt (checked_against reports ancestors known) (ar_admitted st)"

lemma admit_work_inv:
  assumes "run_inv reports anc known seen st" and "distinct (map fst (seen @ [(w, intent)]))"
    and "fst ` set seen \<subseteq> set order"
    and "admit_work reports deps anc order known st (w, intent) = Inr st'"
  shows "run_inv reports anc known (seen @ [(w, intent)]) st'"
proof -
  let ?beside = "beside reports anc order (ar_admitted st) w"
  obtain others surface d row where
    others: "res_map (\<lambda>(x, i). conflict_surface reports x i) ?beside = Inr others"
    and surface: "conflict_surface reports w intent = Inr surface"
    and d: "evaluate surface others known = Inr d"
    and built: "work_admission_post_init
        \<lparr>wa_work = w, wa_intent = intent, wa_allowed = ad_allowed d, wa_kind = ad_kind d,
         wa_dependencies = deps_of deps w, wa_conflicts = map conflict_dict (ad_conflicts d),
         wa_constraints = ad_constraints d, wa_notifications = ad_notifications d,
         wa_guidance = ad_guidance d\<rparr> = Inr row"
    and st': "st' = st\<lparr>ar_records := ar_records st @ [row],
        ar_admitted := (if ad_allowed d then ar_admitted st @ [(w, ad_intent d)] else ar_admitted st)\<rparr>"
    using assms(4) unfolding admit_work_def prod.case res_bind_eq_Inr lift_shared_eq by blast
  have row: "wa_work row = w" "wa_intent row = intent" "wa_allowed row = ad_allowed d"
    using built by (auto simp: work_admission_post_init_def split: if_splits)
  have inv: "distinct (map fst (ar_admitted st))"
    "\<And>x i. (x, i) \<in> set (ar_admitted st) \<Longrightarrow> \<exists>j. (x, j) \<in> set seen \<and> conflict_surface reports x j = Inr i"
    using assms(1) by (auto simp: run_inv_def)
  have intent: "ad_intent d = surface" using d by (cases rule: evaluate_cases) auto
  have new: "w \<notin> fst ` set (ar_admitted st)" using inv(2) assms(2) by force
  have check: "checked_against reports anc known e (w, surface)" if ok: "ad_allowed d" and mem: "e \<in> set (ar_admitted st)" for e
  proof -
    obtain x i where e: "e = (x, i)" by (cases e)
    obtain j where j: "(x, j) \<in> set seen" "conflict_surface reports x j = Inr i" using inv(2) mem e by blast
    have found: "map_of (ar_admitted st) x = Some i" using inv(1) mem e by simp
    have "x \<in> set order" using j(1) assms(3) by force
    with found have "(x, i) \<in> set ?beside"
      if "x \<notin> set (anc w)" "\<not> releases_pair (rp_refinement reports) w x"
      using that by (auto simp: beside_def map_filter_def image_iff intro!: bexI [of _ x])
    moreover have "i \<in> set others" if "(x, i) \<in> set ?beside"
      using res_map_mem' [OF others that] conflict_surface_idem [OF j(2)] by auto
    ultimately show ?thesis using d ok unfolding checked_against_def e fst_conv snd_conv by blast
  qed
  show ?thesis
    using assms(1) surface new check row intent
    by (auto simp: run_inv_def st' sorted_wrt_append)
qed

lemma admission_works_sound:
  assumes "admission_works sha sha_text s deps order = Inr works"
  shows "map fst works = order"
    and "(w, i) \<in> set works \<Longrightarrow> \<exists>item. item \<in> set (wg_items (sw_graph s)) \<and> wi_id item = w
      \<and> intent_for sha sha_text s deps item = Inr i"
proof -
  have "list_all2 (\<lambda>w q. fst q = w) order works"
    using assms unfolding admission_works_def res_map_Inr_iff
    by (rule list_all2_mono) (auto simp: res_bind_eq_Inr split: option.splits)
  then show "map fst works = order"
    by (simp add: list_all2_conv_all_nth list_eq_iff_nth_eq)
  show "\<exists>item. item \<in> set (wg_items (sw_graph s)) \<and> wi_id item = w
      \<and> intent_for sha sha_text s deps item = Inr i" if "(w, i) \<in> set works"
    using res_map_mem [OF assms [unfolded admission_works_def] that] item_of_SomeD
    by (fastforce simp: res_bind_eq_Inr split: option.splits)
qed


section \<open>Intent ids\<close>

lemma strip_id: "s \<noteq> [] \<Longrightarrow> \<not> is_space (hd s) \<Longrightarrow> \<not> is_space (last s) \<Longrightarrow> strip s = s"
  by (simp add: strip_def lstrip_by_id rstrip_by_def hd_rev flip: lstrip_by_def)

lemma not_space: "\<not> is_space (CHR ''s'')" "\<not> is_space (CHR ''.'')" "\<not> is_space (CHR ''_'')" "\<not> is_space (CHR ''-'')"
  by code_simp+

lemma work_char_not_space:
  assumes "work_id_char c"
  shows "\<not> is_space c"
proof -
  have "\<not> is_space c" if "is_alnum c"
    using that by (auto simp: is_space_def is_alnum_def is_digit_def is_upper_def is_lower_def Let_def)
  with assms not_space show ?thesis by (auto simp: work_id_char_def)
qed

lemma work_id_last: "work_id_ok w \<Longrightarrow> \<not> is_space (last w)"
  by (cases w) (auto simp: work_id_ok_def list_all_iff work_id_char_def intro!: work_char_not_space)

lemma intent_for_id:
  assumes "intent_for sha sha_text s deps item = Inr i" and "work_id_ok (wi_id item)"
  shows "ci_intent_id i = swarm_intent_id sha_text (sw_id s) (wi_id item) (session_graph_fingerprint sha s)"
proof -
  let ?id = "swarm_intent_id sha_text (sw_id s) (wi_id item) (session_graph_fingerprint sha s)"
  have "last ?id = last (wi_id item)" "?id \<noteq> []" "hd ?id = CHR ''s''"
    using assms(2) by (auto simp: swarm_intent_id_def work_id_ok_def)
  then have "strip ?id = ?id" using work_id_last [OF assms(2)] by (intro strip_id) (simp_all add: not_space)
  then show ?thesis using assms(1) by (auto simp: intent_for_def Let_def intent_post_init_def res_bind_eq_Inr clean_def split: if_splits)
qed

text \<open>A digest is at least twenty characters of text, as \<open>hexdigest\<close> of SHA-256 is.\<close>

definition long_digests :: "(string \<Rightarrow> string) \<Rightarrow> bool" where
  "long_digests sha_text \<longleftrightarrow> (\<forall>t. 20 \<le> length (sha_text t))"

lemma swarm_intent_id_inj:
  assumes "long_digests sha_text" and "swarm_intent_id sha_text a v f = swarm_intent_id sha_text b w g"
  shows "v = w"
proof -
  have "length (take 20 (sha_text t)) = 20" for t using assms(1) by (simp add: long_digests_def)
  then show ?thesis using assms(2) by (simp add: swarm_intent_id_def)
qed


section \<open>Side by side admission\<close>

lemma shared_admission_run:
  assumes "compute_shared_admission sha sha_text s p reports = Inr plan"
  obtains deps order works run where
    "effective_dependencies_of (sw_graph s) p = Inr deps" "admission_order deps = Inr order"
    "admission_works sha sha_text s deps order = Inr works"
    "admit_all (admit_work reports deps (admission_ancestors deps order) order
        (map (\<lambda>w. swarm_intent_id sha_text (sw_id s) w (session_graph_fingerprint sha s)) order)) works
        \<lparr>ar_admitted = [], ar_records = []\<rparr> = Inr run"
    "ap_admissions plan = sort_key wa_work (ar_records run)"
    "ap_status plan = PLAN_READY \<longleftrightarrow> list_all wa_allowed (ap_admissions plan)"
proof -
  have ready: "(cp_status p \<noteq> CS_READY) = (\<not> True)" "\<not> \<not> True" "\<not> \<not> plan_current sha s p"
    using assms by (auto simp: compute_shared_admission_def split: if_splits)
  obtain deps order works run where r: "effective_dependencies_of (sw_graph s) p = Inr deps"
    "admission_order deps = Inr order" "admission_works sha sha_text s deps order = Inr works"
    "admit_all (admit_work reports deps (admission_ancestors deps order) order
        (map (\<lambda>w. swarm_intent_id sha_text (sw_id s) w (session_graph_fingerprint sha s)) order)) works
        \<lparr>ar_admitted = [], ar_records = []\<rparr> = Inr run"
    "admission_plan_post_init
        \<lparr>ap_session = sw_id s, ap_repo = sw_repo s, ap_graph_version = sw_graph_version s,
         ap_graph_fingerprint = session_graph_fingerprint sha s,
         ap_budget_version = sw_budget_version s,
         ap_budget_fingerprint = session_budget_fingerprint sha s,
         ap_concurrency_fingerprint = concurrency_fingerprint sha p,
         ap_status = (if list_all wa_allowed (ar_records run) then PLAN_READY else PLAN_REPLAN),
         ap_admissions = ar_records run, ap_metadata = shared_metadata p\<rparr> = Inr plan"
    using assms
    unfolding compute_shared_admission_def Let_def ready(1) if_not_P [OF ready(2)] if_not_P [OF ready(3)]
      res_bind_eq_Inr lift_shared_eq by blast
  from r(5) have "ap_admissions plan = sort_key wa_work (ar_records run)"
    "ap_status plan = (if list_all wa_allowed (ar_records run) then PLAN_READY else PLAN_REPLAN)"
    by (auto simp: admission_plan_post_init_def Let_def res_bind_eq_Inr split: if_splits)
  then show thesis by (intro that [OF r(1-4)]) (auto simp: list_all_iff)
qed

lemma shared_run_inv:
  assumes "compute_shared_admission sha sha_text s p reports = Inr plan"
  obtains deps order works run known where
    "effective_dependencies_of (sw_graph s) p = Inr deps"
    "admission_works sha sha_text s deps order = Inr works" "distinct (map fst works)"
    "run_inv reports (admission_ancestors deps order) known works run"
    "set (ap_admissions plan) = set (ar_records run)"
proof -
  obtain deps order works run where deps: "effective_dependencies_of (sw_graph s) p = Inr deps"
    and order: "admission_order deps = Inr order"
    and works: "admission_works sha sha_text s deps order = Inr works"
    and run: "admit_all (admit_work reports deps (admission_ancestors deps order) order
        (map (\<lambda>w. swarm_intent_id sha_text (sw_id s) w (session_graph_fingerprint sha s)) order)) works
        \<lparr>ar_admitted = [], ar_records = []\<rparr> = Inr run"
    and plan: "ap_admissions plan = sort_key wa_work (ar_records run)"
    by (rule shared_admission_run [OF assms])
  let ?anc = "admission_ancestors deps order"
  let ?known = "map (\<lambda>w. swarm_intent_id sha_text (sw_id s) w (session_graph_fingerprint sha s)) order"
  have "distinct (map fst deps)" by (simp add: effective_keys [OF deps])
  then have "distinct order" using admission_order_sound(1) order by blast
  then have dist: "distinct (map fst works)" and keys: "map fst works = order"
    using admission_works_sound(1) [OF works] by simp_all
  have "run_inv reports ?anc ?known works run"
    using run
  proof (rule admit_all_inv)
    fix seen w rest st st'
    assume split: "works = seen @ w # rest" and inv: "run_inv reports ?anc ?known seen st"
      and "admit_work reports deps ?anc order ?known st w = Inr st'"
    moreover from split have "distinct (map fst (seen @ [w]))" "fst ` set seen \<subseteq> set order"
      using dist by (auto simp flip: keys)
    ultimately show "run_inv reports ?anc ?known (seen @ [w]) st'"
      using admit_work_inv [of reports ?anc ?known seen st "fst w" "snd w"] by simp
  qed (simp add: run_inv_def)
  then show thesis using that [OF deps works dist] plan by simp
qed

lemma admitted_pair:
  assumes "work_graph_post_init pr items meta = Inr (sw_graph s)"
    and "compute_shared_admission sha sha_text s p reports = Inr plan"
    and "a \<in> set (ap_admissions plan)" and "b \<in> set (ap_admissions plan)"
    and "wa_allowed a" and "wa_allowed b" and "wa_work a \<noteq> wa_work b"
    and "(wa_work a, wa_work b) \<notin> (wave_edges (sw_graph s) (cp_constraints p))\<^sup>+"
    and "(wa_work b, wa_work a) \<notin> (wave_edges (sw_graph s) (cp_constraints p))\<^sup>+"
    and "\<not> releases_pair (rp_refinement reports) (wa_work a) (wa_work b)"
    and "conflict_surface reports (wa_work a) (wa_intent a) = Inr sa"
    and "conflict_surface reports (wa_work b) (wa_intent b) = Inr sb"
  shows "\<exists>active known d. ad_allowed d \<and> (evaluate sb active known = Inr d \<and> sa \<in> set active
    \<or> evaluate sa active known = Inr d \<and> sb \<in> set active)"
proof -
  note A = accepted_graph [OF assms(1)]
  obtain deps order works run known where deps: "effective_dependencies_of (sw_graph s) p = Inr deps"
    and dist: "distinct (map fst works)"
    and inv': "run_inv reports (admission_ancestors deps order) known works run"
    and plan: "set (ap_admissions plan) = set (ar_records run)"
    by (rule shared_run_inv [OF assms(2)])
  let ?anc = "admission_ancestors deps order"
  from inv' have inv: "\<And>r. r \<in> set (ar_records run) \<Longrightarrow> (wa_work r, wa_intent r) \<in> set works"
    "\<And>r. r \<in> set (ar_records run) \<Longrightarrow> wa_allowed r \<Longrightarrow> wa_work r \<in> fst ` set (ar_admitted run)"
    "\<And>x i. (x, i) \<in> set (ar_admitted run) \<Longrightarrow> \<exists>j. (x, j) \<in> set works \<and> conflict_surface reports x j = Inr i"
    "sorted_wrt (checked_against reports ?anc known) (ar_admitted run)"
    by (auto simp: run_inv_def)
  have entry: "(wa_work r, sr) \<in> set (ar_admitted run)"
    if r0: "r \<in> set (ap_admissions plan)" and ok: "wa_allowed r" and sr: "conflict_surface reports (wa_work r) (wa_intent r) = Inr sr" for r sr
  proof -
    have r: "r \<in> set (ar_records run)" using r0 plan by simp
    obtain i where i: "(wa_work r, i) \<in> set (ar_admitted run)" using inv(2) [OF r ok] by force
    obtain j where j: "(wa_work r, j) \<in> set works" "conflict_surface reports (wa_work r) j = Inr i"
      using inv(3) [OF i] by blast
    have "j = wa_intent r" using j(1) inv(1) [OF r] dist by (meson eq_key_imp_eq_value)
    with i j(2) sr show ?thesis by simp
  qed
  have ancs: "wa_work x \<notin> set (?anc (wa_work y))"
    if "(wa_work y, wa_work x) \<notin> (wave_edges (sw_graph s) (cp_constraints p))\<^sup>+" for x y :: work_admission
    using that ancestors_reach [OF A(1) deps] by blast
  obtain m n where mn: "m < length (ar_admitted run)" "ar_admitted run ! m = (wa_work a, sa)"
    "n < length (ar_admitted run)" "ar_admitted run ! n = (wa_work b, sb)"
    using entry [OF assms(3,5,11)] entry [OF assms(4,6,12)] by (auto simp: in_set_conv_nth)
  then have "m \<noteq> n" using assms(7) by auto
  then consider "m < n" | "n < m" by linarith
  then show ?thesis
  proof cases
    case 1
    then have "checked_against reports ?anc known (wa_work a, sa) (wa_work b, sb)"
      using sorted_wrt_nth_less [OF inv(4) _ mn(3)] mn by metis
    then show ?thesis using ancs [OF assms(9)] assms(10) releases_pair_sym by (auto simp: checked_against_def)
  next
    case 2
    then have "checked_against reports ?anc known (wa_work b, sb) (wa_work a, sa)"
      using sorted_wrt_nth_less [OF inv(4) _ mn(1)] mn by metis
    then show ?thesis using ancs [OF assms(8)] assms(10) releases_pair_sym by (auto simp: checked_against_def)
  qed
qed

lemma admitted_work_intent:
  assumes "compute_shared_admission sha sha_text s p reports = Inr plan" and "r \<in> set (ap_admissions plan)"
  shows "\<exists>deps item. item \<in> set (wg_items (sw_graph s)) \<and> wi_id item = wa_work r
    \<and> intent_for sha sha_text s deps item = Inr (wa_intent r)"
proof -
  obtain deps order works run known where works: "admission_works sha sha_text s deps order = Inr works"
    and inv: "run_inv reports (admission_ancestors deps order) known works run"
    and plan: "set (ap_admissions plan) = set (ar_records run)"
    by (rule shared_run_inv [OF assms(1)])
  have "(wa_work r, wa_intent r) \<in> set works" using inv plan assms(2) by (simp add: run_inv_def)
  then show ?thesis using admission_works_sound(2) [OF works] by blast
qed

lemma admitted_ids_differ:
  assumes "valid_graph (sw_graph s)" and "long_digests sha_text"
    and "compute_shared_admission sha sha_text s p reports = Inr plan"
    and "a \<in> set (ap_admissions plan)" and "b \<in> set (ap_admissions plan)" and "wa_work a \<noteq> wa_work b"
    and "conflict_surface reports (wa_work a) (wa_intent a) = Inr sa"
    and "conflict_surface reports (wa_work b) (wa_intent b) = Inr sb"
  shows "ci_intent_id sa \<noteq> ci_intent_id sb"
proof -
  have built: "work_graph_post_init graph_protocol (wg_items (sw_graph s)) (wg_metadata (sw_graph s)) = Inr (sw_graph s)"
    using assms(1) by (simp add: valid_graph_def)
  have ids: "ci_intent_id sr = swarm_intent_id sha_text (sw_id s) (wa_work r) (session_graph_fingerprint sha s)"
    if r: "r \<in> set (ap_admissions plan)" and sr: "conflict_surface reports (wa_work r) (wa_intent r) = Inr sr" for r sr
  proof -
    obtain deps item where item: "item \<in> set (wg_items (sw_graph s))" "wi_id item = wa_work r"
      "intent_for sha sha_text s deps item = Inr (wa_intent r)"
      using admitted_work_intent [OF assms(3) r] by blast
    have "valid_item item" using assms(1) item(1) by (simp add: valid_graph_def list_all_iff)
    then have "work_id_ok (wi_id item)"
      by (auto simp: valid_item_def work_item_post_init_def Let_def res_bind_eq_Inr split: if_splits
          dest!: arg_cong [where f = wi_id])
    from intent_for_id [OF item(3) this] item(2)
    have "ci_intent_id (wa_intent r) = swarm_intent_id sha_text (sw_id s) (wa_work r) (session_graph_fingerprint sha s)"
      by simp
    moreover have "ci_intent_id sr = ci_intent_id (wa_intent r)"
      using conflict_surface_id [OF sr] item(3) unfolding intent_for_def Let_def by blast
    ultimately show ?thesis by simp
  qed
  show ?thesis
    using ids [OF assms(4,7)] ids [OF assms(5,8)] swarm_intent_id_inj [OF assms(2)] assms(6) by metis
qed

text \<open>
  C10: take a validated work graph and a digest of at least 20 characters. Two works that shared
  admission allows, that no chain of graph edges and serialising constraints orders and that no
  refinement report releases, do not write the same lines: where a committed write on the
  compared surface of one and a committed write on the compared surface of the other can reach
  one path, and both identifiers are spelled in canonical form, neither deletes nor renames and
  both declare line regions that do not meet.
\<close>
theorem shared_admission_separates:
  assumes "valid_graph (sw_graph s)" and "long_digests sha_text"
    and "compute_shared_admission sha sha_text s p reports = Inr plan"
    and "a \<in> set (ap_admissions plan)" and "b \<in> set (ap_admissions plan)"
    and "wa_allowed a" and "wa_allowed b" and "wa_work a \<noteq> wa_work b"
    and "(wa_work a, wa_work b) \<notin> (wave_edges (sw_graph s) (cp_constraints p))\<^sup>+"
    and "(wa_work b, wa_work a) \<notin> (wave_edges (sw_graph s) (cp_constraints p))\<^sup>+"
    and "\<not> releases_pair (rp_refinement reports) (wa_work a) (wa_work b)"
    and "conflict_surface reports (wa_work a) (wa_intent a) = Inr sa"
    and "conflict_surface reports (wa_work b) (wa_intent b) = Inr sb"
    and "x \<in> set (committed_operations sa)" and "op_mutating x"
    and "y \<in> set (committed_operations sb)" and "op_mutating y"
    and "covers_path (op_resource x) path" and "covers_path (op_resource y) path"
    and "canonical_path (op_resource x)" and "canonical_path (op_resource y)"
  shows "\<not> mode_destructive (op_access x) \<and> \<not> mode_destructive (op_access y)
    \<and> (\<exists>t u a1 a2 b1 b2. rr_region (op_resource x) = Some t \<and> rr_region (op_resource y) = Some u
         \<and> parse_line_region t = Some (a1, a2) \<and> parse_line_region u = Some (b1, b2)
         \<and> (a2 < b1 \<or> b2 < a1))"
proof -
  have built: "work_graph_post_init graph_protocol (wg_items (sw_graph s)) (wg_metadata (sw_graph s)) = Inr (sw_graph s)"
    using assms(1) by (simp add: valid_graph_def)
  have ids: "ci_intent_id sa \<noteq> ci_intent_id sb"
    by (rule admitted_ids_differ [OF assms(1-5,8,12,13)])
  obtain active known d where d: "ad_allowed d"
    "evaluate sb active known = Inr d \<and> sa \<in> set active \<or> evaluate sa active known = Inr d \<and> sb \<in> set active"
    using admitted_pair [OF built assms(3-13)] by blast
  from d(2) show ?thesis
  proof
    assume e: "evaluate sb active known = Inr d \<and> sa \<in> set active"
    show ?thesis
      using writers_disjoint [OF conjunct1 [OF e] d(1) conjunct2 [OF e] ids assms(16,17,14,15,19,18,21,20)] by blast
  next
    assume e: "evaluate sa active known = Inr d \<and> sb \<in> set active"
    show ?thesis
      using writers_disjoint [OF conjunct1 [OF e] d(1) conjunct2 [OF e] ids [symmetric] assms(14-21)] by blast
  qed
qed


section \<open>Witness\<close>

abbreviation const_digest :: "'a \<Rightarrow> string" where
  "const_digest \<equiv> (\<lambda>_. replicate 64 (CHR ''c''))"

definition region_session :: swarm_session where
  "region_session = sample_session\<lparr>sw_graph := region_graph\<rparr>"

definition no_reports :: plan_reports where
  "no_reports = \<lparr>rp_projection = None, rp_narrowing = None, rp_refinement = None\<rparr>"

definition region_admission :: admission_plan where
  "region_admission = (case compute_shared_admission const_digest const_digest region_session region_plan no_reports of
     Inr p \<Rightarrow> p | Inl _ \<Rightarrow> undefined)"

lemma region_admission_computed:
  "compute_shared_admission const_digest const_digest region_session region_plan no_reports = Inr region_admission"
proof -
  have "res_ok (compute_shared_admission const_digest const_digest region_session region_plan no_reports)"
    by code_simp
  then show ?thesis by (auto simp: region_admission_def res_ok_def split: sum.splits)
qed

lemma region_entries:
  "\<exists>a b. a \<in> set (ap_admissions region_admission) \<and> b \<in> set (ap_admissions region_admission)
    \<and> wa_allowed a \<and> wa_allowed b \<and> wa_work a = ''p'' \<and> wa_work b = ''q''
    \<and> conflict_surface no_reports ''p'' (wa_intent a) = Inr (wa_intent a)
    \<and> conflict_surface no_reports ''q'' (wa_intent b) = Inr (wa_intent b)
    \<and> sample_write ''src/app.py'' (Some ''1-10'') \<in> set (committed_operations (wa_intent a))
    \<and> sample_write ''src/app.py'' (Some ''20-30'') \<in> set (committed_operations (wa_intent b))"
proof -
  have "list_ex (\<lambda>a. wa_allowed a \<and> wa_work a = ''p'' \<and> conflict_surface no_reports ''p'' (wa_intent a) = Inr (wa_intent a)
      \<and> sample_write ''src/app.py'' (Some ''1-10'') \<in> set (committed_operations (wa_intent a)))
      (ap_admissions region_admission)"
    unfolding region_admission_def by code_simp
  moreover have "list_ex (\<lambda>a. wa_allowed a \<and> wa_work a = ''q'' \<and> conflict_surface no_reports ''q'' (wa_intent a) = Inr (wa_intent a)
      \<and> sample_write ''src/app.py'' (Some ''20-30'') \<in> set (committed_operations (wa_intent a)))
      (ap_admissions region_admission)"
    unfolding region_admission_def by code_simp
  ultimately show ?thesis unfolding list_ex_iff by blast
qed

lemma region_unordered:
  assumes "v \<in> {''p'', ''q''}"
  shows "(v, w) \<notin> (wave_edges (sw_graph region_session) (cp_constraints region_plan))\<^sup>+"
proof
  assume "(v, w) \<in> (wave_edges (sw_graph region_session) (cp_constraints region_plan))\<^sup>+"
  then obtain z where z: "(v, z) \<in> wave_edges (sw_graph region_session) (cp_constraints region_plan)"
    by (meson tranclD)
  have "list_all (\<lambda>c. cc_after c \<notin> {''p'', ''q''}) (cp_constraints region_plan)"
    unfolding region_plan_def by code_simp
  moreover have "list_all (\<lambda>i. wi_depends i = []) (wg_items (sw_graph region_session))" by code_simp
  ultimately show False
    using z assms by (auto simp: wave_edges_def item_edges_def list_all_iff)
qed

theorem shared_admission_separates_witness:
  "\<exists>t u a1 a2 b1 b2. rr_region (op_resource (sample_write ''src/app.py'' (Some ''1-10''))) = Some t
     \<and> rr_region (op_resource (sample_write ''src/app.py'' (Some ''20-30''))) = Some u
     \<and> parse_line_region t = Some (a1, a2) \<and> parse_line_region u = Some (b1, b2) \<and> (a2 < b1 \<or> b2 < a1)"
proof -
  obtain a b where ab: "a \<in> set (ap_admissions region_admission)" "b \<in> set (ap_admissions region_admission)"
    "wa_allowed a" "wa_allowed b" "wa_work a = ''p''" "wa_work b = ''q''"
    "conflict_surface no_reports ''p'' (wa_intent a) = Inr (wa_intent a)"
    "conflict_surface no_reports ''q'' (wa_intent b) = Inr (wa_intent b)"
    "sample_write ''src/app.py'' (Some ''1-10'') \<in> set (committed_operations (wa_intent a))"
    "sample_write ''src/app.py'' (Some ''20-30'') \<in> set (committed_operations (wa_intent b))"
    using region_entries by blast
  have valid: "valid_graph (sw_graph region_session)" by code_simp
  show ?thesis
    using shared_admission_separates [OF valid _ region_admission_computed ab(1-4) _ _ _ _ _ _
        ab(9) sample_writes(3) ab(10) sample_writes(4) sample_paths(1,2,3,4)]
      region_unordered ab(5-8)
    by (simp add: long_digests_def releases_pair_def no_reports_def)
qed

end
