(* ===== verification/SwarmStoreLaws.thy ===== *)
theory SwarmStoreLaws
  imports SwarmStore SwarmSessionLaws MergeQueueLaws SharedAdmissionLaws
begin

text \<open>
  The contract of the store. What a session owns is its \<open>cell\<close>: the session itself, the plan,
  the shared admission and the merge queue that are stored for it. Every operation of the store
  changes a cell in one of the few ways of \<open>cell_step\<close>, and in every cell that these ways
  reach the plan, the admission and the queue belong to the stored graph and budget.
\<close>


section \<open>Cells\<close>

record cell =
  ce_session :: "swarm_session option"
  ce_plan :: "concurrency_plan option"
  ce_admission :: "admission_plan option"
  ce_queue :: "merge_queue option"

definition cell_of :: "swarm_store \<Rightarrow> string \<Rightarrow> cell" where
  "cell_of st sid = \<lparr>ce_session = find_row sw_id sid (ss_sessions st),
     ce_plan = map_option vr_value (stored_plan st sid),
     ce_admission = map_option vr_value (stored_admission st sid),
     ce_queue = map_option vr_value (stored_queue st sid)\<rparr>"

definition queue_bound :: "(json \<Rightarrow> string) \<Rightarrow> swarm_session \<Rightarrow> merge_queue \<Rightarrow> bool" where
  "queue_bound sha s q \<longleftrightarrow> mq_graph_version q = sw_graph_version s
     \<and> mq_graph_fingerprint q = session_graph_fingerprint sha s
     \<and> mq_budget_version q = sw_budget_version s
     \<and> mq_budget_fingerprint q = session_budget_fingerprint sha s"

text \<open>What an entry update leaves alone, and that the texts survive the constructor.\<close>

definition clean_digest :: "string \<Rightarrow> bool" where
  "clean_digest s \<longleftrightarrow> lower (strip s) = s"

definition clean_queue :: "merge_queue \<Rightarrow> bool" where
  "clean_queue q \<longleftrightarrow> clean_digest (mq_graph_fingerprint q) \<and> clean_digest (mq_budget_fingerprint q)
     \<and> clean_digest (mq_admission_fingerprint q)"

definition same_binding :: "merge_queue \<Rightarrow> merge_queue \<Rightarrow> bool" where
  "same_binding q q' \<longleftrightarrow> mq_graph_version q' = mq_graph_version q
     \<and> mq_graph_fingerprint q' = mq_graph_fingerprint q \<and> mq_budget_version q' = mq_budget_version q
     \<and> mq_budget_fingerprint q' = mq_budget_fingerprint q
     \<and> mq_admission_fingerprint q' = mq_admission_fingerprint q"

definition same_source :: "swarm_session \<Rightarrow> swarm_session \<Rightarrow> bool" where
  "same_source s s' \<longleftrightarrow> sw_graph s' = sw_graph s \<and> sw_budget s' = sw_budget s
     \<and> sw_graph_version s' = sw_graph_version s \<and> sw_budget_version s' = sw_budget_version s"

inductive cell_step :: "(json \<Rightarrow> string) \<Rightarrow> cell \<Rightarrow> cell \<Rightarrow> bool" for sha where
  cell_same: "cell_step sha c c"
| cell_new: "ce_session c = None \<Longrightarrow> cell_step sha c (c\<lparr>ce_session := Some s\<rparr>)"
| cell_source: "ce_session c = Some s \<Longrightarrow>
    cell_step sha c \<lparr>ce_session = Some s', ce_plan = None, ce_admission = None, ce_queue = None\<rparr>"
| cell_state: "ce_session c = Some s \<Longrightarrow> same_source s s' \<Longrightarrow> cell_step sha c (c\<lparr>ce_session := Some s'\<rparr>)"
| cell_plan: "ce_session c = Some s \<Longrightarrow> plan_current sha s p \<Longrightarrow>
    cell_step sha c (c\<lparr>ce_plan := Some p, ce_admission := None\<rparr>)"
| cell_admission: "ce_session c = Some s \<Longrightarrow> ce_plan c \<noteq> None
    \<Longrightarrow> ap_graph_fingerprint a = session_graph_fingerprint sha s
    \<Longrightarrow> ap_budget_fingerprint a = session_budget_fingerprint sha s \<Longrightarrow>
    cell_step sha c (c\<lparr>ce_admission := Some a, ce_queue := None\<rparr>)"
| cell_queue: "ce_session c = Some s \<Longrightarrow> ce_admission c = Some a \<Longrightarrow> queue_bound sha s q
    \<Longrightarrow> mq_admission_fingerprint q = plan_fingerprint sha a \<Longrightarrow> cell_step sha c (c\<lparr>ce_queue := Some q\<rparr>)"
| cell_entry: "ce_queue c = Some q \<Longrightarrow> same_binding q q' \<Longrightarrow> cell_step sha c (c\<lparr>ce_queue := Some q'\<rparr>)"

definition cell_bound :: "(json \<Rightarrow> string) \<Rightarrow> cell \<Rightarrow> bool" where
  "cell_bound sha c \<longleftrightarrow>
     (case ce_plan c of None \<Rightarrow> True
        | Some p \<Rightarrow> (case ce_session c of None \<Rightarrow> False | Some s \<Rightarrow> plan_current sha s p))
     \<and> (case ce_admission c of None \<Rightarrow> True
        | Some a \<Rightarrow> ce_plan c \<noteq> None \<and> (case ce_session c of None \<Rightarrow> False
            | Some s \<Rightarrow> ap_graph_fingerprint a = session_graph_fingerprint sha s
                \<and> ap_budget_fingerprint a = session_budget_fingerprint sha s))
     \<and> (case ce_queue c of None \<Rightarrow> True
        | Some q \<Rightarrow> (case ce_session c of None \<Rightarrow> False | Some s \<Rightarrow> queue_bound sha s q)
            \<and> (case ce_admission c of None \<Rightarrow> True
               | Some a \<Rightarrow> mq_admission_fingerprint q = plan_fingerprint sha a))"

lemma cell_step_bound: "cell_step sha c c' \<Longrightarrow> cell_bound sha c \<Longrightarrow> cell_bound sha c'"
  by (induction rule: cell_step.induct)
     (auto simp: cell_bound_def same_source_def same_binding_def plan_current_def queue_bound_def
       session_graph_fingerprint_def session_budget_fingerprint_def split: option.splits)


section \<open>Lookups after the table operations\<close>

lemma find_put [table_simps]:
  "key r = sid \<Longrightarrow> find_row key k (update_rows (\<lambda>x. key x = sid) (\<lambda>_. r) rows)
    = (if k = sid \<and> find_row key sid rows \<noteq> None then Some r else find_row key k rows)"
proof (induction rows)
  case (Cons x rows)
  then show ?case by (cases "key x = sid") (auto simp: find_row_def update_rows_def find_None_iff)
qed (simp add: find_row_def update_rows_def)

lemma find_upsert [table_simps]:
  "find_row vr_session k (upsert sid n v rows)
    = (if k = sid then Some \<lparr>vr_session = sid, vr_version = n, vr_value = v\<rparr> else find_row vr_session k rows)"
  by (auto simp: upsert_def Let_def find_put find_row_snoc split: option.splits)

lemma find_drop [table_simps]:
  "find_row vr_session k (drop_session sid rows) = (if k = sid then None else find_row vr_session k rows)"
  by (induction rows) (auto simp: drop_session_def delete_rows_def find_row_def)

lemmas cell_simps = cell_of_def stored_plan_def stored_admission_def stored_queue_def


section \<open>The steps of the store\<close>

text \<open>Sessions and queues reach the store from their constructors.\<close>

inductive store_step :: "(json \<Rightarrow> string) \<Rightarrow> (string \<Rightarrow> string) \<Rightarrow> swarm_store \<Rightarrow> swarm_store \<Rightarrow> bool"
  for sha resolve where
  step_create: "session_post_init s0 = Inr s \<Longrightarrow> create_session s st = Inr (r, st') \<Longrightarrow> store_step sha resolve st st'"
| step_graph: "replace_graph sha sid g n now st = Inr (r, st') \<Longrightarrow> store_step sha resolve st st'"
| step_budget: "replace_budget_policy sha sid p n now st = Inr (r, st') \<Longrightarrow> store_step sha resolve st st'"
| step_state: "set_session_state sid target allowed now st = Inr (r, st') \<Longrightarrow> store_step sha resolve st st'"
| step_plan: "save_concurrency_plan sha sid cp gv bv st = Inr (r, st') \<Longrightarrow> store_step sha resolve st st'"
| step_admission: "save_shared_admission sha sid ap gv bv fp st = Inr (r, st') \<Longrightarrow> store_step sha resolve st st'"
| step_worktrees: "save_worktrees sha sid ws gv fp st = Inr (r, st') \<Longrightarrow> store_step sha resolve st st'"
| step_delete: "delete_worktrees sid works st = (k, st') \<Longrightarrow> store_step sha resolve st st'"
| step_bind: "bind_worktree_runner resolve sid w worker iid now st = Inr (r, st') \<Longrightarrow> store_step sha resolve st st'"
| step_queue: "queue_post_init resolve q0 = Inr q \<Longrightarrow> save_merge_queue sha sid q fp st = Inr (r, st')
    \<Longrightarrow> store_step sha resolve st st'"
| step_claim: "claim_merge_entry sha resolve sid w fp now st = Inr (r, st') \<Longrightarrow> store_step sha resolve st st'"
| step_finish: "finish_merge_entry resolve sid e head now st = Inr (r, st') \<Longrightarrow> store_step sha resolve st st'"
| step_rescue: "apply_merge_rescue sha resolve sid w target keep ev fp detail now st = Inr (r, st')
    \<Longrightarrow> store_step sha resolve st st'"
| step_reserve: "reserve_codex_run sha lim fp run st = Inr st' \<Longrightarrow> store_step sha resolve st st'"
| step_update: "update_codex_run run st = Inr st' \<Longrightarrow> store_step sha resolve st st'"
| step_recover: "recover_codex_run run expected st = Inr (r, st') \<Longrightarrow> store_step sha resolve st st'"
| step_event: "save_recovery_event ev st = Inr (b, st') \<Longrightarrow> store_step sha resolve st st'"
| step_cancel: "request_session_cancellation sid now st = Inr (r, st') \<Longrightarrow> store_step sha resolve st st'"
| step_begin: "begin_verification sha sid fp now st = Inr (r, st') \<Longrightarrow> store_step sha resolve st st'"
| step_verify: "save_verification sha rep fp st = Inr (r, st') \<Longrightarrow> store_step sha resolve st st'"

definition empty_store :: swarm_store where
  "empty_store = \<lparr>ss_sessions = [], ss_plans = [], ss_admissions = [], ss_queues = [], ss_worktrees = [],
     ss_runs = [], ss_reports = [], ss_events = []\<rparr>"

definition store_clean :: "swarm_store \<Rightarrow> bool" where
  "store_clean st \<longleftrightarrow> (\<forall>s \<in> set (ss_sessions st). strip (sw_id s) = sw_id s)
     \<and> (\<forall>v \<in> set (ss_queues st). clean_queue (vr_value v))"


section \<open>Each step changes at most one cell\<close>

lemma session_post_init_source:
  assumes "session_post_init s = Inr s'"
  shows "sw_id s' = strip (sw_id s)" and "same_source s s'" and "strip (sw_id s') = sw_id s'"
  using assms
  by (auto simp: session_post_init_def res_bind_eq_Inr same_source_def clean_text_def Let_def split: if_splits)

lemma with_state_source:
  assumes "with_state target now s = Inr s'"
  shows "sw_id s' = strip (sw_id s)" and "same_source s s'" and "strip (sw_id s') = sw_id s'"
    and "sw_state s' = target"
  using assms session_post_init_source [of "s\<lparr>sw_state := target, sw_updated := now\<rparr>" s']
  by (auto simp: with_state_def same_source_def session_post_init_def res_bind_eq_Inr split: if_splits)

lemma edited_source:
  assumes "session_edit s s'"
  shows "sw_id s' = strip (sw_id s)" and "strip (sw_id s') = sw_id s'"
  using assms session_post_init_source
  by (auto elim!: session_edit.cases simp: with_graph_def with_budget_policy_def res_bind_eq_Inr split: if_splits)

lemma require_session_find: "require_session st sid = Inr s \<longleftrightarrow> find_row sw_id sid (ss_sessions st) = Some s"
  by (simp add: require_session_def split: option.splits)

lemma clean_session:
  assumes "store_clean st" and "require_session st sid = Inr s"
  shows "strip (sw_id s) = sid" and "sw_id s = sid"
  using assms find_row_SomeD [of sw_id sid "ss_sessions st" s]
  by (auto simp: store_clean_def require_session_find)

lemma cell_put_session:
  assumes "store_clean st" and "require_session st sid = Inr s" and "sw_id s' = strip (sw_id s)"
  shows "cell_of (put_session sid s' st) = (cell_of st)(sid := (cell_of st sid)\<lparr>ce_session := Some s'\<rparr>)"
    and "strip (sw_id s') = sw_id s' \<Longrightarrow> store_clean (put_session sid s' st)"
proof -
  note own = clean_session [OF assms(1,2)]
  have "find_row sw_id sid (ss_sessions st) \<noteq> None" using assms(2) by (simp add: require_session_find)
  then show "cell_of (put_session sid s' st) = (cell_of st)(sid := (cell_of st sid)\<lparr>ce_session := Some s'\<rparr>)"
    using assms(3) own by (intro ext) (simp add: cell_simps put_session_def find_put)
  show "store_clean (put_session sid s' st)" if "strip (sw_id s') = sw_id s'"
    using assms(1) that by (auto simp: store_clean_def put_session_def in_update_rows)
qed

lemma cell_drop_plans:
  "cell_of (drop_plans sid st) = (cell_of st)(sid :=
     \<lparr>ce_session = ce_session (cell_of st sid), ce_plan = None, ce_admission = None, ce_queue = None\<rparr>)"
  "store_clean st \<Longrightarrow> store_clean (drop_plans sid st)"
proof -
  show "cell_of (drop_plans sid st) = (cell_of st)(sid :=
     \<lparr>ce_session = ce_session (cell_of st sid), ce_plan = None, ce_admission = None, ce_queue = None\<rparr>)"
    by (intro ext) (simp add: cell_simps drop_plans_def find_drop)
  show "store_clean (drop_plans sid st)" if "store_clean st"
    using that by (auto simp: drop_plans_def store_clean_def drop_session_def delete_rows_def)
qed

text \<open>Two stores that agree on sessions, plans, admissions and queues have the same cells.\<close>

definition same_cells :: "swarm_store \<Rightarrow> swarm_store \<Rightarrow> bool" where
  "same_cells st st' \<longleftrightarrow> ss_sessions st' = ss_sessions st \<and> ss_plans st' = ss_plans st
     \<and> ss_admissions st' = ss_admissions st \<and> ss_queues st' = ss_queues st"

lemma same_cellsD: "same_cells st st' \<Longrightarrow> cell_of st' = cell_of st \<and> (store_clean st \<longrightarrow> store_clean st')"
  by (auto simp: same_cells_def cell_simps store_clean_def fun_eq_iff)

definition refines :: "(json \<Rightarrow> string) \<Rightarrow> swarm_store \<Rightarrow> swarm_store \<Rightarrow> bool" where
  "refines sha st st' \<longleftrightarrow> (\<exists>sid c. cell_of st' = (cell_of st)(sid := c) \<and> cell_step sha (cell_of st sid) c)
     \<and> store_clean st'"

lemma refines_same: "store_clean st \<Longrightarrow> same_cells st st' \<Longrightarrow> refines sha st st'"
  using same_cellsD [of st st'] unfolding refines_def by (metis cell_same fun_upd_triv)

lemma refines_state:
  assumes "store_clean st" and "require_session st sid = Inr s" and "with_state target now s = Inr s'"
    and "same_cells (put_session sid s' st) st'"
  shows "refines sha st st'"
proof -
  note S = with_state_source [OF assms(3)] and P = cell_put_session [OF assms(1,2)]
  have "cell_of st' = (cell_of st)(sid := (cell_of st sid)\<lparr>ce_session := Some s'\<rparr>)" "store_clean st'"
    using same_cellsD [OF assms(4)] P(1) [OF S(1)] P(2) [OF S(1) S(3)] by auto
  moreover have "ce_session (cell_of st sid) = Some s"
    using assms(2) by (simp add: cell_of_def require_session_find)
  ultimately show ?thesis unfolding refines_def using cell_state [OF _ S(2)] by blast
qed

lemma refines_source:
  assumes "store_clean st" and "require_session st sid = Inr s" and "session_edit s s'"
  shows "refines sha st (drop_plans sid (put_session sid s' st))"
proof -
  note S = edited_source [OF assms(3)] and P = cell_put_session [OF assms(1,2)]
  let ?st = "drop_plans sid (put_session sid s' st)"
  have "cell_of ?st = (cell_of st)(sid :=
      \<lparr>ce_session = Some s', ce_plan = None, ce_admission = None, ce_queue = None\<rparr>)"
    by (simp add: cell_drop_plans P(1) [OF S(1)])
  moreover have "store_clean ?st" using cell_drop_plans(2) P(2) [OF S] by blast
  moreover have "ce_session (cell_of st sid) = Some s"
    using assms(2) by (simp add: cell_of_def require_session_find)
  ultimately show ?thesis unfolding refines_def using cell_source by blast
qed

lemma in_upsert: "x \<in> set (upsert sid n v rows) \<Longrightarrow> x \<in> set rows \<or> vr_value x = v"
  by (auto simp: upsert_def Let_def in_update_rows split: if_splits)

lemma in_drop: "x \<in> set (drop_session sid rows) \<Longrightarrow> x \<in> set rows"
  by (simp add: drop_session_def in_delete_rows)

lemma save_plan_refines:
  assumes "store_clean st" and "save_concurrency_plan sha sid p gv bv st = Inr (r, st')"
  shows "refines sha st st'"
proof -
  let ?st = "st\<lparr>ss_plans := upsert sid (next_version (stored_plan st sid)) p (ss_plans st),
                  ss_admissions := drop_session sid (ss_admissions st)\<rparr>"
  obtain s where s: "require_session st sid = Inr s" "plan_current sha s p" "st' = st \<or> st' = ?st"
    using assms(2) by (auto simp: save_concurrency_plan_def Let_def res_bind_eq_Inr split: if_splits option.splits)
  have own: "ce_session (cell_of st sid) = Some s" using s(1) by (simp add: cell_of_def require_session_find)
  have "cell_of ?st = (cell_of st)(sid := (cell_of st sid)\<lparr>ce_plan := Some p, ce_admission := None\<rparr>)"
    by (intro ext) (simp add: cell_simps table_simps)
  moreover have "store_clean ?st" using assms(1) by (auto simp: store_clean_def)
  ultimately have "refines sha st ?st" unfolding refines_def using cell_plan [OF own s(2)] by blast
  with s(3) refines_same [OF assms(1), of st] show ?thesis by (auto simp: same_cells_def)
qed

lemma save_admission_refines:
  assumes "store_clean st" and "save_shared_admission sha sid a gv bv fp st = Inr (r, st')"
  shows "refines sha st st'"
proof -
  let ?st = "st\<lparr>ss_admissions := upsert sid (next_version (stored_admission st sid)) a (ss_admissions st),
                     ss_queues := drop_session sid (ss_queues st)\<rparr>"
  obtain s where s: "require_session st sid = Inr s" "st' = st \<or> st' = ?st"
    "ap_graph_fingerprint a = session_graph_fingerprint sha s"
    "ap_budget_fingerprint a = session_budget_fingerprint sha s" "stored_plan st sid \<noteq> None"
    using assms(2) by (auto simp: save_shared_admission_def Let_def res_bind_eq_Inr split: if_splits option.splits)
  have own: "ce_session (cell_of st sid) = Some s" "ce_plan (cell_of st sid) \<noteq> None"
    using s(1,5) by (simp_all add: cell_of_def require_session_find)
  have "cell_of ?st = (cell_of st)(sid := (cell_of st sid)\<lparr>ce_admission := Some a, ce_queue := None\<rparr>)"
    by (intro ext) (simp add: cell_simps table_simps)
  moreover have "store_clean ?st" using assms(1) by (auto simp: store_clean_def dest: in_drop)
  ultimately have "refines sha st ?st" unfolding refines_def using cell_admission [OF own s(3,4)] by blast
  with s(2) refines_same [OF assms(1), of st] show ?thesis by (auto simp: same_cells_def)
qed

lemma clean_digest_sha: "sha256_text name v = Inr t \<Longrightarrow> t = lower (strip v) \<and> clean_digest t"
  by (auto simp: sha256_text_def queue_text_def clean_text_def clean_digest_def strip_lower Let_def
      res_bind_eq_Inr split: if_splits sum.splits)

lemma queue_post_init_keeps:
  assumes "queue_post_init resolve q = Inr q'"
  shows "mq_graph_version q' = mq_graph_version q" and "mq_budget_version q' = mq_budget_version q"
    and "mq_graph_fingerprint q' = lower (strip (mq_graph_fingerprint q))"
    and "mq_budget_fingerprint q' = lower (strip (mq_budget_fingerprint q))"
    and "mq_admission_fingerprint q' = lower (strip (mq_admission_fingerprint q))"
    and "clean_queue q'"
  using assms clean_digest_sha
  by (auto simp: queue_post_init_def Let_def res_bind_eq_Inr clean_queue_def split: if_splits)

lemma with_entry_binding:
  assumes "with_entry resolve q e head now = Inr q'" and "clean_queue q"
  shows "same_binding q q'" and "clean_queue q'"
  using queue_post_init_keeps [OF assms(1) [unfolded with_entry_def Let_def]] assms(2)
  by (simp_all add: same_binding_def clean_queue_def clean_digest_def)

lemma save_queue_refines:
  assumes "store_clean st" and "queue_post_init resolve q0 = Inr q"
    and "save_merge_queue sha sid q fp st = Inr (r, st')"
  shows "refines sha st st'"
proof -
  let ?st = "st\<lparr>ss_queues := upsert sid (next_version (stored_queue st sid)) q (ss_queues st)\<rparr>"
  obtain s a where s: "require_session st sid = Inr s" "stored_admission st sid = Some a"
    "st' = st \<or> st' = ?st" "queue_bound sha s q" "mq_admission_fingerprint q = plan_fingerprint sha (vr_value a)"
    using assms(3) by (auto simp: save_merge_queue_def Let_def queue_bound_def res_bind_eq_Inr split: if_splits option.splits)
  have own: "ce_session (cell_of st sid) = Some s" "ce_admission (cell_of st sid) = Some (vr_value a)"
    using s(1,2) by (simp_all add: cell_of_def require_session_find)
  have "cell_of ?st = (cell_of st)(sid := (cell_of st sid)\<lparr>ce_queue := Some q\<rparr>)"
    by (intro ext) (simp add: cell_simps table_simps)
  moreover have "store_clean ?st"
    using assms(1) queue_post_init_keeps(6) [OF assms(2)] by (auto simp: store_clean_def dest: in_upsert)
  ultimately have "refines sha st ?st" unfolding refines_def using cell_queue [OF own s(4,5)] by blast
  with s(3) refines_same [OF assms(1), of st] show ?thesis by (auto simp: same_cells_def)
qed

lemma put_queue_refines:
  assumes "store_clean st" and "stored_queue st sid = Some v"
    and "with_entry resolve (vr_value v) e head now = Inr q'" and "same_cells (put_queue sid n q' st) st'"
  shows "refines sha st st'"
proof -
  have "v \<in> set (ss_queues st)" "vr_session v = sid"
    using assms(2) find_row_SomeD [of vr_session sid "ss_queues st" v] by (simp_all add: stored_queue_def)
  then have "clean_queue (vr_value v)" using assms(1) by (simp add: store_clean_def)
  note Q = with_entry_binding [OF assms(3) this]
  have "find_row vr_session sid (ss_queues st) \<noteq> None" using assms(2) by (simp add: stored_queue_def)
  then have "cell_of (put_queue sid n q' st) = (cell_of st)(sid := (cell_of st sid)\<lparr>ce_queue := Some q'\<rparr>)"
    by (intro ext) (simp add: cell_simps put_queue_def find_put)
  moreover have "store_clean (put_queue sid n q' st)"
    using assms(1) Q(2) by (auto simp: store_clean_def put_queue_def in_update_rows)
  moreover have "ce_queue (cell_of st sid) = Some (vr_value v)" using assms(2) by (simp add: cell_of_def)
  ultimately show ?thesis
    using same_cellsD [OF assms(4)] cell_entry [OF _ Q(1), of "cell_of st sid" sha] unfolding refines_def by metis
qed


section \<open>The simulation\<close>

lemma worktrees_same:
  assumes "admit_all (save_worktree sid gv fp) ws (st, 0) = Inr p"
  shows "same_cells st (fst p)"
  using assms
proof (rule admit_all_inv)
  fix seen w rest and s s' :: "swarm_store \<times> int"
  assume "same_cells st (fst s)" and "save_worktree sid gv fp s w = Inr s'"
  then show "same_cells st (fst s')"
    by (auto simp: save_worktree_def insert_worktree_def Let_def same_cells_def split: if_splits option.splits)
qed (simp add: same_cells_def)

lemma insert_run_same: "insert_run r st = Inr st' \<Longrightarrow> same_cells st st'"
  by (auto simp: insert_run_def same_cells_def split: if_splits)

lemma insert_event_same: "insert_event e st = Inr st' \<Longrightarrow> same_cells st st'"
  by (auto simp: insert_event_def same_cells_def split: if_splits)

lemma reserve_cases:
  assumes "reserve_codex_run sha lim fp r st = Inr st'"
  obtains s a sn mid where "require_session st (cr_session r) = Inr s" "run_bound sha s r"
    "sw_state s \<in> {SS_PLANNED, SS_RUNNING}" "stored_admission st (cr_session r) = Some a"
    "plan_fingerprint sha (vr_value a) = fp" "ap_status (vr_value a) = PLAN_READY"
    "compute_scheduler_snapshot sha s (vr_value a)
       (effective_runs_for_rescue (list_runs st (cr_session r)) (list_events st (cr_session r)))
       (integrated_works st (cr_session r)) = Inr sn"
    "cr_work r \<in> set (sn_dispatchable sn)"
    "within_limits lim (int (length (filter (\<lambda>x. cr_work x = cr_work r
        \<and> cr_id x \<in> set (superseded_rescue_run_ids (list_events st (cr_session r)))) (list_runs st (cr_session r))))) r st = Inr ()"
    "start_session s r st = Inr mid" "insert_run r mid = Inr st'"
  using assms
  by (auto simp: reserve_codex_run_def Let_def res_bind_eq_Inr split: if_splits option.splits)

lemma start_session_cases:
  assumes "start_session s r st = Inr mid"
  obtains "sw_state s \<noteq> SS_PLANNED" "mid = st"
    | s' where "sw_state s = SS_PLANNED" "with_state SS_RUNNING (cr_created r) s = Inr s'" "mid = put_session (cr_session r) s' st"
  using assms by (auto simp: start_session_def res_bind_eq_Inr split: if_splits)

lemma reserve_refines:
  assumes "store_clean st" and "reserve_codex_run sha lim fp r st = Inr st'"
  shows "refines sha st st'"
proof -
  obtain s mid where s: "require_session st (cr_session r) = Inr s" "start_session s r st = Inr mid"
    and mid: "insert_run r mid = Inr st'"
    by (rule reserve_cases [OF assms(2)])
  note same = insert_run_same [OF mid]
  from s(2) show ?thesis
  proof (cases rule: start_session_cases)
    case 1
    then show ?thesis using refines_same [OF assms(1)] same by simp
  next
    case (2 s')
    then show ?thesis using refines_state [OF assms(1) s(1)] same by blast
  qed
qed

lemma create_refines:
  assumes "store_clean st" and "session_post_init s0 = Inr s" and "create_session s st = Inr (r, st')"
  shows "refines sha st st'"
proof -
  let ?st = "st\<lparr>ss_sessions := ss_sessions st @ [s]\<rparr>"
  have alt: "st' = st \<or> (find_row sw_id (sw_id s) (ss_sessions st) = None \<and> st' = ?st)"
    using assms(3) by (auto simp: create_session_def split: option.splits if_splits)
  have "refines sha st ?st" if none: "find_row sw_id (sw_id s) (ss_sessions st) = None"
  proof -
    have "cell_of ?st = (cell_of st)(sw_id s := (cell_of st (sw_id s))\<lparr>ce_session := Some s\<rparr>)"
      using none by (intro ext) (auto simp: cell_simps find_row_snoc split: option.splits)
    moreover have "store_clean ?st"
      using assms(1) session_post_init_source(3) [OF assms(2)] by (auto simp: store_clean_def)
    moreover have "ce_session (cell_of st (sw_id s)) = None" using none by (simp add: cell_of_def)
    ultimately show ?thesis unfolding refines_def using cell_new by blast
  qed
  with alt refines_same [OF assms(1), of st] show ?thesis by (auto simp: same_cells_def)
qed

lemma verification_cases:
  assumes "save_verification sha rep fp st = Inr (r, st')"
  obtains s a v s' where "require_session st (vp_session rep) = Inr s"
    "stored_admission st (vp_session rep) = Some a" "stored_queue st (vp_session rep) = Some v"
    "report_current sha s (vr_value a) (vr_value v) rep"
    "with_state (if vp_verified rep then SS_COMPLETED else SS_FAILED) (vp_created rep) s = Inr s'"
    "same_cells (put_session (vp_session rep) s' st) st'"
    "ss_sessions st' = ss_sessions (put_session (vp_session rep) s' st)"
proof -
  obtain s where s: "require_session st (vp_session rep) = Inr s"
    using assms by (auto simp: save_verification_def Let_def res_bind_eq_Inr)
  show thesis
  proof (cases "stored_admission st (vp_session rep)"; cases "stored_queue st (vp_session rep)")
    fix a v
    assume av: "stored_admission st (vp_session rep) = Some a" "stored_queue st (vp_session rep) = Some v"
    let ?target = "if vp_verified rep then SS_COMPLETED else SS_FAILED"
    from assms s av have cur: "report_current sha s (vr_value a) (vr_value v) rep"
      by (simp add: save_verification_def Let_def split: if_splits)
    from assms s av obtain s' where s': "with_state ?target (vp_created rep) s = Inr s'"
      by (auto simp: save_verification_def Let_def res_bind_eq_Inr simp del: split_paired_All split: if_split_asm)
    have "st' = put_session (vp_session rep) s' st
        \<or> (\<exists>rows. st' = (put_session (vp_session rep) s' st)\<lparr>ss_reports := rows\<rparr>)"
      using assms s av cur s' by (auto simp: save_verification_def Let_def split: if_split_asm)
    then show thesis using that [OF s av cur s'] by (auto simp: same_cells_def)
  qed (use assms s in \<open>simp_all add: save_verification_def Let_def\<close>)
qed

lemma step_refines:
  assumes "store_step sha resolve st st'" and "store_clean st"
  shows "refines sha st st'"
  using assms(1)
proof cases
  case (step_create s0 s r)
  then show ?thesis using create_refines [OF assms(2)] by blast
next
  case (step_graph sid g n now r)
  then have "st' = st \<or> (\<exists>s s'. require_session st sid = Inr s \<and> with_graph g now s = Inr s'
      \<and> st' = drop_plans sid (put_session sid s' st))"
    by (auto simp: replace_graph_def res_bind_eq_Inr split: if_splits)
  then show ?thesis
    using refines_source [OF assms(2)] refines_same [OF assms(2), of st] edit_graph same_cells_def by blast
next
  case (step_budget sid p n now r)
  then have "st' = st \<or> (\<exists>s s'. require_session st sid = Inr s \<and> with_budget_policy p now s = Inr s'
      \<and> st' = drop_plans sid (put_session sid s' st))"
    by (auto simp: replace_budget_policy_def res_bind_eq_Inr split: if_splits)
  then show ?thesis
    using refines_source [OF assms(2)] refines_same [OF assms(2), of st] edit_budget same_cells_def by blast
next
  case (step_state sid target allowed now r)
  then have "st' = st \<or> (\<exists>s s'. require_session st sid = Inr s \<and> with_state target now s = Inr s'
      \<and> st' = put_session sid s' st)"
    by (auto simp: set_session_state_def res_bind_eq_Inr split: if_splits)
  then show ?thesis
    using refines_state [OF assms(2)] refines_same [OF assms(2), of st] same_cells_def by blast
next
  case (step_plan sid cp gv bv r)
  then show ?thesis using save_plan_refines [OF assms(2)] by blast
next
  case (step_admission sid ap gv bv fp r)
  then show ?thesis using save_admission_refines [OF assms(2)] by blast
next
  case (step_worktrees sid ws gv fp r)
  then have "same_cells st st'"
    using worktrees_same by (auto simp: save_worktrees_def res_bind_eq_Inr split: if_splits option.splits)
  then show ?thesis by (rule refines_same [OF assms(2)])
next
  case (step_delete sid works k)
  then have "same_cells st st'" by (auto simp: delete_worktrees_def Let_def same_cells_def)
  then show ?thesis by (rule refines_same [OF assms(2)])
next
  case (step_bind sid w worker iid now r)
  then have "same_cells st st'"
    by (auto simp: bind_worktree_runner_def res_bind_eq_Inr same_cells_def split: option.splits)
  then show ?thesis by (rule refines_same [OF assms(2)])
next
  case (step_queue q0 q sid fp r)
  then show ?thesis using save_queue_refines [OF assms(2)] by blast
next
  case (step_claim sid w fp now r)
  then have "\<exists>v e q'. stored_queue st sid = Some v \<and> with_entry resolve (vr_value v) e (mq_head (vr_value v)) now = Inr q'
      \<and> st' = put_queue sid (vr_version v + 1) q' st"
    by (auto simp: claim_merge_entry_def res_bind_eq_Inr split: if_splits option.splits)
  then show ?thesis using put_queue_refines [OF assms(2)] same_cells_def by blast
next
  case (step_finish sid e head now r)
  then have "\<exists>v q'. stored_queue st sid = Some v \<and> with_entry resolve (vr_value v) e head now = Inr q'
      \<and> st' = put_queue sid (vr_version v + 1) q' st"
    by (auto simp: finish_merge_entry_def res_bind_eq_Inr split: if_splits option.splits)
  then show ?thesis using put_queue_refines [OF assms(2)] same_cells_def by blast
next
  case (step_rescue sid w target keep ev fp detail now r)
  then have "\<exists>v e q' mid. stored_queue st sid = Some v
      \<and> with_entry resolve (vr_value v) e (mq_head (vr_value v)) now = Inr q'
      \<and> insert_event ev st = Inr mid \<and> st' = put_queue sid (vr_version v + 1) q' mid"
    by (auto simp: apply_merge_rescue_def res_bind_eq_Inr split: if_splits option.splits)
  then show ?thesis
    using put_queue_refines [OF assms(2)] insert_event_same by (fastforce simp: same_cells_def put_queue_def)
next
  case (step_reserve lim fp run)
  then show ?thesis using reserve_refines [OF assms(2)] by blast
next
  case (step_update run)
  then have "same_cells st st'" by (auto simp: update_codex_run_def put_run_def same_cells_def split: option.splits)
  then show ?thesis by (rule refines_same [OF assms(2)])
next
  case (step_recover run expected r)
  then have "same_cells st st'"
    by (auto simp: recover_codex_run_def put_run_def same_cells_def split: option.splits if_splits)
  then show ?thesis by (rule refines_same [OF assms(2)])
next
  case (step_event ev b)
  then have "same_cells st st'"
    using insert_event_same by (auto simp: save_recovery_event_def res_bind_eq_Inr same_cells_def split: if_splits)
  then show ?thesis by (rule refines_same [OF assms(2)])
next
  case (step_cancel sid now r)
  then have "\<exists>s s'. require_session st sid = Inr s \<and> with_state SS_CANCELLED now s = Inr s'
      \<and> same_cells (put_session sid s' st) st'"
    by (auto simp: request_session_cancellation_def Let_def res_bind_eq_Inr same_cells_def split: if_splits)
  then show ?thesis using refines_state [OF assms(2)] by blast
next
  case (step_begin sid fp now r)
  then have "\<exists>s s'. require_session st sid = Inr s \<and> with_state SS_VERIFYING now s = Inr s' \<and> st' = put_session sid s' st"
    by (auto simp: begin_verification_def res_bind_eq_Inr split: if_splits)
  then show ?thesis using refines_state [OF assms(2)] same_cells_def by blast
next
  case (step_verify rep fp r)
  then show ?thesis using verification_cases refines_state [OF assms(2)] by metis
qed

lemma empty_store_ok: "store_clean empty_store" "cell_bound sha (cell_of empty_store sid)"
  by (simp_all add: store_clean_def empty_store_def cell_simps cell_bound_def find_row_def)

lemma reachable_store:
  assumes "(store_step sha resolve)\<^sup>*\<^sup>* empty_store st"
  shows "store_clean st \<and> (\<forall>sid. cell_bound sha (cell_of st sid))"
  using assms
proof (induction rule: rtranclp_induct)
  case base
  then show ?case by (simp add: empty_store_ok)
next
  case (step st st')
  then obtain k c where kc: "cell_of st' = (cell_of st)(k := c)" "cell_step sha (cell_of st k) c" "store_clean st'"
    using step_refines [of sha resolve st st'] unfolding refines_def by blast
  have "cell_bound sha c" using cell_step_bound [OF kc(2)] step.IH by blast
  with kc(1,3) step.IH show ?case by simp
qed

text \<open>
  C12: the store implements its abstract contract. From every store that its operations build,
  one operation changes the session, plan, shared admission and merge queue of at most one
  session, in one of the ways of \<open>cell_step\<close>: a graph or budget replacement takes plan,
  admission and queue away, a plan takes the admission away, a new admission the queue, and a
  state change, a run, a worktree or a claim touches none of the bindings.
\<close>
theorem store_refines_cells:
  assumes "(store_step sha resolve)\<^sup>*\<^sup>* empty_store st" and "store_step sha resolve st st'"
  shows "\<exists>sid c. cell_of st' = (cell_of st)(sid := c) \<and> cell_step sha (cell_of st sid) c"
  using step_refines [OF assms(2)] reachable_store [OF assms(1)] unfolding refines_def by blast

text \<open>
  C11: in every reachable store the plan of a session is computed from its stored graph and
  budget versions, a shared admission exists only beside a plan and carries the fingerprints of
  that graph and budget, and a merge queue is bound to them too and, where an admission is
  stored, to the fingerprint of that admission.
\<close>
theorem stored_records_bound:
  assumes "(store_step sha resolve)\<^sup>*\<^sup>* empty_store st"
  shows "cell_bound sha (cell_of st sid)"
  using reachable_store [OF assms] by blast

end
