(* ===== verification/SwarmStoreProps.thy ===== *)
theory SwarmStoreProps
  imports SwarmStoreLaws
begin

text \<open>
  What a reservation grants, and two interleavings of the store with its callers that lose a
  decision: the runner that overwrites a cancellation, and the refresh of the merge queue that
  takes a claim back.
\<close>


section \<open>Reservations\<close>

text \<open>The limits that \<open>swarm/codex_runner.py\<close> takes from the budget policy.\<close>

definition limits_of :: "budget_policy \<Rightarrow> launch_limits" where
  "limits_of p = \<lparr>ll_active = wb_active (bp_workers p), ll_active_per_work = wb_per_item (bp_workers p),
     ll_launches = wb_launches (bp_workers p), ll_attempts = 1 + yb_restarts (bp_retries p),
     ll_tokens = rb_tokens (bp_resources p)\<rparr>"

lemma dispatchable_ready:
  assumes "compute_scheduler_snapshot sha s plan records integrated = Inr sn" and "w \<in> set (sn_dispatchable sn)"
  shows "ready_to_run plan records integrated (max_attempts_of s) w" and "admission_current sha s plan"
proof -
  obtain order where "topological_order (sw_graph s) = Inr order" and cur: "admission_current sha s plan"
    using snapshot_cases [OF assms(1)] by cases auto
  from frontier_eq [OF assms(1) this(1)] assms(2)
  show "ready_to_run plan records integrated (max_attempts_of s) w" by (auto dest: in_set_takeD)
  show "admission_current sha s plan" by (rule cur)
qed

lemma within_limits_ok:
  assumes "within_limits lim rescued r st = Inr ()"
  shows "int (length (session_runs st (cr_session r))) < ll_launches lim"
    and "int (length (work_runs st (cr_session r) (cr_work r))) < ll_attempts lim + rescued"
    and "int (length (active_runs st (cr_session r))) < ll_active lim"
    and "int (length (filter (\<lambda>x. rw_work x = cr_work r) (active_runs st (cr_session r)))) < ll_active_per_work lim"
    and "case ll_tokens lim of None \<Rightarrow> True | Some n \<Rightarrow>
      tokens_consumed st (cr_session r) + tokens_reserved st (cr_session r) + token_limit_of r \<le> n"
  using assms by (auto simp: within_limits_def Let_def split: if_splits option.splits)

lemma insert_run_ok:
  assumes "insert_run r st = Inr st'"
  shows "ss_runs st' = ss_runs st @ [\<lparr>rw_session = cr_session r, rw_work = cr_work r, rw_attempt = cr_attempt r, rw_run = r\<rparr>]"
    and "ss_sessions st' = ss_sessions st" and "cr_id r \<notin> (cr_id \<circ> rw_run) ` set (ss_runs st)"
  using assms by (auto simp: insert_run_def split: if_splits)

text \<open>
  C25: a worker run is reserved only for an admitted work item of a current, ready admission
  whose effective dependencies have succeeded and, once a merge queue exists, are integrated;
  and with the fresh run counted in, launches, running workers, running workers of the item and
  consumed plus reserved tokens of the session stay within its budget policy.
\<close>
theorem reserve_within_policy:
  assumes "require_session st (cr_session r) = Inr s"
    and "reserve_codex_run sha (limits_of (sw_budget s)) fp r st = Inr st'"
    and "cr_state r = R_RESERVED" and "total_tokens (cr_usage r) = 0"
  shows "(\<exists>v. stored_admission st (cr_session r) = Some v \<and> admission_current sha s (vr_value v)
        \<and> ready_to_run (vr_value v)
            (effective_runs_for_rescue (list_runs st (cr_session r)) (list_events st (cr_session r)))
            (integrated_works st (cr_session r)) (max_attempts_of s) (cr_work r))
    \<and> int (length (session_runs st' (cr_session r))) \<le> wb_launches (bp_workers (sw_budget s))
    \<and> int (length (active_runs st' (cr_session r))) \<le> wb_active (bp_workers (sw_budget s))
    \<and> int (length (filter (\<lambda>x. rw_work x = cr_work r) (active_runs st' (cr_session r))))
        \<le> wb_per_item (bp_workers (sw_budget s))
    \<and> (case rb_tokens (bp_resources (sw_budget s)) of None \<Rightarrow> True
       | Some n \<Rightarrow> tokens_consumed st' (cr_session r) + tokens_reserved st' (cr_session r) \<le> n)"
proof -
  let ?lim = "limits_of (sw_budget s)"
  obtain s1 a sn mid where own: "require_session st (cr_session r) = Inr s1"
    and a: "stored_admission st (cr_session r) = Some a"
    and sn: "compute_scheduler_snapshot sha s1 (vr_value a)
       (effective_runs_for_rescue (list_runs st (cr_session r)) (list_events st (cr_session r)))
       (integrated_works st (cr_session r)) = Inr sn"
    and work: "cr_work r \<in> set (sn_dispatchable sn)"
    and lim: "within_limits ?lim (int (length (filter (\<lambda>x. cr_work x = cr_work r
        \<and> cr_id x \<in> set (superseded_rescue_run_ids (list_events st (cr_session r)))) (list_runs st (cr_session r))))) r st = Inr ()"
    and mid: "start_session s1 r st = Inr mid" and ins: "insert_run r mid = Inr st'"
    by (rule reserve_cases [OF assms(2)])
  have s1: "s1 = s" using own assms(1) by simp
  have "ss_runs mid = ss_runs st" using mid by (cases rule: start_session_cases) (simp_all add: put_session_def)
  then have runs: "ss_runs st' = ss_runs st
      @ [\<lparr>rw_session = cr_session r, rw_work = cr_work r, rw_attempt = cr_attempt r, rw_run = r\<rparr>]"
    using insert_run_ok(1) [OF ins] by simp
  note lims = within_limits_ok [OF lim]
  have "int (length (session_runs st' (cr_session r))) \<le> ll_launches ?lim"
    using lims(1) by (simp add: session_runs_def runs)
  moreover have "int (length (active_runs st' (cr_session r))) \<le> ll_active ?lim"
    using lims(3) by (simp add: active_runs_def runs)
  moreover have "int (length (filter (\<lambda>x. rw_work x = cr_work r) (active_runs st' (cr_session r)))) \<le> ll_active_per_work ?lim"
    using lims(4) by (simp add: active_runs_def runs)
  moreover have "tokens_consumed st' (cr_session r) = tokens_consumed st (cr_session r)"
    using assms(4) by (simp add: tokens_consumed_def session_runs_def runs)
  moreover have "tokens_reserved st' (cr_session r) = tokens_reserved st (cr_session r) + token_limit_of r"
    using assms(3) by (simp add: tokens_reserved_def active_runs_def runs run_active_def)
  ultimately show ?thesis
    using dispatchable_ready [OF sn work] a lims(5) unfolding s1
    by (auto simp: limits_of_def split: option.splits)
qed


section \<open>A cancellation that is lost\<close>

lemma run_of_put:
  "run_of (put_run r st) k = (if k = cr_id r \<and> run_of st k \<noteq> None then Some r else run_of st k)"
proof -
  have "map rw_run (ss_runs (put_run r st)) = update_rows (\<lambda>x. cr_id x = cr_id r) (\<lambda>_. r) (map rw_run (ss_runs st))"
    by (auto simp: put_run_def update_rows_def)
  then show ?thesis by (simp add: run_of_def find_put)
qed

lemma cancelled_run:
  assumes "request_session_cancellation sid now st = Inr ((s, cancelled), st')" and "store_clean st"
    and "run_of st rid = Some r" and "\<forall>x \<in> set (ss_runs st). rw_session x = cr_session (rw_run x)"
    and "cr_session r = sid" and "run_active (cr_state r)"
  shows "run_of st' rid = Some (cancelling now r)" and "cancelling now r \<in> set cancelled"
    and "\<exists>t. require_session st' sid = Inr t \<and> sw_state t = SS_CANCELLED"
proof -
  let ?hit = "\<lambda>x. rw_session x = sid \<and> run_active (cr_state (rw_run x))"
  obtain old where old: "require_session st sid = Inr old" "with_state SS_CANCELLED now old = Inr s"
    and st': "st' = (put_session sid s st)\<lparr>ss_runs :=
        update_rows ?hit (\<lambda>x. x\<lparr>rw_run := cancelling now (rw_run x)\<rparr>) (ss_runs st)\<rparr>"
    and cancelled: "cancelled = map (cancelling now \<circ> rw_run) (filter ?hit (ss_runs st))"
    using assms(1) by (auto simp: request_session_cancellation_def Let_def res_bind_eq_Inr split: if_splits)
  obtain x where x: "x \<in> set (ss_runs st)" "rw_run x = r" "rw_session x = sid"
    using find_row_SomeD [OF assms(3) [unfolded run_of_def]] assms(4,5) by auto
  then show "cancelling now r \<in> set cancelled" using assms(6) by (auto simp: cancelled)
  have "map rw_run (ss_runs st') = update_rows (\<lambda>y. cr_session y = sid \<and> run_active (cr_state y)) (cancelling now)
      (map rw_run (ss_runs st))"
    using assms(4) by (auto simp: st' update_rows_def)
  then show "run_of st' rid = Some (cancelling now r)"
    using assms(3,5,6) by (simp add: run_of_def find_row_update_same cancelling_def)
  note S = with_state_source [OF old(2)]
  have "find_row sw_id sid (ss_sessions st') = Some s"
    using old(1) clean_session [OF assms(2) old(1)] S(1)
    by (simp add: st' put_session_def find_put require_session_find)
  then show "\<exists>t. require_session st' sid = Inr t \<and> sw_state t = SS_CANCELLED"
    using S(4) by (simp add: require_session_find)
qed

text \<open>
  A cancellation can be lost. \<open>request_session_cancellation\<close> marks a reserved run as
  \<open>CANCELLING\<close>, but a runner that has read the record before writes its own copy with
  \<open>update_codex_run\<close>, which checks nothing: afterwards the session is \<open>CANCELLED\<close> and the
  stored run is \<open>RUNNING\<close>, with no trace of the request for the runner to find.
\<close>
theorem cancellation_lost:
  assumes "request_session_cancellation sid now st = Inr (res, st')" and "store_clean st"
    and "run_of st rid = Some r" and "\<forall>x \<in> set (ss_runs st). rw_session x = cr_session (rw_run x)"
    and "cr_session r = sid" and "cr_state r = R_RESERVED"
  shows "\<exists>st'' t. update_codex_run (r\<lparr>cr_state := R_RUNNING, cr_updated := later\<rparr>) st' = Inr st''
    \<and> run_of st'' rid = Some (r\<lparr>cr_state := R_RUNNING, cr_updated := later\<rparr>)
    \<and> cancelling now r \<in> set (snd res)
    \<and> require_session st'' sid = Inr t \<and> sw_state t = SS_CANCELLED"
proof -
  obtain s cancelled where res: "res = (s, cancelled)" by (cases res)
  have "run_active (cr_state r)" using assms(6) by (simp add: run_active_def)
  note C = cancelled_run [OF assms(1) [unfolded res] assms(2-5) this]
  have rid: "cr_id r = rid" using find_row_SomeD [OF assms(3) [unfolded run_of_def]] by simp
  let ?run = "r\<lparr>cr_state := R_RUNNING, cr_updated := later\<rparr>"
  have "update_codex_run ?run st' = Inr (put_run ?run st')" using C(1) rid by (simp add: update_codex_run_def)
  moreover have "run_of (put_run ?run st') rid = Some ?run" using C(1) rid by (simp add: run_of_put)
  moreover have "ss_sessions (put_run ?run st') = ss_sessions st'" by (simp add: put_run_def)
  ultimately show ?thesis using C(2,3) by (auto simp: res require_session_def)
qed


section \<open>A claim that is taken back\<close>

definition hex_sha :: "(json \<Rightarrow> string) \<Rightarrow> bool" where
  "hex_sha sha \<longleftrightarrow> (\<forall>j. hex_between 64 64 (sha j))"

lemma hex_clean: "hex_between 64 64 s \<Longrightarrow> lower (strip s) = s"
proof -
  assume "hex_between 64 64 s"
  then have s: "s \<noteq> []" "\<And>c. c \<in> set s \<Longrightarrow> is_hex_lower c" by (auto simp: hex_between_def list_all_iff)
  have c: "\<not> is_space c \<and> to_lower c = c" if "is_hex_lower c" for c
    using that by (auto simp: is_hex_lower_def is_space_def is_digit_def to_lower_def is_upper_def Let_def)
  have "strip s = s" using s c by (intro strip_id) auto
  moreover have "lower s = s" using s(2) c by (auto simp: lower_def intro: map_idI)
  ultimately show ?thesis by simp
qed

lemma computed_queue_bound:
  assumes "hex_sha sha"
    and "compute_merge_queue sha sha_text resolve s plan runs worktrees root head now previous = Inr q"
  shows "queue_bound sha s q" and "mq_admission_fingerprint q = plan_fingerprint sha plan"
proof -
  obtain raw where raw: "queue_post_init resolve raw = Inr q" "mq_graph_version raw = sw_graph_version s"
    "mq_graph_fingerprint raw = session_graph_fingerprint sha s" "mq_budget_version raw = sw_budget_version s"
    "mq_budget_fingerprint raw = session_budget_fingerprint sha s"
    "mq_admission_fingerprint raw = plan_fingerprint sha plan"
    using assms(2) by (auto simp: compute_merge_queue_def Let_def res_bind_eq_Inr split: if_splits sum.splits)
  have "lower (strip (sha j)) = sha j" for j using assms(1) by (simp add: hex_sha_def hex_clean)
  then have "lower (strip (session_graph_fingerprint sha s)) = session_graph_fingerprint sha s"
    "lower (strip (session_budget_fingerprint sha s)) = session_budget_fingerprint sha s"
    "lower (strip (plan_fingerprint sha plan)) = plan_fingerprint sha plan"
    by (simp_all add: session_graph_fingerprint_def graph_fingerprint_def session_budget_fingerprint_def
        budget_fingerprint_def plan_fingerprint_def)
  then show "queue_bound sha s q" "mq_admission_fingerprint q = plan_fingerprint sha plan"
    using queue_post_init_keeps [OF raw(1)] raw(2-) by (simp_all add: queue_bound_def)
qed

text \<open>
  C38: a refresh of the merge queue takes a claim back. \<open>plan_swarm_merge_queue\<close> reads the
  queue and saves the recomputed one in two transactions, and \<open>save_merge_queue\<close> checks the
  admission only: when an integrator has claimed an entry in between and the refresh saw it
  \<open>READY\<close>, the save succeeds, the stored entry is \<open>READY\<close> again for the next integrator, and
  the one that holds the claim can no longer finish.
\<close>
theorem refresh_loses_claim:
  assumes "hex_sha sha" and "require_session st sid = Inr s"
    and "stored_admission st sid = Some a" and "stored_queue st sid = Some v"
    and "entry_of (vr_value v) w = Some e" and "me_state e = ME_INTEGRATING"
    and "compute_merge_queue sha sha_text resolve s (vr_value a) runs worktrees root head now previous = Inr q"
    and "entry_of q w = Some e'" and "me_state e' = ME_READY"
    and "queue_fingerprint sha (vr_value v) \<noteq> queue_fingerprint sha q"
  shows "\<exists>st' v'. save_merge_queue sha sid q (plan_fingerprint sha (vr_value a)) st = Inr ((q, vr_version v + 1, True), st')
    \<and> stored_queue st' sid = Some v' \<and> entry_of (vr_value v') w = Some e'
    \<and> (\<forall>d. me_work d = w \<longrightarrow> finish_merge_entry resolve sid d new_head later st' = Inl NotReserved)"
proof -
  note B = computed_queue_bound [OF assms(1,7)]
  let ?st = "st\<lparr>ss_queues := upsert sid (vr_version v + 1) q (ss_queues st)\<rparr>"
  have "save_merge_queue sha sid q (plan_fingerprint sha (vr_value a)) st = Inr ((q, vr_version v + 1, True), ?st)"
    using assms(2-4,10) B by (simp add: save_merge_queue_def queue_bound_def Let_def next_version_def)
  moreover have "stored_queue ?st sid = Some \<lparr>vr_session = sid, vr_version = vr_version v + 1, vr_value = q\<rparr>"
    by (simp add: stored_queue_def find_upsert)
  moreover have "finish_merge_entry resolve sid d new_head later ?st = Inl NotReserved" if "me_work d = w" for d
    using calculation(2) assms(8,9) that by (simp add: finish_merge_entry_def)
  ultimately show ?thesis using assms(8) by auto
qed


section \<open>A sample store\<close>

definition planned_store :: swarm_store where
  "planned_store = empty_store\<lparr>ss_sessions := [region_session],
     ss_plans := [\<lparr>vr_session = ''s'', vr_version = 1, vr_value = region_plan\<rparr>]\<rparr>"

definition region_store :: swarm_store where
  "region_store = planned_store\<lparr>ss_admissions := [\<lparr>vr_session = ''s'', vr_version = 1, vr_value = region_admission\<rparr>]\<rparr>"

lemma region_id [simp]: "sw_id region_session = ''s''"
  by (simp add: region_session_def sample_session_def)

lemma region_created: "create_session region_session empty_store
    = Inr ((region_session, True), empty_store\<lparr>ss_sessions := [region_session]\<rparr>)"
  by (simp add: create_session_def find_row_def empty_store_def)

lemma region_planned: "save_concurrency_plan const_digest ''s'' region_plan 1 1 (empty_store\<lparr>ss_sessions := [region_session]\<rparr>)
    = Inr ((region_plan, 1, True), planned_store)"
proof -
  have "plan_current const_digest region_session region_plan" unfolding region_plan_def by code_simp
  moreover have "sw_graph_version region_session = 1" "sw_budget_version region_session = 1" by code_simp+
  ultimately show ?thesis
    by (simp add: save_concurrency_plan_def require_session_def find_row_def stored_plan_def empty_store_def
        upsert_def next_version_def drop_session_def delete_rows_def planned_store_def)
qed

lemma admission_fingerprints:
  assumes "compute_shared_admission sha sha_text s p reports = Inr plan"
  shows "ap_graph_fingerprint plan = lower (session_graph_fingerprint sha s)"
    and "ap_budget_fingerprint plan = lower (session_budget_fingerprint sha s)"
  using assms unfolding compute_shared_admission_def
  by (auto simp: Let_def res_bind_eq_Inr admission_plan_post_init_def digest_field_def split: if_splits)

lemma region_admitted: "save_shared_admission const_digest ''s'' region_admission 1 1 (const_digest ()) planned_store
    = Inr ((region_admission, 1, True), region_store)"
proof -
  have "lower (const_digest ()) = const_digest ()" by code_simp
  then have "ap_graph_fingerprint region_admission = session_graph_fingerprint const_digest region_session"
    "ap_budget_fingerprint region_admission = session_budget_fingerprint const_digest region_session"
    using admission_fingerprints [OF region_admission_computed]
    by (simp_all add: session_graph_fingerprint_def graph_fingerprint_def session_budget_fingerprint_def
        budget_fingerprint_def)
  moreover have "sw_graph_version region_session = 1" "sw_budget_version region_session = 1" by code_simp+
  ultimately show ?thesis
    by (simp add: save_shared_admission_def require_session_def find_row_def stored_plan_def stored_admission_def
        empty_store_def upsert_def next_version_def drop_session_def delete_rows_def planned_store_def
        region_store_def concurrency_fingerprint_def)
qed

lemma region_reached: "(store_step const_digest id)\<^sup>*\<^sup>* empty_store planned_store"
proof -
  have "session_post_init region_session = Inr region_session" by code_simp
  from rtranclp.rtrancl_into_rtrancl [OF r_into_rtranclp [of "store_step const_digest id", OF step_create [OF this region_created]]
      step_plan [OF region_planned]]
  show ?thesis .
qed

theorem store_refines_cells_witness:
  "\<exists>sid c. cell_of region_store = (cell_of planned_store)(sid := c)
     \<and> cell_step const_digest (cell_of planned_store sid) c"
  by (rule store_refines_cells [OF region_reached step_admission [OF region_admitted]])

theorem stored_records_bound_witness:
  "cell_bound const_digest (cell_of region_store ''s'') \<and> ce_admission (cell_of region_store ''s'') = Some region_admission"
proof -
  have "(store_step const_digest id)\<^sup>*\<^sup>* empty_store region_store"
    using region_reached step_admission [OF region_admitted] by (rule rtranclp.rtrancl_into_rtrancl)
  then have "cell_bound const_digest (cell_of region_store ''s'')" by (rule stored_records_bound)
  moreover have "ce_admission (cell_of region_store ''s'') = Some region_admission"
    by (simp add: cell_of_def stored_admission_def region_store_def find_row_def)
  ultimately show ?thesis ..
qed

definition region_run :: codex_run where
  "region_run = (sample_run ''p'' R_RESERVED)\<lparr>cr_graph_fingerprint := replicate 64 (CHR ''c''),
     cr_budget_fingerprint := replicate 64 (CHR ''c''), cr_token_limit := Some 1000\<rparr>"

lemma region_found: "require_session region_store (cr_session region_run) = Inr region_session"
  by (simp add: require_session_def region_store_def planned_store_def find_row_def region_run_def sample_run_def)

lemma region_reserved:
  "\<exists>st'. reserve_codex_run const_digest (limits_of (sw_budget region_session)) (const_digest ()) region_run region_store = Inr st'"
proof -
  have "res_ok (reserve_codex_run const_digest (limits_of (sw_budget region_session)) (const_digest ()) region_run region_store)"
    unfolding region_store_def region_admission_def region_plan_def by code_simp
  then show ?thesis by (auto simp: res_ok_def split: sum.splits)
qed

theorem reserve_within_policy_witness:
  "\<exists>st'. reserve_codex_run const_digest (limits_of (sw_budget region_session)) (const_digest ()) region_run region_store = Inr st'
     \<and> int (length (active_runs st' ''s'')) \<le> 4 \<and> tokens_consumed st' ''s'' + tokens_reserved st' ''s'' \<le> 500000"
proof -
  obtain st' where st': "reserve_codex_run const_digest (limits_of (sw_budget region_session)) (const_digest ()) region_run
      region_store = Inr st'" using region_reserved by blast
  have run: "cr_state region_run = R_RESERVED" "total_tokens (cr_usage region_run) = 0" "cr_session region_run = ''s''" by code_simp+
  have policy: "wb_active (bp_workers (sw_budget region_session)) = 4"
    "rb_tokens (bp_resources (sw_budget region_session)) = Some 500000" by code_simp+
  from reserve_within_policy [OF region_found st' run(1,2)] have "int (length (active_runs st' ''s'')) \<le> 4"
    "tokens_consumed st' ''s'' + tokens_reserved st' ''s'' \<le> 500000"
    unfolding policy run(3) by simp_all
  with st' show ?thesis by blast
qed

definition reserved_store :: swarm_store where
  "reserved_store = region_store\<lparr>ss_runs := [\<lparr>rw_session = ''s'', rw_work = ''p'', rw_attempt = 1, rw_run = region_run\<rparr>]\<rparr>"

theorem cancellation_lost_witness:
  "\<exists>res st' st'' t. request_session_cancellation ''s'' ''t2'' reserved_store = Inr (res, st')
     \<and> update_codex_run (region_run\<lparr>cr_state := R_RUNNING, cr_updated := ''t3''\<rparr>) st' = Inr st''
     \<and> require_session st'' ''s'' = Inr t \<and> sw_state t = SS_CANCELLED
     \<and> map_option cr_state (run_of st'' ''run'') = Some R_RUNNING"
proof -
  have found: "require_session reserved_store ''s'' = Inr region_session"
    using region_found by (simp add: require_session_def reserved_store_def region_run_def sample_run_def)
  have "sw_state region_session \<noteq> SS_COMPLETED" "res_ok (with_state SS_CANCELLED ''t2'' region_session)" by code_simp+
  then obtain res st' where c: "request_session_cancellation ''s'' ''t2'' reserved_store = Inr (res, st')"
    by (auto simp: request_session_cancellation_def found res_ok_def Let_def split: sum.splits)
  have "store_clean reserved_store"
    by (simp add: store_clean_def reserved_store_def region_store_def planned_store_def empty_store_def) code_simp
  moreover have "run_of reserved_store ''run'' = Some region_run"
    by (simp add: run_of_def reserved_store_def find_row_def region_run_def sample_run_def)
  ultimately show ?thesis
    using cancellation_lost [OF c, of "''run''" region_run "''t3''"] c
    by (fastforce simp: reserved_store_def region_run_def sample_run_def)
qed

text \<open>A digest that tells a queue with a claimed entry from one without.\<close>

definition status_digest :: "json \<Rightarrow> string" where
  "status_digest j = (if (case j of JObj m \<Rightarrow> jget m ''status'' = JStr ''integrating'' | _ \<Rightarrow> False)
     then replicate 64 (CHR ''d'') else replicate 64 (CHR ''c''))"

lemma status_digest_obj:
  "status_digest (canon (JObj m)) = (if jget m ''status'' = JStr ''integrating''
     then replicate 64 (CHR ''d'') else replicate 64 (CHR ''c''))"
proof -
  have "canon v = JStr t \<longleftrightarrow> v = JStr t" for v t by (cases v) auto
  then show ?thesis
    by (auto simp: status_digest_def jget_def map_of_sort_key map_of_map_canon split: option.splits)
qed

lemma status_digest_hex: "hex_sha status_digest"
proof -
  have "hex_between 64 64 (replicate 64 (CHR ''d''))" "hex_between 64 64 (replicate 64 (CHR ''c''))" by code_simp+
  then show ?thesis by (simp add: hex_sha_def status_digest_def)
qed

lemma status_digest_queue:
  "queue_fingerprint status_digest q
    = (if mq_status q = MQ_INTEGRATING then replicate 64 (CHR ''d'') else replicate 64 (CHR ''c''))"
  unfolding queue_fingerprint_def status_digest_obj
  by (cases "mq_status q") (simp_all add: queue_fields_def jget_def)

lemma status_digest_sources:
  "session_graph_fingerprint status_digest s = hex64 ()" "session_budget_fingerprint status_digest s = hex64 ()"
  "plan_fingerprint status_digest p = hex64 ()"
  unfolding session_graph_fingerprint_def graph_fingerprint_def session_budget_fingerprint_def budget_fingerprint_def
    plan_fingerprint_def work_graph_dict_def budget_policy_dict_def admission_plan_dict_def status_digest_obj
  by (cases "ap_status p"; simp add: jget_def)+

lemma status_digest_compute:
  "compute_merge_queue status_digest sha_text resolve s p records worktrees root head now previous
    = compute_merge_queue hex64 sha_text resolve s p records worktrees root head now previous"
  unfolding compute_merge_queue_def status_digest_sources
  by (simp add: session_graph_fingerprint_def graph_fingerprint_def session_budget_fingerprint_def
      budget_fingerprint_def plan_fingerprint_def)

text \<open>The first queue of the sample session, and the state in which a claim of \<open>a\<close> leaves it.\<close>

definition claimed_queue :: "merge_queue \<Rightarrow> merge_queue" where
  "claimed_queue q = q\<lparr>mq_status := MQ_INTEGRATING, mq_entries := map (\<lambda>e. if me_work e = ''a''
     then e\<lparr>me_state := ME_INTEGRATING, me_detail := ''merge integration reserved''\<rparr> else e) (mq_entries q)\<rparr>"

definition claimed_store :: "merge_queue \<Rightarrow> swarm_store" where
  "claimed_store q = empty_store\<lparr>ss_sessions := [sample_session],
     ss_admissions := [\<lparr>vr_session = ''s'', vr_version = 1, vr_value = sample_plan\<rparr>],
     ss_queues := [\<lparr>vr_session = ''s'', vr_version = 2, vr_value = claimed_queue q\<rparr>]\<rparr>"

lemma sample_queue_ready:
  "\<exists>q e. first_queue = Inr q \<and> entry_of q ''a'' = Some e \<and> me_state e = ME_READY \<and> mq_status q = MQ_READY"
proof -
  have "(case first_queue of Inl _ \<Rightarrow> False | Inr q \<Rightarrow> mq_status q = MQ_READY
      \<and> map_option me_state (entry_of q ''a'') = Some ME_READY)" by code_simp
  then show ?thesis by (auto split: sum.splits)
qed

theorem refresh_loses_claim_witness:
  "\<exists>q st' v'. first_queue = Inr q
     \<and> save_merge_queue status_digest ''s'' q (hex64 ()) (claimed_store q) = Inr ((q, 3, True), st')
     \<and> map_option me_state (entry_of (claimed_queue q) ''a'') = Some ME_INTEGRATING
     \<and> stored_queue st' ''s'' = Some v' \<and> map_option me_state (entry_of (vr_value v') ''a'') = Some ME_READY"
proof -
  obtain q e where q: "first_queue = Inr q" "entry_of q ''a'' = Some e" "me_state e = ME_READY" "mq_status q = MQ_READY"
    using sample_queue_ready by blast
  let ?st = "claimed_store q"
  let ?v = "\<lparr>vr_session = ''s'', vr_version = 2, vr_value = claimed_queue q\<rparr>"
  have entry: "entry_of (claimed_queue q) ''a''
      = Some (e\<lparr>me_state := ME_INTEGRATING, me_detail := ''merge integration reserved''\<rparr>)"
    using q(2) find_row_SomeD [of me_work "''a''" "mq_entries q" e]
      find_row_update_same [of me_work "\<lambda>e. e\<lparr>me_state := ME_INTEGRATING, me_detail := ''merge integration reserved''\<rparr>"
        "''a''" "\<lambda>e. me_work e = ''a''" "mq_entries q"]
    by (simp add: entry_of_def claimed_queue_def update_rows_def)
  have found: "require_session ?st ''s'' = Inr sample_session"
    "stored_admission ?st ''s'' = Some \<lparr>vr_session = ''s'', vr_version = 1, vr_value = sample_plan\<rparr>"
    "stored_queue ?st ''s'' = Some ?v"
    by (simp_all add: claimed_store_def require_session_def stored_admission_def stored_queue_def find_row_def
        sample_session_def)
  have computed: "compute_merge_queue status_digest hex64 id sample_session sample_plan sample_executed sample_worktrees
     ''/r'' (replicate 40 (CHR ''b'')) ''t1'' None = Inr q"
    using q(1) by (simp only: status_digest_compute first_queue_def)
  have differ: "queue_fingerprint status_digest (claimed_queue q) \<noteq> queue_fingerprint status_digest q"
    unfolding status_digest_queue by (simp add: claimed_queue_def q(4))
  have "\<exists>st' v'. save_merge_queue status_digest ''s'' q (plan_fingerprint status_digest sample_plan) ?st
      = Inr ((q, 3, True), st')
    \<and> stored_queue st' ''s'' = Some v' \<and> entry_of (vr_value v') ''a'' = Some e"
    using refresh_loses_claim [OF status_digest_hex found, of "''a''", simplified, OF entry _ computed q(2,3) differ]
    by (simp, blast)
  then obtain st' v' where kept: "save_merge_queue status_digest ''s'' q (hex64 ()) ?st = Inr ((q, 3, True), st')"
      "stored_queue st' ''s'' = Some v'" "entry_of (vr_value v') ''a'' = Some e"
    unfolding status_digest_sources by blast
  show ?thesis
    by (intro exI [of _ q] exI [of _ st'] exI [of _ v'] conjI q(1) kept(1,2)) (simp_all add: entry kept(3) q(3))
qed

end
