(* ===== verification/Lifecycle.thy ===== *)
theory Lifecycle
  imports Codec
begin

text \<open>
  The lifecycle log of the adapters (\<open>protocol/lifecycle.py\<close>): events with their digests, the
  transition table, the validation of a stream, its report and replay, the append-only store
  with atomic batches, and the drafts that one adapter operation is translated into. SHA-256 of
  a text and of a canonical JSON value, and the clock, are parameters.
\<close>


section \<open>Event types\<close>

datatype event_type =
    SESSION_STARTED | TASK_SUBMITTED | INTENT_PROPOSED | ADMISSION_REQUESTED | ADMISSION_GRANTED
  | ADMISSION_DENIED | MUTATION_REQUESTED | MUTATION_ALLOWED | MUTATION_DENIED | MUTATION_OBSERVED
  | EXPANSION_REQUESTED | EXPANSION_GRANTED | EXPANSION_DENIED | VERIFICATION_STARTED
  | VERIFICATION_COMPLETED | AGENT_STOPPED | SESSION_ENDED

fun event_type_value :: "event_type \<Rightarrow> string" where
  "event_type_value SESSION_STARTED = ''SessionStarted''"
| "event_type_value TASK_SUBMITTED = ''TaskSubmitted''"
| "event_type_value INTENT_PROPOSED = ''IntentProposed''"
| "event_type_value ADMISSION_REQUESTED = ''AdmissionRequested''"
| "event_type_value ADMISSION_GRANTED = ''AdmissionGranted''"
| "event_type_value ADMISSION_DENIED = ''AdmissionDenied''"
| "event_type_value MUTATION_REQUESTED = ''MutationRequested''"
| "event_type_value MUTATION_ALLOWED = ''MutationAllowed''"
| "event_type_value MUTATION_DENIED = ''MutationDenied''"
| "event_type_value MUTATION_OBSERVED = ''MutationObserved''"
| "event_type_value EXPANSION_REQUESTED = ''ScopeExpansionRequested''"
| "event_type_value EXPANSION_GRANTED = ''ScopeExpansionGranted''"
| "event_type_value EXPANSION_DENIED = ''ScopeExpansionDenied''"
| "event_type_value VERIFICATION_STARTED = ''VerificationStarted''"
| "event_type_value VERIFICATION_COMPLETED = ''VerificationCompleted''"
| "event_type_value AGENT_STOPPED = ''AgentStopped''"
| "event_type_value SESSION_ENDED = ''SessionEnded''"

definition all_event_types :: "event_type list" where
  "all_event_types =
     [SESSION_STARTED, TASK_SUBMITTED, INTENT_PROPOSED, ADMISSION_REQUESTED, ADMISSION_GRANTED,
      ADMISSION_DENIED, MUTATION_REQUESTED, MUTATION_ALLOWED, MUTATION_DENIED, MUTATION_OBSERVED,
      EXPANSION_REQUESTED, EXPANSION_GRANTED, EXPANSION_DENIED, VERIFICATION_STARTED,
      VERIFICATION_COMPLETED, AGENT_STOPPED, SESSION_ENDED]"

text \<open>The rows of \<open>_ALLOWED_PREVIOUS\<close>; \<open>settled\<close> are the entries that most rows share.\<close>

definition settled_decisions :: "event_type list" where
  "settled_decisions = [MUTATION_ALLOWED, MUTATION_DENIED, MUTATION_OBSERVED, EXPANSION_GRANTED, EXPANSION_DENIED,
     VERIFICATION_COMPLETED]"

fun allowed_previous :: "event_type \<Rightarrow> event_type option list" where
  "allowed_previous SESSION_STARTED = None # map Some
     ([SESSION_STARTED, TASK_SUBMITTED, ADMISSION_GRANTED, ADMISSION_DENIED] @ settled_decisions @ [AGENT_STOPPED])"
| "allowed_previous TASK_SUBMITTED = map Some [SESSION_STARTED, VERIFICATION_COMPLETED, AGENT_STOPPED]"
| "allowed_previous INTENT_PROPOSED = map Some [TASK_SUBMITTED, ADMISSION_DENIED]"
| "allowed_previous ADMISSION_REQUESTED = [Some INTENT_PROPOSED]"
| "allowed_previous ADMISSION_GRANTED = [Some ADMISSION_REQUESTED]"
| "allowed_previous ADMISSION_DENIED = [Some ADMISSION_REQUESTED]"
| "allowed_previous MUTATION_REQUESTED = map Some ([SESSION_STARTED, ADMISSION_GRANTED, TASK_SUBMITTED] @ settled_decisions)"
| "allowed_previous MUTATION_ALLOWED = [Some MUTATION_REQUESTED]"
| "allowed_previous MUTATION_DENIED = [Some MUTATION_REQUESTED]"
| "allowed_previous MUTATION_OBSERVED = map Some [MUTATION_ALLOWED, MUTATION_OBSERVED]"
| "allowed_previous EXPANSION_REQUESTED = map Some ([SESSION_STARTED, TASK_SUBMITTED, ADMISSION_GRANTED] @ settled_decisions)"
| "allowed_previous EXPANSION_GRANTED = [Some EXPANSION_REQUESTED]"
| "allowed_previous EXPANSION_DENIED = [Some EXPANSION_REQUESTED]"
| "allowed_previous VERIFICATION_STARTED = map Some
     ([SESSION_STARTED, TASK_SUBMITTED, AGENT_STOPPED, ADMISSION_GRANTED] @ settled_decisions)"
| "allowed_previous VERIFICATION_COMPLETED = [Some VERIFICATION_STARTED]"
| "allowed_previous AGENT_STOPPED = map Some
     ([SESSION_STARTED, TASK_SUBMITTED, ADMISSION_GRANTED, ADMISSION_DENIED] @ settled_decisions)"
| "allowed_previous SESSION_ENDED = map Some
     ([SESSION_STARTED, TASK_SUBMITTED, ADMISSION_GRANTED, ADMISSION_DENIED] @ settled_decisions @ [AGENT_STOPPED])"


section \<open>Events\<close>

record lifecycle_event =
  le_id :: string
  le_type :: event_type
  le_adapter :: string
  le_session :: string
  le_sequence :: int
  le_timestamp :: string
  le_payload :: metadata
  le_protocol :: string
  le_protocol_version :: string
  le_run :: "string option"
  le_intent :: "string option"
  le_version :: "int option"
  le_cause :: "string option"
  le_digest :: string

datatype lifecycle_code =
    LC_EMPTY | LC_MIXED_SESSION | LC_MIXED_ADAPTER | LC_NON_CONTIGUOUS | LC_DUPLICATE_ID | LC_CAUSAL_LINK
  | LC_TRANSITION | LC_DIGEST | LC_PROTOCOL

record lifecycle_finding =
  lf_code :: lifecycle_code
  lf_message :: string
  lf_sequence :: "int option"
  lf_event :: "string option"

datatype lifecycle_error =
    LifecycleText model_error
  | LifecycleData codec_error
  | NonPositiveSequence
  | NegativeIntentVersion
  | BadLifecycleProtocol
  | BadLifecycleVersion string
  | DigestMismatch
  | CorruptStream
  | PartialRequest
  | ConflictingEvent
  | SequenceConflict
  | StateMachineViolation "lifecycle_finding list"

definition lift_text :: "model_error + 'a \<Rightarrow> lifecycle_error + 'a" where
  "lift_text r = (case r of Inl e \<Rightarrow> Inl (LifecycleText e) | Inr a \<Rightarrow> Inr a)"

lemma lift_text_eq [simp]: "lift_text r = Inr a \<longleftrightarrow> r = Inr a"
  by (simp add: lift_text_def split: sum.splits)

definition event_protocol :: string where
  "event_protocol = ''claim-plane.lifecycle-event.v1''"

definition event_protocol_version :: string where
  "event_protocol_version = ''1.0''"

definition version_json :: "int option \<Rightarrow> json" where
  "version_json v = (case v of None \<Rightarrow> JNull | Some n \<Rightarrow> JInt n)"

definition unsigned_fields :: "lifecycle_event \<Rightarrow> metadata" where
  "unsigned_fields e =
     [(''protocol'', JStr (le_protocol e)), (''protocol_version'', JStr (le_protocol_version e)),
      (''event_id'', JStr (le_id e)), (''event_type'', JStr (event_type_value (le_type e))),
      (''adapter'', JStr (le_adapter e)), (''session_id'', JStr (le_session e)), (''run_id'', jopt (le_run e)),
      (''intent_id'', jopt (le_intent e)), (''intent_version'', version_json (le_version e)),
      (''sequence'', JInt (le_sequence e)), (''caused_by'', jopt (le_cause e)),
      (''timestamp'', JStr (le_timestamp e)), (''payload'', JObj (le_payload e))]"

definition compute_digest :: "(json \<Rightarrow> string) \<Rightarrow> lifecycle_event \<Rightarrow> string" where
  "compute_digest sha e = sha (canon (JObj (unsigned_fields e)))"

definition event_dict :: "lifecycle_event \<Rightarrow> json" where
  "event_dict e = JObj (unsigned_fields e @ [(''digest'', JStr (le_digest e))])"

definition event_post_init :: "(json \<Rightarrow> string) \<Rightarrow> lifecycle_event \<Rightarrow> lifecycle_error + lifecycle_event" where
  "event_post_init sha e =
     res_bind (lift_text (clean ''event_id'' (le_id e))) (\<lambda>eid.
     res_bind (lift_text (clean ''adapter'' (le_adapter e))) (\<lambda>adapter.
     res_bind (lift_text (clean ''session_id'' (le_session e))) (\<lambda>session.
     res_bind (lift_text (clean_opt ''run_id'' (le_run e))) (\<lambda>run.
     res_bind (lift_text (clean_opt ''intent_id'' (le_intent e))) (\<lambda>intent.
     res_bind (lift_text (clean_opt ''caused_by'' (le_cause e))) (\<lambda>cause.
     if le_sequence e \<le> 0 then Inl NonPositiveSequence
     else if (case le_version e of None \<Rightarrow> False | Some v \<Rightarrow> v < 0) then Inl NegativeIntentVersion
     else if le_protocol e \<noteq> event_protocol then Inl BadLifecycleProtocol
     else if le_protocol_version e \<noteq> event_protocol_version then Inl (BadLifecycleVersion (le_protocol_version e))
     else
       let e' = e\<lparr>le_id := eid, le_adapter := adapter, le_session := session, le_run := run, le_intent := intent,
                  le_cause := cause\<rparr>;
           expected = compute_digest sha e'
       in if le_digest e \<noteq> [] \<and> le_digest e \<noteq> expected then Inl DigestMismatch
          else Inr (e'\<lparr>le_digest := expected\<rparr>)))))))"

definition lift_event :: "codec_error + 'a \<Rightarrow> lifecycle_error + 'a" where
  "lift_event r = (case r of Inl e \<Rightarrow> Inl (LifecycleData e) | Inr a \<Rightarrow> Inr a)"

definition version_of :: "metadata \<Rightarrow> string \<Rightarrow> codec_error + int option" where
  "version_of data key =
     (if jget data key = JNull then Inr None else res_bind (py_int (jget data key)) (\<lambda>n. Inr (Some n)))"

definition event_from_dict :: "(json \<Rightarrow> string) \<Rightarrow> json \<Rightarrow> lifecycle_error + lifecycle_event" where
  "event_from_dict sha v =
     res_bind (lift_event (as_object v)) (\<lambda>data.
     res_bind (lift_event (enum_of event_type_value all_event_types (JStr (get_str data ''event_type'')))) (\<lambda>etype.
     res_bind (lift_event (version_of data ''intent_version'')) (\<lambda>version.
     res_bind (lift_event (if truthy (jget data ''sequence'') then py_int (jget data ''sequence'') else Inr 0)) (\<lambda>sequence.
     res_bind (lift_event (get_dict data ''payload'')) (\<lambda>payload.
     res_bind (lift_event (get_text data ''run_id'')) (\<lambda>run.
     res_bind (lift_event (get_text data ''intent_id'')) (\<lambda>intent.
     res_bind (lift_event (get_text data ''caused_by'')) (\<lambda>cause.
     event_post_init sha
       \<lparr>le_id = get_str data ''event_id'', le_type = etype, le_adapter = get_str data ''adapter'',
        le_session = get_str data ''session_id'', le_sequence = sequence, le_timestamp = get_str data ''timestamp'',
        le_payload = payload, le_protocol = get_str data ''protocol'',
        le_protocol_version = get_str data ''protocol_version'', le_run = run, le_intent = intent,
        le_version = version, le_cause = cause, le_digest = get_str data ''digest''\<rparr>))))))))"


section \<open>Validating a stream\<close>

definition stream_finding :: "lifecycle_code \<Rightarrow> string \<Rightarrow> lifecycle_event \<Rightarrow> lifecycle_finding" where
  "stream_finding cd message e =
     \<lparr>lf_code = cd, lf_message = message, lf_sequence = Some (le_sequence e), lf_event = Some (le_id e)\<rparr>"

text \<open>The findings about one event, given the first one, the one before it and the ids seen so far.\<close>

definition event_findings ::
  "(json \<Rightarrow> string) \<Rightarrow> lifecycle_event \<Rightarrow> string list \<Rightarrow> lifecycle_event option \<Rightarrow> int \<Rightarrow> lifecycle_event
   \<Rightarrow> lifecycle_finding list" where
  "event_findings sha first seen previous expected e =
     (let ptype = map_option le_type previous
      in (if le_protocol e \<noteq> event_protocol then [stream_finding LC_PROTOCOL ''unsupported lifecycle event protocol'' e] else [])
       @ (if le_adapter e \<noteq> le_adapter first
          then [stream_finding LC_MIXED_ADAPTER ''one stream cannot contain multiple adapters'' e] else [])
       @ (if le_session e \<noteq> le_session first
          then [stream_finding LC_MIXED_SESSION ''one stream cannot contain multiple sessions'' e] else [])
       @ (if le_sequence e \<noteq> expected
          then [stream_finding LC_NON_CONTIGUOUS (''expected sequence '' @ int_str expected @ '', received ''
                  @ int_str (le_sequence e)) e] else [])
       @ (if le_id e \<in> set seen
          then [stream_finding LC_DUPLICATE_ID ''event_id is duplicated in the lifecycle stream'' e] else [])
       @ (if le_cause e \<noteq> map_option le_id previous
          then [stream_finding LC_CAUSAL_LINK ''caused_by does not match the previous durable event'' e] else [])
       @ (if le_digest e \<noteq> compute_digest sha e
          then [stream_finding LC_DIGEST ''event digest does not match the canonical envelope'' e] else [])
       @ (if ptype \<notin> set (allowed_previous (le_type e))
          then [stream_finding LC_TRANSITION (event_type_value (le_type e) @ '' cannot follow ''
                  @ (case ptype of None \<Rightarrow> ''stream start'' | Some t \<Rightarrow> event_type_value t)) e] else []))"

fun validate_from ::
  "(json \<Rightarrow> string) \<Rightarrow> lifecycle_event \<Rightarrow> string list \<Rightarrow> lifecycle_event option \<Rightarrow> int \<Rightarrow> lifecycle_event list
   \<Rightarrow> lifecycle_finding list" where
  "validate_from sha first seen previous expected [] = []"
| "validate_from sha first seen previous expected (e # es) =
     event_findings sha first seen previous expected e
     @ validate_from sha first (le_id e # seen) (Some e) (expected + 1) es"

definition validate_lifecycle_events :: "(json \<Rightarrow> string) \<Rightarrow> lifecycle_event list \<Rightarrow> lifecycle_finding list" where
  "validate_lifecycle_events sha es = (case es of
       [] \<Rightarrow> [\<lparr>lf_code = LC_EMPTY, lf_message = ''the lifecycle stream contains no events'', lf_sequence = None,
               lf_event = None\<rparr>]
     | first # _ \<Rightarrow> validate_from sha first [] None 1 es)"


section \<open>Reports\<close>

record lifecycle_report =
  lr_adapter :: "string option"
  lr_session :: "string option"
  lr_run :: "string option"
  lr_valid :: bool
  lr_outcome :: string
  lr_verified :: bool
  lr_count :: int
  lr_head :: "string option"
  lr_head_digest :: "string option"
  lr_intent :: "string option"
  lr_version :: "int option"
  lr_denied :: int
  lr_granted :: int
  lr_manifest :: "metadata option"
  lr_handshake :: "metadata option"
  lr_findings :: "lifecycle_finding list"

definition object_in :: "metadata \<Rightarrow> string \<Rightarrow> metadata option \<Rightarrow> metadata option" where
  "object_in payload key old = (case jget payload key of JObj m \<Rightarrow> Some m | _ \<Rightarrow> old)"

definition event_outcome :: "lifecycle_event \<Rightarrow> string \<times> bool \<Rightarrow> string \<times> bool" where
  "event_outcome e st = (case le_type e of
       ADMISSION_DENIED \<Rightarrow> (''denied'', snd st)
     | AGENT_STOPPED \<Rightarrow> (''stopped'', snd st)
     | SESSION_ENDED \<Rightarrow> (''ended'', snd st)
     | VERIFICATION_COMPLETED \<Rightarrow>
         (let ok = truthy (jget (le_payload e) ''verified'') in (if ok then ''verified'' else ''unverified'', ok))
     | _ \<Rightarrow> st)"

definition newer_version :: "int option \<Rightarrow> int option \<Rightarrow> int option" where
  "newer_version v old = (case v of None \<Rightarrow> old
     | Some n \<Rightarrow> Some (max (case old of None \<Rightarrow> 0 | Some m \<Rightarrow> m) n))"

definition empty_report :: "lifecycle_finding list \<Rightarrow> lifecycle_report" where
  "empty_report fs = \<lparr>lr_adapter = None, lr_session = None, lr_run = None, lr_valid = False, lr_outcome = ''corrupt'',
     lr_verified = False, lr_count = 0, lr_head = None, lr_head_digest = None, lr_intent = None, lr_version = None,
     lr_denied = 0, lr_granted = 0, lr_manifest = None, lr_handshake = None, lr_findings = fs\<rparr>"

definition build_lifecycle_report :: "(json \<Rightarrow> string) \<Rightarrow> lifecycle_event list \<Rightarrow> lifecycle_report" where
  "build_lifecycle_report sha es =
     (let fs = validate_lifecycle_events sha es
      in if es = [] then empty_report fs
         else
           let head = List.last es;
               outcome = fold event_outcome es (''in_progress'', False);
               run = find (\<lambda>e. str_or (le_run e) [] \<noteq> []) (rev es)
           in \<lparr>lr_adapter = Some (le_adapter head), lr_session = Some (le_session head),
               lr_run = (case run of None \<Rightarrow> None | Some e \<Rightarrow> le_run e), lr_valid = (fs = []),
               lr_outcome = (if fs \<noteq> [] then ''corrupt'' else fst outcome),
               lr_verified = (fs = [] \<and> snd outcome), lr_count = int (length es), lr_head = Some (le_id head),
               lr_head_digest = Some (le_digest head),
               lr_intent = fold (\<lambda>e i. if le_intent e = None then i else le_intent e) es None,
               lr_version = fold (\<lambda>e v. newer_version (le_version e) v) es None,
               lr_denied = int (length (filter (\<lambda>e. le_type e = MUTATION_DENIED) es)),
               lr_granted = int (length (filter (\<lambda>e. le_type e = EXPANSION_GRANTED) es)),
               lr_manifest = fold (\<lambda>e. object_in (le_payload e) ''adapter_manifest'') es None,
               lr_handshake = fold (\<lambda>e. object_in (le_payload e) ''adapter_handshake'') es None,
               lr_findings = fs\<rparr>)"

fun lifecycle_code_value :: "lifecycle_code \<Rightarrow> string" where
  "lifecycle_code_value LC_EMPTY = ''empty''"
| "lifecycle_code_value LC_MIXED_SESSION = ''mixed_session''"
| "lifecycle_code_value LC_MIXED_ADAPTER = ''mixed_adapter''"
| "lifecycle_code_value LC_NON_CONTIGUOUS = ''non_contiguous_sequence''"
| "lifecycle_code_value LC_DUPLICATE_ID = ''duplicate_event_id''"
| "lifecycle_code_value LC_CAUSAL_LINK = ''causal_link_mismatch''"
| "lifecycle_code_value LC_TRANSITION = ''invalid_transition''"
| "lifecycle_code_value LC_DIGEST = ''invalid_event_digest''"
| "lifecycle_code_value LC_PROTOCOL = ''invalid_protocol''"

definition finding_text :: "lifecycle_finding list \<Rightarrow> string" where
  "finding_text fs = join ''; '' (map (\<lambda>f. lifecycle_code_value (lf_code f) @ '': '' @ lf_message f) fs)"

text \<open>\<open>f"{n:04d}"\<close> of a positive number, and \<open>f"{value}"\<close> of an optional one.\<close>

definition four_digits :: "int \<Rightarrow> string" where
  "four_digits n = (let s = int_str n in replicate (4 - length s) (CHR ''0'') @ s)"

definition show_version :: "int option \<Rightarrow> string" where
  "show_version v = (case v of None \<Rightarrow> ''None'' | Some n \<Rightarrow> int_str n)"

definition replay_line :: "lifecycle_event \<Rightarrow> string" where
  "replay_line e = four_digits (le_sequence e) @ '' '' @ le_timestamp e @ '' '' @ event_type_value (le_type e)
     @ (case le_intent e of None \<Rightarrow> [] | Some i \<Rightarrow> '' intent='' @ i @ ''@'' @ show_version (le_version e))"

definition render_lifecycle_replay :: "(json \<Rightarrow> string) \<Rightarrow> lifecycle_event list \<Rightarrow> string list" where
  "render_lifecycle_replay sha es =
     (let r = build_lifecycle_report sha es
      in if \<not> lr_valid r then [''INVALID LIFECYCLE: '' @ finding_text (lr_findings r)] else map replay_line es)"

end
