(* ===== verification/LifecycleStore.thy ===== *)
theory LifecycleStore
  imports Lifecycle
begin

text \<open>
  The append-only store of lifecycle events (\<open>LifecycleEventStore\<close> of \<open>protocol/lifecycle.py\<close>) and
  the drafts an adapter operation becomes. A row holds the event it was written from, its payload in
  canonical form; reading runs the constructor again, which checks the digest. One batch is one transaction: an error
  leaves no state behind.
\<close>


section \<open>Drafts\<close>

record event_draft =
  ed_type :: event_type
  ed_payload :: metadata
  ed_intent :: "string option"
  ed_version :: "int option"

definition draft_post_init :: "event_draft \<Rightarrow> lifecycle_error + event_draft" where
  "draft_post_init d =
     res_bind (lift_text (clean_opt ''intent_id'' (ed_intent d))) (\<lambda>intent.
     if (case ed_version d of None \<Rightarrow> False | Some v \<Rightarrow> v < 0) then Inl NegativeIntentVersion
     else Inr (d\<lparr>ed_intent := intent\<rparr>))"

definition draft_intent :: "string option \<Rightarrow> event_draft \<Rightarrow> string option" where
  "draft_intent other d = (if str_or (ed_intent d) [] \<noteq> [] then ed_intent d else other)"

definition draft_version :: "int option \<Rightarrow> event_draft \<Rightarrow> int option" where
  "draft_version other d = (if ed_version d \<noteq> None then ed_version d else other)"


section \<open>The store\<close>

record event_request =
  eq_adapter :: string
  eq_session :: string
  eq_request :: string
  eq_run :: "string option"
  eq_intent :: "string option"
  eq_version :: "int option"
  eq_expected :: "int option"

definition request_clean :: "event_request \<Rightarrow> lifecycle_error + event_request" where
  "request_clean q =
     res_bind (lift_text (clean ''adapter'' (eq_adapter q))) (\<lambda>adapter.
     res_bind (lift_text (clean ''session_id'' (eq_session q))) (\<lambda>session.
     res_bind (lift_text (clean ''request_id'' (eq_request q))) (\<lambda>request.
     res_bind (lift_text (clean_opt ''run_id'' (eq_run q))) (\<lambda>run.
     res_bind (lift_text (clean_opt ''default_intent_id'' (eq_intent q))) (\<lambda>intent.
     Inr (q\<lparr>eq_adapter := adapter, eq_session := session, eq_request := request, eq_run := run,
            eq_intent := intent\<rparr>))))))"

definition event_identity :: "(string \<Rightarrow> string) \<Rightarrow> event_request \<Rightarrow> event_type \<Rightarrow> nat \<Rightarrow> string" where
  "event_identity sha_text q t ordinal =
     ''evt_'' @ take 40 (sha_text (join ''|'' [event_protocol, eq_adapter q, eq_session q, eq_request q,
       event_type_value t, nat_str ordinal]))"

definition stream_rows :: "string \<Rightarrow> string \<Rightarrow> lifecycle_event list \<Rightarrow> lifecycle_event list" where
  "stream_rows adapter session st =
     sort_key le_sequence (filter (\<lambda>e. le_adapter e = adapter \<and> le_session e = session) st)"

definition read_stream :: "(json \<Rightarrow> string) \<Rightarrow> string \<Rightarrow> string \<Rightarrow> lifecycle_event list \<Rightarrow> lifecycle_error + lifecycle_event list" where
  "read_stream sha adapter session st = res_map (event_post_init sha) (stream_rows adapter session st)"

definition list_lifecycle_events ::
  "(json \<Rightarrow> string) \<Rightarrow> string \<Rightarrow> string \<Rightarrow> lifecycle_event list \<Rightarrow> lifecycle_error + lifecycle_event list" where
  "list_lifecycle_events sha adapter session st = (case read_stream sha adapter session st of
       Inl _ \<Rightarrow> Inl CorruptStream | Inr es \<Rightarrow> Inr es)"

definition same_payload :: "metadata \<Rightarrow> metadata \<Rightarrow> bool" where
  "same_payload a b = (eq_form (JObj a) = eq_form (JObj b))"

definition draft_matches :: "event_request \<Rightarrow> event_draft \<Rightarrow> lifecycle_event \<Rightarrow> bool" where
  "draft_matches q d e \<longleftrightarrow> le_type e = ed_type d \<and> le_run e = eq_run q \<and> le_intent e = draft_intent (eq_intent q) d
     \<and> le_version e = draft_version (eq_version q) d \<and> same_payload (le_payload e) (ed_payload d)"

text \<open>\<open>{event.event_id: event for event in existing}\<close>: the last event of an id counts.\<close>

definition event_of :: "lifecycle_event list \<Rightarrow> string \<Rightarrow> lifecycle_event option" where
  "event_of es eid = find_row le_id eid (rev es)"

text \<open>
  The events of a repeated request: none when some draft is new, an error when one is stored with
  other data.
\<close>

fun repeated_events ::
  "(string \<Rightarrow> string) \<Rightarrow> event_request \<Rightarrow> lifecycle_event list \<Rightarrow> (nat \<times> event_draft) list
   \<Rightarrow> lifecycle_error + lifecycle_event list option" where
  "repeated_events sha_text q existing [] = Inr (Some [])"
| "repeated_events sha_text q existing ((n, d) # ds) =
     (case event_of existing (event_identity sha_text q (ed_type d) n) of
        None \<Rightarrow> Inr None
      | Some e \<Rightarrow>
          if \<not> draft_matches q d e then Inl ConflictingEvent
          else res_bind (repeated_events sha_text q existing ds) (\<lambda>r. Inr (map_option (Cons e) r)))"

definition candidate_event ::
  "(string \<Rightarrow> string) \<Rightarrow> (nat \<Rightarrow> string) \<Rightarrow> event_request \<Rightarrow> int \<Rightarrow> string option \<Rightarrow> nat \<times> event_draft \<Rightarrow> lifecycle_event" where
  "candidate_event sha_text stamp q current cause p =
     (case p of (n, d) \<Rightarrow>
       \<lparr>le_id = event_identity sha_text q (ed_type d) n, le_type = ed_type d, le_adapter = eq_adapter q,
        le_session = eq_session q, le_sequence = current + int n + 1, le_timestamp = stamp n,
        le_payload = ed_payload d, le_protocol = event_protocol, le_protocol_version = event_protocol_version,
        le_run = eq_run q, le_intent = draft_intent (eq_intent q) d, le_version = draft_version (eq_version q) d,
        le_cause = cause, le_digest = []\<rparr>)"

fun candidate_events ::
  "(json \<Rightarrow> string) \<Rightarrow> (string \<Rightarrow> string) \<Rightarrow> (nat \<Rightarrow> string) \<Rightarrow> event_request \<Rightarrow> int \<Rightarrow> string option
   \<Rightarrow> (nat \<times> event_draft) list \<Rightarrow> lifecycle_error + lifecycle_event list" where
  "candidate_events sha sha_text stamp q current cause [] = Inr []"
| "candidate_events sha sha_text stamp q current cause (p # ps) =
     res_bind (event_post_init sha (candidate_event sha_text stamp q current cause p)) (\<lambda>e.
     res_bind (candidate_events sha sha_text stamp q current (Some (le_id e)) ps) (\<lambda>es. Inr (e # es)))"

definition same_stored :: "lifecycle_event \<Rightarrow> lifecycle_event \<Rightarrow> bool" where
  "same_stored old e \<longleftrightarrow> le_type old = le_type e \<and> le_adapter old = le_adapter e \<and> le_session old = le_session e
     \<and> le_run old = le_run e \<and> le_intent old = le_intent e \<and> le_version old = le_version e
     \<and> same_payload (le_payload old) (le_payload e)"

text \<open>The row of an event: \<open>payload_json\<close> is the canonical text of its payload.\<close>

definition durable :: "lifecycle_event \<Rightarrow> lifecycle_event" where
  "durable e = e\<lparr>le_payload := sort_key fst (map (map_prod id canon) (le_payload e))\<rparr>"

text \<open>One INSERT, unless the id is stored: event ids are the primary key of the whole table.\<close>

definition store_event ::
  "(json \<Rightarrow> string) \<Rightarrow> lifecycle_event list \<times> lifecycle_event list \<Rightarrow> lifecycle_event
   \<Rightarrow> lifecycle_error + lifecycle_event list \<times> lifecycle_event list" where
  "store_event sha p e = (case find_row le_id (le_id e) (fst p) of
       None \<Rightarrow> Inr (fst p @ [durable e], snd p @ [e])
     | Some row \<Rightarrow> res_bind (event_post_init sha row) (\<lambda>old.
         if same_stored old e then Inr (fst p, snd p @ [old]) else Inl ConflictingEvent))"

fun store_events ::
  "(json \<Rightarrow> string) \<Rightarrow> lifecycle_event list \<Rightarrow> lifecycle_event list \<times> lifecycle_event list
   \<Rightarrow> lifecycle_error + lifecycle_event list \<times> lifecycle_event list" where
  "store_events sha [] p = Inr p"
| "store_events sha (e # es) p = res_bind (store_event sha p e) (store_events sha es)"

definition append_new ::
  "(json \<Rightarrow> string) \<Rightarrow> (string \<Rightarrow> string) \<Rightarrow> (nat \<Rightarrow> string) \<Rightarrow> event_request \<Rightarrow> (nat \<times> event_draft) list
   \<Rightarrow> lifecycle_event list \<Rightarrow> lifecycle_event list \<Rightarrow> lifecycle_error + lifecycle_event list \<times> lifecycle_event list" where
  "append_new sha sha_text stamp q ds existing st =
     (let current = int (length existing)
      in if list_ex (\<lambda>(n, d). event_of existing (event_identity sha_text q (ed_type d) n) \<noteq> None) ds then Inl PartialRequest
         else if (case eq_expected q of None \<Rightarrow> False | Some n \<Rightarrow> n \<noteq> current) then Inl SequenceConflict
         else
           res_bind (candidate_events sha sha_text stamp q current
             (if existing = [] then None else Some (le_id (List.last existing))) ds) (\<lambda>candidates.
           let fs = validate_lifecycle_events sha (existing @ candidates)
           in if fs \<noteq> [] then Inl (StateMachineViolation fs)
              else res_bind (store_events sha candidates (st, [])) (\<lambda>p. Inr (snd p, fst p))))"

definition append_batch ::
  "(json \<Rightarrow> string) \<Rightarrow> (string \<Rightarrow> string) \<Rightarrow> (nat \<Rightarrow> string) \<Rightarrow> event_request \<Rightarrow> event_draft list
   \<Rightarrow> lifecycle_event list \<Rightarrow> lifecycle_error + lifecycle_event list \<times> lifecycle_event list" where
  "append_batch sha sha_text stamp request drafts st =
     (if drafts = [] then Inr ([], st)
      else
      res_bind (request_clean request) (\<lambda>q.
      res_bind (read_stream sha (eq_adapter q) (eq_session q) st) (\<lambda>existing.
      if existing \<noteq> [] \<and> \<not> lr_valid (build_lifecycle_report sha existing) then Inl CorruptStream
      else
        let ds = enumerate 0 drafts
        in res_bind (repeated_events sha_text q existing ds) (\<lambda>repeated.
           case repeated of
             Some es \<Rightarrow> Inr (es, st)
           | None \<Rightarrow> append_new sha sha_text stamp q ds existing st))))"

definition stream_report :: "(json \<Rightarrow> string) \<Rightarrow> string \<Rightarrow> string \<Rightarrow> lifecycle_event list \<Rightarrow> lifecycle_error + lifecycle_report" where
  "stream_report sha adapter session st =
     res_bind (list_lifecycle_events sha adapter session st) (\<lambda>es. Inr (build_lifecycle_report sha es))"

definition stream_replay :: "(json \<Rightarrow> string) \<Rightarrow> string \<Rightarrow> string \<Rightarrow> lifecycle_event list \<Rightarrow> lifecycle_error + string list" where
  "stream_replay sha adapter session st =
     res_bind (list_lifecycle_events sha adapter session st) (\<lambda>es. Inr (render_lifecycle_replay sha es))"

text \<open>The lines an export writes and a load reads, as JSON values.\<close>

definition export_stream :: "(json \<Rightarrow> string) \<Rightarrow> string \<Rightarrow> string \<Rightarrow> lifecycle_event list \<Rightarrow> lifecycle_error + json list" where
  "export_stream sha adapter session st =
     res_bind (list_lifecycle_events sha adapter session st) (\<lambda>es.
     if \<not> lr_valid (build_lifecycle_report sha es) then Inl CorruptStream
     else Inr (map (canon \<circ> event_dict) es))"

definition load_stream :: "(json \<Rightarrow> string) \<Rightarrow> json list \<Rightarrow> lifecycle_error + lifecycle_event list" where
  "load_stream sha rows = (case res_map (event_from_dict sha) rows of
       Inl _ \<Rightarrow> Inl CorruptStream
     | Inr es \<Rightarrow> if lr_valid (build_lifecycle_report sha es) then Inr es else Inl CorruptStream)"


section \<open>What an adapter operation becomes\<close>

datatype adapter_operation =
    ENROLL_PROJECT | UNENROLL_PROJECT | DOCTOR | START_SESSION | STOP_SESSION | SUBMIT_TASK | PROPOSE_INTENT
  | REQUEST_MUTATION | REQUEST_AMENDMENT | OBSERVE_RESULT | VERIFY_COMPLETION | INSPECT | CANCEL | RESUME

datatype adapter_status = ST_SUCCEEDED | ST_DENIED | ST_CANCELLED | ST_FAILED

text \<open>The order of the event types of one operation; \<open>denied\<close> when it failed or was refused.\<close>

fun operation_events :: "adapter_operation \<Rightarrow> bool \<Rightarrow> event_type list" where
  "operation_events START_SESSION _ = [SESSION_STARTED]"
| "operation_events RESUME _ = [SESSION_STARTED]"
| "operation_events SUBMIT_TASK _ = [TASK_SUBMITTED]"
| "operation_events PROPOSE_INTENT denied =
     [INTENT_PROPOSED, ADMISSION_REQUESTED, if denied then ADMISSION_DENIED else ADMISSION_GRANTED]"
| "operation_events REQUEST_MUTATION denied = [MUTATION_REQUESTED, if denied then MUTATION_DENIED else MUTATION_ALLOWED]"
| "operation_events OBSERVE_RESULT _ = [MUTATION_OBSERVED]"
| "operation_events REQUEST_AMENDMENT denied = [EXPANSION_REQUESTED, if denied then EXPANSION_DENIED else EXPANSION_GRANTED]"
| "operation_events VERIFY_COMPLETION _ = [VERIFICATION_STARTED, VERIFICATION_COMPLETED]"
| "operation_events CANCEL _ = [AGENT_STOPPED]"
| "operation_events STOP_SESSION _ = [SESSION_ENDED]"
| "operation_events _ _ = []"

end
