(* ===== verification/LifecycleLaws.thy ===== *)
theory LifecycleLaws
  imports LifecycleStore Worktrees
begin

text \<open>
  The laws of the lifecycle log: the constructor of an event is a retraction that keeps the
  digest of the stored form, a validated stream is a path of the transition table with
  consecutive sequence numbers, an appended batch is stored whole behind the stream it was
  validated with, and so every stream of a store that appends built is valid.
\<close>

section \<open>Events\<close>

lemma guard_Inr: "(if b then Inl x else y) = Inr z \<longleftrightarrow> \<not> b \<and> y = Inr z"
  by simp

lemma event_post_initE:
  assumes "event_post_init sha e = Inr e'"
  obtains "clean ''event_id'' (le_id e) = Inr (le_id e')" "clean ''adapter'' (le_adapter e) = Inr (le_adapter e')"
    "clean ''session_id'' (le_session e) = Inr (le_session e')" "clean_opt ''run_id'' (le_run e) = Inr (le_run e')"
    "clean_opt ''intent_id'' (le_intent e) = Inr (le_intent e')"
    "clean_opt ''caused_by'' (le_cause e) = Inr (le_cause e')"
    "0 < le_sequence e" "\<forall>v. le_version e = Some v \<longrightarrow> 0 \<le> v" "le_protocol e = event_protocol"
    "le_protocol_version e = event_protocol_version" "le_type e' = le_type e" "le_sequence e' = le_sequence e"
    "le_timestamp e' = le_timestamp e" "le_payload e' = le_payload e" "le_protocol e' = le_protocol e"
    "le_protocol_version e' = le_protocol_version e" "le_version e' = le_version e"
    "le_digest e' = compute_digest sha e'"
proof -
  have d: "compute_digest sha (x\<lparr>le_digest := d\<rparr>) = compute_digest sha x" for x d
    by (simp add: compute_digest_def unsigned_fields_def)
  from assms [unfolded event_post_init_def res_bind_eq_Inr lift_text_eq Let_def guard_Inr sum.inject] show thesis
  proof (elim exE conjE)
    fix eid adapter session run intent cause
    let ?e = "e\<lparr>le_id := eid, le_adapter := adapter, le_session := session, le_run := run, le_intent := intent,
        le_cause := cause\<rparr>"
    assume c: "clean ''event_id'' (le_id e) = Inr eid" "clean ''adapter'' (le_adapter e) = Inr adapter"
        "clean ''session_id'' (le_session e) = Inr session" "clean_opt ''run_id'' (le_run e) = Inr run"
        "clean_opt ''intent_id'' (le_intent e) = Inr intent" "clean_opt ''caused_by'' (le_cause e) = Inr cause"
      and g: "\<not> le_sequence e \<le> 0" "\<not> (case le_version e of None \<Rightarrow> False | Some v \<Rightarrow> v < 0)"
        "\<not> le_protocol e \<noteq> event_protocol" "\<not> le_protocol_version e \<noteq> event_protocol_version"
      and e': "?e\<lparr>le_digest := compute_digest sha ?e\<rparr> = e'"
    have "\<forall>v. le_version e = Some v \<longrightarrow> 0 \<le> v" using g(2) by (auto split: option.splits)
    with c g(1,3,4) show thesis by (intro that) (simp_all add: e' [symmetric] d)
  qed
qed

definition event_ok :: "(json \<Rightarrow> string) \<Rightarrow> lifecycle_event \<Rightarrow> bool" where
  "event_ok sha e \<longleftrightarrow> strip (le_id e) = le_id e \<and> le_id e \<noteq> [] \<and> strip (le_adapter e) = le_adapter e \<and> le_adapter e \<noteq> []
     \<and> strip (le_session e) = le_session e \<and> le_session e \<noteq> [] \<and> clean_opt ''run_id'' (le_run e) = Inr (le_run e)
     \<and> clean_opt ''intent_id'' (le_intent e) = Inr (le_intent e) \<and> clean_opt ''caused_by'' (le_cause e) = Inr (le_cause e)
     \<and> 0 < le_sequence e \<and> (\<forall>v. le_version e = Some v \<longrightarrow> 0 \<le> v) \<and> le_protocol e = event_protocol
     \<and> le_protocol_version e = event_protocol_version \<and> le_digest e = compute_digest sha e"

lemma event_post_init_ok: "event_post_init sha e = Inr e' \<Longrightarrow> event_ok sha e'"
  by (erule event_post_initE) (simp add: event_ok_def clean_Inr clean_opt_idem)

lemma event_ok_post_init:
  assumes "event_ok sha e"
  shows "event_post_init sha e = Inr e"
proof -
  have same: "e\<lparr>le_id := le_id e, le_adapter := le_adapter e, le_session := le_session e, le_run := le_run e,
      le_intent := le_intent e, le_cause := le_cause e\<rparr> = e" by simp
  have digest: "e\<lparr>le_digest := compute_digest sha e\<rparr> = e"
    using assms by (simp add: event_ok_def)
  have guards: "(case le_version e of None \<Rightarrow> False | Some v \<Rightarrow> v < 0) = False" "(le_sequence e \<le> 0) = False"
    using assms by (auto simp: event_ok_def split: option.splits)
  have texts: "lift_text (clean f (le_id e)) = Inr (le_id e)" "lift_text (clean f (le_adapter e)) = Inr (le_adapter e)"
    "lift_text (clean f (le_session e)) = Inr (le_session e)" for f
    using assms by (simp_all add: event_ok_def clean_def)
  have opts: "lift_text (clean_opt ''run_id'' (le_run e)) = Inr (le_run e)"
    "lift_text (clean_opt ''intent_id'' (le_intent e)) = Inr (le_intent e)"
    "lift_text (clean_opt ''caused_by'' (le_cause e)) = Inr (le_cause e)"
    using assms by (simp_all add: event_ok_def)
  have protocol: "le_protocol e = event_protocol" "le_protocol_version e = event_protocol_version"
    "le_digest e = compute_digest sha e" using assms by (simp_all only: event_ok_def)
  show ?thesis
    unfolding event_post_init_def texts opts res_bind_Inr guards Let_def same
    by (simp add: protocol digest)
qed

lemma event_ok_fixed: "event_ok sha e \<longleftrightarrow> event_post_init sha e = Inr e"
  using event_post_init_ok event_ok_post_init by blast

lemma event_post_init_fields:
  assumes "event_post_init sha e = Inr e'"
  shows "le_type e' = le_type e" "le_sequence e' = le_sequence e" "le_payload e' = le_payload e"
    "le_version e' = le_version e" "le_timestamp e' = le_timestamp e" "le_id e' = strip (le_id e)"
    "le_adapter e' = strip (le_adapter e)" "le_session e' = strip (le_session e)"
    "clean_opt ''run_id'' (le_run e) = Inr (le_run e')" "clean_opt ''intent_id'' (le_intent e) = Inr (le_intent e')"
    "clean_opt ''caused_by'' (le_cause e) = Inr (le_cause e')"
  using assms by (auto elim!: event_post_initE simp: clean_def Let_def split: if_splits)

lemma clean_opt_same: "clean_opt f v = Inr w \<Longrightarrow> clean_opt g w = Inr u \<Longrightarrow> u = w"
  using clean_opt_idem [of f v w g] by simp

text \<open>The stored form of an event.\<close>

lemma durable_fields [simp]:
  "le_id (durable e) = le_id e" "le_type (durable e) = le_type e" "le_adapter (durable e) = le_adapter e"
  "le_session (durable e) = le_session e" "le_sequence (durable e) = le_sequence e"
  "le_timestamp (durable e) = le_timestamp e" "le_protocol (durable e) = le_protocol e"
  "le_protocol_version (durable e) = le_protocol_version e" "le_run (durable e) = le_run e"
  "le_intent (durable e) = le_intent e" "le_version (durable e) = le_version e" "le_cause (durable e) = le_cause e"
  "le_digest (durable e) = le_digest e"
  by (simp_all add: durable_def)

lemma durable_payload: "JObj (le_payload (durable e)) = canon (JObj (le_payload e))"
  by (simp add: durable_def)

lemma durable_idem [simp]: "durable (durable e) = durable e"
proof -
  have "JObj (le_payload (durable (durable e))) = JObj (le_payload (durable e))"
    by (simp only: durable_payload canon_idem)
  then show ?thesis by (simp add: durable_def)
qed

lemma compute_digest_durable [simp]: "compute_digest sha (durable e) = compute_digest sha e"
proof -
  have "map (map_prod id canon) (unsigned_fields (durable e)) = map (map_prod id canon) (unsigned_fields e)"
    using canon_idem [of "JObj (le_payload e)"] by (simp add: unsigned_fields_def durable_payload)
  then show ?thesis by (simp add: compute_digest_def)
qed

lemma event_ok_durable: "event_ok sha e \<Longrightarrow> event_ok sha (durable e)"
  by (simp add: event_ok_def)


section \<open>Valid streams\<close>

text \<open>What a valid stream is, said of positions; \<open>earlier\<close> is the event before a position.\<close>

definition earlier :: "lifecycle_event list \<Rightarrow> nat \<Rightarrow> lifecycle_event option" where
  "earlier es i = (if i = 0 then None else Some (es ! (i - 1)))"

definition sound_event :: "(json \<Rightarrow> string) \<Rightarrow> lifecycle_event list \<Rightarrow> nat \<Rightarrow> bool" where
  "sound_event sha es i \<longleftrightarrow>
     le_protocol (es ! i) = event_protocol \<and> le_adapter (es ! i) = le_adapter (hd es)
   \<and> le_session (es ! i) = le_session (hd es) \<and> le_sequence (es ! i) = int i + 1
   \<and> le_cause (es ! i) = map_option le_id (earlier es i) \<and> le_digest (es ! i) = compute_digest sha (es ! i)
   \<and> map_option le_type (earlier es i) \<in> set (allowed_previous (le_type (es ! i)))"

definition sound_stream :: "(json \<Rightarrow> string) \<Rightarrow> lifecycle_event list \<Rightarrow> bool" where
  "sound_stream sha es \<longleftrightarrow> es \<noteq> [] \<and> distinct (map le_id es) \<and> (\<forall>i < length es. sound_event sha es i)"

lemma event_findings_Nil:
  "event_findings sha first seen previous n e = [] \<longleftrightarrow>
     le_protocol e = event_protocol \<and> le_adapter e = le_adapter first \<and> le_session e = le_session first
   \<and> le_sequence e = n \<and> le_id e \<notin> set seen \<and> le_cause e = map_option le_id previous
   \<and> le_digest e = compute_digest sha e \<and> map_option le_type previous \<in> set (allowed_previous (le_type e))"
  by (auto simp: event_findings_def Let_def)

lemma validate_from_Nil:
  "validate_from sha first seen previous n es = [] \<longleftrightarrow>
     (\<forall>i < length es. event_findings sha first (rev (map le_id (take i es)) @ seen)
        (if i = 0 then previous else Some (es ! (i - 1))) (n + int i) (es ! i) = [])"
proof (induction es arbitrary: seen previous n)
  case (Cons e es)
  have step: "event_findings sha first (rev (map le_id (take (Suc i) (e # es))) @ seen)
        (if Suc i = 0 then previous else Some ((e # es) ! (Suc i - 1))) (n + int (Suc i)) ((e # es) ! Suc i)
      = event_findings sha first (rev (map le_id (take i es)) @ le_id e # seen)
        (if i = 0 then Some e else Some (es ! (i - 1))) (n + 1 + int i) (es ! i)" for i
    by (cases i) (simp_all add: add.assoc)
  show ?case unfolding length_Cons All_less_Suc2 validate_from.simps append_is_Nil_conv Cons.IH step by simp
qed simp

lemma distinct_take_iff: "distinct xs \<longleftrightarrow> (\<forall>i < length xs. xs ! i \<notin> set (take i xs))"
proof (induction xs rule: rev_induct)
  case (snoc x xs)
  then show ?case by (auto simp: nth_append less_Suc_eq)
qed simp

lemma validation_sound_stream: "validate_lifecycle_events sha es = [] \<longleftrightarrow> sound_stream sha es"
proof (cases es)
  case Nil
  then show ?thesis by (simp add: validate_lifecycle_events_def sound_stream_def)
next
  case (Cons first rest)
  have d: "distinct (map le_id es) \<longleftrightarrow> (\<forall>i < length es. le_id (es ! i) \<notin> le_id ` set (take i es))"
    by (simp add: distinct_take_iff take_map)
  have v: "validate_lifecycle_events sha es = validate_from sha (hd es) [] None 1 es" and ne: "es \<noteq> []"
    by (simp_all add: Cons validate_lifecycle_events_def)
  have event: "event_findings sha (hd es) (rev (map le_id (take i es)) @ []) (if i = 0 then None else Some (es ! (i - 1)))
      (1 + int i) (es ! i) = [] \<longleftrightarrow> le_id (es ! i) \<notin> le_id ` set (take i es) \<and> sound_event sha es i" for i
    unfolding event_findings_Nil sound_event_def earlier_def by (simp add: add.commute) blast
  show ?thesis
    unfolding v validate_from_Nil event sound_stream_def d using ne by blast
qed

lemma sound_streamD:
  assumes "sound_stream sha es" and "i < length es"
  shows "le_sequence (es ! i) = int i + 1" "le_adapter (es ! i) = le_adapter (hd es)"
    "le_session (es ! i) = le_session (hd es)"
    "map_option le_type (earlier es i) \<in> set (allowed_previous (le_type (es ! i)))"
  using assms by (simp_all add: sound_stream_def sound_event_def)

lemma sound_stream_durable [simp]: "sound_stream sha (map durable es) = sound_stream sha es"
proof -
  have "map_option le_id (earlier (map durable es) i) = map_option le_id (earlier es i)"
    "map_option le_type (earlier (map durable es) i) = map_option le_type (earlier es i)"
    if "i < length es" for i using that by (auto simp: earlier_def)
  then show ?thesis
    by (cases "es = []") (simp_all add: sound_stream_def sound_event_def hd_map comp_def)
qed

lemma sound_stream_sequences: "sound_stream sha es \<Longrightarrow> map le_sequence es = map (\<lambda>i. int i + 1) [0..<length es]"
  by (rule nth_equalityI) (simp_all add: sound_streamD)

lemma sound_stream_sorted:
  assumes "sound_stream sha es"
  shows "sort_key le_sequence es = es"
proof (rule sort_key_id_if_sorted)
  show "sorted (map le_sequence es)"
    unfolding sound_stream_sequences [OF assms] by (simp add: sorted_iff_nth_mono)
qed


section \<open>The invariant of the store\<close>

definition log_of :: "string \<Rightarrow> string \<Rightarrow> lifecycle_event list \<Rightarrow> lifecycle_event list" where
  "log_of adapter session st = filter (\<lambda>e. le_adapter e = adapter \<and> le_session e = session) st"

definition log_ok :: "(json \<Rightarrow> string) \<Rightarrow> lifecycle_event list \<Rightarrow> bool" where
  "log_ok sha st \<longleftrightarrow> keys_unique le_id st \<and> (\<forall>e \<in> set st. event_ok sha e \<and> durable e = e)
     \<and> (\<forall>a s. log_of a s st \<noteq> [] \<longrightarrow> sound_stream sha (log_of a s st))"

lemma log_ok_rows: "log_ok sha st \<Longrightarrow> stream_rows a s st = log_of a s st"
  using sound_stream_sorted [of sha "log_of a s st"] by (cases "log_of a s st = []") (auto simp: log_ok_def stream_rows_def log_of_def)

lemma log_ok_read:
  assumes "log_ok sha st"
  shows "read_stream sha a s st = Inr (log_of a s st)"
  unfolding read_stream_def log_ok_rows [OF assms]
  by (rule res_map_id) (use assms in \<open>auto simp: log_ok_def log_of_def event_ok_fixed\<close>)

lemma build_report_valid [simp]: "lr_valid (build_lifecycle_report sha es) \<longleftrightarrow> sound_stream sha es"
  by (auto simp: build_lifecycle_report_def empty_report_def Let_def validation_sound_stream [symmetric]
      validate_lifecycle_events_def)

lemma log_ok_empty: "log_ok sha []"
  by (simp add: log_ok_def log_of_def keys_unique_def)


section \<open>Appending\<close>

lemma candidate_events_spec:
  assumes "candidate_events sha sha_text stamp q current cause ps = Inr es"
  shows "list_all2 (\<lambda>p e. \<exists>c. event_post_init sha (candidate_event sha_text stamp q current c p) = Inr e) ps es"
  using assms by (induction ps arbitrary: cause es) (auto simp: res_bind_eq_Inr)

lemma candidate_fields [simp]:
  "le_adapter (candidate_event sha_text stamp q current c p) = eq_adapter q"
  "le_session (candidate_event sha_text stamp q current c p) = eq_session q"
  "le_run (candidate_event sha_text stamp q current c p) = eq_run q"
  "le_type (candidate_event sha_text stamp q current c p) = ed_type (snd p)"
  "le_payload (candidate_event sha_text stamp q current c p) = ed_payload (snd p)"
  "le_version (candidate_event sha_text stamp q current c p) = draft_version (eq_version q) (snd p)"
  "le_intent (candidate_event sha_text stamp q current c p) = draft_intent (eq_intent q) (snd p)"
  "le_id (candidate_event sha_text stamp q current c p) = event_identity sha_text q (ed_type (snd p)) (fst p)"
  by (simp_all add: candidate_event_def split: prod.splits)

lemma request_cleanD:
  assumes "request_clean request = Inr q"
  shows "strip (eq_adapter q) = eq_adapter q" "strip (eq_session q) = eq_session q"
    "clean_opt f (eq_run q) = Inr (eq_run q)" "clean_opt f (eq_intent q) = Inr (eq_intent q)"
    "eq_version q = eq_version request" "eq_expected q = eq_expected request"
  using assms by (auto simp: request_clean_def res_bind_eq_Inr dest: clean_Inr clean_opt_idem)

lemma candidates_in_stream:
  assumes "candidate_events sha sha_text stamp q current cause ps = Inr es" and "request_clean request = Inr q"
    and "e \<in> set es"
  shows "event_ok sha e" "le_adapter e = eq_adapter q" "le_session e = eq_session q"
proof -
  obtain i where i: "i < length es" "e = es ! i" using assms(3) by (auto simp: in_set_conv_nth)
  from list_all2_nthD2 [OF candidate_events_spec [OF assms(1)] i(1)]
  obtain p c where p: "event_post_init sha (candidate_event sha_text stamp q current c p) = Inr e"
    unfolding i(2) by blast
  show "event_ok sha e" by (rule event_post_init_ok [OF p])
  show "le_adapter e = eq_adapter q" "le_session e = eq_session q"
    using event_post_init_fields [OF p] request_cleanD [OF assms(2)] by simp_all
qed

text \<open>
  A stored id answers only for an event of the same stream, and there the validated batch has
  no duplicate: every event of the batch is inserted.
\<close>

lemma store_events_new:
  assumes "store_events sha es (st, acc) = Inr p"
    and "\<forall>e \<in> set st. event_ok sha e" and "\<forall>e \<in> set es. event_ok sha e \<and> le_adapter e = a \<and> le_session e = s"
    and "\<forall>e \<in> set es. le_id e \<notin> le_id ` set (log_of a s st)" and "distinct (map le_id es)"
  shows "p = (st @ map durable es, acc @ es) \<and> le_id ` set es \<inter> le_id ` set st = {}"
  using assms
proof (induction es arbitrary: st acc)
  case (Cons e es)
  have none: "find_row le_id (le_id e) st = None"
  proof (rule ccontr)
    assume "find_row le_id (le_id e) st \<noteq> None"
    then obtain row where row: "find_row le_id (le_id e) st = Some row" by auto
    then have "event_ok sha row" and id: "row \<in> set st" "le_id row = le_id e"
      using Cons.prems(2) by (auto dest: find_row_SomeD)
    then have "same_stored row e"
      using Cons.prems(1) row by (auto simp: store_event_def event_ok_fixed split: if_splits)
    then have "row \<in> set (log_of a s st)"
      using id Cons.prems(3) by (simp add: same_stored_def log_of_def)
    with id(2) have "le_id e \<in> le_id ` set (log_of a s st)" by (metis imageI)
    with Cons.prems(4) show False by simp
  qed
  have fresh: "\<forall>x \<in> set es. le_id x \<noteq> le_id e" using Cons.prems(5) by (auto simp: image_iff)
  from none have step: "store_events sha es (st @ [durable e], acc @ [e]) = Inr p"
    using Cons.prems(1) by (simp add: store_event_def)
  have "p = ((st @ [durable e]) @ map durable es, (acc @ [e]) @ es) \<and> le_id ` set es \<inter> le_id ` set (st @ [durable e]) = {}"
    by (rule Cons.IH [OF step]) (use Cons.prems in \<open>auto simp: event_ok_durable log_of_def dest!: bspec [OF fresh]\<close>)
  with none show ?case by (auto simp: find_row_None)
qed simp

lemma sound_stream_prefix_ids:
  "sound_stream sha (xs @ ys) \<Longrightarrow> distinct (map le_id ys) \<and> (\<forall>e \<in> set ys. le_id e \<notin> le_id ` set xs)"
  by (auto simp: sound_stream_def)

text \<open>The ways a batch succeeds: nothing to do, a repeated request, or a new one stored whole.\<close>

lemma append_batchE:
  assumes "append_batch sha sha_text stamp request drafts st = Inr (es, st')" and "log_ok sha st"
  obtains (nothing) "drafts = []" "es = []" "st' = st"
  | (repeated) q where "drafts \<noteq> []" "request_clean request = Inr q" "st' = st"
      "repeated_events sha_text q (log_of (eq_adapter q) (eq_session q) st) (enumerate 0 drafts) = Inr (Some es)"
  | (new) q cause where "drafts \<noteq> []" "request_clean request = Inr q" "st' = st @ map durable es"
      "candidate_events sha sha_text stamp q (int (length (log_of (eq_adapter q) (eq_session q) st))) cause
         (enumerate 0 drafts) = Inr es"
      "sound_stream sha (log_of (eq_adapter q) (eq_session q) st @ es)"
      "le_id ` set es \<inter> le_id ` set st = {}"
proof (cases "drafts = []")
  case True
  show thesis by (rule nothing [OF True]) (use assms(1) True in \<open>auto simp: append_batch_def\<close>)
next
  case False
  then obtain q repeated' where q: "request_clean request = Inr q"
    and rep: "repeated_events sha_text q (log_of (eq_adapter q) (eq_session q) st) (enumerate 0 drafts) = Inr repeated'"
    and res: "(case repeated' of Some es \<Rightarrow> Inr (es, st)
         | None \<Rightarrow> append_new sha sha_text stamp q (enumerate 0 drafts) (log_of (eq_adapter q) (eq_session q) st) st)
       = Inr (es, st')"
    using assms(1) by (auto simp: append_batch_def res_bind_eq_Inr log_ok_read [OF assms(2)] Let_def split: if_splits)
  show thesis
  proof (cases repeated')
    case (Some es')
    with rep res q False show thesis by (intro repeated) auto
  next
    case None
    with res obtain cause cs p where cs: "candidate_events sha sha_text stamp q
        (int (length (log_of (eq_adapter q) (eq_session q) st))) cause (enumerate 0 drafts) = Inr cs"
      and sound: "sound_stream sha (log_of (eq_adapter q) (eq_session q) st @ cs)"
      and p: "store_events sha cs (st, []) = Inr p" "es = snd p" "st' = fst p"
      by (auto simp: append_new_def res_bind_eq_Inr Let_def validation_sound_stream [symmetric] split: if_splits)
    have "p = (st @ map durable cs, [] @ cs) \<and> le_id ` set cs \<inter> le_id ` set st = {}"
      by (rule store_events_new [OF p(1), of "eq_adapter q" "eq_session q"])
        (use assms(2) candidates_in_stream [OF cs q] sound_stream_prefix_ids [OF sound] in \<open>auto simp: log_ok_def\<close>)
    with p have "es = cs" "st' = st @ map durable es" "le_id ` set es \<inter> le_id ` set st = {}" by auto
    with cs sound q False show thesis by (intro new) auto
  qed
qed

lemma append_batch_ok:
  assumes "append_batch sha sha_text stamp request drafts st = Inr (es, st')" and "log_ok sha st"
  shows "log_ok sha st'"
  using assms
proof (cases rule: append_batchE)
  case (new q cause)
  note c = candidates_in_stream [OF new(4,2)]
  let ?a = "eq_adapter q" and ?s = "eq_session q"
  have stream: "log_of a s (map durable es) = (if a = ?a \<and> s = ?s then map durable es else [])" for a s
    using c(2,3) by (auto simp: log_of_def filter_id_conv filter_empty_conv)
  have split: "log_of a s st' = log_of a s st @ log_of a s (map durable es)" for a s
    by (simp add: new(3) log_of_def)
  have fixed: "map durable (log_of a s st) = log_of a s st" for a s
    using assms(2) by (intro map_idI) (auto simp: log_ok_def log_of_def)
  have "sound_stream sha (log_of ?a ?s st')"
    using new(5) sound_stream_durable [of sha "log_of ?a ?s st @ es"] by (simp add: split stream fixed)
  moreover have "distinct (map le_id es)" using sound_stream_prefix_ids [OF new(5)] by blast
  moreover have "log_of a s st' = log_of a s st" if "\<not> (a = ?a \<and> s = ?s)" for a s
    using that by (auto simp: split stream)
  ultimately have "log_of a s st' \<noteq> [] \<Longrightarrow> sound_stream sha (log_of a s st')" for a s
    using assms(2) by (cases "a = ?a \<and> s = ?s") (simp_all add: log_ok_def)
  moreover have "keys_unique le_id st'"
    using assms(2) new(6) \<open>distinct (map le_id es)\<close> by (auto simp: new(3) log_ok_def keys_unique_def comp_def)
  moreover have "\<forall>e \<in> set st'. event_ok sha e \<and> durable e = e"
    using assms(2) c(1) by (auto simp: new(3) log_ok_def event_ok_durable)
  ultimately show ?thesis by (simp add: log_ok_def)
qed (use assms in simp_all)

end
