(* ===== verification/LifecycleProps.thy ===== *)
theory LifecycleProps
  imports LifecycleLaws
begin

text \<open>
  What the lifecycle log guarantees: every store that appends built is valid stream by stream, a
  mutation is observed only after it was asked for and allowed, a repeated request changes
  nothing, and an exported stream loads as the stream that was stored.
\<close>


section \<open>Reachable stores\<close>

inductive append_step ::
  "(json \<Rightarrow> string) \<Rightarrow> (string \<Rightarrow> string) \<Rightarrow> lifecycle_event list \<Rightarrow> lifecycle_event list \<Rightarrow> bool"
  for sha sha_text where
  append: "append_batch sha sha_text stamp request drafts st = Inr (es, st') \<Longrightarrow> append_step sha sha_text st st'"

inductive_cases append_stepE: "append_step sha sha_text st st'"

lemma append_step_ok:
  assumes "append_step sha sha_text st st'" and "log_ok sha st"
  shows "log_ok sha st' \<and> set st \<subseteq> set st'"
  using assms(1)
proof (rule append_stepE)
  fix stamp request drafts es
  assume a: "append_batch sha sha_text stamp request drafts st = Inr (es, st')"
  from a assms(2) have "set st \<subseteq> set st'" by (cases rule: append_batchE) auto
  with append_batch_ok [OF a assms(2)] show ?thesis by blast
qed

lemma appends_ok:
  assumes "(append_step sha sha_text)\<^sup>*\<^sup>* st st'" and "log_ok sha st"
  shows "log_ok sha st' \<and> set st \<subseteq> set st'"
  using assms by induction (auto dest: append_step_ok)

lemma reachable_log: "(append_step sha sha_text)\<^sup>*\<^sup>* [] st \<Longrightarrow> log_ok sha st"
  using appends_ok log_ok_empty by blast


section \<open>Repeated requests\<close>

lemma repeated_events_Some:
  "repeated_events sha_text q existing ds = Inr (Some es) \<longleftrightarrow>
     list_all2 (\<lambda>p e. event_of existing (event_identity sha_text q (ed_type (snd p)) (fst p)) = Some e
       \<and> draft_matches q (snd p) e) ds es"
proof (induction ds arbitrary: es)
  case (Cons p ds)
  show ?case
    by (cases es; cases p)
      (auto simp: res_bind_eq_Inr list_all2_Cons1 Cons.IH split: option.splits if_splits)
qed auto

lemma event_of_log:
  assumes "log_ok sha st" and "e \<in> set (log_of a s st)"
  shows "event_of (log_of a s st) (le_id e) = Some e"
proof -
  from assms(1) have "keys_unique le_id (rev (log_of a s st))"
    by (auto simp: log_ok_def keys_unique_def log_of_def rev_map [symmetric] distinct_map inj_on_def)
  then show ?thesis unfolding event_of_def by (rule find_row_unique) (use assms(2) in simp_all)
qed

lemma event_of_Some: "event_of es i = Some e \<Longrightarrow> e \<in> set es \<and> le_id e = i"
  by (auto simp: event_of_def dest: find_row_SomeD)

lemma identity_kept:
  assumes "hex_texts sha_text"
  shows "strip (event_identity sha_text q t n) = event_identity sha_text q t n"
proof (rule strip_no_space)
  have "\<not> is_space c" if "is_hex_lower c" for c
    using that by (auto simp: is_hex_lower_def is_space_def is_digit_def Let_def)
  moreover have "list_all (\<lambda>c. \<not> is_space c) ''evt_''" by code_simp
  ultimately show "list_all (\<lambda>c. \<not> is_space c) (event_identity sha_text q t n)"
    using assms by (auto simp: event_identity_def list_all_iff hex_texts_def dest!: in_set_takeD)
qed

lemma draft_matches_stored:
  assumes "event_post_init sha (candidate_event sha_text stamp q current c p) = Inr e"
    and "request_clean request = Inr q" and "draft_post_init (snd p) = Inr (snd p)"
  shows "draft_matches q (snd p) (durable e)"
proof -
  note f = event_post_init_fields [OF assms(1)]
  have same: "w = v" if "clean_opt a v = Inr w" "clean_opt b v = Inr v" for a b v w
    using that by (auto simp: clean_opt_def clean_def Let_def res_bind_eq_Inr split: option.splits if_splits)
  have "clean_opt ''intent_id'' (draft_intent (eq_intent q) (snd p)) = Inr (draft_intent (eq_intent q) (snd p))"
    using assms(3) request_cleanD(4) [OF assms(2)]
    by (cases "snd p") (auto simp: draft_post_init_def draft_intent_def res_bind_eq_Inr split: if_splits)
  then have intent: "le_intent e = draft_intent (eq_intent q) (snd p)" using f(10) by (auto dest: same)
  have run: "le_run e = eq_run q" using f(9) request_cleanD(3) [OF assms(2)] by (auto dest: same)
  have "eq_form (JObj (le_payload (durable e))) = eq_form (JObj (ed_payload (snd p)))"
    unfolding durable_payload eq_form_canon by (simp add: f(3))
  with f run intent show ?thesis by (simp add: draft_matches_def same_payload_def)
qed

lemma in_log: "e \<in> set (log_of a s st) \<longleftrightarrow> e \<in> set st \<and> le_adapter e = a \<and> le_session e = s"
  by (auto simp: log_of_def)

text \<open>After a batch was stored, each of its drafts finds its event in every later store.\<close>

lemma stored_batch_found:
  assumes "append_batch sha sha_text stamp request drafts st = Inr (es, st1)" and "log_ok sha st"
    and "hex_texts sha_text" and "\<forall>d \<in> set drafts. draft_post_init d = Inr d"
    and "request_clean request = Inr q" and "drafts \<noteq> []" and "log_ok sha st2" and "set st1 \<subseteq> set st2"
  shows "repeated_events sha_text q (log_of (eq_adapter q) (eq_session q) st2) (enumerate 0 drafts)
    = Inr (Some (map durable es))"
proof -
  let ?a = "eq_adapter q" and ?s = "eq_session q"
  have stored: "event_of (log_of ?a ?s st2) (le_id e) = Some e" if "e \<in> set (log_of ?a ?s st1)" for e
    by (rule event_of_log [OF assms(7)]) (use that assms(8) in \<open>auto simp: in_log\<close>)
  show ?thesis
    using assms(1,2)
  proof (cases rule: append_batchE)
    case (repeated q')
    with assms(5) have old: "list_all2 (\<lambda>p e. event_of (log_of ?a ?s st) (event_identity sha_text q (ed_type (snd p)) (fst p)) = Some e
        \<and> draft_matches q (snd p) e) (enumerate 0 drafts) es" by (simp add: repeated_events_Some)
    have "durable e = e \<and> event_of (log_of ?a ?s st2) (event_identity sha_text q t n) = Some e"
      if "event_of (log_of ?a ?s st) (event_identity sha_text q t n) = Some e" for e t n
      using event_of_Some [OF that] stored [of e] assms(2) repeated(3) by (auto simp: log_ok_def in_log)
    with old show ?thesis
      unfolding repeated_events_Some list_all2_map2 by (auto elim!: list_all2_mono)
  next
    case (new q' cause)
    with assms(5) have c: "candidate_events sha sha_text stamp q (int (length (log_of ?a ?s st))) cause (enumerate 0 drafts) = Inr es"
      by simp
    have found: "event_of (log_of ?a ?s st2) (event_identity sha_text q (ed_type (snd p)) (fst p)) = Some (durable e)
        \<and> draft_matches q (snd p) (durable e)"
      if e: "event_post_init sha (candidate_event sha_text stamp q (int (length (log_of ?a ?s st))) x p) = Inr e"
        "e \<in> set es" and p: "p \<in> set (enumerate 0 drafts)" for p e x
    proof
      have "snd p \<in> set drafts" using p by (auto simp: in_set_enumerate_eq dest!: sym [of _ "snd p"])
      then show "draft_matches q (snd p) (durable e)"
        using draft_matches_stored [OF e(1) assms(5)] assms(4) by blast
      have "durable e \<in> set (log_of ?a ?s st1)"
        using e(2) candidates_in_stream(2,3) [OF c assms(5) e(2)] by (auto simp: in_log new(3))
      from stored [OF this] show "event_of (log_of ?a ?s st2) (event_identity sha_text q (ed_type (snd p)) (fst p)) = Some (durable e)"
        using event_post_init_fields(6) [OF e(1)] by (simp add: identity_kept [OF assms(3)])
    qed
    show ?thesis
      unfolding repeated_events_Some list_all2_map2
      by (rule list.rel_mono_strong [OF candidate_events_spec [OF c]]) (use found in blast)
  qed (use assms(6) in simp)
qed


section \<open>Transitions\<close>

lemma previous_of:
  assumes "sound_stream sha es" and "i < length es" and "None \<notin> set (allowed_previous (le_type (es ! i)))"
  shows "0 < i \<and> Some (le_type (es ! (i - 1))) \<in> set (allowed_previous (le_type (es ! i)))"
  using sound_streamD(4) [OF assms(1,2)] assms(3) by (cases "i = 0") (auto simp: earlier_def)

lemma observed_chain:
  assumes "sound_stream sha es" and "i < length es" and "le_type (es ! i) = MUTATION_OBSERVED"
  shows "\<exists>j < i. le_type (es ! j) = MUTATION_ALLOWED \<and> (\<forall>k. j < k \<and> k \<le> i \<longrightarrow> le_type (es ! k) = MUTATION_OBSERVED)"
  using assms(2,3)
proof (induction i)
  case 0
  with previous_of [OF assms(1)] show ?case by fastforce
next
  case (Suc i)
  have "le_type (es ! i) = MUTATION_ALLOWED \<or> le_type (es ! i) = MUTATION_OBSERVED"
    using previous_of [OF assms(1) Suc.prems(1)] Suc.prems(2) by auto
  then show ?case
  proof
    assume "le_type (es ! i) = MUTATION_ALLOWED"
    then show ?thesis using Suc.prems(2) by (intro exI [of _ i]) (auto simp: le_Suc_eq)
  next
    assume "le_type (es ! i) = MUTATION_OBSERVED"
    with Suc show ?thesis by (auto simp: le_Suc_eq) (metis less_SucI)
  qed
qed

lemma allowed_after_request:
  assumes "sound_stream sha es" and "j < length es" and "le_type (es ! j) = MUTATION_ALLOWED"
  shows "0 < j \<and> le_type (es ! (j - 1)) = MUTATION_REQUESTED"
  using previous_of [OF assms(1,2)] assms(3) by simp

lemma never_after_end: "Some SESSION_ENDED \<notin> set (allowed_previous t)"
  by (cases t) (auto simp: settled_decisions_def)


section \<open>Reading an export\<close>

lemma jget_canon: "jget (sort_key fst (map (map_prod id canon) m)) k = canon (jget m k)"
  by (simp add: jget_def map_of_sort_key map_of_map_canon split: option.splits)

lemma enum_of_event_type: "enum_of event_type_value all_event_types (JStr (event_type_value t)) = Inr t"
  by (cases t) (simp_all add: enum_of_def all_event_types_def)

lemma truthy_text [simp]: "(if truthy (JStr v) then py_str (JStr v) else []) = v"
  by (simp add: py_str_def)

lemma event_row_reads_back:
  assumes "event_ok sha e" and "durable e = e"
  shows "event_from_dict sha (canon (event_dict e)) = Inr e"
proof -
  let ?d = "sort_key fst (map (map_prod id canon) (unsigned_fields e @ [(''digest'', JStr (le_digest e))]))"
  have pos: "0 < le_sequence e" using assms(1) by (simp add: event_ok_def)
  have opt: "(case canon (jopt v) of JNull \<Rightarrow> Inr None | JStr s \<Rightarrow> Inr (Some s) | _ \<Rightarrow> x) = Inr v" for v x
    by (cases v) (simp_all add: jopt_def)
  have texts: "get_str ?d ''event_id'' = le_id e" "get_str ?d ''event_type'' = event_type_value (le_type e)"
    "get_str ?d ''adapter'' = le_adapter e" "get_str ?d ''session_id'' = le_session e"
    "get_str ?d ''timestamp'' = le_timestamp e" "get_str ?d ''protocol'' = le_protocol e"
    "get_str ?d ''protocol_version'' = le_protocol_version e" "get_str ?d ''digest'' = le_digest e"
    unfolding get_str_def jget_canon by (simp_all add: jget_def unsigned_fields_def py_str_def)
  have opts: "get_text ?d ''run_id'' = Inr (le_run e)" "get_text ?d ''intent_id'' = Inr (le_intent e)"
    "get_text ?d ''caused_by'' = Inr (le_cause e)"
    unfolding get_text_def jget_canon by (simp_all add: jget_def unsigned_fields_def opt)
  have sequence: "jget ?d ''sequence'' = JInt (le_sequence e)" and version: "version_of ?d ''intent_version'' = Inr (le_version e)"
    unfolding version_of_def jget_canon
    by (simp_all add: jget_def unsigned_fields_def version_json_def split: option.splits)
  have "jget ?d ''payload'' = JObj (le_payload e)"
    unfolding jget_canon using assms(2) durable_payload [of e] by (simp add: jget_def unsigned_fields_def)
  then have payload: "get_dict ?d ''payload'' = Inr (le_payload e)" by (simp add: get_dict_def)
  have whole: "\<lparr>le_id = le_id e, le_type = le_type e, le_adapter = le_adapter e, le_session = le_session e,
      le_sequence = le_sequence e, le_timestamp = le_timestamp e, le_payload = le_payload e, le_protocol = le_protocol e,
      le_protocol_version = le_protocol_version e, le_run = le_run e, le_intent = le_intent e,
      le_version = le_version e, le_cause = le_cause e, le_digest = le_digest e\<rparr> = e" by simp
  have "canon (event_dict e) = JObj ?d" by (simp add: event_dict_def)
  moreover have "event_post_init sha \<lparr>le_id = le_id e, le_type = le_type e, le_adapter = le_adapter e,
      le_session = le_session e, le_sequence = le_sequence e, le_timestamp = le_timestamp e, le_payload = le_payload e,
      le_protocol = le_protocol e, le_protocol_version = le_protocol_version e, le_run = le_run e,
      le_intent = le_intent e, le_version = le_version e, le_cause = le_cause e, le_digest = le_digest e\<rparr> = Inr e"
    unfolding whole by (rule event_ok_post_init [OF assms(1)])
  ultimately show ?thesis
    using pos
    by (simp add: event_from_dict_def lift_event_def texts opts sequence version payload enum_of_event_type
        del: map_append)
qed


section \<open>A sample log\<close>

text \<open>A hash that keeps the hex digits of a text, and a session of one observed mutation.\<close>

definition sample_hash :: "string \<Rightarrow> string" where
  "sample_hash v = filter is_hex_lower (rev v)"

definition sample_log_request :: "string \<Rightarrow> event_request" where
  "sample_log_request r = \<lparr>eq_adapter = ''codex'', eq_session = ''s'', eq_request = r, eq_run = None, eq_intent = None,
     eq_version = None, eq_expected = None\<rparr>"

definition sample_drafts :: "event_type list \<Rightarrow> event_draft list" where
  "sample_drafts ts = map (\<lambda>t. \<lparr>ed_type = t, ed_payload = [(''tool'', JStr ''w''), (''n'', JInt 1)], ed_intent = None,
     ed_version = None\<rparr>) ts"

definition sample_append ::
  "string \<Rightarrow> event_type list \<Rightarrow> lifecycle_event list \<Rightarrow> lifecycle_error + lifecycle_event list \<times> lifecycle_event list" where
  "sample_append r ts st = append_batch (\<lambda>_. ''d'') sample_hash (\<lambda>_. ''t'') (sample_log_request r) (sample_drafts ts) st"

definition after_append :: "string \<Rightarrow> event_type list \<Rightarrow> lifecycle_event list \<Rightarrow> lifecycle_event list" where
  "after_append r ts st = (case sample_append r ts st of Inl _ \<Rightarrow> [] | Inr p \<Rightarrow> snd p)"

definition started_log :: "lifecycle_event list" where
  "started_log = after_append ''1'' [SESSION_STARTED] []"

definition asked_log :: "lifecycle_event list" where
  "asked_log = after_append ''2'' [MUTATION_REQUESTED, MUTATION_ALLOWED] started_log"

definition ended_log :: "lifecycle_event list" where
  "ended_log = after_append ''4'' [SESSION_ENDED] (after_append ''3'' [MUTATION_OBSERVED] asked_log)"

lemma hex_sample_hash: "hex_texts sample_hash"
  by (simp add: hex_texts_def sample_hash_def list_all_iff)

lemma sample_step:
  "res_ok (sample_append r ts st) \<Longrightarrow> append_step (\<lambda>_. ''d'') sample_hash st (after_append r ts st)"
  unfolding sample_append_def after_append_def
  by (auto simp: res_ok_def intro: append split: sum.splits)

lemma started_reachable: "(append_step (\<lambda>_. ''d'') sample_hash)\<^sup>*\<^sup>* [] started_log"
  unfolding started_log_def by (rule r_into_rtranclp, rule sample_step) code_simp

lemma asked_step: "append_step (\<lambda>_. ''d'') sample_hash started_log asked_log"
  unfolding asked_log_def by (rule sample_step) code_simp

lemma ended_reachable: "(append_step (\<lambda>_. ''d'') sample_hash)\<^sup>*\<^sup>* asked_log ended_log"
proof -
  have "append_step (\<lambda>_. ''d'') sample_hash asked_log (after_append ''3'' [MUTATION_OBSERVED] asked_log)"
    by (rule sample_step) code_simp
  moreover have "append_step (\<lambda>_. ''d'') sample_hash (after_append ''3'' [MUTATION_OBSERVED] asked_log) ended_log"
    unfolding ended_log_def by (rule sample_step) code_simp
  ultimately show ?thesis by (meson converse_rtranclp_into_rtranclp r_into_rtranclp)
qed

lemma ended_from_empty: "(append_step (\<lambda>_. ''d'') sample_hash)\<^sup>*\<^sup>* [] ended_log"
  using started_reachable asked_step ended_reachable by (meson rtranclp.rtrancl_into_rtrancl rtranclp_trans)

lemma ended_types:
  "map le_type (log_of ''codex'' ''s'' ended_log)
    = [SESSION_STARTED, MUTATION_REQUESTED, MUTATION_ALLOWED, MUTATION_OBSERVED, SESSION_ENDED]"
  by code_simp


section \<open>Properties\<close>

text \<open>
  C20: in every store that successful appends built from the empty one, the stream of every adapter and
  session is read back as it is stored and, when it has an event, passes the whole validation, with the
  sequence numbers 1, 2, and so on; no event id occurs twice in the store.
\<close>
theorem stored_streams_valid:
  assumes "(append_step sha sha_text)\<^sup>*\<^sup>* [] st"
  shows "list_lifecycle_events sha adapter session st = Inr (log_of adapter session st)
    \<and> distinct (map le_id st)
    \<and> (log_of adapter session st = [] \<or> validate_lifecycle_events sha (log_of adapter session st) = [])
    \<and> map le_sequence (log_of adapter session st) = map (\<lambda>i. int i + 1) [0..<length (log_of adapter session st)]"
proof -
  have ok: "log_ok sha st" by (rule reachable_log [OF assms])
  then have "log_of adapter session st = [] \<or> sound_stream sha (log_of adapter session st)"
    by (auto simp: log_ok_def)
  then show ?thesis
    using ok sound_stream_sequences by (auto simp: list_lifecycle_events_def log_ok_read log_ok_def keys_unique_def
      validation_sound_stream)
qed

lemma stored_streams_valid_witness:
  "list_lifecycle_events (\<lambda>_. ''d'') ''codex'' ''s'' ended_log = Inr (log_of ''codex'' ''s'' ended_log)
   \<and> length (log_of ''codex'' ''s'' ended_log) = 5 \<and> distinct (map le_id ended_log)"
proof -
  have "length (map le_type (log_of ''codex'' ''s'' ended_log)) = 5" unfolding ended_types by simp
  with stored_streams_valid [OF ended_from_empty, of "''codex''" "''s''"] show ?thesis by simp
qed

text \<open>
  C21: in every reachable store, each observed mutation of a session comes after an allowed one that was
  requested immediately before, with nothing but observed mutations in between, and no event follows the
  end of the session.
\<close>
theorem no_mutation_without_permission:
  assumes "(append_step sha sha_text)\<^sup>*\<^sup>* [] st" and "es = log_of adapter session st" and "i < length es"
  shows "(le_type (es ! i) = MUTATION_OBSERVED \<longrightarrow>
      (\<exists>j < i. 0 < j \<and> le_type (es ! (j - 1)) = MUTATION_REQUESTED \<and> le_type (es ! j) = MUTATION_ALLOWED
        \<and> (\<forall>k. j < k \<and> k \<le> i \<longrightarrow> le_type (es ! k) = MUTATION_OBSERVED)))
    \<and> (le_type (es ! i) = SESSION_ENDED \<longrightarrow> i + 1 = length es)"
proof (intro conjI impI)
  have sound: "sound_stream sha es"
    using reachable_log [OF assms(1)] assms(2,3) unfolding log_ok_def by (metis less_nat_zero_code list.size(3))
  show "\<exists>j < i. 0 < j \<and> le_type (es ! (j - 1)) = MUTATION_REQUESTED \<and> le_type (es ! j) = MUTATION_ALLOWED
        \<and> (\<forall>k. j < k \<and> k \<le> i \<longrightarrow> le_type (es ! k) = MUTATION_OBSERVED)"
    if "le_type (es ! i) = MUTATION_OBSERVED"
    using observed_chain [OF sound assms(3) that] allowed_after_request [OF sound] assms(3) by (meson less_trans)
  show "i + 1 = length es" if "le_type (es ! i) = SESSION_ENDED"
  proof (rule ccontr)
    assume "i + 1 \<noteq> length es"
    with assms(3) have "i + 1 < length es" by simp
    from sound_streamD(4) [OF sound this] that never_after_end show False by (simp add: earlier_def)
  qed
qed

lemma no_mutation_without_permission_witness:
  "\<exists>j < 3. le_type (log_of ''codex'' ''s'' ended_log ! j) = MUTATION_ALLOWED"
proof -
  have "length (map le_type (log_of ''codex'' ''s'' ended_log)) = 5" unfolding ended_types by simp
  then have len: "3 < length (log_of ''codex'' ''s'' ended_log)" by simp
  then have "map le_type (log_of ''codex'' ''s'' ended_log) ! 3 = le_type (log_of ''codex'' ''s'' ended_log ! 3)"
    by (rule nth_map)
  then have "le_type (log_of ''codex'' ''s'' ended_log ! 3) = MUTATION_OBSERVED" unfolding ended_types by simp
  with no_mutation_without_permission [OF ended_from_empty refl len] show ?thesis by blast
qed

text \<open>
  C22: a batch that was appended can be requested again at any later time, after any further appends and
  with another clock: the request then returns the events stored the first time, as they read from their
  rows, and leaves the store as it is.
\<close>
theorem append_retry_idempotent:
  assumes "hex_texts sha_text" and "(append_step sha sha_text)\<^sup>*\<^sup>* [] st"
    and "\<forall>d \<in> set drafts. draft_post_init d = Inr d"
    and "append_batch sha sha_text stamp request drafts st = Inr (es, st1)"
    and "(append_step sha sha_text)\<^sup>*\<^sup>* st1 st2"
  shows "append_batch sha sha_text stamp' request drafts st2 = Inr (map durable es, st2)"
proof (cases "drafts = []")
  case True
  with assms(4) show ?thesis by (auto simp: append_batch_def)
next
  case False
  have ok: "log_ok sha st" by (rule reachable_log [OF assms(2)])
  have ok2: "log_ok sha st2" "set st1 \<subseteq> set st2"
    using appends_ok [OF assms(5) append_batch_ok [OF assms(4) ok]] by auto
  from assms(4) False obtain q where q: "request_clean request = Inr q"
    by (auto simp: append_batch_def res_bind_eq_Inr)
  from ok2(1) have "log_of (eq_adapter q) (eq_session q) st2 = [] \<or> sound_stream sha (log_of (eq_adapter q) (eq_session q) st2)"
    by (auto simp: log_ok_def)
  with stored_batch_found [OF assms(4) ok assms(1,3) q False ok2] show ?thesis
    using False by (auto simp: append_batch_def q log_ok_read [OF ok2(1)])
qed

lemma append_retry_idempotent_witness:
  "\<exists>es. length es = 2 \<and> append_batch (\<lambda>_. ''d'') sample_hash (\<lambda>_. ''later'') (sample_log_request ''2'')
      (sample_drafts [MUTATION_REQUESTED, MUTATION_ALLOWED]) ended_log = Inr (es, ended_log)"
proof -
  have "(case sample_append ''2'' [MUTATION_REQUESTED, MUTATION_ALLOWED] started_log of
      Inl _ \<Rightarrow> False | Inr p \<Rightarrow> length (fst p) = 2 \<and> snd p = asked_log)" by code_simp
  then obtain es where es: "length es = 2" "append_batch (\<lambda>_. ''d'') sample_hash (\<lambda>_. ''t'') (sample_log_request ''2'')
      (sample_drafts [MUTATION_REQUESTED, MUTATION_ALLOWED]) started_log = Inr (es, asked_log)"
    by (auto simp: sample_append_def split: sum.splits)
  have "\<forall>d \<in> set (sample_drafts [MUTATION_REQUESTED, MUTATION_ALLOWED]). draft_post_init d = Inr d"
    by (simp add: sample_drafts_def draft_post_init_def clean_opt_def lift_text_def)
  from append_retry_idempotent [OF hex_sample_hash started_reachable this es(2) ended_reachable, of "\<lambda>_. ''later''"]
  show ?thesis using es(1) by (intro exI [of _ "map durable es"]) simp
qed

text \<open>
  C23: the exported lines of a stream of a reachable store load as exactly the events that are stored.
\<close>
theorem export_roundtrip:
  assumes "(append_step sha sha_text)\<^sup>*\<^sup>* [] st" and "log_of adapter session st \<noteq> []"
  shows "\<exists>rows. export_stream sha adapter session st = Inr rows \<and> load_stream sha rows = Inr (log_of adapter session st)"
proof -
  let ?es = "log_of adapter session st"
  have ok: "log_ok sha st" by (rule reachable_log [OF assms(1)])
  then have sound: "sound_stream sha ?es" using assms(2) by (auto simp: log_ok_def)
  have "list_all2 (\<lambda>x y. event_from_dict sha x = Inr y) (map (canon \<circ> event_dict) ?es) ?es"
    using ok by (auto simp: list_all2_conv_all_nth log_ok_def in_log event_row_reads_back dest!: nth_mem)
  then have "res_map (event_from_dict sha) (map (canon \<circ> event_dict) ?es) = Inr ?es"
    by (simp only: res_map_Inr_iff)
  with sound show ?thesis
    by (simp add: export_stream_def load_stream_def list_lifecycle_events_def log_ok_read [OF ok])
qed

lemma export_roundtrip_witness:
  "\<exists>rows. export_stream (\<lambda>_. ''d'') ''codex'' ''s'' ended_log = Inr rows
     \<and> load_stream (\<lambda>_. ''d'') rows = Inr (log_of ''codex'' ''s'' ended_log)"
proof -
  have "log_of ''codex'' ''s'' ended_log \<noteq> []" using ended_types by auto
  from export_roundtrip [OF ended_from_empty this] show ?thesis by blast
qed

end
