(* ===== verification/SemResource.thy ===== *)
theory SemResource
  imports Codec "HOL-Library.Product_Lexorder"
begin

text \<open>
  The semantic resource normal form of \<open>core/resource_ir.py\<close>: layers, the identity of a resource
  that leaves out its mutable details, the projection of references, operations and intents.
  Unicode normalisation is the identity on the ASCII text of the model; SHA-256 of a text is the
  parameter \<open>sha_text\<close>.
\<close>


section \<open>Cleaning\<close>

datatype resource_layer = L_FILE | L_REGION | L_SYMBOL | L_CONTRACT | L_RESOURCE

fun layer_value :: "resource_layer \<Rightarrow> string" where
  "layer_value L_FILE = ''file''"
| "layer_value L_REGION = ''region''"
| "layer_value L_SYMBOL = ''symbol''"
| "layer_value L_CONTRACT = ''contract''"
| "layer_value L_RESOURCE = ''resource''"

definition all_layers :: "resource_layer list" where
  "all_layers = [L_FILE, L_REGION, L_SYMBOL, L_CONTRACT, L_RESOURCE]"

datatype semantic_error =
    SemanticData codec_error
  | BadProtocol string
  | EmptyCoordinate
  | StableIdMismatch
  | EmptyText string

definition lift_sem :: "codec_error + 'a \<Rightarrow> semantic_error + 'a" where
  "lift_sem r = (case r of Inl e \<Rightarrow> Inl (SemanticData e) | Inr a \<Rightarrow> Inr a)"

definition clean_value :: "string option \<Rightarrow> string option" where
  "clean_value v = (case v of None \<Rightarrow> None | Some s \<Rightarrow> (let t = strip s in if t = [] then None else Some t))"

text \<open>The text of an arbitrary value: \<open>None\<close> stays, everything else goes through \<open>str\<close>.\<close>

definition json_text :: "json \<Rightarrow> string option" where
  "json_text v = (if v = JNull then None else Some (py_str v))"

definition semantic_path :: "string option \<Rightarrow> string option" where
  "semantic_path v = (case clean_value v of
       None \<Rightarrow> None
     | Some t \<Rightarrow> (let n = normpath (drop_dot_slash (slashes t)) in Some (if n = ''.'' then [] else rstrip_slash n)))"

text \<open>\<open>re.fullmatch(r"lines?\s*:?[\s]*(\d+)\s*(?:-|\.\.)\s*(\d+)", text, re.IGNORECASE)\<close>.\<close>

definition line_range :: "string \<Rightarrow> (nat \<times> nat) option" where
  "line_range s =
     (if \<not> starts_with (lower s) ''line'' then None
      else
        let r1 = drop 4 s;
            r2 = skip_spaces (if starts_with (lower r1) ''s'' then drop 1 r1 else r1);
            r3 = skip_spaces (if starts_with r2 '':'' then drop 1 r2 else r2);
            d1 = takeWhile is_digit r3;
            r4 = skip_spaces (dropWhile is_digit r3);
            d2 = skip_spaces (if starts_with r4 ''-'' then drop 1 r4 else drop 2 r4)
        in if d1 \<noteq> [] \<and> (starts_with r4 ''-'' \<or> starts_with r4 ''..'') \<and> d2 \<noteq> [] \<and> list_all is_digit d2
           then Some (digits_val d1, digits_val d2) else None)"

definition normal_region :: "string option \<Rightarrow> string option" where
  "normal_region v = (case clean_value v of
       None \<Rightarrow> None
     | Some t \<Rightarrow> (case line_range (spaced t) of
         None \<Rightarrow> Some (spaced t)
       | Some (a, b) \<Rightarrow> Some (if a \<le> b then ''lines:'' @ nat_str a @ ''-'' @ nat_str b else spaced t)))"

fun metadata_text :: "metadata \<Rightarrow> string list \<Rightarrow> string option" where
  "metadata_text m [] = None"
| "metadata_text m (k # ks) = (case clean_value (json_text (jget m k)) of
       Some t \<Rightarrow> Some t | None \<Rightarrow> metadata_text m ks)"

text \<open>\<open>a or b\<close> on values: the first one that counts as true, else the last.\<close>

definition json_or :: "json \<Rightarrow> json \<Rightarrow> json" where
  "json_or a b = (if truthy a then a else b)"


section \<open>Coordinates of a reference\<close>

definition qualified_keys :: "string list" where
  "qualified_keys = [''qualified_identifier'', ''qualified_name'', ''symbol'', ''symbol_id'']"

definition resource_path :: "resource_ref \<Rightarrow> string option" where
  "resource_path r =
     (if path_kind (rr_kind r) then semantic_path (Some (rr_identifier r))
      else semantic_path (metadata_text (rr_metadata r) [''path'', ''file'', ''source_path'', ''repository_path'']))"

definition qualified_name :: "resource_ref \<Rightarrow> string option" where
  "qualified_name r = (case metadata_text (rr_metadata r) qualified_keys of
       Some t \<Rightarrow> Some t
     | None \<Rightarrow> if rr_kind r \<in> {K_SYMBOL, K_CONTRACT} then clean_value (Some (str_or (rr_concept_id r) (rr_identifier r)))
               else None)"

definition subject_name :: "resource_ref \<Rightarrow> string option" where
  "subject_name r =
     (let m = rr_metadata r
      in clean_value (json_text (json_or (jopt (rr_subject_concept_id r)) (json_or (jget m ''subject_concept_id'')
           (json_or (jget m ''subject_qualified_identifier'') (jget m ''subject_qualified_name''))))))"

definition resource_language :: "resource_ref \<Rightarrow> string option" where
  "resource_language r = map_option lower (metadata_text (rr_metadata r) [''language'', ''language_id''])"

definition fallback_key :: "resource_ref \<Rightarrow> string" where
  "fallback_key r = strip (str_or (rr_concept_id r) (rr_identifier r))"

definition resource_layer_of :: "resource_ref \<Rightarrow> string option \<Rightarrow> string option \<Rightarrow> resource_layer" where
  "resource_layer_of r path region =
     (if path_kind (rr_kind r) then (if path \<noteq> None \<and> region \<noteq> None then L_REGION else L_FILE)
      else if rr_kind r = K_SYMBOL then L_SYMBOL
      else if rr_kind r = K_CONTRACT then L_CONTRACT else L_RESOURCE)"

definition semantic_identity ::
  "resource_ref \<Rightarrow> resource_layer \<Rightarrow> string option \<Rightarrow> string option \<Rightarrow> string option \<Rightarrow> string option \<Rightarrow> string" where
  "semantic_identity r layer path region qualified subject =
     (let key = fallback_key r; place = str_or path []; named = str_or qualified key
      in case layer of
          L_FILE \<Rightarrow> ''file:'' @ str_or path key
        | L_REGION \<Rightarrow> ''region:'' @ str_or path key @ ''#'' @ str_or region []
        | L_SYMBOL \<Rightarrow> if place \<noteq> [] then ''symbol:'' @ place @ ''#'' @ named else ''symbol:'' @ named
        | L_CONTRACT \<Rightarrow>
            if place \<noteq> [] then ''contract:'' @ place @ ''#'' @ named
            else if str_or subject [] \<noteq> [] then ''contract:'' @ str_or subject [] @ ''#'' @ key
            else ''contract:'' @ named
        | L_RESOURCE \<Rightarrow> kind_value (rr_kind r) @ '':'' @ str_or path key)"

text \<open>\<open>text.rsplit(".", 1)[0]\<close> of a text with a point.\<close>

definition before_last_point :: "string \<Rightarrow> string" where
  "before_last_point s = rev (drop 1 (dropWhile (\<lambda>c. c \<noteq> CHR ''.'') (rev s)))"

definition parent_symbol :: "resource_ref \<Rightarrow> string option \<Rightarrow> string option \<Rightarrow> string option" where
  "parent_symbol r qualified subject =
     (case metadata_text (rr_metadata r) [''subject_qualified_identifier'', ''subject_qualified_name''] of
        Some t \<Rightarrow> Some t
      | None \<Rightarrow> if CHR ''.'' \<in> set (str_or qualified []) then Some (before_last_point (str_or qualified [])) else subject)"

definition parent_identity ::
  "resource_ref \<Rightarrow> resource_layer \<Rightarrow> string option \<Rightarrow> string option \<Rightarrow> string option \<Rightarrow> string option" where
  "parent_identity r layer path qualified subject =
     (let place = str_or path []
      in if (layer = L_REGION \<or> layer = L_SYMBOL) \<and> place \<noteq> [] then Some (''file:'' @ place)
         else if layer = L_CONTRACT then
           (case metadata_text (rr_metadata r) [''parent_identity''] of
              Some p \<Rightarrow> Some p
            | None \<Rightarrow>
                let parent = str_or (parent_symbol r qualified subject) []
                in if parent \<noteq> [] then Some (if place \<noteq> [] then ''symbol:'' @ place @ ''#'' @ parent else ''symbol:'' @ parent)
                   else if place \<noteq> [] then Some (''file:'' @ place) else None)
         else None)"


section \<open>Semantic resources\<close>

record semantic_resource =
  sr_layer :: resource_layer
  sr_kind :: resource_kind
  sr_identity :: string
  sr_identifier :: string
  sr_path :: "string option"
  sr_region :: "string option"
  sr_language :: "string option"
  sr_qualified :: "string option"
  sr_signature :: "string option"
  sr_concept :: "string option"
  sr_subject :: "string option"
  sr_parent :: "string option"
  sr_metadata :: metadata
  sr_protocol :: string

definition resource_protocol :: string where
  "resource_protocol = ''claim-plane.semantic-resource-ir.v2''"

definition semantic_post_init :: "semantic_resource \<Rightarrow> semantic_error + semantic_resource" where
  "semantic_post_init r =
     (if sr_protocol r \<noteq> resource_protocol then Inl (BadProtocol (sr_protocol r))
      else case (clean_value (Some (sr_identity r)), clean_value (Some (sr_identifier r))) of
          (Some i, Some n) \<Rightarrow> Inr (r\<lparr>sr_identity := i, sr_identifier := n, sr_path := semantic_path (sr_path r),
            sr_region := normal_region (sr_region r), sr_language := clean_value (sr_language r),
            sr_qualified := clean_value (sr_qualified r), sr_signature := clean_value (sr_signature r),
            sr_concept := clean_value (sr_concept r), sr_subject := clean_value (sr_subject r),
            sr_parent := clean_value (sr_parent r)\<rparr>)
        | _ \<Rightarrow> Inl EmptyCoordinate)"

definition stable_id :: "(string \<Rightarrow> string) \<Rightarrow> string \<Rightarrow> string" where
  "stable_id sha_text identity = ''sr2_'' @ take 24 (sha_text identity)"

definition semantic_resource_dict :: "(string \<Rightarrow> string) \<Rightarrow> semantic_resource \<Rightarrow> json" where
  "semantic_resource_dict sha_text r = JObj
     [(''protocol'', JStr (sr_protocol r)), (''layer'', JStr (layer_value (sr_layer r))),
      (''kind'', JStr (kind_value (sr_kind r))), (''stable_id'', JStr (stable_id sha_text (sr_identity r))),
      (''identity'', JStr (sr_identity r)), (''identifier'', JStr (sr_identifier r)), (''path'', jopt (sr_path r)),
      (''region'', jopt (sr_region r)), (''language'', jopt (sr_language r)), (''qualified_name'', jopt (sr_qualified r)),
      (''signature'', jopt (sr_signature r)), (''concept_id'', jopt (sr_concept r)),
      (''subject_concept_id'', jopt (sr_subject r)), (''parent_identity'', jopt (sr_parent r)),
      (''metadata'', JObj (sr_metadata r))]"

definition protocol_or :: "metadata \<Rightarrow> string \<Rightarrow> string" where
  "protocol_or data standard = (if truthy (jget data ''protocol'') then py_str (jget data ''protocol'') else standard)"

definition semantic_from_dict :: "(string \<Rightarrow> string) \<Rightarrow> json \<Rightarrow> semantic_error + semantic_resource" where
  "semantic_from_dict sha_text v =
     res_bind (lift_sem (as_object v)) (\<lambda>data.
     res_bind (lift_sem (require_fields data [''layer'', ''kind'', ''identity'', ''identifier''])) (\<lambda>_.
     res_bind (lift_sem (enum_of layer_value all_layers (jget data ''layer''))) (\<lambda>layer.
     res_bind (lift_sem (enum_of kind_value all_kinds (jget data ''kind''))) (\<lambda>kind.
     res_bind (lift_sem (get_dict data ''metadata'')) (\<lambda>meta.
     res_bind (semantic_post_init
       \<lparr>sr_layer = layer, sr_kind = kind, sr_identity = py_str (jget data ''identity''),
        sr_identifier = py_str (jget data ''identifier''), sr_path = json_text (jget data ''path''),
        sr_region = json_text (jget data ''region''), sr_language = json_text (jget data ''language''),
        sr_qualified = json_text (jget data ''qualified_name''), sr_signature = json_text (jget data ''signature''),
        sr_concept = json_text (jget data ''concept_id''), sr_subject = json_text (jget data ''subject_concept_id''),
        sr_parent = json_text (jget data ''parent_identity''), sr_metadata = meta,
        sr_protocol = protocol_or data resource_protocol\<rparr>) (\<lambda>r.
     if jget data ''stable_id'' \<noteq> JNull \<and> py_str (jget data ''stable_id'') \<noteq> stable_id sha_text (sr_identity r)
     then Inl StableIdMismatch else Inr r))))))"


section \<open>Normalising references, operations and intents\<close>

definition normalize_resource_ref :: "resource_ref \<Rightarrow> semantic_error + semantic_resource" where
  "normalize_resource_ref r =
     (let m = rr_metadata r;
          path = resource_path r;
          region = normal_region (json_text (json_or (jopt (rr_region r)) (jget m ''region'')));
          subject = subject_name r;
          qualified = (if rr_kind r = K_CONTRACT \<and> str_or subject [] \<noteq> [] \<and> metadata_text m qualified_keys = None
            then Some (str_or subject [] @ ''.'' @ rr_identifier r) else qualified_name r);
          layer = resource_layer_of r path region
      in semantic_post_init
          \<lparr>sr_layer = layer, sr_kind = rr_kind r,
           sr_identity = semantic_identity r layer path region qualified subject, sr_identifier = rr_identifier r,
           sr_path = path, sr_region = region, sr_language = resource_language r, sr_qualified = qualified,
           sr_signature = rr_signature r, sr_concept = rr_concept_id r, sr_subject = subject,
           sr_parent = parent_identity r layer path qualified subject, sr_metadata = m, sr_protocol = resource_protocol\<rparr>)"

record resource_authority =
  ra_access :: access_mode
  ra_resource :: semantic_resource
  ra_commitment :: scope_commitment
  ra_required :: bool

definition authority_dict :: "(string \<Rightarrow> string) \<Rightarrow> resource_authority \<Rightarrow> json" where
  "authority_dict sha_text a = JObj
     [(''access'', JStr (mode_value (ra_access a))), (''commitment'', JStr (commitment_value (ra_commitment a))),
      (''required'', JBool (ra_required a)), (''resource'', semantic_resource_dict sha_text (ra_resource a))]"

definition normalize_intent_operation :: "intent_operation \<Rightarrow> semantic_error + resource_authority" where
  "normalize_intent_operation op =
     res_bind (normalize_resource_ref (op_resource op)) (\<lambda>r.
     Inr \<lparr>ra_access = op_access op, ra_resource = r, ra_commitment = op_commitment op, ra_required = op_required op\<rparr>)"

record semantic_ir =
  si_intent :: string
  si_task :: string
  si_base :: string
  si_authorities :: "resource_authority list"
  si_protocol :: string

definition authority_key :: "(string \<Rightarrow> string) \<Rightarrow> resource_authority \<Rightarrow> string \<times> string \<times> string \<times> bool" where
  "authority_key sha_text a = (stable_id sha_text (sr_identity (ra_resource a)), mode_value (ra_access a),
     commitment_value (ra_commitment a), \<not> ra_required a)"

definition needed_text :: "string \<Rightarrow> string \<Rightarrow> semantic_error + string" where
  "needed_text field_name v = (case clean_value (Some v) of None \<Rightarrow> Inl (EmptyText field_name) | Some t \<Rightarrow> Inr t)"

definition ir_post_init :: "(string \<Rightarrow> string) \<Rightarrow> semantic_ir \<Rightarrow> semantic_error + semantic_ir" where
  "ir_post_init sha_text ir =
     (if si_protocol ir \<noteq> resource_protocol then Inl (BadProtocol (si_protocol ir))
      else
        res_bind (needed_text ''intent_id'' (si_intent ir)) (\<lambda>intent.
        res_bind (needed_text ''task_id'' (si_task ir)) (\<lambda>task.
        res_bind (needed_text ''base_revision'' (si_base ir)) (\<lambda>base.
        Inr (ir\<lparr>si_intent := intent, si_task := task, si_base := base,
               si_authorities := sort_key (authority_key sha_text) (si_authorities ir)\<rparr>)))))"

definition ir_dict :: "(string \<Rightarrow> string) \<Rightarrow> semantic_ir \<Rightarrow> json" where
  "ir_dict sha_text ir = JObj
     [(''protocol'', JStr (si_protocol ir)), (''intent_id'', JStr (si_intent ir)), (''task_id'', JStr (si_task ir)),
      (''base_revision'', JStr (si_base ir)), (''authorities'', JList (map (authority_dict sha_text) (si_authorities ir)))]"

definition ir_fingerprint :: "(json \<Rightarrow> string) \<Rightarrow> (string \<Rightarrow> string) \<Rightarrow> semantic_ir \<Rightarrow> string" where
  "ir_fingerprint sha sha_text ir = sha (canon (ir_dict sha_text ir))"

definition normalize_change_intent :: "(string \<Rightarrow> string) \<Rightarrow> change_intent \<Rightarrow> semantic_error + semantic_ir" where
  "normalize_change_intent sha_text i =
     res_bind (res_map normalize_intent_operation (ci_operations i)) (\<lambda>authorities.
     ir_post_init sha_text \<lparr>si_intent = ci_intent_id i, si_task = ci_task_id i, si_base = ci_base_revision i,
       si_authorities = authorities, si_protocol = resource_protocol\<rparr>)"

end
