(* ===== verification/SemGraph.thy ===== *)
theory SemGraph
  imports SemResource "HOL-Library.AList" "HOL-Library.While_Combinator"
begin

text \<open>
  The semantic dependency graph of \<open>core/dependency_graph.py\<close>: evidence, nodes, edges, the graph
  with its construction (duplicate nodes and edges are merged, endpoints must be nodes), its
  queries, and the JSON form whose SHA-256 is the fingerprint. A Python dict is an association
  list in insertion order.
\<close>


section \<open>Relations\<close>

datatype dep_relation =
    R_DEFINES | R_IMPORTS | R_CALLS | R_READS | R_WRITES | R_INHERITS | R_TYPES | R_TESTS | R_PUBLIC_API
  | R_REFERENCES | R_IMPLEMENTS | R_DEFINITION_OF

datatype dep_resolution = D_INTERNAL | D_EXTERNAL | D_UNRESOLVED

fun relation_value :: "dep_relation \<Rightarrow> string" where
  "relation_value R_DEFINES = ''defines''"
| "relation_value R_IMPORTS = ''imports''"
| "relation_value R_CALLS = ''calls''"
| "relation_value R_READS = ''reads''"
| "relation_value R_WRITES = ''writes''"
| "relation_value R_INHERITS = ''inherits''"
| "relation_value R_TYPES = ''types''"
| "relation_value R_TESTS = ''tests''"
| "relation_value R_PUBLIC_API = ''public_api''"
| "relation_value R_REFERENCES = ''references''"
| "relation_value R_IMPLEMENTS = ''implements''"
| "relation_value R_DEFINITION_OF = ''definition_of''"

definition all_relations :: "dep_relation list" where
  "all_relations = [R_DEFINES, R_IMPORTS, R_CALLS, R_READS, R_WRITES, R_INHERITS, R_TYPES, R_TESTS, R_PUBLIC_API,
     R_REFERENCES, R_IMPLEMENTS, R_DEFINITION_OF]"

fun resolution_value :: "dep_resolution \<Rightarrow> string" where
  "resolution_value D_INTERNAL = ''internal''"
| "resolution_value D_EXTERNAL = ''external''"
| "resolution_value D_UNRESOLVED = ''unresolved''"

definition all_resolutions :: "dep_resolution list" where
  "all_resolutions = [D_INTERNAL, D_EXTERNAL, D_UNRESOLVED]"

datatype graph_error =
    GraphResource semantic_error
  | GraphData codec_error
  | BadGraphProtocol string
  | EmptyEvidence
  | BadDigest string
  | BadRange
  | EmptyEndpoint
  | BadLocation
  | ConflictingNodes string
  | MissingSource string
  | MissingTarget string
  | GraphMismatch

definition lift_resource :: "semantic_error + 'a \<Rightarrow> graph_error + 'a" where
  "lift_resource r = (case r of Inl e \<Rightarrow> Inl (GraphResource e) | Inr a \<Rightarrow> Inr a)"

definition lift_dep :: "codec_error + 'a \<Rightarrow> graph_error + 'a" where
  "lift_dep r = (case r of Inl e \<Rightarrow> Inl (GraphData e) | Inr a \<Rightarrow> Inr a)"


section \<open>Evidence\<close>

record dep_evidence =
  dv_provider :: string
  dv_type :: string
  dv_revision :: "string option"
  dv_workspace :: "string option"
  dv_artifact :: "string option"
  dv_path :: "string option"
  dv_range :: "(int \<times> int \<times> int \<times> int) option"
  dv_metadata :: metadata
  dv_protocol :: string

definition evidence_protocol :: string where
  "evidence_protocol = ''claim-plane.dependency-evidence.v1''"

definition sha_length :: "string option \<Rightarrow> bool" where
  "sha_length v = (case v of None \<Rightarrow> True | Some s \<Rightarrow> length s = 64)"

definition range_error :: "int \<times> int \<times> int \<times> int \<Rightarrow> bool" where
  "range_error r = (case r of (a, b, c, d) \<Rightarrow> a < 0 \<or> b < 0 \<or> c < 0 \<or> d < 0 \<or> (c, d) < (a, b))"

definition evidence_post_init :: "dep_evidence \<Rightarrow> graph_error + dep_evidence" where
  "evidence_post_init e =
     (let provider = lower (strip (dv_provider e)); etype = lower (strip (dv_type e));
          workspace = clean_value (dv_workspace e); artifact = clean_value (dv_artifact e)
      in if dv_protocol e \<noteq> evidence_protocol then Inl (BadGraphProtocol (dv_protocol e))
         else if provider = [] \<or> etype = [] then Inl EmptyEvidence
         else if \<not> sha_length workspace then Inl (BadDigest ''workspace_fingerprint'')
         else if \<not> sha_length artifact then Inl (BadDigest ''artifact_sha256'')
         else if (case dv_range e of None \<Rightarrow> False | Some r \<Rightarrow> range_error r) then Inl BadRange
         else Inr (e\<lparr>dv_provider := provider, dv_type := etype, dv_revision := clean_value (dv_revision e),
                    dv_workspace := workspace, dv_artifact := artifact, dv_path := clean_value (dv_path e)\<rparr>))"

definition range_json :: "(int \<times> int \<times> int \<times> int) option \<Rightarrow> json" where
  "range_json r = (case r of None \<Rightarrow> JNull | Some (a, b, c, d) \<Rightarrow> JList [JInt a, JInt b, JInt c, JInt d])"

definition evidence_dict :: "dep_evidence \<Rightarrow> json" where
  "evidence_dict e = JObj
     [(''protocol'', JStr (dv_protocol e)), (''provider_id'', JStr (dv_provider e)), (''evidence_type'', JStr (dv_type e)),
      (''revision'', jopt (dv_revision e)), (''workspace_fingerprint'', jopt (dv_workspace e)),
      (''artifact_sha256'', jopt (dv_artifact e)), (''path'', jopt (dv_path e)), (''source_range'', range_json (dv_range e)),
      (''metadata'', JObj (dv_metadata e))]"

definition evidence_fingerprint :: "(json \<Rightarrow> string) \<Rightarrow> dep_evidence \<Rightarrow> string" where
  "evidence_fingerprint sha e = sha (canon (evidence_dict e))"

text \<open>Iterating a value: the items of a list, the characters of a text, the keys of a mapping.\<close>

definition iter_json :: "string \<Rightarrow> json \<Rightarrow> codec_error + json list" where
  "iter_json key v = (case v of
       JList xs \<Rightarrow> Inr xs | JStr s \<Rightarrow> Inr (map (\<lambda>c. JStr [c]) s) | JObj kvs \<Rightarrow> Inr (map (JStr \<circ> fst) kvs)
     | _ \<Rightarrow> Inl (WrongType key))"

definition json_items :: "metadata \<Rightarrow> string \<Rightarrow> codec_error + json list" where
  "json_items data key = (if truthy (jget data key) then iter_json key (jget data key) else Inr [])"

definition range_of :: "json \<Rightarrow> graph_error + (int \<times> int \<times> int \<times> int) option" where
  "range_of v =
     (if v = JNull then Inr None
      else res_bind (lift_dep (res_bind (iter_json ''source_range'' v) (res_map py_int))) (\<lambda>ns. case ns of
          [a, b, c, d] \<Rightarrow> Inr (Some (a, b, c, d)) | _ \<Rightarrow> Inl BadRange))"

definition evidence_from_dict :: "json \<Rightarrow> graph_error + dep_evidence" where
  "evidence_from_dict v =
     res_bind (lift_dep (as_object v)) (\<lambda>data.
     res_bind (lift_dep (require_fields data [''provider_id'', ''evidence_type''])) (\<lambda>_.
     res_bind (range_of (jget data ''source_range'')) (\<lambda>range.
     res_bind (lift_dep (get_dict data ''metadata'')) (\<lambda>meta.
     evidence_post_init
       \<lparr>dv_provider = py_str (jget data ''provider_id''), dv_type = py_str (jget data ''evidence_type''),
        dv_revision = json_text (jget data ''revision''), dv_workspace = json_text (jget data ''workspace_fingerprint''),
        dv_artifact = json_text (jget data ''artifact_sha256''), dv_path = json_text (jget data ''path''),
        dv_range = range, dv_metadata = meta, dv_protocol = protocol_or data evidence_protocol\<rparr>))))"


section \<open>Nodes and edges\<close>

record dep_node =
  dn_resource :: semantic_resource
  dn_public :: bool
  dn_test :: bool
  dn_external :: bool
  dn_metadata :: metadata

definition dn_identity :: "dep_node \<Rightarrow> string" where
  "dn_identity n = sr_identity (dn_resource n)"

definition node_dict :: "(string \<Rightarrow> string) \<Rightarrow> dep_node \<Rightarrow> json" where
  "node_dict sha_text n = JObj
     [(''resource'', semantic_resource_dict sha_text (dn_resource n)), (''public'', JBool (dn_public n)),
      (''test'', JBool (dn_test n)), (''external'', JBool (dn_external n)), (''metadata'', JObj (dn_metadata n))]"

definition node_from_dict :: "(string \<Rightarrow> string) \<Rightarrow> json \<Rightarrow> graph_error + dep_node" where
  "node_from_dict sha_text v =
     res_bind (lift_dep (as_object v)) (\<lambda>data.
     res_bind (lift_dep (require_fields data [''resource''])) (\<lambda>_.
     res_bind (lift_resource (semantic_from_dict sha_text (jget data ''resource''))) (\<lambda>resource.
     res_bind (lift_dep (get_dict data ''metadata'')) (\<lambda>meta.
     Inr \<lparr>dn_resource = resource, dn_public = truthy (jget data ''public''), dn_test = truthy (jget data ''test''),
          dn_external = truthy (jget data ''external''), dn_metadata = meta\<rparr>))))"

record sem_edge =
  de_source :: string
  de_target :: string
  de_relation :: dep_relation
  de_resolution :: dep_resolution
  de_locations :: "int list"
  de_evidence :: "dep_evidence list"
  de_metadata :: metadata

text \<open>\<open>by_fingerprint[key] for key in sorted(by_fingerprint)\<close>: of equal fingerprints the last item stays.\<close>

definition unique_evidence :: "(json \<Rightarrow> string) \<Rightarrow> dep_evidence list \<Rightarrow> dep_evidence list" where
  "unique_evidence sha es = List.map_filter (\<lambda>f. find (\<lambda>e. evidence_fingerprint sha e = f) (rev es))
     (sorted_set (map (evidence_fingerprint sha) es))"

definition edge_post_init :: "(json \<Rightarrow> string) \<Rightarrow> sem_edge \<Rightarrow> graph_error + sem_edge" where
  "edge_post_init sha e =
     (let source = strip (de_source e); target = strip (de_target e); locations = sorted_set (de_locations e)
      in if source = [] \<or> target = [] then Inl EmptyEndpoint
         else if list_ex (\<lambda>n. n < 1) locations then Inl BadLocation
         else Inr (e\<lparr>de_source := source, de_target := target, de_locations := locations,
                    de_evidence := unique_evidence sha (de_evidence e)\<rparr>))"

definition edge_key :: "sem_edge \<Rightarrow> string \<times> string \<times> string \<times> string" where
  "edge_key e = (de_source e, de_target e, relation_value (de_relation e), resolution_value (de_resolution e))"

definition edge_dict :: "sem_edge \<Rightarrow> json" where
  "edge_dict e = JObj
     ([(''source_identity'', JStr (de_source e)), (''target_identity'', JStr (de_target e)),
       (''relation'', JStr (relation_value (de_relation e))), (''resolution'', JStr (resolution_value (de_resolution e))),
       (''locations'', JList (map JInt (de_locations e))), (''metadata'', JObj (de_metadata e))]
      @ (if de_evidence e = [] then [] else [(''evidence'', JList (map evidence_dict (de_evidence e)))]))"

definition edge_from_dict :: "(json \<Rightarrow> string) \<Rightarrow> json \<Rightarrow> graph_error + sem_edge" where
  "edge_from_dict sha v =
     res_bind (lift_dep (as_object v)) (\<lambda>data.
     res_bind (lift_dep (require_fields data [''source_identity'', ''target_identity'', ''relation''])) (\<lambda>_.
     res_bind (lift_dep (enum_of relation_value all_relations (jget data ''relation''))) (\<lambda>relation.
     res_bind (lift_dep (enum_of resolution_value all_resolutions
       (get_default data ''resolution'' (JStr ''internal'')))) (\<lambda>resolution.
     res_bind (lift_dep (res_bind (json_items data ''locations'') (res_map py_int))) (\<lambda>locations.
     res_bind (res_bind (lift_dep (json_items data ''evidence'')) (res_map evidence_from_dict)) (\<lambda>evidence.
     res_bind (lift_dep (get_dict data ''metadata'')) (\<lambda>meta.
     edge_post_init sha
       \<lparr>de_source = py_str (jget data ''source_identity''), de_target = py_str (jget data ''target_identity''),
        de_relation = relation, de_resolution = resolution, de_locations = locations, de_evidence = evidence,
        de_metadata = meta\<rparr>)))))))"


section \<open>Graphs\<close>

record sem_graph =
  sg_nodes :: "dep_node list"
  sg_edges :: "sem_edge list"
  sg_digests :: "(string \<times> string) list"
  sg_metadata :: metadata
  sg_protocol :: string

definition sem_graph_protocol :: string where
  "sem_graph_protocol = ''claim-plane.semantic-dependency-graph.v2''"

definition merge_nodes :: "dep_node \<Rightarrow> dep_node \<Rightarrow> dep_node" where
  "merge_nodes old n = \<lparr>dn_resource = dn_resource old, dn_public = (dn_public old \<or> dn_public n),
     dn_test = (dn_test old \<or> dn_test n), dn_external = (dn_external old \<or> dn_external n),
     dn_metadata = dict_merge (dn_metadata old) (dn_metadata n)\<rparr>"

fun collect_nodes ::
  "(string \<Rightarrow> string) \<Rightarrow> (string \<times> dep_node) list \<Rightarrow> dep_node list \<Rightarrow> graph_error + (string \<times> dep_node) list" where
  "collect_nodes sha_text found [] = Inr found"
| "collect_nodes sha_text found (n # ns) = (case map_of found (dn_identity n) of
       None \<Rightarrow> collect_nodes sha_text (AList.update (dn_identity n) n found) ns
     | Some old \<Rightarrow>
         if eq_form (semantic_resource_dict sha_text (dn_resource old)) \<noteq> eq_form (semantic_resource_dict sha_text (dn_resource n))
         then Inl (ConflictingNodes (dn_identity n))
         else collect_nodes sha_text (AList.update (dn_identity n) (merge_nodes old n) found) ns)"

definition merge_edges :: "(json \<Rightarrow> string) \<Rightarrow> sem_edge \<Rightarrow> sem_edge \<Rightarrow> graph_error + sem_edge" where
  "merge_edges sha old e = edge_post_init sha
     \<lparr>de_source = de_source e, de_target = de_target e, de_relation = de_relation e, de_resolution = de_resolution e,
      de_locations = de_locations old @ de_locations e, de_evidence = de_evidence old @ de_evidence e,
      de_metadata = dict_merge (de_metadata old) (de_metadata e)\<rparr>"

fun collect_edges ::
  "(json \<Rightarrow> string) \<Rightarrow> string list \<Rightarrow> ((string \<times> string \<times> string \<times> string) \<times> sem_edge) list \<Rightarrow> sem_edge list
   \<Rightarrow> graph_error + ((string \<times> string \<times> string \<times> string) \<times> sem_edge) list" where
  "collect_edges sha ids found [] = Inr found"
| "collect_edges sha ids found (e # es) =
     (if de_source e \<notin> set ids then Inl (MissingSource (de_source e))
      else if de_target e \<notin> set ids then Inl (MissingTarget (de_target e))
      else case map_of found (edge_key e) of
          None \<Rightarrow> collect_edges sha ids (AList.update (edge_key e) e found) es
        | Some old \<Rightarrow> res_bind (merge_edges sha old e) (\<lambda>m. collect_edges sha ids (AList.update (edge_key e) m found) es))"

definition graph_post_init :: "(json \<Rightarrow> string) \<Rightarrow> (string \<Rightarrow> string) \<Rightarrow> sem_graph \<Rightarrow> graph_error + sem_graph" where
  "graph_post_init sha sha_text g =
     (if sg_protocol g \<noteq> sem_graph_protocol then Inl (BadGraphProtocol (sg_protocol g))
      else
        res_bind (collect_nodes sha_text [] (sg_nodes g)) (\<lambda>nodes.
        res_bind (collect_edges sha (map fst nodes) [] (sg_edges g)) (\<lambda>edges.
        if list_ex (\<lambda>p. length (snd p) \<noteq> 64) (sg_digests g) then Inl (BadDigest ''source'')
        else Inr (g\<lparr>sg_nodes := sort_key dn_identity (map snd nodes), sg_edges := sort_key edge_key (map snd edges),
                   sg_digests := sort_key fst (sg_digests g)\<rparr>))))"

definition graph_fields :: "(string \<Rightarrow> string) \<Rightarrow> sem_graph \<Rightarrow> metadata" where
  "graph_fields sha_text g =
     [(''protocol'', JStr (sg_protocol g)), (''source_digests'', JObj (map (map_prod id JStr) (sg_digests g))),
      (''nodes'', JList (map (node_dict sha_text) (sg_nodes g))), (''edges'', JList (map edge_dict (sg_edges g))),
      (''metadata'', JObj (sg_metadata g))]"

definition graph_fingerprint_of :: "(json \<Rightarrow> string) \<Rightarrow> (string \<Rightarrow> string) \<Rightarrow> sem_graph \<Rightarrow> string" where
  "graph_fingerprint_of sha sha_text g = sha (canon (JObj (graph_fields sha_text g)))"

definition graph_dict_of :: "(json \<Rightarrow> string) \<Rightarrow> (string \<Rightarrow> string) \<Rightarrow> sem_graph \<Rightarrow> json" where
  "graph_dict_of sha sha_text g = JObj
     [(''protocol'', JStr (sg_protocol g)), (''fingerprint'', JStr (graph_fingerprint_of sha sha_text g)),
      (''source_digests'', JObj (map (map_prod id JStr) (sg_digests g))),
      (''nodes'', JList (map (node_dict sha_text) (sg_nodes g))), (''edges'', JList (map edge_dict (sg_edges g))),
      (''metadata'', JObj (sg_metadata g))]"

definition sem_graph_from_dict :: "(json \<Rightarrow> string) \<Rightarrow> (string \<Rightarrow> string) \<Rightarrow> json \<Rightarrow> graph_error + sem_graph" where
  "sem_graph_from_dict sha sha_text v =
     res_bind (lift_dep (as_object v)) (\<lambda>data.
     res_bind (lift_dep (get_dict data ''source_digests'')) (\<lambda>digests.
     res_bind (res_bind (lift_dep (json_items data ''nodes'')) (res_map (node_from_dict sha_text))) (\<lambda>nodes.
     res_bind (res_bind (lift_dep (json_items data ''edges'')) (res_map (edge_from_dict sha))) (\<lambda>edges.
     res_bind (lift_dep (get_dict data ''metadata'')) (\<lambda>meta.
     res_bind (graph_post_init sha sha_text
       \<lparr>sg_nodes = nodes, sg_edges = edges, sg_digests = map (map_prod id py_str) digests, sg_metadata = meta,
        sg_protocol = protocol_or data sem_graph_protocol\<rparr>) (\<lambda>g.
     if jget data ''fingerprint'' \<noteq> JNull \<and> py_str (jget data ''fingerprint'') \<noteq> graph_fingerprint_of sha sha_text g
     then Inl GraphMismatch else Inr g))))))"


section \<open>Queries\<close>

definition node_of :: "sem_graph \<Rightarrow> string \<Rightarrow> dep_node option" where
  "node_of g i = find_row dn_identity i (sg_nodes g)"

definition in_relations :: "dep_relation list option \<Rightarrow> sem_edge \<Rightarrow> bool" where
  "in_relations allowed e = (case allowed of None \<Rightarrow> True | Some rs \<Rightarrow> de_relation e \<in> set rs)"

definition outgoing :: "sem_graph \<Rightarrow> string \<Rightarrow> dep_relation list option \<Rightarrow> sem_edge list" where
  "outgoing g i allowed = filter (\<lambda>e. de_source e = i \<and> in_relations allowed e) (sg_edges g)"

definition incoming :: "sem_graph \<Rightarrow> string \<Rightarrow> dep_relation list option \<Rightarrow> sem_edge list" where
  "incoming g i allowed = filter (\<lambda>e. de_target e = i \<and> in_relations allowed e) (sg_edges g)"

definition edges_for_path :: "sem_graph \<Rightarrow> string \<Rightarrow> sem_edge list" where
  "edges_for_path g path =
     (let ids = map dn_identity (filter (\<lambda>n. sr_path (dn_resource n) = Some path) (sg_nodes g))
      in filter (\<lambda>e. de_source e \<in> set ids \<or> de_target e \<in> set ids) (sg_edges g))"

record walk_state =
  ws_pending :: "string list"
  ws_seen :: "string list"
  ws_found :: "(string \<times> dep_node) list"

definition neighbor :: "bool \<Rightarrow> sem_edge \<Rightarrow> string" where
  "neighbor backwards e = (if backwards then de_source e else de_target e)"

definition walk_edge :: "sem_graph \<Rightarrow> bool \<Rightarrow> bool \<Rightarrow> sem_edge \<Rightarrow> walk_state \<Rightarrow> walk_state" where
  "walk_edge g backwards transitive e s =
     (let n = neighbor backwards e
      in if n \<in> set (ws_seen s) then s
         else s\<lparr>ws_seen := n # ws_seen s,
                ws_found := (case node_of g n of None \<Rightarrow> ws_found s
                             | Some d \<Rightarrow> AList.update (dn_identity d) d (ws_found s)),
                ws_pending := ws_pending s @ (if transitive then [n] else [])\<rparr>)"

definition walk_step :: "sem_graph \<Rightarrow> bool \<Rightarrow> dep_relation list option \<Rightarrow> bool \<Rightarrow> walk_state \<Rightarrow> walk_state" where
  "walk_step g backwards allowed transitive s =
     (let current = hd (ws_pending s);
          edges = (if backwards then incoming g current allowed else outgoing g current allowed)
      in fold (walk_edge g backwards transitive) edges (s\<lparr>ws_pending := tl (ws_pending s)\<rparr>))"

text \<open>\<open>None\<close> stands for a loop that does not end; without \<open>transitive\<close> the loop breaks after one step.\<close>

definition graph_walk ::
  "sem_graph \<Rightarrow> string \<Rightarrow> bool \<Rightarrow> dep_relation list option \<Rightarrow> bool \<Rightarrow> dep_node list option" where
  "graph_walk g i backwards allowed transitive =
     (let start = \<lparr>ws_pending = [i], ws_seen = [i], ws_found = []\<rparr>
      in map_option (\<lambda>s. map snd (sort_key fst (ws_found s)))
           (if transitive then while_option (\<lambda>s. ws_pending s \<noteq> []) (walk_step g backwards allowed True) start
            else Some (walk_step g backwards allowed False start)))"

definition graph_dependencies :: "sem_graph \<Rightarrow> string \<Rightarrow> dep_relation list option \<Rightarrow> bool \<Rightarrow> dep_node list option" where
  "graph_dependencies g i allowed transitive = graph_walk g i False allowed transitive"

definition graph_dependents :: "sem_graph \<Rightarrow> string \<Rightarrow> dep_relation list option \<Rightarrow> bool \<Rightarrow> dep_node list option" where
  "graph_dependents g i allowed transitive = graph_walk g i True allowed transitive"

end
