(* ===== verification/Impact.thy ===== *)
theory Impact
  imports SemGraph
begin

text \<open>
  Semantic impact (\<open>core/impact.py\<close>): known changes are propagated backwards along the dependency
  edges that their kind makes relevant. The loop over one change is written as the code's state:
  the queue of paths, the best distances, and the dictionaries the report is made of.
\<close>


section \<open>Kinds of change\<close>

datatype change_kind = CH_IMPLEMENTATION | CH_CONTRACT | CH_STATE | CH_STRUCTURE | CH_ADDED | CH_REMOVED | CH_UNKNOWN

fun change_value :: "change_kind \<Rightarrow> string" where
  "change_value CH_IMPLEMENTATION = ''implementation''"
| "change_value CH_CONTRACT = ''contract''"
| "change_value CH_STATE = ''state''"
| "change_value CH_STRUCTURE = ''structure''"
| "change_value CH_ADDED = ''added''"
| "change_value CH_REMOVED = ''removed''"
| "change_value CH_UNKNOWN = ''unknown''"

definition all_change_kinds :: "change_kind list" where
  "all_change_kinds = [CH_IMPLEMENTATION, CH_CONTRACT, CH_STATE, CH_STRUCTURE, CH_ADDED, CH_REMOVED, CH_UNKNOWN]"

definition contract_relations :: "dep_relation list" where
  "contract_relations = [R_IMPORTS, R_CALLS, R_READS, R_WRITES, R_INHERITS, R_TYPES, R_TESTS]"

definition implementation_relations :: "dep_relation list" where
  "implementation_relations = [R_CALLS, R_READS, R_TESTS]"

definition state_relations :: "dep_relation list" where
  "state_relations = [R_CALLS, R_READS, R_WRITES, R_TESTS]"

fun relations_for_change :: "change_kind \<Rightarrow> dep_relation list" where
  "relations_for_change CH_IMPLEMENTATION = implementation_relations"
| "relations_for_change CH_STATE = state_relations"
| "relations_for_change _ = contract_relations"

fun relation_preference :: "dep_relation \<Rightarrow> nat" where
  "relation_preference R_TESTS = 0"
| "relation_preference R_WRITES = 1"
| "relation_preference R_TYPES = 2"
| "relation_preference R_INHERITS = 3"
| "relation_preference R_CALLS = 4"
| "relation_preference R_READS = 5"
| "relation_preference R_IMPORTS = 6"
| "relation_preference R_PUBLIC_API = 7"
| "relation_preference R_DEFINES = 8"
| "relation_preference R_REFERENCES = 9"
| "relation_preference R_IMPLEMENTS = 10"
| "relation_preference R_DEFINITION_OF = 11"

datatype impact_error =
    ImpactGraph graph_error
  | ImpactData codec_error
  | EmptyChange
  | ResourceMismatch string
  | BadPath
  | BadImpacted
  | InternalBoundary
  | BadReport
  | NegativeDepth
  | DuplicateChanges
  | NoResource string
  | AbsentIdentity string
  | Diverges

definition lift_impact :: "codec_error + 'a \<Rightarrow> impact_error + 'a" where
  "lift_impact r = (case r of Inl e \<Rightarrow> Inl (ImpactData e) | Inr a \<Rightarrow> Inr a)"

definition of_semantic :: "semantic_error + 'a \<Rightarrow> impact_error + 'a" where
  "of_semantic r = (case r of Inl e \<Rightarrow> Inl (ImpactGraph (GraphResource e)) | Inr a \<Rightarrow> Inr a)"


section \<open>Changes\<close>

text \<open>\<open>_resource_contract\<close>: the signature of a symbol as a contract resource.\<close>

definition resource_contract :: "semantic_resource \<Rightarrow> semantic_error + semantic_resource option" where
  "resource_contract r =
     (if sr_kind r \<noteq> K_SYMBOL \<or> sr_signature r = None then Inr None
      else
        let qualified = str_or (sr_qualified r) (sr_identifier r);
            meta = filter (\<lambda>p. snd p \<noteq> JNull)
              [(''language'', jopt (sr_language r)), (''path'', jopt (sr_path r)), (''qualified_identifier'', JStr qualified),
               (''subject_qualified_identifier'', JStr qualified), (''parent_identity'', JStr (sr_identity r)),
               (''source_resource_identity'', JStr (sr_identity r))]
        in res_bind (lift_sem (lift_model (resource_post_init
             \<lparr>rr_kind = K_CONTRACT, rr_identifier = sr_identifier r, rr_signature = sr_signature r, rr_region = None,
              rr_concept_id = sr_concept r, rr_subject_concept_id = sr_concept r, rr_metadata = meta\<rparr>))) (\<lambda>ref.
           res_bind (normalize_resource_ref ref) (\<lambda>c. Inr (Some c))))"

record sem_change =
  sc_identity :: string
  sc_kind :: change_kind
  sc_before :: "semantic_resource option"
  sc_after :: "semantic_resource option"
  sc_metadata :: metadata

definition other_identity :: "semantic_resource option \<Rightarrow> string \<Rightarrow> bool" where
  "other_identity r i = (case r of None \<Rightarrow> False | Some r \<Rightarrow> sr_identity r \<noteq> i)"

definition change_post_init :: "sem_change \<Rightarrow> impact_error + sem_change" where
  "change_post_init c =
     (let i = strip (sc_identity c)
      in if i = [] then Inl EmptyChange
         else if other_identity (sc_before c) i then Inl (ResourceMismatch ''before_resource'')
         else if other_identity (sc_after c) i then Inl (ResourceMismatch ''after_resource'')
         else Inr (c\<lparr>sc_identity := i\<rparr>))"

definition change_resource :: "sem_change \<Rightarrow> semantic_resource option" where
  "change_resource c = (case sc_after c of Some r \<Rightarrow> Some r | None \<Rightarrow> sc_before c)"

text \<open>The projection cannot fail on a constructed resource, so the error branch writes null.\<close>

definition change_contract :: "sem_change \<Rightarrow> semantic_resource option" where
  "change_contract c =
     (if sc_kind c \<noteq> CH_CONTRACT then None
      else case change_resource c of None \<Rightarrow> None
        | Some r \<Rightarrow> (case resource_contract r of Inr k \<Rightarrow> k | Inl _ \<Rightarrow> None))"

definition opt_resource_json :: "(string \<Rightarrow> string) \<Rightarrow> semantic_resource option \<Rightarrow> json" where
  "opt_resource_json sha_text r = (case r of None \<Rightarrow> JNull | Some r \<Rightarrow> semantic_resource_dict sha_text r)"

definition change_dict :: "(string \<Rightarrow> string) \<Rightarrow> sem_change \<Rightarrow> json" where
  "change_dict sha_text c = JObj
     [(''identity'', JStr (sc_identity c)), (''kind'', JStr (change_value (sc_kind c))),
      (''before_resource'', opt_resource_json sha_text (sc_before c)),
      (''after_resource'', opt_resource_json sha_text (sc_after c)),
      (''contract_resource'', opt_resource_json sha_text (change_contract c)), (''metadata'', JObj (sc_metadata c))]"

definition resource_field :: "(string \<Rightarrow> string) \<Rightarrow> metadata \<Rightarrow> string \<Rightarrow> impact_error + semantic_resource option" where
  "resource_field sha_text data key =
     (if jget data key = JNull then Inr None
      else res_bind (of_semantic (semantic_from_dict sha_text (jget data key))) (\<lambda>r. Inr (Some r)))"

definition change_from_dict :: "(string \<Rightarrow> string) \<Rightarrow> json \<Rightarrow> impact_error + sem_change" where
  "change_from_dict sha_text v =
     res_bind (lift_impact (as_object v)) (\<lambda>data.
     res_bind (lift_impact (require_fields data [''identity'', ''kind''])) (\<lambda>_.
     res_bind (lift_impact (enum_of change_value all_change_kinds (jget data ''kind''))) (\<lambda>kind.
     res_bind (resource_field sha_text data ''before_resource'') (\<lambda>before.
     res_bind (resource_field sha_text data ''after_resource'') (\<lambda>after.
     res_bind (lift_impact (get_dict data ''metadata'')) (\<lambda>meta.
     change_post_init \<lparr>sc_identity = py_str (jget data ''identity''), sc_kind = kind, sc_before = before,
       sc_after = after, sc_metadata = meta\<rparr>))))))"


section \<open>Paths, impacted resources and boundaries\<close>

record impact_path =
  ip_root :: string
  ip_target :: string
  ip_identities :: "string list"
  ip_relations :: "dep_relation list"

definition path_post_init :: "impact_path \<Rightarrow> impact_error + impact_path" where
  "path_post_init p =
     (if ip_identities p = [] \<or> hd (ip_identities p) \<noteq> ip_root p \<or> List.last (ip_identities p) \<noteq> ip_target p
         \<or> length (ip_relations p) + 1 \<noteq> length (ip_identities p)
      then Inl BadPath else Inr p)"

definition ip_distance :: "impact_path \<Rightarrow> nat" where
  "ip_distance p = length (ip_relations p)"

definition path_preference :: "impact_path \<Rightarrow> nat \<times> nat list \<times> string list \<times> string list" where
  "path_preference p = (ip_distance p, map relation_preference (ip_relations p), ip_identities p,
     map relation_value (ip_relations p))"

definition path_dict :: "impact_path \<Rightarrow> json" where
  "path_dict p = JObj
     [(''root_identity'', JStr (ip_root p)), (''target_identity'', JStr (ip_target p)),
      (''identities'', jstrs (ip_identities p)), (''relations'', jstrs (map relation_value (ip_relations p))),
      (''distance'', JInt (int (ip_distance p)))]"

record impacted_resource =
  im_node :: dep_node
  im_roots :: "string list"
  im_paths :: "impact_path list"
  im_sensitive :: bool

definition path_order :: "impact_path \<Rightarrow> string \<times> nat \<times> string list \<times> string list" where
  "path_order p = (ip_root p, ip_distance p, ip_identities p, map relation_value (ip_relations p))"

definition impacted_post_init :: "impacted_resource \<Rightarrow> impact_error + impacted_resource" where
  "impacted_post_init m =
     (let roots = sorted_set (im_roots m); paths = sort_key path_order (im_paths m)
      in if roots \<noteq> sorted_set (map ip_root paths) then Inl BadImpacted
         else if list_ex (\<lambda>p. ip_target p \<noteq> dn_identity (im_node m)) paths then Inl BadImpacted
         else Inr (m\<lparr>im_roots := roots, im_paths := paths\<rparr>))"

definition min_distance :: "impacted_resource \<Rightarrow> nat" where
  "min_distance m = (case map ip_distance (im_paths m) of [] \<Rightarrow> 0 | d # ds \<Rightarrow> fold min ds d)"

definition impacted_relations :: "impacted_resource \<Rightarrow> string list" where
  "impacted_relations m = sorted_set (map relation_value (concat (map ip_relations (im_paths m))))"

definition impacted_dict :: "(string \<Rightarrow> string) \<Rightarrow> impacted_resource \<Rightarrow> json" where
  "impacted_dict sha_text m = JObj
     [(''node'', node_dict sha_text (im_node m)), (''root_identities'', jstrs (im_roots m)),
      (''paths'', JList (map path_dict (im_paths m))), (''min_distance'', JInt (int (min_distance m))),
      (''relations'', jstrs (impacted_relations m)), (''contract_sensitive'', JBool (im_sensitive m)),
      (''public'', JBool (dn_public (im_node m))), (''test'', JBool (dn_test (im_node m)))]"

record impact_boundary =
  bd_source :: string
  bd_target :: string
  bd_relation :: dep_relation
  bd_resolution :: dep_resolution
  bd_roots :: "string list"
  bd_locations :: "int list"

definition boundary_post_init :: "impact_boundary \<Rightarrow> impact_error + impact_boundary" where
  "boundary_post_init b =
     (if bd_resolution b = D_INTERNAL then Inl InternalBoundary
      else Inr (b\<lparr>bd_roots := sorted_set (bd_roots b), bd_locations := sorted_set (bd_locations b)\<rparr>))"

definition boundary_key :: "impact_boundary \<Rightarrow> string \<times> string \<times> string \<times> string" where
  "boundary_key b = (bd_source b, bd_target b, relation_value (bd_relation b), resolution_value (bd_resolution b))"

definition boundary_dict :: "impact_boundary \<Rightarrow> json" where
  "boundary_dict b = JObj
     [(''source_identity'', JStr (bd_source b)), (''target_identity'', JStr (bd_target b)),
      (''relation'', JStr (relation_value (bd_relation b))), (''resolution'', JStr (resolution_value (bd_resolution b))),
      (''root_identities'', jstrs (bd_roots b)), (''locations'', JList (map JInt (bd_locations b)))]"


section \<open>Reports\<close>

record impact_report =
  im_graph :: string
  im_changes :: "sem_change list"
  im_impacted :: "impacted_resource list"
  im_boundaries :: "impact_boundary list"
  im_metadata :: metadata
  im_protocol :: string

definition impact_protocol :: string where
  "impact_protocol = ''claim-plane.semantic-impact.v1''"

definition impacted_identity :: "impacted_resource \<Rightarrow> string" where
  "impacted_identity m = dn_identity (im_node m)"

definition report_post_init :: "impact_report \<Rightarrow> impact_error + impact_report" where
  "report_post_init r =
     (if im_protocol r \<noteq> impact_protocol then Inl (ImpactGraph (BadGraphProtocol (im_protocol r)))
      else if length (im_graph r) \<noteq> 64 then Inl BadReport
      else Inr (r\<lparr>im_changes := sort_key sc_identity (im_changes r),
                 im_impacted := sort_key impacted_identity (im_impacted r),
                 im_boundaries := sort_key boundary_key (im_boundaries r)\<rparr>))"

definition impact_report_fields :: "(string \<Rightarrow> string) \<Rightarrow> impact_report \<Rightarrow> metadata" where
  "impact_report_fields sha_text r =
     [(''protocol'', JStr (im_protocol r)), (''graph_fingerprint'', JStr (im_graph r)),
      (''changes'', JList (map (change_dict sha_text) (im_changes r))),
      (''impacted'', JList (map (impacted_dict sha_text) (im_impacted r))),
      (''boundaries'', JList (map boundary_dict (im_boundaries r))), (''metadata'', JObj (im_metadata r))]"

definition impact_fingerprint :: "(json \<Rightarrow> string) \<Rightarrow> (string \<Rightarrow> string) \<Rightarrow> impact_report \<Rightarrow> string" where
  "impact_fingerprint sha sha_text r = sha (canon (JObj (impact_report_fields sha_text r)))"

definition public_impacts :: "impact_report \<Rightarrow> impacted_resource list" where
  "public_impacts r = filter (\<lambda>m. dn_public (im_node m)) (im_impacted r)"

definition test_impacts :: "impact_report \<Rightarrow> impacted_resource list" where
  "test_impacts r = filter (\<lambda>m. dn_test (im_node m)) (im_impacted r)"

definition impacted_of :: "impact_report \<Rightarrow> string \<Rightarrow> impacted_resource option" where
  "impacted_of r i = find_row impacted_identity i (im_impacted r)"


section \<open>Propagation\<close>

record impact_state =
  pg_queue :: "impact_path list"
  pg_best :: "(string \<times> nat) list"
  pg_paths :: "(string \<times> (string \<times> impact_path) list) list"
  pg_nodes :: "(string \<times> dep_node) list"
  pg_sensitive :: "string list"
  pg_bounds :: "((string \<times> string \<times> string \<times> string) \<times> impact_boundary \<times> string list) list"

definition path_at :: "impact_state \<Rightarrow> string \<Rightarrow> string \<Rightarrow> impact_path option" where
  "path_at s target root = (case map_of (pg_paths s) target of None \<Rightarrow> None | Some d \<Rightarrow> map_of d root)"

definition put_path :: "string \<Rightarrow> string \<Rightarrow> impact_path \<Rightarrow> impact_state \<Rightarrow> impact_state" where
  "put_path target root p s =
     s\<lparr>pg_paths := AList.update target (AList.update root p (case map_of (pg_paths s) target of None \<Rightarrow> [] | Some d \<Rightarrow> d))
        (pg_paths s)\<rparr>"

definition change_node :: "sem_graph \<Rightarrow> sem_change \<Rightarrow> impact_error + dep_node" where
  "change_node g c = (case node_of g (sc_identity c) of
       Some n \<Rightarrow> Inr n
     | None \<Rightarrow> (case change_resource c of
         None \<Rightarrow> Inl (NoResource (sc_identity c))
       | Some r \<Rightarrow> Inr \<lparr>dn_resource = r, dn_public = truthy (jget (sr_metadata r) ''is_public''), dn_test = False,
                      dn_external = False, dn_metadata = [(''synthetic_change_root'', JBool True)]\<rparr>))"

definition boundary_of :: "string \<Rightarrow> sem_edge \<Rightarrow> impact_boundary" where
  "boundary_of root e = \<lparr>bd_source = de_source e, bd_target = de_target e, bd_relation = de_relation e,
     bd_resolution = de_resolution e, bd_roots = [root], bd_locations = sorted_set (de_locations e)\<rparr>"

definition collect_boundaries :: "sem_graph \<Rightarrow> string \<Rightarrow> string \<Rightarrow> dep_relation list \<Rightarrow> impact_boundary list" where
  "collect_boundaries g source root allowed =
     map (boundary_of root) (filter (\<lambda>e. de_resolution e \<noteq> D_INTERNAL) (outgoing g source (Some allowed)))"

definition note_boundary :: "string \<Rightarrow> impact_boundary \<Rightarrow> impact_state \<Rightarrow> impact_state" where
  "note_boundary root b s = (case map_of (pg_bounds s) (boundary_key b) of
       None \<Rightarrow> s\<lparr>pg_bounds := AList.update (boundary_key b) (b, [root]) (pg_bounds s)\<rparr>
     | Some (old, roots) \<Rightarrow> s\<lparr>pg_bounds := AList.update (boundary_key b) (old, List.insert root roots) (pg_bounds s)\<rparr>)"

definition edge_order :: "sem_edge \<Rightarrow> string \<times> string \<times> string" where
  "edge_order e = (de_source e, relation_value (de_relation e), de_target e)"

definition extend_path :: "impact_path \<Rightarrow> sem_edge \<Rightarrow> impact_path" where
  "extend_path p e = \<lparr>ip_root = ip_root p, ip_target = de_source e, ip_identities = ip_identities p @ [de_source e],
     ip_relations = ip_relations p @ [de_relation e]\<rparr>"

definition store_better :: "string \<Rightarrow> impact_path \<Rightarrow> impact_state \<Rightarrow> impact_state" where
  "store_better root p s =
     (if (case path_at s (ip_target p) root of None \<Rightarrow> True | Some old \<Rightarrow> path_preference p < path_preference old)
      then put_path (ip_target p) root p s else s)"

definition push_path :: "impact_path \<Rightarrow> impact_state \<Rightarrow> impact_state" where
  "push_path p s =
     (if (case map_of (pg_best s) (ip_target p) of None \<Rightarrow> True | Some d \<Rightarrow> ip_distance p < d)
      then s\<lparr>pg_best := AList.update (ip_target p) (ip_distance p) (pg_best s), pg_queue := pg_queue s @ [p]\<rparr> else s)"

definition note_target :: "sem_graph \<Rightarrow> bool \<Rightarrow> string \<Rightarrow> impact_state \<Rightarrow> impact_state" where
  "note_target g sensitive target s =
     s\<lparr>pg_nodes := (case node_of g target of None \<Rightarrow> pg_nodes s | Some n \<Rightarrow> AList.update target n (pg_nodes s)),
       pg_sensitive := (if sensitive then List.insert target (pg_sensitive s) else pg_sensitive s)\<rparr>"

definition impact_edge :: "sem_graph \<Rightarrow> string \<Rightarrow> bool \<Rightarrow> impact_path \<Rightarrow> sem_edge \<Rightarrow> impact_state \<Rightarrow> impact_state" where
  "impact_edge g root sensitive current e s =
     (let p = extend_path current e
      in if de_resolution e \<noteq> D_INTERNAL then s
         else if (case map_of (pg_best s) (de_source e) of None \<Rightarrow> False | Some d \<Rightarrow> d < ip_distance p) then s
         else note_target g sensitive (de_source e) (push_path p (store_better root p s)))"

definition impact_step ::
  "sem_graph \<Rightarrow> int option \<Rightarrow> string \<Rightarrow> bool \<Rightarrow> dep_relation list \<Rightarrow> impact_state \<Rightarrow> impact_state" where
  "impact_step g max_depth root sensitive allowed s =
     (let current = hd (pg_queue s);
          s1 = fold (note_boundary root) (collect_boundaries g (ip_target current) root allowed) (s\<lparr>pg_queue := tl (pg_queue s)\<rparr>)
      in if (case max_depth of None \<Rightarrow> False | Some m \<Rightarrow> m \<le> int (ip_distance current)) then s1
         else fold (impact_edge g root sensitive current)
                (sort_key edge_order (incoming g (ip_target current) (Some allowed))) s1)"

definition root_path :: "string \<Rightarrow> impact_path" where
  "root_path i = \<lparr>ip_root = i, ip_target = i, ip_identities = [i], ip_relations = []\<rparr>"

definition start_change :: "dep_node \<Rightarrow> bool \<Rightarrow> string \<Rightarrow> impact_state \<Rightarrow> impact_state" where
  "start_change n sensitive i s =
     (put_path i i (root_path i) (s\<lparr>pg_nodes := AList.update (dn_identity n) n (pg_nodes s),
        pg_sensitive := (if sensitive then List.insert i (pg_sensitive s) else pg_sensitive s)\<rparr>))
     \<lparr>pg_queue := [root_path i], pg_best := [(i, 0)]\<rparr>"

definition impact_change ::
  "sem_graph \<Rightarrow> int option \<Rightarrow> sem_change \<Rightarrow> impact_state \<Rightarrow> impact_error + impact_state" where
  "impact_change g max_depth c s =
     (let i = sc_identity c; sensitive = (sc_kind c = CH_CONTRACT)
      in res_bind (change_node g c) (\<lambda>n.
         case while_option (\<lambda>s. pg_queue s \<noteq> [])
                (impact_step g max_depth i sensitive (relations_for_change (sc_kind c))) (start_change n sensitive i s) of
           None \<Rightarrow> Inl Diverges
         | Some t \<Rightarrow> Inr t))"

fun impact_changes :: "sem_graph \<Rightarrow> int option \<Rightarrow> sem_change list \<Rightarrow> impact_state \<Rightarrow> impact_error + impact_state" where
  "impact_changes g max_depth [] s = Inr s"
| "impact_changes g max_depth (c # cs) s = res_bind (impact_change g max_depth c s) (impact_changes g max_depth cs)"

definition empty_impact :: impact_state where
  "empty_impact = \<lparr>pg_queue = [], pg_best = [], pg_paths = [], pg_nodes = [], pg_sensitive = [], pg_bounds = []\<rparr>"

text \<open>\<open>nodes.get(identity) or graph.node(identity)\<close>, else the node of the change itself.\<close>

definition impacted_node :: "sem_graph \<Rightarrow> sem_change list \<Rightarrow> impact_state \<Rightarrow> string \<Rightarrow> impact_error + dep_node" where
  "impacted_node g changes s i = (case map_of (pg_nodes s) i of
       Some n \<Rightarrow> Inr n
     | None \<Rightarrow> (case node_of g i of
         Some n \<Rightarrow> Inr n
       | None \<Rightarrow> (case find (\<lambda>c. sc_identity c = i) changes of
           None \<Rightarrow> Inl (AbsentIdentity i) | Some c \<Rightarrow> change_node g c)))"

definition impacted_entry ::
  "sem_graph \<Rightarrow> sem_change list \<Rightarrow> impact_state \<Rightarrow> string \<times> (string \<times> impact_path) list \<Rightarrow> impact_error + impacted_resource" where
  "impacted_entry g changes s entry =
     (let paths = map snd (sort_key fst (snd entry))
      in res_bind (impacted_node g changes s (fst entry)) (\<lambda>n.
         impacted_post_init \<lparr>im_node = n, im_roots = map ip_root paths, im_paths = paths,
           im_sensitive = (fst entry \<in> set (pg_sensitive s))\<rparr>))"

definition relation_texts :: "dep_relation list \<Rightarrow> json" where
  "relation_texts rs = jstrs (sort (map relation_value rs))"

definition depth_json :: "int option \<Rightarrow> json" where
  "depth_json d = (case d of None \<Rightarrow> JNull | Some n \<Rightarrow> JInt n)"

definition analyze_semantic_impact ::
  "(json \<Rightarrow> string) \<Rightarrow> (string \<Rightarrow> string) \<Rightarrow> sem_graph \<Rightarrow> sem_change list \<Rightarrow> int option \<Rightarrow> impact_error + impact_report" where
  "analyze_semantic_impact sha sha_text g changes max_depth =
     (if (case max_depth of None \<Rightarrow> False | Some m \<Rightarrow> m < 0) then Inl NegativeDepth
      else if \<not> distinct (map sc_identity changes) then Inl DuplicateChanges
      else
        res_bind (impact_changes g max_depth (sort_key sc_identity changes) empty_impact) (\<lambda>s.
        res_bind (res_map (impacted_entry g changes s) (sort_key fst (pg_paths s))) (\<lambda>impacted.
        res_bind (res_map (\<lambda>(k, b, roots). boundary_post_init (b\<lparr>bd_roots := roots\<rparr>)) (pg_bounds s)) (\<lambda>bounds.
        report_post_init
          \<lparr>im_graph = graph_fingerprint_of sha sha_text g, im_changes = changes, im_impacted = impacted,
           im_boundaries = bounds,
           im_metadata = [(''direction'', JStr ''reverse_dependency''), (''max_depth'', depth_json max_depth),
             (''contract_relations'', relation_texts contract_relations),
             (''implementation_relations'', relation_texts implementation_relations),
             (''state_relations'', relation_texts state_relations)],
           im_protocol = impact_protocol\<rparr>))))"

end
