(* ===== verification/GraphChange.thy ===== *)
theory GraphChange
  imports Impact
begin

text \<open>
  The comparison of two graph snapshots and the impact of what changed between them (the second half
  of \<open>core/impact.py\<close>): removed resources are propagated on the graph before, everything else on the
  graph after, and the two reports are merged.
\<close>


section \<open>Comparing snapshots\<close>

definition incident_signature :: "sem_graph \<Rightarrow> string \<Rightarrow> (string \<times> string \<times> string \<times> string) list" where
  "incident_signature g i = sort (map edge_key (filter (\<lambda>e. de_source e = i \<or> de_target e = i) (sg_edges g)))"

definition identities_of :: "sem_graph \<Rightarrow> string list" where
  "identities_of g = map dn_identity (sg_nodes g)"

definition node_changed :: "sem_graph \<Rightarrow> sem_graph \<Rightarrow> string \<Rightarrow> bool" where
  "node_changed before after i = (case (node_of before i, node_of after i) of
       (Some l, Some r) \<Rightarrow>
         sr_signature (dn_resource l) \<noteq> sr_signature (dn_resource r)
         \<or> (dn_public l, dn_test l, dn_external l) \<noteq> (dn_public r, dn_test r, dn_external r)
         \<or> incident_signature before i \<noteq> incident_signature after i
     | (None, None) \<Rightarrow> False
     | _ \<Rightarrow> True)"

definition explicit_identities :: "string list \<Rightarrow> string list" where
  "explicit_identities xs = filter (\<lambda>i. i \<noteq> []) (map strip xs)"

definition changed_candidates :: "sem_graph \<Rightarrow> sem_graph \<Rightarrow> string list \<Rightarrow> string list" where
  "changed_candidates before after explicit = sorted_set
     (explicit @ filter (node_changed before after) (identities_of before @ identities_of after))"

definition kind_of_change :: "sem_graph \<Rightarrow> sem_graph \<Rightarrow> string \<Rightarrow> impact_error + change_kind" where
  "kind_of_change before after i = (case (node_of before i, node_of after i) of
       (None, Some _) \<Rightarrow> Inr CH_ADDED
     | (Some _, None) \<Rightarrow> Inr CH_REMOVED
     | (None, None) \<Rightarrow> Inl (AbsentIdentity i)
     | (Some l, Some r) \<Rightarrow> Inr
         (if sr_signature (dn_resource l) \<noteq> sr_signature (dn_resource r) then CH_CONTRACT
          else if jget (dn_metadata r) ''symbol_kind'' = JStr ''state'' then CH_STATE
          else if incident_signature before i \<noteq> incident_signature after i then CH_STRUCTURE
          else CH_IMPLEMENTATION))"

definition graph_change ::
  "(json \<Rightarrow> string) \<Rightarrow> (string \<Rightarrow> string) \<Rightarrow> sem_graph \<Rightarrow> sem_graph \<Rightarrow> string list \<Rightarrow> string \<Rightarrow> impact_error + sem_change" where
  "graph_change sha sha_text before after explicit i =
     res_bind (kind_of_change before after i) (\<lambda>kind.
     change_post_init
       \<lparr>sc_identity = i, sc_kind = kind, sc_before = map_option dn_resource (node_of before i),
        sc_after = map_option dn_resource (node_of after i),
        sc_metadata = [(''explicit_mutation'', JBool (i \<in> set explicit)),
          (''before_graph'', JStr (graph_fingerprint_of sha sha_text before)),
          (''after_graph'', JStr (graph_fingerprint_of sha sha_text after))]\<rparr>)"

definition compare_semantic_graphs ::
  "(json \<Rightarrow> string) \<Rightarrow> (string \<Rightarrow> string) \<Rightarrow> sem_graph \<Rightarrow> sem_graph \<Rightarrow> string list \<Rightarrow> impact_error + sem_change list" where
  "compare_semantic_graphs sha sha_text before after changed =
     (let explicit = explicit_identities changed
      in res_map (graph_change sha sha_text before after explicit) (changed_candidates before after explicit))"


section \<open>Merging two reports\<close>

record merged_impact =
  mi_paths :: "(string \<times> (string \<times> impact_path) list) list"
  mi_nodes :: "(string \<times> dep_node) list"
  mi_sensitive :: "string list"
  mi_bounds :: "((string \<times> string \<times> string \<times> string) \<times> impact_boundary \<times> string list) list"

definition shorter_path :: "impact_path \<Rightarrow> (string \<times> impact_path) list \<Rightarrow> (string \<times> impact_path) list" where
  "shorter_path p grp = (case map_of grp (ip_root p) of
       None \<Rightarrow> AList.update (ip_root p) p grp
     | Some old \<Rightarrow> if ip_distance p < ip_distance old then AList.update (ip_root p) p grp else grp)"

definition merge_item :: "impacted_resource \<Rightarrow> merged_impact \<Rightarrow> merged_impact" where
  "merge_item m s =
     (let i = impacted_identity m
      in s\<lparr>mi_nodes := (if map_of (mi_nodes s) i = None then AList.update i (im_node m) (mi_nodes s) else mi_nodes s),
           mi_sensitive := (if im_sensitive m then List.insert i (mi_sensitive s) else mi_sensitive s),
           mi_paths := AList.update i (fold shorter_path (im_paths m)
             (case map_of (mi_paths s) i of None \<Rightarrow> [] | Some grp \<Rightarrow> grp)) (mi_paths s)\<rparr>)"

definition merge_boundary :: "impact_boundary \<Rightarrow> merged_impact \<Rightarrow> merged_impact" where
  "merge_boundary b s = (case map_of (mi_bounds s) (boundary_key b) of
       None \<Rightarrow> s\<lparr>mi_bounds := AList.update (boundary_key b) (b, bd_roots b) (mi_bounds s)\<rparr>
     | Some (old, roots) \<Rightarrow>
         s\<lparr>mi_bounds := AList.update (boundary_key b) (old, fold List.insert (bd_roots b) roots) (mi_bounds s)\<rparr>)"

definition merge_report :: "impact_report \<Rightarrow> merged_impact \<Rightarrow> merged_impact" where
  "merge_report r s = fold merge_boundary (im_boundaries r) (fold merge_item (im_impacted r) s)"

definition merged_entry :: "merged_impact \<Rightarrow> string \<times> (string \<times> impact_path) list \<Rightarrow> impact_error + impacted_resource" where
  "merged_entry s entry =
     (let grp = sort_key fst (snd entry)
      in case map_of (mi_nodes s) (fst entry) of
           None \<Rightarrow> Inl (AbsentIdentity (fst entry))
         | Some n \<Rightarrow> impacted_post_init \<lparr>im_node = n, im_roots = map fst grp, im_paths = map snd grp,
             im_sensitive = (fst entry \<in> set (mi_sensitive s))\<rparr>)"

definition comparison_metadata :: "(json \<Rightarrow> string) \<Rightarrow> (string \<Rightarrow> string) \<Rightarrow> sem_graph \<Rightarrow> sem_graph \<Rightarrow> metadata" where
  "comparison_metadata sha sha_text before after =
     [(''comparison_before_graph'', JStr (graph_fingerprint_of sha sha_text before)),
      (''comparison_after_graph'', JStr (graph_fingerprint_of sha sha_text after))]"

definition depth_metadata :: "int option \<Rightarrow> metadata" where
  "depth_metadata d = [(''direction'', JStr ''reverse_dependency''), (''max_depth'', depth_json d)]"

definition analyze_if_any ::
  "(json \<Rightarrow> string) \<Rightarrow> (string \<Rightarrow> string) \<Rightarrow> sem_graph \<Rightarrow> sem_change list \<Rightarrow> int option \<Rightarrow> impact_error + impact_report list" where
  "analyze_if_any sha sha_text g changes max_depth =
     (if changes = [] then Inr []
      else res_bind (analyze_semantic_impact sha sha_text g changes max_depth) (\<lambda>r. Inr [r]))"

definition analyze_graph_change_impact ::
  "(json \<Rightarrow> string) \<Rightarrow> (string \<Rightarrow> string) \<Rightarrow> sem_graph \<Rightarrow> sem_graph \<Rightarrow> string list \<Rightarrow> int option
   \<Rightarrow> impact_error + impact_report" where
  "analyze_graph_change_impact sha sha_text before after changed max_depth =
     res_bind (compare_semantic_graphs sha sha_text before after changed) (\<lambda>changes.
     let removed = filter (\<lambda>c. sc_kind c = CH_REMOVED) changes;
         present = filter (\<lambda>c. sc_kind c \<noteq> CH_REMOVED) changes;
         fp = graph_fingerprint_of sha sha_text after;
         comparison = comparison_metadata sha sha_text before after
     in res_bind (analyze_if_any sha sha_text after present max_depth) (\<lambda>rs1.
        res_bind (analyze_if_any sha sha_text before removed max_depth) (\<lambda>rs2.
        if rs1 @ rs2 = [] then report_post_init
          \<lparr>im_graph = fp, im_changes = [], im_impacted = [], im_boundaries = [],
           im_metadata = depth_metadata max_depth @ comparison, im_protocol = impact_protocol\<rparr>
        else if length (rs1 @ rs2) = 1 \<and> removed = [] then
          (let r = hd rs1
           in report_post_init \<lparr>im_graph = fp, im_changes = changes, im_impacted = im_impacted r,
                im_boundaries = im_boundaries r, im_metadata = dict_merge (im_metadata r) comparison,
                im_protocol = impact_protocol\<rparr>)
        else
          let s = fold merge_report (rs1 @ rs2) \<lparr>mi_paths = [], mi_nodes = [], mi_sensitive = [], mi_bounds = []\<rparr>
          in res_bind (res_map (merged_entry s) (sort_key fst (mi_paths s))) (\<lambda>impacted.
             res_bind (res_map (\<lambda>(k, b, roots). boundary_post_init (b\<lparr>bd_roots := roots\<rparr>)) (mi_bounds s)) (\<lambda>bounds.
             report_post_init \<lparr>im_graph = fp, im_changes = changes, im_impacted = impacted, im_boundaries = bounds,
               im_metadata = depth_metadata max_depth @ comparison
                 @ [(''removed_resources_propagated_on_before_graph'', JBool True)],
               im_protocol = impact_protocol\<rparr>)))))"

end
