(* ===== verification/Blocking.thy ===== *)
theory Blocking
  imports Impact
begin

text \<open>
  Candidate blocking (\<open>core/candidate_blocking.py\<close>): the affected subgraph of each mutation set, and
  the pairs of mutation sets that need the conflict classifier, found through inverted indexes. A
  pair that is left out is meant to be a proof of independence.
\<close>


section \<open>Candidates\<close>

datatype blocking_reason = B_OVERLAP | B_UNRESOLVED | B_FAIL_CLOSED

fun blocking_value :: "blocking_reason \<Rightarrow> string" where
  "blocking_value B_OVERLAP = ''affected_subgraph_overlap''"
| "blocking_value B_UNRESOLVED = ''shared_unresolved_boundary''"
| "blocking_value B_FAIL_CLOSED = ''fail_closed_candidate''"

datatype fail_reason = F_MISSING_ROOT | F_UNKNOWN_CHANGE | F_UNRESOLVED | F_BOUNDED

fun fail_value :: "fail_reason \<Rightarrow> string" where
  "fail_value F_MISSING_ROOT = ''missing_graph_root''"
| "fail_value F_UNKNOWN_CHANGE = ''unknown_change''"
| "fail_value F_UNRESOLVED = ''unresolved_boundary''"
| "fail_value F_BOUNDED = ''bounded_traversal''"

datatype blocking_error =
    BlockingImpact impact_error
  | EmptyCandidate
  | NoChanges
  | RepeatedChange
  | RepeatedCandidate
  | BadBlockingProtocol
  | BadFingerprint
  | NoRoots
  | RootNotAffected
  | NegativeBlockingDepth
  | BadPair
  | NoReason
  | SubgraphMismatch
  | RepeatedPair
  | UnknownCandidate
  | BlockingDiverges

definition candidate_relations :: "dep_relation list" where
  "candidate_relations = filter (\<lambda>r. r \<notin> {R_DEFINES, R_PUBLIC_API}) all_relations"

record mutation_candidate =
  mc_id :: string
  mc_changes :: "sem_change list"
  mc_metadata :: metadata

definition candidate_post_init :: "mutation_candidate \<Rightarrow> blocking_error + mutation_candidate" where
  "candidate_post_init c =
     (let cid = strip (mc_id c)
      in if cid = [] then Inl EmptyCandidate
         else if mc_changes c = [] then Inl NoChanges
         else if \<not> distinct (map sc_identity (mc_changes c)) then Inl RepeatedChange
         else Inr (c\<lparr>mc_id := cid, mc_changes := sort_key sc_identity (mc_changes c)\<rparr>))"

record affected_subgraph =
  as_id :: string
  as_graph :: string
  as_roots :: "string list"
  as_affected :: "string list"
  as_unresolved :: "string list"
  as_external :: "string list"
  as_fail :: "fail_reason list"
  as_depth :: "int option"
  as_metadata :: metadata

definition texts_set :: "string list \<Rightarrow> string list" where
  "texts_set xs = sorted_set (filter (\<lambda>s. s \<noteq> []) xs)"

definition negative_depth :: "int option \<Rightarrow> bool" where
  "negative_depth d = (case d of None \<Rightarrow> False | Some n \<Rightarrow> n < 0)"

definition fail_reasons :: "fail_reason list \<Rightarrow> fail_reason list" where
  "fail_reasons rs = sort_key fail_value (remdups rs)"

definition subgraph_post_init :: "affected_subgraph \<Rightarrow> blocking_error + affected_subgraph" where
  "subgraph_post_init s =
     (let cid = strip (as_id s); roots = texts_set (as_roots s); affected = texts_set (as_affected s)
      in if cid = [] then Inl EmptyCandidate
         else if length (as_graph s) \<noteq> 64 then Inl BadFingerprint
         else if roots = [] then Inl NoRoots
         else if \<not> set roots \<subseteq> set affected then Inl RootNotAffected
         else if negative_depth (as_depth s) then Inl NegativeBlockingDepth
         else Inr (s\<lparr>as_id := cid, as_roots := roots, as_affected := affected, as_unresolved := texts_set (as_unresolved s),
                    as_external := texts_set (as_external s), as_fail := fail_reasons (as_fail s)\<rparr>))"

definition fail_closed :: "affected_subgraph \<Rightarrow> bool" where
  "fail_closed s = (as_fail s \<noteq> [])"

definition subgraph_fields :: "affected_subgraph \<Rightarrow> metadata" where
  "subgraph_fields s =
     [(''protocol'', JStr ''claim-plane.candidate-affected-subgraph.v1''), (''candidate_id'', JStr (as_id s)),
      (''graph_fingerprint'', JStr (as_graph s)), (''root_identities'', jstrs (as_roots s)),
      (''affected_identities'', jstrs (as_affected s)), (''unresolved_targets'', jstrs (as_unresolved s)),
      (''external_targets'', jstrs (as_external s)), (''fail_closed'', JBool (fail_closed s)),
      (''fail_closed_reasons'', jstrs (map fail_value (as_fail s))), (''max_depth'', depth_json (as_depth s)),
      (''metadata'', JObj (as_metadata s))]"

definition subgraph_fingerprint :: "(json \<Rightarrow> string) \<Rightarrow> affected_subgraph \<Rightarrow> string" where
  "subgraph_fingerprint sha s = sha (canon (JObj (subgraph_fields s)))"

record candidate_pair =
  cp_left :: string
  cp_right :: string
  cp_reasons :: "blocking_reason list"
  cp_shared :: "string list"
  cp_unresolved :: "string list"
  cp_fail :: "string list"

definition candidate_pair_post_init :: "candidate_pair \<Rightarrow> blocking_error + candidate_pair" where
  "candidate_pair_post_init p =
     (let l = strip (cp_left p); r = strip (cp_right p); reasons = sort_key blocking_value (remdups (cp_reasons p))
      in if l = [] \<or> r = [] \<or> l = r then Inl BadPair
         else if reasons = [] then Inl NoReason
         else Inr \<lparr>cp_left = (if r < l then r else l), cp_right = (if r < l then l else r), cp_reasons = reasons,
                   cp_shared = texts_set (cp_shared p), cp_unresolved = texts_set (cp_unresolved p),
                   cp_fail = texts_set (cp_fail p)\<rparr>)"

definition cp_key :: "candidate_pair \<Rightarrow> string \<times> string" where
  "cp_key p = (cp_left p, cp_right p)"


section \<open>The graph index\<close>

record graph_index =
  gi_graph :: string
  gi_nodes :: "dep_node list"
  gi_incoming :: "string \<Rightarrow> string list"
  gi_boundaries :: "string \<Rightarrow> (string \<times> dep_resolution) list"
  gi_children :: "string \<Rightarrow> string list"

definition boundary_pair_order :: "string \<times> dep_resolution \<Rightarrow> string \<times> string" where
  "boundary_pair_order p = (fst p, resolution_value (snd p))"

text \<open>The three dictionaries of the index, as functions that give the empty tuple for a missing key.\<close>

definition index_graph :: "(json \<Rightarrow> string) \<Rightarrow> (string \<Rightarrow> string) \<Rightarrow> sem_graph \<Rightarrow> graph_index" where
  "index_graph sha sha_text g =
     (let related = filter (\<lambda>e. de_relation e \<in> set candidate_relations) (sg_edges g)
      in \<lparr>gi_graph = graph_fingerprint_of sha sha_text g, gi_nodes = sg_nodes g,
          gi_incoming = (\<lambda>i. sorted_set (map de_source
            (filter (\<lambda>e. de_resolution e = D_INTERNAL \<and> de_target e = i) related))),
          gi_boundaries = (\<lambda>i. sort_key boundary_pair_order (remdups (map (\<lambda>e. (de_target e, de_resolution e))
            (filter (\<lambda>e. de_resolution e \<in> {D_EXTERNAL, D_UNRESOLVED} \<and> de_source e = i) related)))),
          gi_children = (\<lambda>i. sorted_set (map de_target
            (filter (\<lambda>e. de_relation e = R_DEFINES \<and> de_resolution e = D_INTERNAL \<and> de_source e = i) (sg_edges g))))\<rparr>)"


section \<open>The affected subgraph\<close>

record affected_state =
  af_queue :: "(string \<times> nat) list"
  af_seen :: "string list"
  af_affected :: "string list"
  af_unresolved :: "string list"
  af_external :: "string list"

definition note_target_of :: "string \<times> dep_resolution \<Rightarrow> affected_state \<Rightarrow> affected_state" where
  "note_target_of p s = (case snd p of
       D_UNRESOLVED \<Rightarrow> s\<lparr>af_unresolved := List.insert (fst p) (af_unresolved s)\<rparr>
     | D_EXTERNAL \<Rightarrow> s\<lparr>af_external := List.insert (fst p) (af_external s)\<rparr>
     | D_INTERNAL \<Rightarrow> s)"

definition reach_next :: "nat \<Rightarrow> string \<Rightarrow> affected_state \<Rightarrow> affected_state" where
  "reach_next depth i s =
     (let s1 = s\<lparr>af_affected := List.insert i (af_affected s)\<rparr>
      in if i \<in> set (af_seen s) then s1
         else s1\<lparr>af_seen := List.insert i (af_seen s), af_queue := af_queue s @ [(i, depth + 1)]\<rparr>)"

definition owns_children :: "graph_index \<Rightarrow> string list \<Rightarrow> string \<Rightarrow> bool" where
  "owns_children ix roots i = (case find_row dn_identity i (gi_nodes ix) of
       None \<Rightarrow> False
     | Some n \<Rightarrow> i \<in> set roots \<and> sr_kind (dn_resource n) \<in> {K_FILE, K_DOCUMENT})"

definition affected_step :: "graph_index \<Rightarrow> string list \<Rightarrow> int option \<Rightarrow> affected_state \<Rightarrow> affected_state" where
  "affected_step ix roots max_depth s =
     (let current = fst (hd (af_queue s)); depth = snd (hd (af_queue s));
          s1 = fold note_target_of (gi_boundaries ix current) (s\<lparr>af_queue := tl (af_queue s)\<rparr>)
      in if (case max_depth of None \<Rightarrow> False | Some m \<Rightarrow> m \<le> int depth) then s1
         else
           let s2 = fold (reach_next depth) (gi_incoming ix current) s1
           in if owns_children ix roots current then fold (reach_next depth) (gi_children ix current) s2 else s2)"

definition in_index :: "graph_index \<Rightarrow> string \<Rightarrow> bool" where
  "in_index ix i = (find_row dn_identity i (gi_nodes ix) \<noteq> None)"

definition start_affected :: "graph_index \<Rightarrow> string list \<Rightarrow> affected_state" where
  "start_affected ix roots =
     (let present = filter (in_index ix) roots
      in \<lparr>af_queue = map (\<lambda>i. (i, 0)) present, af_seen = present, af_affected = remdups roots, af_unresolved = [],
          af_external = []\<rparr>)"

definition candidate_metadata :: "string list \<Rightarrow> mutation_candidate \<Rightarrow> metadata" where
  "candidate_metadata missing c =
     [(''candidate_relations'', relation_texts candidate_relations), (''missing_graph_roots'', jstrs missing),
      (''change_kinds'', jstrs (sorted_set (map (change_value \<circ> sc_kind) (mc_changes c))))]"

definition affected_subgraph_of ::
  "graph_index \<Rightarrow> mutation_candidate \<Rightarrow> int option \<Rightarrow> blocking_error + affected_subgraph" where
  "affected_subgraph_of ix c max_depth =
     (let roots = map sc_identity (mc_changes c); missing = filter (\<lambda>i. \<not> in_index ix i) roots
      in case while_option (\<lambda>s. af_queue s \<noteq> []) (affected_step ix roots max_depth) (start_affected ix roots) of
           None \<Rightarrow> Inl BlockingDiverges
         | Some s \<Rightarrow> subgraph_post_init
             \<lparr>as_id = mc_id c, as_graph = gi_graph ix, as_roots = roots, as_affected = af_affected s,
              as_unresolved = af_unresolved s, as_external = af_external s,
              as_fail = (if missing \<noteq> [] then [F_MISSING_ROOT] else [])
                @ (if list_ex (\<lambda>x. sc_kind x = CH_UNKNOWN) (mc_changes c) then [F_UNKNOWN_CHANGE] else [])
                @ (if max_depth \<noteq> None then [F_BOUNDED] else [])
                @ (if af_unresolved s \<noteq> [] then [F_UNRESOLVED] else []),
              as_depth = max_depth, as_metadata = candidate_metadata missing c\<rparr>)"


section \<open>The plan\<close>

record blocking_plan =
  bl_graph :: string
  bl_subgraphs :: "affected_subgraph list"
  bl_pairs :: "candidate_pair list"
  bl_depth :: "int option"
  bl_metadata :: metadata

definition blocking_plan_post_init :: "blocking_plan \<Rightarrow> blocking_error + blocking_plan" where
  "blocking_plan_post_init p =
     (let subgraphs = sort_key as_id (bl_subgraphs p); ids = map as_id subgraphs; pairs = sort_key cp_key (bl_pairs p)
      in if length (bl_graph p) \<noteq> 64 then Inl BadFingerprint
         else if \<not> distinct ids then Inl RepeatedCandidate
         else if list_ex (\<lambda>s. as_graph s \<noteq> bl_graph p) subgraphs then Inl SubgraphMismatch
         else if \<not> distinct (map cp_key pairs) then Inl RepeatedPair
         else if list_ex (\<lambda>q. cp_left q \<notin> set ids \<or> cp_right q \<notin> set ids) pairs then Inl UnknownCandidate
         else if negative_depth (bl_depth p) then Inl NegativeBlockingDepth
         else Inr (p\<lparr>bl_subgraphs := subgraphs, bl_pairs := pairs\<rparr>))"

definition total_pair_count :: "blocking_plan \<Rightarrow> nat" where
  "total_pair_count p = (let n = length (bl_subgraphs p) in n * (n - 1) div 2)"

definition selected_pair_count :: "blocking_plan \<Rightarrow> nat" where
  "selected_pair_count p = length (bl_pairs p)"

definition pruned_pair_count :: "blocking_plan \<Rightarrow> int" where
  "pruned_pair_count p = int (total_pair_count p) - int (selected_pair_count p)"

text \<open>\<open>candidates_for\<close> raises \<open>KeyError\<close> for an unknown candidate.\<close>

definition candidates_for :: "blocking_plan \<Rightarrow> string \<Rightarrow> blocking_error + string list" where
  "candidates_for p cid =
     (let v = strip cid
      in if v \<notin> set (map as_id (bl_subgraphs p)) then Inl UnknownCandidate
         else Inr (sorted_set (map (\<lambda>q. if cp_left q = v then cp_right q else cp_left q)
                (filter (\<lambda>q. cp_left q = v \<or> cp_right q = v) (bl_pairs p)))))"

definition planned_pair :: "blocking_plan \<Rightarrow> string \<Rightarrow> string \<Rightarrow> blocking_error + candidate_pair option" where
  "planned_pair p left right =
     (let l = strip left; r = strip right; key = (if r < l then (r, l) else (l, r))
      in if l = r then Inl BadPair else Inr (find (\<lambda>q. cp_key q = key) (bl_pairs p)))"

text \<open>
  One call of \<open>add_pair\<close>: the key, the reason, and what it adds to the three other dictionaries.
\<close>

record pair_note =
  pn_key :: "string \<times> string"
  pn_reason :: blocking_reason
  pn_identity :: "string option"
  pn_target :: "string option"
  pn_candidate :: "string option"

definition sorted_pair :: "string \<Rightarrow> string \<Rightarrow> string \<times> string" where
  "sorted_pair l r = (if r < l then (r, l) else (l, r))"

fun two_of :: "'a list \<Rightarrow> ('a \<times> 'a) list" where
  "two_of [] = []"
| "two_of (x # xs) = map (Pair x) xs @ two_of xs"

definition owners_of :: "(affected_subgraph \<Rightarrow> string list) \<Rightarrow> affected_subgraph list \<Rightarrow> string \<Rightarrow> string list" where
  "owners_of f subgraphs i = sorted_set (map as_id (filter (\<lambda>s. i \<in> set (f s)) subgraphs))"

text \<open>The keys of an inverted index in the order in which they are first seen.\<close>

definition index_keys :: "(affected_subgraph \<Rightarrow> string list) \<Rightarrow> affected_subgraph list \<Rightarrow> string list" where
  "index_keys f subgraphs = uniq (concat (map f subgraphs))"

definition overlap_notes :: "affected_subgraph list \<Rightarrow> pair_note list" where
  "overlap_notes subgraphs = concat (map (\<lambda>i. map (\<lambda>(l, r). \<lparr>pn_key = sorted_pair l r, pn_reason = B_OVERLAP,
       pn_identity = Some i, pn_target = None, pn_candidate = None\<rparr>) (two_of (owners_of as_affected subgraphs i)))
     (index_keys as_affected subgraphs))"

definition unresolved_notes :: "affected_subgraph list \<Rightarrow> pair_note list" where
  "unresolved_notes subgraphs = concat (map (\<lambda>i. map (\<lambda>(l, r). \<lparr>pn_key = sorted_pair l r, pn_reason = B_UNRESOLVED,
       pn_identity = None, pn_target = Some i, pn_candidate = None\<rparr>) (two_of (owners_of as_unresolved subgraphs i)))
     (index_keys as_unresolved subgraphs))"

definition closed_notes :: "affected_subgraph list \<Rightarrow> pair_note list" where
  "closed_notes subgraphs = concat (map (\<lambda>s. map (\<lambda>r. \<lparr>pn_key = sorted_pair (as_id s) r, pn_reason = B_FAIL_CLOSED,
       pn_identity = None, pn_target = None, pn_candidate = Some (as_id s)\<rparr>)
         (filter (\<lambda>r. r \<noteq> as_id s) (map as_id subgraphs)))
     (filter fail_closed subgraphs))"

definition noted_pair :: "pair_note list \<Rightarrow> string \<times> string \<Rightarrow> blocking_error + candidate_pair" where
  "noted_pair notes key =
     (let mine = filter (\<lambda>n. pn_key n = key) notes
      in candidate_pair_post_init \<lparr>cp_left = fst key, cp_right = snd key, cp_reasons = map pn_reason mine,
           cp_shared = List.map_filter pn_identity mine, cp_unresolved = List.map_filter pn_target mine,
           cp_fail = List.map_filter pn_candidate mine\<rparr>)"

definition normalize_candidates :: "mutation_candidate list \<Rightarrow> blocking_error + mutation_candidate list" where
  "normalize_candidates cs =
     (if \<not> distinct (map mc_id cs) then Inl RepeatedCandidate else Inr (sort_key mc_id cs))"

definition plan_metadata :: metadata where
  "plan_metadata =
     [(''algorithm'', JStr ''inverted-affected-subgraph-index-v1''), (''graph_index_builds'', JInt 1),
      (''pairwise_graph_walks'', JInt 0),
      (''fail_closed_policy'', JStr ''missing-root-or-unknown-change-or-unresolved-boundary-or-bounded-traversal'')]"

definition build_blocking ::
  "(json \<Rightarrow> string) \<Rightarrow> (string \<Rightarrow> string) \<Rightarrow> sem_graph \<Rightarrow> mutation_candidate list \<Rightarrow> int option
   \<Rightarrow> blocking_error + blocking_plan" where
  "build_blocking sha sha_text g candidates max_depth =
     (if negative_depth max_depth then Inl NegativeBlockingDepth
      else
        res_bind (normalize_candidates candidates) (\<lambda>cs.
        let ix = index_graph sha sha_text g
        in res_bind (res_map (\<lambda>c. affected_subgraph_of ix c max_depth) cs) (\<lambda>subgraphs.
           let notes = filter (\<lambda>n. fst (pn_key n) \<noteq> snd (pn_key n))
                 (overlap_notes subgraphs @ unresolved_notes subgraphs @ closed_notes subgraphs)
           in res_bind (res_map (noted_pair notes) (sorted_set (map pn_key notes))) (\<lambda>pairs.
              blocking_plan_post_init
                \<lparr>bl_graph = gi_graph ix, bl_subgraphs = subgraphs, bl_pairs = pairs, bl_depth = max_depth,
                 bl_metadata = plan_metadata\<rparr>))))"

end
