(* ===== verification/SemConflict.thy ===== *)
theory SemConflict
  imports Impact
begin

text \<open>
  The semantic conflict taxonomy (\<open>core/conflict.py\<close>): two mutation sets are independent,
  commutative, ordered, conflicting or unknown, by the impact of each on the roots of the other.
\<close>


section \<open>Kinds, orders, evidence\<close>

datatype conflict_kind = CK_INDEPENDENT | CK_COMMUTATIVE | CK_ORDERED | CK_CONFLICTING | CK_UNKNOWN

datatype execution_order = LEFT_BEFORE_RIGHT | RIGHT_BEFORE_LEFT

datatype conflict_reason =
    DIRECT_RESOURCE_OVERLAP | SEMANTIC_DEPENDENCY | STABLE_CONTRACT_DEPENDENCY | MUTUAL_DEPENDENCY
  | EXPLICIT_COMMUTATIVITY | UNKNOWN_CHANGE | MISSING_GRAPH_ROOT | BOUNDED_IMPACT | UNRESOLVED_DEPENDENCY
  | DISJOINT_SEMANTIC_SURFACE

fun conflict_value :: "conflict_kind \<Rightarrow> string" where
  "conflict_value CK_INDEPENDENT = ''independent''"
| "conflict_value CK_COMMUTATIVE = ''commutative''"
| "conflict_value CK_ORDERED = ''ordered''"
| "conflict_value CK_CONFLICTING = ''conflicting''"
| "conflict_value CK_UNKNOWN = ''unknown''"

fun order_value :: "execution_order \<Rightarrow> string" where
  "order_value LEFT_BEFORE_RIGHT = ''left_before_right''"
| "order_value RIGHT_BEFORE_LEFT = ''right_before_left''"

fun conflict_reason_value :: "conflict_reason \<Rightarrow> string" where
  "conflict_reason_value DIRECT_RESOURCE_OVERLAP = ''direct_resource_overlap''"
| "conflict_reason_value SEMANTIC_DEPENDENCY = ''semantic_dependency''"
| "conflict_reason_value STABLE_CONTRACT_DEPENDENCY = ''stable_contract_dependency''"
| "conflict_reason_value MUTUAL_DEPENDENCY = ''mutual_dependency''"
| "conflict_reason_value EXPLICIT_COMMUTATIVITY = ''explicit_commutativity''"
| "conflict_reason_value UNKNOWN_CHANGE = ''unknown_change''"
| "conflict_reason_value MISSING_GRAPH_ROOT = ''missing_graph_root''"
| "conflict_reason_value BOUNDED_IMPACT = ''bounded_impact''"
| "conflict_reason_value UNRESOLVED_DEPENDENCY = ''unresolved_dependency''"
| "conflict_reason_value DISJOINT_SEMANTIC_SURFACE = ''disjoint_semantic_surface''"

datatype conflict_error =
    ConflictImpact impact_error
  | EmptyProof
  | ConflictingProofs "string \<times> string"
  | EmptyChanges
  | RepeatedChanges
  | NegativeConflictDepth
  | BadConflictDigest string
  | BadSides
  | MissingOrder
  | StrayOrder
  | NoEvidence

definition lift_conflict :: "impact_error + 'a \<Rightarrow> conflict_error + 'a" where
  "lift_conflict r = (case r of Inl e \<Rightarrow> Inl (ConflictImpact e) | Inr a \<Rightarrow> Inr a)"

definition pair_key :: "string \<Rightarrow> string \<Rightarrow> string \<times> string" where
  "pair_key l r = (if l \<le> r then (l, r) else (r, l))"

record commutativity_proof =
  pf_left :: string
  pf_right :: string
  pf_basis :: string
  pf_metadata :: metadata

definition proof_post_init :: "commutativity_proof \<Rightarrow> conflict_error + commutativity_proof" where
  "proof_post_init p =
     (let l = strip (pf_left p); r = strip (pf_right p); b = strip (pf_basis p)
      in if l = [] \<or> r = [] \<or> b = [] then Inl EmptyProof
         else Inr (p\<lparr>pf_left := l, pf_right := r, pf_basis := b\<rparr>))"

definition proof_key :: "commutativity_proof \<Rightarrow> string \<times> string" where
  "proof_key p = pair_key (pf_left p) (pf_right p)"

definition proof_dict :: "commutativity_proof \<Rightarrow> json" where
  "proof_dict p = JObj [(''left_identity'', JStr (pf_left p)), (''right_identity'', JStr (pf_right p)),
     (''basis'', JStr (pf_basis p)), (''metadata'', JObj (pf_metadata p))]"

fun normalize_proofs ::
  "((string \<times> string) \<times> commutativity_proof) list \<Rightarrow> commutativity_proof list
   \<Rightarrow> conflict_error + ((string \<times> string) \<times> commutativity_proof) list" where
  "normalize_proofs found [] = Inr found"
| "normalize_proofs found (p # ps) =
     (if (case map_of found (proof_key p) of None \<Rightarrow> False
          | Some old \<Rightarrow> eq_form (proof_dict old) \<noteq> eq_form (proof_dict p))
      then Inl (ConflictingProofs (proof_key p))
      else normalize_proofs (AList.update (proof_key p) p found) ps)"

record conflict_evidence =
  ce_reason :: conflict_reason
  ce_left :: "string option"
  ce_right :: "string option"
  ce_order :: "execution_order option"
  ce_path :: "string list"
  ce_relations :: "dep_relation list"
  ce_target :: "string option"
  ce_detail :: string
  ce_metadata :: metadata

definition evidence_on :: "conflict_reason \<Rightarrow> string \<Rightarrow> string \<Rightarrow> string \<Rightarrow> metadata \<Rightarrow> conflict_evidence" where
  "evidence_on reason l r detail meta = \<lparr>ce_reason = reason, ce_left = Some l, ce_right = Some r, ce_order = None,
     ce_path = [], ce_relations = [], ce_target = None, ce_detail = detail, ce_metadata = meta\<rparr>"

definition overall_evidence :: "conflict_reason \<Rightarrow> string \<Rightarrow> metadata \<Rightarrow> conflict_evidence" where
  "overall_evidence reason detail meta = \<lparr>ce_reason = reason, ce_left = None, ce_right = None, ce_order = None,
     ce_path = [], ce_relations = [], ce_target = None, ce_detail = detail, ce_metadata = meta\<rparr>"

definition path_evidence ::
  "conflict_reason \<Rightarrow> string \<Rightarrow> string \<Rightarrow> execution_order option \<Rightarrow> impact_path \<Rightarrow> string \<Rightarrow> conflict_evidence" where
  "path_evidence reason l r order p detail = \<lparr>ce_reason = reason, ce_left = Some l, ce_right = Some r, ce_order = order,
     ce_path = ip_identities p, ce_relations = ip_relations p, ce_target = None, ce_detail = detail, ce_metadata = []\<rparr>"

definition opt_order :: "execution_order option \<Rightarrow> string" where
  "opt_order v = (case v of None \<Rightarrow> [] | Some x \<Rightarrow> order_value x)"

definition evidence_order ::
  "conflict_evidence \<Rightarrow> string \<times> string \<times> string \<times> string \<times> string \<times> string list \<times> string list \<times> string" where
  "evidence_order e = (conflict_reason_value (ce_reason e), str_or (ce_left e) [], str_or (ce_right e) [], opt_order (ce_order e),
     str_or (ce_target e) [], ce_path e, map relation_value (ce_relations e), ce_detail e)"

definition order_json :: "execution_order option \<Rightarrow> json" where
  "order_json v = (case v of None \<Rightarrow> JNull | Some x \<Rightarrow> JStr (order_value x))"

definition conflict_evidence_dict :: "conflict_evidence \<Rightarrow> json" where
  "conflict_evidence_dict e = JObj
     [(''reason'', JStr (conflict_reason_value (ce_reason e))), (''left_identity'', jopt (ce_left e)),
      (''right_identity'', jopt (ce_right e)), (''order'', order_json (ce_order e)), (''path'', jstrs (ce_path e)),
      (''relations'', jstrs (map relation_value (ce_relations e))), (''boundary_target'', jopt (ce_target e)),
      (''detail'', JStr (ce_detail e)), (''metadata'', JObj (ce_metadata e))]"


section \<open>Decisions\<close>

record conflict_decision =
  cd_graph :: string
  cd_left :: string
  cd_right :: string
  cd_kind :: conflict_kind
  cd_order :: "execution_order option"
  cd_left_changes :: "string list"
  cd_right_changes :: "string list"
  cd_left_impact :: string
  cd_right_impact :: string
  cd_evidence :: "conflict_evidence list"
  cd_metadata :: metadata

definition sha_text_ok :: "string \<Rightarrow> bool" where
  "sha_text_ok s \<longleftrightarrow> length s = 64 \<and> list_all is_hex_lower s"

definition conflict_post_init :: "conflict_decision \<Rightarrow> conflict_error + conflict_decision" where
  "conflict_post_init d =
     (let l = strip (cd_left d); r = strip (cd_right d);
          lc = sorted_set (cd_left_changes d); rc = sorted_set (cd_right_changes d)
      in if \<not> sha_text_ok (cd_graph d) then Inl (BadConflictDigest ''graph_fingerprint'')
         else if \<not> sha_text_ok (cd_left_impact d) then Inl (BadConflictDigest ''left_impact_fingerprint'')
         else if \<not> sha_text_ok (cd_right_impact d) then Inl (BadConflictDigest ''right_impact_fingerprint'')
         else if l = [] \<or> r = [] \<or> l = r then Inl BadSides
         else if cd_kind d = CK_ORDERED \<and> cd_order d = None then Inl MissingOrder
         else if cd_kind d \<noteq> CK_ORDERED \<and> cd_order d \<noteq> None then Inl StrayOrder
         else if lc = [] \<or> rc = [] then Inl EmptyChanges
         else if cd_evidence d = [] then Inl NoEvidence
         else Inr (d\<lparr>cd_left := l, cd_right := r, cd_left_changes := lc, cd_right_changes := rc,
                    cd_evidence := sort_key evidence_order (cd_evidence d)\<rparr>))"

definition parallel_safe :: "conflict_decision \<Rightarrow> bool" where
  "parallel_safe d \<longleftrightarrow> cd_kind d \<in> {CK_INDEPENDENT, CK_COMMUTATIVE}"

definition requires_ordering :: "conflict_decision \<Rightarrow> bool" where
  "requires_ordering d \<longleftrightarrow> cd_kind d = CK_ORDERED"

definition conflict_fail_closed :: "conflict_decision \<Rightarrow> bool" where
  "conflict_fail_closed d \<longleftrightarrow> cd_kind d \<in> {CK_CONFLICTING, CK_UNKNOWN}"

definition conflict_fields :: "conflict_decision \<Rightarrow> metadata" where
  "conflict_fields d =
     [(''protocol'', JStr ''claim-plane.semantic-conflict-taxonomy.v2''), (''graph_fingerprint'', JStr (cd_graph d)),
      (''left_id'', JStr (cd_left d)), (''right_id'', JStr (cd_right d)), (''kind'', JStr (conflict_value (cd_kind d))),
      (''order'', order_json (cd_order d)), (''left_changes'', jstrs (cd_left_changes d)),
      (''right_changes'', jstrs (cd_right_changes d)), (''left_impact_fingerprint'', JStr (cd_left_impact d)),
      (''right_impact_fingerprint'', JStr (cd_right_impact d)), (''parallel_safe'', JBool (parallel_safe d)),
      (''requires_ordering'', JBool (requires_ordering d)), (''fail_closed'', JBool (conflict_fail_closed d)),
      (''evidence'', JList (map conflict_evidence_dict (cd_evidence d))), (''metadata'', JObj (cd_metadata d))]"

definition conflict_fingerprint :: "(json \<Rightarrow> string) \<Rightarrow> conflict_decision \<Rightarrow> string" where
  "conflict_fingerprint sha d = sha (canon (JObj (conflict_fields d)))"


section \<open>Classification\<close>

definition normalize_changes :: "sem_change list \<Rightarrow> conflict_error + sem_change list" where
  "normalize_changes cs =
     (if cs = [] then Inl EmptyChanges
      else if \<not> distinct (map sc_identity cs) then Inl RepeatedChanges
      else Inr (sort_key sc_identity cs))"

definition safe_impact ::
  "(json \<Rightarrow> string) \<Rightarrow> (string \<Rightarrow> string) \<Rightarrow> sem_graph \<Rightarrow> sem_change list \<Rightarrow> int option \<Rightarrow> impact_error + impact_report" where
  "safe_impact sha sha_text g changes max_depth =
     (let incomplete = map sc_identity (filter (\<lambda>c. node_of g (sc_identity c) = None \<and> change_resource c = None) changes)
      in if incomplete \<noteq> [] then report_post_init
           \<lparr>im_graph = graph_fingerprint_of sha sha_text g, im_changes = changes, im_impacted = [], im_boundaries = [],
            im_metadata = [(''direction'', JStr ''reverse_dependency''), (''max_depth'', depth_json max_depth),
              (''incomplete_roots'', jstrs incomplete)],
            im_protocol = impact_protocol\<rparr>
         else analyze_semantic_impact sha sha_text g changes max_depth)"

definition path_rank :: "impact_path \<Rightarrow> nat \<times> string list \<times> string list" where
  "path_rank p = (ip_distance p, ip_identities p, map relation_value (ip_relations p))"

text \<open>\<open>min(candidates, key=...)\<close>: the first of the smallest.\<close>

definition impact_path_between :: "impact_report \<Rightarrow> string \<Rightarrow> string \<Rightarrow> impact_path option" where
  "impact_path_between r root target = (case impacted_of r target of
       None \<Rightarrow> None
     | Some m \<Rightarrow> (case filter (\<lambda>p. ip_root p = root) (im_paths m) of
         [] \<Rightarrow> None
       | p # ps \<Rightarrow> Some (fold (\<lambda>q best. if path_rank q < path_rank best then q else best) ps p)))"

definition unresolved_targets :: "impact_report \<Rightarrow> string \<Rightarrow> string list" where
  "unresolved_targets r root = map bd_target (filter (\<lambda>b. bd_resolution b = D_UNRESOLVED \<and> root \<in> set (bd_roots b)) (im_boundaries r))"

definition dependency_requires_order :: "sem_change \<Rightarrow> bool" where
  "dependency_requires_order c \<longleftrightarrow> sc_kind c \<in> {CH_CONTRACT, CH_STATE, CH_STRUCTURE, CH_ADDED, CH_REMOVED}"

record pair_verdict =
  pv_kind :: conflict_kind
  pv_order :: "execution_order option"
  pv_evidence :: "conflict_evidence list"

definition proof_metadata :: "commutativity_proof \<Rightarrow> metadata" where
  "proof_metadata p = dict_merge [(''basis'', JStr (pf_basis p))] (pf_metadata p)"

definition same_resource_verdict :: "commutativity_proof option \<Rightarrow> string \<Rightarrow> pair_verdict" where
  "same_resource_verdict pf i = (case pf of
       Some p \<Rightarrow> \<lparr>pv_kind = CK_COMMUTATIVE, pv_order = None, pv_evidence = [evidence_on EXPLICIT_COMMUTATIVITY i i
         ''same semantic resource is covered by explicit deterministic commutativity evidence'' (proof_metadata p)]\<rparr>
     | None \<Rightarrow> \<lparr>pv_kind = CK_CONFLICTING, pv_order = None, pv_evidence = [evidence_on DIRECT_RESOURCE_OVERLAP i i
         ''both mutation sets change the same semantic resource'' []]\<rparr>)"

text \<open>The verdict on a pair of which at least one side has a path into the other.\<close>

definition coupled_verdict ::
  "commutativity_proof option \<Rightarrow> bool \<Rightarrow> sem_change \<Rightarrow> sem_change \<Rightarrow> impact_path option \<Rightarrow> impact_path option \<Rightarrow> pair_verdict" where
  "coupled_verdict pf sensitive l r there back =
     (let li = sc_identity l; ri = sc_identity r;
          left_order = (there \<noteq> None \<and> (\<not> sensitive \<or> dependency_requires_order l));
          right_order = (back \<noteq> None \<and> (\<not> sensitive \<or> dependency_requires_order r));
          on_path = (\<lambda>reason order detail p. case p of None \<Rightarrow> [] | Some q \<Rightarrow> [path_evidence reason li ri order q detail])
      in case pf of
          Some p \<Rightarrow> \<lparr>pv_kind = CK_COMMUTATIVE, pv_order = None, pv_evidence = [evidence_on EXPLICIT_COMMUTATIVITY li ri
            ''semantic coupling is covered by explicit deterministic commutativity evidence'' (proof_metadata p)]\<rparr>
        | None \<Rightarrow>
            if left_order \<and> right_order then \<lparr>pv_kind = CK_CONFLICTING, pv_order = None, pv_evidence =
              on_path MUTUAL_DEPENDENCY None ''left mutation changes an order-sensitive semantic premise of the right mutation while the reverse dependency is also order-sensitive'' there
              @ on_path MUTUAL_DEPENDENCY None ''reverse order-sensitive semantic impact closes a mutation dependency cycle'' back\<rparr>
            else if left_order then \<lparr>pv_kind = CK_ORDERED, pv_order = Some LEFT_BEFORE_RIGHT, pv_evidence =
              on_path SEMANTIC_DEPENDENCY (Some LEFT_BEFORE_RIGHT) ''the left mutation changes an order-sensitive semantic premise consumed by the right mutation root'' there\<rparr>
            else if right_order then \<lparr>pv_kind = CK_ORDERED, pv_order = Some RIGHT_BEFORE_LEFT, pv_evidence =
              on_path SEMANTIC_DEPENDENCY (Some RIGHT_BEFORE_LEFT) ''the right mutation changes an order-sensitive semantic premise consumed by the left mutation root'' back\<rparr>
            else \<lparr>pv_kind = CK_INDEPENDENT, pv_order = None, pv_evidence = concat (map
              (on_path STABLE_CONTRACT_DEPENDENCY None ''an existing semantic dependency connects the mutation roots, but the producer-side change is implementation-only and preserves the dependency contract'')
              [there, back])\<rparr>)"

definition ambiguous_targets :: "string \<Rightarrow> string \<Rightarrow> string list \<Rightarrow> string list \<Rightarrow> string list" where
  "ambiguous_targets li ri lu ru = sorted_set
     (filter (\<lambda>t. t \<in> set ru \<or> t = ri) lu @ filter (\<lambda>t. t = li) ru)"

definition uncoupled_verdict :: "int option \<Rightarrow> string \<Rightarrow> string \<Rightarrow> string list \<Rightarrow> string list \<Rightarrow> pair_verdict" where
  "uncoupled_verdict max_depth li ri lu ru =
     (let targets = ambiguous_targets li ri lu ru
      in if targets \<noteq> [] then \<lparr>pv_kind = CK_UNKNOWN, pv_order = None, pv_evidence = map (\<lambda>t.
             (evidence_on UNRESOLVED_DEPENDENCY li ri ''unresolved dependency evidence prevents proof of semantic independence'' [])
             \<lparr>ce_target := Some t\<rparr>) targets\<rparr>
         else if max_depth \<noteq> None then \<lparr>pv_kind = CK_UNKNOWN, pv_order = None, pv_evidence = [evidence_on BOUNDED_IMPACT li ri
             ''bounded impact traversal cannot prove semantic independence when no coupling was found within the configured depth''
             [(''max_depth'', depth_json max_depth)]]\<rparr>
         else \<lparr>pv_kind = CK_INDEPENDENT, pv_order = None, pv_evidence = []\<rparr>)"

definition classify_pair ::
  "sem_graph \<Rightarrow> impact_report \<Rightarrow> impact_report \<Rightarrow> ((string \<times> string) \<times> commutativity_proof) list \<Rightarrow> int option \<Rightarrow> bool
   \<Rightarrow> sem_change \<Rightarrow> sem_change \<Rightarrow> pair_verdict" where
  "classify_pair g li ri proofs max_depth sensitive l r =
     (let pf = map_of proofs (pair_key (sc_identity l) (sc_identity r));
          missing = filter (\<lambda>i. node_of g i = None) [sc_identity l, sc_identity r];
          there = impact_path_between li (sc_identity l) (sc_identity r);
          back = impact_path_between ri (sc_identity r) (sc_identity l)
      in if sc_identity l = sc_identity r then same_resource_verdict pf (sc_identity l)
         else if missing \<noteq> [] then \<lparr>pv_kind = CK_UNKNOWN, pv_order = None,
           pv_evidence = [evidence_on MISSING_GRAPH_ROOT (sc_identity l) (sc_identity r)
             ''one or more mutation roots are absent from the graph snapshot'' [(''missing'', jstrs missing)]]\<rparr>
         else if sc_kind l = CH_UNKNOWN \<or> sc_kind r = CH_UNKNOWN then \<lparr>pv_kind = CK_UNKNOWN, pv_order = None,
           pv_evidence = [evidence_on UNKNOWN_CHANGE (sc_identity l) (sc_identity r)
             ''change semantics are explicitly unknown'' []]\<rparr>
         else if there \<noteq> None \<or> back \<noteq> None then coupled_verdict pf sensitive l r there back
         else uncoupled_verdict max_depth (sc_identity l) (sc_identity r) (unresolved_targets li (sc_identity l))
                (unresolved_targets ri (sc_identity r)))"

definition pair_verdicts ::
  "sem_graph \<Rightarrow> impact_report \<Rightarrow> impact_report \<Rightarrow> ((string \<times> string) \<times> commutativity_proof) list \<Rightarrow> int option \<Rightarrow> bool
   \<Rightarrow> sem_change list \<Rightarrow> sem_change list \<Rightarrow> pair_verdict list" where
  "pair_verdicts g li ri proofs max_depth sensitive left right =
     concat (map (\<lambda>l. map (classify_pair g li ri proofs max_depth sensitive l) right) left)"

text \<open>The overall kind: the most severe of the pairs, and conflicting when they need opposite orders.\<close>

definition overall_kind :: "pair_verdict list \<Rightarrow> conflict_kind" where
  "overall_kind vs =
     (let kinds = map pv_kind vs; orders = remdups (List.map_filter pv_order vs)
      in if CK_CONFLICTING \<in> set kinds \<or> 1 < length orders then CK_CONFLICTING
         else if CK_UNKNOWN \<in> set kinds then CK_UNKNOWN
         else if CK_ORDERED \<in> set kinds then CK_ORDERED
         else if CK_COMMUTATIVE \<in> set kinds then CK_COMMUTATIVE
         else CK_INDEPENDENT)"

definition overall_order :: "pair_verdict list \<Rightarrow> execution_order option" where
  "overall_order vs = (if overall_kind vs \<noteq> CK_ORDERED then None
     else case List.map_filter pv_order vs of [] \<Rightarrow> None | x # _ \<Rightarrow> Some x)"

definition extra_evidence :: "sem_change list \<Rightarrow> sem_change list \<Rightarrow> pair_verdict list \<Rightarrow> conflict_evidence list" where
  "extra_evidence left right vs =
     (let evidence = concat (map pv_evidence vs); orders = remdups (List.map_filter pv_order vs)
      in if CK_CONFLICTING \<in> set (map pv_kind vs) then []
         else if 1 < length orders then [overall_evidence MUTUAL_DEPENDENCY
           ''different semantic change pairs require opposite execution orders'' [(''orders'', jstrs (sort (map order_value orders)))]]
         else if overall_kind vs = CK_INDEPENDENT \<and> \<not> list_ex (\<lambda>e. ce_reason e = STABLE_CONTRACT_DEPENDENCY) evidence
         then [overall_evidence DISJOINT_SEMANTIC_SURFACE ''mutation roots have no direct overlap, ordering-sensitive dependency path, or shared unresolved boundary in the current graph snapshot''
           [(''left_roots'', jstrs (map sc_identity left)), (''right_roots'', jstrs (map sc_identity right))]]
         else [])"

definition conflict_metadata :: "int option \<Rightarrow> bool \<Rightarrow> nat \<Rightarrow> metadata" where
  "conflict_metadata max_depth sensitive n =
     [(''max_depth'', depth_json max_depth), (''mutation_sensitive_ordering'', JBool sensitive),
      (''commutativity_proof_count'', JInt (int n)),
      (''classification_order'', jstrs [''conflicting'', ''unknown'', ''ordered'', ''commutative'', ''independent''])]"

definition classify_semantic_conflict ::
  "(json \<Rightarrow> string) \<Rightarrow> (string \<Rightarrow> string) \<Rightarrow> sem_graph \<Rightarrow> sem_change list \<Rightarrow> sem_change list \<Rightarrow> string \<Rightarrow> string
   \<Rightarrow> commutativity_proof list \<Rightarrow> int option \<Rightarrow> bool \<Rightarrow> conflict_error + conflict_decision" where
  "classify_semantic_conflict sha sha_text g left_changes right_changes left_id right_id proofs max_depth sensitive =
     (if (case max_depth of None \<Rightarrow> False | Some m \<Rightarrow> m < 0) then Inl NegativeConflictDepth
      else
        res_bind (normalize_changes left_changes) (\<lambda>left.
        res_bind (normalize_changes right_changes) (\<lambda>right.
        res_bind (normalize_proofs [] proofs) (\<lambda>known.
        res_bind (lift_conflict (safe_impact sha sha_text g left max_depth)) (\<lambda>li.
        res_bind (lift_conflict (safe_impact sha sha_text g right max_depth)) (\<lambda>ri.
        let vs = pair_verdicts g li ri known max_depth sensitive left right
        in conflict_post_init
            \<lparr>cd_graph = graph_fingerprint_of sha sha_text g, cd_left = left_id, cd_right = right_id,
             cd_kind = overall_kind vs, cd_order = overall_order vs, cd_left_changes = map sc_identity left,
             cd_right_changes = map sc_identity right, cd_left_impact = impact_fingerprint sha sha_text li,
             cd_right_impact = impact_fingerprint sha sha_text ri,
             cd_evidence = concat (map pv_evidence vs) @ extra_evidence left right vs,
             cd_metadata = conflict_metadata max_depth sensitive (length known)\<rparr>))))))"

end
