(* ===== verification/ConflictLaws.thy ===== *)
theory ConflictLaws
  imports SemConflict
begin

text \<open>
  The laws of the conflict taxonomy: every decision rests on evidence, and exchanging the two sides
  keeps the kind and mirrors the order.
\<close>


section \<open>Verdicts without evidence\<close>

definition free_verdict :: pair_verdict where
  "free_verdict = \<lparr>pv_kind = CK_INDEPENDENT, pv_order = None, pv_evidence = []\<rparr>"

lemma free_verdicts:
  assumes "\<forall>v \<in> set vs. v = free_verdict"
  shows "overall_kind vs = CK_INDEPENDENT" "overall_order vs = None" "concat (map pv_evidence vs) = []"
    "extra_evidence left right vs \<noteq> []"
proof -
  have kinds: "set (map pv_kind vs) \<subseteq> {CK_INDEPENDENT}" and orders: "List.map_filter pv_order vs = []"
    using assms by (auto simp: free_verdict_def List.map_filter_def filter_empty_conv)
  show kind: "overall_kind vs = CK_INDEPENDENT" using kinds orders by (auto simp: overall_kind_def Let_def)
  then show "overall_order vs = None" by (simp add: overall_order_def)
  show none: "concat (map pv_evidence vs) = []" using assms by (auto simp: free_verdict_def)
  show "extra_evidence left right vs \<noteq> []"
    using kinds kind orders by (auto simp: extra_evidence_def Let_def none simp del: concat_eq_Nil_conv)
qed

lemma same_resource_evidence: "pv_evidence (same_resource_verdict pf i) \<noteq> []"
  by (simp add: same_resource_verdict_def split: option.splits)

lemma coupled_evidence:
  assumes "there \<noteq> None \<or> return \<noteq> None"
  shows "pv_evidence (coupled_verdict pf sensitive l r there return) \<noteq> []"
proof (cases pf)
  case None
  then show ?thesis using assms by (cases there; cases return; simp add: coupled_verdict_def Let_def)
qed (simp add: coupled_verdict_def Let_def)

lemma uncoupled_evidence: "pv_evidence (uncoupled_verdict md li ri lu ru) = [] \<Longrightarrow> uncoupled_verdict md li ri lu ru = free_verdict"
  by (simp add: uncoupled_verdict_def free_verdict_def Let_def split: if_splits)

lemma verdict_evidence:
  assumes "pv_evidence (classify_pair g li ri proofs md sensitive l r) = []"
  shows "classify_pair g li ri proofs md sensitive l r = free_verdict"
  using assms uncoupled_evidence
  by (simp add: classify_pair_def Let_def same_resource_evidence coupled_evidence del: filter.simps split: if_splits)

lemma decision_evidence:
  assumes "\<forall>v \<in> set vs. pv_evidence v = [] \<longrightarrow> v = free_verdict"
  shows "concat (map pv_evidence vs) @ extra_evidence left right vs \<noteq> []"
proof (cases "concat (map pv_evidence vs) = []")
  case True
  with assms have "\<forall>v \<in> set vs. v = free_verdict" by auto
  then show ?thesis using free_verdicts(4) by blast
qed simp


section \<open>The mirror image\<close>

fun mirror :: "execution_order \<Rightarrow> execution_order" where
  "mirror LEFT_BEFORE_RIGHT = RIGHT_BEFORE_LEFT"
| "mirror RIGHT_BEFORE_LEFT = LEFT_BEFORE_RIGHT"

lemma mirror_mirror [simp]: "mirror (mirror x) = x"
  by (cases x) simp_all

lemma inj_mirror: "inj mirror"
  by (rule inj_on_inverseI [of _ mirror]) simp

definition mirrors :: "pair_verdict \<Rightarrow> pair_verdict \<Rightarrow> bool" where
  "mirrors v w \<longleftrightarrow> pv_kind w = pv_kind v \<and> pv_order w = map_option mirror (pv_order v)"

lemma pair_key_swap: "pair_key l r = pair_key r l"
  by (auto simp: pair_key_def)

lemma ambiguous_swap: "ambiguous_targets li ri lu ru = ambiguous_targets ri li ru lu"
  unfolding ambiguous_targets_def by (rule sorted_set_cong) auto

lemma coupled_mirrors: "mirrors (coupled_verdict pf sensitive l r there return) (coupled_verdict pf sensitive r l return there)"
  by (cases pf; cases there; cases return; simp add: mirrors_def coupled_verdict_def Let_def)

lemma uncoupled_mirrors: "mirrors (uncoupled_verdict md li ri lu ru) (uncoupled_verdict md ri li ru lu)"
  by (simp add: mirrors_def uncoupled_verdict_def Let_def ambiguous_swap [of ri li ru lu])

lemma classify_mirrors:
  "mirrors (classify_pair g li ri proofs md sensitive l r) (classify_pair g ri li proofs md sensitive r l)"
proof (cases "sc_identity l = sc_identity r")
  case True
  then show ?thesis
    by (auto simp: classify_pair_def mirrors_def same_resource_verdict_def Let_def split: option.splits)
next
  case False
  let ?missing = "node_of g (sc_identity l) = None \<or> node_of g (sc_identity r) = None"
  let ?unknown = "sc_kind l = CH_UNKNOWN \<or> sc_kind r = CH_UNKNOWN"
  let ?there = "impact_path_between li (sc_identity l) (sc_identity r)"
  let ?return = "impact_path_between ri (sc_identity r) (sc_identity l)"
  have swap: "pair_key (sc_identity r) (sc_identity l) = pair_key (sc_identity l) (sc_identity r)" by (rule pair_key_swap)
  consider ?missing | "\<not> ?missing" ?unknown | "\<not> ?missing" "\<not> ?unknown" "?there \<noteq> None \<or> ?return \<noteq> None"
    | "\<not> ?missing" "\<not> ?unknown" "?there = None" "?return = None" by argo
  then show ?thesis
  proof cases
    case 1
    then show ?thesis using False by (auto simp: classify_pair_def mirrors_def Let_def)
  next
    case 2
    then show ?thesis using False by (auto simp: classify_pair_def mirrors_def Let_def)
  next
    case 3
    then show ?thesis using False coupled_mirrors by (auto simp: classify_pair_def swap Let_def)
  next
    case 4
    then show ?thesis using False uncoupled_mirrors by (auto simp: classify_pair_def Let_def)
  qed
qed

text \<open>The kind and the order of a decision depend on sets of verdicts only.\<close>

definition orders_of :: "pair_verdict list \<Rightarrow> execution_order set" where
  "orders_of vs = {x. \<exists>v \<in> set vs. pv_order v = Some x}"

lemma orders_of_set: "set (List.map_filter pv_order vs) = orders_of vs"
  by (force simp: orders_of_def List.map_filter_def)

lemma overall_kind_sets:
  "overall_kind vs = (if CK_CONFLICTING \<in> pv_kind ` set vs \<or> 1 < card (orders_of vs) then CK_CONFLICTING
     else if CK_UNKNOWN \<in> pv_kind ` set vs then CK_UNKNOWN else if CK_ORDERED \<in> pv_kind ` set vs then CK_ORDERED
     else if CK_COMMUTATIVE \<in> pv_kind ` set vs then CK_COMMUTATIVE else CK_INDEPENDENT)"
  by (simp add: overall_kind_def Let_def length_remdups_card_conv orders_of_set)

lemma finite_orders [simp]: "finite (orders_of vs)"
  by (metis List.finite_set orders_of_set)

lemma overall_order_cases:
  assumes "overall_kind vs = CK_ORDERED"
  shows "overall_order vs = None \<and> orders_of vs = {} \<or> (\<exists>x. overall_order vs = Some x \<and> orders_of vs = {x})"
proof (cases "List.map_filter pv_order vs")
  case Nil
  then have "orders_of vs = {}" by (metis list.set(1) orders_of_set)
  with Nil show ?thesis by (simp add: overall_order_def assms)
next
  case (Cons x xs)
  have "card (orders_of vs) \<le> 1" using assms by (auto simp: overall_kind_sets split: if_splits)
  moreover have "x \<in> orders_of vs" by (metis Cons list.set_intros(1) orders_of_set)
  ultimately have "orders_of vs = {x}" by (metis card_le_Suc0_iff_eq finite_orders One_nat_def is_singletonI' is_singleton_the_elem singletonD empty_iff)
  with Cons show ?thesis by (simp add: overall_order_def assms)
qed

definition mirrored :: "pair_verdict list \<Rightarrow> pair_verdict list \<Rightarrow> bool" where
  "mirrored vs ws \<longleftrightarrow> (\<forall>v \<in> set vs. \<exists>w \<in> set ws. mirrors v w) \<and> (\<forall>w \<in> set ws. \<exists>v \<in> set vs. mirrors v w)"

lemma mirrored_overall:
  assumes "mirrored vs ws"
  shows "overall_kind ws = overall_kind vs" "overall_order ws = map_option mirror (overall_order vs)"
proof -
  have kinds: "pv_kind ` set ws = pv_kind ` set vs"
    using assms unfolding mirrored_def mirrors_def by (metis (mono_tags, opaque_lifting) image_iff subsetI subset_antisym)
  have orders: "orders_of ws = mirror ` orders_of vs"
  proof (intro set_eqI iffI)
    fix x assume "x \<in> orders_of ws"
    then obtain w v where "w \<in> set ws" "pv_order w = Some x" "v \<in> set vs" "mirrors v w"
      using assms unfolding orders_of_def mirrored_def by blast
    then show "x \<in> mirror ` orders_of vs" by (cases "pv_order v") (auto simp: mirrors_def orders_of_def)
  next
    fix x assume "x \<in> mirror ` orders_of vs"
    then obtain y v w where "v \<in> set vs" "pv_order v = Some y" "x = mirror y" "w \<in> set ws" "mirrors v w"
      using assms unfolding orders_of_def mirrored_def by blast
    then show "x \<in> orders_of ws" by (auto simp: mirrors_def orders_of_def)
  qed
  have "card (orders_of ws) = card (orders_of vs)"
    unfolding orders using inj_mirror by (simp add: card_image inj_on_subset)
  then show kind: "overall_kind ws = overall_kind vs" by (simp add: overall_kind_sets kinds)
  show "overall_order ws = map_option mirror (overall_order vs)"
  proof (cases "overall_kind vs = CK_ORDERED")
    case True
    with kind have "overall_kind ws = CK_ORDERED" by simp
    from overall_order_cases [OF True] overall_order_cases [OF this] orders show ?thesis by auto
  next
    case False
    then show ?thesis by (simp add: overall_order_def kind)
  qed
qed

lemma pair_verdicts_mirrored:
  "mirrored (pair_verdicts g li ri proofs md sensitive left right) (pair_verdicts g ri li proofs md sensitive right left)"
  unfolding mirrored_def pair_verdicts_def using classify_mirrors by fastforce

text \<open>
  C24: Classifying two mutation sets in the other order gives a decision whenever the first order
  does, of the same kind, with the execution order mirrored and the sides exchanged.
\<close>

theorem classification_symmetric:
  assumes "classify_semantic_conflict sha sha_text g left_changes right_changes left_id right_id proofs md sensitive = Inr d"
  shows "\<exists>d'. classify_semantic_conflict sha sha_text g right_changes left_changes right_id left_id proofs md sensitive = Inr d'
    \<and> cd_kind d' = cd_kind d \<and> cd_order d' = map_option mirror (cd_order d)
    \<and> cd_left d' = cd_right d \<and> cd_right d' = cd_left d
    \<and> cd_left_changes d' = cd_right_changes d \<and> cd_right_changes d' = cd_left_changes d"
proof -
  from assms obtain left right known li ri where parts:
      "\<not> (case md of None \<Rightarrow> False | Some m \<Rightarrow> m < 0)" "normalize_changes left_changes = Inr left"
      "normalize_changes right_changes = Inr right" "normalize_proofs [] proofs = Inr known"
      "lift_conflict (safe_impact sha sha_text g left md) = Inr li" "lift_conflict (safe_impact sha sha_text g right md) = Inr ri"
    by (auto simp: classify_semantic_conflict_def res_bind_eq_Inr split: if_splits)
  let ?vs = "pair_verdicts g li ri known md sensitive left right" and ?ws = "pair_verdicts g ri li known md sensitive right left"
  note same = mirrored_overall [OF pair_verdicts_mirrored [of g li ri known md sensitive left right]]
  have given: "concat (map pv_evidence ?ws) @ extra_evidence right left ?ws \<noteq> []"
    by (rule decision_evidence) (auto simp: pair_verdicts_def intro: verdict_evidence)
  from assms parts have d: "conflict_post_init
      \<lparr>cd_graph = graph_fingerprint_of sha sha_text g, cd_left = left_id, cd_right = right_id,
       cd_kind = overall_kind ?vs, cd_order = overall_order ?vs, cd_left_changes = map sc_identity left,
       cd_right_changes = map sc_identity right, cd_left_impact = impact_fingerprint sha sha_text li,
       cd_right_impact = impact_fingerprint sha sha_text ri,
       cd_evidence = concat (map pv_evidence ?vs) @ extra_evidence left right ?vs,
       cd_metadata = conflict_metadata md sensitive (length known)\<rparr> = Inr d"
    by (simp add: classify_semantic_conflict_def Let_def)
  have swapped: "classify_semantic_conflict sha sha_text g right_changes left_changes right_id left_id proofs md sensitive = conflict_post_init
      \<lparr>cd_graph = graph_fingerprint_of sha sha_text g, cd_left = right_id, cd_right = left_id,
       cd_kind = overall_kind ?ws, cd_order = overall_order ?ws, cd_left_changes = map sc_identity right,
       cd_right_changes = map sc_identity left, cd_left_impact = impact_fingerprint sha sha_text ri,
       cd_right_impact = impact_fingerprint sha sha_text li,
       cd_evidence = concat (map pv_evidence ?ws) @ extra_evidence right left ?ws,
       cd_metadata = conflict_metadata md sensitive (length known)\<rparr>"
    using parts by (simp add: classify_semantic_conflict_def Let_def)
  show ?thesis
    unfolding swapped using d given unfolding same conflict_post_init_def by (auto simp: Let_def split: if_splits)
qed

end
