(* ===== verification/Worklist.thy ===== *)
theory Worklist
  imports Main "HOL-Library.While_Combinator"
begin

text \<open>
  The breadth-first loops of the program, \<open>while queue: current = queue.pop(0); ...\<close>: a step takes
  the head of the queue away and pushes items whose keys were not seen before, which it marks as
  seen. The interface says this of a step; the loop then ends, and what was pushed is exactly what
  was marked.
\<close>

locale worklist =
  fixes queue :: "'s \<Rightarrow> 'q list" and key :: "'q \<Rightarrow> 'k" and seen :: "'s \<Rightarrow> 'k set"
    and step :: "'s \<Rightarrow> 's" and universe :: "'k set" and sound :: "'s \<Rightarrow> bool"
  assumes finite_universe: "finite universe"
    and step_sound: "sound s \<Longrightarrow> queue s \<noteq> [] \<Longrightarrow> sound (step s)"
    and step_pushes: "sound s \<Longrightarrow> queue s \<noteq> [] \<Longrightarrow> \<exists>pushed. queue (step s) = tl (queue s) @ pushed
      \<and> seen (step s) = seen s \<union> key ` set pushed \<and> key ` set pushed \<subseteq> universe
      \<and> key ` set pushed \<inter> seen s = {} \<and> distinct (map key pushed)"
begin

definition left :: "'s \<Rightarrow> nat" where
  "left s = card (universe - seen s) + length (queue s)"

lemma left_decreases:
  assumes "sound s" and "queue s \<noteq> []"
  shows "left (step s) < left s"
proof -
  obtain pushed where p: "queue (step s) = tl (queue s) @ pushed" "seen (step s) = seen s \<union> key ` set pushed"
    "key ` set pushed \<subseteq> universe" "key ` set pushed \<inter> seen s = {}" "distinct (map key pushed)"
    using step_pushes [OF assms] by blast
  have "card (key ` set pushed) = length pushed"
    using p(5) distinct_card [of "map key pushed"] by simp
  moreover have "universe - seen s = (universe - seen (step s)) \<union> key ` set pushed" using p(2-4) by auto
  moreover have "card ((universe - seen (step s)) \<union> key ` set pushed) = card (universe - seen (step s)) + card (key ` set pushed)"
    using finite_universe p(2) by (intro card_Un_disjoint) auto
  ultimately show ?thesis using assms(2) p(1) by (cases "queue s") (simp_all add: left_def)
qed

lemma loop_ends:
  assumes "sound s"
  obtains t where "while_option (\<lambda>s. queue s \<noteq> []) step s = Some t" "sound t" "queue t = []"
proof -
  have "\<exists>t. while_option (\<lambda>s. queue s \<noteq> []) step s = Some t"
    by (rule measure_while_option_Some [where P = sound and f = left])
      (use assms step_sound left_decreases in auto)
  then obtain t where t: "while_option (\<lambda>s. queue s \<noteq> []) step s = Some t" by blast
  moreover have "sound t"
    by (rule while_option_rule [OF _ t, where P = sound]) (use assms step_sound in auto)
  moreover have "queue t = []" using while_option_stop [OF t] by simp
  ultimately show thesis by (rule that)
qed

text \<open>An invariant of the steps holds where the loop ends.\<close>

lemma loop_invariant:
  assumes "while_option (\<lambda>s. queue s \<noteq> []) step s = Some t" and "sound s" and "P s"
    and "\<And>s. sound s \<Longrightarrow> P s \<Longrightarrow> queue s \<noteq> [] \<Longrightarrow> P (step s)"
  shows "P t"
proof -
  have "sound t \<and> P t"
    by (rule while_option_rule [OF _ assms(1), where P = "\<lambda>s. sound s \<and> P s"])
      (use assms(2-4) step_sound in auto)
  then show ?thesis by blast
qed

end

end
