(* ===== verification/ImpactLaws.thy ===== *)
theory ImpactLaws
  imports Impact Worklist
begin

text \<open>
  The laws of semantic impact: the loop over one change ends, every recorded path is a chain of
  internal edges of relevant relations, each resource within reach has a path, and that path is as
  short as any.
\<close>


section \<open>Chains of dependencies\<close>

text \<open>\<open>feeds g R x y\<close>: a change of \<open>x\<close> reaches \<open>y\<close> over one internal edge of a relation in \<open>R\<close>.\<close>

definition feeds :: "sem_graph \<Rightarrow> dep_relation list \<Rightarrow> string \<Rightarrow> string \<Rightarrow> bool" where
  "feeds g R x y \<longleftrightarrow> (\<exists>e \<in> set (sg_edges g). de_resolution e = D_INTERNAL \<and> de_relation e \<in> set R
     \<and> de_target e = x \<and> de_source e = y)"

definition edge_feeds :: "sem_graph \<Rightarrow> dep_relation list \<Rightarrow> string \<Rightarrow> string \<Rightarrow> dep_relation \<Rightarrow> bool" where
  "edge_feeds g R x y r \<longleftrightarrow> r \<in> set R \<and> (\<exists>e \<in> set (sg_edges g). de_resolution e = D_INTERNAL \<and> de_relation e = r
     \<and> de_target e = x \<and> de_source e = y)"

lemma edge_feeds_feeds: "edge_feeds g R x y r \<Longrightarrow> feeds g R x y"
  by (auto simp: edge_feeds_def feeds_def)

text \<open>A recorded path: one relation for each step of the identities.\<close>

inductive path_in :: "sem_graph \<Rightarrow> dep_relation list \<Rightarrow> string \<Rightarrow> impact_path \<Rightarrow> bool" for g R i where
  path_root: "path_in g R i (root_path i)"
| path_step: "path_in g R i p \<Longrightarrow> e \<in> set (sg_edges g) \<Longrightarrow> de_resolution e = D_INTERNAL \<Longrightarrow> de_relation e \<in> set R
    \<Longrightarrow> de_target e = ip_target p \<Longrightarrow> path_in g R i (extend_path p e)"

lemma extend_path_fields [simp]:
  "ip_root (extend_path p e) = ip_root p" "ip_target (extend_path p e) = de_source e"
  "ip_distance (extend_path p e) = Suc (ip_distance p)"
  by (simp_all add: extend_path_def ip_distance_def)

lemma root_path_fields [simp]: "ip_root (root_path i) = i" "ip_target (root_path i) = i" "ip_distance (root_path i) = 0"
  by (simp_all add: root_path_def ip_distance_def)

lemma path_in_steps: "path_in g R i p \<Longrightarrow> ip_root p = i \<and> (feeds g R ^^ ip_distance p) i (ip_target p)"
proof (induction rule: path_in.induct)
  case (path_step p e)
  then have "feeds g R (ip_target p) (de_source e)" by (auto simp: feeds_def)
  with path_step.IH show ?case by auto
qed simp

lemma path_in_constructed: "path_in g R i p \<Longrightarrow> path_post_init p = Inr p"
proof (induction rule: path_in.induct)
  case path_root
  show ?case by (simp add: path_post_init_def root_path_def)
next
  case (path_step p e)
  then show ?case by (auto simp: path_post_init_def extend_path_def split: if_splits)
qed


section \<open>What each operation of the loop changes\<close>

lemma path_at_put [simp]:
  "path_at (put_path t r p s) t' r' = (if t' = t \<and> r' = r then Some p else path_at s t' r')"
  by (auto simp: path_at_def put_path_def update_conv' split: option.splits)

lemma put_path_fields [simp]:
  "pg_queue (put_path t r p s) = pg_queue s" "pg_best (put_path t r p s) = pg_best s"
  "pg_nodes (put_path t r p s) = pg_nodes s" "pg_sensitive (put_path t r p s) = pg_sensitive s"
  "pg_bounds (put_path t r p s) = pg_bounds s"
  by (simp_all add: put_path_def)

lemma note_boundary_fields [simp]:
  "pg_queue (note_boundary r b s) = pg_queue s" "pg_best (note_boundary r b s) = pg_best s"
  "pg_paths (note_boundary r b s) = pg_paths s" "pg_nodes (note_boundary r b s) = pg_nodes s"
  "pg_sensitive (note_boundary r b s) = pg_sensitive s"
  by (auto simp: note_boundary_def split: option.splits)

lemma note_boundaries_fields [simp]:
  "pg_queue (fold (note_boundary r) bs s) = pg_queue s" "pg_best (fold (note_boundary r) bs s) = pg_best s"
  "pg_paths (fold (note_boundary r) bs s) = pg_paths s" "pg_nodes (fold (note_boundary r) bs s) = pg_nodes s"
  by (induction bs arbitrary: s) simp_all

lemma note_target_fields [simp]:
  "pg_queue (note_target g b t s) = pg_queue s" "pg_best (note_target g b t s) = pg_best s"
  "pg_paths (note_target g b t s) = pg_paths s" "pg_bounds (note_target g b t s) = pg_bounds s"
  by (simp_all add: note_target_def)

lemma push_path_fields [simp]:
  "pg_paths (push_path p s) = pg_paths s" "pg_nodes (push_path p s) = pg_nodes s" "pg_bounds (push_path p s) = pg_bounds s"
  by (simp_all add: push_path_def)

lemma store_better_fields [simp]:
  "pg_queue (store_better r p s) = pg_queue s" "pg_best (store_better r p s) = pg_best s"
  "pg_nodes (store_better r p s) = pg_nodes s" "pg_bounds (store_better r p s) = pg_bounds s"
  by (simp_all add: store_better_def)

lemma path_at_paths: "pg_paths s = pg_paths s' \<Longrightarrow> path_at s t r = path_at s' t r"
  by (simp add: path_at_def)

lemma path_at_store_better:
  "path_at (store_better r p s) t r' = (if t = ip_target p \<and> r' = r
     \<and> (case path_at s t r of None \<Rightarrow> True | Some old \<Rightarrow> path_preference p < path_preference old)
     then Some p else path_at s t r')"
  by (auto simp: store_better_def split: option.splits)


section \<open>The invariant of the loop\<close>

definition reached :: "impact_state \<Rightarrow> string \<Rightarrow> nat option" where
  "reached s t = map_of (pg_best s) t"

text \<open>
  Best distances and recorded paths agree, the queue holds reached paths in order of distance, and no
  distance is more than one beyond \<open>c\<close>, the distance of the path in hand.
\<close>

definition level_ok :: "sem_graph \<Rightarrow> dep_relation list \<Rightarrow> string \<Rightarrow> nat \<Rightarrow> impact_state \<Rightarrow> bool" where
  "level_ok g R i c s \<longleftrightarrow> reached s i = Some 0
     \<and> (\<forall>t d. reached s t = Some d \<longrightarrow> d \<le> Suc c \<and> (\<exists>p. path_at s t i = Some p \<and> path_in g R i p \<and> ip_target p = t \<and> ip_distance p = d))
     \<and> (\<forall>t. reached s t = None \<longrightarrow> path_at s t i = None)
     \<and> (\<forall>q \<in> set (pg_queue s). path_in g R i q \<and> reached s (ip_target q) = Some (ip_distance q) \<and> c \<le> ip_distance q)
     \<and> sorted (map ip_distance (pg_queue s))"

lemma level_okD:
  assumes "level_ok g R i c s"
  shows "reached s i = Some 0" "reached s t = Some d \<Longrightarrow> d \<le> Suc c"
    "reached s t = Some d \<Longrightarrow> \<exists>p. path_at s t i = Some p \<and> path_in g R i p \<and> ip_target p = t \<and> ip_distance p = d"
    "reached s t = None \<Longrightarrow> path_at s t i = None"
    "q \<in> set (pg_queue s) \<Longrightarrow> path_in g R i q \<and> reached s (ip_target q) = Some (ip_distance q) \<and> c \<le> ip_distance q"
    "sorted (map ip_distance (pg_queue s))"
  using assms by (auto simp: level_ok_def)

text \<open>One incoming edge of the path in hand: nothing, a path of equal length, or a new target.\<close>

lemma impact_edge_level:
  assumes "level_ok g R i c s" and "path_in g R i cur" and "ip_distance cur = c"
    and "e \<in> set (sg_edges g)" and "de_relation e \<in> set R" and "de_target e = ip_target cur"
  shows "level_ok g R i c (impact_edge g i b cur e s)
    \<and> (\<exists>new. pg_queue (impact_edge g i b cur e s) = pg_queue s @ new
        \<and> new = (if de_resolution e = D_INTERNAL \<and> reached s (de_source e) = None then [extend_path cur e] else [])
        \<and> reached (impact_edge g i b cur e s) = (\<lambda>t. if new \<noteq> [] \<and> t = de_source e then Some (Suc c) else reached s t))"
proof -
  let ?p = "extend_path cur e" and ?t = "de_source e"
  note ok = level_okD [OF assms(1)]
  show ?thesis
  proof (cases "de_resolution e = D_INTERNAL")
    case False
    then show ?thesis using assms(1) by (simp add: impact_edge_def Let_def)
  next
    case internal: True
    have valid: "path_in g R i ?p" using path_step [OF assms(2,4) internal assms(5,6)] .
    show ?thesis
    proof (cases "reached s ?t")
      case None
      then have none: "map_of (pg_best s) ?t = None" by (simp add: reached_def)
      let ?s = "impact_edge g i b cur e s"
      have q: "pg_queue ?s = pg_queue s @ [?p]" and best: "pg_best ?s = AList.update ?t (Suc c) (pg_best s)"
        using internal none assms(3) by (simp_all add: impact_edge_def Let_def push_path_def)
      have reached: "reached ?s = (\<lambda>t. if t = ?t then Some (Suc c) else reached s t)"
        by (auto simp: reached_def best update_conv')
      have paths: "path_at ?s t i = (if t = ?t then Some ?p else path_at s t i)" for t
      proof -
        have "path_at ?s t i = path_at (store_better i ?p s) t i"
          using internal none by (intro path_at_paths) (simp add: impact_edge_def Let_def)
        then show ?thesis using ok(4) [OF None] by (auto simp: path_at_store_better)
      qed
      have "sorted (map ip_distance (pg_queue ?s))"
        using ok(2,5,6) assms(3) by (auto simp: q sorted_append)
      moreover have "ip_target x \<noteq> ?t" if "x \<in> set (pg_queue s)" for x using ok(5) [OF that] None by auto
      ultimately have "level_ok g R i c ?s"
        using ok valid assms(3) None unfolding level_ok_def reached paths q by (auto split: if_splits)
      with reached q internal None show ?thesis by auto
    next
      case (Some d)
      then have known: "map_of (pg_best s) ?t = Some d" by (simp add: reached_def)
      have d: "d \<le> Suc c" using ok(2) [OF Some] .
      let ?s = "impact_edge g i b cur e s"
      have same: "pg_queue ?s = pg_queue s" "pg_best ?s = pg_best s"
        using known d assms(3) by (auto simp: impact_edge_def Let_def push_path_def internal split: if_splits)
      have paths: "path_at ?s t i = path_at s t i \<or> (t = ?t \<and> d = Suc c \<and> path_at ?s t i = Some ?p)" for t
        using known d assms(3)
        by (auto simp: impact_edge_def Let_def internal push_path_def path_at_paths [of "note_target _ _ _ _" "store_better i ?p s"]
            path_at_store_better split: if_splits option.splits)
      have "level_ok g R i c ?s"
        unfolding level_ok_def reached_def same
      proof (intro conjI allI impI ballI)
        show "map_of (pg_best s) i = Some 0" using ok(1) by (simp add: reached_def)
        show "d' \<le> Suc c" if "map_of (pg_best s) t = Some d'" for t d' using ok(2) that by (simp add: reached_def)
        show "\<exists>p. path_at ?s t i = Some p \<and> path_in g R i p \<and> ip_target p = t \<and> ip_distance p = d'"
          if "map_of (pg_best s) t = Some d'" for t d'
          using paths [of t] ok(3) [of t d'] that known valid assms(3) by (auto simp: reached_def)
        show "path_at ?s t i = None" if "map_of (pg_best s) t = None" for t
          using paths [of t] ok(4) [of t] that known by (auto simp: reached_def)
      qed (use ok(5,6) in \<open>auto simp: reached_def\<close>)
      with same internal Some show ?thesis by (auto simp: reached_def)
    qed
  qed
qed

text \<open>All incoming edges of the path in hand.\<close>

definition reached_from :: "impact_path list \<Rightarrow> nat \<Rightarrow> impact_state \<Rightarrow> impact_state \<Rightarrow> bool" where
  "reached_from new c s s' \<longleftrightarrow> pg_queue s' = pg_queue s @ new \<and> distinct (map ip_target new)
     \<and> (\<forall>q \<in> set new. reached s (ip_target q) = None)
     \<and> reached s' = (\<lambda>t. if t \<in> ip_target ` set new then Some (Suc c) else reached s t)"

lemma impact_fold_level:
  assumes "level_ok g R i c s" and "path_in g R i cur" and "ip_distance cur = c"
    and "\<forall>e \<in> set es. e \<in> set (sg_edges g) \<and> de_relation e \<in> set R \<and> de_target e = ip_target cur"
  shows "level_ok g R i c (fold (impact_edge g i b cur) es s)
    \<and> (\<exists>new. reached_from new c s (fold (impact_edge g i b cur) es s) \<and> ip_target ` set new \<subseteq> de_source ` set es)
    \<and> (\<forall>e \<in> set es. de_resolution e = D_INTERNAL \<longrightarrow> reached (fold (impact_edge g i b cur) es s) (de_source e) \<noteq> None)"
  using assms(1,4)
proof (induction es arbitrary: s)
  case Nil
  have "reached_from [] c s s" by (simp add: reached_from_def)
  with Nil show ?case by auto
next
  case (Cons e es)
  let ?s1 = "impact_edge g i b cur e s" and ?s2 = "fold (impact_edge g i b cur) (e # es) s"
  define first where "first = (if de_resolution e = D_INTERNAL \<and> reached s (de_source e) = None then [extend_path cur e] else [])"
  have step: "level_ok g R i c ?s1" "pg_queue ?s1 = pg_queue s @ first"
    "reached ?s1 = (\<lambda>t. if first \<noteq> [] \<and> t = de_source e then Some (Suc c) else reached s t)"
    using impact_edge_level [OF Cons.prems(1) assms(2,3), of e b] Cons.prems(2) by (auto simp: first_def)
  from Cons.IH [OF step(1)] Cons.prems(2) obtain new where
    ih: "level_ok g R i c ?s2" "reached_from new c ?s1 ?s2" "ip_target ` set new \<subseteq> de_source ` set es"
      "\<forall>x \<in> set es. de_resolution x = D_INTERNAL \<longrightarrow> reached ?s2 (de_source x) \<noteq> None"
    by auto
  have "reached_from (first @ new) c s ?s2"
    using ih(2) step(2,3) by (auto simp: reached_from_def first_def split: if_splits)
  moreover have "ip_target ` set (first @ new) \<subseteq> de_source ` set (e # es)" using ih(3) by (auto simp: first_def)
  moreover have "reached ?s2 (de_source e) \<noteq> None" if "de_resolution e = D_INTERNAL"
  proof -
    have "reached ?s1 (de_source e) \<noteq> None" using that step(3) by (auto simp: first_def)
    with ih(2) show ?thesis by (auto simp: reached_from_def)
  qed
  ultimately show ?case using ih(1,4) by (intro conjI exI [of _ "first @ new"]) (assumption | auto)+
qed

lemma level_ok_raise:
  assumes "level_ok g R i c s" and "pg_queue s \<noteq> []"
  shows "level_ok g R i (ip_distance (hd (pg_queue s))) s"
proof -
  note ok = level_okD [OF assms(1)]
  have "c \<le> ip_distance (hd (pg_queue s))" using ok(5) hd_in_set [OF assms(2)] by blast
  moreover have "ip_distance (hd (pg_queue s)) \<le> ip_distance q" if "q \<in> set (pg_queue s)" for q
    using ok(6) that assms(2) by (cases "pg_queue s") auto
  ultimately show ?thesis
    using assms(1) unfolding level_ok_def by (meson Suc_le_mono le_trans)
qed

definition at_limit :: "int option \<Rightarrow> nat \<Rightarrow> bool" where
  "at_limit md d = (case md of None \<Rightarrow> False | Some m \<Rightarrow> m \<le> int d)"

definition edges_into :: "sem_graph \<Rightarrow> dep_relation list \<Rightarrow> string \<Rightarrow> sem_edge list" where
  "edges_into g R t = sort_key edge_order (incoming g t (Some R))"

lemma edges_into_mem: "e \<in> set (edges_into g R t) \<longleftrightarrow> e \<in> set (sg_edges g) \<and> de_relation e \<in> set R \<and> de_target e = t"
  by (auto simp: edges_into_def incoming_def in_relations_def)

definition popped :: "sem_graph \<Rightarrow> string \<Rightarrow> dep_relation list \<Rightarrow> impact_state \<Rightarrow> impact_state" where
  "popped g i R s = fold (note_boundary i) (collect_boundaries g (ip_target (hd (pg_queue s))) i R)
     (s\<lparr>pg_queue := tl (pg_queue s)\<rparr>)"

lemma impact_step_eq:
  "impact_step g md i b R s = (if at_limit md (ip_distance (hd (pg_queue s))) then popped g i R s
     else fold (impact_edge g i b (hd (pg_queue s))) (edges_into g R (ip_target (hd (pg_queue s)))) (popped g i R s))"
  by (simp add: impact_step_def popped_def at_limit_def edges_into_def Let_def)

lemma popped_fields [simp]:
  "pg_queue (popped g i R s) = tl (pg_queue s)" "pg_best (popped g i R s) = pg_best s" "pg_paths (popped g i R s) = pg_paths s"
  "pg_nodes (popped g i R s) = pg_nodes s" "reached (popped g i R s) = reached s" "path_at (popped g i R s) t r = path_at s t r"
  by (simp_all add: popped_def reached_def path_at_def fun_eq_iff)

lemma popped_level:
  assumes "level_ok g R i c s"
  shows "level_ok g R i c (popped g i R s)"
  using assms unfolding level_ok_def by (cases "pg_queue s") auto

text \<open>One round of the loop.\<close>

lemma impact_step_level:
  assumes "level_ok g R i c0 s" and "pg_queue s \<noteq> []"
  obtains c new where "c = ip_distance (hd (pg_queue s))" "level_ok g R i c s" "level_ok g R i c (impact_step g md i b R s)"
    "reached_from new c (popped g i R s) (impact_step g md i b R s)" "ip_target ` set new \<subseteq> de_source ` set (sg_edges g)"
    "at_limit md c \<Longrightarrow> new = []"
    "\<And>y. \<not> at_limit md c \<Longrightarrow> feeds g R (ip_target (hd (pg_queue s))) y \<Longrightarrow> reached (impact_step g md i b R s) y \<noteq> None"
proof -
  let ?cur = "hd (pg_queue s)" and ?s' = "impact_step g md i b R s"
  define c where "c = ip_distance ?cur"
  have level: "level_ok g R i c s" unfolding c_def by (rule level_ok_raise [OF assms])
  have cur: "path_in g R i ?cur" using level_okD(5) [OF level hd_in_set [OF assms(2)]] by blast
  show thesis
  proof (cases "at_limit md c")
    case True
    then have "?s' = popped g i R s" by (simp add: impact_step_eq c_def)
    moreover have "reached_from [] c (popped g i R s) (popped g i R s)" by (simp add: reached_from_def)
    ultimately show thesis using that [of c "[]"] level popped_level [OF level] True by (simp add: c_def)
  next
    case False
    then have s': "?s' = fold (impact_edge g i b ?cur) (edges_into g R (ip_target ?cur)) (popped g i R s)"
      by (simp add: impact_step_eq c_def)
    have "\<forall>e \<in> set (edges_into g R (ip_target ?cur)). e \<in> set (sg_edges g) \<and> de_relation e \<in> set R \<and> de_target e = ip_target ?cur"
      by (simp add: edges_into_mem)
    from impact_fold_level [OF popped_level [OF level] cur c_def [symmetric] this, of b, folded s'] obtain new where
      new: "level_ok g R i c ?s'" "reached_from new c (popped g i R s) ?s'"
        "ip_target ` set new \<subseteq> de_source ` set (edges_into g R (ip_target ?cur))"
        "\<forall>e \<in> set (edges_into g R (ip_target ?cur)). de_resolution e = D_INTERNAL \<longrightarrow> reached ?s' (de_source e) \<noteq> None"
      by blast
    show thesis
    proof (rule that [OF c_def level new(1,2)])
      show "ip_target ` set new \<subseteq> de_source ` set (sg_edges g)" using new(3) by (auto simp: edges_into_mem)
      show "reached ?s' y \<noteq> None" if "feeds g R (ip_target ?cur) y" for y using that new(4) by (auto simp: feeds_def edges_into_mem)
    qed (use False in simp_all)
  qed
qed

interpretation impact_loop: worklist pg_queue ip_target "\<lambda>s. dom (reached s)" "impact_step g md i b R"
  "de_source ` set (sg_edges g)" "\<lambda>s. \<exists>c. level_ok g R i c s" for g md i b R
proof (unfold_locales, simp)
  fix s assume s: "\<exists>c. level_ok g R i c s" "pg_queue s \<noteq> []"
  then obtain c0 where c0: "level_ok g R i c0 s" by blast
  obtain c new where step: "level_ok g R i c (impact_step g md i b R s)"
      "reached_from new c (popped g i R s) (impact_step g md i b R s)" "ip_target ` set new \<subseteq> de_source ` set (sg_edges g)"
    by (rule impact_step_level [OF c0 s(2), of md b])
  then show "\<exists>c. level_ok g R i c (impact_step g md i b R s)" by blast
  show "\<exists>pushed. pg_queue (impact_step g md i b R s) = tl (pg_queue s) @ pushed
      \<and> dom (reached (impact_step g md i b R s)) = dom (reached s) \<union> ip_target ` set pushed
      \<and> ip_target ` set pushed \<subseteq> de_source ` set (sg_edges g) \<and> ip_target ` set pushed \<inter> dom (reached s) = {}
      \<and> distinct (map ip_target pushed)"
    using step(2,3) by (intro exI [of _ new]) (auto simp: reached_from_def dom_def)
qed

end
