(* ===== verification/ImpactSpec.thy ===== *)
theory ImpactSpec
  imports ImpactLaws
begin

text \<open>
  What the propagation of all changes leaves behind: for each change exactly the resources within
  reach, each with a shortest path, every boundary they touch, and dictionaries that are well formed,
  so that the report can be built.
\<close>


section \<open>Boundaries and depth\<close>

definition noted :: "impact_state \<Rightarrow> string \<Rightarrow> string \<times> string \<times> string \<times> string \<Rightarrow> bool" where
  "noted s i k \<longleftrightarrow> (\<exists>old roots. map_of (pg_bounds s) k = Some (old, roots) \<and> i \<in> set roots)"

lemma note_boundary_noted: "noted (note_boundary i b s) j k \<longleftrightarrow> (j = i \<and> k = boundary_key b) \<or> noted s j k"
  by (auto simp: noted_def note_boundary_def update_conv' split: option.splits if_splits)

lemma note_boundaries_noted:
  "noted (fold (note_boundary i) bs s) j k \<longleftrightarrow> (j = i \<and> k \<in> boundary_key ` set bs) \<or> noted s j k"
  by (induction bs arbitrary: s) (auto simp: note_boundary_noted)

definition within :: "int option \<Rightarrow> nat \<Rightarrow> bool" where
  "within md d = (case md of None \<Rightarrow> True | Some m \<Rightarrow> int d \<le> m)"

lemma within_step: "\<not> at_limit md d \<Longrightarrow> within md (Suc d)"
  by (auto simp: at_limit_def within_def split: option.splits)

lemma within_not_limit: "within md (Suc d) \<Longrightarrow> \<not> at_limit md d"
  by (auto simp: at_limit_def within_def split: option.splits)

lemma within_mono: "within md d \<Longrightarrow> c \<le> d \<Longrightarrow> within md c"
  by (auto simp: within_def split: option.splits)

definition handled :: "sem_graph \<Rightarrow> int option \<Rightarrow> string \<Rightarrow> dep_relation list \<Rightarrow> impact_state \<Rightarrow> string \<Rightarrow> nat \<Rightarrow> bool" where
  "handled g md i R s t d \<longleftrightarrow> (\<forall>b \<in> set (collect_boundaries g t i R). noted s i (boundary_key b))
     \<and> (at_limit md d \<or> (\<forall>y. feeds g R t y \<longrightarrow> (\<exists>d'. reached s y = Some d' \<and> d' \<le> Suc d)))"

text \<open>Every reached resource is within the depth, and in the queue or handled.\<close>

definition progress :: "sem_graph \<Rightarrow> int option \<Rightarrow> string \<Rightarrow> dep_relation list \<Rightarrow> impact_state \<Rightarrow> bool" where
  "progress g md i R s \<longleftrightarrow> (\<forall>t d. reached s t = Some d \<longrightarrow>
     within md d \<and> (t \<in> ip_target ` set (pg_queue s) \<or> handled g md i R s t d))"

lemma impact_edges_bounds [simp]: "pg_bounds (fold (impact_edge g i b cur) es s) = pg_bounds s"
  by (induction es arbitrary: s) (simp_all add: impact_edge_def Let_def)

lemma step_noted: "noted (impact_step g md i b R s) j k \<longleftrightarrow> noted (popped g i R s) j k"
  by (simp add: impact_step_eq noted_def)

lemma popped_noted:
  "noted (popped g i R s) j k \<longleftrightarrow>
     (j = i \<and> k \<in> boundary_key ` set (collect_boundaries g (ip_target (hd (pg_queue s))) i R)) \<or> noted s j k"
proof -
  have "noted (s\<lparr>pg_queue := q\<rparr>) j k = noted s j k" for q by (simp add: noted_def)
  then show ?thesis by (simp add: popped_def note_boundaries_noted)
qed

lemma progress_step:
  assumes "level_ok g R i c0 s" and "pg_queue s \<noteq> []" and "progress g md i R s"
  shows "progress g md i R (impact_step g md i b R s)"
  unfolding progress_def
proof (intro allI impI)
  let ?s' = "impact_step g md i b R s" and ?cur = "hd (pg_queue s)"
  fix t d assume t: "reached ?s' t = Some d"
  obtain c new where step: "c = ip_distance ?cur" "level_ok g R i c s" "level_ok g R i c ?s'"
      "reached_from new c (popped g i R s) ?s'" "at_limit md c \<Longrightarrow> new = []"
      "\<And>y. \<not> at_limit md c \<Longrightarrow> feeds g R (ip_target ?cur) y \<Longrightarrow> reached ?s' y \<noteq> None"
    by (rule impact_step_level [OF assms(1,2), of md b]) blast
  have queue: "pg_queue ?s' = tl (pg_queue s) @ new"
    and reached: "reached ?s' = (\<lambda>x. if x \<in> ip_target ` set new then Some (Suc c) else reached s x)"
    using step(4) by (auto simp: reached_from_def fun_eq_iff)
  have kept: "reached ?s' x = Some y" if "reached s x = Some y" for x y
    using step(4) that by (auto simp: reached_from_def)
  have limit: "\<exists>d'. reached ?s' y = Some d' \<and> d' \<le> Suc c" if "reached ?s' y \<noteq> None" for y
    using that level_okD(2) [OF step(3)] by auto
  show "within md d \<and> (t \<in> ip_target ` set (pg_queue ?s') \<or> handled g md i R ?s' t d)"
  proof (cases "t \<in> ip_target ` set new")
    case True
    then have "new \<noteq> []" by auto
    with step(5) have "within md (Suc c)" by (intro within_step) auto
    with True t show ?thesis by (auto simp: reached queue)
  next
    case False
    then have old: "reached s t = Some d" using t by (simp add: reached)
    then have w: "within md d" and "t \<in> ip_target ` set (pg_queue s) \<or> handled g md i R s t d"
      using assms(3) by (auto simp: progress_def)
    then consider "t = ip_target ?cur" | "t \<in> ip_target ` set (tl (pg_queue s))" | "handled g md i R s t d"
      using assms(2) by (cases "pg_queue s") auto
    then show ?thesis
    proof cases
      case 1
      have "d = c" using old level_okD(5) [OF step(2) hd_in_set [OF assms(2)]] 1 step(1) by simp
      with 1 step(6) limit have "handled g md i R ?s' t d"
        unfolding handled_def by (auto simp: step_noted popped_noted)
      with w show ?thesis by blast
    next
      case 2
      with w show ?thesis by (auto simp: queue)
    next
      case 3
      have "\<exists>d'. reached ?s' y = Some d' \<and> d' \<le> Suc d" if "\<exists>d'. reached s y = Some d' \<and> d' \<le> Suc d" for y
        using that kept by blast
      with 3 have "handled g md i R ?s' t d"
        unfolding handled_def step_noted popped_noted by blast
      with w show ?thesis by blast
    qed
  qed
qed


section \<open>What belongs to other changes stays\<close>

lemma impact_edge_frame: "j \<noteq> i \<Longrightarrow> path_at (impact_edge g i b cur e s) t j = path_at s t j"
  by (auto simp: impact_edge_def Let_def path_at_paths [of "note_target _ _ _ _" "store_better i (extend_path cur e) s"]
      path_at_store_better)

lemma impact_edges_frame: "j \<noteq> i \<Longrightarrow> path_at (fold (impact_edge g i b cur) es s) t j = path_at s t j"
  by (induction es arbitrary: s) (simp_all add: impact_edge_frame)

lemma impact_step_frame: "j \<noteq> i \<Longrightarrow> path_at (impact_step g md i b R s) t j = path_at s t j"
  by (simp add: impact_step_eq impact_edges_frame)

text \<open>The dictionaries: keys once, no empty inner dictionary, nodes under their own identity.\<close>

definition dicts_ok :: "impact_state \<Rightarrow> bool" where
  "dicts_ok s \<longleftrightarrow> distinct (map fst (pg_paths s)) \<and> (\<forall>t d. map_of (pg_paths s) t = Some d \<longrightarrow> d \<noteq> [] \<and> distinct (map fst d))
     \<and> (\<forall>t n. map_of (pg_nodes s) t = Some n \<longrightarrow> dn_identity n = t)"

lemma update_nonempty [simp]: "AList.update k v al \<noteq> []"
  by (cases al) auto

lemma dicts_ok_put: "dicts_ok s \<Longrightarrow> dicts_ok (put_path t r p s)"
  by (auto simp: dicts_ok_def put_path_def update_conv' distinct_update split: option.splits if_splits)

lemma node_of_identity: "node_of g i = Some n \<Longrightarrow> dn_identity n = i"
  by (auto simp: node_of_def dest: find_row_SomeD)

lemma dicts_ok_edge: "dicts_ok s \<Longrightarrow> dicts_ok (impact_edge g i b cur e s)"
proof -
  assume ok: "dicts_ok s"
  have "dicts_ok (store_better i p s)" for p using ok by (simp add: store_better_def dicts_ok_put)
  then have "dicts_ok (push_path p (store_better i p s))" for p by (simp add: dicts_ok_def)
  then have "dicts_ok (note_target g b t (push_path p (store_better i p s)))" for p t
    by (auto simp: dicts_ok_def note_target_def update_conv' dest: node_of_identity split: option.splits if_splits)
  with ok show ?thesis by (simp add: impact_edge_def Let_def)
qed

lemma dicts_ok_step: "dicts_ok s \<Longrightarrow> dicts_ok (impact_step g md i b R s)"
proof -
  assume "dicts_ok s"
  then have "dicts_ok (popped g i R s)" by (simp add: dicts_ok_def)
  moreover have "dicts_ok (fold (impact_edge g i b cur) es s)" if "dicts_ok s" for cur es s
    using that by (induction es arbitrary: s) (simp_all add: dicts_ok_edge)
  ultimately show ?thesis by (simp add: impact_step_eq)
qed

lemma nodes_kept_edge:
  "map_of (pg_nodes s) t \<noteq> None \<Longrightarrow> map_of (pg_nodes (impact_edge g i b cur e s)) t \<noteq> None"
  by (auto simp: impact_edge_def Let_def note_target_def update_conv' split: option.splits)

lemma nodes_kept_step:
  assumes "map_of (pg_nodes s) t \<noteq> None"
  shows "map_of (pg_nodes (impact_step g md i b R s)) t \<noteq> None"
proof -
  have "map_of (pg_nodes (fold (impact_edge g i b cur) es s)) t \<noteq> None" if "map_of (pg_nodes s) t \<noteq> None" for cur es s
    using that by (induction es arbitrary: s) (simp_all add: nodes_kept_edge del: not_None_eq)
  with assms show ?thesis by (simp add: impact_step_eq)
qed

text \<open>A boundary entry stands for edges of the graph at reached sources.\<close>

definition entry_ok ::
  "sem_graph \<Rightarrow> (string \<Rightarrow> dep_relation list) \<Rightarrow> impact_state \<Rightarrow> string \<times> string \<times> string \<times> string \<Rightarrow> impact_boundary \<Rightarrow> string list \<Rightarrow> bool" where
  "entry_ok g rels s k b roots \<longleftrightarrow> boundary_key b = k \<and> bd_resolution b \<noteq> D_INTERNAL
     \<and> (\<forall>r \<in> set roots. path_at s (bd_source b) r \<noteq> None \<and> (\<exists>e \<in> set (sg_edges g). de_source e = bd_source b
          \<and> de_target e = bd_target b \<and> de_relation e = bd_relation b \<and> de_resolution e = bd_resolution b
          \<and> de_relation e \<in> set (rels r)))"

definition bounds_ok :: "sem_graph \<Rightarrow> (string \<Rightarrow> dep_relation list) \<Rightarrow> impact_state \<Rightarrow> bool" where
  "bounds_ok g rels s \<longleftrightarrow> distinct (map fst (pg_bounds s))
     \<and> (\<forall>k b roots. map_of (pg_bounds s) k = Some (b, roots) \<longrightarrow> entry_ok g rels s k b roots)"

lemma entry_ok_paths:
  "entry_ok g rels s k b roots \<Longrightarrow> (\<And>t r. path_at s t r \<noteq> None \<Longrightarrow> path_at s' t r \<noteq> None) \<Longrightarrow> entry_ok g rels s' k b roots"
  unfolding entry_ok_def by blast

lemma relation_value_inj: "relation_value a = relation_value b \<Longrightarrow> a = b"
  by (cases a) (cases b; simp)+

lemma resolution_value_inj: "resolution_value a = resolution_value b \<Longrightarrow> a = b"
  by (cases a; cases b) simp_all

lemma boundary_key_inj:
  "boundary_key a = boundary_key b \<Longrightarrow> bd_source a = bd_source b \<and> bd_target a = bd_target b
     \<and> bd_relation a = bd_relation b \<and> bd_resolution a = bd_resolution b"
  by (auto simp: boundary_key_def dest: relation_value_inj resolution_value_inj)

lemma bounds_ok_note:
  assumes "bounds_ok g rels s" and "e \<in> set (sg_edges g)" and "de_resolution e \<noteq> D_INTERNAL"
    and "de_relation e \<in> set (rels i)" and "path_at s (de_source e) i \<noteq> None"
  shows "bounds_ok g rels (note_boundary i (boundary_of i e) s)"
proof -
  let ?b = "boundary_of i e" and ?s = "note_boundary i (boundary_of i e) s"
  have fields: "bd_source ?b = de_source e" "bd_target ?b = de_target e" "bd_relation ?b = de_relation e"
    "bd_resolution ?b = de_resolution e" by (simp_all add: boundary_of_def)
  obtain b roots where new: "pg_bounds ?s = AList.update (boundary_key ?b) (b, roots) (pg_bounds s)"
      and ok: "entry_ok g rels s (boundary_key ?b) b roots"
  proof (cases "map_of (pg_bounds s) (boundary_key ?b)")
    case None
    show thesis
      by (rule that [of ?b "[i]"]) (use None assms(2-5) in \<open>auto simp: note_boundary_def entry_ok_def fields\<close>)
  next
    case (Some p)
    obtain old rs where p: "p = (old, rs)" by (cases p)
    have old: "entry_ok g rels s (boundary_key ?b) old rs" using assms(1) Some unfolding bounds_ok_def p by blast
    then have "boundary_key old = boundary_key ?b" by (simp add: entry_ok_def)
    note same = boundary_key_inj [OF this, unfolded fields]
    show thesis
      by (rule that [of old "List.insert i rs"])
        (use old Some p same assms(2-5) in \<open>auto simp: note_boundary_def entry_ok_def\<close>)
  qed
  have paths: "path_at ?s t r = path_at s t r" for t r by (simp add: path_at_def)
  have kept: "entry_ok g rels ?s k c rs" if "entry_ok g rels s k c rs" for k c rs
    using that by (rule entry_ok_paths) (simp add: paths)
  show ?thesis
    using assms(1) kept ok unfolding bounds_ok_def new by (auto simp: update_conv' distinct_update simp del: map_of_eq_Some_iff split: if_splits)
qed

lemma bounds_ok_paths:
  assumes "bounds_ok g rels s" and "pg_bounds s' = pg_bounds s" and "\<And>t r. path_at s t r \<noteq> None \<Longrightarrow> path_at s' t r \<noteq> None"
  shows "bounds_ok g rels s'"
  using assms(1) entry_ok_paths [OF _ assms(3)] unfolding bounds_ok_def assms(2) by blast

lemma impact_edge_paths_kept: "path_at s t r \<noteq> None \<Longrightarrow> path_at (impact_edge g i b cur e s) t r \<noteq> None"
  by (auto simp: impact_edge_def Let_def path_at_paths [of "note_target _ _ _ _" "store_better i (extend_path cur e) s"]
      path_at_store_better)

lemma bounds_ok_popped:
  assumes "bounds_ok g rels s" and "path_at s (ip_target (hd (pg_queue s))) i \<noteq> None"
  shows "bounds_ok g rels (popped g i (rels i) s)"
proof -
  have "bounds_ok g rels (fold (note_boundary i) (map (boundary_of i) es) s1)"
    if "\<forall>e \<in> set es. e \<in> set (sg_edges g) \<and> de_resolution e \<noteq> D_INTERNAL \<and> de_relation e \<in> set (rels i)
        \<and> path_at s1 (de_source e) i \<noteq> None" "bounds_ok g rels s1" for es s1
    using that
  proof (induction es arbitrary: s1)
    case (Cons e es)
    have "path_at (note_boundary i (boundary_of i e) s1) t r = path_at s1 t r" for t r by (simp add: path_at_def)
    with Cons show ?case using bounds_ok_note [of g rels s1 e i] by simp
  qed simp
  moreover have "bounds_ok g rels (s\<lparr>pg_queue := q\<rparr>)" for q
    using assms(1) by (rule bounds_ok_paths) (simp_all add: path_at_def)
  moreover have "path_at (s\<lparr>pg_queue := q\<rparr>) t r = path_at s t r" for q t r by (simp add: path_at_def)
  ultimately show ?thesis
    using assms(2) unfolding popped_def collect_boundaries_def
    by (auto simp: outgoing_def in_relations_def)
qed

lemma bounds_ok_step:
  assumes "bounds_ok g rels s" and "path_at s (ip_target (hd (pg_queue s))) i \<noteq> None"
  shows "bounds_ok g rels (impact_step g md i b (rels i) s)"
proof -
  have "bounds_ok g rels (fold (impact_edge g i b cur) es s1)" if "bounds_ok g rels s1" for cur es s1
  proof (rule bounds_ok_paths [OF that])
    show "path_at (fold (impact_edge g i b cur) es s1) t r \<noteq> None" if "path_at s1 t r \<noteq> None" for t r
      using that by (induction es arbitrary: s1) (simp_all add: impact_edge_paths_kept del: not_None_eq)
  qed simp
  with bounds_ok_popped [OF assms] show ?thesis by (simp add: impact_step_eq)
qed

end
