(* ===== verification/GraphLaws.thy ===== *)
theory GraphLaws
  imports SemGraph
begin

text \<open>
  What the construction of a graph establishes: node identities and edge keys occur once, and both
  ends of every edge are nodes.
\<close>

text \<open>A graph that its constructor has accepted, from edges that theirs has accepted.\<close>

definition built_edge :: "(json \<Rightarrow> string) \<Rightarrow> sem_edge \<Rightarrow> bool" where
  "built_edge sha e \<longleftrightarrow> (\<exists>r. edge_post_init sha r = Inr e)"

definition built_graph :: "(json \<Rightarrow> string) \<Rightarrow> (string \<Rightarrow> string) \<Rightarrow> sem_graph \<Rightarrow> bool" where
  "built_graph sha sha_text g \<longleftrightarrow> (\<exists>g0. graph_post_init sha sha_text g0 = Inr g \<and> (\<forall>e \<in> set (sg_edges g0). built_edge sha e))"

lemma built_edge_clean: "built_edge sha e \<Longrightarrow> strip (de_source e) = de_source e \<and> strip (de_target e) = de_target e"
  by (auto simp: built_edge_def edge_post_init_def Let_def split: if_splits)

lemma merge_edges_ends:
  assumes "merge_edges sha old e = Inr m" and "built_edge sha e"
  shows "de_source m = de_source e" "de_target m = de_target e" "edge_key m = edge_key e"
proof -
  have m: "de_source m = strip (de_source e) \<and> de_target m = strip (de_target e) \<and> de_relation m = de_relation e
      \<and> de_resolution m = de_resolution e"
    using assms(1) by (auto simp: merge_edges_def edge_post_init_def Let_def split: if_splits)
  with built_edge_clean [OF assms(2)] show "de_source m = de_source e" "de_target m = de_target e" "edge_key m = edge_key e"
    by (simp_all add: edge_key_def)
qed

definition nodes_keyed :: "(string \<times> dep_node) list \<Rightarrow> bool" where
  "nodes_keyed found \<longleftrightarrow> distinct (map fst found) \<and> (\<forall>(k, n) \<in> set found. k = dn_identity n)"

definition edges_keyed :: "(json \<Rightarrow> string) \<Rightarrow> string list \<Rightarrow> ((string \<times> string \<times> string \<times> string) \<times> sem_edge) list \<Rightarrow> bool" where
  "edges_keyed sha ids found \<longleftrightarrow> distinct (map fst found)
     \<and> (\<forall>(k, e) \<in> set found. k = edge_key e \<and> de_source e \<in> set ids \<and> de_target e \<in> set ids)"

lemma update_mem: "(a, b) \<in> set (AList.update k v al) \<Longrightarrow> (a, b) = (k, v) \<or> (a, b) \<in> set al"
  by (induction al) (auto split: if_splits)

lemma collect_nodes_keyed: "collect_nodes sha_text found ns = Inr out \<Longrightarrow> nodes_keyed found \<Longrightarrow> nodes_keyed out"
proof (induction sha_text found ns rule: collect_nodes.induct)
  case (2 sha_text found n ns)
  have upd: "nodes_keyed (AList.update (dn_identity n) m found)" if "dn_identity m = dn_identity n" for m
    using 2(4) that by (auto simp: nodes_keyed_def distinct_update dest!: update_mem)
  show ?case
  proof (cases "map_of found (dn_identity n)")
    case None
    with 2 upd [of n] show ?thesis by simp
  next
    case (Some old)
    then have "dn_identity (merge_nodes old n) = dn_identity n"
      using 2(4) by (auto simp: nodes_keyed_def merge_nodes_def dn_identity_def dest!: map_of_SomeD)
    with Some 2 upd [of "merge_nodes old n"] show ?thesis by (simp split: if_splits)
  qed
qed simp

lemma collect_edges_keyed:
  "collect_edges sha ids found es = Inr out \<Longrightarrow> edges_keyed sha ids found \<Longrightarrow> \<forall>e \<in> set es. built_edge sha e \<Longrightarrow> edges_keyed sha ids out"
proof (induction sha ids found es rule: collect_edges.induct)
  case (2 sha ids found e es)
  have ends: "de_source e \<in> set ids" "de_target e \<in> set ids" using 2(3) by (auto split: if_splits)
  have upd: "edges_keyed sha ids (AList.update (edge_key e) m found)"
    if "edge_key m = edge_key e" "de_source m = de_source e" "de_target m = de_target e" for m
    using 2(4) that ends by (auto simp: edges_keyed_def distinct_update dest!: update_mem)
  show ?case
  proof (cases "map_of found (edge_key e)")
    case None
    with 2 ends upd [of e] show ?thesis by simp
  next
    case (Some old)
    with 2(3) ends obtain m where m: "merge_edges sha old e = Inr m"
        "collect_edges sha ids (AList.update (edge_key e) m found) es = Inr out"
      by (auto simp: res_bind_def split: sum.splits)
    note me = merge_edges_ends [OF m(1)]
    show ?thesis
      using 2(2) [OF _ _ Some, of m] ends m 2(5) upd [of m] me by simp
  qed
qed simp

lemma built_graph_ok:
  assumes "built_graph sha sha_text g"
  shows "distinct (map dn_identity (sg_nodes g))" "distinct (map edge_key (sg_edges g))"
    "\<forall>e \<in> set (sg_edges g). de_source e \<in> dn_identity ` set (sg_nodes g) \<and> de_target e \<in> dn_identity ` set (sg_nodes g)"
    "sg_protocol g = sem_graph_protocol"
proof -
  from assms obtain g0 nodes edges where
    nodes: "collect_nodes sha_text [] (sg_nodes g0) = Inr nodes" and
    edges: "collect_edges sha (map fst nodes) [] (sg_edges g0) = Inr edges" and
    built: "\<forall>e \<in> set (sg_edges g0). built_edge sha e" and protocol: "sg_protocol g0 = sem_graph_protocol" and
    g: "g = g0\<lparr>sg_nodes := sort_key dn_identity (map snd nodes), sg_edges := sort_key edge_key (map snd edges),
        sg_digests := sort_key fst (sg_digests g0)\<rparr>"
    by (auto simp: built_graph_def graph_post_init_def res_bind_def split: if_splits sum.splits)
  have n: "nodes_keyed nodes" using nodes by (rule collect_nodes_keyed) (simp add: nodes_keyed_def)
  have e: "edges_keyed sha (map fst nodes) edges" using edges by (rule collect_edges_keyed) (use built in \<open>simp_all add: edges_keyed_def\<close>)
  have n_map: "map (dn_identity \<circ> snd) nodes = map fst nodes" using n by (auto simp: nodes_keyed_def)
  have e_map: "map (edge_key \<circ> snd) edges = map fst edges" using e by (auto simp: edges_keyed_def)
  have sorted: "distinct (map f (sort_key f xs)) = distinct (map f xs)" for f :: "'x \<Rightarrow> 'y::linorder" and xs
    by (simp add: distinct_map)
  have "distinct (map dn_identity (map snd nodes))" using n by (simp only: map_map n_map nodes_keyed_def)
  then show "distinct (map dn_identity (sg_nodes g))" by (simp add: g sorted del: map_map)
  have "distinct (map edge_key (map snd edges))" using e by (simp only: map_map e_map edges_keyed_def)
  then show "distinct (map edge_key (sg_edges g))" by (simp add: g sorted del: map_map)
  have "set (map fst nodes) = dn_identity ` set (sg_nodes g)" using arg_cong [OF n_map, of set] by (simp add: g image_image image_comp)
  with e show "\<forall>e \<in> set (sg_edges g). de_source e \<in> dn_identity ` set (sg_nodes g) \<and> de_target e \<in> dn_identity ` set (sg_nodes g)"
    by (auto simp: g edges_keyed_def)
  show "sg_protocol g = sem_graph_protocol" using protocol by (simp add: g)
qed

lemma built_node_of:
  "built_graph sha sha_text g \<Longrightarrow> n \<in> set (sg_nodes g) \<Longrightarrow> node_of g (dn_identity n) = Some n"
  using built_graph_ok(1) [of sha sha_text g] by (auto simp: node_of_def keys_unique_def intro: find_row_unique)

lemma built_sources: "built_graph sha sha_text g \<Longrightarrow> e \<in> set (sg_edges g) \<Longrightarrow> node_of g (de_source e) \<noteq> None"
  using built_graph_ok(3) [of sha sha_text g] by (simp add: node_of_def find_row_None del: not_None_eq)

lemma built_targets: "built_graph sha sha_text g \<Longrightarrow> e \<in> set (sg_edges g) \<Longrightarrow> node_of g (de_target e) \<noteq> None"
  using built_graph_ok(3) [of sha sha_text g] by (simp add: node_of_def find_row_None del: not_None_eq)

end
