(* ===== verification/ImpactExact.thy ===== *)
theory ImpactExact
  imports ImpactSpec GraphLaws
begin

text \<open>
  The analysis of all changes: it ends, and what it reports is exactly the shortest distances over
  the relevant dependencies, with every boundary that was met.
\<close>


section \<open>The specification\<close>

text \<open>\<open>shortest g R md x y d\<close>: \<open>d\<close> edges lead from \<open>x\<close> to \<open>y\<close>, no fewer do, and the depth allows \<open>d\<close>.\<close>

definition shortest :: "sem_graph \<Rightarrow> dep_relation list \<Rightarrow> int option \<Rightarrow> string \<Rightarrow> string \<Rightarrow> nat \<Rightarrow> bool" where
  "shortest g R md x y d \<longleftrightarrow> (feeds g R ^^ d) x y \<and> (\<forall>n < d. \<not> (feeds g R ^^ n) x y) \<and> within md d"

abbreviation change_relations :: "sem_change \<Rightarrow> dep_relation list" where
  "change_relations c \<equiv> relations_for_change (sc_kind c)"

definition change_done :: "sem_graph \<Rightarrow> int option \<Rightarrow> sem_change \<Rightarrow> impact_state \<Rightarrow> bool" where
  "change_done g md c s \<longleftrightarrow>
     (\<forall>y d. (\<exists>p. path_at s y (sc_identity c) = Some p \<and> ip_distance p = d) \<longleftrightarrow> shortest g (change_relations c) md (sc_identity c) y d)
   \<and> (\<forall>y p. path_at s y (sc_identity c) = Some p \<longrightarrow> path_in g (change_relations c) (sc_identity c) p \<and> ip_target p = y)
   \<and> (\<forall>y d. shortest g (change_relations c) md (sc_identity c) y d \<longrightarrow>
        (\<forall>b \<in> set (collect_boundaries g y (sc_identity c) (change_relations c)). noted s (sc_identity c) (boundary_key b)))"

definition nodes_cover :: "impact_state \<Rightarrow> bool" where
  "nodes_cover s \<longleftrightarrow> (\<forall>y r. path_at s y r \<noteq> None \<longrightarrow> map_of (pg_nodes s) y \<noteq> None)"

definition sources_known :: "sem_graph \<Rightarrow> bool" where
  "sources_known g \<longleftrightarrow> (\<forall>e \<in> set (sg_edges g). node_of g (de_source e) \<noteq> None)"

lemma impact_edge_cases:
  assumes "node_of g (de_source e) = Some n"
  shows "impact_edge g i b cur e s = s
    \<or> (pg_paths (impact_edge g i b cur e s) = pg_paths (store_better i (extend_path cur e) s)
       \<and> pg_nodes (impact_edge g i b cur e s) = AList.update (de_source e) n (pg_nodes s))"
  using assms by (simp add: impact_edge_def Let_def) (simp add: note_target_def)

lemma nodes_cover_edge:
  assumes "nodes_cover s" and "node_of g (de_source e) \<noteq> None"
  shows "nodes_cover (impact_edge g i b cur e s)"
proof -
  obtain n where n: "node_of g (de_source e) = Some n" using assms(2) by blast
  from impact_edge_cases [OF n, of i b cur s] show ?thesis
  proof
    assume e: "pg_paths (impact_edge g i b cur e s) = pg_paths (store_better i (extend_path cur e) s)
       \<and> pg_nodes (impact_edge g i b cur e s) = AList.update (de_source e) n (pg_nodes s)"
    then have "path_at (impact_edge g i b cur e s) y r = path_at (store_better i (extend_path cur e) s) y r" for y r
      by (intro path_at_paths) simp
    moreover have "path_at (store_better i (extend_path cur e) s) y r \<noteq> None \<Longrightarrow> y = de_source e \<or> path_at s y r \<noteq> None" for y r
      by (auto simp: path_at_store_better split: if_splits)
    ultimately show ?thesis
      using e assms(1) unfolding nodes_cover_def by (metis fun_upd_apply option.discI update_conv')
  qed (use assms(1) in simp)
qed

lemma nodes_cover_step:
  assumes "nodes_cover s" and "sources_known g"
  shows "nodes_cover (impact_step g md i b R s)"
proof -
  have "nodes_cover (fold (impact_edge g i b cur) es s1)"
    if "nodes_cover s1" "\<forall>e \<in> set es. e \<in> set (sg_edges g)" for cur es s1
    using that assms(2) by (induction es arbitrary: s1) (auto simp: nodes_cover_edge sources_known_def)
  moreover have "nodes_cover (popped g i R s)" using assms(1) by (simp add: nodes_cover_def)
  ultimately show ?thesis by (simp add: impact_step_eq edges_into_mem)
qed

text \<open>The well-formedness of the dictionaries, for the relations each root is propagated over.\<close>

definition world_ok :: "sem_graph \<Rightarrow> (string \<Rightarrow> dep_relation list) \<Rightarrow> impact_state \<Rightarrow> bool" where
  "world_ok g rels s \<longleftrightarrow> dicts_ok s \<and> bounds_ok g rels s \<and> nodes_cover s"

lemma world_ok_step:
  assumes "world_ok g rels s" and "sources_known g" and "path_at s (ip_target (hd (pg_queue s))) i \<noteq> None"
  shows "world_ok g rels (impact_step g md i b (rels i) s)"
  using assms by (simp add: world_ok_def dicts_ok_step bounds_ok_step nodes_cover_step)


section \<open>One change\<close>

lemma path_at_start:
  "path_at (start_change n b i s) y r = (if y = i \<and> r = i then Some (root_path i) else path_at s y r)"
proof -
  have "path_at (start_change n b i s) y r = path_at (put_path i i (root_path i) s) y r"
    by (intro path_at_paths) (simp add: start_change_def put_path_def)
  then show ?thesis by simp
qed

lemma start_change_fields:
  "pg_queue (start_change n b i s) = [root_path i]" "reached (start_change n b i s) = [i \<mapsto> 0]"
  "pg_nodes (start_change n b i s) = AList.update (dn_identity n) n (pg_nodes s)"
  "pg_bounds (start_change n b i s) = pg_bounds s"
  by (auto simp: start_change_def reached_def put_path_def)

lemma start_level:
  assumes "\<And>y. path_at s y i = None"
  shows "level_ok g R i 0 (start_change n b i s)"
  using assms by (auto simp: level_ok_def start_change_fields path_at_start path_root)

lemma start_progress: "within md 0 \<Longrightarrow> progress g md i R (start_change n b i s)"
  by (simp add: progress_def start_change_fields)

lemma start_world:
  assumes "world_ok g rels s" and "dn_identity n = i"
  shows "world_ok g rels (start_change n b i s)"
  unfolding world_ok_def
proof (intro conjI)
  have paths: "pg_paths (start_change n b i s) = pg_paths (put_path i i (root_path i) s)"
    by (simp add: start_change_def put_path_def)
  have nodes: "map_of (pg_nodes (start_change n b i s)) = (map_of (pg_nodes s))(i \<mapsto> n)"
    by (simp add: start_change_fields update_conv' assms(2))
  have "dicts_ok (put_path i i (root_path i) s)" using assms(1) by (simp add: world_ok_def dicts_ok_put)
  moreover have "\<forall>t m. ((map_of (pg_nodes s))(i \<mapsto> n)) t = Some m \<longrightarrow> dn_identity m = t"
    using assms by (simp add: world_ok_def dicts_ok_def)
  ultimately show "dicts_ok (start_change n b i s)" unfolding dicts_ok_def paths nodes by blast
  show "bounds_ok g rels (start_change n b i s)"
    by (rule bounds_ok_paths [of g rels s]) (use assms(1) in \<open>simp_all add: world_ok_def start_change_fields path_at_start\<close>)
  show "nodes_cover (start_change n b i s)"
    using assms(1) unfolding world_ok_def nodes_cover_def nodes path_at_start by (metis fun_upd_apply option.discI)
qed

text \<open>Where the queue is empty, what was reached is what can be reached.\<close>

lemma progress_complete:
  assumes "progress g md i R s" and "pg_queue s = []" and "reached s i = Some 0"
    and "(feeds g R ^^ n) i y" and "within md n"
  shows "\<exists>d \<le> n. reached s y = Some d"
  using assms(4,5)
proof (induction n arbitrary: y)
  case 0
  then show ?case using assms(3) by simp
next
  case (Suc n)
  then obtain z where z: "(feeds g R ^^ n) i z" "feeds g R z y" by auto
  have "within md n" using Suc.prems(2) by (rule within_mono) simp
  with Suc.IH z(1) obtain d where d: "d \<le> n" "reached s z = Some d" by blast
  then have "handled g md i R s z d" using assms(1,2) by (auto simp: progress_def)
  moreover have "\<not> at_limit md d"
    using Suc.prems(2) d(1) by (intro within_not_limit) (erule within_mono, simp)
  ultimately obtain d' where "reached s y = Some d'" "d' \<le> Suc d" using z(2) by (auto simp: handled_def)
  with d(1) show ?case by (intro exI [of _ d']) simp
qed

lemma reached_shortest:
  assumes "level_ok g R i c s" and "progress g md i R s" and "pg_queue s = []"
  shows "reached s y = Some d \<longleftrightarrow> shortest g R md i y d"
proof
  note ok = level_okD [OF assms(1)]
  have steps: "(feeds g R ^^ d) i y" if "reached s y = Some d" for y d
    using ok(3) [OF that] path_in_steps by metis
  show "shortest g R md i y d" if r: "reached s y = Some d"
  proof -
    have w: "within md d" using assms(2) r by (auto simp: progress_def)
    have "\<not> (feeds g R ^^ n) i y" if "n < d" for n
    proof
      assume "(feeds g R ^^ n) i y"
      moreover have "within md n" using w that by (auto intro: within_mono)
      ultimately obtain d' where "d' \<le> n" "reached s y = Some d'"
        using progress_complete [OF assms(2,3) ok(1)] by blast
      with r that show False by simp
    qed
    with w steps [OF r] show ?thesis by (simp add: shortest_def)
  qed
  show "reached s y = Some d" if sh: "shortest g R md i y d"
  proof -
    from sh obtain d' where d': "d' \<le> d" "reached s y = Some d'"
      using progress_complete [OF assms(2,3) ok(1), of d y] unfolding shortest_def by blast
    with steps sh have "d' = d" by (auto simp: shortest_def le_less)
    with d' show ?thesis by simp
  qed
qed

lemma impact_change_spec:
  assumes "change_node g c = Inr n" and "dn_identity n = sc_identity c" and "within md 0" and "sources_known g"
    and "world_ok g rels s" and "rels (sc_identity c) = change_relations c" and "\<And>y. path_at s y (sc_identity c) = None"
  obtains t where "impact_change g md c s = Inr t" "world_ok g rels t" "change_done g md c t"
    "\<And>y r. r \<noteq> sc_identity c \<Longrightarrow> path_at t y r = path_at s y r" "\<And>r k. noted s r k \<Longrightarrow> noted t r k"
proof -
  let ?i = "sc_identity c" and ?R = "change_relations c" and ?b = "sc_kind c = CH_CONTRACT"
  let ?s0 = "start_change n ?b ?i s"
  have sound0: "\<exists>c. level_ok g ?R ?i c ?s0" using start_level [OF assms(7)] by blast
  obtain t where t: "while_option (\<lambda>s. pg_queue s \<noteq> []) (impact_step g md ?i ?b ?R) ?s0 = Some t"
      "\<exists>c. level_ok g ?R ?i c t" "pg_queue t = []"
    by (rule impact_loop.loop_ends [OF sound0])
  define P where "P u \<longleftrightarrow> world_ok g rels u \<and> progress g md ?i ?R u
    \<and> (\<forall>y r. r \<noteq> ?i \<longrightarrow> path_at u y r = path_at s y r) \<and> (\<forall>r k. noted s r k \<longrightarrow> noted u r k)" for u
  have "P t"
  proof (rule impact_loop.loop_invariant [OF t(1) sound0])
    show "P ?s0"
      using start_world [OF assms(5,2), of ?b] start_progress [OF assms(3)]
      by (auto simp: P_def path_at_start noted_def start_change_fields)
    show "P (impact_step g md ?i ?b ?R u)" if u: "\<exists>c. level_ok g ?R ?i c u" "P u" "pg_queue u \<noteq> []" for u
    proof -
      from u(1) obtain c0 where c0: "level_ok g ?R ?i c0 u" by blast
      have "path_at u (ip_target (hd (pg_queue u))) ?i \<noteq> None"
        using level_okD(3,5) [OF c0] hd_in_set [OF u(3)] by fastforce
      then have "world_ok g rels (impact_step g md ?i ?b ?R u)"
        using world_ok_step [of g rels u ?i md ?b] u(2) assms(4,6) by (simp add: P_def)
      with progress_step [OF c0 u(3)] u(2) show ?thesis
        by (simp add: P_def impact_step_frame step_noted popped_noted)
    qed
  qed
  obtain c0 where c0: "level_ok g ?R ?i c0 t" using t(2) by blast
  note exact = reached_shortest [OF c0 _ t(3)]
  have "change_done g md c t"
    unfolding change_done_def
  proof (intro conjI allI impI ballI)
    have pr: "progress g md ?i ?R t" using \<open>P t\<close> by (simp add: P_def)
    show "(\<exists>p. path_at t y ?i = Some p \<and> ip_distance p = d) \<longleftrightarrow> shortest g ?R md ?i y d" for y d
    proof (cases "reached t y")
      case None
      then show ?thesis using exact [OF pr, of y d] level_okD(4) [OF c0 None] by simp
    next
      case (Some d')
      then show ?thesis using exact [OF pr, of y d] level_okD(3) [OF c0 Some] by auto
    qed
    show "path_in g ?R ?i p" "ip_target p = y" if "path_at t y ?i = Some p" for y p
      using that level_okD(3,4) [OF c0, of y] by (cases "reached t y"; auto)+
    show "noted t ?i (boundary_key b)" if "shortest g ?R md ?i y d" "b \<in> set (collect_boundaries g y ?i ?R)" for y d b
      using that exact [OF pr, of y d] pr t(3) by (auto simp: progress_def handled_def)
  qed
  with \<open>P t\<close> assms(1) t(1) show thesis
    by (intro that [of t]) (auto simp: P_def impact_change_def Let_def)
qed


section \<open>All changes\<close>

definition rels_of :: "sem_change list \<Rightarrow> string \<Rightarrow> dep_relation list" where
  "rels_of cs i = (case find_row sc_identity i cs of None \<Rightarrow> [] | Some c \<Rightarrow> change_relations c)"

lemma rels_of_mem: "distinct (map sc_identity cs) \<Longrightarrow> c \<in> set cs \<Longrightarrow> rels_of cs (sc_identity c) = change_relations c"
  by (simp add: rels_of_def find_row_unique keys_unique_def)

text \<open>A change of the model: constructed, and with a resource when the graph does not have one.\<close>

definition known_change :: "sem_graph \<Rightarrow> sem_change \<Rightarrow> bool" where
  "known_change g c \<longleftrightarrow> change_post_init c = Inr c \<and> (node_of g (sc_identity c) \<noteq> None \<or> change_resource c \<noteq> None)"

lemma known_change_node:
  assumes "known_change g c"
  obtains n where "change_node g c = Inr n" "dn_identity n = sc_identity c"
proof (cases "node_of g (sc_identity c)")
  case (Some n)
  then show thesis using that [of n] by (simp add: change_node_def node_of_identity)
next
  case None
  with assms obtain r where r: "change_resource c = Some r" by (auto simp: known_change_def)
  have "c\<lparr>sc_identity := strip (sc_identity c)\<rparr> = c"
    using assms by (auto simp: known_change_def change_post_init_def Let_def split: if_splits)
  from arg_cong [OF this, of sc_identity] have "strip (sc_identity c) = sc_identity c" by simp
  with r have "sr_identity r = sc_identity c"
    using assms by (auto simp: known_change_def change_post_init_def change_resource_def other_identity_def Let_def
        split: if_splits option.splits)
  then show thesis using None r by (intro that) (auto simp: change_node_def dn_identity_def)
qed

lemma change_done_kept:
  assumes "change_done g md c s" and "\<And>y. path_at t y (sc_identity c) = path_at s y (sc_identity c)"
    and "\<And>k. noted s (sc_identity c) k \<Longrightarrow> noted t (sc_identity c) k"
  shows "change_done g md c t"
  using assms(1,3) unfolding change_done_def assms(2) by blast

lemma impact_changes_spec:
  assumes "within md 0" and "sources_known g" and "\<forall>c \<in> set cs. known_change g c \<and> rels (sc_identity c) = change_relations c"
    and "distinct (map sc_identity cs)" and "world_ok g rels s" and "\<And>c y. c \<in> set cs \<Longrightarrow> path_at s y (sc_identity c) = None"
  shows "\<exists>t. impact_changes g md cs s = Inr t \<and> world_ok g rels t \<and> (\<forall>c \<in> set cs. change_done g md c t)
    \<and> (\<forall>r y. r \<notin> sc_identity ` set cs \<longrightarrow> path_at t y r = path_at s y r) \<and> (\<forall>r k. noted s r k \<longrightarrow> noted t r k)"
  using assms(3-6)
proof (induction cs arbitrary: s)
  case (Cons c cs)
  obtain n where n: "change_node g c = Inr n" "dn_identity n = sc_identity c"
    using known_change_node Cons.prems(1) by (metis list.set_intros(1))
  obtain t where t: "impact_change g md c s = Inr t" "world_ok g rels t" "change_done g md c t"
      "\<And>y r. r \<noteq> sc_identity c \<Longrightarrow> path_at t y r = path_at s y r" "\<And>r k. noted s r k \<Longrightarrow> noted t r k"
    by (rule impact_change_spec [OF n assms(1,2) Cons.prems(3)]) (use Cons.prems in auto)
  have other: "sc_identity x \<noteq> sc_identity c" if "x \<in> set cs" for x using Cons.prems(2) that by (metis (no_types) distinct.simps(2) imageI list.simps(9) set_map)
  have "\<exists>u. impact_changes g md cs t = Inr u \<and> world_ok g rels u \<and> (\<forall>c \<in> set cs. change_done g md c u)
    \<and> (\<forall>r y. r \<notin> sc_identity ` set cs \<longrightarrow> path_at u y r = path_at t y r) \<and> (\<forall>r k. noted t r k \<longrightarrow> noted u r k)"
    by (rule Cons.IH) (use Cons.prems t(2,4) other in auto)
  then obtain u where u: "impact_changes g md cs t = Inr u" "world_ok g rels u" "\<forall>c \<in> set cs. change_done g md c u"
    "\<forall>r y. r \<notin> sc_identity ` set cs \<longrightarrow> path_at u y r = path_at t y r" "\<forall>r k. noted t r k \<longrightarrow> noted u r k" by blast
  have "sc_identity c \<notin> sc_identity ` set cs" using other by force
  then have "change_done g md c u" using t(3) u(4,5) by (intro change_done_kept [of g md c t u]) auto
  then show ?case using t u by auto
qed simp

lemma empty_world: "world_ok g rels empty_impact"
  by (simp add: world_ok_def dicts_ok_def bounds_ok_def nodes_cover_def empty_impact_def path_at_def)


section \<open>The report\<close>

lemma res_map_all: "(\<And>x. x \<in> set xs \<Longrightarrow> f x = Inr (h x)) \<Longrightarrow> res_map f xs = Inr (map h xs)"
  by (induction xs) (auto simp: res_bind_def)

definition entry_paths :: "string \<times> (string \<times> impact_path) list \<Rightarrow> impact_path list" where
  "entry_paths entry = map snd (sort_key fst (snd entry))"

lemma entry_paths_mem:
  assumes "distinct (map fst (pg_paths s))" and "distinct (map fst d)" and "(y, d) \<in> set (pg_paths s)"
  shows "p \<in> set (entry_paths (y, d)) \<longleftrightarrow> (\<exists>r. path_at s y r = Some p)"
proof -
  have "map_of (pg_paths s) y = Some d" using assms(1,3) by (rule map_of_is_SomeI)
  then have "path_at s y r = map_of d r" for r by (simp add: path_at_def)
  then show ?thesis using assms(2) by (force simp: entry_paths_def dest: map_of_SomeD)
qed

lemma impacted_entry_ok:
  assumes "map_of (pg_nodes s) y = Some n" and "dn_identity n = y" and "\<And>p. p \<in> set (entry_paths (y, d)) \<Longrightarrow> ip_target p = y"
  obtains m where "impacted_entry g cs s (y, d) = Inr m" "impacted_identity m = y" "set (im_paths m) = set (entry_paths (y, d))"
proof -
  let ?ps = "entry_paths (y, d)"
  have roots: "sorted_set (map ip_root ?ps) = sorted_set (map ip_root (sort_key path_order ?ps))"
    by (rule sorted_set_cong) simp
  have "impacted_entry g cs s (y, d) = Inr \<lparr>im_node = n, im_roots = sorted_set (map ip_root ?ps), im_paths = sort_key path_order ?ps,
      im_sensitive = (y \<in> set (pg_sensitive s))\<rparr>"
    using assms roots
    by (auto simp: impacted_entry_def impacted_node_def impacted_post_init_def entry_paths_def Let_def res_bind_def list_ex_iff)
  then show thesis by (rule that) (simp_all add: impacted_identity_def assms(2))
qed


lemma res_map_related:
  "(\<And>x. x \<in> set xs \<Longrightarrow> \<exists>y. f x = Inr y) \<Longrightarrow> \<exists>ys. res_map f xs = Inr ys \<and> list_all2 (\<lambda>x y. f x = Inr y) xs ys"
  by (induction xs) (auto simp: res_bind_def, fastforce)

lemma list_all2_mem:
  assumes "list_all2 P xs ys"
  shows "y \<in> set ys \<Longrightarrow> \<exists>x \<in> set xs. P x y" "x \<in> set xs \<Longrightarrow> \<exists>y \<in> set ys. P x y"
  using assms by (induction rule: list_all2_induct) auto

lemma list_all2_maps:
  "list_all2 P xs ys \<Longrightarrow> (\<And>x y. x \<in> set xs \<Longrightarrow> P x y \<Longrightarrow> f x = g y) \<Longrightarrow> map f xs = map g ys"
  by (induction rule: list_all2_induct) auto

text \<open>What a finished state says of one resource or boundary.\<close>

lemma change_done_paths:
  assumes "\<forall>c \<in> set cs. change_done g md c s" and "\<forall>r y. r \<notin> sc_identity ` set cs \<longrightarrow> path_at s y r = None"
    and "path_at s y r = Some p"
  shows "r \<in> sc_identity ` set cs" "ip_root p = r" "ip_target p = y"
proof -
  show "r \<in> sc_identity ` set cs" using assms(2,3) by (metis option.discI)
  then obtain c where c: "c \<in> set cs" "r = sc_identity c" by blast
  with assms(1,3) have "path_in g (change_relations c) r p \<and> ip_target p = y" by (simp add: change_done_def)
  then show "ip_root p = r" "ip_target p = y" using path_in_steps by blast+
qed

text \<open>The entries of the report: one for each resource with a recorded path.\<close>

lemma impacted_entries_ok:
  assumes "world_ok g rels s" and "\<And>y r p. path_at s y r = Some p \<Longrightarrow> ip_root p = r \<and> ip_target p = y"
  obtains ms where "res_map (impacted_entry g cs s) (sort_key fst (pg_paths s)) = Inr ms"
    "distinct (map impacted_identity ms)"
    "\<And>y p. (\<exists>m \<in> set ms. impacted_identity m = y \<and> p \<in> set (im_paths m)) \<longleftrightarrow> path_at s y (ip_root p) = Some p"
proof -
  have ok: "distinct (map fst (pg_paths s))" "\<And>y d. (y, d) \<in> set (pg_paths s) \<Longrightarrow> d \<noteq> [] \<and> distinct (map fst d)"
    using assms(1) by (auto simp: world_ok_def dicts_ok_def)
  note mem = entry_paths_mem [OF ok(1) conjunct2 [OF ok(2)]]
  have entry: "\<exists>m. impacted_entry g cs s (y, d) = Inr m \<and> impacted_identity m = y \<and> set (im_paths m) = set (entry_paths (y, d))"
    if yd: "(y, d) \<in> set (pg_paths s)" for y d
  proof -
    have "set (entry_paths (y, d)) \<noteq> {}" using ok(2) [OF yd] by (simp add: entry_paths_def)
    then obtain q where "q \<in> set (entry_paths (y, d))" by (meson ex_in_conv)
    then obtain r where "path_at s y r = Some q" using mem [OF yd yd] by blast
    then obtain n where n: "map_of (pg_nodes s) y = Some n" using assms(1) by (fastforce simp: world_ok_def nodes_cover_def)
    then have "dn_identity n = y" using assms(1) by (simp add: world_ok_def dicts_ok_def)
    moreover have "ip_target p = y" if "p \<in> set (entry_paths (y, d))" for p using that mem [OF yd yd] assms(2) by blast
    ultimately show ?thesis using impacted_entry_ok [OF n] by metis
  qed
  have entryD: "impacted_identity m = fst x" "set (im_paths m) = set (entry_paths x)"
    if "x \<in> set (pg_paths s)" "impacted_entry g cs s x = Inr m" for x m
    using entry [of "fst x" "snd x"] that by auto
  have "\<exists>m. impacted_entry g cs s x = Inr m" if "x \<in> set (sort_key fst (pg_paths s))" for x
    using that entry [of "fst x" "snd x"] by auto
  then obtain ms where ms: "res_map (impacted_entry g cs s) (sort_key fst (pg_paths s)) = Inr ms"
      "list_all2 (\<lambda>x m. impacted_entry g cs s x = Inr m) (sort_key fst (pg_paths s)) ms"
    using res_map_related [of "sort_key fst (pg_paths s)" "impacted_entry g cs s"] by blast
  have "map impacted_identity ms = map fst (sort_key fst (pg_paths s))"
    by (rule sym, rule list_all2_maps [OF ms(2)]) (simp add: entryD)
  then have "distinct (map impacted_identity ms)" using ok(1) by (simp add: distinct_map)
  moreover have "(\<exists>m \<in> set ms. impacted_identity m = y \<and> p \<in> set (im_paths m)) \<longleftrightarrow> path_at s y (ip_root p) = Some p" for y p
  proof
    assume "\<exists>m \<in> set ms. impacted_identity m = y \<and> p \<in> set (im_paths m)"
    then obtain m x where m: "impacted_identity m = y" "p \<in> set (im_paths m)" "x \<in> set (pg_paths s)" "impacted_entry g cs s x = Inr m"
      using list_all2_mem(1) [OF ms(2)] by force
    obtain y' d where x: "x = (y', d)" by (cases x)
    with entryD [OF m(3,4)] m have "y' = y" "p \<in> set (entry_paths (y, d))" by auto
    with mem m(3) x have "\<exists>r. path_at s y r = Some p" by blast
    with assms(2) show "path_at s y (ip_root p) = Some p" by auto
  next
    assume p: "path_at s y (ip_root p) = Some p"
    then obtain d where d: "map_of (pg_paths s) y = Some d" by (auto simp: path_at_def split: option.splits)
    then have yd: "(y, d) \<in> set (pg_paths s)" by (rule map_of_SomeD)
    with p mem have "p \<in> set (entry_paths (y, d))" by blast
    moreover obtain m where "m \<in> set ms" "impacted_entry g cs s (y, d) = Inr m"
      using list_all2_mem(2) [OF ms(2), of "(y, d)"] yd by auto
    ultimately show "\<exists>m \<in> set ms. impacted_identity m = y \<and> p \<in> set (im_paths m)" using entryD [OF yd] by auto
  qed
  ultimately show thesis using ms(1) by (rule that [rotated])
qed

end
