(* ===== verification/ImpactProps.thy ===== *)
theory ImpactProps
  imports ImpactExact
begin

text \<open>
  What \<open>analyze_semantic_impact\<close> reports on a built graph: it returns, the paths are exactly the
  shortest distances, and the boundaries are exactly those of the resources that were reached.
\<close>


section \<open>Boundaries of the report\<close>

definition built_boundary :: "impact_boundary \<Rightarrow> string list \<Rightarrow> impact_boundary" where
  "built_boundary b roots = b\<lparr>bd_roots := sorted_set roots, bd_locations := sorted_set (bd_locations b)\<rparr>"

lemma built_boundary_fields [simp]:
  "boundary_key (built_boundary b roots) = boundary_key b" "set (bd_roots (built_boundary b roots)) = set roots"
  by (simp_all add: built_boundary_def boundary_key_def)

lemma report_boundaries_ok:
  assumes "world_ok g rels s"
  obtains bs where "res_map (\<lambda>(k, b, roots). boundary_post_init (b\<lparr>bd_roots := roots\<rparr>)) (pg_bounds s) = Inr bs"
    "\<And>k i. (\<exists>b \<in> set bs. boundary_key b = k \<and> i \<in> set (bd_roots b)) \<longleftrightarrow> noted s i k"
proof -
  have keys: "distinct (map fst (pg_bounds s))"
    and entry: "\<And>k b roots. map_of (pg_bounds s) k = Some (b, roots) \<Longrightarrow> entry_ok g rels s k b roots"
    using assms unfolding world_ok_def bounds_ok_def by blast+
  have mem: "(k, b, roots) \<in> set (pg_bounds s) \<longleftrightarrow> map_of (pg_bounds s) k = Some (b, roots)" for k b roots
    using keys by simp
  have ok: "boundary_key b = k" "bd_resolution b \<noteq> D_INTERNAL" if "(k, b, roots) \<in> set (pg_bounds s)" for k b roots
    using entry that unfolding mem entry_ok_def by blast+
  have "res_map (\<lambda>(k, b, roots). boundary_post_init (b\<lparr>bd_roots := roots\<rparr>)) (pg_bounds s)
      = Inr (map (\<lambda>(k, b, roots). built_boundary b roots) (pg_bounds s))"
    by (rule res_map_all) (auto simp: boundary_post_init_def built_boundary_def dest: ok(2))
  moreover have "(\<exists>b \<in> set (map (\<lambda>(k, b, roots). built_boundary b roots) (pg_bounds s)). boundary_key b = k \<and> i \<in> set (bd_roots b))
      \<longleftrightarrow> noted s i k" for k i
  proof
    assume "\<exists>b \<in> set (map (\<lambda>(k, b, roots). built_boundary b roots) (pg_bounds s)). boundary_key b = k \<and> i \<in> set (bd_roots b)"
    then obtain k' b roots where b: "(k', b, roots) \<in> set (pg_bounds s)" "boundary_key b = k" "i \<in> set roots" by auto
    with ok(1) [OF b(1)] mem show "noted s i k" unfolding noted_def by blast
  next
    assume "noted s i k"
    then obtain b roots where b: "(k, b, roots) \<in> set (pg_bounds s)" "i \<in> set roots" unfolding noted_def mem by blast
    with ok(1) [OF b(1)]
    show "\<exists>b \<in> set (map (\<lambda>(k, b, roots). built_boundary b roots) (pg_bounds s)). boundary_key b = k \<and> i \<in> set (bd_roots b)"
      by (intro bexI [of _ "built_boundary b roots"]) force+
  qed
  ultimately show thesis by (rule that)
qed

text \<open>A boundary of a root: an edge out of a resource within reach that leaves the graph.\<close>

definition meets_boundary :: "sem_graph \<Rightarrow> int option \<Rightarrow> sem_change \<Rightarrow> string \<times> string \<times> string \<times> string \<Rightarrow> bool" where
  "meets_boundary g md c k \<longleftrightarrow> (\<exists>e \<in> set (sg_edges g). edge_key e = k \<and> de_resolution e \<noteq> D_INTERNAL
     \<and> de_relation e \<in> set (change_relations c) \<and> (\<exists>d. shortest g (change_relations c) md (sc_identity c) (de_source e) d))"

lemma noted_meets:
  assumes "world_ok g rels s" and "change_done g md c s" and "rels (sc_identity c) = change_relations c"
  shows "noted s (sc_identity c) k \<longleftrightarrow> meets_boundary g md c k"
proof
  let ?i = "sc_identity c"
  assume "noted s ?i k"
  then obtain b roots where "map_of (pg_bounds s) k = Some (b, roots)" "?i \<in> set roots" unfolding noted_def by blast
  then have entry: "entry_ok g rels s k b roots" "?i \<in> set roots" using assms(1) unfolding world_ok_def bounds_ok_def by blast+
  then obtain e p where e: "e \<in> set (sg_edges g)" "de_source e = bd_source b" "de_target e = bd_target b"
      "de_relation e = bd_relation b" "de_resolution e = bd_resolution b" "de_relation e \<in> set (rels ?i)"
      "path_at s (bd_source b) ?i = Some p"
    unfolding entry_ok_def by blast
  have "edge_key e = k" "de_resolution e \<noteq> D_INTERNAL"
    using entry(1) e(2-5) by (auto simp: entry_ok_def edge_key_def boundary_key_def)
  moreover have "shortest g (change_relations c) md ?i (de_source e) (ip_distance p)"
    using assms(2) e(2,7) unfolding change_done_def by metis
  ultimately show "meets_boundary g md c k" using e(1,6) assms(3) unfolding meets_boundary_def by metis
next
  assume "meets_boundary g md c k"
  then obtain e d where e: "e \<in> set (sg_edges g)" "edge_key e = k" "de_resolution e \<noteq> D_INTERNAL"
      "de_relation e \<in> set (change_relations c)" "shortest g (change_relations c) md (sc_identity c) (de_source e) d"
    unfolding meets_boundary_def by blast
  let ?b = "boundary_of (sc_identity c) e"
  have "?b \<in> set (collect_boundaries g (de_source e) (sc_identity c) (change_relations c))"
    using e(1,3,4) by (auto simp: collect_boundaries_def outgoing_def in_relations_def)
  then have "noted s (sc_identity c) (boundary_key ?b)" using assms(2) e(5) unfolding change_done_def by blast
  with e(2) show "noted s (sc_identity c) k" by (simp add: boundary_key_def boundary_of_def edge_key_def)
qed


section \<open>The analysis\<close>

lemma built_sources_known: "built_graph sha sha_text g \<Longrightarrow> sources_known g"
  by (simp add: sources_known_def built_sources del: not_None_eq)

lemma within_zero: "within md 0 \<longleftrightarrow> \<not> (case md of None \<Rightarrow> False | Some m \<Rightarrow> m < 0)"
  by (auto simp: within_def split: option.splits)

lemma impact_exact_report:
  assumes "built_graph sha sha_text g" and "\<forall>c \<in> set cs. known_change g c" and "distinct (map sc_identity cs)"
    and "within md 0" and "\<And>j. length (sha j) = 64"
  obtains r where "analyze_semantic_impact sha sha_text g cs md = Inr r"
    "\<And>c y d. c \<in> set cs \<Longrightarrow> (\<exists>m p. impacted_of r y = Some m \<and> p \<in> set (im_paths m) \<and> ip_root p = sc_identity c \<and> ip_distance p = d)
       \<longleftrightarrow> shortest g (change_relations c) md (sc_identity c) y d"
    "\<And>y m p. impacted_of r y = Some m \<Longrightarrow> p \<in> set (im_paths m) \<Longrightarrow>
       \<exists>c \<in> set cs. path_in g (change_relations c) (sc_identity c) p \<and> ip_target p = y"
    "\<And>c k. c \<in> set cs \<Longrightarrow> (\<exists>b \<in> set (im_boundaries r). boundary_key b = k \<and> sc_identity c \<in> set (bd_roots b))
       \<longleftrightarrow> meets_boundary g md c k"
proof -
  let ?cs = "sort_key sc_identity cs" and ?rels = "rels_of cs"
  have "distinct (map sc_identity ?cs)" using assms(3) by (simp add: distinct_map)
  moreover have "\<forall>c \<in> set ?cs. known_change g c \<and> ?rels (sc_identity c) = change_relations c"
    using assms(2) rels_of_mem [OF assms(3)] by simp
  moreover have "path_at empty_impact y r = None" for y r by (simp add: path_at_def empty_impact_def)
  ultimately obtain s where s: "impact_changes g md ?cs empty_impact = Inr s" "world_ok g ?rels s"
      "\<forall>c \<in> set cs. change_done g md c s" "\<forall>r y. r \<notin> sc_identity ` set cs \<longrightarrow> path_at s y r = None"
    using impact_changes_spec [OF assms(4) built_sources_known [OF assms(1)] _ _ empty_world, of ?cs ?rels] by auto
  note paths = change_done_paths [OF s(3,4)]
  obtain ms where ms: "res_map (impacted_entry g cs s) (sort_key fst (pg_paths s)) = Inr ms" "distinct (map impacted_identity ms)"
      "\<And>y p. (\<exists>m \<in> set ms. impacted_identity m = y \<and> p \<in> set (im_paths m)) \<longleftrightarrow> path_at s y (ip_root p) = Some p"
    by (rule impacted_entries_ok [OF s(2)]) (use paths in blast)+
  obtain bs where bs: "res_map (\<lambda>(k, b, roots). boundary_post_init (b\<lparr>bd_roots := roots\<rparr>)) (pg_bounds s) = Inr bs"
      "\<And>k i. (\<exists>b \<in> set bs. boundary_key b = k \<and> i \<in> set (bd_roots b)) \<longleftrightarrow> noted s i k"
    by (rule report_boundaries_ok [OF s(2)]) blast
  define r where "r = \<lparr>im_graph = graph_fingerprint_of sha sha_text g, im_changes = sort_key sc_identity cs,
      im_impacted = sort_key impacted_identity ms, im_boundaries = sort_key boundary_key bs,
      im_metadata = [(''direction'', JStr ''reverse_dependency''), (''max_depth'', depth_json md),
        (''contract_relations'', relation_texts contract_relations),
        (''implementation_relations'', relation_texts implementation_relations),
        (''state_relations'', relation_texts state_relations)],
      im_protocol = impact_protocol\<rparr>"
  have "analyze_semantic_impact sha sha_text g cs md = Inr r"
    using assms(3-5) within_zero [of md] s(1) ms(1) bs(1)
    by (simp add: analyze_semantic_impact_def r_def report_post_init_def graph_fingerprint_of_def)
  moreover have found: "impacted_of r y = Some m \<longleftrightarrow> m \<in> set ms \<and> impacted_identity m = y" for y m
  proof -
    have "keys_unique impacted_identity (im_impacted r)" using ms(2) by (simp add: r_def keys_unique_def distinct_map)
    then show ?thesis
      unfolding impacted_of_def by (auto simp: r_def intro: find_row_unique dest: find_row_SomeD)
  qed
  have reported: "(\<exists>m. impacted_of r y = Some m \<and> p \<in> set (im_paths m)) \<longleftrightarrow> path_at s y (ip_root p) = Some p" for y p
    using ms(3) [of y p] unfolding found by blast
  have "(\<exists>m p. impacted_of r y = Some m \<and> p \<in> set (im_paths m) \<and> ip_root p = sc_identity c \<and> ip_distance p = d)
       \<longleftrightarrow> shortest g (change_relations c) md (sc_identity c) y d" if "c \<in> set cs" for c y d
  proof -
    have "(\<exists>m p. impacted_of r y = Some m \<and> p \<in> set (im_paths m) \<and> ip_root p = sc_identity c \<and> ip_distance p = d)
        \<longleftrightarrow> (\<exists>p. path_at s y (sc_identity c) = Some p \<and> ip_distance p = d)"
    proof
      assume "\<exists>m p. impacted_of r y = Some m \<and> p \<in> set (im_paths m) \<and> ip_root p = sc_identity c \<and> ip_distance p = d"
      then obtain p where "path_at s y (ip_root p) = Some p" "ip_root p = sc_identity c" "ip_distance p = d"
        using reported by blast
      then show "\<exists>p. path_at s y (sc_identity c) = Some p \<and> ip_distance p = d" by auto
    next
      assume "\<exists>p. path_at s y (sc_identity c) = Some p \<and> ip_distance p = d"
      then obtain p where p: "path_at s y (sc_identity c) = Some p" "ip_distance p = d" by blast
      with paths(2) [OF p(1)] reported [of y p]
      show "\<exists>m p. impacted_of r y = Some m \<and> p \<in> set (im_paths m) \<and> ip_root p = sc_identity c \<and> ip_distance p = d" by auto
    qed
    then show ?thesis using s(3) that unfolding change_done_def by blast
  qed
  moreover have "\<exists>c \<in> set cs. path_in g (change_relations c) (sc_identity c) p \<and> ip_target p = y"
    if "impacted_of r y = Some m" "p \<in> set (im_paths m)" for y m p
  proof -
    have p: "path_at s y (ip_root p) = Some p" using that reported by blast
    with paths(1) obtain c where "c \<in> set cs" "ip_root p = sc_identity c" by blast
    with s(3) p show ?thesis unfolding change_done_def by metis
  qed
  moreover have "(\<exists>b \<in> set (im_boundaries r). boundary_key b = k \<and> sc_identity c \<in> set (bd_roots b)) \<longleftrightarrow> meets_boundary g md c k"
    if "c \<in> set cs" for c k
    using bs(2) [of k "sc_identity c"] noted_meets [OF s(2), of md c k] s(3) that rels_of_mem [OF assms(3) that] by (simp add: r_def)
  ultimately show thesis by (rule that)
qed


section \<open>A small graph\<close>

text \<open>\<open>b\<close> calls \<open>a\<close>, \<open>c\<close> reads \<open>b\<close>, \<open>d\<close> stands alone; \<open>c\<close> imports something unknown named \<open>d\<close>.\<close>

definition tiny_digest :: "json \<Rightarrow> string" where
  "tiny_digest j = replicate 64 CHR ''0''"

definition tiny_resource :: "string \<Rightarrow> semantic_resource" where
  "tiny_resource i = \<lparr>sr_layer = L_SYMBOL, sr_kind = K_SYMBOL, sr_identity = i, sr_identifier = i, sr_path = None,
     sr_region = None, sr_language = None, sr_qualified = None, sr_signature = None, sr_concept = None, sr_subject = None,
     sr_parent = None, sr_metadata = [], sr_protocol = resource_protocol\<rparr>"

definition tiny_node :: "string \<Rightarrow> dep_node" where
  "tiny_node i = \<lparr>dn_resource = tiny_resource i, dn_public = False, dn_test = False, dn_external = False, dn_metadata = []\<rparr>"

definition tiny_edge :: "string \<Rightarrow> string \<Rightarrow> dep_relation \<Rightarrow> dep_resolution \<Rightarrow> sem_edge" where
  "tiny_edge x y r v = \<lparr>de_source = x, de_target = y, de_relation = r, de_resolution = v, de_locations = [], de_evidence = [],
     de_metadata = []\<rparr>"

definition tiny_graph :: "sem_edge list \<Rightarrow> sem_graph" where
  "tiny_graph es = \<lparr>sg_nodes = map tiny_node [''a'', ''b'', ''c'', ''d''], sg_edges = es, sg_digests = [], sg_metadata = [],
     sg_protocol = sem_graph_protocol\<rparr>"

definition chain_edges :: "sem_edge list" where
  "chain_edges = [tiny_edge ''b'' ''a'' R_CALLS D_INTERNAL, tiny_edge ''c'' ''b'' R_READS D_INTERNAL]"

definition boundary_edges :: "sem_edge list" where
  "boundary_edges = chain_edges @ [tiny_edge ''c'' ''d'' R_IMPORTS D_UNRESOLVED]"

definition tiny_change :: "string \<Rightarrow> change_kind \<Rightarrow> sem_change" where
  "tiny_change i k = \<lparr>sc_identity = i, sc_kind = k, sc_before = None, sc_after = Some (tiny_resource i), sc_metadata = []\<rparr>"

lemma tiny_strip: "strip ''a'' = ''a''" "strip ''b'' = ''b''" "strip ''c'' = ''c''" "strip ''d'' = ''d''"
  by code_simp+

lemma tiny_built_edge:
  assumes "strip x = x" and "strip y = y" and "x \<noteq> []" and "y \<noteq> []"
  shows "built_edge sha (tiny_edge x y r v)"
  unfolding built_edge_def
  by (rule exI [of _ "tiny_edge x y r v"])
    (use assms in \<open>simp add: edge_post_init_def tiny_edge_def unique_evidence_def sorted_set_def List.map_filter_def Let_def\<close>)

lemma tiny_graph_built:
  assumes "es = chain_edges \<or> es = boundary_edges"
  shows "built_graph sha sha_text (tiny_graph es)"
proof -
  have "graph_post_init sha sha_text (tiny_graph es) = Inr (tiny_graph es)"
    using assms by (auto simp: graph_post_init_def tiny_graph_def chain_edges_def boundary_edges_def tiny_edge_def
        tiny_node_def tiny_resource_def dn_identity_def edge_key_def)
  moreover have "\<forall>e \<in> set (sg_edges (tiny_graph es)). built_edge sha e"
    using assms by (auto simp: tiny_graph_def chain_edges_def boundary_edges_def tiny_strip intro!: tiny_built_edge)
  ultimately show ?thesis unfolding built_graph_def by blast
qed

text \<open>
  C15: The semantic impact analysis of built changes on a built graph returns a report. A path from a
  changed resource to a resource is in it, with distance \<open>d\<close>, exactly when \<open>d\<close> is the length of the
  shortest chain of relevant internal dependencies between them and the depth allows it; every
  reported path is such a chain; and a boundary is reported for a change exactly when an edge that
  leaves the graph starts at a resource within its reach.
\<close>

theorem impact_exact:
  assumes "built_graph sha sha_text g" and "\<forall>c \<in> set cs. known_change g c" and "distinct (map sc_identity cs)"
    and "within md 0" and "\<forall>j. length (sha j) = 64"
  shows "\<exists>r. analyze_semantic_impact sha sha_text g cs md = Inr r
    \<and> (\<forall>c \<in> set cs. \<forall>y d. (\<exists>m p. impacted_of r y = Some m \<and> p \<in> set (im_paths m) \<and> ip_root p = sc_identity c \<and> ip_distance p = d)
        \<longleftrightarrow> shortest g (relations_for_change (sc_kind c)) md (sc_identity c) y d)
    \<and> (\<forall>y m. impacted_of r y = Some m \<longrightarrow> (\<forall>p \<in> set (im_paths m).
         \<exists>c \<in> set cs. path_in g (relations_for_change (sc_kind c)) (sc_identity c) p \<and> ip_target p = y))
    \<and> (\<forall>c \<in> set cs. \<forall>k. (\<exists>b \<in> set (im_boundaries r). boundary_key b = k \<and> sc_identity c \<in> set (bd_roots b))
        \<longleftrightarrow> meets_boundary g md c k)"
proof -
  obtain r where r: "analyze_semantic_impact sha sha_text g cs md = Inr r"
    "\<And>c y d. c \<in> set cs \<Longrightarrow> (\<exists>m p. impacted_of r y = Some m \<and> p \<in> set (im_paths m) \<and> ip_root p = sc_identity c \<and> ip_distance p = d)
       \<longleftrightarrow> shortest g (change_relations c) md (sc_identity c) y d"
    "\<And>y m p. impacted_of r y = Some m \<Longrightarrow> p \<in> set (im_paths m) \<Longrightarrow>
       \<exists>c \<in> set cs. path_in g (change_relations c) (sc_identity c) p \<and> ip_target p = y"
    "\<And>c k. c \<in> set cs \<Longrightarrow> (\<exists>b \<in> set (im_boundaries r). boundary_key b = k \<and> sc_identity c \<in> set (bd_roots b))
       \<longleftrightarrow> meets_boundary g md c k"
    by (rule impact_exact_report [OF assms(1-4), of thesis]) (use assms(5) in blast)+
  then show ?thesis by blast
qed

lemma tiny_known_change:
  assumes "strip i = i" and "i \<noteq> []"
  shows "known_change g (tiny_change i k)"
  using assms by (simp add: known_change_def change_post_init_def tiny_change_def tiny_resource_def other_identity_def
      change_resource_def)

lemma tiny_feeds:
  "feeds (tiny_graph boundary_edges) R x y \<longleftrightarrow>
     (R_CALLS \<in> set R \<and> x = ''a'' \<and> y = ''b'') \<or> (R_READS \<in> set R \<and> x = ''b'' \<and> y = ''c'')"
  by (auto simp: feeds_def tiny_graph_def boundary_edges_def chain_edges_def tiny_edge_def)

theorem impact_exact_witness:
  "\<exists>r m p. analyze_semantic_impact tiny_digest id (tiny_graph boundary_edges) [tiny_change ''a'' CH_IMPLEMENTATION] None = Inr r
     \<and> impacted_of r ''c'' = Some m \<and> p \<in> set (im_paths m) \<and> ip_root p = ''a'' \<and> ip_distance p = 2"
proof -
  let ?g = "tiny_graph boundary_edges" and ?c = "tiny_change ''a'' CH_IMPLEMENTATION"
  have f: "feeds ?g implementation_relations ''a'' y \<longleftrightarrow> y = ''b''" "feeds ?g implementation_relations ''b'' y \<longleftrightarrow> y = ''c''" for y
    by (auto simp: tiny_feeds implementation_relations_def)
  have "shortest ?g (relations_for_change (sc_kind ?c)) None (sc_identity ?c) ''c'' 2"
    using f by (auto simp: shortest_def tiny_change_def within_def numeral_2_eq_2 less_Suc_eq OO_def)
  moreover have "\<forall>c \<in> set [?c]. known_change ?g c" by (simp add: tiny_known_change tiny_strip)
  ultimately show ?thesis
    using impact_exact [of tiny_digest id ?g "[?c]" None] tiny_graph_built [of boundary_edges tiny_digest id]
    by (simp add: tiny_digest_def within_def) (auto simp: tiny_change_def)
qed

end
