(* ===== verification/BlockingLaws.thy ===== *)
theory BlockingLaws
  imports Blocking ConflictLaws ImpactProps
begin

text \<open>
  The promise of candidate blocking: the walk over a candidate ends and covers everything its changes
  can reach, a pair is kept for every overlap and for every candidate with incomplete evidence, and
  so a pair that is left out would have been classified as independent.
\<close>


section \<open>One round of the walk\<close>

lemma note_target_of_fields [simp]:
  "af_queue (note_target_of p s) = af_queue s" "af_seen (note_target_of p s) = af_seen s"
  "af_affected (note_target_of p s) = af_affected s"
  by (simp_all add: note_target_of_def split: dep_resolution.splits)

lemma note_targets_fields [simp]:
  "af_queue (fold note_target_of bs s) = af_queue s" "af_seen (fold note_target_of bs s) = af_seen s"
  "af_affected (fold note_target_of bs s) = af_affected s"
  by (induction bs arbitrary: s) simp_all

lemma note_targets_unresolved:
  "set (af_unresolved (fold note_target_of bs s)) = set (af_unresolved s) \<union> {t. (t, D_UNRESOLVED) \<in> set bs}"
  by (induction bs arbitrary: s) (auto simp: note_target_of_def split: dep_resolution.splits)

text \<open>What visiting a list of neighbours changes.\<close>

definition visited :: "string list \<Rightarrow> affected_state \<Rightarrow> affected_state \<Rightarrow> (string \<times> nat) list \<Rightarrow> bool" where
  "visited ids s s' pushed \<longleftrightarrow> af_queue s' = af_queue s @ pushed \<and> set (af_seen s') = set (af_seen s) \<union> fst ` set pushed
     \<and> fst ` set pushed \<subseteq> set ids \<and> fst ` set pushed \<inter> set (af_seen s) = {} \<and> distinct (map fst pushed)
     \<and> set ids \<subseteq> set (af_seen s') \<and> set (af_affected s') = set (af_affected s) \<union> set ids \<and> af_unresolved s' = af_unresolved s"

lemma visited_none: "visited [] s s []"
  by (simp add: visited_def)

lemma visited_one: "visited [i] s (reach_next d i s) (if i \<in> set (af_seen s) then [] else [(i, d + 1)])"
  by (auto simp: visited_def reach_next_def Let_def)

lemma visited_append: "visited a s t p \<Longrightarrow> visited b t u q \<Longrightarrow> visited (a @ b) s u (p @ q)"
  by (auto simp: visited_def)

lemma visited_fold: "\<exists>p. visited ids s (fold (reach_next d) ids s) p"
proof (induction ids arbitrary: s)
  case Nil
  then show ?case using visited_none by auto
next
  case (Cons i ids)
  then show ?case using visited_append [OF visited_one] by fastforce
qed

definition boundaries_noted :: "graph_index \<Rightarrow> affected_state \<Rightarrow> affected_state" where
  "boundaries_noted ix s = fold note_target_of (gi_boundaries ix (fst (hd (af_queue s)))) (s\<lparr>af_queue := tl (af_queue s)\<rparr>)"

lemma boundaries_noted_fields [simp]:
  "af_queue (boundaries_noted ix s) = tl (af_queue s)" "af_seen (boundaries_noted ix s) = af_seen s"
  "af_affected (boundaries_noted ix s) = af_affected s"
  "set (af_unresolved (boundaries_noted ix s)) = set (af_unresolved s) \<union> {t. (t, D_UNRESOLVED) \<in> set (gi_boundaries ix (fst (hd (af_queue s))))}"
  by (simp_all add: boundaries_noted_def note_targets_unresolved)

lemma affected_step_visits:
  obtains ids p where "visited ids (boundaries_noted ix s) (affected_step ix roots md s) p"
    "set ids \<subseteq> set (gi_incoming ix (fst (hd (af_queue s)))) \<union> set (gi_children ix (fst (hd (af_queue s))))"
    "md = None \<Longrightarrow> set (gi_incoming ix (fst (hd (af_queue s)))) \<subseteq> set ids"
proof -
  let ?cur = "fst (hd (af_queue s))" and ?d = "snd (hd (af_queue s))" and ?s1 = "boundaries_noted ix s"
  let ?s2 = "fold (reach_next ?d) (gi_incoming ix ?cur) ?s1"
  obtain p where p: "visited (gi_incoming ix ?cur) ?s1 ?s2 p" using visited_fold by blast
  obtain q where q: "visited (gi_children ix ?cur) ?s2 (fold (reach_next ?d) (gi_children ix ?cur) ?s2) q" using visited_fold by blast
  have step: "affected_step ix roots md s = (if (case md of None \<Rightarrow> False | Some m \<Rightarrow> m \<le> int ?d) then ?s1
      else if owns_children ix roots ?cur then fold (reach_next ?d) (gi_children ix ?cur) ?s2 else ?s2)"
    by (simp add: affected_step_def boundaries_noted_def Let_def)
  consider "affected_step ix roots md s = ?s1" "md \<noteq> None" | "affected_step ix roots md s = ?s2"
    | "affected_step ix roots md s = fold (reach_next ?d) (gi_children ix ?cur) ?s2"
    using step by (cases "case md of None \<Rightarrow> False | Some m \<Rightarrow> m \<le> int ?d"; cases "owns_children ix roots ?cur") (auto split: option.splits)
  then show thesis
  proof cases
    case 1
    then show thesis by (intro that [of "[]" "[]"]) (auto simp: visited_none)
  next
    case 2
    then show thesis using that [of "gi_incoming ix ?cur" p] p by simp
  next
    case 3
    then show thesis using that [of "gi_incoming ix ?cur @ gi_children ix ?cur" "p @ q"] visited_append [OF p q] by simp
  qed
qed

lemma incoming_feeds: "y \<in> set (gi_incoming (index_graph sha sha_text g) x) \<longleftrightarrow> feeds g candidate_relations x y"
  by (auto simp: index_graph_def feeds_def Let_def)

lemma children_targets: "set (gi_children (index_graph sha sha_text g) x) \<subseteq> de_target ` set (sg_edges g)"
  by (auto simp: index_graph_def Let_def)

lemma incoming_sources: "set (gi_incoming (index_graph sha sha_text g) x) \<subseteq> de_source ` set (sg_edges g)"
  by (auto simp: index_graph_def Let_def)

lemma unresolved_boundary:
  "(t, D_UNRESOLVED) \<in> set (gi_boundaries (index_graph sha sha_text g) x) \<longleftrightarrow>
     (\<exists>e \<in> set (sg_edges g). de_source e = x \<and> de_target e = t \<and> de_resolution e = D_UNRESOLVED \<and> de_relation e \<in> set candidate_relations)"
  by (force simp: index_graph_def Let_def)

interpretation affected_loop: worklist af_queue fst "\<lambda>s. set (af_seen s)" "affected_step (index_graph sha sha_text g) roots md"
  "de_source ` set (sg_edges g) \<union> de_target ` set (sg_edges g)" "\<lambda>_. True" for sha sha_text g roots md
proof (unfold_locales, simp, simp)
  fix s :: affected_state
  assume "af_queue s \<noteq> []"
  let ?ix = "index_graph sha sha_text g"
  obtain ids p where v: "visited ids (boundaries_noted ?ix s) (affected_step ?ix roots md s) p"
      "set ids \<subseteq> set (gi_incoming ?ix (fst (hd (af_queue s)))) \<union> set (gi_children ?ix (fst (hd (af_queue s))))"
    by (rule affected_step_visits)
  then have "set ids \<subseteq> de_source ` set (sg_edges g) \<union> de_target ` set (sg_edges g)"
    using children_targets incoming_sources by blast
  with v(1) show "\<exists>pushed. af_queue (affected_step ?ix roots md s) = tl (af_queue s) @ pushed
      \<and> set (af_seen (affected_step ?ix roots md s)) = set (af_seen s) \<union> fst ` set pushed
      \<and> fst ` set pushed \<subseteq> de_source ` set (sg_edges g) \<union> de_target ` set (sg_edges g)
      \<and> fst ` set pushed \<inter> set (af_seen s) = {} \<and> distinct (map fst pushed)"
    by (intro exI [of _ p]) (auto simp: visited_def)
qed


section \<open>What the walk covers\<close>

definition walk_covers :: "graph_index \<Rightarrow> string set \<Rightarrow> affected_state \<Rightarrow> bool" where
  "walk_covers ix X s \<longleftrightarrow> X \<subseteq> set (af_seen s) \<and> set (af_seen s) \<subseteq> set (af_affected s)
     \<and> (\<forall>x \<in> set (af_seen s). x \<in> fst ` set (af_queue s) \<or> (set (gi_incoming ix x) \<subseteq> set (af_seen s)
          \<and> {t. (t, D_UNRESOLVED) \<in> set (gi_boundaries ix x)} \<subseteq> set (af_unresolved s)))"

lemma walk_covers_step:
  assumes "walk_covers ix X s" and "af_queue s \<noteq> []"
  shows "walk_covers ix X (affected_step ix roots None s)"
proof -
  let ?cur = "fst (hd (af_queue s))" and ?s' = "affected_step ix roots None s"
  obtain ids p where v: "visited ids (boundaries_noted ix s) ?s' p"
      "set ids \<subseteq> set (gi_incoming ix ?cur) \<union> set (gi_children ix ?cur)" "set (gi_incoming ix ?cur) \<subseteq> set ids"
    by (rule affected_step_visits [of ix s roots None]) simp
  have q: "fst ` set (af_queue s) = insert ?cur (fst ` set (tl (af_queue s)))" using assms(2) by (cases "af_queue s") auto
  have seen: "set (af_seen ?s') = set (af_seen s) \<union> fst ` set p" "set (af_affected ?s') = set (af_affected s) \<union> set ids"
      "fst ` set p \<subseteq> set ids" "set ids \<subseteq> set (af_seen ?s')" "fst ` set (af_queue ?s') = fst ` set (tl (af_queue s)) \<union> fst ` set p"
      "set (af_unresolved ?s') = set (af_unresolved s) \<union> {t. (t, D_UNRESOLVED) \<in> set (gi_boundaries ix ?cur)}"
    using v(1) by (auto simp: visited_def)
  show ?thesis
    unfolding walk_covers_def
  proof (intro conjI ballI)
    show "X \<subseteq> set (af_seen ?s')" using assms(1) seen(1) unfolding walk_covers_def by blast
    show "set (af_seen ?s') \<subseteq> set (af_affected ?s')" using assms(1) seen(1-3) unfolding walk_covers_def by blast
    show "x \<in> fst ` set (af_queue ?s') \<or> (set (gi_incoming ix x) \<subseteq> set (af_seen ?s')
          \<and> {t. (t, D_UNRESOLVED) \<in> set (gi_boundaries ix x)} \<subseteq> set (af_unresolved ?s'))" if x: "x \<in> set (af_seen ?s')" for x
    proof (cases "x \<in> fst ` set p \<or> x \<in> fst ` set (tl (af_queue s))")
      case True
      then show ?thesis using seen(5) by blast
    next
      case False
      with x seen(1) have "x \<in> set (af_seen s)" by blast
      then have "x = ?cur \<or> (set (gi_incoming ix x) \<subseteq> set (af_seen s)
          \<and> {t. (t, D_UNRESOLVED) \<in> set (gi_boundaries ix x)} \<subseteq> set (af_unresolved s))"
        using assms(1) False q unfolding walk_covers_def by blast
      then show ?thesis using v(3) seen(1,4,6) by blast
    qed
  qed
qed

lemma start_covers: "walk_covers ix (set (filter (in_index ix) roots)) (start_affected ix roots)"
  by (auto simp: walk_covers_def start_affected_def Let_def image_image)

lemma in_index_node: "in_index (index_graph sha sha_text g) i \<longleftrightarrow> node_of g i \<noteq> None"
  by (simp add: in_index_def index_graph_def node_of_def Let_def)

text \<open>The affected subgraph of a candidate, without a depth.\<close>

lemma fail_reasons_nil: "fail_reasons rs = [] \<longleftrightarrow> rs = []"
  by (metis fail_reasons_def list.set(1) remdups_eq_nil_iff set_empty set_sort)

lemma affected_subgraph_covers:
  assumes "affected_subgraph_of (index_graph sha sha_text g) c None = Inr a" and "x \<in> set (mc_changes c)"
    and "node_of g (sc_identity x) \<noteq> None" and "(feeds g candidate_relations)\<^sup>*\<^sup>* (sc_identity x) y"
  shows "y \<noteq> [] \<Longrightarrow> y \<in> set (as_affected a)"
    and "\<not> fail_closed a \<Longrightarrow> e \<in> set (sg_edges g) \<Longrightarrow> de_source e = y \<Longrightarrow> de_relation e \<in> set candidate_relations
      \<Longrightarrow> de_resolution e \<noteq> D_UNRESOLVED"
proof -
  let ?ix = "index_graph sha sha_text g" and ?roots = "map sc_identity (mc_changes c)"
  let ?X = "set (filter (in_index ?ix) ?roots)"
  obtain s where s: "while_option (\<lambda>s. af_queue s \<noteq> []) (affected_step ?ix ?roots None) (start_affected ?ix ?roots) = Some s"
      "af_queue s = []"
    by (rule affected_loop.loop_ends [OF TrueI])
  have cover: "walk_covers ?ix ?X s"
    by (rule affected_loop.loop_invariant [where P = "walk_covers ?ix ?X", OF s(1) TrueI start_covers]) (rule walk_covers_step)
  have "sc_identity x \<in> set (af_seen s)"
    using cover assms(2,3) unfolding walk_covers_def by (auto simp: in_index_node simp del: not_None_eq)
  with assms(4) have seen: "y \<in> set (af_seen s)"
  proof (induction rule: rtranclp_induct)
    case (step y z)
    then have "set (gi_incoming ?ix y) \<subseteq> set (af_seen s)" using cover s(2) by (auto simp: walk_covers_def)
    with step(2) show ?case using incoming_feeds by blast
  qed simp
  have a: "as_affected a = texts_set (af_affected s)" "as_fail a = [] \<Longrightarrow> af_unresolved s = []"
    using assms(1) s(1)
    by (auto simp: affected_subgraph_of_def subgraph_post_init_def Let_def fail_reasons_nil split: if_splits)
  show "y \<noteq> [] \<Longrightarrow> y \<in> set (as_affected a)"
    using seen cover by (auto simp: a(1) texts_set_def walk_covers_def)
  show "de_resolution e \<noteq> D_UNRESOLVED"
    if "\<not> fail_closed a" "e \<in> set (sg_edges g)" "de_source e = y" "de_relation e \<in> set candidate_relations"
  proof
    assume "de_resolution e = D_UNRESOLVED"
    then have "(de_target e, D_UNRESOLVED) \<in> set (gi_boundaries ?ix y)" using that unfolding unresolved_boundary by blast
    then have "de_target e \<in> set (af_unresolved s)" using cover seen s(2) by (auto simp: walk_covers_def)
    with a(2) that(1) show False by (simp add: fail_closed_def)
  qed
qed

lemma open_subgraph_roots:
  assumes "affected_subgraph_of (index_graph sha sha_text g) c None = Inr a" and "\<not> fail_closed a" and "x \<in> set (mc_changes c)"
  shows "node_of g (sc_identity x) \<noteq> None" "sc_kind x \<noteq> CH_UNKNOWN"
proof -
  let ?ix = "index_graph sha sha_text g"
  have "filter (\<lambda>i. \<not> in_index ?ix i) (map sc_identity (mc_changes c)) = []"
      and "\<not> list_ex (\<lambda>x. sc_kind x = CH_UNKNOWN) (mc_changes c)"
    using assms(1,2)
    by (auto simp: affected_subgraph_of_def subgraph_post_init_def Let_def fail_reasons_nil fail_closed_def
        split: if_splits option.splits)
  with assms(3) show "node_of g (sc_identity x) \<noteq> None" "sc_kind x \<noteq> CH_UNKNOWN"
    by (auto simp: filter_empty_conv in_index_node list_ex_iff simp del: not_None_eq)
qed


section \<open>The pairs of the plan\<close>

lemma two_of_mem: "x \<in> set xs \<Longrightarrow> y \<in> set xs \<Longrightarrow> x \<noteq> y \<Longrightarrow> (x, y) \<in> set (two_of xs) \<or> (y, x) \<in> set (two_of xs)"
  by (induction xs) auto

lemma sorted_pair_swap: "sorted_pair l r = sorted_pair r l"
  by (auto simp: sorted_pair_def)

lemma sorted_pair_ends [simp]: "{fst (sorted_pair l r), snd (sorted_pair l r)} = {l, r}" "fst (sorted_pair l r) = snd (sorted_pair l r) \<longleftrightarrow> l = r"
  by (auto simp: sorted_pair_def)

lemma overlap_noted:
  assumes "a \<in> set subs" and "b \<in> set subs" and "as_id a \<noteq> as_id b" and "i \<in> set (as_affected a)" and "i \<in> set (as_affected b)"
  shows "sorted_pair (as_id a) (as_id b) \<in> pn_key ` set (overlap_notes subs)"
proof -
  have "as_id a \<in> set (owners_of as_affected subs i)" "as_id b \<in> set (owners_of as_affected subs i)"
    using assms by (auto simp: owners_of_def)
  from two_of_mem [OF this assms(3)]
  obtain l r where "(l, r) \<in> set (two_of (owners_of as_affected subs i))" "sorted_pair l r = sorted_pair (as_id a) (as_id b)"
    using sorted_pair_swap by blast
  moreover have "i \<in> set (index_keys as_affected subs)" using assms(1,4) by (auto simp: index_keys_def)
  ultimately show ?thesis by (force simp: overlap_notes_def image_iff)
qed

lemma closed_noted:
  assumes "a \<in> set subs" and "b \<in> set subs" and "as_id a \<noteq> as_id b" and "fail_closed a"
  shows "sorted_pair (as_id a) (as_id b) \<in> pn_key ` set (closed_notes subs)"
  using assms by (force simp: closed_notes_def image_iff)

lemma noted_pair_key:
  assumes "noted_pair notes (sorted_pair l r) = Inr q" and "strip l = l" and "strip r = r"
  shows "cp_key q = sorted_pair l r"
  using assms by (auto simp: noted_pair_def candidate_pair_post_init_def cp_key_def sorted_pair_def Let_def split: if_splits)

text \<open>The subgraphs of a plan, and what the absence of a pair says of two of them.\<close>

lemma no_pair_separate:
  assumes "build_blocking sha sha_text g cs None = Inr plan" and "c \<in> set cs" and "d \<in> set cs"
    and "strip (mc_id c) = mc_id c" and "strip (mc_id d) = mc_id d"
    and "planned_pair plan (mc_id c) (mc_id d) = Inr None"
  obtains a b where "affected_subgraph_of (index_graph sha sha_text g) c None = Inr a"
    "affected_subgraph_of (index_graph sha sha_text g) d None = Inr b"
    "set (as_affected a) \<inter> set (as_affected b) = {}" "\<not> fail_closed a" "\<not> fail_closed b"
proof -
  let ?ix = "index_graph sha sha_text g" and ?key = "sorted_pair (mc_id c) (mc_id d)"
  define wanted where "wanted subs = filter (\<lambda>n. fst (pn_key n) \<noteq> snd (pn_key n))
      (overlap_notes subs @ unresolved_notes subs @ closed_notes subs)" for subs
  obtain subs pairs where subs: "res_map (\<lambda>c. affected_subgraph_of ?ix c None) (sort_key mc_id cs) = Inr subs"
      and pairs: "res_map (noted_pair (wanted subs)) (sorted_set (map pn_key (wanted subs))) = Inr pairs"
      and plan: "set (bl_pairs plan) = set pairs"
    using assms(1)
    by (auto simp: build_blocking_def normalize_candidates_def res_bind_eq_Inr blocking_plan_post_init_def wanted_def Let_def
        split: if_splits)
  have id: "as_id a = strip (mc_id c)" if "affected_subgraph_of ?ix c None = Inr a" for a c
    using that by (auto simp: affected_subgraph_of_def subgraph_post_init_def Let_def split: if_splits option.splits)
  note mem = list_all2_mem(2) [OF subs [unfolded res_map_Inr_iff]]
  obtain a where a: "a \<in> set subs" "affected_subgraph_of ?ix c None = Inr a" using mem [of c] assms(2) by auto
  obtain b where b: "b \<in> set subs" "affected_subgraph_of ?ix d None = Inr b" using mem [of d] assms(3) by auto
  have ids: "as_id a = mc_id c" "as_id b = mc_id d" using id a(2) b(2) assms(4,5) by auto
  have ne: "as_id a \<noteq> as_id b" and none: "\<forall>q \<in> set pairs. cp_key q \<noteq> ?key"
    using assms(4-6) by (auto simp: planned_pair_def Let_def find_None_iff plan ids sorted_pair_def split: if_splits)
  have "?key \<notin> pn_key ` set (wanted subs)"
  proof
    assume "?key \<in> pn_key ` set (wanted subs)"
    then have "?key \<in> set (sorted_set (map pn_key (wanted subs)))" by simp
    then obtain q where "q \<in> set pairs" "noted_pair (wanted subs) ?key = Inr q"
      using list_all2_mem(2) [OF pairs [unfolded res_map_Inr_iff]] by blast
    with none noted_pair_key [OF _ assms(4,5)] show False by blast
  qed
  moreover have "n \<in> set (wanted subs)" if "n \<in> set (overlap_notes subs) \<union> set (closed_notes subs)" "?key = pn_key n" for n
  proof -
    have "fst (pn_key n) \<noteq> snd (pn_key n)" unfolding that(2) [symmetric] using ne by (simp add: ids)
    with that(1) show ?thesis by (auto simp: wanted_def)
  qed
  ultimately have "?key \<notin> pn_key ` set (overlap_notes subs)" "?key \<notin> pn_key ` set (closed_notes subs)" by blast+
  then have "set (as_affected a) \<inter> set (as_affected b) = {}" "\<not> fail_closed a" "\<not> fail_closed b"
    using overlap_noted [OF a(1) b(1) ne] closed_noted [OF a(1) b(1) ne] closed_noted [OF b(1) a(1) ne [symmetric]]
      sorted_pair_swap [of "mc_id c" "mc_id d"] by (auto simp: ids)
  with a(2) b(2) show thesis by (rule that)
qed


section \<open>A pruned pair is independent\<close>

lemma change_relations_candidate: "set (relations_for_change k) \<subseteq> set candidate_relations"
  by (cases k) (auto simp: candidate_relations_def all_relations_def contract_relations_def implementation_relations_def state_relations_def)

lemma shortest_candidate:
  assumes "shortest g (relations_for_change k) md x y d"
  shows "(feeds g candidate_relations)\<^sup>*\<^sup>* x y"
proof -
  have "feeds g (relations_for_change k) \<le> feeds g candidate_relations"
    using change_relations_candidate [of k] unfolding feeds_def le_fun_def le_bool_def by blast
  from rtranclp_mono [OF this] assms show ?thesis by (auto simp: shortest_def dest: relpowp_imp_rtranclp)
qed

text \<open>One side of a pruned pair: what its impact report cannot contain.\<close>

lemma open_side:
  assumes "built_graph sha sha_text g" and "affected_subgraph_of (index_graph sha sha_text g) c None = Inr a" and "\<not> fail_closed a"
    and "\<forall>x \<in> set (mc_changes c). change_post_init x = Inr x" and "distinct (map sc_identity (mc_changes c))"
    and "\<And>j. length (sha j) = 64"
  obtains r where "safe_impact sha sha_text g (sort_key sc_identity (mc_changes c)) None = Inr r"
    "\<And>x y. x \<in> set (mc_changes c) \<Longrightarrow> y \<noteq> [] \<Longrightarrow> y \<notin> set (as_affected a) \<Longrightarrow> impact_path_between r (sc_identity x) y = None"
    "\<And>x. x \<in> set (mc_changes c) \<Longrightarrow> unresolved_targets r (sc_identity x) = []"
proof -
  let ?cs = "sort_key sc_identity (mc_changes c)"
  note roots = open_subgraph_roots [OF assms(2,3)]
  have known: "\<forall>x \<in> set ?cs. known_change g x" using assms(4) roots by (simp add: known_change_def del: not_None_eq)
  obtain r where r: "analyze_semantic_impact sha sha_text g ?cs None = Inr r"
    "\<And>c y d. c \<in> set ?cs \<Longrightarrow> (\<exists>m p. impacted_of r y = Some m \<and> p \<in> set (im_paths m) \<and> ip_root p = sc_identity c \<and> ip_distance p = d)
       \<longleftrightarrow> shortest g (change_relations c) None (sc_identity c) y d"
    "\<And>c k. c \<in> set ?cs \<Longrightarrow> (\<exists>b \<in> set (im_boundaries r). boundary_key b = k \<and> sc_identity c \<in> set (bd_roots b))
       \<longleftrightarrow> meets_boundary g None c k"
    by (rule impact_exact_report [OF assms(1) known, of None]) (use assms(5,6) in \<open>auto simp: within_def distinct_map\<close>)
  have "filter (\<lambda>c. node_of g (sc_identity c) = None \<and> change_resource c = None) ?cs = []"
    using roots by (auto simp: filter_empty_conv)
  then have "safe_impact sha sha_text g ?cs None = Inr r" using r(1) by (simp add: safe_impact_def)
  moreover have "impact_path_between r (sc_identity x) y = None"
    if "x \<in> set (mc_changes c)" "y \<noteq> []" "y \<notin> set (as_affected a)" for x y
  proof -
    have "\<not> shortest g (change_relations x) None (sc_identity x) y d" for d
      using affected_subgraph_covers(1) [OF assms(2) that(1) roots(1) [OF that(1)]] shortest_candidate that by blast
    then have "\<nexists>m p. impacted_of r y = Some m \<and> p \<in> set (im_paths m) \<and> ip_root p = sc_identity x"
      using r(2) [of x y] that(1) by auto
    then show ?thesis
      by (auto simp: impact_path_between_def filter_empty_conv split: option.splits list.splits dest!: filter_eq_ConsD)
  qed
  moreover have "unresolved_targets r (sc_identity x) = []" if "x \<in> set (mc_changes c)" for x
  proof -
    have "bd_resolution b \<noteq> D_UNRESOLVED" if b: "b \<in> set (im_boundaries r)" "sc_identity x \<in> set (bd_roots b)" for b
    proof -
      from b r(3) [of x "boundary_key b"] \<open>x \<in> set (mc_changes c)\<close> have "meets_boundary g None x (boundary_key b)" by auto
      then obtain e d where e: "e \<in> set (sg_edges g)" "edge_key e = boundary_key b" "de_relation e \<in> set (change_relations x)"
          "shortest g (change_relations x) None (sc_identity x) (de_source e) d"
        unfolding meets_boundary_def by blast
      have "de_resolution e \<noteq> D_UNRESOLVED"
        by (rule affected_subgraph_covers(2) [OF assms(2) \<open>x \<in> set (mc_changes c)\<close> roots(1) shortest_candidate [OF e(4)] assms(3) e(1)])
          (use \<open>x \<in> set (mc_changes c)\<close> e(3) change_relations_candidate in auto)
      moreover have "bd_resolution b = de_resolution e"
        using e(2) by (auto simp: edge_key_def boundary_key_def dest: resolution_value_inj)
      ultimately show ?thesis by simp
    qed
    then show ?thesis by (auto simp: unresolved_targets_def filter_empty_conv)
  qed
  ultimately show thesis by (rule that)
qed

end
