(* ===== verification/BlockingProps.thy ===== *)
theory BlockingProps
  imports BlockingLaws
begin

text \<open>
  The headline of candidate blocking: absence of a pair is a proof of independence.
\<close>

text \<open>A candidate of built changes, as its constructor leaves it.\<close>

definition built_candidate :: "mutation_candidate \<Rightarrow> bool" where
  "built_candidate c \<longleftrightarrow> candidate_post_init c = Inr c \<and> (\<forall>x \<in> set (mc_changes c). change_post_init x = Inr x)"

lemma built_candidateD:
  assumes "built_candidate c"
  shows "strip (mc_id c) = mc_id c" "mc_id c \<noteq> []" "mc_changes c \<noteq> []" "distinct (map sc_identity (mc_changes c))"
    "x \<in> set (mc_changes c) \<Longrightarrow> change_post_init x = Inr x" "x \<in> set (mc_changes c) \<Longrightarrow> sc_identity x \<noteq> []"
proof -
  have c: "candidate_post_init c = Inr c" and x: "\<And>x. x \<in> set (mc_changes c) \<Longrightarrow> change_post_init x = Inr x"
    using assms by (auto simp: built_candidate_def)
  then have eq: "c\<lparr>mc_id := strip (mc_id c), mc_changes := sort_key sc_identity (mc_changes c)\<rparr> = c" and "strip (mc_id c) \<noteq> []"
    and rest: "mc_changes c \<noteq> []" "distinct (map sc_identity (mc_changes c))"
    by (auto simp: candidate_post_init_def Let_def split: if_splits)
  from arg_cong [OF eq, of mc_id] have "strip (mc_id c) = mc_id c" by simp
  with \<open>strip (mc_id c) \<noteq> []\<close> rest show "strip (mc_id c) = mc_id c" "mc_id c \<noteq> []" "mc_changes c \<noteq> []"
    "distinct (map sc_identity (mc_changes c))" by auto
  show "change_post_init x = Inr x" if "x \<in> set (mc_changes c)" by (rule x [OF that])
  show "sc_identity x \<noteq> []" if "x \<in> set (mc_changes c)"
  proof
    assume "sc_identity x = []"
    then have "change_post_init x = Inl EmptyChange" by (simp add: change_post_init_def strip_def lstrip_by_def rstrip_by_def)
    with x [OF that] show False by simp
  qed
qed

lemma normalize_changes_built:
  assumes "built_candidate c"
  shows "normalize_changes (mc_changes c) = Inr (sort_key sc_identity (mc_changes c))"
  using built_candidateD(3,4) [OF assms] by (simp add: normalize_changes_def)

text \<open>The verdict on two changes without path and without unresolved target.\<close>

lemma classify_pair_free:
  assumes "sc_identity l \<noteq> sc_identity r" and "node_of g (sc_identity l) \<noteq> None" and "node_of g (sc_identity r) \<noteq> None"
    and "sc_kind l \<noteq> CH_UNKNOWN" and "sc_kind r \<noteq> CH_UNKNOWN"
    and "impact_path_between li (sc_identity l) (sc_identity r) = None" and "impact_path_between ri (sc_identity r) (sc_identity l) = None"
    and "unresolved_targets li (sc_identity l) = []" and "unresolved_targets ri (sc_identity r) = []"
  shows "classify_pair g li ri proofs None sensitive l r = free_verdict"
  using assms by (auto simp: classify_pair_def uncoupled_verdict_def ambiguous_targets_def free_verdict_def Let_def)

text \<open>
  C14: If an unbounded blocking plan over a built graph has no pair for two of its candidates, then the
  conflict classifier, run on their changes with any proofs it accepts and in either ordering mode,
  returns a decision, and that decision is independence, which allows them to run in parallel.
\<close>

theorem pruned_pairs_independent:
  assumes "built_graph sha sha_text g" and "\<forall>j. sha_text_ok (sha j)"
    and "build_blocking sha sha_text g cs None = Inr plan" and "\<forall>c \<in> set cs. built_candidate c"
    and "left \<in> set cs" and "right \<in> set cs" and "planned_pair plan (mc_id left) (mc_id right) = Inr None"
    and "normalize_proofs [] proofs = Inr known"
  shows "\<exists>d. classify_semantic_conflict sha sha_text g (mc_changes left) (mc_changes right) (mc_id left) (mc_id right) proofs None sensitive
      = Inr d \<and> cd_kind d = CK_INDEPENDENT \<and> parallel_safe d"
proof -
  have bl: "built_candidate left" and br: "built_candidate right" using assms(4-6) by auto
  note ld = built_candidateD [OF bl] and rd = built_candidateD [OF br]
  have sha: "length (sha j) = 64" for j using assms(2) by (simp add: sha_text_ok_def)
  have ids: "mc_id left \<noteq> mc_id right" using assms(7) ld(1) rd(1) by (auto simp: planned_pair_def Let_def split: if_splits)
  let ?ix = "index_graph sha sha_text g" and ?l = "sort_key sc_identity (mc_changes left)" and ?r = "sort_key sc_identity (mc_changes right)"
  obtain a b where a: "affected_subgraph_of ?ix left None = Inr a" "\<not> fail_closed a"
      and b: "affected_subgraph_of ?ix right None = Inr b" "\<not> fail_closed b"
      and apart: "set (as_affected a) \<inter> set (as_affected b) = {}"
    by (rule no_pair_separate [OF assms(3,5,6) ld(1) rd(1) assms(7)])
  obtain li where li: "safe_impact sha sha_text g ?l None = Inr li"
      "\<And>x y. x \<in> set (mc_changes left) \<Longrightarrow> y \<noteq> [] \<Longrightarrow> y \<notin> set (as_affected a) \<Longrightarrow> impact_path_between li (sc_identity x) y = None"
      "\<And>x. x \<in> set (mc_changes left) \<Longrightarrow> unresolved_targets li (sc_identity x) = []"
    by (rule open_side [OF assms(1) a]) (use ld sha in auto)
  obtain ri where ri: "safe_impact sha sha_text g ?r None = Inr ri"
      "\<And>x y. x \<in> set (mc_changes right) \<Longrightarrow> y \<noteq> [] \<Longrightarrow> y \<notin> set (as_affected b) \<Longrightarrow> impact_path_between ri (sc_identity x) y = None"
      "\<And>x. x \<in> set (mc_changes right) \<Longrightarrow> unresolved_targets ri (sc_identity x) = []"
    by (rule open_side [OF assms(1) b]) (use rd sha in auto)
  note lr = open_subgraph_roots [OF a] and rr = open_subgraph_roots [OF b]
  have covered: "sc_identity x \<in> set (as_affected a)" if "x \<in> set (mc_changes left)" for x
    using affected_subgraph_covers(1) [OF a(1) that lr(1) [OF that] rtranclp.rtrancl_refl] ld(6) [OF that] by blast
  have covered': "sc_identity x \<in> set (as_affected b)" if "x \<in> set (mc_changes right)" for x
    using affected_subgraph_covers(1) [OF b(1) that rr(1) [OF that] rtranclp.rtrancl_refl] rd(6) [OF that] by blast
  define vs where "vs = pair_verdicts g li ri known None sensitive ?l ?r"
  have "classify_pair g li ri known None sensitive l r = free_verdict"
    if l: "l \<in> set (mc_changes left)" and r: "r \<in> set (mc_changes right)" for l r
  proof (rule classify_pair_free)
    have "sc_identity r \<notin> set (as_affected a)" "sc_identity l \<notin> set (as_affected b)" "sc_identity l \<noteq> sc_identity r"
      using apart covered [OF l] covered' [OF r] by auto
    then show "sc_identity l \<noteq> sc_identity r" "impact_path_between li (sc_identity l) (sc_identity r) = None"
      "impact_path_between ri (sc_identity r) (sc_identity l) = None"
      using li(2) [OF l rd(6) [OF r]] ri(2) [OF r ld(6) [OF l]] by auto
  qed (use l r lr rr li(3) ri(3) in auto)
  then have "\<forall>v \<in> set vs. v = free_verdict" by (auto simp: vs_def pair_verdicts_def)
  note free = free_verdicts [OF this]
  have "sort_key sc_identity xs = [] \<longleftrightarrow> xs = []" for xs :: "sem_change list" by (metis set_empty set_sort)
  then have "sorted_set (map sc_identity ?l) \<noteq> []" "sorted_set (map sc_identity ?r) \<noteq> []" using ld(3) rd(3) by simp_all
  with free assms(2,8) li(1) ri(1) ids ld(1,2) rd(1,2) show ?thesis
    unfolding classify_semantic_conflict_def normalize_changes_built [OF bl] normalize_changes_built [OF br]
    by (simp add: conflict_post_init_def graph_fingerprint_of_def impact_fingerprint_def lift_conflict_def Let_def
        vs_def [symmetric] parallel_safe_def)
qed

text \<open>Two candidates at the ends of the chain graph that do not meet.\<close>

definition tiny_candidate :: "string \<Rightarrow> string \<Rightarrow> mutation_candidate" where
  "tiny_candidate cid i = \<lparr>mc_id = cid, mc_changes = [tiny_change i CH_CONTRACT], mc_metadata = []\<rparr>"

lemma tiny_candidate_built: "built_candidate (tiny_candidate ''L'' ''a'')" "built_candidate (tiny_candidate ''R'' ''d'')"
proof -
  have ids: "strip ''L'' = ''L''" "strip ''R'' = ''R''" by code_simp+
  show "built_candidate (tiny_candidate ''L'' ''a'')" "built_candidate (tiny_candidate ''R'' ''d'')"
    using tiny_known_change [of "''a''" "tiny_graph chain_edges" CH_CONTRACT] tiny_known_change [of "''d''" "tiny_graph chain_edges" CH_CONTRACT]
    by (simp_all add: built_candidate_def tiny_candidate_def candidate_post_init_def ids known_change_def tiny_strip Let_def)
qed

definition tiny_candidates :: "mutation_candidate list" where
  "tiny_candidates = [tiny_candidate ''L'' ''a'', tiny_candidate ''R'' ''d'']"

lemma tiny_plan:
  "case build_blocking tiny_digest id (tiny_graph chain_edges) tiny_candidates None of
     Inl _ \<Rightarrow> False | Inr plan \<Rightarrow> planned_pair plan ''L'' ''R'' = Inr None"
  by code_simp

theorem pruned_pairs_independent_witness:
  "\<exists>d. classify_semantic_conflict tiny_digest id (tiny_graph chain_edges) [tiny_change ''a'' CH_CONTRACT] [tiny_change ''d'' CH_CONTRACT]
     ''L'' ''R'' [] None False = Inr d \<and> cd_kind d = CK_INDEPENDENT \<and> parallel_safe d"
proof -
  obtain plan where plan: "build_blocking tiny_digest id (tiny_graph chain_edges) tiny_candidates None = Inr plan"
      "planned_pair plan ''L'' ''R'' = Inr None"
    using tiny_plan by (auto split: sum.splits)
  have "sha_text_ok (replicate 64 CHR ''0'')" by code_simp
  then have "\<forall>j. sha_text_ok (tiny_digest j)" by (simp add: tiny_digest_def)
  then show ?thesis
    using pruned_pairs_independent [of tiny_digest id "tiny_graph chain_edges" tiny_candidates plan "tiny_candidate ''L'' ''a''"
        "tiny_candidate ''R'' ''d''" "[]" "[]" False] plan tiny_graph_built [of chain_edges tiny_digest id] tiny_candidate_built
    by (simp add: tiny_candidates_def) (simp add: tiny_candidate_def)
qed

end
