(* ===== verification/ConflictProps.thy ===== *)
theory ConflictProps
  imports ConflictLaws ImpactProps
begin

text \<open>
  What a decision of independence proves about the graph, and where bounded traversal weakens it.
\<close>


section \<open>Independence\<close>

lemma overall_independent:
  "overall_kind vs = CK_INDEPENDENT \<Longrightarrow> v \<in> set vs \<Longrightarrow> pv_kind v = CK_INDEPENDENT"
  by (cases "pv_kind v") (force simp: overall_kind_sets split: if_splits)+

lemma coupled_independent:
  assumes "pv_kind (coupled_verdict pf sensitive l r there return) = CK_INDEPENDENT"
  shows "\<not> sensitive \<or> dependency_requires_order l \<Longrightarrow> there = None" "\<not> sensitive \<or> dependency_requires_order r \<Longrightarrow> return = None"
  using assms by (cases pf; auto simp: coupled_verdict_def Let_def split: if_splits)+

text \<open>What one pair says when it is independent.\<close>

lemma pair_independent:
  assumes "pv_kind (classify_pair g li ri proofs md sensitive l r) = CK_INDEPENDENT"
  shows "sc_identity l \<noteq> sc_identity r" "node_of g (sc_identity l) \<noteq> None" "node_of g (sc_identity r) \<noteq> None"
    "sc_kind l \<noteq> CH_UNKNOWN" "sc_kind r \<noteq> CH_UNKNOWN"
    "\<not> sensitive \<or> dependency_requires_order l \<Longrightarrow> impact_path_between li (sc_identity l) (sc_identity r) = None"
    "\<not> sensitive \<or> dependency_requires_order r \<Longrightarrow> impact_path_between ri (sc_identity r) (sc_identity l) = None"
proof -
  let ?there = "impact_path_between li (sc_identity l) (sc_identity r)"
  let ?return = "impact_path_between ri (sc_identity r) (sc_identity l)"
  have same: "pv_kind (same_resource_verdict pf i) \<noteq> CK_INDEPENDENT" for pf i
    by (simp add: same_resource_verdict_def split: option.splits)
  show "sc_identity l \<noteq> sc_identity r" "node_of g (sc_identity l) \<noteq> None" "node_of g (sc_identity r) \<noteq> None"
    "sc_kind l \<noteq> CH_UNKNOWN" "sc_kind r \<noteq> CH_UNKNOWN"
    using assms same by (auto simp: classify_pair_def Let_def split: if_splits)
  then have "?there = None \<and> ?return = None \<or> (\<exists>pf. pv_kind (coupled_verdict pf sensitive l r ?there ?return) = CK_INDEPENDENT)"
    using assms by (auto simp: classify_pair_def Let_def split: if_splits)
  then show "\<not> sensitive \<or> dependency_requires_order l \<Longrightarrow> ?there = None" "\<not> sensitive \<or> dependency_requires_order r \<Longrightarrow> ?return = None"
    using coupled_independent by blast+
qed

text \<open>Without a depth, no path in the report means no chain in the graph.\<close>

lemma no_path_unreachable:
  assumes "\<And>d. (\<exists>m p. impacted_of rep y = Some m \<and> p \<in> set (im_paths m) \<and> ip_root p = x \<and> ip_distance p = d) \<longleftrightarrow> shortest g R None x y d"
    and "impact_path_between rep x y = None"
  shows "\<not> (feeds g R)\<^sup>*\<^sup>* x y"
proof
  assume "(feeds g R)\<^sup>*\<^sup>* x y"
  then obtain n where n: "(feeds g R ^^ n) x y" using rtranclp_imp_relpowp by metis
  define d where "d = (LEAST n. (feeds g R ^^ n) x y)"
  have "shortest g R None x y d"
    using LeastI [of "\<lambda>n. (feeds g R ^^ n) x y", OF n] not_less_Least [of _ "\<lambda>n. (feeds g R ^^ n) x y"]
    by (auto simp: shortest_def within_def d_def)
  then obtain m p where m: "impacted_of rep y = Some m" "p \<in> set (im_paths m)" "ip_root p = x" using assms(1) by blast
  then have "filter (\<lambda>p. ip_root p = x) (im_paths m) \<noteq> []" by (auto simp: filter_empty_conv)
  with assms(2) m(1) show False by (auto simp: impact_path_between_def split: list.splits)
qed

text \<open>The analysis behind one side of a classification whose roots are all in the graph.\<close>

lemma side_report:
  assumes "built_graph sha sha_text g" and "\<forall>c \<in> set cs. change_post_init c = Inr c \<and> node_of g (sc_identity c) \<noteq> None"
    and "normalize_changes cs = Inr left" and "safe_impact sha sha_text g left None = Inr rep" and "\<forall>j. length (sha j) = 64" and "c \<in> set left"
  shows "impact_path_between rep (sc_identity c) y = None \<Longrightarrow> \<not> (feeds g (relations_for_change (sc_kind c)))\<^sup>*\<^sup>* (sc_identity c) y"
proof -
  have left: "left = sort_key sc_identity cs" "distinct (map sc_identity cs)"
    using assms(3) by (auto simp: normalize_changes_def split: if_splits)
  have known: "\<forall>c \<in> set left. known_change g c" using assms(2) left by (auto simp: known_change_def)
  have "filter (\<lambda>c. node_of g (sc_identity c) = None \<and> change_resource c = None) left = []"
    using assms(2) left by (auto simp: filter_empty_conv)
  then have run: "analyze_semantic_impact sha sha_text g left None = Inr rep" using assms(4) by (simp add: safe_impact_def)
  obtain r where r: "analyze_semantic_impact sha sha_text g left None = Inr r"
    "\<And>c y d. c \<in> set left \<Longrightarrow> (\<exists>m p. impacted_of r y = Some m \<and> p \<in> set (im_paths m) \<and> ip_root p = sc_identity c \<and> ip_distance p = d)
       \<longleftrightarrow> shortest g (change_relations c) None (sc_identity c) y d"
    by (rule impact_exact_report [OF assms(1) known, of None]) (use assms(5) left in \<open>auto simp: within_def distinct_map\<close>)
  with run have "r = rep" by simp
  show "\<not> (feeds g (relations_for_change (sc_kind c)))\<^sup>*\<^sup>* (sc_identity c) y" if "impact_path_between rep (sc_identity c) y = None"
    by (rule no_path_unreachable [OF r(2) [OF assms(6), unfolded \<open>r = rep\<close>] that])
qed

text \<open>
  C16: An unbounded decision of independence proves of every two changes of the two sides: they change
  different resources, both known to the graph and of known kind; and in the strict mode, or when the
  change is more than an implementation, no chain of dependencies leads from one to the other.
\<close>

theorem independent_decision_sound:
  assumes "built_graph sha sha_text g" and "\<forall>j. length (sha j) = 64"
    and "\<forall>c \<in> set left_changes \<union> set right_changes. change_post_init c = Inr c"
    and "classify_semantic_conflict sha sha_text g left_changes right_changes left_id right_id proofs None sensitive = Inr d"
    and "cd_kind d = CK_INDEPENDENT" and "l \<in> set left_changes" and "r \<in> set right_changes"
  shows "sc_identity l \<noteq> sc_identity r
    \<and> node_of g (sc_identity l) \<noteq> None \<and> node_of g (sc_identity r) \<noteq> None \<and> sc_kind l \<noteq> CH_UNKNOWN \<and> sc_kind r \<noteq> CH_UNKNOWN
    \<and> ((\<not> sensitive \<or> dependency_requires_order l) \<longrightarrow>
        \<not> (feeds g (relations_for_change (sc_kind l)))\<^sup>*\<^sup>* (sc_identity l) (sc_identity r))
    \<and> ((\<not> sensitive \<or> dependency_requires_order r) \<longrightarrow>
        \<not> (feeds g (relations_for_change (sc_kind r)))\<^sup>*\<^sup>* (sc_identity r) (sc_identity l))"
proof -
  from assms(4) obtain left right known li ri where parts:
      "normalize_changes left_changes = Inr left" "normalize_changes right_changes = Inr right" "normalize_proofs [] proofs = Inr known"
      "lift_conflict (safe_impact sha sha_text g left None) = Inr li" "lift_conflict (safe_impact sha sha_text g right None) = Inr ri"
    by (auto simp: classify_semantic_conflict_def res_bind_eq_Inr split: if_splits)
  have impacts: "safe_impact sha sha_text g left None = Inr li" "safe_impact sha sha_text g right None = Inr ri"
    using parts(4,5) by (auto simp: lift_conflict_def split: sum.splits)
  have sets: "set left = set left_changes" "set right = set right_changes"
    using parts(1,2) by (auto simp: normalize_changes_def split: if_splits)
  have "overall_kind (pair_verdicts g li ri known None sensitive left right) = CK_INDEPENDENT"
    using assms(4,5) parts by (auto simp: classify_semantic_conflict_def conflict_post_init_def Let_def split: if_splits)
  moreover have "classify_pair g li ri known None sensitive x y \<in> set (pair_verdicts g li ri known None sensitive left right)"
    if "x \<in> set left_changes" "y \<in> set right_changes" for x y
    using that unfolding sets [symmetric] pair_verdicts_def by auto
  ultimately have "pv_kind (classify_pair g li ri known None sensitive x y) = CK_INDEPENDENT"
    if "x \<in> set left_changes" "y \<in> set right_changes" for x y
    using that overall_independent by blast
  note pair = pair_independent [OF this]
  have "\<forall>c \<in> set left_changes. change_post_init c = Inr c \<and> node_of g (sc_identity c) \<noteq> None"
    using assms(3) pair(2) [OF _ assms(7)] by blast
  note side_l = side_report [OF assms(1) this parts(1) impacts(1) assms(2)]
  have "\<forall>c \<in> set right_changes. change_post_init c = Inr c \<and> node_of g (sc_identity c) \<noteq> None"
    using assms(3) pair(3) [OF assms(6)] by blast
  note side_r = side_report [OF assms(1) this parts(2) impacts(2) assms(2)]
  show ?thesis using pair [OF assms(6,7)] side_l [of l] side_r [of r] assms(6,7) sets by blast
qed


section \<open>One change on each side\<close>

lemma shortest_exists:
  "(\<exists>d. shortest g R md x y d) \<longleftrightarrow> (\<exists>n. (feeds g R ^^ n) x y \<and> within md n)"
proof
  assume "\<exists>n. (feeds g R ^^ n) x y \<and> within md n"
  then obtain n where n: "(feeds g R ^^ n) x y" "within md n" by blast
  define d where "d = (LEAST n. (feeds g R ^^ n) x y)"
  have "d \<le> n" unfolding d_def by (rule Least_le) (rule n(1))
  then have "within md d" using n(2) by (auto simp: within_def split: option.splits)
  then have "shortest g R md x y d"
    using LeastI [of "\<lambda>n. (feeds g R ^^ n) x y", OF n(1)] not_less_Least [of _ "\<lambda>n. (feeds g R ^^ n) x y"]
    by (auto simp: shortest_def d_def)
  then show "\<exists>d. shortest g R md x y d" ..
qed (auto simp: shortest_def)

lemma path_between_some:
  "impact_path_between rep x y \<noteq> None \<longleftrightarrow> (\<exists>m p. impacted_of rep y = Some m \<and> p \<in> set (im_paths m) \<and> ip_root p = x)"
proof (cases "impacted_of rep y")
  case (Some m)
  have "impact_path_between rep x y \<noteq> None \<longleftrightarrow> filter (\<lambda>p. ip_root p = x) (im_paths m) \<noteq> []"
    using Some by (auto simp: impact_path_between_def split: list.splits)
  then show ?thesis using Some by (auto simp: filter_empty_conv)
qed (simp add: impact_path_between_def)

text \<open>A side of one change: a path is reported exactly when a chain within the depth exists.\<close>

lemma one_side:
  assumes "built_graph sha sha_text g" and "change_post_init c = Inr c" and "node_of g (sc_identity c) \<noteq> None"
    and "within md 0" and "\<forall>j. sha_text_ok (sha j)"
  obtains rep where "safe_impact sha sha_text g [c] md = Inr rep"
    "\<And>y. impact_path_between rep (sc_identity c) y \<noteq> None
       \<longleftrightarrow> (\<exists>n. (feeds g (relations_for_change (sc_kind c)) ^^ n) (sc_identity c) y \<and> within md n)"
proof -
  have known: "\<forall>x \<in> set [c]. known_change g x" using assms(2,3) by (simp add: known_change_def)
  have digest: "length (sha j) = 64" for j using assms(5) by (simp add: sha_text_ok_def)
  obtain r where r: "analyze_semantic_impact sha sha_text g [c] md = Inr r"
    "\<And>x y d. x \<in> set [c] \<Longrightarrow> (\<exists>m p. impacted_of r y = Some m \<and> p \<in> set (im_paths m) \<and> ip_root p = sc_identity x \<and> ip_distance p = d)
       \<longleftrightarrow> shortest g (change_relations x) md (sc_identity x) y d"
    by (rule impact_exact_report [OF assms(1) known _ assms(4) digest]) auto
  have "impact_path_between r (sc_identity c) y \<noteq> None
       \<longleftrightarrow> (\<exists>n. (feeds g (relations_for_change (sc_kind c)) ^^ n) (sc_identity c) y \<and> within md n)" for y
  proof -
    have exact: "(\<exists>m p. impacted_of r y = Some m \<and> p \<in> set (im_paths m) \<and> ip_root p = sc_identity c \<and> ip_distance p = d)
        \<longleftrightarrow> shortest g (change_relations c) md (sc_identity c) y d" for d
      by (rule r(2)) simp
    show ?thesis unfolding path_between_some shortest_exists [symmetric] exact [symmetric] by blast
  qed
  moreover have "safe_impact sha sha_text g [c] md = Inr r" using r(1) assms(3) by (auto simp: safe_impact_def)
  ultimately show thesis by (rule that [rotated])
qed

definition ordered_kind :: "bool \<Rightarrow> bool \<Rightarrow> conflict_kind \<times> execution_order option" where
  "ordered_kind lo ro = (if lo \<and> ro then (CK_CONFLICTING, None) else if lo then (CK_ORDERED, Some LEFT_BEFORE_RIGHT)
     else if ro then (CK_ORDERED, Some RIGHT_BEFORE_LEFT) else (CK_INDEPENDENT, None))"

lemma coupled_kind:
  "pv_kind (coupled_verdict None sensitive l r p q) = fst (ordered_kind
     (p \<noteq> None \<and> (\<not> sensitive \<or> dependency_requires_order l)) (q \<noteq> None \<and> (\<not> sensitive \<or> dependency_requires_order r)))"
  "pv_order (coupled_verdict None sensitive l r p q) = snd (ordered_kind
     (p \<noteq> None \<and> (\<not> sensitive \<or> dependency_requires_order l)) (q \<noteq> None \<and> (\<not> sensitive \<or> dependency_requires_order r)))"
  by (auto simp: coupled_verdict_def ordered_kind_def Let_def)

lemma overall_single:
  assumes "(pv_kind v, pv_order v) = ordered_kind lo ro"
  shows "overall_kind [v] = pv_kind v" "overall_order [v] = pv_order v"
  using assms by (auto simp: overall_kind_def overall_order_def ordered_kind_def List.map_filter_def split: if_splits)

text \<open>
  The decision on two coupled changes without a commutativity proof, in terms of the chains of
  the graph that the depth allows.
\<close>

lemma coupled_decision:
  assumes "built_graph sha sha_text g" and "\<forall>j. sha_text_ok (sha j)"
    and "change_post_init l = Inr l" and "change_post_init r = Inr r"
    and "node_of g (sc_identity l) \<noteq> None" and "node_of g (sc_identity r) \<noteq> None"
    and "sc_identity l \<noteq> sc_identity r" and "sc_kind l \<noteq> CH_UNKNOWN" and "sc_kind r \<noteq> CH_UNKNOWN"
    and "strip lid \<noteq> []" and "strip rid \<noteq> []" and "strip lid \<noteq> strip rid" and "within md 0"
    and "there \<longleftrightarrow> (\<exists>n. (feeds g (relations_for_change (sc_kind l)) ^^ n) (sc_identity l) (sc_identity r) \<and> within md n)"
    and "return \<longleftrightarrow> (\<exists>n. (feeds g (relations_for_change (sc_kind r)) ^^ n) (sc_identity r) (sc_identity l) \<and> within md n)"
    and "there \<or> return"
  shows "\<exists>d. classify_semantic_conflict sha sha_text g [l] [r] lid rid [] md sensitive = Inr d
    \<and> (cd_kind d, cd_order d) = ordered_kind (there \<and> (\<not> sensitive \<or> dependency_requires_order l))
         (return \<and> (\<not> sensitive \<or> dependency_requires_order r))"
proof -
  obtain li where li: "safe_impact sha sha_text g [l] md = Inr li"
    "impact_path_between li (sc_identity l) (sc_identity r) \<noteq> None \<longleftrightarrow> there"
    using one_side [OF assms(1,3,5,13,2)] assms(14) by metis
  obtain ri where ri: "safe_impact sha sha_text g [r] md = Inr ri"
    "impact_path_between ri (sc_identity r) (sc_identity l) \<noteq> None \<longleftrightarrow> return"
    using one_side [OF assms(1,4,6,13,2)] assms(15) by metis
  define v where "v = classify_pair g li ri [] md sensitive l r"
  have "v = coupled_verdict None sensitive l r (impact_path_between li (sc_identity l) (sc_identity r))
      (impact_path_between ri (sc_identity r) (sc_identity l))"
    using assms(5-9,16) li(2) ri(2) by (auto simp: v_def classify_pair_def Let_def)
  then have kind: "(pv_kind v, pv_order v) = ordered_kind (there \<and> (\<not> sensitive \<or> dependency_requires_order l))
         (return \<and> (\<not> sensitive \<or> dependency_requires_order r))"
    using li(2) ri(2) by (simp add: coupled_kind)
  have vs: "pair_verdicts g li ri [] md sensitive [l] [r] = [v]" by (simp add: pair_verdicts_def v_def)
  have given: "pv_evidence v @ extra_evidence [l] [r] [v] \<noteq> []"
    using decision_evidence [of "[v]" "[l]" "[r]"] by (simp add: v_def verdict_evidence)
  have fp: "sha_text_ok (graph_fingerprint_of sha sha_text g)" "sha_text_ok (impact_fingerprint sha sha_text x)" for x
    using assms(2) by (simp_all add: graph_fingerprint_of_def impact_fingerprint_def)
  have order: "pv_kind v = CK_ORDERED \<longleftrightarrow> pv_order v \<noteq> None"
    using kind by (auto simp: ordered_kind_def split: if_splits)
  define d where "d = \<lparr>cd_graph = graph_fingerprint_of sha sha_text g, cd_left = lid, cd_right = rid,
      cd_kind = pv_kind v, cd_order = pv_order v, cd_left_changes = [sc_identity l],
      cd_right_changes = [sc_identity r], cd_left_impact = impact_fingerprint sha sha_text li,
      cd_right_impact = impact_fingerprint sha sha_text ri,
      cd_evidence = pv_evidence v @ extra_evidence [l] [r] [v], cd_metadata = conflict_metadata md sensitive 0\<rparr>"
  have run: "classify_semantic_conflict sha sha_text g [l] [r] lid rid [] md sensitive = conflict_post_init d"
    using assms(13) within_zero [of md] li(1) ri(1)
    by (simp add: classify_semantic_conflict_def normalize_changes_def lift_conflict_def vs overall_single [OF kind] d_def)
  have "\<not> (cd_kind d = CK_ORDERED \<and> cd_order d = None)" "\<not> (cd_kind d \<noteq> CK_ORDERED \<and> cd_order d \<noteq> None)"
    "cd_evidence d \<noteq> []"
    using order given by (cases "pv_order v"; simp add: d_def)+
  then have "\<exists>e. conflict_post_init d = Inr e \<and> cd_kind e = cd_kind d \<and> cd_order e = cd_order d"
    using assms(10-12) fp unfolding conflict_post_init_def Let_def
    by (simp add: d_def sorted_set_def del: append_is_Nil_conv)
  then show ?thesis unfolding run using kind by (auto simp: d_def)
qed


section \<open>Examples\<close>

lemma tiny_ordered:
  "case classify_semantic_conflict tiny_digest id (tiny_graph chain_edges) [tiny_change ''a'' CH_CONTRACT] [tiny_change ''c'' CH_IMPLEMENTATION]
     ''L'' ''R'' [] None True of Inl _ \<Rightarrow> False | Inr d \<Rightarrow> cd_kind d = CK_ORDERED \<and> cd_order d = Some LEFT_BEFORE_RIGHT"
  by code_simp

theorem classification_symmetric_witness:
  "\<exists>d. classify_semantic_conflict tiny_digest id (tiny_graph chain_edges) [tiny_change ''c'' CH_IMPLEMENTATION] [tiny_change ''a'' CH_CONTRACT]
     ''R'' ''L'' [] None True = Inr d \<and> cd_kind d = CK_ORDERED \<and> cd_order d = Some RIGHT_BEFORE_LEFT"
proof -
  obtain d where d: "classify_semantic_conflict tiny_digest id (tiny_graph chain_edges) [tiny_change ''a'' CH_CONTRACT]
      [tiny_change ''c'' CH_IMPLEMENTATION] ''L'' ''R'' [] None True = Inr d" "cd_kind d = CK_ORDERED" "cd_order d = Some LEFT_BEFORE_RIGHT"
    using tiny_ordered by (auto split: sum.splits)
  from classification_symmetric [OF d(1)] d(2,3) show ?thesis by auto
qed

lemma tiny_independent:
  "case classify_semantic_conflict tiny_digest id (tiny_graph chain_edges) [tiny_change ''c'' CH_CONTRACT] [tiny_change ''a'' CH_IMPLEMENTATION]
     ''L'' ''R'' [] None True of Inl _ \<Rightarrow> False | Inr d \<Rightarrow> cd_kind d = CK_INDEPENDENT"
  by code_simp

theorem independent_decision_sound_witness:
  "\<not> (feeds (tiny_graph chain_edges) contract_relations)\<^sup>*\<^sup>* ''c'' ''a''"
proof -
  obtain d where d: "classify_semantic_conflict tiny_digest id (tiny_graph chain_edges) [tiny_change ''c'' CH_CONTRACT]
      [tiny_change ''a'' CH_IMPLEMENTATION] ''L'' ''R'' [] None True = Inr d" "cd_kind d = CK_INDEPENDENT"
    using tiny_independent by (auto split: sum.splits)
  have "\<forall>j. length (tiny_digest j) = 64" by (simp add: tiny_digest_def)
  moreover have "\<forall>c \<in> set [tiny_change ''c'' CH_CONTRACT] \<union> set [tiny_change ''a'' CH_IMPLEMENTATION]. change_post_init c = Inr c"
    using tiny_known_change [of "''a''" "tiny_graph chain_edges" CH_IMPLEMENTATION] tiny_known_change [of "''c''" "tiny_graph chain_edges" CH_CONTRACT]
    by (simp add: known_change_def tiny_strip)
  ultimately show ?thesis
    using independent_decision_sound [OF tiny_graph_built _ _ d, of "tiny_change ''c'' CH_CONTRACT" "tiny_change ''a'' CH_IMPLEMENTATION"]
    by (simp add: tiny_change_def dependency_requires_order_def)
qed

text \<open>\<open>a\<close> calls \<open>b\<close>, \<open>b\<close> calls \<open>c\<close>, \<open>c\<close> calls \<open>a\<close>.\<close>

definition cycle_edges :: "sem_edge list" where
  "cycle_edges = [tiny_edge ''a'' ''b'' R_CALLS D_INTERNAL, tiny_edge ''b'' ''c'' R_CALLS D_INTERNAL, tiny_edge ''c'' ''a'' R_CALLS D_INTERNAL]"

lemma cycle_graph_built: "built_graph sha sha_text (tiny_graph cycle_edges)"
proof -
  have "graph_post_init sha sha_text (tiny_graph cycle_edges) = Inr (tiny_graph cycle_edges)"
    by (auto simp: graph_post_init_def tiny_graph_def cycle_edges_def tiny_edge_def tiny_node_def tiny_resource_def
        dn_identity_def edge_key_def)
  moreover have "\<forall>e \<in> set (sg_edges (tiny_graph cycle_edges)). built_edge sha e"
    by (auto simp: tiny_graph_def cycle_edges_def tiny_strip intro!: tiny_built_edge)
  ultimately show ?thesis unfolding built_graph_def by blast
qed

text \<open>
  C40: in the mutation-sensitive mode a depth can turn a required order into independence. Take a
  left change that requires an order of its dependents and a right change of known kind that
  does not, with both roots in a built graph, no commutativity proof, named sides and digests of
  64 hexadecimal digits. If the depth allows a chain from the right one to the left one, and every
  chain from the left one to the right one is longer than the depth, though there is one, then
  the bounded classification calls the two sides independent and safe to run in parallel, and
  the unbounded one requires the left side first. (The branch for coupled pairs does not ask
  whether the depth cut off the other direction.)
\<close>

theorem bounded_depth_hides_order:
  assumes "built_graph sha sha_text g" and "\<forall>j. sha_text_ok (sha j)"
    and "change_post_init l = Inr l" and "change_post_init r = Inr r"
    and "node_of g (sc_identity l) \<noteq> None" and "node_of g (sc_identity r) \<noteq> None"
    and "sc_identity l \<noteq> sc_identity r" and "sc_kind r \<noteq> CH_UNKNOWN"
    and "strip lid \<noteq> []" and "strip rid \<noteq> []" and "strip lid \<noteq> strip rid"
    and "dependency_requires_order l" and "\<not> dependency_requires_order r"
    and "(feeds g (relations_for_change (sc_kind r)) ^^ k) (sc_identity r) (sc_identity l)" and "int k \<le> m"
    and "\<forall>n. (feeds g (relations_for_change (sc_kind l)) ^^ n) (sc_identity l) (sc_identity r) \<longrightarrow> m < int n"
    and "(feeds g (relations_for_change (sc_kind l)))\<^sup>*\<^sup>* (sc_identity l) (sc_identity r)"
  shows "\<exists>d e. classify_semantic_conflict sha sha_text g [l] [r] lid rid [] (Some m) True = Inr d
      \<and> cd_kind d = CK_INDEPENDENT \<and> parallel_safe d
      \<and> classify_semantic_conflict sha sha_text g [l] [r] lid rid [] None True = Inr e
      \<and> cd_kind e = CK_ORDERED \<and> cd_order e = Some LEFT_BEFORE_RIGHT"
proof -
  have kind: "sc_kind l \<noteq> CH_UNKNOWN" using assms(12) by (auto simp: dependency_requires_order_def)
  note decide = coupled_decision [OF assms(1-7) kind assms(8-11) _ refl refl, where sensitive = True]
  have none: "\<not> (\<exists>n. (feeds g (change_relations l) ^^ n) (sc_identity l) (sc_identity r) \<and> within (Some m) n)"
    using assms(16) by (force simp: within_def)
  have some: "\<exists>n. (feeds g (change_relations r) ^^ n) (sc_identity r) (sc_identity l) \<and> within (Some m) n"
    using assms(14,15) by (auto simp: within_def)
  have "within (Some m) 0" using assms(15) by (simp add: within_def)
  from decide [OF this] none some
  have "\<exists>d. classify_semantic_conflict sha sha_text g [l] [r] lid rid [] (Some m) True = Inr d
      \<and> (cd_kind d, cd_order d) = ordered_kind False False"
    using assms(13) by simp
  then have "\<exists>d. classify_semantic_conflict sha sha_text g [l] [r] lid rid [] (Some m) True = Inr d
      \<and> cd_kind d = CK_INDEPENDENT"
    by (auto simp: ordered_kind_def)
  moreover have "\<exists>e. classify_semantic_conflict sha sha_text g [l] [r] lid rid [] None True = Inr e
      \<and> cd_kind e = CK_ORDERED \<and> cd_order e = Some LEFT_BEFORE_RIGHT"
    using decide [of None] assms(12,13) rtranclp_imp_relpowp [OF assms(17)] by (auto simp: within_def ordered_kind_def)
  ultimately show ?thesis by (auto simp: parallel_safe_def)
qed

lemma cycle_feeds:
  "R_CALLS \<in> set R \<Longrightarrow> feeds (tiny_graph cycle_edges) R x y
     \<longleftrightarrow> x = ''b'' \<and> y = ''a'' \<or> x = ''c'' \<and> y = ''b'' \<or> x = ''a'' \<and> y = ''c''"
  by (auto simp: feeds_def tiny_graph_def cycle_edges_def tiny_edge_def)

theorem bounded_depth_hides_order_witness:
  "\<exists>d. classify_semantic_conflict tiny_digest id (tiny_graph cycle_edges) [tiny_change ''a'' CH_CONTRACT]
      [tiny_change ''b'' CH_IMPLEMENTATION] ''L'' ''R'' [] (Some 1) True = Inr d \<and> parallel_safe d"
proof -
  let ?g = "tiny_graph cycle_edges" and ?l = "tiny_change ''a'' CH_CONTRACT" and ?r = "tiny_change ''b'' CH_IMPLEMENTATION"
  have known: "change_post_init ?l = Inr ?l" "change_post_init ?r = Inr ?r"
    using tiny_known_change [of "''a''" ?g CH_CONTRACT] tiny_known_change [of "''b''" ?g CH_IMPLEMENTATION]
    by (simp_all add: known_change_def tiny_strip)
  have kinds: "dependency_requires_order ?l" "\<not> dependency_requires_order ?r" "sc_kind ?r \<noteq> CH_UNKNOWN"
    "sc_identity ?l = ''a''" "sc_identity ?r = ''b''" "sc_identity ?l \<noteq> sc_identity ?r"
    by (simp_all add: tiny_change_def dependency_requires_order_def)
  have nodes: "node_of ?g (sc_identity ?l) \<noteq> None" "node_of ?g (sc_identity ?r) \<noteq> None" by code_simp+
  have sides: "strip ''L'' \<noteq> []" "strip ''R'' \<noteq> []" "strip ''L'' \<noteq> strip ''R''" by code_simp+
  have "sha_text_ok (replicate 64 CHR ''0'')" by code_simp
  then have digest: "\<forall>j. sha_text_ok (tiny_digest j)" by (simp add: tiny_digest_def)
  have calls: "R_CALLS \<in> set (relations_for_change (sc_kind ?l))" "R_CALLS \<in> set (relations_for_change (sc_kind ?r))"
    by code_simp+
  note f = cycle_feeds [OF calls(1)] cycle_feeds [OF calls(2)]
  have short: "(feeds ?g (relations_for_change (sc_kind ?r)) ^^ 1) (sc_identity ?r) (sc_identity ?l)"
    by (simp add: f kinds(4,5) OO_def)
  have "\<not> (feeds ?g (relations_for_change (sc_kind ?l)) ^^ n) ''a'' ''b''" if "n \<le> 1" for n
    using that by (cases n) (auto simp: f)
  then have long: "\<forall>n. (feeds ?g (relations_for_change (sc_kind ?l)) ^^ n) (sc_identity ?l) (sc_identity ?r) \<longrightarrow> 1 < int n"
    unfolding kinds(4,5) by (metis not_le of_nat_1 of_nat_less_iff)
  have "feeds ?g (relations_for_change (sc_kind ?l)) ''a'' ''c''" "feeds ?g (relations_for_change (sc_kind ?l)) ''c'' ''b''"
    by (simp_all add: f)
  then have chain: "(feeds ?g (relations_for_change (sc_kind ?l)))\<^sup>*\<^sup>* (sc_identity ?l) (sc_identity ?r)"
    unfolding kinds(4,5) by (meson converse_rtranclp_into_rtranclp r_into_rtranclp)
  from bounded_depth_hides_order [OF cycle_graph_built digest known nodes kinds(6,3) sides kinds(1,2) short _ long chain]
  show ?thesis by auto
qed

end
