(* ===== verification/Spec2Isabelle.thy ===== *)
theory Spec2Isabelle
  imports Codec AdmissionLaws RegProps VerifierProps SwarmStoreProps LifecycleProps GraphChange BlockingProps ConflictProps
begin

text \<open>
  Claim Plane coordinates coding agents that change one repository. An agent declares a
  \<open>ChangeIntent\<close> before it writes; an admission engine compares it with the live intents; a
  registry in SQLite keeps intents, dependencies, fences, broker instances and writer leases; and
  a swarm controller splits a task into a graph of work items, plans which of them may run side by
  side, admits them, schedules workers within a budget and integrates their results in order.
  This library models those deterministic parts, each from its source under
  \<open>src/src/claim_plane/\<close>, and proves what makes them correct.

  \<^bold>\<open>Foundations.\<close> \<open>Prelude\<close> holds the result type of fallible functions (\<open>Inl\<close> an error, \<open>Inr\<close>
  a value), the keyed tables that stand for SQL tables, and sorted and ordered de-duplication.
  \<open>PyText\<close> holds the string operations of the Python library that the code calls, on ASCII text
  (\<open>strip\<close>, \<open>normpath\<close>, \<open>fnmatchcase\<close>, line regions); \<open>PyJson\<close> the JSON values of metadata and
  payload columns, with \<open>canon\<close> for \<open>json.dumps(sort_keys=True)\<close>. \<open>TopoOrder\<close> is the interface of
  every ordering routine of the program, \<open>WriterLock\<close> the abstract lock service with fencing
  tokens.

  \<^bold>\<open>Intents and admission.\<close> \<open>Models\<close> and \<open>Codec\<close> are \<open>core/models.py\<close>: resources, operations,
  intents with their construction, decisions, \<open>to_dict\<close> and \<open>from_dict\<close>. \<open>AdmissionEngine\<close> is
  \<open>coordination/admission.py\<close>, the whole of \<open>evaluate\<close>; \<open>AdmissionLaws\<close> shows when it allows an
  intent, that its verdict on a pair is symmetric, and that two intents it admits side by side
  do not write the same lines of a file.

  \<^bold>\<open>The registry\<close> (\<open>core/registry.py\<close>, \<open>core/fencing.py\<close>, \<open>core/recovery.py\<close>). \<open>RegState\<close> is the
  database as a record of tables; \<open>DepGraph\<close> the cycle search and the refresh order; \<open>RegDeps\<close> the
  dependency rows; \<open>Intents\<close> admission, amendment, promotion, heartbeat and release; \<open>Fencing\<close>
  the transitive invalidation of dependents; \<open>Recovery\<close> pause, refresh, authority check, resume
  and acknowledgement; \<open>BrokerAuth\<close> and \<open>Broker\<close> the signed broker instances, their writer leases
  and their prepared and committed operations. \<open>RegSteps\<close> composes the transactions into a step
  relation; \<open>RegInv\<close>, \<open>FencingLaws\<close> and \<open>BrokerLaws\<close> prove the invariants per operation;
  \<open>RegLock\<close> interprets the lock service, \<open>AdmissionGate\<close> the contract between the registry and its
  evaluator; \<open>RegSamples\<close> and \<open>RegProps\<close> hold concrete runs and the properties.

  \<^bold>\<open>Verification.\<close> \<open>Manifest\<close> is the observed side of \<open>core/models.py\<close>: regions, results,
  accesses, artifacts, manifests, findings, reports and repair plans. \<open>Verifier\<close> is
  \<open>integration/verifier.py\<close>, one function per check and the batch; \<open>Repair\<close> is
  \<open>integration/repair.py\<close> and \<open>routing/policy.py\<close>. \<open>VerifierLaws\<close> says what a clean report and a
  clean batch prove about the real changes; \<open>VerifierProps\<close> joins them with the registry: what is
  granted and verified does not meet in the files.

  \<^bold>\<open>The lifecycle log\<close> (\<open>protocol/lifecycle.py\<close>). \<open>Lifecycle\<close> holds the events of the adapters, the
  transition table, the validation of a stream, its report and replay; \<open>LifecycleStore\<close> the
  append-only store with its idempotent batches, export and load. \<open>LifecycleLaws\<close> proves that every
  stream of a reachable store passes the validation, and \<open>LifecycleProps\<close> what follows: nothing is
  observed without permission, a repeated request is harmless, an export loads as it was stored.

  \<^bold>\<open>The swarm.\<close> \<open>WorkItems\<close>, \<open>WorkGraph\<close> and \<open>SwarmSession\<close> are \<open>swarm/models.py\<close>;
  \<open>SwarmBudget\<close> is \<open>swarm/budget.py\<close>; \<open>Scheduler\<close> is \<open>swarm/scheduler.py\<close> over the run records of
  \<open>swarm/runs.py\<close> and the admission plan of \<open>swarm/admission.py\<close>; \<open>BatchOrder\<close> and \<open>Concurrency\<close>
  are \<open>swarm/concurrency.py\<close>; \<open>SharedAdmission\<close> is \<open>compute_shared_admission\<close> with its helpers;
  \<open>Worktrees\<close> is \<open>swarm/worktrees.py\<close>, \<open>MergeQueue\<close> is \<open>swarm/merge_queue.py\<close>, and \<open>SwarmStore\<close>
  every transaction of \<open>swarm/store.py\<close>. The laws: \<open>WorkGraphLaws\<close> and \<open>WorkGraphProps\<close> (order,
  layers, acceptance, round trip), \<open>SwarmBudgetLaws\<close> (ceilings), \<open>SwarmSessionLaws\<close> (edits make old
  admissions stale), \<open>SchedulerLaws\<close> (frontier, capacity, progress), \<open>ConcurrencyLaws\<close> (waves and
  what shares a wave), \<open>SharedAdmissionLaws\<close> (what is admitted side by side), \<open>MergeQueueLaws\<close>
  (order and progress of integration), \<open>SwarmStoreLaws\<close> (the abstract cell of a session and its
  refinement by the store) and \<open>SwarmStoreProps\<close> (reservations, and two interleavings with the
  services around the store that lose a decision).

  \<^bold>\<open>Semantic analysis.\<close> \<open>SemResource\<close> is \<open>core/resource_ir.py\<close>, the normal form of resources;
  \<open>SemGraph\<close> is \<open>core/dependency_graph.py\<close>, the graph with its construction and queries; \<open>Impact\<close> and
  \<open>GraphChange\<close> are \<open>core/impact.py\<close>, the propagation of changes and the comparison of snapshots;
  \<open>Blocking\<close> is \<open>core/candidate_blocking.py\<close> and \<open>SemConflict\<close> is \<open>core/conflict.py\<close>. The loops over a
  queue are \<open>while_option\<close>; the locale of \<open>Worklist\<close> proves once that such a loop ends, and it is
  interpreted on the impact loop (\<open>ImpactLaws\<close>) and on the walk over a candidate (\<open>BlockingLaws\<close>).
  \<open>GraphLaws\<close> says what a built graph guarantees; \<open>ImpactSpec\<close>, \<open>ImpactExact\<close> and \<open>ImpactProps\<close> show
  that a report is exact: shortest chains of relevant dependencies, no others, and the boundaries
  they touch. \<open>ConflictLaws\<close> proves the symmetry of the classification, \<open>ConflictProps\<close> what a decision
  of independence means in the graph and when a depth turns a required order into independence,
  and \<open>BlockingProps\<close> joins the three: a pair that blocking leaves out is one that the classifier
  would call independent.

  \<^bold>\<open>How the parts meet.\<close> The registry takes the evaluator as an argument, as the code does; the
  gate instantiates it with the engine. Shared admission runs the same engine over the intents
  built from the work graph. The scheduler reads the session and the shared admission, the merge
  queue reads both with the run records, and the store checks all of them against each other
  inside one transaction. Each database transaction is one function of the state and the clock
  readings it takes; a failed transaction returns an error and no state, which is the rollback.

  \<^bold>\<open>Bounds.\<close> Loops that are not structural carry a bound that is proved never to be reached: the
  cycle search counts node visits, the ordering loops use one round more than there are nodes
  (every round removes a node), invalidation two rounds more than there are intents (an intent is
  queued at most once). The queue loops of
  the semantic analysis have no bound: they are \<open>while_option\<close> and proved to end, because every
  resource is queued at most once.

  \<^bold>\<open>Parameters.\<close> SHA-256, HMAC and \<open>Path.resolve\<close> are function arguments. Where a result depends
  on them, the hypothesis says what it needs: digests of at least twenty (in the semantic analysis
  exactly 64) characters of hexadecimal text, and equal digests only where the theorem compares fingerprints. Clocks are
  arguments: integers of microseconds in the registry, ISO text in the swarm.

  \<^bold>\<open>Conditions of the separation results.\<close> What admission keeps apart is proved for writes in
  canonical spelling (\<open>canonical_path\<close> in \<open>AdmissionLaws\<close>): the overlap test of the engine strips
  leading dots and slashes and the scope check does not, and \<open>dotfile_overlap_missed\<close> shows two
  admitted writers of one dotfile. Over runs of the registry two conditions are added (\<open>orderly\<close> in
  \<open>AdmissionGate\<close>): no lease lapses between the two clock readings of one admission, which
  \<open>RegProps\<close> shows to be needed, for any state and any pair of writes, and no digest collision on
  a repeated admission. Shared admission needs a validated graph and digests that do not shorten.

  \<^bold>\<open>Not modelled.\<close> Text outside ASCII; floating point (durations, wall time); SQLite itself beyond
  atomic transactions with the declared keys; payload columns are held as values, with the
  round trip of sessions, intents and work graphs proved apart; schema migration; the order of
  Python set iteration, which the code sorts before use; the columns that only record when an
  event occurred. The semantic stages of the concurrency planner (\<open>semantic_graph\<close> and the
  reports built from it): their reports enter shared admission as values. The services that
  drive git, processes and clocks (\<open>merge_service\<close>, \<open>codex_runner\<close>, \<open>recovery\<close>,
  \<open>verification\<close>), the file-system side of the broker, code intelligence, the integration and
  validation runners, the command line, connectors and console, and the experiment drivers:
  they are input and output around the state changes modelled here, or read the formats of tools
  outside the repository. The payloads of lifecycle drafts (digests and lengths in place of the
  request's texts) are arguments.
\<close>

end
